(* ===== verification/Prelude.thy ===== *)
theory Prelude
  imports Main "HOL-Library.Word" "HOL-Library.Char_ord" "HOL-Library.List_Lexorder"
    "HOL-Library.Sublist"
begin

text \<open>
  What every component shares: the string helpers of \<open>base/strings/string_util.h\<close> and
  \<open>base/strings/string_split.h\<close> that the code calls in the role of a standard library, written
  out as their headers document them, the searches of \<open>std::string\<close> and
  \<open>base::StringPiece\<close> (\<open>find\<close>, \<open>rfind\<close>, \<open>substr\<close>), the value type that stands for a parsed
  \<open>GURL\<close>, and lemma collections. A \<open>string\<close> is a list of 8-bit characters, so
  \<open>length\<close> counts bytes, and \<open><\<close> on strings is the order of \<open>std::string\<close> (bytes as
  unsigned numbers, lexicographic).
\<close>

named_theorems string_simps "unfolding rules of the string helpers"
named_theorems parser_defs "the parser's definitions"
named_theorems matcher_defs "the definitions used while filters are matched"
named_theorems state_defs "the definitions of the stateful components"

section \<open>Characters\<close>

definition IsAsciiUpper :: "char \<Rightarrow> bool" where
  "IsAsciiUpper c \<longleftrightarrow> 65 \<le> (of_char c :: nat) \<and> (of_char c :: nat) \<le> 90"

definition IsAsciiLower :: "char \<Rightarrow> bool" where
  "IsAsciiLower c \<longleftrightarrow> 97 \<le> (of_char c :: nat) \<and> (of_char c :: nat) \<le> 122"

definition IsAsciiDigit :: "char \<Rightarrow> bool" where
  "IsAsciiDigit c \<longleftrightarrow> 48 \<le> (of_char c :: nat) \<and> (of_char c :: nat) \<le> 57"

definition IsAsciiAlphaNumeric :: "char \<Rightarrow> bool" where
  "IsAsciiAlphaNumeric c \<longleftrightarrow> IsAsciiUpper c \<or> IsAsciiLower c \<or> IsAsciiDigit c"

definition ToLowerChar :: "char \<Rightarrow> char" where
  "ToLowerChar c = (if IsAsciiUpper c then char_of ((of_char c :: nat) + 32) else c)"

definition ToUpperChar :: "char \<Rightarrow> char" where
  "ToUpperChar c = (if IsAsciiLower c then char_of ((of_char c :: nat) - 32) else c)"

text \<open>\<open>base::kWhitespaceASCII\<close>: tab, line feed, vertical tab, form feed, return, blank.\<close>

definition kWhitespaceASCII :: string where
  "kWhitespaceASCII = map char_of [9 :: nat, 10, 11, 12, 13, 32]"

definition IsAsciiWhitespace :: "char \<Rightarrow> bool" where
  "IsAsciiWhitespace c \<longleftrightarrow> c \<in> set kWhitespaceASCII"

text \<open>The same tests on the bits of a character, for evaluation.\<close>

lemma IsAsciiUpper_bits [simp, code]:
  "IsAsciiUpper (Char b0 b1 b2 b3 b4 b5 b6 b7) \<longleftrightarrow>
     \<not> b7 \<and> b6 \<and> \<not> b5 \<and> (b0 \<or> b1 \<or> b2 \<or> b3 \<or> b4) \<and> \<not> (b4 \<and> b3 \<and> (b2 \<or> b1 \<and> b0))"
  by (cases b0; cases b1; cases b2; cases b3; cases b4; cases b5; cases b6; cases b7)
    (simp_all add: IsAsciiUpper_def)

lemma IsAsciiLower_bits [simp, code]:
  "IsAsciiLower (Char b0 b1 b2 b3 b4 b5 b6 b7) \<longleftrightarrow>
     \<not> b7 \<and> b6 \<and> b5 \<and> (b0 \<or> b1 \<or> b2 \<or> b3 \<or> b4) \<and> \<not> (b4 \<and> b3 \<and> (b2 \<or> b1 \<and> b0))"
  by (cases b0; cases b1; cases b2; cases b3; cases b4; cases b5; cases b6; cases b7)
    (simp_all add: IsAsciiLower_def)

lemma IsAsciiDigit_bits [simp, code]:
  "IsAsciiDigit (Char b0 b1 b2 b3 b4 b5 b6 b7) \<longleftrightarrow>
     \<not> b7 \<and> \<not> b6 \<and> b5 \<and> b4 \<and> \<not> (b3 \<and> (b2 \<or> b1))"
  by (cases b0; cases b1; cases b2; cases b3; cases b4; cases b5; cases b6; cases b7)
    (simp_all add: IsAsciiDigit_def)

lemma ToLowerChar_bits [simp, code]:
  "ToLowerChar (Char b0 b1 b2 b3 b4 b5 b6 b7) =
     (let c = Char b0 b1 b2 b3 b4 b5 b6 b7
      in if IsAsciiUpper c then Char b0 b1 b2 b3 b4 True b6 b7 else c)"
  unfolding Let_def
  by (cases b0; cases b1; cases b2; cases b3; cases b4; cases b5; cases b6; cases b7)
    (simp_all add: ToLowerChar_def char_of_def bit_0)

lemma of_char_less_256: "(of_char c :: nat) < 256"
  by simp

lemma ToLowerChar_idem [simp]: "ToLowerChar (ToLowerChar c) = ToLowerChar c"
  by (simp add: ToLowerChar_def IsAsciiUpper_def)

lemma ToLowerChar_alnum [simp]: "IsAsciiAlphaNumeric (ToLowerChar c) = IsAsciiAlphaNumeric c"
  by (auto simp: ToLowerChar_def IsAsciiAlphaNumeric_def IsAsciiUpper_def IsAsciiLower_def
      IsAsciiDigit_def)

lemma ToLowerChar_not_upper [simp]: "\<not> IsAsciiUpper (ToLowerChar c)"
  by (auto simp: ToLowerChar_def IsAsciiUpper_def)

lemma ToLowerChar_id: "\<not> IsAsciiUpper c \<Longrightarrow> ToLowerChar c = c"
  by (simp add: ToLowerChar_def)

lemma ToLowerChar_nonalnum: "\<not> IsAsciiAlphaNumeric c \<Longrightarrow> ToLowerChar c = c"
  by (simp add: ToLowerChar_def IsAsciiAlphaNumeric_def)

lemma ToLowerChar_eq_nonalnum:
  assumes "\<not> IsAsciiAlphaNumeric d"
  shows "ToLowerChar c = d \<longleftrightarrow> c = d"
proof
  assume "ToLowerChar c = d"
  then have "\<not> IsAsciiAlphaNumeric c"
    using assms ToLowerChar_alnum [of c] by simp
  with \<open>ToLowerChar c = d\<close> show "c = d"
    by (simp add: ToLowerChar_nonalnum)
next
  assume "c = d"
  with assms show "ToLowerChar c = d" by (simp add: ToLowerChar_nonalnum)
qed

section \<open>Strings\<close>

definition ToLowerASCII :: "string \<Rightarrow> string" where
  "ToLowerASCII s = map ToLowerChar s"

definition ToUpperASCII :: "string \<Rightarrow> string" where
  "ToUpperASCII s = map ToUpperChar s"

lemma ToLowerASCII_simps [simp]:
  "ToLowerASCII [] = []"
  "ToLowerASCII (c # s) = ToLowerChar c # ToLowerASCII s"
  "ToLowerASCII (s @ t) = ToLowerASCII s @ ToLowerASCII t"
  "length (ToLowerASCII s) = length s"
  "ToLowerASCII (ToLowerASCII s) = ToLowerASCII s"
  "ToLowerASCII s = [] \<longleftrightarrow> s = []"
  by (simp_all add: ToLowerASCII_def)

lemma ToLowerASCII_id: "(\<And>c. c \<in> set s \<Longrightarrow> \<not> IsAsciiUpper c) \<Longrightarrow> ToLowerASCII s = s"
  by (induction s) (simp_all add: ToLowerChar_id)

lemma ToLowerASCII_no_upper: "c \<in> set (ToLowerASCII s) \<Longrightarrow> \<not> IsAsciiUpper c"
  by (auto simp: ToLowerASCII_def)

definition StartsWith :: "string \<Rightarrow> string \<Rightarrow> bool" where
  "StartsWith s p \<longleftrightarrow> take (length p) s = p"

definition EndsWith :: "string \<Rightarrow> string \<Rightarrow> bool" where
  "EndsWith s p \<longleftrightarrow> length p \<le> length s \<and> drop (length s - length p) s = p"

lemma StartsWith_iff: "StartsWith s p \<longleftrightarrow> (\<exists>r. s = p @ r)"
  by (metis StartsWith_def append_eq_conv_conj append_take_drop_id)

lemma StartsWith_Nil [simp]: "StartsWith s []"
  by (simp add: StartsWith_def)

lemma StartsWith_append [simp]: "StartsWith (p @ r) p"
  by (simp add: StartsWith_def)

lemma StartsWithE: "StartsWith s p \<Longrightarrow> (\<And>r. s = p @ r \<Longrightarrow> P) \<Longrightarrow> P"
  by (auto simp: StartsWith_iff)

lemma StartsWith_Cons [simp]: "StartsWith (c # s) (d # p) \<longleftrightarrow> c = d \<and> StartsWith s p"
  by (auto simp: StartsWith_def)

lemma StartsWith_Nil_iff [simp]: "StartsWith [] p \<longleftrightarrow> p = []"
  by (auto simp: StartsWith_def)

lemma EndsWith_iff: "EndsWith s p \<longleftrightarrow> (\<exists>r. s = r @ p)"
proof
  assume "EndsWith s p"
  then have "s = take (length s - length p) s @ p"
    by (metis EndsWith_def append_take_drop_id)
  then show "\<exists>r. s = r @ p" ..
next
  assume "\<exists>r. s = r @ p"
  then show "EndsWith s p" by (auto simp: EndsWith_def)
qed

lemma EndsWith_append [simp]: "EndsWith (r @ p) p"
  by (auto simp: EndsWith_iff)

lemma EndsWith_Nil [simp]: "EndsWith s []"
  by (simp add: EndsWith_def)

subsection \<open>Searching\<close>

text \<open>\<open>find(c)\<close>: the first position of a character; \<open>rfind(c)\<close>: its last.\<close>

fun find_char :: "char \<Rightarrow> string \<Rightarrow> nat option" where
  "find_char c [] = None"
| "find_char c (x # xs) = (if x = c then Some 0 else map_option Suc (find_char c xs))"

definition rfind_char :: "char \<Rightarrow> string \<Rightarrow> nat option" where
  "rfind_char c s = map_option (\<lambda>i. length s - 1 - i) (find_char c (rev s))"

lemma find_char_None: "find_char c s = None \<longleftrightarrow> c \<notin> set s"
  by (induction s) auto

lemma find_char_Some:
  "find_char c s = Some i \<Longrightarrow> i < length s \<and> s ! i = c \<and> c \<notin> set (take i s)"
  by (induction s arbitrary: i) (auto split: if_splits)

lemma find_char_split:
  assumes "find_char c s = Some i"
  shows "s = take i s @ c # drop (Suc i) s"
  using find_char_Some [OF assms] by (metis id_take_nth_drop)

lemma find_char_append: "c \<notin> set a \<Longrightarrow> find_char c (a @ c # b) = Some (length a)"
  by (induction a) auto

lemma rfind_char_None: "rfind_char c s = None \<longleftrightarrow> c \<notin> set s"
  by (simp add: rfind_char_def find_char_None)

lemma rfind_char_Some:
  assumes "rfind_char c s = Some i"
  shows "i < length s" "s ! i = c" "c \<notin> set (drop (Suc i) s)"
proof -
  obtain j where j: "find_char c (rev s) = Some j" "i = length s - 1 - j"
    using assms by (auto simp: rfind_char_def)
  note f = find_char_Some [OF j(1)]
  then show "i < length s" "s ! i = c" using j(2) by (auto simp: rev_nth)
  have "take j (rev s) = rev (drop (Suc i) s)"
    using f j(2) by (simp add: take_rev Suc_diff_Suc)
  with f show "c \<notin> set (drop (Suc i) s)" by (metis set_rev)
qed

lemma rfind_char_append:
  "c \<notin> set b \<Longrightarrow> rfind_char c (a @ c # b) = Some (length a)"
  by (simp add: rfind_char_def find_char_append)

text \<open>
  \<open>find(token)\<close> followed by \<open>find(token, pos + 1)\<close> until \<open>npos\<close> visits these positions,
  in this order (an empty token is found at every position, the end included).
\<close>

definition occurrences :: "string \<Rightarrow> string \<Rightarrow> nat list" where
  "occurrences tok s = filter (\<lambda>i. StartsWith (drop i s) tok) [0..<Suc (length s)]"

definition contains :: "string \<Rightarrow> string \<Rightarrow> bool" where
  "contains s tok \<longleftrightarrow> occurrences tok s \<noteq> []"

lemma set_occurrences:
  "i \<in> set (occurrences tok s) \<longleftrightarrow> i \<le> length s \<and> (\<exists>r. drop i s = tok @ r)"
  by (auto simp: occurrences_def StartsWith_iff less_Suc_eq_le simp del: upt_Suc)

lemma contains_iff: "contains s tok \<longleftrightarrow> (\<exists>a b. s = a @ tok @ b)"
proof
  assume "contains s tok"
  then obtain i where "i \<in> set (occurrences tok s)"
    by (metis contains_def list.set_intros(1) neq_Nil_conv)
  then obtain r where "i \<le> length s" "drop i s = tok @ r"
    by (auto simp: set_occurrences)
  then have "s = take i s @ tok @ r" by (metis append_take_drop_id)
  then show "\<exists>a b. s = a @ tok @ b" by blast
next
  assume "\<exists>a b. s = a @ tok @ b"
  then obtain a b where "s = a @ tok @ b" by blast
  then have "length a \<in> set (occurrences tok s)"
    by (auto simp: set_occurrences)
  then show "contains s tok" by (auto simp: contains_def)
qed

subsection \<open>Trimming, splitting, replacing\<close>

definition TrimLeading :: "string \<Rightarrow> string \<Rightarrow> string" where
  "TrimLeading s trim_chars = dropWhile (\<lambda>c. c \<in> set trim_chars) s"

definition TrimTrailing :: "string \<Rightarrow> string \<Rightarrow> string" where
  "TrimTrailing s trim_chars = rev (dropWhile (\<lambda>c. c \<in> set trim_chars) (rev s))"

definition TrimString :: "string \<Rightarrow> string \<Rightarrow> string" where
  "TrimString s trim_chars = TrimTrailing (TrimLeading s trim_chars) trim_chars"

definition TrimWhitespaceASCII :: "string \<Rightarrow> string" where
  "TrimWhitespaceASCII s = TrimString s kWhitespaceASCII"

text \<open>Pieces between separators, in order; \<open>n\<close> separators give \<open>n + 1\<close> pieces.\<close>

fun split_on :: "char \<Rightarrow> string \<Rightarrow> string list" where
  "split_on sep [] = [[]]"
| "split_on sep (c # s) =
     (if c = sep then [] # split_on sep s
      else (case split_on sep s of [] \<Rightarrow> [[c]] | p # ps \<Rightarrow> (c # p) # ps))"

datatype whitespace_handling = KEEP_WHITESPACE | TRIM_WHITESPACE

text \<open>\<open>base::SplitString\<close> with \<open>SPLIT_WANT_NONEMPTY\<close>, the only mode the code uses: an empty
  input gives no piece, pieces are trimmed first when asked for, and empty pieces are dropped.\<close>

definition SplitStringNonempty :: "string \<Rightarrow> char \<Rightarrow> whitespace_handling \<Rightarrow> string list" where
  "SplitStringNonempty s sep ws =
     filter (\<lambda>p. p \<noteq> [])
       (map (\<lambda>p. case ws of KEEP_WHITESPACE \<Rightarrow> p | TRIM_WHITESPACE \<Rightarrow> TrimWhitespaceASCII p)
         (split_on sep s))"

definition RemoveChars :: "string \<Rightarrow> string \<Rightarrow> string" where
  "RemoveChars s chars = filter (\<lambda>c. c \<notin> set chars) s"

definition ReplaceChars :: "string \<Rightarrow> string \<Rightarrow> string \<Rightarrow> string" where
  "ReplaceChars s chars replacement =
     concat (map (\<lambda>c. if c \<in> set chars then replacement else [c]) s)"

lemma split_on_not_Nil [simp]: "split_on sep s \<noteq> []"
  by (induction s) (auto split: list.splits)

lemma split_on_no_sep: "p \<in> set (split_on sep s) \<Longrightarrow> sep \<notin> set p"
  by (induction s arbitrary: p) (auto split: list.splits if_splits)

lemma split_on_chars: "p \<in> set (split_on sep s) \<Longrightarrow> set p \<subseteq> set s"
proof (induction s arbitrary: p)
  case (Cons c s)
  then show ?case by (auto split: list.splits if_splits) blast+
qed simp

lemma split_on_id: "sep \<notin> set s \<Longrightarrow> split_on sep s = [s]"
  by (induction s) auto

lemma split_on_append:
  "sep \<notin> set p \<Longrightarrow> split_on sep (p @ sep # s) = p # split_on sep s"
  by (induction p) auto

lemma SplitStringNonempty_nonempty: "p \<in> set (SplitStringNonempty s sep ws) \<Longrightarrow> p \<noteq> []"
  by (auto simp: SplitStringNonempty_def)

section \<open>Parsed URLs\<close>

text \<open>
  \<open>GURL\<close> is a class of \<open>url/gurl.h\<close>, outside the repository: parsing a string into a \<open>GURL\<close> is a
  parameter of the definitions that do it. A value holds the parts the code reads, with the
  accessors' names. Two \<open>GURL\<close>s are compared by their specs in the code; here the parts are
  functions of the spec whenever both come from one parser, so \<open>=\<close> stands for it.
\<close>

record gurl =
  spec :: string
  scheme :: string
  host :: string
  is_valid :: bool

definition empty_gurl :: gurl where
  "empty_gurl = \<lparr>spec = [], scheme = [], host = [], is_valid = False\<rparr>"

definition has_scheme :: "gurl \<Rightarrow> bool" where
  "has_scheme u \<longleftrightarrow> scheme u \<noteq> []"

text \<open>A URL of a standard scheme with no user name: scheme, \<open>://\<close>, host, and whatever follows the
  host, which starts with a port, a path, a query or a fragment. No host starts with a colon or a
  slash.\<close>

definition standard_url :: "gurl \<Rightarrow> bool" where
  "standard_url u \<longleftrightarrow> scheme u \<noteq> [] \<and> host u \<noteq> [] \<and> hd (host u) \<notin> set '':/'' \<and>
     StartsWith (spec u) (scheme u @ ''://'' @ host u) \<and>
     (case drop (length (scheme u @ ''://'' @ host u)) (spec u) of
        [] \<Rightarrow> True | c # _ \<Rightarrow> c \<in> set '':/?#'')"

text \<open>A parser of plain URLs: scheme, \<open>://\<close>, host and the rest. The examples put it for the parameter.\<close>

definition simple_gurl :: "string \<Rightarrow> gurl" where
  "simple_gurl s =
     (let sch = takeWhile (\<lambda>c. c \<noteq> CHR '':'') s; rest = drop (length sch + 3) s
      in \<lparr>spec = s, scheme = sch, host = takeWhile (\<lambda>c. c \<notin> set '':/?#'') rest,
          is_valid = (sch \<noteq> [] \<and> rest \<noteq> [])\<rparr>)"

section \<open>Generic lemmas\<close>

lemma find_SomeD: "List.find P xs = Some x \<Longrightarrow> x \<in> set xs \<and> P x"
  by (auto simp: find_Some_iff)

lemma find_map_option_any:
  "(List.find P xs \<noteq> None) \<longleftrightarrow> (\<exists>x\<in>set xs. P x)"
  by (auto simp: find_None_iff)

end
