(* ===== verification/Common.thy ===== *)
theory Common
  imports Prelude
begin

unbundle bit_operations_syntax

text \<open>
  \<open>components/adblock/core/common\<close>: the resource types and their bit masks
  (\<open>content_type.h/.cc\<close>), regular-expression patterns (\<open>regex_filter_pattern.cc\<close>), keywords
  that are too common to index by (\<open>keyword_extractor_utils.cc\<close>), the replacement resources of
  rewrite filters (\<open>adblock_constants.cc\<close>) and the string utilities of \<open>adblock_utils.cc\<close>.
\<close>

section \<open>Content types\<close>

datatype ContentType =
    CT_Unknown
  | CT_Other
  | CT_Script
  | CT_Image
  | CT_Stylesheet
  | CT_Object
  | CT_Subdocument
  | CT_Websocket
  | CT_Webrtc
  | CT_Ping
  | CT_Xmlhttprequest
  | CT_Media
  | CT_Font
  | CT_Default

type_synonym content_mask = "32 word"

fun content_type_value :: "ContentType \<Rightarrow> content_mask" where
  "content_type_value CT_Unknown = 0"
| "content_type_value CT_Other = 1"
| "content_type_value CT_Script = 2"
| "content_type_value CT_Image = 4"
| "content_type_value CT_Stylesheet = 8"
| "content_type_value CT_Object = 16"
| "content_type_value CT_Subdocument = 32"
| "content_type_value CT_Websocket = 128"
| "content_type_value CT_Webrtc = 256"
| "content_type_value CT_Ping = 1024"
| "content_type_value CT_Xmlhttprequest = 2048"
| "content_type_value CT_Media = 16384"
| "content_type_value CT_Font = 32768"
| "content_type_value CT_Default = push_bit 24 1 - 1"

fun ContentTypeToString :: "ContentType \<Rightarrow> string" where
  "ContentTypeToString CT_Unknown = ''UNKNOWN''"
| "ContentTypeToString CT_Other = ''OTHER''"
| "ContentTypeToString CT_Script = ''SCRIPT''"
| "ContentTypeToString CT_Image = ''IMAGE''"
| "ContentTypeToString CT_Stylesheet = ''STYLESHEET''"
| "ContentTypeToString CT_Object = ''OBJECT''"
| "ContentTypeToString CT_Subdocument = ''SUBDOCUMENT''"
| "ContentTypeToString CT_Websocket = ''WEBSOCKET''"
| "ContentTypeToString CT_Webrtc = ''WEBRTC''"
| "ContentTypeToString CT_Ping = ''PING''"
| "ContentTypeToString CT_Xmlhttprequest = ''XMLHTTPREQUEST''"
| "ContentTypeToString CT_Media = ''MEDIA''"
| "ContentTypeToString CT_Font = ''FONT''"
| "ContentTypeToString CT_Default = ''DEFAULT''"

definition ContentTypeFromString :: "string \<Rightarrow> ContentType" where
  "ContentTypeFromString content_type =
     (if content_type = ''other'' \<or> content_type = ''xbl'' \<or> content_type = ''dtd'' then CT_Other
      else if content_type = ''script'' then CT_Script
      else if content_type = ''image'' \<or> content_type = ''background'' then CT_Image
      else if content_type = ''stylesheet'' then CT_Stylesheet
      else if content_type = ''object'' then CT_Object
      else if content_type = ''subdocument'' then CT_Subdocument
      else if content_type = ''websocket'' then CT_Websocket
      else if content_type = ''webrtc'' then CT_Webrtc
      else if content_type = ''ping'' then CT_Ping
      else if content_type = ''xmlhttprequest'' then CT_Xmlhttprequest
      else if content_type = ''media'' then CT_Media
      else if content_type = ''font'' then CT_Font
      else CT_Unknown)"

text \<open>The types a filter option can name, each a single bit of the mask.\<close>

definition resource_types :: "ContentType list" where
  "resource_types = [CT_Other, CT_Script, CT_Image, CT_Stylesheet, CT_Object, CT_Subdocument,
     CT_Websocket, CT_Webrtc, CT_Ping, CT_Xmlhttprequest, CT_Media, CT_Font]"

lemma ContentTypeFromString_range:
  "ContentTypeFromString s \<noteq> CT_Unknown \<Longrightarrow> ContentTypeFromString s \<in> set resource_types"
  by (auto simp: ContentTypeFromString_def resource_types_def split: if_splits)

lemma ContentType_names_parse_back:
  "list_all (\<lambda>t. ContentTypeFromString (ToLowerASCII (ContentTypeToString t)) = t) resource_types"
  by code_simp

lemma ContentType_name_roundtrip:
  "t \<in> set resource_types \<Longrightarrow> ContentTypeFromString (ToLowerASCII (ContentTypeToString t)) = t"
  using ContentType_names_parse_back by (auto simp: list_all_iff)

lemma resource_type_bits:
  "list_all (\<lambda>t. content_type_value t \<noteq> 0 \<and>
      content_type_value t AND content_type_value CT_Default = content_type_value t) resource_types"
  by code_simp

section \<open>Regular-expression patterns and keywords\<close>

text \<open>A pattern \<open>/expression/\<close> is a regular expression; the result is what is between the slashes.\<close>

definition ExtractRegexFilterFromPattern :: "string \<Rightarrow> string option" where
  "ExtractRegexFilterFromPattern filter_pattern =
     (if \<not> (length filter_pattern > 2 \<and> hd filter_pattern = CHR ''/'' \<and>
            last filter_pattern = CHR ''/'')
      then None
      else Some (take (length filter_pattern - 2) (drop 1 filter_pattern)))"

lemma ExtractRegexFilterFromPattern_Some:
  "ExtractRegexFilterFromPattern p = Some e \<longleftrightarrow> e \<noteq> [] \<and> p = ''/'' @ e @ ''/''"
proof
  assume "ExtractRegexFilterFromPattern p = Some e"
  then have h: "length p > 2" "hd p = CHR ''/''" "last p = CHR ''/''"
    and e: "e = take (length p - 2) (drop 1 p)"
    by (auto simp: ExtractRegexFilterFromPattern_def split: if_splits)
  from h(1) obtain c r where p: "p = c # r" by (cases p) auto
  with h(1) have "r \<noteq> []" by auto
  with p h(2,3) have r: "r \<noteq> []" "c = CHR ''/''" "last r = CHR ''/''" by simp_all
  with e p have "e = butlast r"
    by (simp add: butlast_conv_take)
  moreover from r have "r = butlast r @ [CHR ''/'']"
    by (metis append_butlast_last_id)
  moreover have "butlast r \<noteq> []" using h(1) p by (cases r) auto
  ultimately show "e \<noteq> [] \<and> p = ''/'' @ e @ ''/''" using p r by simp
next
  assume "e \<noteq> [] \<and> p = ''/'' @ e @ ''/''"
  then show "ExtractRegexFilterFromPattern p = Some e"
    by (auto simp: ExtractRegexFilterFromPattern_def Suc_less_eq2 length_greater_0_conv)
qed

definition IsBadKeyword :: "string \<Rightarrow> bool" where
  "IsBadKeyword value \<longleftrightarrow> value = ''http'' \<or> value = ''https'' \<or> value = ''com'' \<or>
     value = ''js'' \<or> length value < 2"

section \<open>Utilities\<close>

definition CreateDomainAllowlistingFilter :: "string \<Rightarrow> string" where
  "CreateDomainAllowlistingFilter domain =
     ''@@||'' @ ToLowerASCII domain @ ''^$document,domain='' @ ToLowerASCII domain"

definition kSiteKeyHeaderKey :: string where
  "kSiteKeyHeaderKey = ''x-adblock-key''"

text \<open>The header lines in the order \<open>EnumerateHeaderLines\<close> yields them; an absent header is the
  empty site key.\<close>

fun GetSitekeyHeader :: "(string \<times> string) list \<Rightarrow> string" where
  "GetSitekeyHeader [] = []"
| "GetSitekeyHeader ((name, value) # rest) =
     (if ToLowerASCII name = kSiteKeyHeaderKey then value else GetSitekeyHeader rest)"

definition SerializeLanguages :: "string list \<Rightarrow> string" where
  "SerializeLanguages languages =
     (case languages of [] \<Rightarrow> [] | l # ls \<Rightarrow> foldl (\<lambda>a b. a @ '','' @ b) l ls)"

definition DeserializeLanguages :: "string \<Rightarrow> string list" where
  "DeserializeLanguages languages = SplitStringNonempty languages (CHR '','') TRIM_WHITESPACE"

text \<open>A language tag the setting stores: no separator, not empty, no blank at its ends.\<close>

definition language_tag :: "string \<Rightarrow> bool" where
  "language_tag l \<longleftrightarrow> l \<noteq> [] \<and> CHR '','' \<notin> set l \<and> TrimWhitespaceASCII l = l"

lemma join_languages_prefix:
  "foldl (\<lambda>a b. a @ '','' @ b) (p @ l) ls = p @ foldl (\<lambda>a b. a @ '','' @ b) l ls"
proof (induction ls arbitrary: l)
  case (Cons x xs)
  from Cons.IH [of "l @ '','' @ x"] show ?case by simp
qed simp

lemma SerializeLanguages_Cons:
  "SerializeLanguages (l # ls) = (if ls = [] then l else l @ '','' @ SerializeLanguages ls)"
proof (cases ls)
  case (Cons m ms)
  have "foldl (\<lambda>a b. a @ '','' @ b) ((l @ '','') @ m) ms
      = (l @ '','') @ foldl (\<lambda>a b. a @ '','' @ b) m ms"
    by (rule join_languages_prefix)
  with Cons show ?thesis by (simp add: SerializeLanguages_def)
qed (simp add: SerializeLanguages_def)

lemma languages_roundtrip_lemma:
  "list_all language_tag ls \<Longrightarrow> DeserializeLanguages (SerializeLanguages ls) = ls"
proof (induction ls)
  case Nil
  then show ?case
    by (simp add: SerializeLanguages_def DeserializeLanguages_def SplitStringNonempty_def
        TrimWhitespaceASCII_def TrimString_def TrimLeading_def TrimTrailing_def)
next
  case (Cons l ls)
  then show ?case
    by (auto simp: SerializeLanguages_Cons DeserializeLanguages_def SplitStringNonempty_def
        language_tag_def split_on_append split_on_id)
qed

section \<open>Constants\<close>

datatype AbpResource =
    AbpResource_BlankText
  | AbpResource_BlankCss
  | AbpResource_BlankJs
  | AbpResource_BlankHtml
  | AbpResource_BlankMp3
  | AbpResource_BlankMp4
  | AbpResource_TransparentGif1x1
  | AbpResource_TransparentPng2x2
  | AbpResource_TransparentPng3x2
  | AbpResource_TransparentPng32x32

definition kAllowlistEverythingFilter :: string where
  "kAllowlistEverythingFilter =
     ''@@*$document''"

definition kBlankHtml :: string where
  "kBlankHtml =
     ''data:text/html,<!DOCTYPE html><html><head></head><body></body></html>''"

definition kBlankMp3 :: string where
  "kBlankMp3 =
     ''data:audio/mpeg;base64,SUQzBAAAAAAAI1RTU0UAAAAPAAADTGF2ZjU4LjIwLjEwMAAAAAAAA'' @
     ''AAAAAAA//tUAAAAAAAAAAAAAAAAAAAAAAAAAAAAAAAAAAAAAAAAAAAASW5mbwAAAA8AAAAGAAADA'' @
     ''ABgYGBgYGBgYGBgYGBgYGBggICAgICAgICAgICAgICAgICgoKCgoKCgoKCgoKCgoKCgwMDAwMDAw'' @
     ''MDAwMDAwMDAwMDg4ODg4ODg4ODg4ODg4ODg4P////////////////////8AAAAATGF2YzU4LjM1A'' @
     ''AAAAAAAAAAAAAAAJAYAAAAAAAAAAwDVxttG//sUZAAP8AAAaQAAAAgAAA0gAAABAAABpAAAACAAA'' @
     ''DSAAAAETEFNRTMuMTAwVVVVVVVVVVVVVVVVVVVVVVVVVVVVVVVVVVVVVVVVVVVVVVVVVVVVVVVVV'' @
     ''VVVVVVVVVVV//sUZB4P8AAAaQAAAAgAAA0gAAABAAABpAAAACAAADSAAAAEVVVVVVVVVVVVVVVVV'' @
     ''VVVVVVVVVVVVVVVVVVVVVVVVVVVVVVVVVVVVVVVVVVVVVVVVVVVVVVVVVVVVVVV//sUZDwP8AAAa'' @
     ''QAAAAgAAA0gAAABAAABpAAAACAAADSAAAAEVVVVVVVVVVVVVVVVVVVVVVVVVVVVVVVVVVVVVVVVV'' @
     ''VVVVVVVVVVVVVVVVVVVVVVVVVVVVVVVVVVVVVVV//sUZFoP8AAAaQAAAAgAAA0gAAABAAABpAAAA'' @
     ''CAAADSAAAAEVVVVVVVVVVVVVVVVVVVVVVVVVVVVVVVVVVVVVVVVVVVVVVVVVVVVVVVVVVVVVVVVV'' @
     ''VVVVVVVVVVVVVVV//sUZHgP8AAAaQAAAAgAAA0gAAABAAABpAAAACAAADSAAAAEVVVVVVVVVVVVV'' @
     ''VVVVVVVVVVVVVVVVVVVVVVVVVVVVVVVVVVVVVVVVVVVVVVVVVVVVVVVVVVVVVVVVVVV//sUZJYP8'' @
     ''AAAaQAAAAgAAA0gAAABAAABpAAAACAAADSAAAAEVVVVVVVVVVVVVVVVVVVVVVVVVVVVVVVVVVVVV'' @
     ''VVVVVVVVVVVVVVVVVVVVVVVVVVVVVVVVVVVVVVVVVVV''"

definition kBlankMp4 :: string where
  "kBlankMp4 =
     ''data:video/mp4;base64,AAAAIGZ0eXBpc29tAAACAGlzb21pc28yYXZjMW1wNDEAAAAIZnJlZQ'' @
     ''AAAuJtZGF0AAACrwYF//+r3EXpvebZSLeWLNgg2SPu73gyNjQgLSBjb3JlIDE2MCByMzAxMU0gY2'' @
     ''RlOWE5MyAtIEguMjY0L01QRUctNCBBVkMgY29kZWMgLSBDb3B5bGVmdCAyMDAzLTIwMjAgLSBodH'' @
     ''RwOi8vd3d3LnZpZGVvbGFuLm9yZy94MjY0Lmh0bWwgLSBvcHRpb25zOiBjYWJhYz0xIHJlZj0zIG'' @
     ''RlYmxvY2s9MTowOjAgYW5hbHlzZT0weDM6MHgxMTMgbWU9aGV4IHN1Ym1lPTcgcHN5PTEgcHN5X3'' @
     ''JkPTEuMDA6MC4wMCBtaXhlZF9yZWY9MSBtZV9yYW5nZT0xNiBjaHJvbWFfbWU9MCB0cmVsbGlzPT'' @
     ''EgOHg4ZGN0PTEgY3FtPTAgZGVhZHpvbmU9MjEsMTEgZmFzdF9wc2tpcD0xIGNocm9tYV9xcF9vZm'' @
     ''ZzZXQ9LTIgdGhyZWFkcz0yIGxvb2thaGVhZF90aHJlYWRzPTEgc2xpY2VkX3RocmVhZHM9MCBucj'' @
     ''0wIGRlY2ltYXRlPTEgaW50ZXJsYWNlZD0wIGJsdXJheV9jb21wYXQ9MCBjb25zdHJhaW5lZF9pbn'' @
     ''RyYT0wIGJmcmFtZXM9MyBiX3B5cmFtaWQ9MiBiX2FkYXB0PTEgYl9iaWFzPTAgZGlyZWN0PTEgd2'' @
     ''VpZ2h0Yj0xIG9wZW5fZ29wPTAgd2VpZ2h0cD0yIGtleWludD0yNTAga2V5aW50X21pbj0yNSBzY2'' @
     ''VuZWN1dD00MCBpbnRyYV9yZWZyZXNoPTAgcmNfbG9va2FoZWFkPTQwIHJjPWNyZiBtYnRyZWU9MS'' @
     ''BjcmY9MjMuMCBxY29tcD0wLjYwIHFwbWluPTAgcXBtYXg9NjkgcXBzdGVwPTQgaXBfcmF0aW89MS'' @
     ''40MCBhcT0xOjEuMDAAgAAAACNliIQAK//+9dvzLK5umjbe9jc2CT9EPcfnoOYC2tjtP+go4QAAAw'' @
     ''Rtb292AAAAbG12aGQAAAAAAAAAAAAAAAAAAAPoAAAAKAABAAABAAAAAAAAAAAAAAAAAQAAAAAAAA'' @
     ''AAAAAAAAAAAAEAAAAAAAAAAAAAAAAAAEAAAAAAAAAAAAAAAAAAAAAAAAAAAAAAAAAAAAAAAAACAA'' @
     ''ACLnRyYWsAAABcdGtoZAAAAAMAAAAAAAAAAAAAAAEAAAAAAAAAKAAAAAAAAAAAAAAAAAAAAAAAAQ'' @
     ''AAAAAAAAAAAAAAAAAAAAEAAAAAAAAAAAAAAAAAAEAAAAAAZAAAADgAAAAAACRlZHRzAAAAHGVsc3'' @
     ''QAAAAAAAAAAQAAACgAAAAAAAEAAAAAAaZtZGlhAAAAIG1kaGQAAAAAAAAAAAAAAAAAADIAAAACAF'' @
     ''XEAAAAAAAtaGRscgAAAAAAAAAAdmlkZQAAAAAAAAAAAAAAAFZpZGVvSGFuZGxlcgAAAAFRbWluZg'' @
     ''AAABR2bWhkAAAAAQAAAAAAAAAAAAAAJGRpbmYAAAAcZHJlZgAAAAAAAAABAAAADHVybCAAAAABAA'' @
     ''ABEXN0YmwAAACtc3RzZAAAAAAAAAABAAAAnWF2YzEAAAAAAAAAAQAAAAAAAAAAAAAAAAAAAAAAZA'' @
     ''A4AEgAAABIAAAAAAAAAAEAAAAAAAAAAAAAAAAAAAAAAAAAAAAAAAAAAAAAAAAAAAAY//8AAAA3YX'' @
     ''ZjQwFkAAr/4QAaZ2QACvNlHJ42JwEQAAADABAAAAMDIPEiWWABAAZo6+PLIsD8+PgAAAAAEHBhc3'' @
     ''AAAAABAAAAAQAAABhzdHRzAAAAAAAAAAEAAAABAAACAAAAABxzdHNjAAAAAAAAAAEAAAABAAAAAQ'' @
     ''AAAAEAAAAUc3RzegAAAAAAAALaAAAAAQAAABRzdGNvAAAAAAAAAAEAAAAwAAAAYnVkdGEAAABabW'' @
     ''V0YQAAAAAAAAAhaGRscgAAAAAAAAAAbWRpcmFwcGwAAAAAAAAAAAAAAAAtaWxzdAAAACWpdG9vAA'' @
     ''AAHWRhdGEAAAABAAAAAExhdmY1OC40NS4xMDA=''"

definition kBlankGif :: string where
  "kBlankGif =
     ''data:image/gif;base64,R0lGODlhAQABAIABAAAAAP///yH5BAEKAAEALAAAAAABAAEAAAICTA'' @
     ''EAOw==''"

definition kBlankPng2x2 :: string where
  "kBlankPng2x2 =
     ''data:image/png;base64,iVBORw0KGgoAAAANSUhEUgAAAAIAAAACCAYAAABytg0kAAAAC0lEQV'' @
     ''QI12NgQAcAABIAAe+JVKQAAAAASUVORK5CYII=''"

definition kBlankPng3x2 :: string where
  "kBlankPng3x2 =
     ''data:image/png;base64,iVBORw0KGgoAAAANSUhEUgAAAAMAAAACCAYAAACddGYaAAAAC0lEQV'' @
     ''QI12NgwAUAABoAASRETuUAAAAASUVORK5CYII=''"

definition kBlankPng32x32 :: string where
  "kBlankPng32x32 =
     ''data:image/png;base64,iVBORw0KGgoAAAANSUhEUgAAACAAAAAgCAYAAABzenr0AAAAGklEQV'' @
     ''RYw+3BAQEAAACCIP+vbkhAAQAAAO8GECAAAZf3V9cAAAAASUVORK5CYII=''"

fun RewriteUrl :: "AbpResource \<Rightarrow> string" where
  "RewriteUrl AbpResource_BlankText = ''data:text/plain,''"
| "RewriteUrl AbpResource_BlankCss = ''data:text/css,''"
| "RewriteUrl AbpResource_BlankJs = ''data:application/javascript,''"
| "RewriteUrl AbpResource_BlankHtml = kBlankHtml"
| "RewriteUrl AbpResource_BlankMp3 = kBlankMp3"
| "RewriteUrl AbpResource_BlankMp4 = kBlankMp4"
| "RewriteUrl AbpResource_TransparentGif1x1 = kBlankGif"
| "RewriteUrl AbpResource_TransparentPng2x2 = kBlankPng2x2"
| "RewriteUrl AbpResource_TransparentPng3x2 = kBlankPng3x2"
| "RewriteUrl AbpResource_TransparentPng32x32 = kBlankPng32x32"

lemma RewriteUrl_is_data_url: "StartsWith (RewriteUrl r) ''data:''"
  by (cases r) (simp_all add: kBlankHtml_def kBlankMp3_def kBlankMp4_def kBlankGif_def
      kBlankPng2x2_def kBlankPng3x2_def kBlankPng32x32_def)

definition kTestPagesUrl :: string where
  "kTestPagesUrl = ''https://abptestpages.org/en/abp-testcase-subscription.txt''"

definition kCustomFiltersUrl :: string where
  "kCustomFiltersUrl = ''adblock:custom''"

definition ConvertURLs :: "gurl list \<Rightarrow> string list" where
  "ConvertURLs input = map spec input"

text \<open>A decimal number padded with zeros to a width, as \<open>%0wd\<close> prints it, and the version format of a
  filter list: year, month, day, hour and minute in UTC. The buffer holds 15 characters and a
  \<open>NUL\<close>, so \<open>SafeSPrintf\<close> cuts what does not fit.\<close>

fun decimal :: "nat \<Rightarrow> string" where
  "decimal n = (if n < 10 then [char_of (48 + n)] else decimal (n div 10) @ [char_of (48 + n mod 10)])"

declare decimal.simps [simp del]

definition zero_padded :: "nat \<Rightarrow> nat \<Rightarrow> string" where
  "zero_padded w n = replicate (w - length (decimal n)) (CHR ''0'') @ decimal n"

record exploded_time =
  year :: nat
  month :: nat
  day_of_month :: nat
  hour :: nat
  minute :: nat

definition ConvertBaseTimeToABPFilterVersionFormat :: "exploded_time \<Rightarrow> string" where
  "ConvertBaseTimeToABPFilterVersionFormat exploded =
     take 15 (zero_padded 4 (year exploded) @ zero_padded 2 (month exploded) @
       zero_padded 2 (day_of_month exploded) @ zero_padded 2 (hour exploded) @
       zero_padded 2 (minute exploded))"

text \<open>The application's name, version and operating system come from build defines or from
  \<open>version_info\<close>; blanks are taken out of the latter.\<close>

record AppInfo =
  app_name :: string
  app_version :: string
  client_os :: string

record version_info =
  GetProductName :: string
  GetVersionNumber :: string
  GetOSType :: string
  EYEO_APPLICATION_NAME :: "string option"
  EYEO_APPLICATION_VERSION :: "string option"

definition GetAppInfo :: "version_info \<Rightarrow> AppInfo" where
  "GetAppInfo vi =
     \<lparr>app_name = (case EYEO_APPLICATION_NAME vi of Some n \<Rightarrow> n | None \<Rightarrow> GetProductName vi),
      app_version = (case EYEO_APPLICATION_VERSION vi of Some v \<Rightarrow> v | None \<Rightarrow> GetVersionNumber vi),
      client_os = ReplaceChars (GetOSType vi) kWhitespaceASCII []\<rparr>"

lemma decimal_length_mono:
  "n < 10 ^ w \<Longrightarrow> 0 < w \<Longrightarrow> length (decimal n) \<le> w"
proof (induction n arbitrary: w rule: decimal.induct)
  case (1 n)
  show ?case
  proof (cases "n < 10")
    case False
    with 1(2,3) obtain v where w: "w = Suc v" "0 < v"
      by (cases w; cases "w - 1") auto
    with 1(2) have "n div 10 < 10 ^ v" by (simp add: less_mult_imp_div_less mult.commute)
    with 1(1) [of v] False w show ?thesis by (simp add: decimal.simps [of n])
  qed (use 1(3) in \<open>simp add: decimal.simps [of n]\<close>)
qed

lemma zero_padded_length: "n < 10 ^ w \<Longrightarrow> 0 < w \<Longrightarrow> length (zero_padded w n) = w"
  using decimal_length_mono [of n w] by (simp add: zero_padded_def)

lemma client_os_no_blank: "c \<in> set (client_os (GetAppInfo vi)) \<Longrightarrow> \<not> IsAsciiWhitespace c"
  by (auto simp: GetAppInfo_def ReplaceChars_def IsAsciiWhitespace_def split: if_splits)

end
