(* ===== verification/Schema.thy ===== *)
theory Schema
  imports Common
begin

text \<open>
  \<open>schema/filter_list_schema.fbs\<close>: the tables of a serialized subscription as records, and what the
  code uses of the FlatBuffers library: vectors of keyed tables and \<open>LookupByKey\<close>, a \<open>bsearch\<close> that
  compares keys with \<open>strcmp\<close>. Offsets to a table are modelled by the table, so a filter shared by
  several index entries is a value that occurs in several of them. The indexes the serializer builds
  (\<open>std::map\<close> and \<open>std::unordered_map\<close> from a key to a vector) are association lists. The locale
  \<open>filter_index\<close> states what building, writing and looking up promise each other.
\<close>

section \<open>Tables\<close>

datatype flat_ThirdParty = ThirdParty_Ignore | ThirdParty_FirstPartyOnly | ThirdParty_ThirdPartyOnly

record flat_UrlFilter =
  fu_pattern :: string
  fu_match_case :: bool
  fu_resource_type :: content_mask
  fu_third_party :: flat_ThirdParty
  fu_sitekeys :: "string list"
  fu_include_domains :: "string list"
  fu_exclude_domains :: "string list"
  fu_rewrite :: "AbpResource option"
  fu_csp_filter :: "string option"
  fu_header_filter :: "string option"

record flat_ElemHideFilter =
  fe_selector :: string
  fe_include_domains :: "string list"
  fe_exclude_domains :: "string list"

record flat_SnippetFunctionCall =
  fc_command :: string
  fc_arguments :: "string list"

record flat_SnippetFilter =
  fs_include_domains :: "string list"
  fs_exclude_domains :: "string list"
  fs_script :: "flat_SnippetFunctionCall list"

type_synonym 'a keyed_vector = "(string \<times> 'a list) list"

record flat_SubscriptionMetadata =
  fm_flatbuffers_schema_version :: string
  fm_url :: string
  fm_homepage :: string
  fm_title :: string
  fm_version :: string
  fm_expires :: int

record flat_Subscription =
  fb_metadata :: flat_SubscriptionMetadata
  url_subresource_block :: "flat_UrlFilter keyed_vector"
  url_subresource_allow :: "flat_UrlFilter keyed_vector"
  url_popup_block :: "flat_UrlFilter keyed_vector"
  url_popup_allow :: "flat_UrlFilter keyed_vector"
  url_document_allow :: "flat_UrlFilter keyed_vector"
  url_elemhide_allow :: "flat_UrlFilter keyed_vector"
  url_generichide_allow :: "flat_UrlFilter keyed_vector"
  url_genericblock_allow :: "flat_UrlFilter keyed_vector"
  url_csp_block :: "flat_UrlFilter keyed_vector"
  url_csp_allow :: "flat_UrlFilter keyed_vector"
  url_rewrite_block :: "flat_UrlFilter keyed_vector"
  url_rewrite_allow :: "flat_UrlFilter keyed_vector"
  url_header_block :: "flat_UrlFilter keyed_vector"
  url_header_allow :: "flat_UrlFilter keyed_vector"
  fb_elemhide :: "flat_ElemHideFilter keyed_vector"
  fb_elemhide_emulation :: "flat_ElemHideFilter keyed_vector"
  fb_elemhide_exception :: "flat_ElemHideFilter keyed_vector"
  fb_snippet :: "flat_SnippetFilter keyed_vector"

section \<open>Looking a key up\<close>

text \<open>What a \<open>char*\<close> into a string denotes: the characters before the first \<open>NUL\<close>.\<close>

definition c_str :: "string \<Rightarrow> string" where
  "c_str s = takeWhile (\<lambda>c. c \<noteq> CHR 0x00) s"

definition no_nul :: "string \<Rightarrow> bool" where
  "no_nul s \<longleftrightarrow> CHR 0x00 \<notin> set s"

lemma c_str_id [simp]: "no_nul s \<Longrightarrow> c_str s = s"
  by (auto simp: c_str_def no_nul_def takeWhile_eq_all_conv)

lemma no_nul_simps [simp]:
  "no_nul []" "no_nul (c # s) \<longleftrightarrow> c \<noteq> CHR 0x00 \<and> no_nul s" "no_nul (s @ t) \<longleftrightarrow> no_nul s \<and> no_nul t"
  by (auto simp: no_nul_def)

lemma no_nul_subset: "set s \<subseteq> set t \<Longrightarrow> no_nul t \<Longrightarrow> no_nul s"
  by (auto simp: no_nul_def)

function bsearch :: "string \<Rightarrow> (string \<times> 'a) list \<Rightarrow> nat \<Rightarrow> nat \<Rightarrow> 'a option" where
  "bsearch key vec l u =
     (if l < u then
        (let idx = (l + u) div 2; k = c_str (fst (vec ! idx))
         in if key < k then bsearch key vec l idx
            else if k < key then bsearch key vec (Suc idx) u
            else Some (snd (vec ! idx)))
      else None)"
  by pat_completeness auto
termination by (relation "measure (\<lambda>(key, vec, l, u). u - l)") auto

declare bsearch.simps [simp del]

definition LookupByKey :: "(string \<times> 'a) list \<Rightarrow> string \<Rightarrow> 'a option" where
  "LookupByKey vec key = bsearch (c_str key) vec 0 (length vec)"

definition sorted_keys :: "(string \<times> 'a) list \<Rightarrow> bool" where
  "sorted_keys vec \<longleftrightarrow> sorted_wrt (<) (map fst vec) \<and> list_all (\<lambda>e. no_nul (fst e)) vec"

lemma bsearch_Some_sound:
  "bsearch key vec l u = Some v \<Longrightarrow> u \<le> length vec \<Longrightarrow>
     \<exists>i. l \<le> i \<and> i < u \<and> c_str (fst (vec ! i)) = key \<and> snd (vec ! i) = v"
proof (induction key vec l u rule: bsearch.induct)
  case (1 key vec l u)
  define idx where "idx = (l + u) div 2"
  define k where "k = c_str (fst (vec ! idx))"
  from 1(3) have lu: "l < u" by (subst (asm) bsearch.simps) (auto split: if_splits)
  then have idx: "l \<le> idx" "idx < u" by (auto simp: idx_def)
  have step: "bsearch key vec l u = (if key < k then bsearch key vec l idx
      else if k < key then bsearch key vec (Suc idx) u else Some (snd (vec ! idx)))"
    using lu by (subst bsearch.simps) (simp add: idx_def k_def Let_def)
  consider "key < k" | "k < key" | "k = key" by (metis linorder_less_linear)
  then show ?case
  proof cases
    case 1
    then have "\<exists>i. l \<le> i \<and> i < idx \<and> c_str (fst (vec ! i)) = key \<and> snd (vec ! i) = v"
      using "1.IH"(1) [OF lu refl refl] "1.prems" step idx unfolding idx_def k_def by auto
    then obtain i where "l \<le> i" "i < idx" "c_str (fst (vec ! i)) = key" "snd (vec ! i) = v" by blast
    with idx(2) have "l \<le> i \<and> i < u \<and> c_str (fst (vec ! i)) = key \<and> snd (vec ! i) = v" by simp
    then show ?thesis ..
  next
    case 2
    then have "\<not> key < k" by (rule order_less_not_sym)
    with 2 have "\<exists>i. Suc idx \<le> i \<and> i < u \<and> c_str (fst (vec ! i)) = key \<and> snd (vec ! i) = v"
      using "1.IH"(2) [OF lu refl refl] "1.prems" step unfolding idx_def k_def by auto
    then obtain i where "Suc idx \<le> i" "i < u" "c_str (fst (vec ! i)) = key" "snd (vec ! i) = v" by blast
    with idx(1) have "l \<le> i \<and> i < u \<and> c_str (fst (vec ! i)) = key \<and> snd (vec ! i) = v" by simp
    then show ?thesis ..
  next
    case 3
    with "1.prems" step idx show ?thesis by (auto simp: k_def)
  qed
qed

lemma bsearch_complete:
  "sorted_keys vec \<Longrightarrow> u \<le> length vec \<Longrightarrow> l \<le> i \<Longrightarrow> i < u \<Longrightarrow> fst (vec ! i) = key \<Longrightarrow>
     bsearch key vec l u = Some (snd (vec ! i))"
proof (induction key vec l u rule: bsearch.induct)
  case (1 key vec l u)
  define idx where "idx = (l + u) div 2"
  from 1 have lu: "l < u" by simp
  then have idx: "l \<le> idx" "idx < u" by (auto simp: idx_def)
  have mono: "fst (vec ! a) < fst (vec ! b)" if "a < b" "b < length vec" for a b
    using "1.prems"(1) that sorted_wrt_nth_less [of "(<)" "map fst vec" a b]
    by (simp add: sorted_keys_def)
  have id: "c_str (fst (vec ! a)) = fst (vec ! a)" if "a < length vec" for a
    using "1.prems"(1) that by (simp add: sorted_keys_def list_all_length)
  have step: "bsearch key vec l u = (if key < fst (vec ! idx) then bsearch key vec l idx
      else if fst (vec ! idx) < key then bsearch key vec (Suc idx) u else Some (snd (vec ! idx)))"
    using lu idx "1.prems"(2) by (subst bsearch.simps) (simp add: idx_def Let_def id)
  consider "i < idx" | "idx < i" | "i = idx" by linarith
  then show ?case
  proof cases
    case 1
    then have "key < fst (vec ! idx)" using mono [of i idx] "1.prems" idx by simp
    then show ?thesis
      using "1.IH"(1) [OF lu refl refl] "1.prems" step 1 idx id [of idx] unfolding idx_def by simp
  next
    case 2
    then have less: "fst (vec ! idx) < key" using mono [of idx i] "1.prems" by simp
    then have "\<not> key < fst (vec ! idx)" by simp
    then show ?thesis
      using "1.IH"(2) [OF lu refl refl] "1.prems" step 2 idx less id [of idx] unfolding idx_def by simp
  next
    case 3
    with step "1.prems"(5) show ?thesis by simp
  qed
qed

lemma LookupByKey_map_of:
  assumes "sorted_keys vec" "no_nul key"
  shows "LookupByKey vec key = map_of vec key"
proof (cases "map_of vec key")
  case None
  show ?thesis
  proof (rule ccontr)
    assume "LookupByKey vec key \<noteq> map_of vec key"
    then obtain v where "bsearch key vec 0 (length vec) = Some v"
      using None assms(2) by (auto simp: LookupByKey_def)
    then obtain i where "i < length vec" "c_str (fst (vec ! i)) = key"
      using bsearch_Some_sound by fastforce
    moreover have "c_str (fst (vec ! i)) = fst (vec ! i)"
      using assms(1) \<open>i < length vec\<close> by (simp add: sorted_keys_def list_all_iff)
    ultimately have "key \<in> fst ` set vec" by (metis image_eqI nth_mem)
    with None show False by (simp add: map_of_eq_None_iff)
  qed
next
  case (Some v)
  then have "(key, v) \<in> set vec" by (rule map_of_SomeD)
  then obtain i where "i < length vec" "vec ! i = (key, v)" by (metis in_set_conv_nth)
  with bsearch_complete [OF assms(1), of "length vec" 0 i key] assms(2) Some show ?thesis
    by (simp add: LookupByKey_def)
qed

section \<open>Building an index\<close>

text \<open>\<open>index[key].push_back(value)\<close> for a \<open>std::map\<close>, whose entries are in the order of their keys, and
  for a \<open>std::unordered_map\<close>, whose order is unspecified (here, the order of insertion).\<close>

fun map_push :: "string \<Rightarrow> 'a \<Rightarrow> 'a keyed_vector \<Rightarrow> 'a keyed_vector" where
  "map_push k v [] = [(k, [v])]"
| "map_push k v ((k', vs) # rest) =
     (if k < k' then (k, [v]) # (k', vs) # rest
      else if k = k' then (k', vs @ [v]) # rest
      else (k', vs) # map_push k v rest)"

fun unordered_push :: "string \<Rightarrow> 'a \<Rightarrow> 'a keyed_vector \<Rightarrow> 'a keyed_vector" where
  "unordered_push k v [] = [(k, [v])]"
| "unordered_push k v ((k', vs) # rest) =
     (if k = k' then (k', vs @ [v]) # rest else (k', vs) # unordered_push k v rest)"

definition index_get :: "'a keyed_vector \<Rightarrow> string \<Rightarrow> 'a list" where
  "index_get idx k = (case map_of idx k of None \<Rightarrow> [] | Some vs \<Rightarrow> vs)"

text \<open>What a reader gets of the written vector: the filters of a key, none when it is absent.\<close>

definition lookup_filters :: "'a keyed_vector \<Rightarrow> string \<Rightarrow> 'a list" where
  "lookup_filters vec key = (case LookupByKey vec key of None \<Rightarrow> [] | Some vs \<Rightarrow> vs)"

lemma map_push_keys: "fst ` set (map_push k v idx) = insert k (fst ` set idx)"
  by (induction k v idx rule: map_push.induct) auto

lemma map_push_get:
  "sorted_wrt (<) (map fst idx) \<Longrightarrow>
     index_get (map_push k v idx) k' = (if k = k' then index_get idx k' @ [v] else index_get idx k')"
proof (induction k v idx rule: map_push.induct)
  case (2 k v k0 vs rest)
  have "map_of rest k = None" if "k < k0"
    using 2(2) that by (force simp: map_of_eq_None_iff)
  with 2 show ?case by (auto simp: index_get_def)
qed (simp add: index_get_def)

lemma map_push_sorted:
  "sorted_wrt (<) (map fst idx) \<Longrightarrow> sorted_wrt (<) (map fst (map_push k v idx))"
proof (induction k v idx rule: map_push.induct)
  case (2 k v k' vs rest)
  consider "k < k'" | "k = k'" | "k' < k" by (metis linorder_less_linear)
  then show ?case
  proof cases
    case 1
    with 2(2) show ?thesis by auto
  next
    case 3
    then have "sorted_wrt (<) (map fst (map_push k v rest))" using 2 by auto
    moreover have "\<forall>y\<in>fst ` set (map_push k v rest). k' < y"
      using 2(2) 3 by (simp add: map_push_keys)
    ultimately show ?thesis using 3 by auto
  qed (use 2(2) in auto)
qed simp

lemma unordered_push_keys: "fst ` set (unordered_push k v idx) = insert k (fst ` set idx)"
  by (induction k v idx rule: unordered_push.induct) auto

lemma unordered_push_get:
  "index_get (unordered_push k v idx) k' = (if k = k' then index_get idx k' @ [v] else index_get idx k')"
  by (induction k v idx rule: unordered_push.induct) (auto simp: index_get_def)

lemma unordered_push_distinct:
  "distinct (map fst idx) \<Longrightarrow> distinct (map fst (unordered_push k v idx))"
proof (induction k v idx rule: unordered_push.induct)
  case (2 k v k' vs rest)
  then show ?case
    using unordered_push_keys [of k v rest] by (auto simp: image_image)
qed simp

text \<open>Writing: \<open>CreateVector\<close> keeps the order, \<open>CreateVectorOfSortedTables\<close> sorts by key.\<close>

definition write_sorted :: "'a keyed_vector \<Rightarrow> 'a keyed_vector" where
  "write_sorted idx = sort_key fst idx"

lemma write_sorted_sorted:
  "distinct (map fst idx) \<Longrightarrow> sorted_wrt (<) (map fst (write_sorted idx))"
  by (simp add: write_sorted_def strict_sorted_iff) (metis distinct_map inj_on_def
      map_sorted_distinct_set_unique set_sort distinct_sort)

lemma write_sorted_get:
  assumes "distinct (map fst idx)"
  shows "map_of (write_sorted idx) k = map_of idx k"
proof -
  have "distinct (map fst (write_sorted idx))"
    using write_sorted_sorted [OF assms] strict_sorted_iff by blast
  moreover have "set (write_sorted idx) = set idx" by (simp add: write_sorted_def)
  ultimately show ?thesis using assms map_of_inject_set by metis
qed

section \<open>The contract of an index\<close>

text \<open>A state that entries are pushed into and a view that a key is looked up in, once it is written.\<close>

locale filter_index =
  fixes empty :: 'idx
    and push :: "string \<Rightarrow> 'a \<Rightarrow> 'idx \<Rightarrow> 'idx"
    and lookup :: "'idx \<Rightarrow> string \<Rightarrow> 'a list"
    and good :: "'idx \<Rightarrow> bool"
  assumes good_empty: "good empty"
    and good_push: "good i \<Longrightarrow> no_nul k \<Longrightarrow> good (push k v i)"
    and lookup_empty: "lookup empty k = []"
    and lookup_push: "good i \<Longrightarrow> no_nul k \<Longrightarrow> no_nul k' \<Longrightarrow>
      lookup (push k v i) k' = (if k = k' then lookup i k' @ [v] else lookup i k')"
begin

definition push_all :: "(string \<times> 'a) list \<Rightarrow> 'idx \<Rightarrow> 'idx" where
  "push_all entries i = foldl (\<lambda>i (k, v). push k v i) i entries"

lemma good_push_all:
  "good i \<Longrightarrow> list_all (\<lambda>e. no_nul (fst e)) entries \<Longrightarrow> good (push_all entries i)"
  unfolding push_all_def by (induction entries arbitrary: i) (auto simp: good_push)

lemma lookup_push_all:
  "good i \<Longrightarrow> list_all (\<lambda>e. no_nul (fst e)) entries \<Longrightarrow> no_nul k \<Longrightarrow>
     lookup (push_all entries i) k = lookup i k @ map snd (filter (\<lambda>e. fst e = k) entries)"
  unfolding push_all_def
proof (induction entries arbitrary: i)
  case (Cons e es)
  obtain k' v where e: "e = (k', v)" by (cases e)
  with Cons.prems have "good (push k' v i)" by (simp add: good_push)
  from Cons.IH [OF this] Cons.prems e show ?case by (auto simp: lookup_push)
qed simp

text \<open>Nothing that was pushed is lost, and nothing else is found.\<close>

lemma lookup_push_all_set:
  "list_all (\<lambda>e. no_nul (fst e)) entries \<Longrightarrow> no_nul k \<Longrightarrow>
     set (lookup (push_all entries empty) k) = {v. (k, v) \<in> set entries}"
  using lookup_push_all [OF good_empty, of entries k] by (force simp: lookup_empty)

end

definition ordered_good :: "'a keyed_vector \<Rightarrow> bool" where
  "ordered_good idx \<longleftrightarrow> sorted_keys idx"

definition unordered_good :: "'a keyed_vector \<Rightarrow> bool" where
  "unordered_good idx \<longleftrightarrow> distinct (map fst idx) \<and> list_all (\<lambda>e. no_nul (fst e)) idx"

definition lookup_written :: "'a keyed_vector \<Rightarrow> string \<Rightarrow> 'a list" where
  "lookup_written idx key = lookup_filters (write_sorted idx) key"

lemma keys_no_nul: "list_all (\<lambda>e. no_nul (fst e)) idx \<longleftrightarrow> (\<forall>k\<in>fst ` set idx. no_nul k)"
  by (simp add: list_all_iff)

lemma sorted_keys_push: "sorted_keys idx \<Longrightarrow> no_nul k \<Longrightarrow> sorted_keys (map_push k v idx)"
  unfolding sorted_keys_def keys_no_nul map_push_keys by (simp add: map_push_sorted)

lemma lookup_filters_get: "sorted_keys idx \<Longrightarrow> no_nul k \<Longrightarrow> lookup_filters idx k = index_get idx k"
  by (simp add: lookup_filters_def index_get_def LookupByKey_map_of)

lemma unordered_good_written: "unordered_good idx \<Longrightarrow> sorted_keys (write_sorted idx)"
  using write_sorted_sorted [of idx]
  by (simp add: unordered_good_def sorted_keys_def write_sorted_def list_all_iff)

lemma lookup_written_get:
  assumes "unordered_good idx" "no_nul k"
  shows "lookup_written idx k = index_get idx k"
proof -
  have "lookup_written idx k = index_get (write_sorted idx) k"
    unfolding lookup_written_def
    by (rule lookup_filters_get [OF unordered_good_written [OF assms(1)] assms(2)])
  also have "\<dots> = index_get idx k"
    using write_sorted_get [of idx k] assms(1) by (simp add: index_get_def unordered_good_def)
  finally show ?thesis .
qed

lemma unordered_good_push: "unordered_good idx \<Longrightarrow> no_nul k \<Longrightarrow> unordered_good (unordered_push k v idx)"
  unfolding unordered_good_def keys_no_nul unordered_push_keys by (simp add: unordered_push_distinct)

interpretation ordered_index: filter_index "[]" map_push lookup_filters ordered_good
proof
  show "ordered_good []" by (simp add: ordered_good_def sorted_keys_def)
  show "lookup_filters [] k = []" for k
    by (simp add: lookup_filters_def LookupByKey_def bsearch.simps)
next
  fix i :: "'a keyed_vector" and k k' :: string and v :: 'a
  assume i: "ordered_good i" and k: "no_nul k"
  then show good: "ordered_good (map_push k v i)"
    by (simp add: ordered_good_def sorted_keys_push)
  assume "no_nul k'"
  with i k good show "lookup_filters (map_push k v i) k' =
      (if k = k' then lookup_filters i k' @ [v] else lookup_filters i k')"
    by (simp add: ordered_good_def lookup_filters_get map_push_get sorted_keys_def)
qed

interpretation unordered_index: filter_index "[]" unordered_push lookup_written unordered_good
proof
  show "unordered_good []" by (simp add: unordered_good_def)
  show "lookup_written [] k = []" for k
    by (simp add: lookup_written_def write_sorted_def lookup_filters_def LookupByKey_def bsearch.simps)
next
  fix i :: "'a keyed_vector" and k k' :: string and v :: 'a
  assume i: "unordered_good i" and k: "no_nul k"
  then show good: "unordered_good (unordered_push k v i)" by (rule unordered_good_push)
  assume "no_nul k'"
  with i good show "lookup_written (unordered_push k v i) k' =
      (if k = k' then lookup_written i k' @ [v] else lookup_written i k')"
    by (simp add: lookup_written_get unordered_push_get)
qed

end
