(* ===== verification/Keywords.thy ===== *)
theory Keywords
  imports Common
begin

text \<open>
  Keywords, by which URL filters are indexed: \<open>converter/serializer/filter_keyword_extractor.cc\<close> takes
  them out of a filter's pattern, \<open>subscription/url_keyword_extractor.cc\<close> out of a URL. An extractor's
  state is the text that is still to be scanned. RE2 reads the pattern as UTF-8, where a separator
  may be several bytes long.
\<close>

section \<open>Keywords of a filter\<close>

definition is_keyword_char :: "char \<Rightarrow> bool" where
  "is_keyword_char c \<longleftrightarrow> IsAsciiAlphaNumeric c \<or> c = CHR ''%''"

text \<open>The number of bytes of the UTF-8 sequence that a byte leads, 0 when it leads none.\<close>

definition utf8_length :: "char \<Rightarrow> nat" where
  "utf8_length c =
     (let n = (of_char c :: nat)
      in if n < 128 then 1 else if n < 192 then 0 else if n < 224 then 2 else if n < 240 then 3 else 4)"

definition starts_with_separator :: "string \<Rightarrow> bool" where
  "starts_with_separator s =
     (case s of [] \<Rightarrow> False
      | c # _ \<Rightarrow> \<not> is_keyword_char c \<and> c \<noteq> CHR ''*'' \<and> 0 < utf8_length c)"

text \<open>\<open>[^a-zA-Z0-9%*][a-zA-Z0-9%]{2,}\<close> at the start of the text: the match and what follows it.\<close>

definition keyword_here :: "string \<Rightarrow> (string \<times> string) option" where
  "keyword_here s =
     (if \<not> starts_with_separator s then None
      else
        (let n = utf8_length (hd s); run = takeWhile is_keyword_char (drop n s)
         in if 2 \<le> length run
            then Some (take n s @ run, dropWhile is_keyword_char (drop n s)) else None))"

fun find_keyword :: "string \<Rightarrow> (string \<times> string) option" where
  "find_keyword [] = None"
| "find_keyword (c # s) =
     (case keyword_here (c # s) of Some r \<Rightarrow> Some r | None \<Rightarrow> find_keyword s)"

lemma keyword_here_shorter: "keyword_here s = Some (m, rest) \<Longrightarrow> length rest < length s"
proof -
  assume a: "keyword_here s = Some (m, rest)"
  then obtain c r where s: "s = c # r" by (cases s) (auto simp: keyword_here_def starts_with_separator_def)
  with a have "rest = dropWhile is_keyword_char (drop (utf8_length c) s)" "0 < utf8_length c"
    by (auto simp: keyword_here_def starts_with_separator_def Let_def split: if_splits)
  then have "length rest \<le> length s - utf8_length c" "0 < utf8_length c"
    using length_dropWhile_le [of is_keyword_char "drop (utf8_length c) s"] by simp_all
  with s show ?thesis by simp
qed

lemma find_keyword_shorter: "find_keyword s = Some (m, rest) \<Longrightarrow> length rest < length s"
  by (induction s rule: find_keyword.induct)
    (auto dest: keyword_here_shorter split: option.splits)

text \<open>One call of \<open>GetNextKeyword\<close>: the keyword before it is lowercased, and the input that is left.\<close>

function next_filter_keyword :: "string \<Rightarrow> (string \<times> string) option" where
  "next_filter_keyword input =
     (case find_keyword input of
        None \<Rightarrow> None
      | Some (current_keyword, rest) \<Rightarrow>
          (if \<not> starts_with_separator rest
           then next_filter_keyword (dropWhile (\<lambda>c. is_keyword_char c \<or> c = CHR ''*'') rest)
           else
             (let current_keyword = drop 1 current_keyword
              in if IsBadKeyword current_keyword then next_filter_keyword rest
                 else Some (current_keyword, rest))))"
  by pat_completeness auto
termination
proof (relation "measure length")
  fix input x m rest
  assume "find_keyword input = Some x" "(m, rest) = x"
  then have "length rest < length input" using find_keyword_shorter [of input m rest] by simp
  then show "(dropWhile (\<lambda>c. is_keyword_char c \<or> c = CHR ''*'') rest, input) \<in> measure length"
    using length_dropWhile_le [of "\<lambda>c. is_keyword_char c \<or> c = CHR ''*''" rest] by simp
qed (auto dest: find_keyword_shorter)

declare next_filter_keyword.simps [simp del]

definition FilterKeywordExtractor_GetNextKeyword :: "string \<Rightarrow> (string \<times> string) option" where
  "FilterKeywordExtractor_GetNextKeyword input =
     (case next_filter_keyword input of None \<Rightarrow> None | Some (k, rest) \<Rightarrow> Some (ToLowerASCII k, rest))"

lemma next_filter_keyword_shorter:
  "next_filter_keyword s = Some (k, rest) \<Longrightarrow> length rest < length s"
proof (induction s arbitrary: k rest rule: next_filter_keyword.induct)
  case (1 s)
  from 1(3) obtain m r where m: "find_keyword s = Some (m, r)"
    by (subst (asm) next_filter_keyword.simps) (auto split: option.splits)
  then have r: "length r < length s" by (rule find_keyword_shorter)
  let ?d = "dropWhile (\<lambda>c. is_keyword_char c \<or> c = CHR ''*'') r"
  have d: "length ?d \<le> length r" by (rule length_dropWhile_le)
  consider "\<not> starts_with_separator r" | "starts_with_separator r" "IsBadKeyword (drop 1 m)"
    | "starts_with_separator r" "\<not> IsBadKeyword (drop 1 m)" by blast
  then show ?case
  proof cases
    case 1
    then have "next_filter_keyword ?d = Some (k, rest)"
      using "1.prems" m by (simp add: next_filter_keyword.simps [of s])
    with 1 "1.IH"(1) [OF m refl] have "length rest < length ?d" by simp
    with r d show ?thesis by simp
  next
    case 2
    then have "next_filter_keyword r = Some (k, rest)"
      using "1.prems" m by (simp add: next_filter_keyword.simps [of s])
    with 2 "1.IH"(2) [OF m refl] have "length rest < length r" by simp
    with r show ?thesis by simp
  next
    case 3
    with "1.prems" m r show ?thesis by (simp add: next_filter_keyword.simps [of s])
  qed
qed

text \<open>All keywords of a pattern, in the order the extractor returns them, before lowercasing.\<close>

function filter_keywords :: "string \<Rightarrow> string list" where
  "filter_keywords input =
     (case next_filter_keyword input of None \<Rightarrow> [] | Some (k, rest) \<Rightarrow> k # filter_keywords rest)"
  by pat_completeness auto
termination by (relation "measure length") (auto dest: next_filter_keyword_shorter)

declare filter_keywords.simps [simp del]

subsection \<open>Where a keyword stands in its pattern\<close>

definition ascii_string :: "string \<Rightarrow> bool" where
  "ascii_string s \<longleftrightarrow> list_all (\<lambda>c. (of_char c :: nat) < 128) s"

definition pattern_separator :: "char \<Rightarrow> bool" where
  "pattern_separator c \<longleftrightarrow> \<not> is_keyword_char c \<and> c \<noteq> CHR ''*''"

definition keyword_in_pattern :: "string \<Rightarrow> string \<Rightarrow> bool" where
  "keyword_in_pattern p k \<longleftrightarrow> list_all is_keyword_char k \<and> 2 \<le> length k \<and>
     (\<exists>a c d b. p = a @ c # k @ d # b \<and> pattern_separator c \<and> pattern_separator d)"

lemma keyword_in_pattern_suffix: "keyword_in_pattern p k \<Longrightarrow> keyword_in_pattern (x @ p) k"
  unfolding keyword_in_pattern_def by (metis append.assoc)

lemma find_keyword_ascii:
  assumes "find_keyword s = Some (m, rest)" "ascii_string s"
  shows "\<exists>a c k. m = c # k \<and> s = a @ c # k @ rest \<and> pattern_separator c \<and>
    list_all is_keyword_char k \<and> 2 \<le> length k"
  using assms
proof (induction s rule: find_keyword.induct)
  case (2 c s)
  show ?case
  proof (cases "keyword_here (c # s)")
    case None
    with 2 obtain a c' k where "m = c' # k" "s = a @ c' # k @ rest" "pattern_separator c'"
      "list_all is_keyword_char k" "2 \<le> length k"
      by (auto simp: ascii_string_def)
    then show ?thesis by (metis append_Cons)
  next
    case (Some r)
    have n: "utf8_length c = 1" using 2(3) by (simp add: ascii_string_def utf8_length_def)
    let ?k = "takeWhile is_keyword_char s"
    have "m = c # ?k" "rest = dropWhile is_keyword_char s" "2 \<le> length ?k"
      "pattern_separator c"
      using 2(2) Some n
      by (auto simp: keyword_here_def starts_with_separator_def pattern_separator_def Let_def
          split: if_splits)
    moreover have "list_all is_keyword_char ?k"
      by (auto simp: list_all_iff dest: set_takeWhileD)
    moreover have "c # s = [] @ c # ?k @ rest" using calculation(2) by simp
    ultimately show ?thesis by blast
  qed
qed simp

lemma ascii_string_append: "ascii_string (a @ b) \<longleftrightarrow> ascii_string a \<and> ascii_string b"
  by (simp add: ascii_string_def)

lemma starts_with_separator_ascii:
  "ascii_string s \<Longrightarrow> starts_with_separator s \<longleftrightarrow> (\<exists>d b. s = d # b \<and> pattern_separator d)"
  by (cases s) (auto simp: starts_with_separator_def pattern_separator_def ascii_string_def utf8_length_def)

lemma dropWhile_suffix: "\<exists>x. s = x @ dropWhile P s"
  by (metis takeWhile_dropWhile_id)

lemma next_filter_keyword_in_pattern:
  assumes "next_filter_keyword p = Some (k, rest)" "ascii_string p"
  shows "keyword_in_pattern p k \<and> \<not> IsBadKeyword k \<and> (\<exists>x. p = x @ rest)"
  using assms
proof (induction p arbitrary: k rest rule: next_filter_keyword.induct)
  case (1 p)
  from 1(3) obtain m r where m: "find_keyword p = Some (m, r)"
    by (subst (asm) next_filter_keyword.simps) (auto split: option.splits)
  then obtain a c k0 where k0: "m = c # k0" "p = a @ c # k0 @ r" "pattern_separator c"
    "list_all is_keyword_char k0" "2 \<le> length k0"
    using find_keyword_ascii [OF m 1(4)] by blast
  have pr: "p = (a @ c # k0) @ r" using k0 by simp
  have ar: "ascii_string r" using 1(4) unfolding pr ascii_string_append by simp
  let ?d = "dropWhile (\<lambda>c. is_keyword_char c \<or> c = CHR ''*'') r"
  obtain x where x: "r = x @ ?d" using dropWhile_suffix by blast
  have ad: "ascii_string ?d" using ar x ascii_string_append by metis
  consider "\<not> starts_with_separator r" | "starts_with_separator r" "IsBadKeyword k0"
    | "starts_with_separator r" "\<not> IsBadKeyword k0" by blast
  then show ?case
  proof cases
    case 1
    then have "next_filter_keyword ?d = Some (k, rest)"
      using "1.prems" m by (simp add: next_filter_keyword.simps [of p])
    with 1 "1.IH"(1) [OF m refl] ad have IH: "keyword_in_pattern ?d k" "\<not> IsBadKeyword k"
      "\<exists>y. ?d = y @ rest" by blast+
    have "p = (a @ c # k0 @ x) @ ?d" using pr x by simp
    with IH show ?thesis using keyword_in_pattern_suffix by (metis append.assoc)
  next
    case 2
    then have "next_filter_keyword r = Some (k, rest)"
      using "1.prems" m k0(1) by (simp add: next_filter_keyword.simps [of p])
    with 2 "1.IH"(2) [OF m refl] ar k0(1) have IH: "keyword_in_pattern r k" "\<not> IsBadKeyword k"
      "\<exists>y. r = y @ rest" by auto
    then show ?thesis using pr keyword_in_pattern_suffix by (metis append.assoc)
  next
    case 3
    then have "k = k0" "rest = r"
      using "1.prems" m k0(1) by (simp_all add: next_filter_keyword.simps [of p])
    moreover obtain d b where "r = d # b" "pattern_separator d"
      using starts_with_separator_ascii [OF ar] 3(1) by blast
    ultimately show ?thesis using k0 3(2) pr by (auto simp: keyword_in_pattern_def)
  qed
qed

lemma filter_keywords_in_pattern:
  assumes "k \<in> set (filter_keywords p)" "ascii_string p"
  shows "keyword_in_pattern p k \<and> \<not> IsBadKeyword k"
  using assms
proof (induction p rule: filter_keywords.induct)
  case (1 p)
  from 1(2) have "next_filter_keyword p \<noteq> None"
    by (cases "next_filter_keyword p") (simp_all add: filter_keywords.simps [of p])
  then obtain k' rest where n: "next_filter_keyword p = Some (k', rest)" by auto
  note np = next_filter_keyword_in_pattern [OF n 1(3)]
  then obtain x where x: "p = x @ rest" by blast
  show ?case
  proof (cases "k = k'")
    case False
    then have "k \<in> set (filter_keywords rest)"
      using 1(2) n by (subst (asm) filter_keywords.simps) simp
    with 1(1) [OF n refl] 1(3) x ascii_string_append have "keyword_in_pattern rest k \<and> \<not> IsBadKeyword k"
      by simp
    then show ?thesis using x keyword_in_pattern_suffix by metis
  qed (use np in simp)
qed

section \<open>Keywords of a URL\<close>

definition IsSeparatorCharacter :: "char \<Rightarrow> bool" where
  "IsSeparatorCharacter c \<longleftrightarrow> \<not> (IsAsciiAlphaNumeric c \<or> c = CHR ''%'')"

definition url_with_nulls :: "string \<Rightarrow> string" where
  "url_with_nulls url = map (\<lambda>c. if IsSeparatorCharacter c then CHR 0x00 else c) url"

definition skip_nulls :: "string \<Rightarrow> string" where
  "skip_nulls s = dropWhile (\<lambda>c. c = CHR 0x00) s"

definition until_null :: "string \<Rightarrow> string" where
  "until_null s = takeWhile (\<lambda>c. c \<noteq> CHR 0x00) s"

function UrlKeywordExtractor_GetNextKeyword :: "string \<Rightarrow> (string \<times> string) option" where
  "UrlKeywordExtractor_GetNextKeyword input =
     (if skip_nulls input = [] then None
      else
        (let input = skip_nulls input;
             current_keyword = until_null input;
             rest = drop (length current_keyword) input
         in if IsBadKeyword current_keyword then UrlKeywordExtractor_GetNextKeyword rest
            else Some (current_keyword, rest)))"
  by pat_completeness auto

definition after_keyword :: "string \<Rightarrow> string" where
  "after_keyword s = drop (length (until_null (skip_nulls s))) (skip_nulls s)"

lemma after_keyword_shorter:
  assumes "skip_nulls s \<noteq> []"
  shows "length (after_keyword s) < length s"
proof -
  obtain c r where cr: "skip_nulls s = c # r" using assms by (meson neq_Nil_conv)
  then have "c \<noteq> CHR 0x00"
    using hd_dropWhile [of "\<lambda>c. c = CHR 0x00" s] by (simp add: skip_nulls_def)
  moreover have "length (c # r) \<le> length s"
    using length_dropWhile_le [of "\<lambda>c. c = CHR 0x00" s] cr by (simp add: skip_nulls_def)
  ultimately show ?thesis by (simp add: cr after_keyword_def until_null_def)
qed

termination UrlKeywordExtractor_GetNextKeyword
  by (relation "measure length") (simp_all add: after_keyword_shorter [unfolded after_keyword_def length_drop])

declare UrlKeywordExtractor_GetNextKeyword.simps [simp del]

lemma UrlKeyword_step:
  "UrlKeywordExtractor_GetNextKeyword s =
     (if skip_nulls s = [] then None
      else if IsBadKeyword (until_null (skip_nulls s))
      then UrlKeywordExtractor_GetNextKeyword (after_keyword s)
      else Some (until_null (skip_nulls s), after_keyword s))"
  by (subst UrlKeywordExtractor_GetNextKeyword.simps) (simp add: Let_def after_keyword_def)

lemma UrlKeyword_induct:
  assumes "\<And>s. (skip_nulls s \<noteq> [] \<Longrightarrow> P (after_keyword s)) \<Longrightarrow> P s"
  shows "P s"
proof (induction "length s" arbitrary: s rule: less_induct)
  case less
  then show ?case using assms after_keyword_shorter by blast
qed

lemma UrlKeyword_shorter:
  "UrlKeywordExtractor_GetNextKeyword s = Some (k, rest) \<Longrightarrow> length rest < length s"
proof (induction s arbitrary: k rest rule: UrlKeyword_induct)
  case (1 s)
  then have ne: "skip_nulls s \<noteq> []" by (auto simp: UrlKeyword_step [of s])
  note less = after_keyword_shorter [OF ne]
  show ?case
  proof (cases "IsBadKeyword (until_null (skip_nulls s))")
    case True
    then have "UrlKeywordExtractor_GetNextKeyword (after_keyword s) = Some (k, rest)"
      using 1(2) ne by (simp add: UrlKeyword_step [of s])
    from 1(1) [OF ne this] less show ?thesis by simp
  next
    case False
    with 1(2) ne less show ?thesis by (simp add: UrlKeyword_step [of s])
  qed
qed

text \<open>The keywords a loop over \<open>GetNextKeyword\<close> sees.\<close>

function url_keywords_from :: "string \<Rightarrow> string list" where
  "url_keywords_from input =
     (case UrlKeywordExtractor_GetNextKeyword input of
        None \<Rightarrow> [] | Some (k, rest) \<Rightarrow> k # url_keywords_from rest)"
  by pat_completeness auto
termination by (relation "measure length") (auto dest: UrlKeyword_shorter)

declare url_keywords_from.simps [simp del]

definition url_keywords :: "string \<Rightarrow> string list" where
  "url_keywords url = url_keywords_from (url_with_nulls url)"

text \<open>The keywords are the pieces between separators that are not bad, in their order.\<close>

lemma url_keywords_from_step:
  "url_keywords_from s =
     (if skip_nulls s = [] then []
      else if IsBadKeyword (until_null (skip_nulls s)) then url_keywords_from (after_keyword s)
      else until_null (skip_nulls s) # url_keywords_from (after_keyword s))"
proof (cases "skip_nulls s = [] \<or> \<not> IsBadKeyword (until_null (skip_nulls s))")
  case True
  then show ?thesis
    by (subst url_keywords_from.simps, subst UrlKeyword_step) auto
next
  case False
  then have "UrlKeywordExtractor_GetNextKeyword s = UrlKeywordExtractor_GetNextKeyword (after_keyword s)"
    by (simp add: UrlKeyword_step [of s])
  then have "url_keywords_from s = url_keywords_from (after_keyword s)"
    by (simp add: url_keywords_from.simps [of s] url_keywords_from.simps [of "after_keyword s"])
  with False show ?thesis by simp
qed

definition null_free :: "string \<Rightarrow> bool" where
  "null_free k \<longleftrightarrow> CHR 0x00 \<notin> set k"

lemma skip_nulls_split:
  "\<exists>z. s = z @ skip_nulls s \<and> set z \<subseteq> {CHR 0x00}"
proof -
  have "s = takeWhile (\<lambda>c. c = CHR 0x00) s @ skip_nulls s"
    unfolding skip_nulls_def by simp
  moreover have "set (takeWhile (\<lambda>c. c = CHR 0x00) s) \<subseteq> {CHR 0x00}"
    by (auto dest: set_takeWhileD)
  ultimately show ?thesis by blast
qed

lemma until_null_after:
  assumes "s = k @ b" "null_free k" "b = [] \<or> hd b = CHR 0x00"
  shows "until_null s = k" "drop (length (until_null s)) s = b"
proof -
  have "takeWhile (\<lambda>c. c \<noteq> CHR 0x00) (k @ b) = k @ takeWhile (\<lambda>c. c \<noteq> CHR 0x00) b"
    using assms(2) by (intro takeWhile_append2) (auto simp: null_free_def)
  moreover have "takeWhile (\<lambda>c. c \<noteq> CHR 0x00) b = []" using assms(3) by (cases b) auto
  ultimately show "until_null s = k" "drop (length (until_null s)) s = b"
    using assms(1) by (simp_all add: until_null_def)
qed

lemma url_keywords_from_complete:
  assumes "s = a @ k @ b" "a = [] \<or> last a = CHR 0x00" "b = [] \<or> hd b = CHR 0x00"
    "null_free k" "k \<noteq> []" "\<not> IsBadKeyword k"
  shows "k \<in> set (url_keywords_from s)"
  using assms(1,2)
proof (induction s arbitrary: a rule: UrlKeyword_induct)
  case (1 s)
  obtain z where z: "s = z @ skip_nulls s" "set z \<subseteq> {CHR 0x00}" using skip_nulls_split by blast
  define i where "i = skip_nulls s"
  have i0: "i = [] \<or> hd i \<noteq> CHR 0x00"
    unfolding i_def skip_nulls_def using hd_dropWhile [of "\<lambda>c. c = CHR 0x00" s] by blast
  have kin: "\<exists>c\<in>set s. c \<noteq> CHR 0x00"
    using 1(2) assms(4,5) by (cases k) (auto simp: null_free_def)
  have ne: "i \<noteq> []" using kin z by (auto simp: i_def [symmetric])
  have za: "length z \<le> length a"
  proof (rule ccontr)
    assume "\<not> length z \<le> length a"
    then have "z ! length a \<in> set z" by simp
    moreover have "s ! length a = z ! length a"
      using \<open>\<not> length z \<le> length a\<close> z(1) by (metis nth_append not_le_imp_less)
    ultimately have "s ! length a = CHR 0x00" using z(2) by auto
    moreover have "s ! length a \<in> set k" using 1(2) assms(5) by (cases k) (simp_all add: nth_append)
    ultimately show False using assms(4) by (auto simp: null_free_def)
  qed
  have zi: "z @ i = a @ (k @ b)" using z(1) 1(2) by (simp add: i_def)
  obtain a' where a': "a = z @ a'" and ia: "i = a' @ k @ b"
    using zi za unfolding append_eq_append_conv2 by force
  note step = url_keywords_from_step [of s, folded i_def]
  show ?case
  proof (cases "a' = []")
    case True
    then have "until_null i = k" using until_null_after(1) [of i k b] ia assms(3,4) by simp
    then show ?thesis using step ne assms(6) by simp
  next
    case False
    then have la: "last a' = CHR 0x00" using 1(3) a' by (cases "a = []") auto
    define w where "w = until_null i"
    have w: "null_free w" "w = takeWhile (\<lambda>c. c \<noteq> CHR 0x00) i"
      by (auto simp: w_def until_null_def null_free_def dest: set_takeWhileD)
    have wl: "takeWhile (\<lambda>c. c \<noteq> CHR 0x00) i = takeWhile (\<lambda>c. c \<noteq> CHR 0x00) a'"
      unfolding ia using last_in_set [OF False] la by (intro takeWhile_append1 [of "CHR 0x00"]) simp_all
    then have da: "drop (length w) i = drop (length w) a' @ k @ b"
      unfolding w(2) ia by (simp add: length_takeWhile_le)
    have "length w < length a'"
    proof (rule ccontr)
      assume "\<not> length w < length a'"
      then have "w = a'" unfolding w(2) wl
        by (metis length_takeWhile_le nle_le order_le_less takeWhile_eq_take take_all)
      with w(1) la False show False by (metis last_in_set null_free_def)
    qed
    then have "drop (length w) a' = [] \<or> last (drop (length w) a') = CHR 0x00"
      using la by (simp add: last_drop)
    then have "k \<in> set (url_keywords_from (after_keyword s))"
      using 1(1) [of "drop (length w) a'"] da ne by (simp add: after_keyword_def i_def w_def)
    then show ?thesis using step ne by (auto simp: i_def)
  qed
qed

text \<open>A keyword that stands between separators in the URL is one of its keywords.\<close>

lemma url_keywords_complete:
  assumes "url = a @ k @ b" "a = [] \<or> \<not> is_keyword_char (last a)" "b = [] \<or> \<not> is_keyword_char (hd b)"
    "list_all is_keyword_char k" "k \<noteq> []" "\<not> IsBadKeyword k"
  shows "k \<in> set (url_keywords url)"
proof -
  have sep: "IsSeparatorCharacter c \<longleftrightarrow> \<not> is_keyword_char c" for c
    by (simp add: IsSeparatorCharacter_def is_keyword_char_def)
  have k: "url_with_nulls k = k"
    using assms(4) by (simp add: url_with_nulls_def sep list_all_iff map_idI)
  have nul: "\<not> is_keyword_char (CHR 0x00)" by (simp add: is_keyword_char_def IsAsciiAlphaNumeric_def)
  show ?thesis
    unfolding url_keywords_def
  proof (rule url_keywords_from_complete)
    show "url_with_nulls url = url_with_nulls a @ k @ url_with_nulls b"
      using assms(1) k by (simp add: url_with_nulls_def)
    show "url_with_nulls a = [] \<or> last (url_with_nulls a) = CHR 0x00"
      using assms(2) by (cases "a = []") (simp_all add: url_with_nulls_def last_map sep)
    show "url_with_nulls b = [] \<or> hd (url_with_nulls b) = CHR 0x00"
      using assms(3) by (cases b) (simp_all add: url_with_nulls_def sep)
    show "null_free k" using assms(4) nul by (auto simp: null_free_def list_all_iff)
  qed (use assms in auto)
qed

end
