(* ===== verification/Domain_Option.thy ===== *)
theory Domain_Option
  imports Common "HOL-Library.Multiset"
begin

text \<open>
  \<open>converter/parser\<close>: the domain lists of filters (\<open>domain_option.cc\<close>), the kind of a filter read
  off its separator (\<open>filter_classifier.cc\<close>) and content filters (\<open>content_filter.cc\<close>).
\<close>

section \<open>Domain options\<close>

record DomainOption =
  exclude_domains :: "string list"
  include_domains :: "string list"

definition empty_DomainOption :: DomainOption where
  "empty_DomainOption = \<lparr>exclude_domains = [], include_domains = []\<rparr>"

definition kExcludeSymbol :: char where
  "kExcludeSymbol = CHR ''~''"

text \<open>
  \<open>std::partition\<close> of libc++ on a vector: the first element that fails the test is swapped with the
  last one that passes it, until the two cursors meet. The standard fixes only which elements end
  up on which side (the lemma \<open>std_partition_correct\<close>).
\<close>

definition last_passing :: "('a \<Rightarrow> bool) \<Rightarrow> 'a list \<Rightarrow> 'a list \<times> 'a list" where
  "last_passing p r =
     (rev (dropWhile (\<lambda>y. \<not> p y) (rev r)), rev (takeWhile (\<lambda>y. \<not> p y) (rev r)))"

lemma last_passing_split:
  assumes "last_passing p r = (rest, tail)"
  shows "r = rest @ tail" "\<And>y. y \<in> set tail \<Longrightarrow> \<not> p y" "rest \<noteq> [] \<Longrightarrow> p (last rest)"
proof -
  have rt: "rest = rev (dropWhile (\<lambda>y. \<not> p y) (rev r))" "tail = rev (takeWhile (\<lambda>y. \<not> p y) (rev r))"
    using assms by (simp_all add: last_passing_def)
  then show "r = rest @ tail" by (metis rev_append rev_rev_ident takeWhile_dropWhile_id)
  show "\<And>y. y \<in> set tail \<Longrightarrow> \<not> p y" using rt by (auto dest: set_takeWhileD)
  show "rest \<noteq> [] \<Longrightarrow> p (last rest)" using rt by (metis hd_dropWhile last_rev rev_is_Nil_conv)
qed

function (sequential) std_partition :: "('a \<Rightarrow> bool) \<Rightarrow> 'a list \<Rightarrow> 'a list \<times> 'a list" where
  "std_partition p [] = ([], [])"
| "std_partition p (x # r) =
     (if p x then (let (a, b) = std_partition p r in (x # a, b))
      else
        (case last_passing p r of (rest, tail) \<Rightarrow>
           (if rest = [] then ([], x # tail)
            else (let (a, b) = std_partition p (butlast rest) in (last rest # a, b @ x # tail)))))"
  by pat_completeness auto

lemma last_passing_shorter:
  "(rest, tail) = last_passing p r \<Longrightarrow> length rest - Suc 0 < Suc (length r)"
  using last_passing_split(1) [of p r rest tail] by simp

termination std_partition
  by (relation "measure (\<lambda>(p, xs). length xs)") (auto dest: last_passing_shorter)

lemma std_partition_swap:
  assumes "\<not> p x" "last_passing p r = (rest, tail)" "rest \<noteq> []"
    "std_partition p (butlast rest) = (a, b)"
  shows "std_partition p (x # r) = (last rest # a, b @ x # tail)"
  using assms by simp

lemma std_partition_correct:
  "std_partition p xs = (a, b) \<Longrightarrow>
     mset a + mset b = mset xs \<and> (\<forall>x\<in>set a. p x) \<and> (\<forall>x\<in>set b. \<not> p x)"
proof (induction "length xs" arbitrary: xs a b rule: less_induct)
  case less
  show ?case
  proof (cases xs)
    case (Cons x r)
    obtain rest tail where lp: "last_passing p r = (rest, tail)" by (meson prod.exhaust)
    note sp = last_passing_split [OF lp]
    consider "p x" | "\<not> p x" "rest = []" | "\<not> p x" "rest \<noteq> []" by blast
    then show ?thesis
    proof cases
      case 1
      obtain a' b' where "std_partition p r = (a', b')" by (meson prod.exhaust)
      then show ?thesis using less 1 Cons by force
    next
      case 2
      then show ?thesis using less(2) Cons lp sp by auto
    next
      case 3
      obtain a' b' where ab: "std_partition p (butlast rest) = (a', b')" by (meson prod.exhaust)
      have IH: "mset a' + mset b' = mset (butlast rest)" "\<forall>x\<in>set a'. p x" "\<forall>x\<in>set b'. \<not> p x"
        using less(1) [OF _ ab] Cons sp(1) by auto
      have eq: "a = last rest # a'" "b = b' @ x # tail"
        using less(2) std_partition_swap [OF 3(1) lp 3(2) ab] Cons by simp_all
      have "mset rest = add_mset (last rest) (mset (butlast rest))"
        using 3(2) by (metis append_butlast_last_id mset_append mset.simps
            union_mset_add_mset_right add.right_neutral)
      then have "mset a + mset b = mset xs" using IH(1) eq sp(1) Cons
        by (simp add: add.assoc [symmetric])
      then show ?thesis using IH eq sp(2,3) 3 by auto
    qed
  qed (use less in simp)
qed

lemma set_std_partition:
  "set (fst (std_partition p xs)) = {x \<in> set xs. p x}"
  "set (snd (std_partition p xs)) = {x \<in> set xs. \<not> p x}"
proof -
  obtain a b where ab: "std_partition p xs = (a, b)" by (meson prod.exhaust)
  note c = std_partition_correct [OF ab]
  then have "set a \<union> set b = set xs"
    by (metis set_mset_mset set_mset_union)
  with c ab show
    "set (fst (std_partition p xs)) = {x \<in> set xs. p x}"
    "set (snd (std_partition p xs)) = {x \<in> set xs. \<not> p x}"
    by auto
qed

definition DomainOption_FromString :: "string \<Rightarrow> char \<Rightarrow> DomainOption" where
  "DomainOption_FromString domains_list separator =
     (let lower_domains_list = ToLowerASCII domains_list;
          domains = SplitStringNonempty lower_domains_list separator TRIM_WHITESPACE;
          (excl, incl) = std_partition (\<lambda>domain. domain \<noteq> [] \<and> hd domain = kExcludeSymbol) domains
      in \<lparr>exclude_domains = map (\<lambda>d. RemoveChars d [kExcludeSymbol]) excl,
          include_domains = incl\<rparr>)"

definition HasSubdomainOrLocalhost :: "string \<Rightarrow> bool" where
  "HasSubdomainOrLocalhost domain \<longleftrightarrow>
     domain \<noteq> ''localhost'' \<and> find_char (CHR ''.'') domain = None"

definition RemoveDomainsWithNoSubdomain :: "DomainOption \<Rightarrow> DomainOption" where
  "RemoveDomainsWithNoSubdomain d =
     \<lparr>exclude_domains = filter (\<lambda>x. \<not> HasSubdomainOrLocalhost x) (exclude_domains d),
      include_domains = filter (\<lambda>x. \<not> HasSubdomainOrLocalhost x) (include_domains d)\<rparr>"

text \<open>A domain that is left is \<open>localhost\<close> or has a dot: the test's name says the opposite of what
  it computes, and the two negations cancel.\<close>

lemma RemoveDomainsWithNoSubdomain_keeps:
  "d \<in> set (include_domains (RemoveDomainsWithNoSubdomain ds)) \<longleftrightarrow>
     d \<in> set (include_domains ds) \<and> (d = ''localhost'' \<or> CHR ''.'' \<in> set d)"
  "d \<in> set (exclude_domains (RemoveDomainsWithNoSubdomain ds)) \<longleftrightarrow>
     d \<in> set (exclude_domains ds) \<and> (d = ''localhost'' \<or> CHR ''.'' \<in> set d)"
  by (auto simp: RemoveDomainsWithNoSubdomain_def HasSubdomainOrLocalhost_def find_char_None)

lemma TrimTrailing_set: "set (TrimTrailing s cs) \<subseteq> set s"
  by (auto simp: TrimTrailing_def dest: set_dropWhileD)

lemma TrimLeading_set: "set (TrimLeading s cs) \<subseteq> set s"
  by (auto simp: TrimLeading_def dest: set_dropWhileD)

lemma TrimWhitespaceASCII_set: "set (TrimWhitespaceASCII s) \<subseteq> set s"
  using TrimTrailing_set TrimLeading_set unfolding TrimWhitespaceASCII_def TrimString_def by blast

lemma SplitStringNonempty_chars:
  "p \<in> set (SplitStringNonempty s sep ws) \<Longrightarrow> set p \<subseteq> set s \<and> sep \<notin> set p"
  using TrimWhitespaceASCII_set split_on_chars split_on_no_sep
  by (fastforce simp: SplitStringNonempty_def split: whitespace_handling.splits)

text \<open>What a domain list is: the lowercased pieces, those with a leading \<open>~\<close> on the exclude side.\<close>

lemma DomainOption_FromString_include:
  "d \<in> set (include_domains (DomainOption_FromString s sep)) \<longleftrightarrow>
     d \<in> set (SplitStringNonempty (ToLowerASCII s) sep TRIM_WHITESPACE) \<and> hd d \<noteq> kExcludeSymbol"
  by (auto simp: DomainOption_FromString_def Let_def split_beta set_std_partition
      dest: SplitStringNonempty_nonempty)

lemma DomainOption_FromString_exclude:
  "d \<in> set (exclude_domains (DomainOption_FromString s sep)) \<longleftrightarrow>
     (\<exists>p\<in>set (SplitStringNonempty (ToLowerASCII s) sep TRIM_WHITESPACE).
        hd p = kExcludeSymbol \<and> d = RemoveChars p [kExcludeSymbol])"
  by (auto simp: DomainOption_FromString_def Let_def split_beta set_std_partition
      dest: SplitStringNonempty_nonempty)

definition well_formed_domains :: "DomainOption \<Rightarrow> bool" where
  "well_formed_domains ds \<longleftrightarrow>
     list_all (\<lambda>d. d \<noteq> [] \<and> hd d \<noteq> kExcludeSymbol \<and> list_all (\<lambda>c. \<not> IsAsciiUpper c) d)
       (include_domains ds) \<and>
     list_all (\<lambda>d. kExcludeSymbol \<notin> set d \<and> list_all (\<lambda>c. \<not> IsAsciiUpper c) d) (exclude_domains ds)"

lemma DomainOption_FromString_well_formed: "well_formed_domains (DomainOption_FromString s sep)"
proof -
  have low: "\<not> IsAsciiUpper c" if "p \<in> set (SplitStringNonempty (ToLowerASCII s) sep TRIM_WHITESPACE)"
    "c \<in> set p" for p c
    using SplitStringNonempty_chars [OF that(1)] that(2) ToLowerASCII_no_upper by blast
  show ?thesis
    unfolding well_formed_domains_def list_all_iff
    using low
    by (auto simp: DomainOption_FromString_include DomainOption_FromString_exclude RemoveChars_def
        dest: SplitStringNonempty_nonempty)
qed

lemma well_formed_domains_empty [simp]: "well_formed_domains empty_DomainOption"
  by (simp add: well_formed_domains_def empty_DomainOption_def)

lemma RemoveDomainsWithNoSubdomain_well_formed:
  "well_formed_domains d \<Longrightarrow> well_formed_domains (RemoveDomainsWithNoSubdomain d)"
  by (auto simp: well_formed_domains_def RemoveDomainsWithNoSubdomain_def list_all_iff)

section \<open>Classifying a filter line\<close>

datatype FilterType = FT_ElemHide | FT_ElemHideException | FT_ElemHideEmulation | FT_Snippet | FT_Url

definition FilterTypeFromString :: "string \<Rightarrow> FilterType" where
  "FilterTypeFromString separator =
     (if StartsWith separator ''##'' then FT_ElemHide
      else if StartsWith separator ''#@#'' then FT_ElemHideException
      else if StartsWith separator ''#?#'' then FT_ElemHideEmulation
      else if StartsWith separator ''#$#'' then FT_Snippet
      else FT_Url)"

lemma FilterTypeFromString_Url_iff:
  "FilterTypeFromString s = FT_Url \<longleftrightarrow>
     \<not> StartsWith s ''##'' \<and> \<not> StartsWith s ''#@#'' \<and> \<not> StartsWith s ''#?#'' \<and> \<not> StartsWith s ''#$#''"
  by (simp add: FilterTypeFromString_def)

section \<open>Content filters\<close>

record ContentFilter =
  cf_type :: FilterType
  cf_selector :: string
  cf_domains :: DomainOption

definition ContentFilter_FromString :: "string \<Rightarrow> FilterType \<Rightarrow> string \<Rightarrow> ContentFilter option" where
  "ContentFilter_FromString domain_list filter_type selector =
     (if selector = [] then None
      else
        (let domains = DomainOption_FromString domain_list (CHR '','');
             domains = (if filter_type = FT_ElemHideEmulation
                        then RemoveDomainsWithNoSubdomain domains else domains)
         in if filter_type = FT_ElemHideEmulation \<and> include_domains domains = [] then None
            else Some \<lparr>cf_type = filter_type, cf_selector = selector, cf_domains = domains\<rparr>))"

lemma ContentFilter_FromString_Some:
  assumes "ContentFilter_FromString dl t sel = Some f"
  shows "cf_type f = t" "cf_selector f = sel" "sel \<noteq> []" "well_formed_domains (cf_domains f)"
    "t = FT_ElemHideEmulation \<Longrightarrow> include_domains (cf_domains f) \<noteq> []"
    "t = FT_ElemHideEmulation \<Longrightarrow>
       list_all (\<lambda>d. d = ''localhost'' \<or> CHR ''.'' \<in> set d) (include_domains (cf_domains f))"
  using assms DomainOption_FromString_well_formed RemoveDomainsWithNoSubdomain_well_formed
  by (auto simp: ContentFilter_FromString_def Let_def list_all_iff
      RemoveDomainsWithNoSubdomain_keeps split: if_splits)

end
