(* ===== verification/Snippets.thy ===== *)
theory Snippets
  imports Domain_Option
begin

text \<open>
  \<open>converter/parser\<close>: the tokenizer of snippet scripts (\<open>snippet_tokenizer.cc\<close>) and snippet filters
  (\<open>snippet_filter.cc\<close>). The tokenizer is a state machine over the characters of the script; its
  fields keep the source's names.
\<close>

section \<open>The tokenizer\<close>

type_synonym snippet_script = "string list list"

record SnippetTokenizer =
  token :: string
  arguments :: "string list"
  escape :: bool
  quotes_just_closed :: bool
  within_quotes :: bool
  script :: snippet_script

definition initial_tokenizer :: SnippetTokenizer where
  "initial_tokenizer =
     \<lparr>token = [], arguments = [], escape = False, quotes_just_closed = False,
      within_quotes = False, script = []\<rparr>"

definition AddEscape :: "char \<Rightarrow> SnippetTokenizer \<Rightarrow> SnippetTokenizer" where
  "AddEscape ch s =
     s\<lparr>escape := False,
       token := token s @
         (if ch = CHR ''r'' then [CHR 0x0D]
          else if ch = CHR ''n'' then [CHR 0x0A]
          else if ch = CHR ''t'' then [CHR 0x09]
          else if ch = CHR ''u'' then [CHR 0x5C, CHR ''u'']
          else [ch])\<rparr>"

definition AddArgument :: "SnippetTokenizer \<Rightarrow> SnippetTokenizer" where
  "AddArgument s =
     (if quotes_just_closed s \<or> token s \<noteq> []
      then s\<lparr>arguments := arguments s @ [token s], token := []\<rparr> else s)"

definition AddFunctionCall :: "SnippetTokenizer \<Rightarrow> SnippetTokenizer" where
  "AddFunctionCall s =
     (if arguments s = [] \<or> within_quotes s \<or> escape s then s
      else s\<lparr>script := script s @ [arguments s], arguments := []\<rparr>)"

definition tokenize_char :: "SnippetTokenizer \<Rightarrow> char \<Rightarrow> SnippetTokenizer" where
  "tokenize_char s ch =
     (if escape s then (AddEscape ch s)\<lparr>quotes_just_closed := False\<rparr>
      else if ch = CHR 0x5C then s\<lparr>escape := True, quotes_just_closed := False\<rparr>
      else if ch = CHR 0x27 then
        s\<lparr>within_quotes := \<not> within_quotes s, quotes_just_closed := within_quotes s\<rparr>
      else if within_quotes s \<or> (ch \<noteq> CHR '';'' \<and> \<not> IsAsciiWhitespace ch) then
        s\<lparr>token := token s @ [ch], quotes_just_closed := False\<rparr>
      else
        (let s = AddArgument s;
             s = (if ch = CHR '';'' then AddFunctionCall s else s)
         in s\<lparr>quotes_just_closed := False\<rparr>))"

definition Tokenize :: "string \<Rightarrow> snippet_script" where
  "Tokenize input = script (AddFunctionCall (AddArgument (foldl tokenize_char initial_tokenizer input)))"

subsection \<open>Every call has a command\<close>

definition calls_have_commands :: "snippet_script \<Rightarrow> bool" where
  "calls_have_commands sc \<longleftrightarrow> list_all (\<lambda>call. call \<noteq> []) sc"

lemma AddFunctionCall_commands:
  "calls_have_commands (script s) \<Longrightarrow> calls_have_commands (script (AddFunctionCall s))"
  by (simp add: AddFunctionCall_def calls_have_commands_def)

lemma AddArgument_script [simp]: "script (AddArgument s) = script s"
  by (simp add: AddArgument_def)

lemma tokenize_char_commands:
  "calls_have_commands (script s) \<Longrightarrow> calls_have_commands (script (tokenize_char s ch))"
  by (simp add: tokenize_char_def AddEscape_def Let_def AddFunctionCall_commands)

lemma foldl_tokenize_commands:
  "calls_have_commands (script s) \<Longrightarrow> calls_have_commands (script (foldl tokenize_char s input))"
  by (induction input arbitrary: s) (simp_all add: tokenize_char_commands)

lemma Tokenize_commands: "calls_have_commands (Tokenize input)"
  unfolding Tokenize_def
  by (intro AddFunctionCall_commands) (simp add: foldl_tokenize_commands initial_tokenizer_def
      calls_have_commands_def [of "[]"])

subsection \<open>Printing a script, and reading it back\<close>

text \<open>An argument in quotes, with the quote and the backslash escaped; calls end with a semicolon.\<close>

definition quote_char :: "char \<Rightarrow> string" where
  "quote_char c = (if c = CHR 0x5C \<or> c = CHR 0x27 then [CHR 0x5C, c] else [c])"

definition print_argument :: "string \<Rightarrow> string" where
  "print_argument a = CHR 0x27 # concat (map quote_char a) @ [CHR 0x27]"

definition print_call :: "string list \<Rightarrow> string" where
  "print_call call = concat (map (\<lambda>a. print_argument a @ '' '') call) @ '';''"

definition print_script :: "snippet_script \<Rightarrow> string" where
  "print_script sc = concat (map print_call sc)"

text \<open>The states between two arguments, and inside one.\<close>

definition between :: "string list \<Rightarrow> snippet_script \<Rightarrow> SnippetTokenizer" where
  "between args sc =
     \<lparr>token = [], arguments = args, escape = False, quotes_just_closed = False,
      within_quotes = False, script = sc\<rparr>"

definition inside :: "string \<Rightarrow> string list \<Rightarrow> snippet_script \<Rightarrow> SnippetTokenizer" where
  "inside t args sc = (between args sc)\<lparr>token := t, within_quotes := True\<rparr>"

lemma CHR_quote_facts [simp]:
  "IsAsciiWhitespace (CHR '' '')" "\<not> IsAsciiWhitespace (CHR '';'')"
  by (simp_all add: IsAsciiWhitespace_def kWhitespaceASCII_def char_of_def bit_0)

lemma tokenize_quote_char:
  "foldl tokenize_char (inside t args sc) (quote_char c) = inside (t @ [c]) args sc"
  by (simp add: quote_char_def tokenize_char_def AddEscape_def inside_def between_def)

lemma tokenize_quoted:
  "foldl tokenize_char (inside t args sc) (concat (map quote_char a)) = inside (t @ a) args sc"
  by (induction a arbitrary: t) (simp_all add: tokenize_quote_char)

lemma tokenize_argument:
  "foldl tokenize_char (between args sc) (print_argument a @ '' '') = between (args @ [a]) sc"
proof -
  have open_quote: "tokenize_char (between args sc) (CHR 0x27) = inside [] args sc"
    by (simp add: tokenize_char_def between_def inside_def)
  have close_quote: "foldl tokenize_char (inside a args sc) [CHR 0x27, CHR '' ''] = between (args @ [a]) sc"
    by (simp add: tokenize_char_def between_def inside_def AddArgument_def Let_def)
  show ?thesis
    using tokenize_quoted [of "[]" args sc a] close_quote
    by (simp add: print_argument_def open_quote)
qed

lemma tokenize_arguments:
  "foldl tokenize_char (between args sc) (concat (map (\<lambda>a. print_argument a @ '' '') call))
     = between (args @ call) sc"
proof (induction call arbitrary: args)
  case (Cons a call)
  have "foldl tokenize_char (between args sc) (concat (map (\<lambda>a. print_argument a @ '' '') (a # call)))
      = foldl tokenize_char (foldl tokenize_char (between args sc) (print_argument a @ '' ''))
          (concat (map (\<lambda>a. print_argument a @ '' '') call))"
    by simp
  also have "\<dots> = between (args @ a # call) sc"
    by (simp only: tokenize_argument Cons.IH) simp
  finally show ?case .
qed simp

lemma tokenize_call:
  assumes "call \<noteq> []"
  shows "foldl tokenize_char (between [] sc) (print_call call) = between [] (sc @ [call])"
  using tokenize_arguments [of "[]" sc call] assms
  by (simp add: print_call_def tokenize_char_def between_def AddArgument_def AddFunctionCall_def)

lemma tokenize_script:
  "list_all (\<lambda>call. call \<noteq> []) sc \<Longrightarrow>
     foldl tokenize_char (between [] done) (print_script sc) = between [] (done @ sc)"
proof (induction sc arbitrary: "done")
  case (Cons call sc)
  then have "call \<noteq> []" by simp
  with Cons show ?case
    by (simp add: print_script_def tokenize_call)
qed (simp add: print_script_def)

lemma Tokenize_print_script:
  assumes "calls_have_commands sc"
  shows "Tokenize (print_script sc) = sc"
proof -
  have init: "initial_tokenizer = between [] []"
    by (simp add: initial_tokenizer_def between_def)
  show ?thesis
    using tokenize_script [of sc "[]"] assms
    by (simp add: Tokenize_def init calls_have_commands_def)
      (simp add: between_def AddArgument_def AddFunctionCall_def)
qed

section \<open>Snippet filters\<close>

record SnippetFilter =
  snippet_script :: snippet_script
  sf_domains :: DomainOption

definition SnippetFilter_FromString :: "string \<Rightarrow> string \<Rightarrow> SnippetFilter option" where
  "SnippetFilter_FromString domain_list snippet =
     (if snippet = [] then None
      else
        (let domains = RemoveDomainsWithNoSubdomain (DomainOption_FromString domain_list (CHR '',''))
         in if include_domains domains = [] then None
            else
              (let sc = Tokenize snippet
               in if sc = [] then None
                  else Some \<lparr>snippet_script = sc, sf_domains = domains\<rparr>)))"

lemma SnippetFilter_FromString_Some:
  assumes "SnippetFilter_FromString dl sn = Some f"
  shows "snippet_script f = Tokenize sn" "snippet_script f \<noteq> []"
    "calls_have_commands (snippet_script f)"
    "include_domains (sf_domains f) \<noteq> []" "well_formed_domains (sf_domains f)"
    "list_all (\<lambda>d. d = ''localhost'' \<or> CHR ''.'' \<in> set d) (include_domains (sf_domains f))"
  using assms Tokenize_commands DomainOption_FromString_well_formed
    RemoveDomainsWithNoSubdomain_well_formed
  by (auto simp: SnippetFilter_FromString_def Let_def list_all_iff
      RemoveDomainsWithNoSubdomain_keeps split: if_splits)

end
