(* ===== verification/Url_Filter_Options.thy ===== *)
theory Url_Filter_Options
  imports Domain_Option
begin

unbundle bit_operations_syntax

text \<open>
  \<open>converter/parser/url_filter_options.cc\<close>: the options after the \<open>$\<close> of a URL filter. The loop over
  the options threads the options read so far and the variable \<open>value\<close>, which the source declares
  outside the loop: an option without \<open>=\<close> keeps the value of the one before it. The fixed regular
  expressions of the source are written out as functions; RE2 reads them over UTF-8, so they are
  faithful for text that is valid UTF-8.
\<close>

section \<open>Types\<close>

datatype ThirdPartyOption = TP_Ignore | TP_ThirdPartyOnly | TP_FirstPartyOnly

datatype ExceptionType = ET_Document | ET_Elemhide | ET_Generichide | ET_Genericblock

type_synonym RewriteOption = AbpResource

record UrlFilterOptions =
  is_match_case :: bool
  is_popup_filter :: bool
  is_subresource :: bool
  third_party :: ThirdPartyOption
  content_types :: content_mask
  rewrite :: "RewriteOption option"
  domains :: DomainOption
  sitekeys :: "string list"
  csp :: "string option"
  headers :: "string option"
  exception_types :: "ExceptionType set"

definition default_UrlFilterOptions :: UrlFilterOptions where
  "default_UrlFilterOptions =
     \<lparr>is_match_case = False, is_popup_filter = False, is_subresource = True, third_party = TP_Ignore,
      content_types = content_type_value CT_Default, rewrite = None, domains = empty_DomainOption,
      sitekeys = [], csp = None, headers = None, exception_types = {}\<rparr>"

section \<open>Values of single options\<close>

definition ParseRewrite :: "string \<Rightarrow> RewriteOption option" where
  "ParseRewrite rewrite_value =
     (if rewrite_value = ''abp-resource:blank-text'' then Some AbpResource_BlankText
      else if rewrite_value = ''abp-resource:blank-css'' then Some AbpResource_BlankCss
      else if rewrite_value = ''abp-resource:blank-js'' then Some AbpResource_BlankJs
      else if rewrite_value = ''abp-resource:blank-html'' then Some AbpResource_BlankHtml
      else if rewrite_value = ''abp-resource:blank-mp3'' then Some AbpResource_BlankMp3
      else if rewrite_value = ''abp-resource:blank-mp4'' then Some AbpResource_BlankMp4
      else if rewrite_value = ''abp-resource:1x1-transparent-gif'' then Some AbpResource_TransparentGif1x1
      else if rewrite_value = ''abp-resource:2x2-transparent-png'' then Some AbpResource_TransparentPng2x2
      else if rewrite_value = ''abp-resource:3x2-transparent-png'' then Some AbpResource_TransparentPng3x2
      else if rewrite_value = ''abp-resource:32x32-transparent-png'' then Some AbpResource_TransparentPng32x32
      else None)"

definition ParseSitekeys :: "string \<Rightarrow> string list" where
  "ParseSitekeys sitekey_value =
     sort (SplitStringNonempty (ToUpperASCII sitekey_value) (CHR ''|'') KEEP_WHITESPACE)"

text \<open>\<open>(;|^) ?(base-uri|...)\b\<close>: a directive at the start of the value or right after a semicolon, one
  blank allowed before it, that is not the prefix of a longer word.\<close>

definition is_word_char :: "char \<Rightarrow> bool" where
  "is_word_char c \<longleftrightarrow> IsAsciiAlphaNumeric c \<or> c = CHR ''_''"

definition invalid_csp_directives :: "string list" where
  "invalid_csp_directives =
     [''base-uri'', ''referrer'', ''report-to'', ''report-uri'', ''upgrade-insecure-requests'']"

definition invalid_csp_here :: "string \<Rightarrow> bool" where
  "invalid_csp_here s =
     (let s = (case s of c # r \<Rightarrow> if c = CHR '' '' then r else s | [] \<Rightarrow> s)
      in list_ex (\<lambda>d. StartsWith s d \<and>
           (case drop (length d) s of [] \<Rightarrow> True | c # _ \<Rightarrow> \<not> is_word_char c)) invalid_csp_directives)"

fun invalid_csp_after_semicolon :: "string \<Rightarrow> bool" where
  "invalid_csp_after_semicolon [] = False"
| "invalid_csp_after_semicolon (c # s) =
     ((c = CHR '';'' \<and> invalid_csp_here s) \<or> invalid_csp_after_semicolon s)"

definition IsValidCsp :: "string \<Rightarrow> bool" where
  "IsValidCsp csp_value \<longleftrightarrow> \<not> (invalid_csp_here csp_value \<or> invalid_csp_after_semicolon csp_value)"

text \<open>The two replacements of \<open>ParseHeaders\<close>: \<open>\x2c\<close> after a character that is no backslash becomes a
  comma (the scan goes on after the match), then every \<open>\x2c\<close> that is left loses its backslash.\<close>

definition escaped_comma :: string where
  "escaped_comma = CHR 0x5C # ''x2c''"

function unescape_commas :: "string \<Rightarrow> string" where
  "unescape_commas [] = []"
| "unescape_commas (c # s) =
     (if c \<noteq> CHR 0x5C \<and> StartsWith s escaped_comma
      then c # CHR '','' # unescape_commas (drop (length escaped_comma) s)
      else c # unescape_commas s)"
  by pat_completeness auto
termination by (relation "measure length") auto

function strip_escapes :: "string \<Rightarrow> string" where
  "strip_escapes [] = []"
| "strip_escapes (c # s) =
     (if StartsWith (c # s) escaped_comma
      then ''x2c'' @ strip_escapes (drop (length escaped_comma) (c # s))
      else c # strip_escapes s)"
  by pat_completeness auto
termination by (relation "measure length") (auto simp: escaped_comma_def)

definition ParseHeaders :: "string \<Rightarrow> string" where
  "ParseHeaders headers_value = strip_escapes (unescape_commas headers_value)"

definition ExceptionTypeFromString :: "string \<Rightarrow> ExceptionType option" where
  "ExceptionTypeFromString exception_type =
     (if exception_type = ''document'' then Some ET_Document
      else if exception_type = ''genericblock'' then Some ET_Genericblock
      else if exception_type = ''elemhide'' then Some ET_Elemhide
      else if exception_type = ''generichide'' then Some ET_Generichide
      else None)"

section \<open>The loop over the options\<close>

text \<open>The variables before the loop.\<close>

definition initial_options :: UrlFilterOptions where
  "initial_options =
     \<lparr>is_match_case = False, is_popup_filter = False, is_subresource = False,
      third_party = TP_Ignore, content_types = 0, rewrite = None, domains = empty_DomainOption,
      sitekeys = [], csp = None, headers = None, exception_types = {}\<rparr>"

definition split_option :: "string \<Rightarrow> string \<Rightarrow> string \<times> string" where
  "split_option option value =
     (case find_char (CHR ''='') option of
        Some delimiter_pos \<Rightarrow> (take delimiter_pos option, drop (Suc delimiter_pos) option)
      | None \<Rightarrow> (option, value))"

definition add_content_type :: "bool \<Rightarrow> ContentType \<Rightarrow> UrlFilterOptions \<Rightarrow> UrlFilterOptions" where
  "add_content_type is_inverse_option content_type o' =
     o'\<lparr>is_subresource := True,
        content_types :=
          (if is_inverse_option
           then (if content_types o' = 0 then content_type_value CT_Default else content_types o')
                AND NOT (content_type_value content_type)
           else content_types o' OR content_type_value content_type)\<rparr>"

definition parse_keyed_option ::
  "bool \<Rightarrow> string \<Rightarrow> string \<Rightarrow> UrlFilterOptions \<Rightarrow> (UrlFilterOptions \<times> string) option" where
  "parse_keyed_option is_inverse_option key value o' =
     (if key = ''match-case'' then Some (o'\<lparr>is_match_case := \<not> is_inverse_option\<rparr>, value)
      else if key = ''popup'' then Some (o'\<lparr>is_popup_filter := True\<rparr>, value)
      else if key = ''third-party'' then
        Some (o'\<lparr>third_party := (if \<not> is_inverse_option then TP_ThirdPartyOnly
                                else TP_FirstPartyOnly)\<rparr>, value)
      else if key = ''rewrite'' then
        (case ParseRewrite value of
           None \<Rightarrow> None
         | Some r \<Rightarrow> Some (o'\<lparr>rewrite := Some r\<rparr>, value))
      else if key = ''domain'' then
        (if value = [] then None
         else Some (o'\<lparr>domains := DomainOption_FromString value (CHR ''|'')\<rparr>, value))
      else if key = ''sitekey'' then
        (if value = [] then None
         else Some (o'\<lparr>sitekeys := ParseSitekeys value\<rparr>, value))
      else if key = ''csp'' then
        (if \<not> IsValidCsp value then None else Some (o'\<lparr>csp := Some value\<rparr>, value))
      else if key = ''header'' then
        (let value = ParseHeaders value in Some (o'\<lparr>headers := Some value\<rparr>, value))
      else
        (let content_type = ContentTypeFromString key
         in if content_type \<noteq> CT_Unknown
            then Some (add_content_type is_inverse_option content_type o', value)
            else
              (case ExceptionTypeFromString key of
                 Some e \<Rightarrow> Some (o'\<lparr>exception_types := insert e (exception_types o')\<rparr>, value)
               | None \<Rightarrow> None)))"

definition parse_option ::
  "string \<Rightarrow> UrlFilterOptions \<times> string \<Rightarrow> (UrlFilterOptions \<times> string) option" where
  "parse_option option = (\<lambda>(o', value).
     if option = [] then Some (o', value)
     else
       (let is_inverse_option = hd option = CHR ''~'';
            option = (if is_inverse_option then drop 1 option else option);
            (key, value) = split_option option value;
            key = RemoveChars (ToLowerASCII key) kWhitespaceASCII
        in parse_keyed_option is_inverse_option key value o'))"

fun parse_options :: "string list \<Rightarrow> UrlFilterOptions \<times> string \<Rightarrow> (UrlFilterOptions \<times> string) option"
where
  "parse_options [] st = Some st"
| "parse_options (option # rest) st =
     (case parse_option option st of None \<Rightarrow> None | Some st' \<Rightarrow> parse_options rest st')"

definition finish_options :: "UrlFilterOptions \<Rightarrow> UrlFilterOptions" where
  "finish_options o' =
     (let o' = (if exception_types o' = {} \<and> \<not> is_popup_filter o' \<and> csp o' = None \<and>
                  rewrite o' = None \<and> headers o' = None
                then o'\<lparr>is_subresource := True\<rparr> else o')
      in if content_types o' = 0 then o'\<lparr>content_types := content_type_value CT_Default\<rparr> else o')"

definition UrlFilterOptions_FromString :: "string \<Rightarrow> UrlFilterOptions option" where
  "UrlFilterOptions_FromString option_list =
     (case parse_options (SplitStringNonempty option_list (CHR '','') KEEP_WHITESPACE)
             (initial_options, []) of
        None \<Rightarrow> None
      | Some (o', _) \<Rightarrow> Some (finish_options o'))"

declare parse_option_def [parser_defs] parse_keyed_option_def [parser_defs]
  split_option_def [parser_defs] add_content_type_def [parser_defs]

section \<open>What parsing keeps\<close>

lemma parse_keyed_option_cases:
  assumes "parse_keyed_option neg key value o' = Some r"
    "\<And>b. P (o'\<lparr>is_match_case := b\<rparr>)" "P (o'\<lparr>is_popup_filter := True\<rparr>)"
    "\<And>t. P (o'\<lparr>third_party := t\<rparr>)" "\<And>w. P (o'\<lparr>rewrite := Some w\<rparr>)"
    "\<And>v. P (o'\<lparr>domains := DomainOption_FromString v (CHR ''|'')\<rparr>)"
    "\<And>v. P (o'\<lparr>sitekeys := ParseSitekeys v\<rparr>)"
    "\<And>c. IsValidCsp c \<Longrightarrow> P (o'\<lparr>csp := Some c\<rparr>)" "\<And>h. P (o'\<lparr>headers := Some h\<rparr>)"
    "\<And>t. t \<noteq> CT_Unknown \<Longrightarrow> P (add_content_type neg t o')"
    "\<And>e. P (o'\<lparr>exception_types := insert e (exception_types o')\<rparr>)"
  shows "P (fst r)"
proof -
  consider "key = ''match-case''" | "key = ''popup''" | "key = ''third-party''" | "key = ''rewrite''"
    | "key = ''domain''" | "key = ''sitekey''" | "key = ''csp''" | "key = ''header''"
    | (other) "key \<noteq> ''match-case''" "key \<noteq> ''popup''" "key \<noteq> ''third-party''" "key \<noteq> ''rewrite''"
      "key \<noteq> ''domain''" "key \<noteq> ''sitekey''" "key \<noteq> ''csp''" "key \<noteq> ''header''"
    by blast
  then show ?thesis
  proof cases
    case other
    show ?thesis
    proof (cases "ContentTypeFromString key = CT_Unknown")
      case True
      then obtain e where "ExceptionTypeFromString key = Some e" "fst r = o'\<lparr>exception_types := insert e (exception_types o')\<rparr>"
        using assms(1) other unfolding parse_keyed_option_def by (auto split: option.splits)
      then show ?thesis using assms(11) by simp
    next
      case False
      then have "fst r = add_content_type neg (ContentTypeFromString key) o'"
        using assms(1) other unfolding parse_keyed_option_def by auto
      then show ?thesis using assms(10) False by simp
    qed
  qed (use assms in \<open>auto simp: parse_keyed_option_def Let_def split: if_splits option.splits\<close>)
qed

lemma parse_options_induct:
  assumes "\<And>neg key value o' r. P o' \<Longrightarrow> parse_keyed_option neg key value o' = Some r \<Longrightarrow> P (fst r)"
  shows "P (fst st) \<Longrightarrow> parse_options opts st = Some r \<Longrightarrow> P (fst r)"
proof (induction opts arbitrary: st)
  case (Cons op opts)
  then obtain st' where st': "parse_option op st = Some st'" "parse_options opts st' = Some r"
    by (auto split: option.splits)
  have "P (fst st')"
    using st'(1) Cons.prems(1) assms
    by (cases st) (auto simp: parse_option_def Let_def split_beta split: if_splits)
  with Cons.IH st'(2) show ?case by blast
qed simp

lemma finish_options_content_types: "content_types (finish_options o') \<noteq> 0"
  by (simp add: finish_options_def Let_def)

text \<open>The mask never names a bit outside \<open>Default\<close>, the domains are well formed, the site keys are
  sorted and no blocked CSP directive gets in.\<close>

definition options_ok :: "UrlFilterOptions \<Rightarrow> bool" where
  "options_ok o' \<longleftrightarrow>
     content_types o' AND content_type_value CT_Default = content_types o' \<and>
     well_formed_domains (domains o') \<and>
     sorted (sitekeys o') \<and> list_all (\<lambda>k. k \<noteq> []) (sitekeys o') \<and>
     (case csp o' of None \<Rightarrow> True | Some c \<Rightarrow> IsValidCsp c)"

lemma resource_type_default:
  "t \<noteq> CT_Unknown \<Longrightarrow> content_type_value t AND content_type_value CT_Default = content_type_value t"
  by (cases t) simp_all

lemma mask_or: "a AND m = a \<Longrightarrow> b AND m = b \<Longrightarrow> (a OR b) AND m = a OR b" for a b m :: content_mask
  by (simp add: bit.conj_disj_distrib2)

lemma mask_and: "a AND m = a \<Longrightarrow> (a AND c) AND m = a AND c" for a m c :: content_mask
  by (metis and.commute and.left_commute)

lemma add_content_type_mask:
  assumes "content_types o' AND content_type_value CT_Default = content_types o'" "t \<noteq> CT_Unknown"
  shows "content_types (add_content_type neg t o') AND content_type_value CT_Default =
    content_types (add_content_type neg t o')"
  using assms mask_or [OF assms(1) resource_type_default [OF assms(2)]] mask_and [OF assms(1)]
    mask_and [of "content_type_value CT_Default" "content_type_value CT_Default"]
  unfolding add_content_type_def by (simp del: content_type_value.simps)

lemma parse_keyed_option_ok:
  assumes "options_ok o'" "parse_keyed_option neg key value o' = Some r"
  shows "options_ok (fst r)"
  using assms(2)
proof (rule parse_keyed_option_cases)
  fix t
  assume "t \<noteq> CT_Unknown"
  then have "content_types (add_content_type neg t o') AND content_type_value CT_Default =
      content_types (add_content_type neg t o')"
    using assms(1) by (intro add_content_type_mask) (simp_all add: options_ok_def)
  then show "options_ok (add_content_type neg t o')"
    using assms(1) unfolding options_ok_def by (simp add: add_content_type_def)
qed (use assms(1) in \<open>auto simp: options_ok_def DomainOption_FromString_well_formed ParseSitekeys_def
      list_all_iff dest: SplitStringNonempty_nonempty\<close>)

lemma finish_options_ok: "options_ok o' \<Longrightarrow> options_ok (finish_options o')"
  by (simp add: options_ok_def finish_options_def Let_def)

lemma UrlFilterOptions_FromString_ok:
  assumes "UrlFilterOptions_FromString s = Some o'"
  shows "options_ok o'" "content_types o' \<noteq> 0"
proof -
  from assms obtain r where r: "parse_options (SplitStringNonempty s (CHR '','') KEEP_WHITESPACE)
      (initial_options, []) = Some r" "o' = finish_options (fst r)"
    by (auto simp: UrlFilterOptions_FromString_def split: option.splits prod.splits)
  have "options_ok (fst (initial_options, []))"
    by (simp add: options_ok_def initial_options_def)
  then have "options_ok (fst r)"
    using parse_options_induct [of options_ok] parse_keyed_option_ok r(1) by blast
  then show "options_ok o'" "content_types o' \<noteq> 0"
    using r(2) finish_options_ok finish_options_content_types by auto
qed

end
