(* ===== verification/Url_Filter.thy ===== *)
theory Url_Filter
  imports Url_Filter_Options
begin

text \<open>
  \<open>converter/parser/url_filter.cc\<close>: one line of a filter list as a URL filter. The checks keep the
  order of the source; every early return is a \<open>None\<close>.
\<close>

section \<open>Parsing a line\<close>

record UrlFilter =
  uf_is_allowing :: bool
  uf_pattern :: string
  uf_options :: UrlFilterOptions

definition kOptionSymbol :: char where
  "kOptionSymbol = CHR ''$''"

text \<open>The options behind the last \<open>$\<close>, unless the whole text is a regular expression, and the checks that
  compare them with the kind of the filter. The result is the pattern that is left.\<close>

definition options_suit_filter :: "bool \<Rightarrow> UrlFilterOptions \<Rightarrow> bool" where
  "options_suit_filter is_allowing o' =
     (if csp o' = Some [] \<and> \<not> is_allowing then False
      else if headers o' = Some [] \<and> \<not> is_allowing then False
      else if \<not> is_subresource o' \<and> exception_types o' \<noteq> {} \<and> \<not> is_allowing then False
      else True)"

definition split_filter_options :: "bool \<Rightarrow> string \<Rightarrow> (string \<times> UrlFilterOptions option) option" where
  "split_filter_options is_allowing filter_str =
     (case rfind_char kOptionSymbol filter_str of
        None \<Rightarrow> Some (filter_str, None)
      | Some option_selector_it \<Rightarrow>
          (if ExtractRegexFilterFromPattern filter_str \<noteq> None then Some (filter_str, None)
           else
             (case UrlFilterOptions_FromString (drop (Suc option_selector_it) filter_str) of
                None \<Rightarrow> None
              | Some o' \<Rightarrow>
                  (if options_suit_filter is_allowing o'
                   then Some (take option_selector_it filter_str, Some o') else None))))"

definition lowercase_pattern :: "string \<Rightarrow> UrlFilterOptions option \<Rightarrow> string" where
  "lowercase_pattern filter_str options =
     (if (case options of None \<Rightarrow> True | Some o' \<Rightarrow> \<not> is_match_case o') \<and>
         ExtractRegexFilterFromPattern filter_str = None
      then ToLowerASCII filter_str else filter_str)"

definition rewrite_allowed :: "string \<Rightarrow> UrlFilterOptions \<Rightarrow> bool" where
  "rewrite_allowed filter_str o' =
     (if include_domains (domains o') = [] then False
      else if third_party o' = TP_ThirdPartyOnly then False
      else if \<not> StartsWith filter_str ''||'' \<and> filter_str \<noteq> ''*'' \<and> filter_str \<noteq> [] then False
      else True)"

definition UrlFilter_FromString :: "string \<Rightarrow> UrlFilter option" where
  "UrlFilter_FromString filter_str =
     (let is_allowing = StartsWith filter_str ''@@'';
          filter_str = (if is_allowing then drop 2 filter_str else filter_str)
      in case split_filter_options is_allowing filter_str of
           None \<Rightarrow> None
         | Some (filter_str, options) \<Rightarrow>
             (if filter_str = [] \<and> options = None then None
              else
                (let filter_str = lowercase_pattern filter_str options
                 in if (case options of None \<Rightarrow> False
                        | Some o' \<Rightarrow> rewrite o' \<noteq> None \<and> \<not> rewrite_allowed filter_str o')
                    then None
                    else Some \<lparr>uf_is_allowing = is_allowing, uf_pattern = filter_str,
                               uf_options = (case options of None \<Rightarrow> default_UrlFilterOptions
                                             | Some o' \<Rightarrow> o')\<rparr>)))"

text \<open>\<open>IsValidRegex\<close> asks the two engines, RE2 first and then ICU, whether they compile the text.\<close>

definition UrlFilter_IsValidRegex :: "(string \<Rightarrow> bool) \<Rightarrow> (string \<Rightarrow> bool) \<Rightarrow> string \<Rightarrow> bool" where
  "UrlFilter_IsValidRegex re2_ok icu_ok pattern = (if re2_ok pattern then True else icu_ok pattern)"

section \<open>What a parsed filter satisfies\<close>

definition rewrite_ok :: "UrlFilter \<Rightarrow> bool" where
  "rewrite_ok f \<longleftrightarrow> rewrite (uf_options f) = None \<or>
     include_domains (domains (uf_options f)) \<noteq> [] \<and>
     third_party (uf_options f) \<noteq> TP_ThirdPartyOnly \<and>
     (StartsWith (uf_pattern f) ''||'' \<or> uf_pattern f = ''*'' \<or> uf_pattern f = [])"

definition blocking_ok :: "UrlFilter \<Rightarrow> bool" where
  "blocking_ok f \<longleftrightarrow> uf_is_allowing f \<or>
     csp (uf_options f) \<noteq> Some [] \<and> headers (uf_options f) \<noteq> Some [] \<and>
     (exception_types (uf_options f) = {} \<or> is_subresource (uf_options f))"

definition case_ok :: "UrlFilter \<Rightarrow> bool" where
  "case_ok f \<longleftrightarrow> is_match_case (uf_options f) \<or>
     ExtractRegexFilterFromPattern (uf_pattern f) \<noteq> None \<or>
     list_all (\<lambda>c. \<not> IsAsciiUpper c) (uf_pattern f)"

definition url_filter_ok :: "UrlFilter \<Rightarrow> bool" where
  "url_filter_ok f \<longleftrightarrow> rewrite_ok f \<and> blocking_ok f \<and> case_ok f \<and>
     options_ok (uf_options f) \<and> content_types (uf_options f) \<noteq> 0"

lemma split_filter_options_Some:
  assumes "split_filter_options al s = Some (s', Some o')"
  shows "UrlFilterOptions_FromString (drop (Suc (length s')) s) = Some o'"
    "s = s' @ kOptionSymbol # drop (Suc (length s')) s" "options_suit_filter al o'"
proof -
  obtain i where i: "rfind_char kOptionSymbol s = Some i"
    "UrlFilterOptions_FromString (drop (Suc i) s) = Some o'" "s' = take i s" "options_suit_filter al o'"
    using assms by (auto simp: split_filter_options_def split: option.splits if_splits)
  note r = rfind_char_Some [OF i(1)]
  with i r show "UrlFilterOptions_FromString (drop (Suc (length s')) s) = Some o'"
    "s = s' @ kOptionSymbol # drop (Suc (length s')) s" "options_suit_filter al o'"
    by (simp_all add: id_take_nth_drop [symmetric])
      (metis id_take_nth_drop)
qed

lemma default_UrlFilterOptions_ok:
  "options_ok default_UrlFilterOptions" "content_types default_UrlFilterOptions \<noteq> 0"
  by (simp_all add: options_ok_def default_UrlFilterOptions_def)

lemma lowercase_pattern_ok:
  "is_match_case o' \<or> ExtractRegexFilterFromPattern (lowercase_pattern s (Some o')) \<noteq> None \<or>
     list_all (\<lambda>c. \<not> IsAsciiUpper c) (lowercase_pattern s (Some o'))"
  "ExtractRegexFilterFromPattern (lowercase_pattern s None) \<noteq> None \<or>
     list_all (\<lambda>c. \<not> IsAsciiUpper c) (lowercase_pattern s None)"
  by (auto simp: lowercase_pattern_def list_all_iff dest: ToLowerASCII_no_upper)

lemma UrlFilter_FromString_SomeE:
  assumes "UrlFilter_FromString line = Some f"
  obtains s s' options where
    "uf_is_allowing f = StartsWith line ''@@''"
    "s = (if uf_is_allowing f then drop 2 line else line)"
    "split_filter_options (uf_is_allowing f) s = Some (s', options)"
    "s' \<noteq> [] \<or> options \<noteq> None"
    "uf_pattern f = lowercase_pattern s' options"
    "\<And>o'. options = Some o' \<Longrightarrow> rewrite o' \<noteq> None \<Longrightarrow> rewrite_allowed (uf_pattern f) o'"
    "uf_options f = (case options of None \<Rightarrow> default_UrlFilterOptions | Some o' \<Rightarrow> o')"
  using assms unfolding UrlFilter_FromString_def Let_def
  by (auto split: option.splits if_splits prod.splits)

lemma UrlFilter_FromString_ok:
  assumes "UrlFilter_FromString line = Some f"
  shows "url_filter_ok f"
  using assms
proof (rule UrlFilter_FromString_SomeE)
  fix s s' options
  assume h: "split_filter_options (uf_is_allowing f) s = Some (s', options)"
    "uf_pattern f = lowercase_pattern s' options"
    "\<And>o'. options = Some o' \<Longrightarrow> rewrite o' \<noteq> None \<Longrightarrow> rewrite_allowed (uf_pattern f) o'"
    "uf_options f = (case options of None \<Rightarrow> default_UrlFilterOptions | Some o' \<Rightarrow> o')"
  show "url_filter_ok f"
  proof (cases options)
    case None
    with h(2,4) lowercase_pattern_ok(2) [of s'] default_UrlFilterOptions_ok show ?thesis
      unfolding url_filter_ok_def rewrite_ok_def blocking_ok_def case_ok_def
      by (auto simp: default_UrlFilterOptions_def)
  next
    case (Some o')
    note sp = split_filter_options_Some [OF h(1) [unfolded Some]]
    have "rewrite_ok f"
      using h(3) h(4) Some by (auto simp: rewrite_ok_def rewrite_allowed_def split: if_splits)
    moreover have "blocking_ok f"
      using sp(3) h(4) Some by (auto simp: blocking_ok_def options_suit_filter_def split: if_splits)
    moreover have "case_ok f"
      using lowercase_pattern_ok(1) h(2,4) Some by (auto simp: case_ok_def)
    ultimately show ?thesis
      using UrlFilterOptions_FromString_ok [OF sp(1)] h(4) Some by (simp add: url_filter_ok_def)
  qed
qed

text \<open>A filter never has an empty pattern and no options.\<close>

lemma UrlFilter_FromString_Nil: "UrlFilter_FromString [] = None"
  by (simp add: UrlFilter_FromString_def split_filter_options_def rfind_char_def)

lemma UrlFilter_FromString_plain:
  assumes "s \<noteq> []" "kOptionSymbol \<notin> set s" "\<not> StartsWith s ''@@''"
    "ExtractRegexFilterFromPattern s = None"
  shows "UrlFilter_FromString s =
    Some \<lparr>uf_is_allowing = False, uf_pattern = ToLowerASCII s, uf_options = default_UrlFilterOptions\<rparr>"
proof -
  have "rfind_char kOptionSymbol s = None" using assms(2) by (simp add: rfind_char_None)
  then have "split_filter_options False s = Some (s, None)" by (simp add: split_filter_options_def)
  with assms show ?thesis by (simp add: UrlFilter_FromString_def lowercase_pattern_def)
qed

end
