(* ===== verification/List_Metadata.thy ===== *)
theory List_Metadata
  imports Common
begin

text \<open>
  \<open>converter/parser/metadata.cc\<close>: the header of a filter list. A \<open>std::istream\<close> is the text that is
  still to be read; \<open>getline\<close> takes a line off it and fails when nothing is left, and rewinding is
  returning an earlier rest. The fixed regular expressions are written out (\<open>\s\<close> of RE2 is tab, line
  feed, form feed, return and blank). Durations are in microseconds, as in \<open>base::TimeDelta\<close>.
  Parsing a URL is the parameter \<open>parse_url\<close>.
\<close>

section \<open>Streams\<close>

fun getline :: "string \<Rightarrow> (string \<times> string) option" where
  "getline [] = None"
| "getline (c # s) =
     Some (case find_char (CHR 0x0A) (c # s) of
             None \<Rightarrow> (c # s, [])
           | Some i \<Rightarrow> (take i (c # s), drop (Suc i) (c # s)))"

lemma getline_shorter: "getline s = Some (line, rest) \<Longrightarrow> length rest < length s"
  by (cases s) (auto split: option.splits if_splits)

text \<open>The lines of a text: what a loop of \<open>getline\<close> sees.\<close>

function stream_lines :: "string \<Rightarrow> string list" where
  "stream_lines s =
     (case getline s of None \<Rightarrow> [] | Some (line, rest) \<Rightarrow> line # stream_lines rest)"
  by pat_completeness auto
termination by (relation "measure length") (auto dest: getline_shorter)

declare stream_lines.simps [simp del]

lemma stream_lines_Nil [simp]: "stream_lines [] = []"
  by (simp add: stream_lines.simps)

lemma stream_lines_line:
  assumes "CHR 0x0A \<notin> set line"
  shows "stream_lines (line @ CHR 0x0A # rest) = line # stream_lines rest"
proof -
  have "getline (line @ CHR 0x0A # rest) = Some (line, rest)"
    using find_char_append [OF assms, of rest] by (cases line) auto
  then show ?thesis by (subst stream_lines.simps) simp
qed

lemma stream_lines_unlines:
  "list_all (\<lambda>l. CHR 0x0A \<notin> set l) ls \<Longrightarrow>
     stream_lines (concat (map (\<lambda>l. l @ [CHR 0x0A]) ls)) = ls"
  by (induction ls) (simp_all add: stream_lines_line)

section \<open>The two regular expressions of the header\<close>

definition re2_space :: "char \<Rightarrow> bool" where
  "re2_space c \<longleftrightarrow> c \<in> {CHR 0x09, CHR 0x0A, CHR 0x0C, CHR 0x0D, CHR '' ''}"

text \<open>\<open>^\[Adblock.*\]\<close> as a full match.\<close>

definition IsValidAdblockHeader :: "string \<Rightarrow> bool" where
  "IsValidAdblockHeader adblock_header =
     (let trimmed = TrimWhitespaceASCII adblock_header
      in StartsWith trimmed ''[Adblock'' \<and> EndsWith (drop 8 trimmed) '']'')"

text \<open>\<open>^!\s*(.*?)\s*:\s*(.*)\<close> as a full match: the key runs to the first colon, blanks around key and
  before the value are dropped.\<close>

definition match_comment :: "string \<Rightarrow> (string \<times> string) option" where
  "match_comment line =
     (if \<not> StartsWith line ''!'' then None
      else
        (case find_char (CHR '':'') (drop 1 line) of
           None \<Rightarrow> None
         | Some i \<Rightarrow>
             Some (rev (dropWhile re2_space (rev (dropWhile re2_space (take i (drop 1 line))))),
                   dropWhile re2_space (drop (Suc i) (drop 1 line)))))"

section \<open>Expiration\<close>

definition kMicrosecondsPerHour :: int where
  "kMicrosecondsPerHour = 3600000000"

definition kMicrosecondsPerDay :: int where
  "kMicrosecondsPerDay = 24 * kMicrosecondsPerHour"

definition kDefaultExpirationInterval :: int where
  "kDefaultExpirationInterval = 5 * kMicrosecondsPerDay"

definition kMaxExpirationInterval :: int where
  "kMaxExpirationInterval = 14 * kMicrosecondsPerDay"

definition kMinExpirationInterval :: int where
  "kMinExpirationInterval = kMicrosecondsPerHour"

text \<open>\<open>base::Hours\<close> and \<open>base::Days\<close> saturate at the largest 64-bit count of microseconds.\<close>

definition saturated_delta :: "int \<Rightarrow> int" where
  "saturated_delta n = min n (2 ^ 63 - 1)"

definition clamp :: "int \<Rightarrow> int \<Rightarrow> int \<Rightarrow> int" where
  "clamp v lo hi = (if v < lo then lo else if hi < v then hi else v)"

definition digits_value :: "string \<Rightarrow> int" where
  "digits_value ds = foldl (\<lambda>n c. 10 * n + (int (of_char c) - 48)) 0 ds"

text \<open>\<open>\s*([0-9]+)\s*(h)?.*\<close>; RE2 fails the match when the number does not fit 64 bits.\<close>

definition ParseExpirationTime :: "string \<Rightarrow> int" where
  "ParseExpirationTime expiration_value =
     (let s = dropWhile re2_space expiration_value;
          ds = takeWhile IsAsciiDigit s;
          rest = dropWhile re2_space (dropWhile IsAsciiDigit s);
          expiration_time = digits_value ds
      in if ds = [] \<or> 2 ^ 64 \<le> expiration_time \<or> CHR 0x0A \<in> set rest then kDefaultExpirationInterval
         else
           clamp (if StartsWith rest ''h''
                  then saturated_delta (expiration_time * kMicrosecondsPerHour)
                  else saturated_delta (expiration_time * kMicrosecondsPerDay))
             kMinExpirationInterval kMaxExpirationInterval)"

definition valid_expiration :: "int \<Rightarrow> bool" where
  "valid_expiration t \<longleftrightarrow> kMinExpirationInterval \<le> t \<and> t \<le> kMaxExpirationInterval"

lemma clamp_valid: "valid_expiration (clamp v kMinExpirationInterval kMaxExpirationInterval)"
  by (simp add: valid_expiration_def clamp_def kMinExpirationInterval_def kMaxExpirationInterval_def
      kMicrosecondsPerDay_def kMicrosecondsPerHour_def)

lemma default_expiration_valid: "valid_expiration kDefaultExpirationInterval"
  by (simp add: valid_expiration_def kDefaultExpirationInterval_def kMinExpirationInterval_def
      kMaxExpirationInterval_def kMicrosecondsPerDay_def kMicrosecondsPerHour_def)

lemma ParseExpirationTime_valid: "valid_expiration (ParseExpirationTime v)"
  by (simp add: ParseExpirationTime_def Let_def clamp_valid default_expiration_valid)

text \<open>A number of days in the range is taken as it is.\<close>

lemma digits_value_snoc: "digits_value (ds @ [c]) = 10 * digits_value ds + (int (of_char c) - 48)"
  by (simp add: digits_value_def)

lemma re2_space_code: "re2_space c \<Longrightarrow> (of_char c :: nat) \<le> 32"
  by (auto simp: re2_space_def)

lemma digit_char:
  assumes "n < 10"
  shows "IsAsciiDigit (char_of (48 + n :: nat))" "int (of_char (char_of (48 + n :: nat))) - 48 = int n"
    "\<not> re2_space (char_of (48 + n :: nat))"
  using assms re2_space_code [of "char_of (48 + n :: nat)"] by (auto simp: IsAsciiDigit_def)

lemma digits_value_decimal: "digits_value (decimal n) = int n"
proof (induction n rule: decimal.induct)
  case (1 n)
  have d: "digits_value [char_of (48 + m)] = int m" if "m < 10" for m :: nat
    using digit_char(2) [OF that] by (simp add: digits_value_def)
  show ?case
  proof (cases "n < 10")
    case False
    then have "digits_value (decimal n) =
        10 * digits_value (decimal (n div 10)) + (int (of_char (char_of (48 + n mod 10))) - 48)"
      by (simp add: decimal.simps [of n] digits_value_snoc del: of_char_of)
    moreover have "10 * int (n div 10) + int (n mod 10) = int n" by presburger
    ultimately show ?thesis using 1 False digit_char(2) [of "n mod 10"] by simp
  qed (simp add: decimal.simps [of n] d)
qed

lemma decimal_digits: "decimal n \<noteq> [] \<and> list_all IsAsciiDigit (decimal n) \<and> \<not> re2_space (hd (decimal n))"
proof (induction n rule: decimal.induct)
  case (1 n)
  then show ?case
    using digit_char [of n] digit_char [of "n mod 10"]
    by (cases "n < 10") (simp_all add: decimal.simps [of n] hd_append)
qed

lemma takeWhile_decimal:
  assumes "\<And>c r. rest = c # r \<Longrightarrow> \<not> IsAsciiDigit c"
  shows "takeWhile IsAsciiDigit (decimal n @ rest) = decimal n"
    "dropWhile IsAsciiDigit (decimal n @ rest) = rest"
    "dropWhile re2_space (decimal n @ rest) = decimal n @ rest"
proof -
  have d: "x \<in> set (decimal n) \<Longrightarrow> IsAsciiDigit x" for x
    using decimal_digits [of n] by (simp add: list_all_iff)
  have r: "takeWhile IsAsciiDigit rest = []" "dropWhile IsAsciiDigit rest = rest"
    using assms by (cases rest; simp)+
  from d r show "takeWhile IsAsciiDigit (decimal n @ rest) = decimal n"
    "dropWhile IsAsciiDigit (decimal n @ rest) = rest"
    by (simp_all add: takeWhile_append2 dropWhile_append2)
  show "dropWhile re2_space (decimal n @ rest) = decimal n @ rest"
    using decimal_digits [of n] by (cases "decimal n") auto
qed

lemma ParseExpirationTime_decimal:
  assumes "\<And>c r. rest = c # r \<Longrightarrow> \<not> IsAsciiDigit c" "CHR 0x0A \<notin> set rest" "n < 2 ^ 64"
  shows "ParseExpirationTime (decimal n @ rest) =
    clamp (saturated_delta (int n * (if StartsWith (dropWhile re2_space rest) ''h''
                                 then kMicrosecondsPerHour else kMicrosecondsPerDay)))
      kMinExpirationInterval kMaxExpirationInterval"
proof -
  have tw: "dropWhile re2_space (decimal n @ rest) = decimal n @ rest"
    "takeWhile IsAsciiDigit (decimal n @ rest) = decimal n"
    "dropWhile IsAsciiDigit (decimal n @ rest) = rest"
    using takeWhile_decimal [where n = n, OF assms(1)] by simp_all
  have "CHR 0x0A \<notin> set (dropWhile re2_space rest)"
    using assms(2) by (auto dest: set_dropWhileD)
  then show ?thesis
    using assms(3) decimal_digits [of n]
    by (simp add: ParseExpirationTime_def tw digits_value_decimal)
qed

lemma clamp_days:
  assumes "1 \<le> n" "n \<le> 14"
  shows "clamp (saturated_delta (int n * kMicrosecondsPerDay)) kMinExpirationInterval
    kMaxExpirationInterval = int n * kMicrosecondsPerDay"
  using assms by (simp add: saturated_delta_def kMicrosecondsPerDay_def kMicrosecondsPerHour_def
      clamp_def kMinExpirationInterval_def kMaxExpirationInterval_def)

lemma ParseExpirationTime_days:
  assumes "1 \<le> n" "n \<le> 14"
  shows "ParseExpirationTime (decimal n @ '' days'') = int n * kMicrosecondsPerDay"
proof -
  have "ParseExpirationTime (decimal n @ '' days'') =
      clamp (saturated_delta (int n * kMicrosecondsPerDay)) kMinExpirationInterval kMaxExpirationInterval"
    using assms by (subst ParseExpirationTime_decimal) (auto simp: re2_space_def)
  with clamp_days [OF assms] show ?thesis by simp
qed

section \<open>The header\<close>

record Metadata =
  homepage :: string
  title :: string
  version :: string
  redirect_url :: "gurl option"
  expires :: int

definition Metadata_Default :: Metadata where
  "Metadata_Default =
     \<lparr>homepage = [], title = [], version = [], redirect_url = None,
      expires = kDefaultExpirationInterval\<rparr>"

definition set_metadata_key ::
  "(string \<Rightarrow> gurl) \<Rightarrow> string \<Rightarrow> string \<Rightarrow> Metadata \<Rightarrow> Metadata" where
  "set_metadata_key parse_url key value m =
     (if key = ''homepage'' then m\<lparr>homepage := value\<rparr>
      else if key = ''redirect'' then
        (let url = parse_url value in if is_valid url then m\<lparr>redirect_url := Some url\<rparr> else m)
      else if key = ''title'' then m\<lparr>title := value\<rparr>
      else if key = ''version'' then m\<lparr>version := value\<rparr>
      else if key = ''expires'' then m\<lparr>expires := ParseExpirationTime value\<rparr>
      else m)"

text \<open>The loop, with the text at the position the stream is rewound to when it ends.\<close>

function read_metadata :: "(string \<Rightarrow> gurl) \<Rightarrow> string \<Rightarrow> Metadata \<Rightarrow> Metadata \<times> string" where
  "read_metadata parse_url stream m =
     (case getline stream of
        None \<Rightarrow> (m, stream)
      | Some (line, rest) \<Rightarrow>
          (case match_comment (TrimWhitespaceASCII line) of
             None \<Rightarrow> (m, stream)
           | Some (key, value) \<Rightarrow>
               read_metadata parse_url rest (set_metadata_key parse_url (ToLowerASCII key) value m)))"
  by pat_completeness auto
termination by (relation "measure (\<lambda>(p, s, m). length s)") (auto dest: getline_shorter)

declare read_metadata.simps [simp del]

definition Metadata_FromStream :: "(string \<Rightarrow> gurl) \<Rightarrow> string \<Rightarrow> (Metadata \<times> string) option" where
  "Metadata_FromStream parse_url stream =
     (let (line, rest) = (case getline stream of None \<Rightarrow> ([], []) | Some r \<Rightarrow> r)
      in if \<not> IsValidAdblockHeader line then None
         else Some (read_metadata parse_url rest Metadata_Default))"

lemma set_metadata_key_expires:
  "valid_expiration (expires m) \<Longrightarrow> valid_expiration (expires (set_metadata_key p k v m))"
  by (simp add: set_metadata_key_def ParseExpirationTime_valid Let_def)

lemma read_metadata_expires:
  "valid_expiration (expires m) \<Longrightarrow> valid_expiration (expires (fst (read_metadata p s m)))"
proof (induction p s m rule: read_metadata.induct)
  case (1 p s m)
  then show ?case
    by (subst read_metadata.simps)
      (auto split: option.splits prod.splits simp: set_metadata_key_expires)
qed

lemma Metadata_FromStream_expires:
  "Metadata_FromStream p s = Some (m, rest) \<Longrightarrow> valid_expiration (expires m)"
  using read_metadata_expires [of Metadata_Default] default_expiration_valid
  by (auto simp: Metadata_FromStream_def Let_def Metadata_Default_def split: if_splits prod.splits)
    (metis fst_conv select_convs(5))

lemma read_metadata_redirect:
  "(\<And>u. redirect_url m = Some u \<Longrightarrow> is_valid u) \<Longrightarrow>
     redirect_url (fst (read_metadata p s m)) = Some u \<Longrightarrow> is_valid u"
proof (induction p s m rule: read_metadata.induct)
  case (1 p s m)
  show ?case
  proof (cases "getline s")
    case (Some lr)
    obtain line rest where lr: "lr = (line, rest)" by (cases lr)
    show ?thesis
    proof (cases "match_comment (TrimWhitespaceASCII line)")
      case (Some kv)
      obtain k v where kv: "kv = (k, v)" by (cases kv)
      have "\<And>u. redirect_url (set_metadata_key p (ToLowerASCII k) v m) = Some u \<Longrightarrow> is_valid u"
        using 1(2) by (auto simp: set_metadata_key_def Let_def split: if_splits)
      with 1 \<open>getline s = Some lr\<close> lr Some kv show ?thesis
        by (simp add: read_metadata.simps [of p s m])
    qed (use 1 Some lr in \<open>simp add: read_metadata.simps [of p s m]\<close>)
  qed (use 1 in \<open>simp add: read_metadata.simps [of p s m]\<close>)
qed

text \<open>What is left of the stream is a suffix of the lines that follow the header line.\<close>

lemma read_metadata_suffix: "suffix (stream_lines (snd (read_metadata p s m))) (stream_lines s)"
proof (induction p s m rule: read_metadata.induct)
  case (1 p s m)
  show ?case
  proof (cases "getline s")
    case (Some lr)
    obtain line rest where lr: "lr = (line, rest)" by (cases lr)
    have sl: "stream_lines s = line # stream_lines rest"
      using Some lr by (simp add: stream_lines.simps [of s])
    show ?thesis
    proof (cases "match_comment (TrimWhitespaceASCII line)")
      case (Some kv)
      obtain k v where kv: "kv = (k, v)" by (cases kv)
      have "suffix (stream_lines (snd (read_metadata p rest
          (set_metadata_key p (ToLowerASCII k) v m)))) (stream_lines rest)"
        using 1 \<open>getline s = Some lr\<close> lr Some kv by simp
      then show ?thesis
        using \<open>getline s = Some lr\<close> lr Some kv sl by (simp add: read_metadata.simps [of p s m] suffix_ConsI)
    qed (use Some lr in \<open>simp add: read_metadata.simps [of p s m]\<close>)
  qed (simp add: read_metadata.simps [of p s m])
qed

end
