(* ===== verification/Serializer.thy ===== *)
theory Serializer
  imports Schema Keywords Snippets Url_Filter List_Metadata
begin

text \<open>
  \<open>converter/serializer/flatbuffer_serializer.cc\<close>: collecting parsed filters in 18 indexes and
  writing them as one subscription. The serializer's fields extend the subscription record: the index
  fields hold the maps that are being built. A C++ reference to one of the URL indexes is a value of
  \<open>UrlFilterIndexRef\<close>. The hash of the schema, generated by the build, is the parameter
  \<open>schema_version\<close>.
\<close>

section \<open>State\<close>

record FlatbufferSerializer = flat_Subscription +
  subscription_url :: gurl
  allow_privileged :: bool

datatype UrlFilterIndexRef =
    Subresource_block | Subresource_allow | Popup_block | Popup_allow | Document_allow
  | Elemhide_allow | Generichide_allow | Genericblock_allow | Csp_block | Csp_allow
  | Rewrite_block | Rewrite_allow | Header_block | Header_allow

type_synonym UrlFilterIndex = "flat_UrlFilter keyed_vector"

fun get_index :: "UrlFilterIndexRef \<Rightarrow> 'z flat_Subscription_scheme \<Rightarrow> UrlFilterIndex" where
  "get_index Subresource_block s = url_subresource_block s"
| "get_index Subresource_allow s = url_subresource_allow s"
| "get_index Popup_block s = url_popup_block s"
| "get_index Popup_allow s = url_popup_allow s"
| "get_index Document_allow s = url_document_allow s"
| "get_index Elemhide_allow s = url_elemhide_allow s"
| "get_index Generichide_allow s = url_generichide_allow s"
| "get_index Genericblock_allow s = url_genericblock_allow s"
| "get_index Csp_block s = url_csp_block s"
| "get_index Csp_allow s = url_csp_allow s"
| "get_index Rewrite_block s = url_rewrite_block s"
| "get_index Rewrite_allow s = url_rewrite_allow s"
| "get_index Header_block s = url_header_block s"
| "get_index Header_allow s = url_header_allow s"

fun set_index :: "UrlFilterIndexRef \<Rightarrow> UrlFilterIndex \<Rightarrow> 'z flat_Subscription_scheme \<Rightarrow>
    'z flat_Subscription_scheme" where
  "set_index Subresource_block i s = s\<lparr>url_subresource_block := i\<rparr>"
| "set_index Subresource_allow i s = s\<lparr>url_subresource_allow := i\<rparr>"
| "set_index Popup_block i s = s\<lparr>url_popup_block := i\<rparr>"
| "set_index Popup_allow i s = s\<lparr>url_popup_allow := i\<rparr>"
| "set_index Document_allow i s = s\<lparr>url_document_allow := i\<rparr>"
| "set_index Elemhide_allow i s = s\<lparr>url_elemhide_allow := i\<rparr>"
| "set_index Generichide_allow i s = s\<lparr>url_generichide_allow := i\<rparr>"
| "set_index Genericblock_allow i s = s\<lparr>url_genericblock_allow := i\<rparr>"
| "set_index Csp_block i s = s\<lparr>url_csp_block := i\<rparr>"
| "set_index Csp_allow i s = s\<lparr>url_csp_allow := i\<rparr>"
| "set_index Rewrite_block i s = s\<lparr>url_rewrite_block := i\<rparr>"
| "set_index Rewrite_allow i s = s\<lparr>url_rewrite_allow := i\<rparr>"
| "set_index Header_block i s = s\<lparr>url_header_block := i\<rparr>"
| "set_index Header_allow i s = s\<lparr>url_header_allow := i\<rparr>"

lemma get_set_index [simp]: "get_index r (set_index r' i s) = (if r = r' then i else get_index r s)"
  by (cases r; cases r'; simp)

lemma set_index_other [simp]:
  "fb_metadata (set_index r i s) = fb_metadata s"
  "fb_elemhide (set_index r i s) = fb_elemhide s"
  "fb_elemhide_emulation (set_index r i s) = fb_elemhide_emulation s"
  "fb_elemhide_exception (set_index r i s) = fb_elemhide_exception s"
  "fb_snippet (set_index r i s) = fb_snippet s"
  by (cases r; simp)+

lemma set_index_serializer [simp]:
  "subscription_url (set_index r i s) = subscription_url s"
  "allow_privileged (set_index r i s) = allow_privileged s"
  by (cases r; simp)+

section \<open>Single filters\<close>

definition EscapeSelector :: "string \<Rightarrow> string" where
  "EscapeSelector value =
     ReplaceChars (ReplaceChars value ''{'' (CHR 0x5C # ''7b '')) ''}'' (CHR 0x5C # ''7d '')"

fun ThirdPartyOptionToFb :: "ThirdPartyOption \<Rightarrow> flat_ThirdParty" where
  "ThirdPartyOptionToFb TP_ThirdPartyOnly = ThirdParty_ThirdPartyOnly"
| "ThirdPartyOptionToFb TP_FirstPartyOnly = ThirdParty_FirstPartyOnly"
| "ThirdPartyOptionToFb TP_Ignore = ThirdParty_Ignore"

text \<open>The options and the schema share one enumeration of the replacement resources.\<close>

fun RewriteOptionToFb :: "RewriteOption \<Rightarrow> AbpResource" where
  "RewriteOptionToFb AbpResource_BlankText = AbpResource_BlankText"
| "RewriteOptionToFb AbpResource_BlankCss = AbpResource_BlankCss"
| "RewriteOptionToFb AbpResource_BlankJs = AbpResource_BlankJs"
| "RewriteOptionToFb AbpResource_BlankHtml = AbpResource_BlankHtml"
| "RewriteOptionToFb AbpResource_BlankMp3 = AbpResource_BlankMp3"
| "RewriteOptionToFb AbpResource_BlankMp4 = AbpResource_BlankMp4"
| "RewriteOptionToFb AbpResource_TransparentGif1x1 = AbpResource_TransparentGif1x1"
| "RewriteOptionToFb AbpResource_TransparentPng2x2 = AbpResource_TransparentPng2x2"
| "RewriteOptionToFb AbpResource_TransparentPng3x2 = AbpResource_TransparentPng3x2"
| "RewriteOptionToFb AbpResource_TransparentPng32x32 = AbpResource_TransparentPng32x32"

definition CreateUrlFilter :: "UrlFilter \<Rightarrow> flat_UrlFilter" where
  "CreateUrlFilter url_filter =
     (let options = uf_options url_filter
      in \<lparr>fu_pattern = uf_pattern url_filter, fu_match_case = is_match_case options,
          fu_resource_type = content_types options,
          fu_third_party = ThirdPartyOptionToFb (third_party options),
          fu_sitekeys = sitekeys options,
          fu_include_domains = include_domains (domains options),
          fu_exclude_domains = exclude_domains (domains options),
          fu_rewrite = map_option RewriteOptionToFb (rewrite options),
          fu_csp_filter = csp options, fu_header_filter = headers options\<rparr>)"

definition CreateElemHideFilter :: "ContentFilter \<Rightarrow> flat_ElemHideFilter" where
  "CreateElemHideFilter content_filter =
     \<lparr>fe_selector = (if cf_type content_filter = FT_ElemHideEmulation
                     then cf_selector content_filter else EscapeSelector (cf_selector content_filter)),
      fe_include_domains = include_domains (cf_domains content_filter),
      fe_exclude_domains = exclude_domains (cf_domains content_filter)\<rparr>"

definition CreateSnippetFilter :: "SnippetFilter \<Rightarrow> flat_SnippetFilter" where
  "CreateSnippetFilter snippet_filter =
     \<lparr>fs_include_domains = include_domains (sf_domains snippet_filter),
      fs_exclude_domains = exclude_domains (sf_domains snippet_filter),
      fs_script = map (\<lambda>cur. \<lparr>fc_command = hd cur, fc_arguments = tl cur\<rparr>)
                    (snippet_script snippet_filter)\<rparr>"

section \<open>Choosing the keyword of a filter\<close>

text \<open>The loop: the shortest list wins, then the longest keyword; \<open>last_size\<close> starts at the largest
  \<open>size_t\<close>.\<close>

fun find_candidate :: "UrlFilterIndex \<Rightarrow> string list \<Rightarrow> int \<Rightarrow> string \<Rightarrow> string" where
  "find_candidate index [] last_size keyword = keyword"
| "find_candidate index (candidate # rest) last_size keyword =
     (let size = int (length (index_get index candidate))
      in if size < last_size \<or> (size = last_size \<and> length candidate > length keyword)
         then find_candidate index rest size candidate
         else find_candidate index rest last_size keyword)"

definition FindCandidateKeyword :: "UrlFilterIndex \<Rightarrow> string \<Rightarrow> string" where
  "FindCandidateKeyword index value =
     find_candidate index (map ToLowerASCII (filter_keywords value)) (2 ^ 64 - 1) []"

lemma find_candidate_mem:
  "find_candidate index cs n k = k \<or> find_candidate index cs n k \<in> set cs"
  by (induction index cs n k rule: find_candidate.induct) (auto simp: Let_def)

lemma FindCandidateKeyword_mem:
  "FindCandidateKeyword index v = [] \<or> FindCandidateKeyword index v \<in> ToLowerASCII ` set (filter_keywords v)"
  using find_candidate_mem [of index "map ToLowerASCII (filter_keywords v)" "2 ^ 64 - 1" "[]"]
  by (auto simp: FindCandidateKeyword_def)

text \<open>What the loop minimises: no candidate has a shorter list of filters.\<close>

definition bucket :: "UrlFilterIndex \<Rightarrow> string \<Rightarrow> int" where
  "bucket index k = int (length (index_get index k))"

lemma find_candidate_Cons:
  "find_candidate index (c # cs) n k =
     (if bucket index c < n \<or> bucket index c = n \<and> length c > length k
      then find_candidate index cs (bucket index c) c else find_candidate index cs n k)"
  by (simp add: bucket_def Let_def)

lemma find_candidate_min:
  "bucket index (find_candidate index cs (bucket index k) k) \<le> bucket index k \<and>
     (\<forall>c\<in>set cs. bucket index (find_candidate index cs (bucket index k) k) \<le> bucket index c)"
proof (induction cs arbitrary: k)
  case (Cons d cs)
  show ?case
  proof (cases "bucket index d < bucket index k \<or> bucket index d = bucket index k \<and> length d > length k")
    case True
    then have "bucket index d \<le> bucket index k" by linarith
    with True Cons.IH [of d] show ?thesis by (auto simp: find_candidate_Cons simp del: find_candidate.simps)
  next
    case False
    then have "bucket index k \<le> bucket index d" by linarith
    with False Cons.IH [of k] show ?thesis by (auto simp: find_candidate_Cons simp del: find_candidate.simps)
  qed
qed simp

lemma FindCandidateKeyword_min:
  assumes "c \<in> ToLowerASCII ` set (filter_keywords v)"
    "\<And>k. bucket index k < 2 ^ 64 - 1"
  shows "bucket index (FindCandidateKeyword index v) \<le> bucket index c"
proof -
  obtain d ds where ds: "map ToLowerASCII (filter_keywords v) = d # ds"
    using assms(1) by (cases "filter_keywords v") auto
  have "FindCandidateKeyword index v = find_candidate index ds (bucket index d) d"
    unfolding FindCandidateKeyword_def ds find_candidate_Cons using assms(2) by simp
  moreover have "c = d \<or> c \<in> set ds" using assms(1) ds by (metis list.set_map set_ConsD)
  ultimately show ?thesis using find_candidate_min [of index ds d] by auto
qed

section \<open>Adding filters\<close>

definition AddUrlFilterToIndex :: "UrlFilterIndexRef \<Rightarrow> string option \<Rightarrow> flat_UrlFilter \<Rightarrow>
    FlatbufferSerializer \<Rightarrow> FlatbufferSerializer" where
  "AddUrlFilterToIndex index pattern_text flt s =
     (let keyword = (case pattern_text of
                       Some p \<Rightarrow> FindCandidateKeyword (get_index index s) p
                     | None \<Rightarrow> [])
      in set_index index (map_push keyword flt (get_index index s)) s)"

definition AddElemhideFilterForDomains :: "flat_ElemHideFilter keyed_vector \<Rightarrow> string list \<Rightarrow>
    flat_ElemHideFilter \<Rightarrow> flat_ElemHideFilter keyed_vector" where
  "AddElemhideFilterForDomains index doms flt =
     (if doms = [] then unordered_push [] flt index
      else foldl (\<lambda>index domain. unordered_push domain flt index) index doms)"

definition AddSnippetFilterForDomains :: "flat_SnippetFilter keyed_vector \<Rightarrow> string list \<Rightarrow>
    flat_SnippetFilter \<Rightarrow> flat_SnippetFilter keyed_vector" where
  "AddSnippetFilterForDomains index doms flt =
     foldl (\<lambda>index domain. map_push domain flt index) index doms"

definition SerializeMetadata :: "string \<Rightarrow> Metadata \<Rightarrow> FlatbufferSerializer \<Rightarrow> FlatbufferSerializer" where
  "SerializeMetadata schema_version metadata s =
     s\<lparr>fb_metadata :=
        \<lparr>fm_flatbuffers_schema_version = schema_version, fm_url = spec (subscription_url s),
         fm_homepage = homepage metadata, fm_title = title metadata,
         fm_version = version metadata, fm_expires = expires metadata div 1000\<rparr>\<rparr>"

definition SerializeContentFilter :: "ContentFilter \<Rightarrow> FlatbufferSerializer \<Rightarrow> FlatbufferSerializer" where
  "SerializeContentFilter content_filter s =
     (let offset = CreateElemHideFilter content_filter;
          doms = include_domains (cf_domains content_filter)
      in case cf_type content_filter of
           FT_ElemHide \<Rightarrow>
             s\<lparr>fb_elemhide := AddElemhideFilterForDomains (fb_elemhide s) doms offset\<rparr>
         | FT_ElemHideException \<Rightarrow>
             s\<lparr>fb_elemhide_exception :=
                 AddElemhideFilterForDomains (fb_elemhide_exception s) doms offset\<rparr>
         | FT_ElemHideEmulation \<Rightarrow>
             s\<lparr>fb_elemhide_emulation :=
                 AddElemhideFilterForDomains (fb_elemhide_emulation s) doms offset\<rparr>
         | _ \<Rightarrow> s)"

definition SerializeSnippetFilter :: "SnippetFilter \<Rightarrow> FlatbufferSerializer \<Rightarrow> FlatbufferSerializer" where
  "SerializeSnippetFilter snippet_filter s =
     (if \<not> allow_privileged s then s
      else s\<lparr>fb_snippet := AddSnippetFilterForDomains (fb_snippet s)
               (include_domains (sf_domains snippet_filter)) (CreateSnippetFilter snippet_filter)\<rparr>)"

fun exception_index :: "ExceptionType \<Rightarrow> UrlFilterIndexRef" where
  "exception_index ET_Genericblock = Genericblock_allow"
| "exception_index ET_Generichide = Generichide_allow"
| "exception_index ET_Document = Document_allow"
| "exception_index ET_Elemhide = Elemhide_allow"

text \<open>A \<open>std::set\<close> of exception types is iterated in the order of the enumeration.\<close>

definition exception_list :: "ExceptionType set \<Rightarrow> ExceptionType list" where
  "exception_list es =
     filter (\<lambda>e. e \<in> es) [ET_Document, ET_Elemhide, ET_Generichide, ET_Genericblock]"

definition SerializeUrlFilter :: "UrlFilter \<Rightarrow> FlatbufferSerializer \<Rightarrow> FlatbufferSerializer" where
  "SerializeUrlFilter url_filter s =
     (let options = uf_options url_filter; allowing = uf_is_allowing url_filter
      in if \<not> allow_privileged s \<and> headers options \<noteq> None then s
         else
           (let offset = CreateUrlFilter url_filter;
                keyword_pattern =
                  (if ExtractRegexFilterFromPattern (uf_pattern url_filter) \<noteq> None then None
                   else Some (uf_pattern url_filter));
                add = (\<lambda>index s. AddUrlFilterToIndex index keyword_pattern offset s)
            in if headers options \<noteq> None
               then add (if allowing then Header_allow else Header_block) s
               else
                 (let s = (if is_popup_filter options
                           then add (if allowing then Popup_allow else Popup_block) s else s);
                      s = (if csp options \<noteq> None
                           then add (if allowing then Csp_allow else Csp_block) s else s);
                      s = (if rewrite options \<noteq> None
                           then add (if allowing then Rewrite_allow else Rewrite_block) s else s);
                      s = (if is_subresource options
                           then add (if allowing then Subresource_allow else Subresource_block) s else s)
                  in foldl (\<lambda>s e. add (exception_index e) s) s (exception_list (exception_types options)))))"

definition empty_subscription :: flat_Subscription where
  "empty_subscription =
     \<lparr>fb_metadata = \<lparr>fm_flatbuffers_schema_version = [], fm_url = [], fm_homepage = [], fm_title = [],
        fm_version = [], fm_expires = 0\<rparr>,
      url_subresource_block = [], url_subresource_allow = [], url_popup_block = [],
      url_popup_allow = [], url_document_allow = [], url_elemhide_allow = [],
      url_generichide_allow = [], url_genericblock_allow = [], url_csp_block = [],
      url_csp_allow = [], url_rewrite_block = [], url_rewrite_allow = [], url_header_block = [],
      url_header_allow = [], fb_elemhide = [], fb_elemhide_emulation = [],
      fb_elemhide_exception = [], fb_snippet = []\<rparr>"

definition new_FlatbufferSerializer :: "string \<Rightarrow> gurl \<Rightarrow> bool \<Rightarrow> FlatbufferSerializer" where
  "new_FlatbufferSerializer schema_version url allow =
     SerializeMetadata schema_version Metadata_Default
       (flat_Subscription.extend empty_subscription
         (FlatbufferSerializer.fields url allow))"

definition GetSerializedSubscription :: "FlatbufferSerializer \<Rightarrow> flat_Subscription" where
  "GetSerializedSubscription s =
     (flat_Subscription.truncate s)
       \<lparr>fb_elemhide := write_sorted (fb_elemhide s),
        fb_elemhide_emulation := write_sorted (fb_elemhide_emulation s),
        fb_elemhide_exception := write_sorted (fb_elemhide_exception s)\<rparr>"

end
