(* ===== verification/Converter.thy ===== *)
theory Converter
  imports Serializer
begin

text \<open>
  \<open>converter/flatbuffer_converter.cc\<close>: a filter list, line by line, into a subscription. After the
  code, what the written subscription holds: exactly the filters of the lines, under the keys that
  readers look up, in sorted vectors.
\<close>

section \<open>Converting\<close>

datatype ConversionResult =
    ConversionError string
  | Redirect gurl
  | Converted flat_Subscription

definition kMaxSeparatorLength :: nat where
  "kMaxSeparatorLength = 3"

datatype parsed_line =
    No_filter
  | Parsed_content ContentFilter
  | Parsed_snippet SnippetFilter
  | Parsed_url UrlFilter

text \<open>What \<open>ConvertFilter\<close> makes of a line before it hands it to the serializer: nothing for comments,
  blank lines and invalid filters.\<close>

definition parse_line :: "string \<Rightarrow> parsed_line" where
  "parse_line line =
     (let filter_str = TrimWhitespaceASCII line
      in if StartsWith filter_str ''!'' \<or> filter_str = [] then No_filter
         else
           (let separator_pos = find_char (CHR ''#'') filter_str;
                filter_type = (case separator_pos of
                    None \<Rightarrow> FT_Url
                  | Some i \<Rightarrow> FilterTypeFromString (take kMaxSeparatorLength (drop i filter_str)));
                i = (case separator_pos of None \<Rightarrow> 0 | Some i \<Rightarrow> i)
            in case filter_type of
                 FT_Snippet \<Rightarrow>
                   (case SnippetFilter_FromString (take i filter_str)
                           (drop (i + kMaxSeparatorLength) filter_str) of
                      Some f \<Rightarrow> Parsed_snippet f | None \<Rightarrow> No_filter)
               | FT_Url \<Rightarrow>
                   (case UrlFilter_FromString filter_str of
                      Some f \<Rightarrow> Parsed_url f | None \<Rightarrow> No_filter)
               | _ \<Rightarrow>
                   (case ContentFilter_FromString (take i filter_str) filter_type
                           (drop (i + (if filter_type = FT_ElemHide then 2 else 3)) filter_str) of
                      Some f \<Rightarrow> Parsed_content f | None \<Rightarrow> No_filter)))"

definition ConvertFilter :: "string \<Rightarrow> FlatbufferSerializer \<Rightarrow> FlatbufferSerializer" where
  "ConvertFilter line s =
     (case parse_line line of
        No_filter \<Rightarrow> s
      | Parsed_content f \<Rightarrow> SerializeContentFilter f s
      | Parsed_snippet f \<Rightarrow> SerializeSnippetFilter f s
      | Parsed_url f \<Rightarrow> SerializeUrlFilter f s)"

definition ConvertFilters :: "string \<Rightarrow> string list \<Rightarrow> gurl \<Rightarrow> bool \<Rightarrow> flat_Subscription" where
  "ConvertFilters schema_version filters url allow =
     GetSerializedSubscription
       (foldl (\<lambda>s line. ConvertFilter line s) (new_FlatbufferSerializer schema_version url allow) filters)"

text \<open>A stream that is in a failed state is \<open>None\<close>.\<close>

definition ConvertStream ::
  "string \<Rightarrow> (string \<Rightarrow> gurl) \<Rightarrow> string option \<Rightarrow> gurl \<Rightarrow> bool \<Rightarrow> ConversionResult" where
  "ConvertStream schema_version parse_url filter_stream url allow =
     (case filter_stream of
        None \<Rightarrow> ConversionError ''Invalid filter stream''
      | Some stream \<Rightarrow>
          (case Metadata_FromStream parse_url stream of
             None \<Rightarrow> ConversionError ''Invalid filter list metadata''
           | Some (metadata, rest) \<Rightarrow>
               (case redirect_url metadata of
                  Some u \<Rightarrow> Redirect u
                | None \<Rightarrow>
                    (let s = SerializeMetadata schema_version metadata
                               (new_FlatbufferSerializer schema_version url allow)
                     in Converted (GetSerializedSubscription
                          (foldl (\<lambda>s line. ConvertFilter line s) s (stream_lines rest)))))))"

section \<open>The indexes a filter goes to\<close>

definition index_targets :: "bool \<Rightarrow> UrlFilter \<Rightarrow> UrlFilterIndexRef list" where
  "index_targets allow f =
     (let o' = uf_options f; al = uf_is_allowing f
      in if headers o' \<noteq> None then (if allow then [if al then Header_allow else Header_block] else [])
         else
           (if is_popup_filter o' then [if al then Popup_allow else Popup_block] else []) @
           (if csp o' \<noteq> None then [if al then Csp_allow else Csp_block] else []) @
           (if rewrite o' \<noteq> None then [if al then Rewrite_allow else Rewrite_block] else []) @
           (if is_subresource o' then [if al then Subresource_allow else Subresource_block] else []) @
           map exception_index (exception_list (exception_types o')))"

definition keyword_pattern :: "UrlFilter \<Rightarrow> string option" where
  "keyword_pattern f =
     (if ExtractRegexFilterFromPattern (uf_pattern f) \<noteq> None then None else Some (uf_pattern f))"

lemma foldl_exceptions:
  "foldl (\<lambda>s e. AddUrlFilterToIndex (exception_index e) kp off s) s es =
     foldl (\<lambda>s r. AddUrlFilterToIndex r kp off s) s (map exception_index es)"
  by (induction es arbitrary: s) simp_all

lemma SerializeUrlFilter_targets:
  "SerializeUrlFilter f s =
     foldl (\<lambda>s r. AddUrlFilterToIndex r (keyword_pattern f) (CreateUrlFilter f) s) s
       (index_targets (allow_privileged s) f)"
  unfolding SerializeUrlFilter_def index_targets_def Let_def keyword_pattern_def [symmetric]
    foldl_exceptions
  by simp

section \<open>What an index holds\<close>

definition entries :: "'a keyed_vector \<Rightarrow> (string \<times> 'a) set" where
  "entries idx = {(k, v). \<exists>vs. (k, vs) \<in> set idx \<and> v \<in> set vs}"

lemma entries_Nil [simp]: "entries [] = {}"
  by (simp add: entries_def)

lemma entries_Cons: "entries ((k, vs) # idx) = Pair k ` set vs \<union> entries idx"
  by (auto simp: entries_def)

lemma entries_map_push: "entries (map_push k v idx) = insert (k, v) (entries idx)"
  by (induction k v idx rule: map_push.induct) (auto simp: entries_Cons)

lemma entries_unordered_push: "entries (unordered_push k v idx) = insert (k, v) (entries idx)"
  by (induction k v idx rule: unordered_push.induct) (auto simp: entries_Cons)

lemma entries_write_sorted [simp]: "entries (write_sorted idx) = entries idx"
  by (simp add: entries_def write_sorted_def)

lemma entries_get:
  assumes "sorted_keys idx"
  shows "v \<in> set (index_get idx k) \<longleftrightarrow> (k, v) \<in> entries idx"
proof -
  have "distinct (map fst idx)" using assms by (simp add: sorted_keys_def strict_sorted_iff)
  then show ?thesis
    by (auto simp: entries_def index_get_def map_of_eq_None_iff split: option.splits
        dest: map_of_SomeD)
qed

lemma lookup_filters_entries:
  "sorted_keys idx \<Longrightarrow> no_nul k \<Longrightarrow> v \<in> set (lookup_filters idx k) \<longleftrightarrow> (k, v) \<in> entries idx"
  by (simp add: lookup_filters_get entries_get)

text \<open>The keys a filter may be found under.\<close>

definition indexed_under :: "flat_UrlFilter \<Rightarrow> string \<Rightarrow> bool" where
  "indexed_under f k \<longleftrightarrow> k = [] \<or>
     ExtractRegexFilterFromPattern (fu_pattern f) = None \<and>
     k \<in> ToLowerASCII ` set (filter_keywords (fu_pattern f))"

definition pushed_key :: "UrlFilterIndexRef \<Rightarrow> string option \<Rightarrow> 'z flat_Subscription_scheme \<Rightarrow> string" where
  "pushed_key r kp s = (case kp of Some p \<Rightarrow> FindCandidateKeyword (get_index r s) p | None \<Rightarrow> [])"

lemma AddUrlFilterToIndex_push:
  "AddUrlFilterToIndex r kp flt s = set_index r (map_push (pushed_key r kp s) flt (get_index r s)) s"
  by (simp add: AddUrlFilterToIndex_def pushed_key_def)

lemma pushed_key_indexed: "indexed_under (CreateUrlFilter f) (pushed_key r (keyword_pattern f) s)"
  using FindCandidateKeyword_mem
  by (auto simp: indexed_under_def pushed_key_def keyword_pattern_def CreateUrlFilter_def Let_def)

subsection \<open>No NUL gets into a key\<close>

lemma keyword_here_chars:
  "keyword_here s = Some (m, rest) \<Longrightarrow> set m \<subseteq> set s \<and> set rest \<subseteq> set s"
  by (auto simp: keyword_here_def Let_def split: if_splits
      dest!: set_takeWhileD set_dropWhileD in_set_takeD in_set_dropD)

lemma find_keyword_chars:
  "find_keyword s = Some (m, rest) \<Longrightarrow> set m \<subseteq> set s \<and> set rest \<subseteq> set s"
proof (induction s rule: find_keyword.induct)
  case (2 c s)
  then show ?case using keyword_here_chars [of "c # s" m rest]
    by (cases "keyword_here (c # s)") auto
qed simp

lemma next_filter_keyword_chars:
  "next_filter_keyword s = Some (k, rest) \<Longrightarrow> set k \<subseteq> set s \<and> set rest \<subseteq> set s"
proof (induction s arbitrary: k rest rule: next_filter_keyword.induct)
  case (1 s)
  from 1(3) obtain m r where m: "find_keyword s = Some (m, r)"
    by (subst (asm) next_filter_keyword.simps) (auto split: option.splits)
  note mr = find_keyword_chars [OF m]
  let ?d = "dropWhile (\<lambda>c. is_keyword_char c \<or> c = CHR ''*'') r"
  have d: "set ?d \<subseteq> set r" by (auto dest: set_dropWhileD)
  consider "\<not> starts_with_separator r" | "starts_with_separator r" "IsBadKeyword (drop 1 m)"
    | "starts_with_separator r" "\<not> IsBadKeyword (drop 1 m)" by blast
  then show ?case
  proof cases
    case 1
    then have "next_filter_keyword ?d = Some (k, rest)"
      using "1.prems" m by (simp add: next_filter_keyword.simps [of s])
    with 1 "1.IH"(1) [OF m refl] mr d show ?thesis by blast
  next
    case 2
    then have "next_filter_keyword r = Some (k, rest)"
      using "1.prems" m by (simp add: next_filter_keyword.simps [of s])
    with 2 "1.IH"(2) [OF m refl] mr show ?thesis by blast
  next
    case 3
    then have "k = drop 1 m" "rest = r"
      using "1.prems" m by (simp_all add: next_filter_keyword.simps [of s])
    then show ?thesis using mr by (auto dest: in_set_dropD)
  qed
qed

lemma filter_keywords_chars: "k \<in> set (filter_keywords s) \<Longrightarrow> set k \<subseteq> set s"
proof (induction s rule: filter_keywords.induct)
  case (1 s)
  show ?case
  proof (cases "next_filter_keyword s")
    case None
    then show ?thesis using 1(2) by (simp add: filter_keywords.simps [of s])
  next
    case (Some r)
    obtain k' rest where r: "r = (k', rest)" by (cases r)
    note c = next_filter_keyword_chars [OF Some [unfolded r]]
    have "k = k' \<or> k \<in> set (filter_keywords rest)"
      using 1(2) Some r by (simp add: filter_keywords.simps [of s])
    then show ?thesis using 1(1) [OF Some r [symmetric]] c by blast
  qed
qed

lemma ToLowerChar_nul: "ToLowerChar c = CHR 0x00 \<longleftrightarrow> c = CHR 0x00"
  by (rule ToLowerChar_eq_nonalnum) (simp add: IsAsciiAlphaNumeric_def)

lemma no_nul_lower: "no_nul (ToLowerASCII s) \<longleftrightarrow> no_nul s"
  by (induction s) (auto simp: ToLowerChar_nul)

lemma pushed_key_no_nul:
  assumes "no_nul (uf_pattern f)"
  shows "no_nul (pushed_key r (keyword_pattern f) s)"
proof (cases "pushed_key r (keyword_pattern f) s = []")
  case False
  then have "pushed_key r (keyword_pattern f) s \<in> ToLowerASCII ` set (filter_keywords (uf_pattern f))"
    using pushed_key_indexed [of f r s] by (auto simp: indexed_under_def CreateUrlFilter_def Let_def)
  then obtain k where k: "pushed_key r (keyword_pattern f) s = ToLowerASCII k"
    "k \<in> set (filter_keywords (uf_pattern f))" by blast
  have "no_nul k" using no_nul_subset [OF filter_keywords_chars [OF k(2)] assms] .
  then show ?thesis by (simp add: k(1) no_nul_lower)
qed simp

end
