(* ===== verification/Converter_Facts.thy ===== *)
theory Converter_Facts
  imports Converter
begin

text \<open>
  What a converted subscription holds, for each of its 18 vectors: exactly the filters of the list
  that belong there (\<open>subscription_contents\<close>), each under keys its readers ask for, in vectors that
  \<open>LookupByKey\<close> can search. The proofs follow the serializer's state through the list.
\<close>

section \<open>The state while lines are added\<close>

text \<open>The entries that a list of parsed lines puts into the vectors of content and snippet filters.\<close>

definition domain_keys :: "string list \<Rightarrow> string list" where
  "domain_keys doms = (if doms = [] then [[]] else doms)"

definition content_entries :: "FilterType \<Rightarrow> string list \<Rightarrow> (string \<times> flat_ElemHideFilter) set" where
  "content_entries t lines =
     {(d, CreateElemHideFilter f) | d f. \<exists>line\<in>set lines. parse_line line = Parsed_content f \<and>
        cf_type f = t \<and> d \<in> set (domain_keys (include_domains (cf_domains f)))}"

definition snippet_entries :: "bool \<Rightarrow> string list \<Rightarrow> (string \<times> flat_SnippetFilter) set" where
  "snippet_entries allow lines =
     {(d, CreateSnippetFilter f) | d f. allow \<and> (\<exists>line\<in>set lines. parse_line line = Parsed_snippet f \<and>
        d \<in> set (include_domains (sf_domains f)))}"

definition url_filters :: "bool \<Rightarrow> UrlFilterIndexRef \<Rightarrow> string list \<Rightarrow> flat_UrlFilter set" where
  "url_filters allow r lines =
     {CreateUrlFilter f | f. \<exists>line\<in>set lines. parse_line line = Parsed_url f \<and> r \<in> set (index_targets allow f)}"

definition url_contents :: "string list \<Rightarrow> bool \<Rightarrow> 'z flat_Subscription_scheme \<Rightarrow> bool" where
  "url_contents lines allow s \<longleftrightarrow>
     (\<forall>r. snd ` entries (get_index r s) = url_filters allow r lines) \<and>
     (\<forall>r k f. (k, f) \<in> entries (get_index r s) \<longrightarrow> indexed_under f k)"

definition contents :: "string list \<Rightarrow> bool \<Rightarrow> 'z flat_Subscription_scheme \<Rightarrow> bool" where
  "contents lines allow s \<longleftrightarrow> url_contents lines allow s \<and>
     entries (fb_elemhide s) = content_entries FT_ElemHide lines \<and>
     entries (fb_elemhide_emulation s) = content_entries FT_ElemHideEmulation lines \<and>
     entries (fb_elemhide_exception s) = content_entries FT_ElemHideException lines \<and>
     entries (fb_snippet s) = snippet_entries allow lines"

lemma url_contents_cong:
  "(\<And>r. get_index r s = get_index r s') \<Longrightarrow> url_contents lines allow s = url_contents lines allow s'"
  by (simp add: url_contents_def)

lemma entries_AddElemhide:
  "entries (AddElemhideFilterForDomains idx doms f) = entries idx \<union> (\<lambda>d. (d, f)) ` set (domain_keys doms)"
proof -
  have "entries (foldl (\<lambda>index d. unordered_push d f index) idx doms) = entries idx \<union> (\<lambda>d. (d, f)) ` set doms"
    by (induction doms arbitrary: idx) (auto simp: entries_unordered_push)
  then show ?thesis
    by (auto simp: AddElemhideFilterForDomains_def domain_keys_def entries_unordered_push)
qed

lemma entries_AddSnippet:
  "entries (AddSnippetFilterForDomains idx doms f) = entries idx \<union> (\<lambda>d. (d, f)) ` set doms"
  unfolding AddSnippetFilterForDomains_def
  by (induction doms arbitrary: idx) (auto simp: entries_map_push)

text \<open>Adding a filter to a list of indexes.\<close>

definition add_to_indexes :: "UrlFilter \<Rightarrow> UrlFilterIndexRef list \<Rightarrow> FlatbufferSerializer \<Rightarrow>
    FlatbufferSerializer" where
  "add_to_indexes f rs s =
     foldl (\<lambda>s r. AddUrlFilterToIndex r (keyword_pattern f) (CreateUrlFilter f) s) s rs"

lemma add_to_indexes_simps [simp]:
  "add_to_indexes f [] s = s"
  "add_to_indexes f (r # rs) s =
     add_to_indexes f rs (AddUrlFilterToIndex r (keyword_pattern f) (CreateUrlFilter f) s)"
  by (simp_all add: add_to_indexes_def)

lemma add_to_indexes_other:
  "fb_elemhide (add_to_indexes f rs s) = fb_elemhide s"
  "fb_elemhide_emulation (add_to_indexes f rs s) = fb_elemhide_emulation s"
  "fb_elemhide_exception (add_to_indexes f rs s) = fb_elemhide_exception s"
  "fb_snippet (add_to_indexes f rs s) = fb_snippet s"
  "allow_privileged (add_to_indexes f rs s) = allow_privileged s"
  "fb_metadata (add_to_indexes f rs s) = fb_metadata s"
  by (induction rs arbitrary: s) (simp_all add: AddUrlFilterToIndex_push)

lemma add_to_indexes_entries:
  "snd ` entries (get_index r (add_to_indexes f rs s)) =
     snd ` entries (get_index r s) \<union> (if r \<in> set rs then {CreateUrlFilter f} else {})"
  by (induction rs arbitrary: s) (auto simp: AddUrlFilterToIndex_push entries_map_push)

lemma add_to_indexes_keys:
  assumes "\<And>k g. (k, g) \<in> entries (get_index r s) \<Longrightarrow> indexed_under g k"
    "(k, g) \<in> entries (get_index r (add_to_indexes f rs s))"
  shows "indexed_under g k"
  using assms
proof (induction rs arbitrary: s)
  case (Cons q rs)
  show ?case
  proof (rule Cons.IH)
    show "(k, g) \<in> entries (get_index r (add_to_indexes f rs
        (AddUrlFilterToIndex q (keyword_pattern f) (CreateUrlFilter f) s)))"
      using Cons.prems(2) by simp
    fix k' g'
    assume "(k', g') \<in> entries (get_index r
        (AddUrlFilterToIndex q (keyword_pattern f) (CreateUrlFilter f) s))"
    then show "indexed_under g' k'"
      using Cons.prems(1) pushed_key_indexed
      by (auto simp: AddUrlFilterToIndex_push entries_map_push split: if_splits)
  qed
qed simp

lemma add_to_indexes_sorted:
  assumes "no_nul (uf_pattern f)" "\<And>r. sorted_keys (get_index r s)"
  shows "sorted_keys (get_index r (add_to_indexes f rs s))"
  using assms(2)
proof (induction rs arbitrary: s)
  case (Cons q rs)
  have "sorted_keys (get_index r' (AddUrlFilterToIndex q (keyword_pattern f) (CreateUrlFilter f) s))" for r'
    using Cons.prems
    by (simp add: AddUrlFilterToIndex_push sorted_keys_push pushed_key_no_nul [OF assms(1)])
  with Cons.IH show ?case by simp
qed simp

section \<open>One line\<close>

lemma get_index_content [simp]:
  "get_index r (s\<lparr>fb_elemhide := x\<rparr>) = get_index r s"
  "get_index r (s\<lparr>fb_elemhide_emulation := x\<rparr>) = get_index r s"
  "get_index r (s\<lparr>fb_elemhide_exception := x\<rparr>) = get_index r s"
  "get_index r (s\<lparr>fb_snippet := y\<rparr>) = get_index r s"
  "get_index r (s\<lparr>fb_metadata := m\<rparr>) = get_index r s"
  by (cases r; simp)+

lemma allow_privileged_ConvertFilter [simp]: "allow_privileged (ConvertFilter line s) = allow_privileged s"
  unfolding ConvertFilter_def
  by (auto simp: SerializeContentFilter_def SerializeSnippetFilter_def SerializeUrlFilter_targets
      add_to_indexes_def [symmetric] add_to_indexes_other Let_def
      split: parsed_line.splits FilterType.splits)

lemma url_filters_snoc:
  "url_filters allow r (lines @ [line]) = url_filters allow r lines \<union>
     (case parse_line line of Parsed_url f \<Rightarrow> if r \<in> set (index_targets allow f) then {CreateUrlFilter f} else {}
      | _ \<Rightarrow> {})"
  by (auto simp: url_filters_def split: parsed_line.splits)

lemma content_entries_snoc:
  "content_entries t (lines @ [line]) = content_entries t lines \<union>
     (case parse_line line of
        Parsed_content f \<Rightarrow>
          if cf_type f = t
          then (\<lambda>d. (d, CreateElemHideFilter f)) ` set (domain_keys (include_domains (cf_domains f))) else {}
      | _ \<Rightarrow> {})"
  by (auto simp: content_entries_def split: parsed_line.splits)

lemma snippet_entries_snoc:
  "snippet_entries allow (lines @ [line]) = snippet_entries allow lines \<union>
     (case parse_line line of
        Parsed_snippet f \<Rightarrow>
          if allow then (\<lambda>d. (d, CreateSnippetFilter f)) ` set (include_domains (sf_domains f)) else {}
      | _ \<Rightarrow> {})"
  by (auto simp: snippet_entries_def split: parsed_line.splits)

lemmas snoc_facts = url_filters_snoc content_entries_snoc snippet_entries_snoc

lemma url_contents_snoc_other:
  assumes "url_contents lines allow s" "\<And>u. parse_line line \<noteq> Parsed_url u"
    "\<And>r. get_index r s' = get_index r s"
  shows "url_contents (lines @ [line]) allow s'"
proof -
  have "url_filters allow r (lines @ [line]) = url_filters allow r lines" for r
    using assms(2) by (auto simp: url_filters_snoc split: parsed_line.splits)
  then show ?thesis using assms(1,3) by (simp add: url_contents_def)
qed

lemma url_contents_snoc_url:
  assumes "url_contents lines allow s" "parse_line line = Parsed_url f"
  shows "url_contents (lines @ [line]) allow (add_to_indexes f (index_targets allow f) s)"
  unfolding url_contents_def
proof (intro conjI allI impI)
  fix r
  show "snd ` entries (get_index r (add_to_indexes f (index_targets allow f) s)) =
      url_filters allow r (lines @ [line])"
    using assms by (simp add: url_contents_def url_filters_snoc add_to_indexes_entries)
  fix k g
  assume e: "(k, g) \<in> entries (get_index r (add_to_indexes f (index_targets allow f) s))"
  have "indexed_under g' k'" if "(k', g') \<in> entries (get_index r s)" for k' g'
    using assms(1) that unfolding url_contents_def by blast
  then show "indexed_under g k" by (rule add_to_indexes_keys [OF _ e])
qed

lemma ConvertFilter_contents:
  assumes "contents lines (allow_privileged s) s"
  shows "contents (lines @ [line]) (allow_privileged s) (ConvertFilter line s)"
proof (cases "parse_line line")
  case No_filter
  have "url_contents (lines @ [line]) (allow_privileged s) s"
    using assms No_filter by (intro url_contents_snoc_other [of lines _ s]) (simp_all add: contents_def)
  with No_filter assms show ?thesis
    by (simp add: contents_def ConvertFilter_def content_entries_snoc snippet_entries_snoc)
next
  case (Parsed_content f)
  have eq: "ConvertFilter line s = SerializeContentFilter f s"
    using Parsed_content by (simp add: ConvertFilter_def)
  have "get_index r (SerializeContentFilter f s) = get_index r s" for r
    by (simp add: SerializeContentFilter_def Let_def split: FilterType.splits)
  then have "url_contents (lines @ [line]) (allow_privileged s) (SerializeContentFilter f s)"
    using assms Parsed_content by (intro url_contents_snoc_other [of lines _ s]) (simp_all add: contents_def)
  with assms Parsed_content eq show ?thesis
    by (cases "cf_type f")
      (simp_all add: contents_def content_entries_snoc snippet_entries_snoc SerializeContentFilter_def
        Let_def entries_AddElemhide)
next
  case (Parsed_snippet f)
  have eq: "ConvertFilter line s = SerializeSnippetFilter f s"
    using Parsed_snippet by (simp add: ConvertFilter_def)
  have "get_index r (SerializeSnippetFilter f s) = get_index r s" for r
    by (simp add: SerializeSnippetFilter_def)
  then have "url_contents (lines @ [line]) (allow_privileged s) (SerializeSnippetFilter f s)"
    using assms Parsed_snippet by (intro url_contents_snoc_other [of lines _ s]) (simp_all add: contents_def)
  with assms Parsed_snippet eq show ?thesis
    by (simp add: contents_def content_entries_snoc snippet_entries_snoc SerializeSnippetFilter_def
        entries_AddSnippet)
next
  case (Parsed_url f)
  have eq: "ConvertFilter line s = add_to_indexes f (index_targets (allow_privileged s) f) s"
    using Parsed_url by (simp add: ConvertFilter_def SerializeUrlFilter_targets add_to_indexes_def)
  have "url_contents (lines @ [line]) (allow_privileged s) (ConvertFilter line s)"
    unfolding eq using assms Parsed_url by (intro url_contents_snoc_url) (simp_all add: contents_def)
  then show ?thesis
    using assms Parsed_url
    by (simp add: contents_def content_entries_snoc snippet_entries_snoc eq add_to_indexes_other)
qed

lemma allow_privileged_foldl [simp]:
  "allow_privileged (foldl (\<lambda>s line. ConvertFilter line s) s lines) = allow_privileged s"
  by (induction lines arbitrary: s) simp_all

lemma foldl_ConvertFilter_contents:
  assumes "contents [] (allow_privileged s) s"
  shows "contents lines (allow_privileged s) (foldl (\<lambda>s line. ConvertFilter line s) s lines)"
proof (induction lines rule: rev_induct)
  case (snoc line lines)
  then show ?case
    using ConvertFilter_contents [of lines "foldl (\<lambda>s line. ConvertFilter line s) s lines" line] by simp
qed (use assms in simp)

section \<open>Searchable vectors\<close>

definition searchable :: "FlatbufferSerializer \<Rightarrow> bool" where
  "searchable s \<longleftrightarrow> (\<forall>r. sorted_keys (get_index r s)) \<and> sorted_keys (fb_snippet s) \<and>
     unordered_good (fb_elemhide s) \<and> unordered_good (fb_elemhide_emulation s) \<and>
     unordered_good (fb_elemhide_exception s)"

definition all_sorted :: "'z flat_Subscription_scheme \<Rightarrow> bool" where
  "all_sorted s \<longleftrightarrow> (\<forall>r. sorted_keys (get_index r s)) \<and> sorted_keys (fb_snippet s) \<and>
     sorted_keys (fb_elemhide s) \<and> sorted_keys (fb_elemhide_emulation s) \<and>
     sorted_keys (fb_elemhide_exception s)"

lemma foldl_map_push_sorted:
  "sorted_keys idx \<Longrightarrow> list_all no_nul ks \<Longrightarrow> sorted_keys (foldl (\<lambda>i k. map_push k v i) idx ks)"
  by (induction ks arbitrary: idx) (simp_all add: sorted_keys_push)

lemma foldl_unordered_push_good:
  "unordered_good idx \<Longrightarrow> list_all no_nul ks \<Longrightarrow> unordered_good (foldl (\<lambda>i k. unordered_push k v i) idx ks)"
  by (induction ks arbitrary: idx) (simp_all add: unordered_good_push)

lemma TrimWhitespaceASCII_no_nul: "no_nul s \<Longrightarrow> no_nul (TrimWhitespaceASCII s)"
  using no_nul_subset [OF TrimWhitespaceASCII_set] .

lemma include_domains_no_nul:
  assumes "no_nul s"
  shows "list_all no_nul (include_domains (DomainOption_FromString s sep))"
    "list_all no_nul (include_domains (RemoveDomainsWithNoSubdomain (DomainOption_FromString s sep)))"
proof -
  have "no_nul d" if "d \<in> set (SplitStringNonempty (ToLowerASCII s) sep TRIM_WHITESPACE)" for d
    using SplitStringNonempty_chars [OF that] no_nul_subset [of d "ToLowerASCII s"] assms no_nul_lower
    by blast
  then show "list_all no_nul (include_domains (DomainOption_FromString s sep))"
    "list_all no_nul (include_domains (RemoveDomainsWithNoSubdomain (DomainOption_FromString s sep)))"
    by (auto simp: list_all_iff DomainOption_FromString_include RemoveDomainsWithNoSubdomain_keeps)
qed

lemma no_nul_take: "no_nul s \<Longrightarrow> no_nul (take n s)"
  using no_nul_subset [OF set_take_subset] .

lemma no_nul_drop: "no_nul s \<Longrightarrow> no_nul (drop n s)"
  using no_nul_subset [OF set_drop_subset] .

lemma UrlFilter_FromString_no_nul:
  assumes "UrlFilter_FromString line = Some f" "no_nul line"
  shows "no_nul (uf_pattern f)"
  using assms(1)
proof (rule UrlFilter_FromString_SomeE)
  fix s s' options
  assume h: "s = (if uf_is_allowing f then drop 2 line else line)"
    "split_filter_options (uf_is_allowing f) s = Some (s', options)"
    "uf_pattern f = lowercase_pattern s' options"
  have "no_nul s" using h(1) assms(2) by (simp add: no_nul_drop)
  then have "no_nul s'"
    using h(2) by (auto simp: split_filter_options_def no_nul_take split: option.splits if_splits)
  then show ?thesis using h(3) by (simp add: lowercase_pattern_def no_nul_lower)
qed

lemma parse_line_no_nul:
  assumes "no_nul line"
  shows "parse_line line = Parsed_url u \<Longrightarrow> no_nul (uf_pattern u)"
    "parse_line line = Parsed_content c \<Longrightarrow> list_all no_nul (include_domains (cf_domains c))"
    "parse_line line = Parsed_snippet n \<Longrightarrow> list_all no_nul (include_domains (sf_domains n))"
proof -
  note t = TrimWhitespaceASCII_no_nul [OF assms]
  show "parse_line line = Parsed_url u \<Longrightarrow> no_nul (uf_pattern u)"
    using UrlFilter_FromString_no_nul [OF _ t]
    by (auto simp: parse_line_def Let_def split: if_splits option.splits FilterType.splits)
  show "parse_line line = Parsed_content c \<Longrightarrow> list_all no_nul (include_domains (cf_domains c))"
    using include_domains_no_nul [OF no_nul_take [OF t]]
    by (auto simp: parse_line_def Let_def ContentFilter_FromString_def
        split: if_splits option.splits FilterType.splits)
  show "parse_line line = Parsed_snippet n \<Longrightarrow> list_all no_nul (include_domains (sf_domains n))"
    using include_domains_no_nul [OF no_nul_take [OF t]]
    by (auto simp: parse_line_def Let_def SnippetFilter_FromString_def
        split: if_splits option.splits FilterType.splits)
qed

lemma AddElemhide_good:
  "unordered_good idx \<Longrightarrow> list_all no_nul doms \<Longrightarrow> unordered_good (AddElemhideFilterForDomains idx doms f)"
  by (simp add: AddElemhideFilterForDomains_def unordered_good_push foldl_unordered_push_good)

lemma ConvertFilter_searchable:
  assumes "searchable s" "no_nul line"
  shows "searchable (ConvertFilter line s)"
proof (cases "parse_line line")
  case No_filter
  with assms show ?thesis by (simp add: ConvertFilter_def)
next
  case (Parsed_content f)
  have "ConvertFilter line s = SerializeContentFilter f s"
    using Parsed_content by (simp add: ConvertFilter_def)
  with assms(1) parse_line_no_nul(2) [OF assms(2) Parsed_content] show ?thesis
    by (cases "cf_type f") (simp_all add: searchable_def SerializeContentFilter_def Let_def AddElemhide_good)
next
  case (Parsed_snippet f)
  have "ConvertFilter line s = SerializeSnippetFilter f s"
    using Parsed_snippet by (simp add: ConvertFilter_def)
  with assms(1) parse_line_no_nul(3) [OF assms(2) Parsed_snippet] show ?thesis
    by (simp add: searchable_def SerializeSnippetFilter_def AddSnippetFilterForDomains_def
        foldl_map_push_sorted)
next
  case (Parsed_url f)
  have "ConvertFilter line s = add_to_indexes f (index_targets (allow_privileged s) f) s"
    using Parsed_url by (simp add: ConvertFilter_def SerializeUrlFilter_targets add_to_indexes_def)
  with assms(1) add_to_indexes_sorted [OF parse_line_no_nul(1) [OF assms(2) Parsed_url]]
  show ?thesis by (simp add: searchable_def add_to_indexes_other)
qed

lemma foldl_ConvertFilter_searchable:
  "searchable s \<Longrightarrow> list_all no_nul lines \<Longrightarrow> searchable (foldl (\<lambda>s line. ConvertFilter line s) s lines)"
  by (induction lines arbitrary: s) (simp_all add: ConvertFilter_searchable)

section \<open>The written subscription\<close>

lemma get_index_truncate [simp]: "get_index r (flat_Subscription.truncate s) = get_index r s"
  by (cases r) (simp_all add: flat_Subscription.truncate_def)

lemma GetSerializedSubscription_fields [simp]:
  "get_index r (GetSerializedSubscription s) = get_index r s"
  "fb_elemhide (GetSerializedSubscription s) = write_sorted (fb_elemhide s)"
  "fb_elemhide_emulation (GetSerializedSubscription s) = write_sorted (fb_elemhide_emulation s)"
  "fb_elemhide_exception (GetSerializedSubscription s) = write_sorted (fb_elemhide_exception s)"
  "fb_snippet (GetSerializedSubscription s) = fb_snippet s"
  "fb_metadata (GetSerializedSubscription s) = fb_metadata s"
  unfolding GetSerializedSubscription_def get_index_content get_index_truncate
  by (simp_all add: flat_Subscription.truncate_def)

lemma GetSerializedSubscription_contents:
  "contents lines allow s \<Longrightarrow> contents lines allow (GetSerializedSubscription s)"
  using url_contents_cong [of "GetSerializedSubscription s" s lines allow] by (simp add: contents_def)

lemma GetSerializedSubscription_sorted: "searchable s \<Longrightarrow> all_sorted (GetSerializedSubscription s)"
  by (simp add: searchable_def all_sorted_def unordered_good_written)

lemma new_serializer_fields:
  "get_index r (new_FlatbufferSerializer v u al) = []" "fb_elemhide (new_FlatbufferSerializer v u al) = []"
  "fb_elemhide_emulation (new_FlatbufferSerializer v u al) = []"
  "fb_elemhide_exception (new_FlatbufferSerializer v u al) = []"
  "fb_snippet (new_FlatbufferSerializer v u al) = []"
  "allow_privileged (new_FlatbufferSerializer v u al) = al"
  "subscription_url (new_FlatbufferSerializer v u al) = u"
  by (cases r; simp add: new_FlatbufferSerializer_def SerializeMetadata_def empty_subscription_def
      flat_Subscription.extend_def FlatbufferSerializer.fields_def)+

lemma new_serializer_ok:
  "contents [] al (new_FlatbufferSerializer v u al)" "searchable (new_FlatbufferSerializer v u al)"
  by (simp_all add: contents_def url_contents_def searchable_def new_serializer_fields url_filters_def
      content_entries_def snippet_entries_def sorted_keys_def unordered_good_def)

lemma ConvertFilters_contents: "contents lines allow (ConvertFilters v lines u allow)"
  unfolding ConvertFilters_def
  using foldl_ConvertFilter_contents [of "new_FlatbufferSerializer v u allow" lines] new_serializer_ok(1)
  by (intro GetSerializedSubscription_contents) (simp add: new_serializer_fields)

lemma ConvertFilters_sorted:
  "list_all no_nul lines \<Longrightarrow> all_sorted (ConvertFilters v lines u allow)"
  unfolding ConvertFilters_def
  by (intro GetSerializedSubscription_sorted foldl_ConvertFilter_searchable new_serializer_ok(2))

text \<open>A stream converts like the list of the lines after its header, but for the metadata.\<close>

lemma ConvertStream_contents:
  assumes "ConvertStream v p (Some stream) u allow = Converted sub"
  obtains m rest where "Metadata_FromStream p stream = Some (m, rest)" "redirect_url m = None"
    "contents (stream_lines rest) allow sub"
proof -
  obtain m rest where h: "Metadata_FromStream p stream = Some (m, rest)" "redirect_url m = None"
    "sub = GetSerializedSubscription (foldl (\<lambda>s line. ConvertFilter line s)
       (SerializeMetadata v m (new_FlatbufferSerializer v u allow)) (stream_lines rest))"
    using assms by (auto simp: ConvertStream_def Let_def split: option.splits)
  let ?s = "SerializeMetadata v m (new_FlatbufferSerializer v u allow)"
  have "allow_privileged ?s = allow" "contents [] allow ?s"
    using new_serializer_ok(1) [of allow v u]
    by (simp_all add: SerializeMetadata_def new_serializer_fields contents_def url_contents_def)
  then have "contents (stream_lines rest) allow sub"
    using foldl_ConvertFilter_contents [of ?s "stream_lines rest"] h(3)
    by (simp add: GetSerializedSubscription_contents)
  with h that show thesis by blast
qed

end
