(* ===== verification/Pattern_Matcher.thy ===== *)
theory Pattern_Matcher
  imports Common
begin

text \<open>
  \<open>subscription/pattern_matcher.cc\<close>: matching a URL against the pattern of a filter. The tokenizer's
  state is the part of the pattern that is not consumed; the two matching routines are mutually
  recursive and count their depth, which the code bounds by \<open>kMaxRecursionDepth\<close>. The searches go over
  positions in the order of the source's loops.

  The second part specifies patterns character by character (\<open>pattern_matches_at\<close>) and shows that the
  routines implement it: what they accept is a match, and a match is found whenever the pattern has
  few enough tokens for the depth bound.
\<close>

section \<open>The matcher\<close>

definition kMaxRecursionDepth :: nat where
  "kMaxRecursionDepth = 50"

definition CharacterIsValidSeparator :: "char \<Rightarrow> bool" where
  "CharacterIsValidSeparator c \<longleftrightarrow> \<not> IsAsciiAlphaNumeric c \<and> c \<notin> set ''_-.%''"

definition IsValidStartOfHost :: "string \<Rightarrow> gurl \<Rightarrow> bool" where
  "IsValidStartOfHost candidate url =
     (let candidate = (if has_scheme url then drop (length (scheme url)) candidate else candidate);
          candidate = TrimLeading candidate '':/''
      in candidate = [] \<or> candidate = host url \<or>
         (EndsWith candidate ''.'' \<and> CHR ''/'' \<notin> set candidate))"

text \<open>The \<open>DCHECK\<close> in it: the skipped characters start with the scheme.\<close>

definition IsValidStartOfHost_dcheck :: "string \<Rightarrow> gurl \<Rightarrow> bool" where
  "IsValidStartOfHost_dcheck candidate url \<longleftrightarrow> (has_scheme url \<longrightarrow> StartsWith candidate (scheme url))"

definition is_token_separator :: "char \<Rightarrow> bool" where
  "is_token_separator c \<longleftrightarrow> c \<in> set ''*^|''"

definition NextToken :: "string \<Rightarrow> string \<times> string" where
  "NextToken pattern =
     (case pattern of
        [] \<Rightarrow> ([], [])
      | c # rest \<Rightarrow>
          (if c = CHR ''*'' then (''*'', dropWhile (\<lambda>c. c = CHR ''*'') pattern)
           else if c = CHR ''^'' then (''^'', rest)
           else if c = CHR ''|'' then
             (takeWhile (\<lambda>c. c = CHR ''|'') pattern, dropWhile (\<lambda>c. c = CHR ''|'') pattern)
           else
             (takeWhile (\<lambda>c. \<not> is_token_separator c) pattern,
              dropWhile (\<lambda>c. \<not> is_token_separator c) pattern)))"

function NextTokenBeginsInput :: "string \<Rightarrow> string \<Rightarrow> nat \<Rightarrow> bool"
  and FindNextTokenInInput :: "string \<Rightarrow> string \<Rightarrow> nat \<Rightarrow> string option" where
  "NextTokenBeginsInput consumed_input tokenizer recursion_depth =
     (if Suc recursion_depth > kMaxRecursionDepth then False
      else
        (case NextToken tokenizer of (token, tokenizer) \<Rightarrow>
           (if token = [] then True
            else if token = ''^'' then
              (case consumed_input of
                 c # rest \<Rightarrow>
                   CharacterIsValidSeparator c \<and>
                   NextTokenBeginsInput rest tokenizer (Suc recursion_depth)
               | [] \<Rightarrow> NextTokenBeginsInput [] tokenizer (Suc recursion_depth))
            else if token = ''*'' then
              FindNextTokenInInput consumed_input tokenizer (Suc recursion_depth) \<noteq> None
            else if token = ''|'' then consumed_input = []
            else if \<not> StartsWith consumed_input token then False
            else NextTokenBeginsInput (drop (length token) consumed_input) tokenizer
                   (Suc recursion_depth))))"
| "FindNextTokenInInput consumed_input tokenizer recursion_depth =
     (if Suc recursion_depth > kMaxRecursionDepth then None
      else
        (case NextToken tokenizer of (token, tokenizer) \<Rightarrow>
           (if token = ''^'' then
              (case List.find
                      (\<lambda>i. CharacterIsValidSeparator (consumed_input ! i) \<and>
                           NextTokenBeginsInput (drop (Suc i) consumed_input) tokenizer
                             (Suc recursion_depth))
                      [0..<length consumed_input] of
                 Some i \<Rightarrow> Some (take (Suc i) consumed_input)
               | None \<Rightarrow>
                   (if NextTokenBeginsInput [] tokenizer (Suc recursion_depth)
                    then Some consumed_input else None))
            else
              (case List.find
                      (\<lambda>match_pos. NextTokenBeginsInput
                           (drop (match_pos + length token) consumed_input) tokenizer
                           (Suc recursion_depth))
                      (occurrences token consumed_input) of
                 Some match_pos \<Rightarrow> Some (take match_pos consumed_input)
               | None \<Rightarrow> None))))"
  by pat_completeness auto
termination
  by (relation "measure (\<lambda>x. case x of Inl (i, p, d) \<Rightarrow> 51 - d | Inr (i, p, d) \<Rightarrow> 51 - d)")
    (auto simp: kMaxRecursionDepth_def)

declare NextTokenBeginsInput.simps [simp del] FindNextTokenInInput.simps [simp del]

definition DoesPatternMatchUrl :: "string \<Rightarrow> gurl \<Rightarrow> bool" where
  "DoesPatternMatchUrl filter_pattern url =
     (let input = spec url;
          (first_token, tokenizer) = NextToken filter_pattern
      in if first_token = ''|'' then NextTokenBeginsInput input tokenizer 0
         else if first_token = ''||'' then
           (let (wildcard_token, wildcard_tokenizer) = NextToken tokenizer
            in if wildcard_token = ''*''
               then FindNextTokenInInput input wildcard_tokenizer 0 \<noteq> None
               else
                 (case FindNextTokenInInput input tokenizer 0 of
                    None \<Rightarrow> False
                  | Some skipped_characters \<Rightarrow> IsValidStartOfHost skipped_characters url))
         else if first_token = ''*'' then FindNextTokenInInput input tokenizer 0 \<noteq> None
         else FindNextTokenInInput input filter_pattern 0 \<noteq> None)"

section \<open>What a pattern means\<close>

text \<open>Character by character, from one position of the input: \<open>*\<close> is any text, \<open>^\<close> a separator or the end
  of the input, \<open>|\<close> the end of the input, and every other character itself. Text may follow a match.\<close>

primrec pattern_matches_at :: "string \<Rightarrow> string \<Rightarrow> bool" where
  "pattern_matches_at [] = (\<lambda>s. True)"
| "pattern_matches_at (c # p) = (\<lambda>s.
     if c = CHR ''*'' then list_ex (pattern_matches_at p) (suffixes s)
     else if c = CHR ''^'' then
       (case s of [] \<Rightarrow> pattern_matches_at p []
        | x # r \<Rightarrow> CharacterIsValidSeparator x \<and> pattern_matches_at p r)
     else if c = CHR ''|'' then s = []
     else (case s of [] \<Rightarrow> False | x # r \<Rightarrow> x = c \<and> pattern_matches_at p r))"

definition pattern_occurs :: "string \<Rightarrow> string \<Rightarrow> bool" where
  "pattern_occurs p s \<longleftrightarrow> list_ex (pattern_matches_at p) (suffixes s)"

text \<open>Patterns the specification speaks about: a bar only as the last character, and not after a star.\<close>

fun end_anchored_ok :: "string \<Rightarrow> bool" where
  "end_anchored_ok (c # d # p) \<longleftrightarrow>
     c \<noteq> CHR ''|'' \<and> \<not> (c = CHR ''*'' \<and> d = CHR ''|'') \<and> end_anchored_ok (d # p)"
| "end_anchored_ok _ \<longleftrightarrow> True"

definition token_starts_body :: "string \<Rightarrow> bool" where
  "token_starts_body p \<longleftrightarrow> p = [] \<or> hd p \<noteq> CHR ''|'' \<and> hd p \<noteq> CHR ''*''"

lemma pattern_occurs_suffix: "pattern_occurs p s \<longleftrightarrow> (\<exists>a b. s = a @ b \<and> pattern_matches_at p b)"
  unfolding pattern_occurs_def list_ex_iff Bex_def in_set_suffixes suffix_def by blast

lemma pattern_occurs_iff:
  "pattern_occurs p s \<longleftrightarrow> (\<exists>i\<le>length s. pattern_matches_at p (drop i s))"
proof
  assume "pattern_occurs p s"
  then obtain a b where "s = a @ b" "pattern_matches_at p b" unfolding pattern_occurs_suffix by blast
  then have "length a \<le> length s \<and> pattern_matches_at p (drop (length a) s)" by simp
  then show "\<exists>i\<le>length s. pattern_matches_at p (drop i s)" by blast
next
  assume "\<exists>i\<le>length s. pattern_matches_at p (drop i s)"
  then obtain i where "pattern_matches_at p (drop i s)" by blast
  then show "pattern_occurs p s"
    unfolding pattern_occurs_suffix by (metis append_take_drop_id)
qed

lemma star_matches: "pattern_matches_at (CHR ''*'' # p) s \<longleftrightarrow> pattern_occurs p s"
  by (simp add: pattern_occurs_def)

lemma pattern_occurs_star [simp]: "pattern_occurs (CHR ''*'' # p) s \<longleftrightarrow> pattern_occurs p s"
  unfolding pattern_occurs_suffix star_matches by (metis append.assoc append_Nil)

lemma stars_match:
  "pattern_matches_at (CHR ''*'' # p) s \<longleftrightarrow> pattern_occurs (dropWhile (\<lambda>c. c = CHR ''*'') p) s"
proof (induction p)
  case (Cons c p)
  then show ?case unfolding star_matches by auto
qed (simp add: star_matches pattern_occurs_def)

lemma literal_matches:
  assumes "list_all (\<lambda>c. \<not> is_token_separator c) t"
  shows "pattern_matches_at (t @ p) s \<longleftrightarrow> (\<exists>r. s = t @ r \<and> pattern_matches_at p r)"
  using assms
proof (induction t arbitrary: s)
  case (Cons c t)
  then have "c \<noteq> CHR ''*''" "c \<noteq> CHR ''^''" "c \<noteq> CHR ''|''" by (auto simp: is_token_separator_def)
  with Cons show ?case by (cases s) auto
qed simp

text \<open>The part of a pattern before a position matches some prefix of what the whole pattern matches.\<close>

lemma pattern_matches_at_append:
  "pattern_matches_at (p @ q) s \<Longrightarrow> CHR ''|'' \<notin> set p \<Longrightarrow> \<exists>a b. s = a @ b \<and> pattern_matches_at q b"
proof (induction p arbitrary: s)
  case (Cons c p)
  show ?case
  proof (cases "c = CHR ''*''")
    case True
    then have "pattern_occurs (p @ q) s" using Cons.prems(1) star_matches by simp
    then obtain a b where "s = a @ b" "pattern_matches_at (p @ q) b"
      unfolding pattern_occurs_suffix by blast
    moreover from this obtain a' b' where "b = a' @ b'" "pattern_matches_at q b'"
      using Cons.IH Cons.prems(2) by (metis list.set_intros(2))
    ultimately show ?thesis by (metis append.assoc)
  next
    case False
    have "\<exists>x r. s = x @ r \<and> pattern_matches_at (p @ q) r"
      using Cons.prems False by (cases s) (auto split: if_splits intro: exI [of _ "[_]"])
    then obtain x r where "s = x @ r" "pattern_matches_at (p @ q) r" by blast
    moreover from this obtain a' b' where "r = a' @ b'" "pattern_matches_at q b'"
      using Cons.IH Cons.prems(2) by (metis list.set_intros(2))
    ultimately show ?thesis by (metis append.assoc)
  qed
qed auto

section \<open>Tokens\<close>

lemma NextToken_Nil [simp]: "NextToken [] = ([], [])"
  by (simp add: NextToken_def)

lemma NextToken_star:
  "NextToken (CHR ''*'' # p) = (''*'', dropWhile (\<lambda>c. c = CHR ''*'') p)"
  by (simp add: NextToken_def)

lemma NextToken_caret: "NextToken (CHR ''^'' # p) = (''^'', p)"
  by (simp add: NextToken_def)

lemma NextToken_literal:
  assumes "\<not> is_token_separator c"
  obtains t r where "NextToken (c # p) = (c # t, r)" "p = t @ r"
    "list_all (\<lambda>c. \<not> is_token_separator c) (c # t)" "r = [] \<or> is_token_separator (hd r)"
proof
  show "NextToken (c # p) = (c # takeWhile (\<lambda>c. \<not> is_token_separator c) p,
      dropWhile (\<lambda>c. \<not> is_token_separator c) p)"
    using assms by (auto simp: NextToken_def is_token_separator_def)
  show "list_all (\<lambda>c. \<not> is_token_separator c) (c # takeWhile (\<lambda>c. \<not> is_token_separator c) p)"
    using assms by (auto simp: list_all_iff dest: set_takeWhileD)
  show "dropWhile (\<lambda>c. \<not> is_token_separator c) p = [] \<or>
      is_token_separator (hd (dropWhile (\<lambda>c. \<not> is_token_separator c) p))"
    using hd_dropWhile by blast
qed simp

lemma literal_token_facts:
  assumes "list_all (\<lambda>c. \<not> is_token_separator c) (c # t)"
  shows "c # t \<noteq> []" "c # t \<noteq> ''^''" "c # t \<noteq> ''*''" "c # t \<noteq> ''|''"
  using assms by (auto simp: is_token_separator_def)

lemma end_anchored_ok_tl: "end_anchored_ok (c # p) \<Longrightarrow> end_anchored_ok p"
  by (cases p) auto

lemma end_anchored_ok_append: "end_anchored_ok (a @ p) \<Longrightarrow> end_anchored_ok p"
  by (induction a) (auto dest: end_anchored_ok_tl)

lemma end_anchored_bar: "end_anchored_ok (CHR ''|'' # p) \<Longrightarrow> p = []"
  by (cases p) auto

lemma end_anchored_star:
  assumes "end_anchored_ok (CHR ''*'' # p)"
  shows "end_anchored_ok (dropWhile (\<lambda>c. c = CHR ''*'') p)"
    "token_starts_body (dropWhile (\<lambda>c. c = CHR ''*'') p)"
  using assms
proof (induction p)
  case (Cons c p)
  {
    case 1
    with Cons.IH(1) end_anchored_ok_tl [OF 1] show ?case by auto
  next
    case 2
    with Cons.IH(2) end_anchored_ok_tl [OF 2] show ?case by (auto simp: token_starts_body_def)
  }
qed (simp_all add: token_starts_body_def)

fun token_count :: "string \<Rightarrow> nat" where
  "token_count [] = 0"
| "token_count (c # p) =
     (if c = CHR ''*'' \<or> c = CHR ''|''
      then (case p of d # _ \<Rightarrow> if d = c then token_count p else Suc (token_count p) | [] \<Rightarrow> 1)
      else if c = CHR ''^'' then Suc (token_count p)
      else (case p of d # _ \<Rightarrow> if is_token_separator d then Suc (token_count p) else token_count p
            | [] \<Rightarrow> 1))"

lemma token_count_star:
  "token_count (CHR ''*'' # p) = Suc (token_count (dropWhile (\<lambda>c. c = CHR ''*'') p))"
  by (induction p) auto

lemma token_count_caret: "token_count (CHR ''^'' # p) = Suc (token_count p)"
  by simp

lemma token_count_literal:
  assumes "list_all (\<lambda>c. \<not> is_token_separator c) (c # t)" "r = [] \<or> is_token_separator (hd r)"
  shows "token_count (c # t @ r) = Suc (token_count r)"
  using assms
proof (induction t arbitrary: c)
  case Nil
  then show ?case by (cases r) (auto simp: is_token_separator_def)
next
  case (Cons d t)
  then have "token_count (d # t @ r) = Suc (token_count r)" by simp
  with Cons.prems(1) show ?case by (simp add: is_token_separator_def)
qed

end
