(* ===== verification/Pattern_Spec.thy ===== *)
theory Pattern_Spec
  imports Pattern_Matcher
begin

text \<open>
  The pattern matcher implements the specification of \<open>Pattern_Matcher\<close>: one equation per token for
  the two routines, then soundness (an accepted URL matches) and completeness up to the depth bound
  (\<open>Suc (token_count p) < kMaxRecursionDepth\<close>), by induction on the length of the pattern.
\<close>

abbreviation begins :: "string \<Rightarrow> string \<Rightarrow> nat \<Rightarrow> bool" where
  "begins \<equiv> NextTokenBeginsInput"

abbreviation finds :: "string \<Rightarrow> string \<Rightarrow> nat \<Rightarrow> string option" where
  "finds \<equiv> FindNextTokenInInput"

abbreviation unstar :: "string \<Rightarrow> string" where
  "unstar \<equiv> dropWhile (\<lambda>c. c = CHR ''*'')"

section \<open>One token at a time\<close>

lemma begins_Nil: "begins s [] d \<longleftrightarrow> d < 50"
  by (simp add: NextTokenBeginsInput.simps [of s "[]"] kMaxRecursionDepth_def)

lemma begins_star: "begins s (CHR ''*'' # p) d \<longleftrightarrow> d < 50 \<and> finds s (unstar p) (Suc d) \<noteq> None"
  by (simp add: NextTokenBeginsInput.simps [of s "CHR ''*'' # p"] kMaxRecursionDepth_def NextToken_star)

lemma begins_caret:
  "begins s (CHR ''^'' # p) d \<longleftrightarrow> d < 50 \<and>
     (case s of [] \<Rightarrow> begins [] p (Suc d) | c # r \<Rightarrow> CharacterIsValidSeparator c \<and> begins r p (Suc d))"
  by (simp add: NextTokenBeginsInput.simps [of s "CHR ''^'' # p"] kMaxRecursionDepth_def NextToken_caret
      split: list.splits)

lemma begins_bar: "begins s ''|'' d \<longleftrightarrow> d < 50 \<and> s = []"
  by (simp add: NextTokenBeginsInput.simps [of s "''|''"] kMaxRecursionDepth_def NextToken_def)

lemma begins_literal:
  assumes "NextToken p = (t, r)" "t \<noteq> []" "t \<noteq> ''^''" "t \<noteq> ''*''" "t \<noteq> ''|''"
  shows "begins s p d \<longleftrightarrow> d < 50 \<and> StartsWith s t \<and> begins (drop (length t) s) r (Suc d)"
  using assms by (simp add: NextTokenBeginsInput.simps [of s p] kMaxRecursionDepth_def)

lemma find_option_iff:
  "(case List.find P xs of None \<Rightarrow> None | Some x \<Rightarrow> Some (f x)) = Some y \<longleftrightarrow>
     (\<exists>x. List.find P xs = Some x \<and> y = f x)"
  by (auto split: option.splits)

lemma finds_literal:
  assumes "NextToken p = (t, r)" "t \<noteq> ''^''"
  shows "finds s p d = (if d < 50
    then (case List.find (\<lambda>i. begins (drop (i + length t) s) r (Suc d)) (occurrences t s) of
            None \<Rightarrow> None | Some i \<Rightarrow> Some (take i s))
    else None)"
  using assms by (simp add: FindNextTokenInInput.simps [of s p] kMaxRecursionDepth_def)

lemma finds_caret:
  "finds s (CHR ''^'' # p) d = (if d < 50
    then (case List.find (\<lambda>i. CharacterIsValidSeparator (s ! i) \<and> begins (drop (Suc i) s) p (Suc d))
                 [0..<length s] of
            Some i \<Rightarrow> Some (take (Suc i) s)
          | None \<Rightarrow> if begins [] p (Suc d) then Some s else None)
    else None)"
  by (simp add: FindNextTokenInInput.simps [of s "CHR ''^'' # p"] kMaxRecursionDepth_def NextToken_caret)

text \<open>The four shapes of a pattern that a routine is called with.\<close>

lemma pattern_cases:
  assumes "end_anchored_ok p"
  obtains (nil) "p = []"
  | (star) q where "p = CHR ''*'' # q"
  | (caret) q where "p = CHR ''^'' # q"
  | (bar) "p = ''|''"
  | (lit) c t r where "p = (c # t) @ r" "NextToken p = (c # t, r)"
      "list_all (\<lambda>c. \<not> is_token_separator c) (c # t)" "r = [] \<or> is_token_separator (hd r)"
proof (cases p)
  case (Cons c q)
  consider "c = CHR ''*''" | "c = CHR ''^''" | "c = CHR ''|''" | "\<not> is_token_separator c"
    by (auto simp: is_token_separator_def)
  then show thesis
  proof cases
    case 3
    then have "q = []" using assms Cons end_anchored_bar by simp
    with 3 Cons bar show thesis by simp
  next
    case 4
    then obtain t r where "NextToken (c # q) = (c # t, r)" "q = t @ r"
      "list_all (\<lambda>c. \<not> is_token_separator c) (c # t)" "r = [] \<or> is_token_separator (hd r)"
      by (rule NextToken_literal)
    with Cons lit show thesis by simp
  qed (use Cons star caret in simp_all)
qed (use nil in simp)

section \<open>Soundness\<close>

definition skip_length :: "string \<Rightarrow> nat \<Rightarrow> nat" where
  "skip_length p i = (if p \<noteq> [] \<and> hd p = CHR ''^'' then Suc i else i)"

definition found_at :: "string \<Rightarrow> string \<Rightarrow> string \<Rightarrow> bool" where
  "found_at p s k \<longleftrightarrow> (\<exists>i\<le>length s. pattern_matches_at p (drop i s) \<and> k = take (skip_length p i) s)"

lemma matcher_sound:
  "end_anchored_ok p \<Longrightarrow>
     (begins s p d \<longrightarrow> pattern_matches_at p s) \<and>
     (token_starts_body p \<longrightarrow> finds s p d = Some k \<longrightarrow> found_at p s k)"
proof (induction "length p" arbitrary: p s d k rule: less_induct)
  case less
  from less.prems show ?case
  proof (cases rule: pattern_cases)
    case nil
    have "finds s [] d = Some k \<Longrightarrow> \<exists>i\<le>length s. k = take i s"
      by (subst (asm) finds_literal) (auto simp: set_occurrences dest!: find_SomeD split: if_splits option.splits)
    with nil show ?thesis by (auto simp: found_at_def skip_length_def)
  next
    case (star q)
    note e = end_anchored_star [OF less.prems [unfolded star]]
    have "pattern_matches_at p s" if "begins s p d"
    proof -
      from that obtain k' where "finds s (unstar q) (Suc d) = Some k'"
        unfolding star begins_star by blast
      with less.hyps [of "unstar q"] e have "found_at (unstar q) s k'"
        by (simp add: star length_dropWhile_le le_imp_less_Suc)
      then have "pattern_occurs (unstar q) s" by (auto simp: found_at_def pattern_occurs_iff)
      then show ?thesis unfolding star stars_match .
    qed
    then show ?thesis by (simp add: star token_starts_body_def)
  next
    case (caret q)
    have q: "end_anchored_ok q" using less.prems caret end_anchored_ok_tl by simp
    have IH: "begins s' q d' \<Longrightarrow> pattern_matches_at q s'" for s' d'
      using less.hyps [of q s' d'] q caret by simp
    have 1: "pattern_matches_at p s" if "begins s p d"
      using that IH by (auto simp: caret begins_caret split: list.splits)
    have 2: "found_at p s k" if f: "finds s p d = Some k"
    proof (cases "List.find (\<lambda>i. CharacterIsValidSeparator (s ! i) \<and> begins (drop (Suc i) s) q (Suc d))
        [0..<length s]")
      case None
      with f have "begins [] q (Suc d)" "k = s"
        unfolding caret finds_caret by (auto split: if_splits)
      then have "pattern_matches_at p (drop (length s) s) \<and> k = take (skip_length p (length s)) s"
        using IH by (simp add: caret skip_length_def)
      then show ?thesis unfolding found_at_def by blast
    next
      case (Some i)
      with f have k: "k = take (Suc i) s" unfolding caret finds_caret by (auto split: if_splits)
      from find_SomeD [OF Some] have i: "i < length s" "CharacterIsValidSeparator (s ! i)"
        "begins (drop (Suc i) s) q (Suc d)" by auto
      have "pattern_matches_at p (drop i s)"
        using i IH by (simp add: caret Cons_nth_drop_Suc [symmetric])
      moreover have "k = take (skip_length p i) s" using k by (simp add: caret skip_length_def)
      ultimately show ?thesis unfolding found_at_def using i(1) less_imp_le by blast
    qed
    from 1 2 show ?thesis by blast
  next
    case bar
    then show ?thesis by (simp add: begins_bar token_starts_body_def)
  next
    case (lit c t r)
    have r: "end_anchored_ok r" using less.prems lit(1) end_anchored_ok_append by blast
    have IH: "begins s' r d' \<Longrightarrow> pattern_matches_at r s'" for s' d'
      using less.hyps [of r s' d'] r lit(1) by simp
    note nf = literal_token_facts [OF lit(3)]
    note m = literal_matches [OF lit(3)]
    have 1: "pattern_matches_at p s" if "begins s p d"
    proof -
      from that have "StartsWith s (c # t)" "begins (drop (length (c # t)) s) r (Suc d)"
        using begins_literal [OF lit(2) nf] by blast+
      then show ?thesis unfolding lit(1) m using IH by (auto simp: StartsWith_iff)
    qed
    have 2: "found_at p s k" if "finds s p d = Some k"
    proof -
      from that obtain i where i: "List.find (\<lambda>i. begins (drop (i + length (c # t)) s) r (Suc d))
          (occurrences (c # t) s) = Some i" "k = take i s"
        unfolding finds_literal [OF lit(2) nf(2)] by (auto split: if_splits option.splits)
      from find_SomeD [OF i(1)] obtain r' where o: "i \<le> length s" "drop i s = (c # t) @ r'"
        "begins (drop (i + length (c # t)) s) r (Suc d)"
        by (auto simp: set_occurrences)
      have "drop (i + length (c # t)) s = r'"
        using o(2) by (metis add.commute append_eq_conv_conj drop_drop)
      then have "pattern_matches_at p (drop i s)"
        unfolding lit(1) m using o IH by auto
      moreover have "skip_length p i = i"
        using lit(1,3) by (auto simp: skip_length_def is_token_separator_def)
      ultimately show ?thesis using i(2) o(1) by (auto simp: found_at_def)
    qed
    from 1 2 show ?thesis by blast
  qed
qed

lemmas begins_sound = matcher_sound [THEN conjunct1, rule_format]
lemmas finds_sound = matcher_sound [THEN conjunct2, rule_format]

section \<open>Completeness below the depth bound\<close>

lemma occurrences_complete: "drop i s = t @ r \<Longrightarrow> i \<le> length s \<Longrightarrow> i \<in> set (occurrences t s)"
  by (auto simp: set_occurrences)

lemma matcher_complete:
  "end_anchored_ok p \<Longrightarrow> Suc (d + token_count p) < 50 \<Longrightarrow>
     (pattern_matches_at p s \<longrightarrow> begins s p d) \<and>
     (token_starts_body p \<longrightarrow> pattern_occurs p s \<longrightarrow> finds s p d \<noteq> None)"
proof (induction "length p" arbitrary: p s d rule: less_induct)
  case less
  from less.prems(1) show ?case
  proof (cases rule: pattern_cases)
    case nil
    have "finds s [] d \<noteq> None"
      using less.prems(2) nil
      by (subst finds_literal)
        (auto simp: begins_Nil occurrences_def find_None_iff split: option.splits simp del: upt_Suc)
    with nil less.prems(2) show ?thesis by (simp add: begins_Nil)
  next
    case (star q)
    note e = end_anchored_star [OF less.prems(1) [unfolded star]]
    have d: "Suc (Suc d + token_count (unstar q)) < 50"
      using less.prems(2) token_count_star [of q] unfolding star by simp
    have "begins s p d" if "pattern_matches_at p s"
    proof -
      have "pattern_occurs (unstar q) s" using that unfolding star stars_match .
      with less.hyps [of "unstar q" "Suc d" s] e d have "finds s (unstar q) (Suc d) \<noteq> None"
        by (simp add: star length_dropWhile_le le_imp_less_Suc)
      then show ?thesis unfolding star begins_star using d by simp
    qed
    then show ?thesis by (simp add: star token_starts_body_def)
  next
    case (caret q)
    have q: "end_anchored_ok q" using less.prems(1) caret end_anchored_ok_tl by simp
    have d: "Suc (Suc d + token_count q) < 50"
      using less.prems(2) token_count_caret [of q] unfolding caret by simp
    have IH: "pattern_matches_at q s' \<Longrightarrow> begins s' q (Suc d)" for s'
      using less.hyps [of q "Suc d" s'] q d caret by simp
    have 1: "begins s p d" if "pattern_matches_at p s"
      using that IH d by (auto simp: caret begins_caret split: list.splits)
    have 2: "finds s p d \<noteq> None" if "pattern_occurs p s"
    proof -
      from that obtain i where i: "i \<le> length s" "pattern_matches_at p (drop i s)"
        unfolding pattern_occurs_iff by blast
      show ?thesis
      proof (cases "i = length s")
        case True
        with i IH have "begins [] q (Suc d)" by (simp add: caret)
        then show ?thesis using d unfolding caret finds_caret by (auto split: option.splits)
      next
        case False
        with i have "drop i s = s ! i # drop (Suc i) s" "i < length s" by (simp_all add: Cons_nth_drop_Suc)
        with i(2) IH have "CharacterIsValidSeparator (s ! i)" "begins (drop (Suc i) s) q (Suc d)"
          by (simp_all add: caret)
        with \<open>i < length s\<close> have "List.find (\<lambda>i. CharacterIsValidSeparator (s ! i) \<and>
            begins (drop (Suc i) s) q (Suc d)) [0..<length s] \<noteq> None"
          unfolding find_map_option_any by auto
        then show ?thesis using d unfolding caret finds_caret by (auto split: option.splits)
      qed
    qed
    from 1 2 show ?thesis by blast
  next
    case bar
    then show ?thesis using less.prems(2) by (simp add: begins_bar token_starts_body_def)
  next
    case (lit c t r)
    have r: "end_anchored_ok r" using less.prems(1) lit(1) end_anchored_ok_append by blast
    have d: "Suc (Suc d + token_count r) < 50"
      using less.prems(2) token_count_literal [OF lit(3,4)] unfolding lit(1) by simp
    have IH: "pattern_matches_at r s' \<Longrightarrow> begins s' r (Suc d)" for s'
      using less.hyps [of r "Suc d" s'] r d lit(1) by simp
    note nf = literal_token_facts [OF lit(3)]
    note m = literal_matches [OF lit(3)]
    have 1: "begins s p d" if "pattern_matches_at p s"
    proof -
      from that obtain r' where "s = (c # t) @ r'" "pattern_matches_at r r'" unfolding lit(1) m by blast
      then show ?thesis unfolding begins_literal [OF lit(2) nf] using IH d by simp
    qed
    have 2: "finds s p d \<noteq> None" if "pattern_occurs p s"
    proof -
      from that obtain i where i: "i \<le> length s" "pattern_matches_at p (drop i s)"
        unfolding pattern_occurs_iff by blast
      then obtain r' where r': "drop i s = (c # t) @ r'" "pattern_matches_at r r'" unfolding lit(1) m by blast
      have "drop (i + length (c # t)) s = r'"
        using r'(1) by (metis add.commute append_eq_conv_conj drop_drop)
      then have "begins (drop (i + length (c # t)) s) r (Suc d)" using r'(2) IH by simp
      with occurrences_complete [OF r'(1) i(1)]
      have "List.find (\<lambda>i. begins (drop (i + length (c # t)) s) r (Suc d)) (occurrences (c # t) s) \<noteq> None"
        unfolding find_map_option_any by blast
      then show ?thesis using d unfolding finds_literal [OF lit(2) nf(2)] by (auto split: option.splits)
    qed
    from 1 2 show ?thesis by blast
  qed
qed

lemmas begins_complete = matcher_complete [THEN conjunct1, rule_format]
lemmas finds_complete = matcher_complete [THEN conjunct2, rule_format]

section \<open>Exactness: which match is found\<close>

lemma begins_iff:
  "end_anchored_ok p \<Longrightarrow> Suc (d + token_count p) < 50 \<Longrightarrow> begins s p d \<longleftrightarrow> pattern_matches_at p s"
  using begins_sound begins_complete by blast

lemma find_filter: "List.find P (filter Q xs) = List.find (\<lambda>x. Q x \<and> P x) xs"
  by (induction xs) auto

lemma find_append: "List.find P (xs @ ys) = (case List.find P xs of Some x \<Rightarrow> Some x | None \<Rightarrow> List.find P ys)"
  by (induction xs) auto

definition first_match :: "string \<Rightarrow> string \<Rightarrow> nat option" where
  "first_match p s = List.find (\<lambda>i. pattern_matches_at p (drop i s)) [0..<Suc (length s)]"

lemma first_match_None: "first_match p s = None \<longleftrightarrow> \<not> pattern_occurs p s"
  unfolding first_match_def pattern_occurs_iff find_None_iff set_upt by (auto simp: less_Suc_eq_le)

lemma finds_first_match:
  assumes "end_anchored_ok p" "token_starts_body p" "Suc (d + token_count p) < 50"
  shows "finds s p d = map_option (\<lambda>i. take (skip_length p i) s) (first_match p s)"
  using assms(1)
proof (cases rule: pattern_cases)
  case nil
  have "[0..<Suc (length s)] = 0 # [Suc 0..<Suc (length s)]" by (rule upt_conv_Cons) simp
  then show ?thesis
    using assms(3) nil
    by (simp add: finds_literal [of "[]" "[]" "[]"] first_match_def skip_length_def begins_Nil
        occurrences_def del: upt_Suc)
next
  case (caret q)
  have q: "end_anchored_ok q" using assms(1) caret end_anchored_ok_tl by simp
  have d: "Suc (Suc d + token_count q) < 50"
    using assms(3) token_count_caret [of q] unfolding caret by simp
  note b = begins_iff [OF q d]
  have cong: "List.find (\<lambda>i. CharacterIsValidSeparator (s ! i) \<and> pattern_matches_at q (drop (Suc i) s))
      [0..<length s] = List.find (\<lambda>i. pattern_matches_at p (drop i s)) [0..<length s]"
    by (intro find_cong) (auto simp: caret Cons_nth_drop_Suc [symmetric])
  show ?thesis
    using d unfolding caret finds_caret b first_match_def upt_Suc_append [OF le0] find_append
      cong [unfolded caret]
    by (auto simp: skip_length_def split: option.splits)
next
  case (lit c t r)
  have r: "end_anchored_ok r" using assms(1) lit(1) end_anchored_ok_append by blast
  have d: "Suc (Suc d + token_count r) < 50"
    using assms(3) token_count_literal [OF lit(3,4)] unfolding lit(1) by simp
  note nf = literal_token_facts [OF lit(3)]
  have cong: "List.find (\<lambda>i. StartsWith (drop i s) (c # t) \<and> pattern_matches_at r (drop (i + length (c # t)) s))
      [0..<Suc (length s)] = List.find (\<lambda>i. pattern_matches_at p (drop i s)) [0..<Suc (length s)]"
  proof (intro find_cong refl)
    fix i
    have "pattern_matches_at r (drop (i + length (c # t)) s) \<longleftrightarrow> pattern_matches_at r x"
      if "drop i s = (c # t) @ x" for x
      using that by (metis add.commute append_eq_conv_conj drop_drop)
    then show "(StartsWith (drop i s) (c # t) \<and> pattern_matches_at r (drop (i + length (c # t)) s))
        = pattern_matches_at p (drop i s)"
      unfolding lit(1) literal_matches [OF lit(3)] StartsWith_iff by blast
  qed
  have sk: "skip_length p i = i" for i
    using lit(1,3) by (auto simp: skip_length_def is_token_separator_def)
  show ?thesis
    using d unfolding finds_literal [OF lit(2) nf(2)] begins_iff [OF r d] occurrences_def find_filter
      cong first_match_def sk
    by (auto split: option.splits)
qed (use assms(2) in \<open>auto simp: token_starts_body_def\<close>)

section \<open>Whole patterns\<close>

definition pattern_body :: "string \<Rightarrow> string" where
  "pattern_body p = dropWhile (\<lambda>c. c = CHR ''|'') p"

definition leading_bars :: "string \<Rightarrow> nat" where
  "leading_bars p = length (takeWhile (\<lambda>c. c = CHR ''|'') p)"

text \<open>At most two leading bars, and a body the specification speaks about.\<close>

definition well_formed_pattern :: "string \<Rightarrow> bool" where
  "well_formed_pattern p \<longleftrightarrow> leading_bars p \<le> 2 \<and> end_anchored_ok (pattern_body p)"

text \<open>One bar anchors at the start of the URL. Two bars anchor at the host: the skipped text before the
  first place where the body matches must be a valid start of the host, unless the body starts with a
  star. Otherwise the body may match anywhere.\<close>

definition pattern_spec :: "string \<Rightarrow> gurl \<Rightarrow> bool" where
  "pattern_spec p url =
     (let body = pattern_body p
      in if leading_bars p = 1 then pattern_matches_at body (spec url)
         else if leading_bars p = 2 \<and> \<not> StartsWith body ''*''
         then (case first_match body (spec url) of
                 None \<Rightarrow> False
               | Some i \<Rightarrow> IsValidStartOfHost (take (skip_length body i) (spec url)) url)
         else pattern_occurs body (spec url))"

lemma takeWhile_bars: "takeWhile (\<lambda>c. c = CHR ''|'') p = replicate (leading_bars p) (CHR ''|'')"
  unfolding leading_bars_def by (induction p) auto

lemma pattern_split: "p = replicate (leading_bars p) (CHR ''|'') @ pattern_body p"
  unfolding takeWhile_bars [symmetric] pattern_body_def by simp

lemma pattern_body_hd: "pattern_body p = [] \<or> hd (pattern_body p) \<noteq> CHR ''|''"
  unfolding pattern_body_def using hd_dropWhile [of "\<lambda>c. c = CHR ''|''" p] by blast

lemma NextToken_bars:
  assumes "0 < leading_bars p"
  shows "NextToken p = (replicate (leading_bars p) (CHR ''|''), pattern_body p)"
proof -
  from assms obtain q where p: "p = CHR ''|'' # q"
    by (cases p) (auto simp: leading_bars_def split: if_splits)
  have "NextToken p = (takeWhile (\<lambda>c. c = CHR ''|'') p, pattern_body p)"
    using p by (simp add: NextToken_def pattern_body_def)
  then show ?thesis by (simp only: takeWhile_bars)
qed

lemma no_bars_body: "leading_bars p = 0 \<Longrightarrow> pattern_body p = p"
  using pattern_split [of p] by simp

lemma NextToken_star_iff: "fst (NextToken p) = ''*'' \<longleftrightarrow> StartsWith p ''*''"
proof (cases p)
  case (Cons c q)
  have "takeWhile f (c # q) = ''*'' \<Longrightarrow> c = CHR ''*''" for f by (auto split: if_splits)
  then show ?thesis using Cons by (auto simp: NextToken_def)
qed simp

lemma token_count_replicate:
  "0 < n \<Longrightarrow> q = [] \<or> hd q \<noteq> CHR ''|'' \<Longrightarrow> token_count (replicate n (CHR ''|'') @ q) = Suc (token_count q)"
proof (induction n)
  case (Suc n)
  then show ?case by (cases n; cases q) auto
qed simp

lemma token_count_body: "token_count (pattern_body p) \<le> token_count p"
proof (cases "leading_bars p = 0")
  case False
  then show ?thesis
    using token_count_replicate [OF _ pattern_body_hd [of p], of "leading_bars p"] pattern_split [of p]
    by (metis bot_nat_0.not_eq_extremum le_add2 plus_1_eq_Suc)
qed (simp add: no_bars_body)

text \<open>The searches the entry point makes are for a body, with its leading stars removed.\<close>

definition search_body :: "string \<Rightarrow> string" where
  "search_body b = (if StartsWith b ''*'' then unstar b else b)"

lemma unstar_tl: "unstar (CHR ''*'' # q) = unstar q"
  by simp

lemma search_body_facts:
  assumes "end_anchored_ok b" "b = [] \<or> hd b \<noteq> CHR ''|''"
  shows "end_anchored_ok (search_body b)" "token_starts_body (search_body b)"
    "token_count (search_body b) \<le> token_count b" "pattern_occurs (search_body b) s = pattern_occurs b s"
proof -
  have "end_anchored_ok (search_body b) \<and> token_starts_body (search_body b) \<and>
    token_count (search_body b) \<le> token_count b \<and> pattern_occurs (search_body b) s = pattern_occurs b s"
  proof (cases "StartsWith b ''*''")
    case True
    then obtain q where b: "b = CHR ''*'' # q" by (auto simp: StartsWith_iff)
    note e = end_anchored_star [OF assms(1) [unfolded b]]
    have "pattern_occurs (unstar q) s = pattern_occurs (CHR ''*'' # q) s"
      using stars_match [of q s] star_matches [of q s] by simp
    then show ?thesis using e token_count_star [of q] True unfolding b by (simp add: search_body_def)
  next
    case False
    then have "b = [] \<or> hd b \<noteq> CHR ''*''" by (cases b) auto
    with False assms show ?thesis by (auto simp: search_body_def token_starts_body_def)
  qed
  then show "end_anchored_ok (search_body b)" "token_starts_body (search_body b)"
    "token_count (search_body b) \<le> token_count b" "pattern_occurs (search_body b) s = pattern_occurs b s"
    by blast+
qed

text \<open>The entry point with its tokens read off.\<close>

lemma DoesPatternMatchUrl_cases:
  assumes "leading_bars p \<le> 2"
  shows "DoesPatternMatchUrl p url =
    (let body = pattern_body p
     in if leading_bars p = 1 then begins (spec url) body 0
        else if leading_bars p = 2 \<and> \<not> StartsWith body ''*''
        then (case finds (spec url) body 0 of
                None \<Rightarrow> False | Some k \<Rightarrow> IsValidStartOfHost k url)
        else finds (spec url) (search_body body) 0 \<noteq> None)"
proof -
  have st: "NextToken (CHR ''*'' # q) = (''*'', unstar q)" for q by (rule NextToken_star)
  consider "leading_bars p = 0" | "leading_bars p = 1" | "leading_bars p = 2" using assms by linarith
  then show ?thesis
  proof cases
    case 1
    then have b: "pattern_body p = p" "p = [] \<or> hd p \<noteq> CHR ''|''"
      using no_bars_body pattern_body_hd [of p] by simp_all
    show ?thesis
    proof (cases "StartsWith p ''*''")
      case True
      then obtain q where "p = CHR ''*'' # q" by (auto simp: StartsWith_iff)
      then show ?thesis using 1 b by (simp add: DoesPatternMatchUrl_def st search_body_def)
    next
      case False
      have "fst (NextToken p) \<noteq> ''|''" "fst (NextToken p) \<noteq> ''||''"
        using b(2) by (cases p; auto simp: NextToken_def split: if_splits)+
      moreover have "fst (NextToken p) \<noteq> ''*''" using False NextToken_star_iff by blast
      ultimately show ?thesis
        using 1 b False by (simp add: DoesPatternMatchUrl_def split_beta search_body_def)
    qed
  next
    case 2
    then have "NextToken p = (''|'', pattern_body p)" using NextToken_bars [of p] by simp
    then show ?thesis using 2 by (simp add: DoesPatternMatchUrl_def)
  next
    case 3
    then have nt: "NextToken p = (''||'', pattern_body p)"
      using NextToken_bars [of p] by (simp add: numeral_2_eq_2)
    show ?thesis
    proof (cases "StartsWith (pattern_body p) ''*''")
      case True
      then obtain q where q: "pattern_body p = CHR ''*'' # q" by (auto simp: StartsWith_iff)
      then show ?thesis using 3 nt by (simp add: DoesPatternMatchUrl_def st search_body_def)
    next
      case False
      then have "fst (NextToken (pattern_body p)) \<noteq> ''*''" using NextToken_star_iff by blast
      then show ?thesis using 3 nt False by (simp add: DoesPatternMatchUrl_def split_beta)
    qed
  qed
qed

lemma host_body_starts:
  "\<not> StartsWith (pattern_body p) ''*'' \<Longrightarrow> token_starts_body (pattern_body p)"
  using pattern_body_hd [of p] by (cases "pattern_body p") (auto simp: token_starts_body_def)

lemma DoesPatternMatchUrl_spec:
  assumes "well_formed_pattern p" "token_count p \<le> 48"
  shows "DoesPatternMatchUrl p url \<longleftrightarrow> pattern_spec p url"
proof -
  define b where "b = pattern_body p"
  have w: "leading_bars p \<le> 2" "end_anchored_ok b" using assms(1) by (simp_all add: well_formed_pattern_def b_def)
  have hd: "b = [] \<or> hd b \<noteq> CHR ''|''" unfolding b_def by (rule pattern_body_hd)
  have tc: "Suc (0 + token_count b) < 50" using assms(2) token_count_body [of p] by (simp add: b_def)
  note sb = search_body_facts [OF w(2) hd]
  have tc': "Suc (0 + token_count (search_body b)) < 50" using tc sb(3) by simp
  have 1: "begins (spec url) b 0 \<longleftrightarrow> pattern_matches_at b (spec url)" by (rule begins_iff [OF w(2) tc])
  have 2: "finds (spec url) (search_body b) 0 \<noteq> None \<longleftrightarrow> pattern_occurs b (spec url)"
    unfolding finds_first_match [OF sb(1,2) tc'] using first_match_None sb(4) by auto
  have 3: "finds (spec url) b 0 = map_option (\<lambda>i. take (skip_length b i) (spec url)) (first_match b (spec url))"
    if "\<not> StartsWith b ''*''"
    using finds_first_match [OF w(2) _ tc] host_body_starts that by (simp add: b_def)
  show ?thesis
    unfolding DoesPatternMatchUrl_cases [OF w(1)] pattern_spec_def Let_def b_def [symmetric]
    using 1 2 3 by (auto split: option.splits)
qed

text \<open>Without the bound, what is accepted still matches somewhere, and at the anchor.\<close>

definition pattern_accepts :: "string \<Rightarrow> gurl \<Rightarrow> bool" where
  "pattern_accepts p url =
     (let body = pattern_body p
      in if leading_bars p = 1 then pattern_matches_at body (spec url)
         else if leading_bars p = 2 \<and> \<not> StartsWith body ''*''
         then list_ex (\<lambda>i. pattern_matches_at body (drop i (spec url)) \<and>
                IsValidStartOfHost (take (skip_length body i) (spec url)) url) [0..<Suc (length (spec url))]
         else pattern_occurs body (spec url))"

lemma DoesPatternMatchUrl_sound:
  assumes "well_formed_pattern p" "DoesPatternMatchUrl p url"
  shows "pattern_accepts p url"
proof -
  define b where "b = pattern_body p"
  have w: "leading_bars p \<le> 2" "end_anchored_ok b" using assms(1) by (simp_all add: well_formed_pattern_def b_def)
  have hd: "b = [] \<or> hd b \<noteq> CHR ''|''" unfolding b_def by (rule pattern_body_hd)
  note sb = search_body_facts [OF w(2) hd]
  note m = assms(2) [unfolded DoesPatternMatchUrl_cases [OF w(1)] Let_def b_def [symmetric]]
  consider "leading_bars p = 1" | (host) "leading_bars p = 2" "\<not> StartsWith b ''*''"
    | (any) "leading_bars p \<noteq> 1" "\<not> (leading_bars p = 2 \<and> \<not> StartsWith b ''*'')" by blast
  then show ?thesis
  proof cases
    case 1
    then show ?thesis using m begins_sound [OF w(2)] by (simp add: pattern_accepts_def b_def)
  next
    case host
    then obtain k where k: "finds (spec url) b 0 = Some k" "IsValidStartOfHost k url"
      using m by (auto split: option.splits)
    have "found_at b (spec url) k" using finds_sound [OF w(2) _ k(1)] host_body_starts host(2) by (simp add: b_def)
    then show ?thesis
      using host k(2) unfolding pattern_accepts_def Let_def b_def [symmetric] found_at_def list_ex_iff
      by (auto simp: less_Suc_eq_le simp del: upt_Suc)
  next
    case any
    then obtain k where "finds (spec url) (search_body b) 0 = Some k" using m by auto
    then have "found_at (search_body b) (spec url) k" using finds_sound [OF sb(1)] sb(2) by blast
    then have "pattern_occurs b (spec url)" using sb(4) by (auto simp: found_at_def pattern_occurs_iff)
    then show ?thesis using any unfolding pattern_accepts_def Let_def b_def [symmetric] by auto
  qed
qed

end
