(* ===== verification/Domain_Splitter.thy ===== *)
theory Domain_Splitter
  imports Schema
begin

text \<open>
  \<open>subscription/domain_splitter.cc\<close>: a domain, then what follows each of its dots. A piece is a view
  into the caller's string, and the caller passes its \<open>data()\<close> on as a C string, which runs to the end
  of that string: every result carries both. The position \<open>npos\<close> is the length of the domain.
\<close>

section \<open>The splitter\<close>

record DomainSplitter =
  ds_domain :: string
  ds_trailing :: string
  ds_dot_pos :: nat

definition new_DomainSplitter :: "string \<Rightarrow> DomainSplitter" where
  "new_DomainSplitter domain =
     (let lead = TrimLeading domain ''.''; trimmed = TrimTrailing lead ''.''
      in \<lparr>ds_domain = trimmed, ds_trailing = drop (length trimmed) lead, ds_dot_pos = 0\<rparr>)"

definition find_dot_from :: "nat \<Rightarrow> string \<Rightarrow> nat" where
  "find_dot_from pos s =
     (case find_char (CHR ''.'') (drop pos s) of Some i \<Rightarrow> pos + i | None \<Rightarrow> length s)"

definition FindNextSubdomain :: "DomainSplitter \<Rightarrow> (string \<times> string) option \<times> DomainSplitter" where
  "FindNextSubdomain s =
     (let old_dot_pos = ds_dot_pos s
      in if ds_dot_pos s < length (ds_domain s)
         then
           (let s' = s\<lparr>ds_dot_pos := find_dot_from (ds_dot_pos s + 1) (ds_domain s)\<rparr>;
                piece = (if old_dot_pos = 0 then ds_domain s
                         else drop (old_dot_pos + 1) (ds_domain s))
            in (Some (piece, c_str (piece @ ds_trailing s)), s'))
         else (None, s\<lparr>ds_dot_pos := 0\<rparr>))"

text \<open>\<open>while (auto subdomain = splitter.FindNextSubdomain())\<close>: the results, in order.\<close>

lemma find_dot_from_less: "pos \<le> length s \<Longrightarrow> pos \<le> find_dot_from pos s"
  by (simp add: find_dot_from_def split: option.splits)

function subdomain_loop :: "DomainSplitter \<Rightarrow> (string \<times> string) list" where
  "subdomain_loop s =
     (case FindNextSubdomain s of (None, _) \<Rightarrow> [] | (Some p, s') \<Rightarrow> p # subdomain_loop s')"
  by pat_completeness auto

lemma FindNextSubdomain_progress:
  assumes "FindNextSubdomain s = (Some p, s')"
  shows "ds_domain s' = ds_domain s" "ds_trailing s' = ds_trailing s" "ds_dot_pos s < ds_dot_pos s'"
    "ds_dot_pos s < length (ds_domain s)"
proof -
  have less: "ds_dot_pos s < length (ds_domain s)"
    and s': "s' = s\<lparr>ds_dot_pos := find_dot_from (ds_dot_pos s + 1) (ds_domain s)\<rparr>"
    using assms by (auto simp: FindNextSubdomain_def Let_def split: if_splits)
  then show "ds_domain s' = ds_domain s" "ds_trailing s' = ds_trailing s"
    "ds_dot_pos s < length (ds_domain s)" by simp_all
  from less have "ds_dot_pos s + 1 \<le> find_dot_from (ds_dot_pos s + 1) (ds_domain s)"
    by (intro find_dot_from_less) simp
  then show "ds_dot_pos s < ds_dot_pos s'" using s' by simp
qed

lemma FindNextSubdomain_measure:
  "(Some p, s') = FindNextSubdomain s \<Longrightarrow>
     length (ds_domain s') - ds_dot_pos s' < length (ds_domain s) - ds_dot_pos s"
  using FindNextSubdomain_progress [of s p s'] by auto

termination subdomain_loop
  by (relation "measure (\<lambda>s. length (ds_domain s) - ds_dot_pos s)") (auto dest: FindNextSubdomain_measure)

declare subdomain_loop.simps [simp del]

lemma subdomain_loop_end: "length (ds_domain s) \<le> ds_dot_pos s \<Longrightarrow> subdomain_loop s = []"
  by (simp add: subdomain_loop.simps [of s] FindNextSubdomain_def)

definition subdomains :: "string \<Rightarrow> (string \<times> string) list" where
  "subdomains domain = subdomain_loop (new_DomainSplitter domain)"

section \<open>What it yields\<close>

function dot_suffixes :: "string \<Rightarrow> string list" where
  "dot_suffixes s =
     s # (case find_char (CHR ''.'') s of None \<Rightarrow> [] | Some i \<Rightarrow> dot_suffixes (drop (Suc i) s))"
  by pat_completeness auto
termination by (relation "measure length") (auto dest: find_char_Some)

declare dot_suffixes.simps [simp del]

lemma dot_suffixes_iff: "f \<in> set (dot_suffixes s) \<longleftrightarrow> f = s \<or> (\<exists>x. s = x @ ''.'' @ f)"
proof (induction s rule: dot_suffixes.induct)
  case (1 s)
  show ?case
  proof (cases "find_char (CHR ''.'') s")
    case None
    then have "CHR ''.'' \<notin> set s" by (simp add: find_char_None)
    then show ?thesis using None by (auto simp: dot_suffixes.simps [of s])
  next
    case (Some i)
    let ?r = "drop (Suc i) s"
    have s: "s = take i s @ CHR ''.'' # ?r" "CHR ''.'' \<notin> set (take i s)"
      using find_char_split [OF Some] find_char_Some [OF Some] by simp_all
    have "(\<exists>x. s = x @ ''.'' @ f) \<longleftrightarrow> f = ?r \<or> (\<exists>x. ?r = x @ ''.'' @ f)"
    proof
      assume "\<exists>x. s = x @ ''.'' @ f"
      then obtain x where x: "take i s @ CHR ''.'' # ?r = x @ CHR ''.'' # f" using s(1) by auto
      then consider "x = take i s" | us where "x = take i s @ CHR ''.'' # us" "?r = us @ CHR ''.'' # f"
        | us where "take i s = x @ CHR ''.'' # us"
        unfolding append_eq_append_conv2 by (auto simp: Cons_eq_append_conv append_eq_Cons_conv)
      then show "f = ?r \<or> (\<exists>x. ?r = x @ ''.'' @ f)"
      proof cases
        case 1
        then show ?thesis using x by simp
      next
        case (3 us)
        then show ?thesis using s(2) by (metis in_set_conv_decomp)
      qed auto
    next
      assume "f = ?r \<or> (\<exists>x. ?r = x @ ''.'' @ f)"
      then show "\<exists>x. s = x @ ''.'' @ f"
        using s(1) by (metis append.assoc append_Cons append_Nil)
    qed
    with 1 [OF Some] Some show ?thesis by (auto simp: dot_suffixes.simps [of s])
  qed
qed

lemma subdomain_loop_suffixes:
  assumes "0 < ds_dot_pos s" "ds_dot_pos s \<le> length (ds_domain s)"
    "ds_dot_pos s < length (ds_domain s) \<Longrightarrow> ds_domain s ! ds_dot_pos s = CHR ''.''"
  shows "map fst (subdomain_loop s) =
    (if ds_dot_pos s < length (ds_domain s)
     then dot_suffixes (drop (Suc (ds_dot_pos s)) (ds_domain s)) else [])"
  using assms
proof (induction s rule: subdomain_loop.induct)
  case (1 s)
  show ?case
  proof (cases "ds_dot_pos s < length (ds_domain s)")
    case True
    let ?n = "find_dot_from (Suc (ds_dot_pos s)) (ds_domain s)"
    let ?s' = "s\<lparr>ds_dot_pos := ?n\<rparr>"
    let ?p = "drop (Suc (ds_dot_pos s)) (ds_domain s)"
    have nxt: "FindNextSubdomain s = (Some (?p, c_str (?p @ ds_trailing s)), ?s')"
      using True 1(2) by (simp add: FindNextSubdomain_def Let_def)
    have rec: "map fst (subdomain_loop s) = ?p # map fst (subdomain_loop ?s')"
      by (simp add: subdomain_loop.simps [of s] nxt)
    show ?thesis
    proof (cases "find_char (CHR ''.'') ?p")
      case None
      then have n: "?n = length (ds_domain s)" by (simp add: find_dot_from_def)
      then have "map fst (subdomain_loop ?s') = []"
        by (simp add: subdomain_loop_end)
      then show ?thesis using rec True None by (simp add: dot_suffixes.simps [of ?p])
    next
      case (Some i)
      then have n: "?n = Suc (ds_dot_pos s) + i" by (simp add: find_dot_from_def)
      note f = find_char_Some [OF Some]
      then have "Suc (ds_dot_pos s) + i < length (ds_domain s)" by auto
      moreover from this f have "ds_domain s ! (Suc (ds_dot_pos s) + i) = CHR ''.''" by (subst (asm) nth_drop) auto
      ultimately have "?n < length (ds_domain s)" "ds_domain s ! ?n = CHR ''.''" using n by simp_all
      then have "map fst (subdomain_loop ?s') = dot_suffixes (drop (Suc ?n) (ds_domain s))"
        using 1(1) [OF nxt [symmetric] refl] n by simp
      moreover have "drop (Suc ?n) (ds_domain s) = drop (Suc i) ?p" using n by (simp add: add.commute)
      ultimately show ?thesis using rec True Some by (simp add: dot_suffixes.simps [of ?p])
    qed
  next
    case False
    then show ?thesis by (simp add: subdomain_loop.simps [of s] FindNextSubdomain_def)
  qed
qed

text \<open>No dot at either end: what a host name looks like.\<close>

definition trimmed_domain :: "string \<Rightarrow> bool" where
  "trimmed_domain d \<longleftrightarrow> d \<noteq> [] \<and> hd d \<noteq> CHR ''.'' \<and> last d \<noteq> CHR ''.''"

lemma trimmed_domain_splitter:
  assumes "trimmed_domain d"
  shows "new_DomainSplitter d = \<lparr>ds_domain = d, ds_trailing = [], ds_dot_pos = 0\<rparr>"
proof -
  have "TrimLeading d ''.'' = d" using assms by (cases d) (simp_all add: TrimLeading_def trimmed_domain_def)
  moreover have "TrimTrailing d ''.'' = d"
    using assms by (cases d rule: rev_cases) (simp_all add: TrimTrailing_def trimmed_domain_def)
  ultimately show ?thesis by (simp add: new_DomainSplitter_def)
qed

lemma subdomains_trimmed:
  assumes "trimmed_domain d"
  shows "map fst (subdomains d) = dot_suffixes d"
proof -
  let ?s = "\<lparr>ds_domain = d, ds_trailing = [], ds_dot_pos = 0\<rparr>"
  let ?n = "find_dot_from 1 d"
  have ne: "d \<noteq> []" using assms by (simp add: trimmed_domain_def)
  have nxt: "FindNextSubdomain ?s = (Some (d, c_str d), ?s\<lparr>ds_dot_pos := ?n\<rparr>)"
    using ne by (simp add: FindNextSubdomain_def Let_def)
  have rec: "map fst (subdomains d) = d # map fst (subdomain_loop (?s\<lparr>ds_dot_pos := ?n\<rparr>))"
    by (simp add: subdomains_def trimmed_domain_splitter [OF assms] subdomain_loop.simps [of ?s] nxt)
  obtain c r where cr: "d = c # r" "c \<noteq> CHR ''.''"
    using assms by (cases d) (auto simp: trimmed_domain_def)
  show ?thesis
  proof (cases "find_char (CHR ''.'') r")
    case None
    then have "?n = length d" "find_char (CHR ''.'') d = None" using cr by (simp_all add: find_dot_from_def)
    then show ?thesis using rec
      by (simp add: dot_suffixes.simps [of d] subdomain_loop_end)
  next
    case (Some i)
    then have n: "?n = Suc i" "find_char (CHR ''.'') d = Some (Suc i)"
      using cr by (simp_all add: find_dot_from_def)
    have "map fst (subdomain_loop (?s\<lparr>ds_dot_pos := ?n\<rparr>)) = dot_suffixes (drop (Suc (Suc i)) d)"
      using subdomain_loop_suffixes [of "?s\<lparr>ds_dot_pos := ?n\<rparr>"] find_char_Some [OF n(2)] n(1) by simp
    then show ?thesis using rec n(2) by (simp add: dot_suffixes.simps [of d])
  qed
qed

text \<open>For such a domain the C string of a piece is the piece.\<close>

lemma subdomain_loop_data:
  "ds_trailing s = [] \<Longrightarrow> no_nul (ds_domain s) \<Longrightarrow> p \<in> set (subdomain_loop s) \<Longrightarrow> snd p = fst p"
proof (induction s rule: subdomain_loop.induct)
  case (1 s)
  show ?case
  proof (cases "FindNextSubdomain s")
    case (Pair r s')
    show ?thesis
    proof (cases r)
      case None
      then show ?thesis using 1(4) Pair by (simp add: subdomain_loop.simps [of s])
    next
      case (Some q)
      note pr = FindNextSubdomain_progress [OF Pair [unfolded Some]]
      have q: "snd q = fst q"
      proof -
        have "q = (if ds_dot_pos s = 0 then ds_domain s else drop (ds_dot_pos s + 1) (ds_domain s),
            c_str ((if ds_dot_pos s = 0 then ds_domain s else drop (ds_dot_pos s + 1) (ds_domain s)) @ ds_trailing s))"
          using Pair Some pr(4) by (auto simp: FindNextSubdomain_def Let_def)
        moreover have "no_nul (drop n (ds_domain s))" for n
          using no_nul_subset [OF set_drop_subset] 1(3) by blast
        ultimately show ?thesis using 1(2,3) by simp
      qed
      have "p = q \<or> p \<in> set (subdomain_loop s')"
        using 1(4) Pair Some by (simp add: subdomain_loop.simps [of s])
      then show ?thesis using 1(1) [OF Pair [symmetric] Some] pr(1,2) 1(2,3) q by auto
    qed
  qed
qed

lemma subdomains_data:
  assumes "trimmed_domain d" "no_nul d" "p \<in> set (subdomains d)"
  shows "snd p = fst p"
  using subdomain_loop_data [of "new_DomainSplitter d" p] assms
  by (simp add: subdomains_def trimmed_domain_splitter)

lemma map_snd_subdomains:
  assumes "trimmed_domain d" "no_nul d"
  shows "map snd (subdomains d) = dot_suffixes d"
  using subdomains_trimmed [OF assms(1)] subdomains_data [OF assms] by (metis map_cong)

end
