(* ===== verification/Regex_Matcher.thy ===== *)
theory Regex_Matcher
  imports Serializer
begin

text \<open>
  \<open>subscription/regex_matcher.cc\<close> and \<open>utils::RegexMatches\<close>: regular-expression filters, with a cache of
  compiled expressions. The engines RE2 and ICU are parameters: compiling an expression (with its case
  sensitivity) yields a test on the input, or fails. A view into a longer string is passed with the C
  string that its \<open>data()\<close> reads.
\<close>

section \<open>Engines\<close>

record regex_engines =
  re2_compile :: "string \<Rightarrow> bool \<Rightarrow> (string \<Rightarrow> bool) option"
  icu_compile :: "string \<Rightarrow> bool \<Rightarrow> (string \<Rightarrow> bool) option"

definition kMaxURLChars :: int where
  "kMaxURLChars = 2 * 1024 * 1024"

definition RegexMatches :: "regex_engines \<Rightarrow> string \<Rightarrow> string \<Rightarrow> string \<Rightarrow> bool \<Rightarrow> bool" where
  "RegexMatches eng pattern pattern_data input case_sensitive =
     (case re2_compile eng pattern_data case_sensitive of
        Some m \<Rightarrow> m (c_str input)
      | None \<Rightarrow>
          (if int (length input) > kMaxURLChars then False
           else
             (case icu_compile eng pattern case_sensitive of
                None \<Rightarrow> False
              | Some m \<Rightarrow> m input)))"

section \<open>The cache\<close>

type_synonym regex_cache = "((string \<times> bool) \<times> (string \<Rightarrow> bool)) list"

record RegexMatcher =
  re2_cache :: regex_cache
  icu_cache :: regex_cache

definition empty_RegexMatcher :: RegexMatcher where
  "empty_RegexMatcher = \<lparr>re2_cache = [], icu_cache = []\<rparr>"

definition kMaxPrebuiltPatterns :: int where
  "kMaxPrebuiltPatterns = 500"

definition CacheSize :: "RegexMatcher \<Rightarrow> int" where
  "CacheSize m = int (length (re2_cache m) + length (icu_cache m))"

definition cache_put :: "string \<times> bool \<Rightarrow> (string \<Rightarrow> bool) \<Rightarrow> regex_cache \<Rightarrow> regex_cache" where
  "cache_put key v cache = (key, v) # filter (\<lambda>e. fst e \<noteq> key) cache"

definition PreBuildRegexPattern :: "regex_engines \<Rightarrow> string \<Rightarrow> bool \<Rightarrow> RegexMatcher \<Rightarrow> RegexMatcher" where
  "PreBuildRegexPattern eng regular_expression case_sensitive m =
     (case re2_compile eng regular_expression case_sensitive of
        Some re2_pattern \<Rightarrow>
          m\<lparr>re2_cache := cache_put (regular_expression, case_sensitive) re2_pattern (re2_cache m)\<rparr>
      | None \<Rightarrow>
          (case icu_compile eng regular_expression case_sensitive of
             None \<Rightarrow> m
           | Some icu_pattern \<Rightarrow>
               m\<lparr>icu_cache := cache_put (regular_expression, case_sensitive) icu_pattern (icu_cache m)\<rparr>))"

fun prebuild_loop :: "regex_engines \<Rightarrow> flat_UrlFilter list \<Rightarrow> RegexMatcher \<Rightarrow> RegexMatcher" where
  "prebuild_loop eng [] m = m"
| "prebuild_loop eng (flt # rest) m =
     (if CacheSize m \<ge> kMaxPrebuiltPatterns then m
      else
        (case ExtractRegexFilterFromPattern (fu_pattern flt) of
           None \<Rightarrow> prebuild_loop eng rest m
         | Some regex_string \<Rightarrow>
             prebuild_loop eng rest (PreBuildRegexPattern eng regex_string (fu_match_case flt) m)))"

definition PreBuildPatternsFrom :: "regex_engines \<Rightarrow> UrlFilterIndex \<Rightarrow> RegexMatcher \<Rightarrow> RegexMatcher" where
  "PreBuildPatternsFrom eng index m =
     (case LookupByKey index [] of None \<Rightarrow> m | Some filters \<Rightarrow> prebuild_loop eng filters m)"

definition PreBuildRegexPatternsWithNoKeyword ::
  "regex_engines \<Rightarrow> flat_Subscription \<Rightarrow> RegexMatcher \<Rightarrow> RegexMatcher" where
  "PreBuildRegexPatternsWithNoKeyword eng index m =
     (let m = PreBuildPatternsFrom eng (url_csp_allow index) m;
          m = PreBuildPatternsFrom eng (url_csp_block index) m;
          m = PreBuildPatternsFrom eng (url_document_allow index) m;
          m = PreBuildPatternsFrom eng (url_genericblock_allow index) m;
          m = PreBuildPatternsFrom eng (url_header_allow index) m;
          m = PreBuildPatternsFrom eng (url_popup_allow index) m;
          m = PreBuildPatternsFrom eng (url_popup_block index) m;
          m = PreBuildPatternsFrom eng (url_elemhide_allow index) m;
          m = PreBuildPatternsFrom eng (url_rewrite_allow index) m;
          m = PreBuildPatternsFrom eng (url_rewrite_block index) m;
          m = PreBuildPatternsFrom eng (url_subresource_allow index) m
      in PreBuildPatternsFrom eng (url_subresource_block index) m)"

definition MatchesRegex :: "regex_engines \<Rightarrow> RegexMatcher \<Rightarrow> string \<Rightarrow> string \<Rightarrow> gurl \<Rightarrow> bool \<Rightarrow> bool" where
  "MatchesRegex eng m regex_pattern regex_data url case_sensitive =
     (case map_of (re2_cache m) (regex_pattern, case_sensitive) of
        Some cached \<Rightarrow> cached (c_str (spec url))
      | None \<Rightarrow>
          (case map_of (icu_cache m) (regex_pattern, case_sensitive) of
             Some cached \<Rightarrow> cached (spec url)
           | None \<Rightarrow> RegexMatches eng regex_pattern regex_data (spec url) case_sensitive))"

section \<open>The cache agrees with the engines\<close>

definition cache_ok :: "regex_engines \<Rightarrow> RegexMatcher \<Rightarrow> bool" where
  "cache_ok eng m \<longleftrightarrow>
     (\<forall>e cs v. map_of (re2_cache m) (e, cs) = Some v \<longrightarrow> re2_compile eng e cs = Some v) \<and>
     (\<forall>e cs v. map_of (icu_cache m) (e, cs) = Some v \<longrightarrow>
        re2_compile eng e cs = None \<and> icu_compile eng e cs = Some v)"

text \<open>What the test of an expression should be: RE2 when it compiles it, else ICU.\<close>

definition regex_meaning :: "regex_engines \<Rightarrow> string \<Rightarrow> bool \<Rightarrow> string \<Rightarrow> bool" where
  "regex_meaning eng e cs input =
     (case re2_compile eng e cs of
        Some m \<Rightarrow> m (c_str input)
      | None \<Rightarrow> (case icu_compile eng e cs of Some m \<Rightarrow> m input | None \<Rightarrow> False))"

lemma map_of_cache_put:
  "map_of (cache_put k v c) k' = (if k = k' then Some v else map_of c k')"
proof -
  have "map_of (filter (\<lambda>e. fst e \<noteq> k) c) k' = map_of c k'" if "k' \<noteq> k"
    using that by (induction c) auto
  then show ?thesis by (simp add: cache_put_def)
qed

lemma cache_put_length: "int (length (cache_put k v c)) \<le> int (length c) + 1"
  by (simp add: cache_put_def)

lemma PreBuildRegexPattern_ok:
  "cache_ok eng m \<Longrightarrow> cache_ok eng (PreBuildRegexPattern eng e cs m)"
  by (auto simp: cache_ok_def PreBuildRegexPattern_def map_of_cache_put split: option.splits if_splits)

lemma PreBuildRegexPattern_size: "CacheSize (PreBuildRegexPattern eng e cs m) \<le> CacheSize m + 1"
  using cache_put_length by (auto simp: PreBuildRegexPattern_def CacheSize_def split: option.splits)

lemma prebuild_loop_ok: "cache_ok eng m \<Longrightarrow> cache_ok eng (prebuild_loop eng fs m)"
  by (induction eng fs m rule: prebuild_loop.induct)
    (auto simp: PreBuildRegexPattern_ok split: option.splits)

lemma prebuild_loop_size:
  "CacheSize m \<le> kMaxPrebuiltPatterns \<Longrightarrow> CacheSize (prebuild_loop eng fs m) \<le> kMaxPrebuiltPatterns"
proof (induction eng fs m rule: prebuild_loop.induct)
  case (2 eng flt rest m)
  show ?case
  proof (cases "CacheSize m \<ge> kMaxPrebuiltPatterns")
    case False
    then have "CacheSize (PreBuildRegexPattern eng e cs m) \<le> kMaxPrebuiltPatterns" for e cs
      using PreBuildRegexPattern_size [of eng e cs m] by linarith
    with 2 False show ?thesis by (auto split: option.splits)
  qed (use 2(3) in simp)
qed simp

lemma PreBuildPatternsFrom_ok:
  "cache_ok eng m \<Longrightarrow> cache_ok eng (PreBuildPatternsFrom eng i m)"
  "CacheSize m \<le> kMaxPrebuiltPatterns \<Longrightarrow> CacheSize (PreBuildPatternsFrom eng i m) \<le> kMaxPrebuiltPatterns"
  by (auto simp: PreBuildPatternsFrom_def prebuild_loop_ok prebuild_loop_size split: option.splits)

lemma PreBuild_ok:
  "cache_ok eng m \<Longrightarrow> cache_ok eng (PreBuildRegexPatternsWithNoKeyword eng sub m)"
  "CacheSize m \<le> kMaxPrebuiltPatterns \<Longrightarrow>
     CacheSize (PreBuildRegexPatternsWithNoKeyword eng sub m) \<le> kMaxPrebuiltPatterns"
  by (simp_all add: PreBuildRegexPatternsWithNoKeyword_def Let_def PreBuildPatternsFrom_ok)

lemma empty_RegexMatcher_ok: "cache_ok eng empty_RegexMatcher" "CacheSize empty_RegexMatcher = 0"
  by (simp_all add: cache_ok_def empty_RegexMatcher_def CacheSize_def)

lemma MatchesRegex_cached:
  assumes "cache_ok eng m"
    "map_of (re2_cache m) (e, cs) \<noteq> None \<or> map_of (icu_cache m) (e, cs) \<noteq> None"
  shows "MatchesRegex eng m e data url cs = regex_meaning eng e cs (spec url)"
  using assms by (auto simp: MatchesRegex_def regex_meaning_def cache_ok_def split: option.splits)

text \<open>A view that ends where its C string ends is matched by its meaning, cached or not, for URLs that
  are not too long for ICU.\<close>

lemma MatchesRegex_meaning:
  assumes "cache_ok eng m" "data = e" "int (length (spec url)) \<le> kMaxURLChars"
  shows "MatchesRegex eng m e data url cs = regex_meaning eng e cs (spec url)"
proof (cases "map_of (re2_cache m) (e, cs) = None \<and> map_of (icu_cache m) (e, cs) = None")
  case True
  then show ?thesis
    using assms(2,3) by (auto simp: MatchesRegex_def RegexMatches_def regex_meaning_def split: option.splits)
qed (use MatchesRegex_cached [OF assms(1)] in blast)

end
