(* ===== verification/Installed_Subscription.thy ===== *)
theory Installed_Subscription
  imports Converter_Facts Pattern_Spec Domain_Splitter Regex_Matcher
begin

unbundle bit_operations_syntax

text \<open>
  \<open>subscription/installed_subscription_impl.cc\<close>: querying one installed subscription. URL parsing, the
  comparison of registrable domains and the regular-expression engines come from libraries and are
  fields of \<open>net_env\<close>. A vector that is absent from the buffer is the empty vector, which every
  reader treats the same. The variables a search passes down are one record, \<open>url_query\<close>.
\<close>

section \<open>Types\<close>

datatype InstallationState = Installed | Preloaded | Installing

datatype SpecialFilterType = SF_Document | SF_Elemhide | SF_Genericblock | SF_Generichide

datatype FilterCategory = Allowing | Blocking | DomainSpecificBlocking

datatype FindStrategy = FindFirst | FindAll

record Selectors =
  elemhide_selectors :: "string list"
  elemhide_exceptions :: "string list"

record net_env =
  env_parse_url :: "string \<Rightarrow> gurl"
  env_SameDomainOrHost :: "gurl \<Rightarrow> gurl \<Rightarrow> bool"
  env_engines :: regex_engines

record InstalledSubscriptionImpl =
  is_index :: flat_Subscription
  is_installation_state :: InstallationState
  is_installation_time :: int
  is_regex_matcher :: RegexMatcher
  is_marked_for_removal :: bool

definition new_InstalledSubscriptionImpl ::
  "net_env \<Rightarrow> flat_Subscription \<Rightarrow> InstallationState \<Rightarrow> int \<Rightarrow> InstalledSubscriptionImpl" where
  "new_InstalledSubscriptionImpl env data state time =
     \<lparr>is_index = data, is_installation_state = state, is_installation_time = time,
      is_regex_matcher = PreBuildRegexPatternsWithNoKeyword (env_engines env) data empty_RegexMatcher,
      is_marked_for_removal = False\<rparr>"

definition MarkForPermanentRemoval :: "InstalledSubscriptionImpl \<Rightarrow> InstalledSubscriptionImpl" where
  "MarkForPermanentRemoval s = s\<lparr>is_marked_for_removal := True\<rparr>"

definition GetSourceUrl :: "net_env \<Rightarrow> InstalledSubscriptionImpl \<Rightarrow> gurl" where
  "GetSourceUrl env s = env_parse_url env (fm_url (fb_metadata (is_index s)))"

definition GetTitle :: "InstalledSubscriptionImpl \<Rightarrow> string" where
  "GetTitle s = fm_title (fb_metadata (is_index s))"

definition GetCurrentVersion :: "InstalledSubscriptionImpl \<Rightarrow> string" where
  "GetCurrentVersion s = fm_version (fb_metadata (is_index s))"

text \<open>Milliseconds in the buffer, microseconds as a duration.\<close>

definition GetExpirationInterval :: "InstalledSubscriptionImpl \<Rightarrow> int" where
  "GetExpirationInterval s = saturated_delta (fm_expires (fb_metadata (is_index s)) * 1000)"

section \<open>Domains\<close>

definition NeedsLowercasing :: "string \<Rightarrow> bool" where
  "NeedsLowercasing input = list_ex IsAsciiUpper input"

definition IsThirdParty :: "net_env \<Rightarrow> gurl \<Rightarrow> string \<Rightarrow> bool" where
  "IsThirdParty env url domain =
     (\<not> env_SameDomainOrHost env url (env_parse_url env (scheme url @ ''://'' @ domain)))"

definition DomainMatches :: "string \<Rightarrow> string \<Rightarrow> bool" where
  "DomainMatches filter_domain document_domain =
     (document_domain = filter_domain \<or>
      (EndsWith document_domain filter_domain \<and>
       EndsWith (take (length document_domain - length filter_domain) document_domain) ''.''))"

definition DomainOnList :: "string \<Rightarrow> string list \<Rightarrow> bool" where
  "DomainOnList document_domain lst =
     list_ex (\<lambda>filter_domain. DomainMatches filter_domain document_domain) lst"

definition IsEmptyDomainAllowed :: "string list \<Rightarrow> string list \<Rightarrow> bool" where
  "IsEmptyDomainAllowed include_doms exclude_doms \<longleftrightarrow>
     (include_doms = [] \<or> hd include_doms = []) \<and> exclude_doms = []"

definition IsActiveOnDomainLists :: "string \<Rightarrow> string list \<Rightarrow> string list \<Rightarrow> bool" where
  "IsActiveOnDomainLists document_domain include_doms exclude_doms =
     (if IsEmptyDomainAllowed include_doms exclude_doms then True
      else if DomainOnList document_domain exclude_doms then False
      else if include_doms \<noteq> [] then DomainOnList document_domain include_doms
      else True)"

lemma DomainMatches_iff:
  "DomainMatches f d \<longleftrightarrow> d = f \<or> (\<exists>x. d = x @ ''.'' @ f)"
proof -
  have "EndsWith d f \<and> EndsWith (take (length d - length f) d) ''.'' \<longleftrightarrow> (\<exists>x. d = x @ ''.'' @ f)"
  proof
    assume "EndsWith d f \<and> EndsWith (take (length d - length f) d) ''.''"
    then obtain r x where "d = r @ f" "take (length d - length f) d = x @ ''.''"
      unfolding EndsWith_iff by blast
    then have "d = x @ ''.'' @ f" by simp
    then show "\<exists>x. d = x @ ''.'' @ f" ..
  next
    assume "\<exists>x. d = x @ ''.'' @ f"
    then obtain x where "d = (x @ ''.'') @ f" by auto
    then show "EndsWith d f \<and> EndsWith (take (length d - length f) d) ''.''"
      by (auto simp: EndsWith_iff)
  qed
  then show ?thesis by (auto simp: DomainMatches_def)
qed

lemma DomainMatches_suffixes: "DomainMatches f d \<longleftrightarrow> f \<in> set (dot_suffixes d)"
  unfolding DomainMatches_iff dot_suffixes_iff by auto

lemma DomainOnList_iff: "DomainOnList d ds \<longleftrightarrow> (\<exists>f\<in>set ds. DomainMatches f d)"
  by (simp add: DomainOnList_def list_ex_iff)

text \<open>The rule the lists stand for, when no include domain is empty: excludes win, and includes, where
  there are any, are required.\<close>

lemma IsActiveOnDomainLists_spec:
  assumes "list_all (\<lambda>d. d \<noteq> []) incl"
  shows "IsActiveOnDomainLists d incl excl \<longleftrightarrow>
    \<not> DomainOnList d excl \<and> (incl = [] \<or> DomainOnList d incl)"
  using assms by (cases incl) (auto simp: IsActiveOnDomainLists_def IsEmptyDomainAllowed_def DomainOnList_def)

section \<open>Candidate filters\<close>

record url_query =
  q_url :: gurl
  q_lowercase_url :: gurl
  q_content_type :: "ContentType option"
  q_document_domain :: string
  q_sitekey :: string
  q_category :: FilterCategory
  q_is_third_party_request :: bool

definition IsGenericFilter :: "flat_UrlFilter \<Rightarrow> bool" where
  "IsGenericFilter flt =
     (if fu_sitekeys flt \<noteq> [] then False
      else IsEmptyDomainAllowed (fu_include_domains flt) (fu_exclude_domains flt))"

fun CheckThirdPartyOption :: "flat_ThirdParty \<Rightarrow> bool \<Rightarrow> bool" where
  "CheckThirdPartyOption ThirdParty_Ignore third = True"
| "CheckThirdPartyOption ThirdParty_FirstPartyOnly third = (\<not> third)"
| "CheckThirdPartyOption ThirdParty_ThirdPartyOnly third = third"

definition CheckThirdParty :: "flat_UrlFilter \<Rightarrow> bool \<Rightarrow> bool" where
  "CheckThirdParty flt third = CheckThirdPartyOption (fu_third_party flt) third"

definition IsActiveOnDomain :: "flat_UrlFilter \<Rightarrow> string \<Rightarrow> string \<Rightarrow> bool" where
  "IsActiveOnDomain flt document_domain sitekey =
     (if fu_sitekeys flt \<noteq> [] \<and> \<not> list_ex (\<lambda>it. c_str it = sitekey) (fu_sitekeys flt) then False
      else IsActiveOnDomainLists document_domain (fu_include_domains flt) (fu_exclude_domains flt))"

definition CandidateFilterViable :: "url_query \<Rightarrow> flat_UrlFilter \<Rightarrow> bool" where
  "CandidateFilterViable q candidate =
     (if (case q_content_type q of None \<Rightarrow> False
          | Some t \<Rightarrow> fu_resource_type candidate AND content_type_value t = 0) then False
      else if q_category q = DomainSpecificBlocking \<and> IsGenericFilter candidate then False
      else if \<not> CheckThirdParty candidate (q_is_third_party_request q) then False
      else if \<not> IsActiveOnDomain candidate (q_document_domain q) (q_sitekey q) then False
      else True)"

text \<open>The test of the pattern: the view between the slashes of a regular expression is followed by the
  closing slash in the string it points into.\<close>

definition FilterPatternMatches :: "net_env \<Rightarrow> RegexMatcher \<Rightarrow> url_query \<Rightarrow> flat_UrlFilter \<Rightarrow> bool" where
  "FilterPatternMatches env matcher q flt =
     (case ExtractRegexFilterFromPattern (fu_pattern flt) of
        Some regex_pattern \<Rightarrow>
          MatchesRegex (env_engines env) matcher regex_pattern (c_str (drop 1 (fu_pattern flt)))
            (q_url q) (fu_match_case flt)
      | None \<Rightarrow>
          DoesPatternMatchUrl (fu_pattern flt)
            (if fu_match_case flt then q_url q else q_lowercase_url q))"

fun find_filters_loop :: "net_env \<Rightarrow> RegexMatcher \<Rightarrow> url_query \<Rightarrow> FindStrategy \<Rightarrow>
    flat_UrlFilter list \<Rightarrow> flat_UrlFilter list \<Rightarrow> flat_UrlFilter list" where
  "find_filters_loop env matcher q strategy [] out_results = out_results"
| "find_filters_loop env matcher q strategy (flt # rest) out_results =
     (if \<not> CandidateFilterViable q flt
      then find_filters_loop env matcher q strategy rest out_results
      else if fu_pattern flt = [] \<and> strategy = FindFirst then out_results @ [flt]
      else
        (let out_results = (if fu_pattern flt = [] then out_results @ [flt] else out_results)
         in if FilterPatternMatches env matcher q flt
            then (if strategy = FindFirst then out_results @ [flt]
                  else find_filters_loop env matcher q strategy rest (out_results @ [flt]))
            else find_filters_loop env matcher q strategy rest out_results))"

definition FindFiltersForKeyword :: "net_env \<Rightarrow> RegexMatcher \<Rightarrow> UrlFilterIndex \<Rightarrow> string \<Rightarrow> url_query \<Rightarrow>
    FindStrategy \<Rightarrow> flat_UrlFilter list \<Rightarrow> flat_UrlFilter list" where
  "FindFiltersForKeyword env matcher index keyword q strategy out_results =
     (case LookupByKey index keyword of
        None \<Rightarrow> out_results
      | Some filters \<Rightarrow> find_filters_loop env matcher q strategy filters out_results)"

fun find_keywords_loop :: "net_env \<Rightarrow> RegexMatcher \<Rightarrow> UrlFilterIndex \<Rightarrow> url_query \<Rightarrow> FindStrategy \<Rightarrow>
    string list \<Rightarrow> flat_UrlFilter list \<Rightarrow> flat_UrlFilter list" where
  "find_keywords_loop env matcher index q strategy [] results =
     FindFiltersForKeyword env matcher index [] q strategy results"
| "find_keywords_loop env matcher index q strategy (current_keyword # rest) results =
     (let results = FindFiltersForKeyword env matcher index current_keyword q strategy results
      in if strategy = FindFirst \<and> results \<noteq> [] then results
         else find_keywords_loop env matcher index q strategy rest results)"

definition make_query :: "net_env \<Rightarrow> gurl \<Rightarrow> ContentType option \<Rightarrow> string \<Rightarrow> string \<Rightarrow> FilterCategory \<Rightarrow> url_query"
where
  "make_query env url content_type document_domain sitekey category =
     \<lparr>q_url = url,
      q_lowercase_url = (if NeedsLowercasing (spec url) then env_parse_url env (ToLowerASCII (spec url))
                         else url),
      q_content_type = content_type,
      q_document_domain = (if NeedsLowercasing document_domain then ToLowerASCII document_domain
                           else document_domain),
      q_sitekey = ToUpperASCII sitekey,
      q_category = category,
      q_is_third_party_request = IsThirdParty env url document_domain\<rparr>"

definition FindInternal :: "net_env \<Rightarrow> RegexMatcher \<Rightarrow> UrlFilterIndex \<Rightarrow> gurl \<Rightarrow> ContentType option \<Rightarrow>
    string \<Rightarrow> string \<Rightarrow> FilterCategory \<Rightarrow> FindStrategy \<Rightarrow> flat_UrlFilter list" where
  "FindInternal env matcher index url content_type document_domain sitekey category strategy =
     (let q = make_query env url content_type document_domain sitekey category
      in find_keywords_loop env matcher index q strategy (url_keywords (spec (q_lowercase_url q))) [])"

section \<open>Queries\<close>

definition HasUrlFilter :: "net_env \<Rightarrow> InstalledSubscriptionImpl \<Rightarrow> gurl \<Rightarrow> string \<Rightarrow> ContentType \<Rightarrow> string \<Rightarrow>
    FilterCategory \<Rightarrow> bool" where
  "HasUrlFilter env s url document_domain content_type sitekey category =
     (FindInternal env (is_regex_matcher s)
        (if category \<noteq> Allowing then url_subresource_block (is_index s)
         else url_subresource_allow (is_index s))
        url (Some content_type) document_domain sitekey category FindFirst \<noteq> [])"

definition HasPopupFilter :: "net_env \<Rightarrow> InstalledSubscriptionImpl \<Rightarrow> gurl \<Rightarrow> string \<Rightarrow> string \<Rightarrow>
    FilterCategory \<Rightarrow> bool" where
  "HasPopupFilter env s url document_domain sitekey category =
     (FindInternal env (is_regex_matcher s)
        (if category \<noteq> Allowing then url_popup_block (is_index s) else url_popup_allow (is_index s))
        url None document_domain sitekey category FindFirst \<noteq> [])"

definition FindCspFilters :: "net_env \<Rightarrow> InstalledSubscriptionImpl \<Rightarrow> gurl \<Rightarrow> string \<Rightarrow> FilterCategory \<Rightarrow>
    string set \<Rightarrow> string set" where
  "FindCspFilters env s url document_domain category results =
     foldl (\<lambda>results flt. insert (case fu_csp_filter flt of Some c \<Rightarrow> c | None \<Rightarrow> []) results) results
       (FindInternal env (is_regex_matcher s)
          (if category \<noteq> Allowing then url_csp_block (is_index s) else url_csp_allow (is_index s))
          url None document_domain [] category FindAll)"

definition FindRewriteFilter :: "net_env \<Rightarrow> InstalledSubscriptionImpl \<Rightarrow> gurl \<Rightarrow> string \<Rightarrow> FilterCategory \<Rightarrow>
    string option" where
  "FindRewriteFilter env s url document_domain category =
     (let filters = FindInternal env (is_regex_matcher s)
            (if category \<noteq> Allowing then url_rewrite_block (is_index s)
             else url_rewrite_allow (is_index s))
            url None document_domain [] category FindFirst
      in case filters of
           [] \<Rightarrow> None
         | flt # _ \<Rightarrow> (case fu_rewrite flt of Some r \<Rightarrow> Some (RewriteUrl r) | None \<Rightarrow> None))"

record HeaderFilterData =
  header_filter :: string
  hf_subscription_url :: gurl

text \<open>A \<open>std::set<HeaderFilterData>\<close> orders its elements by the header text alone, so the first filter of
  a text keeps later ones with the same text out; the list is in that order.\<close>

type_synonym header_filter_set = "HeaderFilterData list"

fun header_set_insert :: "HeaderFilterData \<Rightarrow> header_filter_set \<Rightarrow> header_filter_set" where
  "header_set_insert x [] = [x]"
| "header_set_insert x (y # ys) =
     (if header_filter x < header_filter y then x # y # ys
      else if header_filter y < header_filter x then y # header_set_insert x ys
      else y # ys)"

text \<open>The code reads the header of every result; a null pointer there is undefined behaviour, which the
  model takes as the empty header.\<close>

definition FindHeaderFilters :: "net_env \<Rightarrow> InstalledSubscriptionImpl \<Rightarrow> gurl \<Rightarrow> ContentType \<Rightarrow> string \<Rightarrow>
    FilterCategory \<Rightarrow> header_filter_set \<Rightarrow> header_filter_set" where
  "FindHeaderFilters env s url content_type document_domain category results =
     foldl (\<lambda>results flt.
         header_set_insert
           \<lparr>header_filter = (case fu_header_filter flt of Some h \<Rightarrow> h | None \<Rightarrow> []),
            hf_subscription_url = GetSourceUrl env s\<rparr> results) results
       (FindInternal env (is_regex_matcher s)
          (if category \<noteq> Allowing then url_header_block (is_index s) else url_header_allow (is_index s))
          url (Some content_type) document_domain [] category FindAll)"

fun special_index :: "SpecialFilterType \<Rightarrow> flat_Subscription \<Rightarrow> UrlFilterIndex" where
  "special_index SF_Document index = url_document_allow index"
| "special_index SF_Elemhide index = url_elemhide_allow index"
| "special_index SF_Genericblock index = url_genericblock_allow index"
| "special_index SF_Generichide index = url_generichide_allow index"

definition HasSpecialFilter :: "net_env \<Rightarrow> InstalledSubscriptionImpl \<Rightarrow> SpecialFilterType \<Rightarrow> gurl \<Rightarrow> string \<Rightarrow>
    string \<Rightarrow> bool" where
  "HasSpecialFilter env s type url document_domain sitekey =
     (FindInternal env (is_regex_matcher s) (special_index type (is_index s)) url None document_domain
        sitekey Allowing FindFirst \<noteq> [])"

fun selectors_loop :: "string \<Rightarrow> flat_ElemHideFilter list \<Rightarrow> string list \<Rightarrow> string list" where
  "selectors_loop domain [] selectors = selectors"
| "selectors_loop domain (flt # rest) selectors =
     (let filter_allowed_by_includes =
            (fe_include_domains flt = [] \<or> DomainOnList domain (fe_include_domains flt));
          filter_disallowed_by_excludes =
            (fe_exclude_domains flt \<noteq> [] \<and> DomainOnList domain (fe_exclude_domains flt))
      in if \<not> filter_allowed_by_includes then selectors_loop domain rest selectors
         else if filter_disallowed_by_excludes then selectors_loop domain rest selectors
         else selectors_loop domain rest (selectors @ [c_str (fe_selector flt)]))"

definition GetSelectorsForDomain :: "flat_ElemHideFilter list option \<Rightarrow> string \<Rightarrow> string list" where
  "GetSelectorsForDomain category domain =
     (case category of None \<Rightarrow> [] | Some filters \<Rightarrow> selectors_loop domain filters [])"

definition GetElemhideSelectors :: "InstalledSubscriptionImpl \<Rightarrow> gurl \<Rightarrow> bool \<Rightarrow> Selectors" where
  "GetElemhideSelectors s url domain_specific =
     (let domain = ToLowerASCII (host url);
          generic = (if \<not> domain_specific
             then \<lparr>elemhide_selectors = GetSelectorsForDomain (LookupByKey (fb_elemhide (is_index s)) []) domain,
                   elemhide_exceptions =
                     GetSelectorsForDomain (LookupByKey (fb_elemhide_exception (is_index s)) []) domain\<rparr>
             else \<lparr>elemhide_selectors = [], elemhide_exceptions = []\<rparr>)
      in foldl (\<lambda>result subdomain.
            \<lparr>elemhide_selectors = elemhide_selectors result @
               GetSelectorsForDomain (LookupByKey (fb_elemhide (is_index s)) (snd subdomain)) domain,
             elemhide_exceptions = elemhide_exceptions result @
               GetSelectorsForDomain (LookupByKey (fb_elemhide_exception (is_index s)) (snd subdomain)) domain\<rparr>)
          generic (subdomains domain))"

definition GetElemhideEmulationSelectors :: "InstalledSubscriptionImpl \<Rightarrow> gurl \<Rightarrow> Selectors" where
  "GetElemhideEmulationSelectors s url =
     (let domain = host url
      in foldl (\<lambda>result subdomain.
            \<lparr>elemhide_selectors = elemhide_selectors result @
               GetSelectorsForDomain (LookupByKey (fb_elemhide_emulation (is_index s)) (snd subdomain)) domain,
             elemhide_exceptions = elemhide_exceptions result @
               GetSelectorsForDomain (LookupByKey (fb_elemhide_exception (is_index s)) (snd subdomain)) domain\<rparr>)
          \<lparr>elemhide_selectors = [], elemhide_exceptions = []\<rparr> (subdomains domain))"

record Snippet =
  snip_command :: string
  snip_arguments :: "string list"

definition snippet_lines :: "string \<Rightarrow> flat_SnippetFilter list \<Rightarrow> Snippet list" where
  "snippet_lines document_domain filters =
     concat (map (\<lambda>cur.
         if IsActiveOnDomainLists document_domain (fs_include_domains cur) (fs_exclude_domains cur)
         then map (\<lambda>line. \<lparr>snip_command = fc_command line, snip_arguments = fc_arguments line\<rparr>) (fs_script cur)
         else []) filters)"

definition MatchSnippets :: "InstalledSubscriptionImpl \<Rightarrow> string \<Rightarrow> Snippet list" where
  "MatchSnippets s document_domain =
     concat (map (\<lambda>subdomain.
         case LookupByKey (fb_snippet (is_index s)) (snd subdomain) of
           None \<Rightarrow> [] | Some filters \<Rightarrow> snippet_lines document_domain filters)
       (subdomains document_domain))"


section \<open>The ordered set of header filters\<close>

definition header_set_ok :: "header_filter_set \<Rightarrow> bool" where
  "header_set_ok hs \<longleftrightarrow> sorted_wrt (<) (map header_filter hs)"

lemma header_set_insert_texts:
  "header_filter ` set (header_set_insert x hs) = insert (header_filter x) (header_filter ` set hs)"
  by (induction x hs rule: header_set_insert.induct) auto

lemma header_set_insert_subset: "set (header_set_insert x hs) \<subseteq> insert x (set hs)"
  by (induction x hs rule: header_set_insert.induct) auto

lemma header_set_insert_ok: "header_set_ok hs \<Longrightarrow> header_set_ok (header_set_insert x hs)"
proof (induction x hs rule: header_set_insert.induct)
  case (2 x y ys)
  have "header_filter y < t" if "header_filter y < header_filter x"
    "t \<in> header_filter ` set (header_set_insert x ys)" for t
    using that 2(2) unfolding header_set_insert_texts by (auto simp: header_set_ok_def)
  then show ?case using 2 by (auto simp: header_set_ok_def)
qed (simp add: header_set_ok_def)

end
