(* ===== verification/Search_Completeness.thy ===== *)
theory Search_Completeness
  imports Installed_Subscription
begin

text \<open>
  Searching an index finds what a scan over all its filters would find. First what \<open>FindInternal\<close>
  returns, as one list for both strategies; then the keyword argument: where a pattern matches, each of
  its keywords stands in the URL between separators, so the URL's extractor yields it.
\<close>

section \<open>What a search returns\<close>

definition accepts :: "net_env \<Rightarrow> RegexMatcher \<Rightarrow> url_query \<Rightarrow> flat_UrlFilter \<Rightarrow> bool" where
  "accepts env matcher q flt \<longleftrightarrow> CandidateFilterViable q flt \<and>
     (fu_pattern flt = [] \<or> FilterPatternMatches env matcher q flt)"

text \<open>What one filter adds to the results of \<open>FindAll\<close>: a filter with an empty pattern that also passes
  the pattern test is added twice.\<close>

definition hits :: "net_env \<Rightarrow> RegexMatcher \<Rightarrow> url_query \<Rightarrow> flat_UrlFilter \<Rightarrow> flat_UrlFilter list" where
  "hits env matcher q flt =
     (if CandidateFilterViable q flt
      then (if fu_pattern flt = [] then [flt] else []) @
           (if FilterPatternMatches env matcher q flt then [flt] else [])
      else [])"

lemma set_hits: "set (hits env m q f) = (if accepts env m q f then {f} else {})"
  by (auto simp: hits_def accepts_def)

lemma find_filters_all:
  "find_filters_loop env m q FindAll fs out = out @ concat (map (hits env m q) fs)"
  by (induction fs arbitrary: out) (simp_all add: hits_def Let_def)

lemma find_filters_first:
  "find_filters_loop env m q FindFirst fs out = out @ take 1 (concat (map (hits env m q) fs))"
  by (induction fs arbitrary: out) (simp_all add: hits_def Let_def)

definition bucket_hits :: "net_env \<Rightarrow> RegexMatcher \<Rightarrow> UrlFilterIndex \<Rightarrow> url_query \<Rightarrow> string \<Rightarrow> flat_UrlFilter list"
where
  "bucket_hits env m index q k = concat (map (hits env m q) (lookup_filters index k))"

lemma FindFiltersForKeyword_hits:
  "FindFiltersForKeyword env m index k q FindAll out = out @ bucket_hits env m index q k"
  "FindFiltersForKeyword env m index k q FindFirst out = out @ take 1 (bucket_hits env m index q k)"
  by (auto simp: FindFiltersForKeyword_def bucket_hits_def lookup_filters_def find_filters_all
      find_filters_first split: option.splits)

definition all_hits :: "net_env \<Rightarrow> RegexMatcher \<Rightarrow> UrlFilterIndex \<Rightarrow> url_query \<Rightarrow> string list \<Rightarrow> flat_UrlFilter list"
where
  "all_hits env m index q ks = concat (map (bucket_hits env m index q) (ks @ [[]]))"

lemma find_keywords_all:
  "find_keywords_loop env m index q FindAll ks out = out @ all_hits env m index q ks"
  by (induction ks arbitrary: out) (simp_all add: FindFiltersForKeyword_hits all_hits_def Let_def)

lemma take_1_append: "take (Suc 0) (xs @ ys) = (if xs = [] then take (Suc 0) ys else take (Suc 0) xs)"
  by (cases xs) auto

lemma find_keywords_first:
  "find_keywords_loop env m index q FindFirst ks [] = take 1 (all_hits env m index q ks)"
  by (induction ks)
    (simp_all add: FindFiltersForKeyword_hits all_hits_def Let_def take_1_append del: take_append)

definition query_keywords :: "url_query \<Rightarrow> string list" where
  "query_keywords q = url_keywords (spec (q_lowercase_url q))"

lemma FindInternal_all:
  "FindInternal env m index url ct doc key cat FindAll =
     (let q = make_query env url ct doc key cat in all_hits env m index q (query_keywords q))"
  by (simp add: FindInternal_def find_keywords_all query_keywords_def Let_def)

lemma FindInternal_first:
  "FindInternal env m index url ct doc key cat FindFirst =
     take 1 (FindInternal env m index url ct doc key cat FindAll)"
  by (simp add: FindInternal_def find_keywords_all find_keywords_first Let_def)

lemma set_all_hits:
  "set (all_hits env m index q ks) =
     {f. \<exists>k\<in>set ks \<union> {[]}. f \<in> set (lookup_filters index k) \<and> accepts env m q f}"
  by (auto simp: all_hits_def bucket_hits_def set_hits)

section \<open>Keywords where a pattern matches\<close>

definition stands_in :: "string \<Rightarrow> string \<Rightarrow> bool" where
  "stands_in k s \<longleftrightarrow> (\<exists>a b. s = a @ k @ b \<and> (a = [] \<or> \<not> is_keyword_char (last a)) \<and>
     (b = [] \<or> \<not> is_keyword_char (hd b)))"

lemma keyword_char_no_token: "is_keyword_char c \<Longrightarrow> \<not> is_token_separator c"
  by (auto simp: is_keyword_char_def is_token_separator_def IsAsciiAlphaNumeric_def)

lemma separator_no_keyword_char: "CharacterIsValidSeparator c \<Longrightarrow> \<not> is_keyword_char c"
  by (auto simp: CharacterIsValidSeparator_def is_keyword_char_def)

lemma keywords_no_token: "list_all is_keyword_char k \<Longrightarrow> list_all (\<lambda>c. \<not> is_token_separator c) k"
  by (auto simp: list_all_iff keyword_char_no_token)

lemma keyword_at_start:
  assumes "pattern_matches_at (k @ d # b) s" "list_all is_keyword_char k" "pattern_separator d"
  obtains t where "s = k @ t" "t = [] \<or> \<not> is_keyword_char (hd t)"
proof -
  from assms(1) obtain t where t: "s = k @ t" "pattern_matches_at (d # b) t"
    unfolding literal_matches [OF keywords_no_token [OF assms(2)]] by blast
  have "t = [] \<or> \<not> is_keyword_char (hd t)"
    using t(2) assms(3) separator_no_keyword_char
    by (cases t) (auto simp: pattern_separator_def split: if_splits)
  with t(1) that show thesis by blast
qed

lemma keyword_after_separator:
  assumes "pattern_matches_at (c # k @ d # b) s" "list_all is_keyword_char k" "k \<noteq> []"
    "pattern_separator d" "pattern_separator c" "c \<noteq> CHR ''|''"
  obtains x t where "s = x # k @ t" "\<not> is_keyword_char x" "t = [] \<or> \<not> is_keyword_char (hd t)"
proof -
  have nostar: "c \<noteq> CHR ''*''" "\<not> is_keyword_char c" using assms(5) by (auto simp: pattern_separator_def)
  have "\<not> pattern_matches_at (k @ d # b) []"
    using assms(2,3) keyword_char_no_token by (cases k) (auto simp: is_token_separator_def)
  then have "\<exists>x r. s = x # r \<and> \<not> is_keyword_char x \<and> pattern_matches_at (k @ d # b) r"
    using assms(1,6) nostar separator_no_keyword_char by (cases s) (auto split: if_splits)
  then obtain x r where x: "s = x # r" "\<not> is_keyword_char x" "pattern_matches_at (k @ d # b) r" by blast
  from keyword_at_start [OF x(3) assms(2,4)] obtain t where
    "r = k @ t" "t = [] \<or> \<not> is_keyword_char (hd t)" .
  with x that show thesis by blast
qed

lemma end_anchored_no_bar: "end_anchored_ok (x @ y) \<Longrightarrow> y \<noteq> [] \<Longrightarrow> CHR ''|'' \<notin> set x"
proof (induction x)
  case (Cons c x)
  then have "end_anchored_ok (x @ y)" using end_anchored_ok_tl by simp
  moreover have "c \<noteq> CHR ''|''" using Cons.prems by (cases "x @ y") auto
  ultimately show ?case using Cons by simp
qed simp

lemma keyword_inside_body:
  assumes "pattern_matches_at (a @ c # k @ d # b) s" "end_anchored_ok (a @ c # k @ d # b)"
    "list_all is_keyword_char k" "k \<noteq> []" "pattern_separator c" "pattern_separator d"
  shows "\<exists>u v. s = u @ k @ v \<and> u \<noteq> [] \<and> \<not> is_keyword_char (last u) \<and> (v = [] \<or> \<not> is_keyword_char (hd v))"
proof -
  have nb: "CHR ''|'' \<notin> set (a @ [c])"
    using end_anchored_no_bar [of "a @ [c]" "k @ d # b"] assms(2) by simp
  then obtain u0 w where w: "s = u0 @ w" "pattern_matches_at (c # k @ d # b) w"
    using pattern_matches_at_append [OF assms(1)] by auto
  from keyword_after_separator [OF w(2) assms(3,4,6,5)] nb obtain x t where
    "w = x # k @ t" "\<not> is_keyword_char x" "t = [] \<or> \<not> is_keyword_char (hd t)" by auto
  with w(1) have "s = (u0 @ [x]) @ k @ t \<and> u0 @ [x] \<noteq> [] \<and> \<not> is_keyword_char (last (u0 @ [x])) \<and>
      (t = [] \<or> \<not> is_keyword_char (hd t))" by simp
  then show ?thesis by blast
qed

text \<open>After a valid start of the host there is no keyword character right before a keyword.\<close>

lemma host_boundary:
  assumes "standard_url url" "spec url = skip @ rest" "rest \<noteq> []" "is_keyword_char (hd rest)"
    "IsValidStartOfHost skip url" "IsValidStartOfHost_dcheck skip url"
  shows "skip \<noteq> [] \<and> \<not> is_keyword_char (last skip)"
proof -
  have st: "scheme url \<noteq> []" "host url \<noteq> []" "hd (host url) \<notin> set '':/''"
    using assms(1) by (auto simp: standard_url_def)
  obtain tl where tl: "spec url = scheme url @ ''://'' @ host url @ tl" "tl = [] \<or> hd tl \<in> set '':/?#''"
  proof -
    obtain x where x: "spec url = (scheme url @ ''://'' @ host url) @ x"
      using assms(1) by (auto simp: standard_url_def StartsWith_iff)
    then have "drop (length (scheme url @ ''://'' @ host url)) (spec url) = x"
      by (metis append_eq_conv_conj)
    then have "x = [] \<or> hd x \<in> set '':/?#''"
      using assms(1) by (cases x) (auto simp: standard_url_def simp del: length_append)
    with x that show thesis by simp
  qed
  obtain r where r: "skip = scheme url @ r"
    using assms(6) st(1) by (auto simp: IsValidStartOfHost_dcheck_def has_scheme_def StartsWith_iff)
  have eq: "r @ rest = ''://'' @ host url @ tl" using tl(1) assms(2) r by simp
  have nk: "\<not> is_keyword_char x" if "x \<in> set '':/?#.''" for x
    using that by (auto simp: is_keyword_char_def IsAsciiAlphaNumeric_def)
  let ?c = "TrimLeading r '':/''"
  obtain z where z: "r = z @ ?c" "set z \<subseteq> set '':/''"
  proof
    show "r = takeWhile (\<lambda>c. c \<in> set '':/'') r @ ?c" by (simp add: TrimLeading_def)
    show "set (takeWhile (\<lambda>c. c \<in> set '':/'') r) \<subseteq> set '':/''" by (auto dest: set_takeWhileD)
  qed
  have v: "?c = [] \<or> ?c = host url \<or> EndsWith ?c ''.''"
    using assms(5) r st(1) by (auto simp: IsValidStartOfHost_def has_scheme_def Let_def)
  have ne: "r \<noteq> []"
  proof
    assume "r = []"
    then have "hd rest = CHR '':''" using eq by simp
    then show False using assms(4) nk [of "CHR '':''"] by simp
  qed
  consider "?c = []" | "?c = host url" | "EndsWith ?c ''.''" using v by blast
  then have "\<not> is_keyword_char (last r)"
  proof cases
    case 1
    then have "set r \<subseteq> set '':/''" using z by simp
    then have "last r \<in> set '':/''" using ne last_in_set by blast
    then show ?thesis by (intro nk) auto
  next
    case 2
    have eq': "z @ host url @ rest = ''://'' @ host url @ tl" using eq z 2 by simp
    have tw: "takeWhile (\<lambda>c. c \<in> set '':/'') (w @ host url @ x) = w" if "set w \<subseteq> set '':/''" for w x
      using that st(2,3) by (subst takeWhile_append2) (auto simp: neq_Nil_conv)
    have "z = ''://''"
      using tw [OF z(2), of rest] tw [of "''://''" tl] unfolding eq' by simp
    then have "rest = tl" using eq z 2 by simp
    then have "is_keyword_char (hd tl)" "tl \<noteq> []" using assms(3,4) by simp_all
    then show ?thesis using tl(2) nk by auto
  next
    case 3
    then obtain y where "?c = y @ ''.''" unfolding EndsWith_iff by blast
    then have "last r = CHR ''.''" using z(1) by (metis append_assoc append_is_Nil_conv last_appendR last_snoc)
    then show ?thesis by (simp add: nk)
  qed
  then show ?thesis using r ne by simp
qed

text \<open>The \<open>DCHECK\<close> of the host test holds for the text that is skipped.\<close>

definition host_anchor_dcheck :: "string \<Rightarrow> gurl \<Rightarrow> bool" where
  "host_anchor_dcheck p url =
     (leading_bars p = 2 \<longrightarrow>
        (case FindNextTokenInInput (spec url) (pattern_body p) 0 of
           None \<Rightarrow> True | Some k \<Rightarrow> IsValidStartOfHost_dcheck k url))"

lemma append_eq_bars:
  assumes "replicate n (CHR ''|'') @ body = a @ c # k @ y" "k \<noteq> []" "is_keyword_char (hd k)"
  shows "(n = Suc (length a) \<and> body = k @ y) \<or> (\<exists>a'. body = a' @ c # k @ y)"
proof -
  consider us where "replicate n (CHR ''|'') = a @ us" "us @ body = c # k @ y"
    | us where "body = us @ c # k @ y"
    using assms(1) unfolding append_eq_append_conv2 by blast
  then show ?thesis
  proof cases
    case (1 us)
    show ?thesis
    proof (cases us)
      case Nil
      then show ?thesis using 1(2) by (metis append_Nil)
    next
      case (Cons u us')
      then have u: "u = c" "us' @ body = k @ y" using 1(2) by simp_all
      have "us' = []"
      proof (rule ccontr)
        assume "us' \<noteq> []"
        then have "hd us' = hd k" using u(2) assms(2) by (metis hd_append2)
        moreover have "hd us' \<in> set (replicate n (CHR ''|''))"
          using 1(1) Cons \<open>us' \<noteq> []\<close> by simp
        ultimately show False using assms(3) by (auto simp: is_keyword_char_def IsAsciiAlphaNumeric_def)
      qed
      moreover have "n = length a + length us" using 1(1) by (metis length_append length_replicate)
      ultimately show ?thesis using u Cons by simp
    qed
  qed blast
qed

lemma pattern_accepts_occurs:
  assumes "pattern_accepts p url"
  shows "pattern_occurs (pattern_body p) (spec url)"
proof -
  let ?b = "pattern_body p" and ?s = "spec url"
  consider "pattern_matches_at ?b ?s" | i where "pattern_matches_at ?b (drop i ?s)" "i \<le> length ?s"
    | "pattern_occurs ?b ?s"
    using assms unfolding pattern_accepts_def Let_def list_ex_iff
    by (auto simp: less_Suc_eq_le simp del: upt_Suc split: if_splits)
  then show ?thesis
  proof cases
    case 1
    then have "0 \<le> length ?s \<and> pattern_matches_at ?b (drop 0 ?s)" by simp
    then show ?thesis unfolding pattern_occurs_iff by blast
  qed (auto simp: pattern_occurs_iff)
qed

lemma keyword_stands_in_url:
  assumes "keyword_in_pattern p k" "well_formed_pattern p" "DoesPatternMatchUrl p url"
    "standard_url url" "host_anchor_dcheck p url"
  shows "stands_in k (spec url)"
proof -
  define body where "body = pattern_body p"
  from assms(1) obtain a c d b where k: "p = a @ c # k @ d # b" "pattern_separator c" "pattern_separator d"
    "list_all is_keyword_char k" "2 \<le> length k"
    unfolding keyword_in_pattern_def by blast
  then have ne: "k \<noteq> []" "is_keyword_char (hd k)" by (cases k; simp)+
  have w: "leading_bars p \<le> 2" "end_anchored_ok body"
    using assms(2) by (simp_all add: well_formed_pattern_def body_def)
  have "replicate (leading_bars p) (CHR ''|'') @ body = a @ c # k @ d # b"
    using pattern_split [of p] k(1) body_def by simp
  note body = append_eq_bars [OF this ne]
  have inside: ?thesis if "pattern_matches_at body w" "spec url = x @ w" "body = a' @ c # k @ d # b" for w x a'
  proof -
    note eq = that(3)
    from that(1) w(2) k ne obtain u v where "w = u @ k @ v" "u \<noteq> []" "\<not> is_keyword_char (last u)"
      "v = [] \<or> \<not> is_keyword_char (hd v)"
      using keyword_inside_body [of a' c k d b w] unfolding eq by blast
    then have "spec url = (x @ u) @ k @ v \<and> (x @ u = [] \<or> \<not> is_keyword_char (last (x @ u))) \<and>
        (v = [] \<or> \<not> is_keyword_char (hd v))" using that(2) by simp
    then show ?thesis unfolding stands_in_def by blast
  qed
  note acc0 = DoesPatternMatchUrl_sound [OF assms(2,3)]
  note acc = acc0 [unfolded pattern_accepts_def Let_def, folded body_def]
  consider "\<exists>a'. body = a' @ c # k @ d # b" | "leading_bars p = Suc (length a)" "body = k @ d # b"
    using body by blast
  then show ?thesis
  proof cases
    case 1
    then obtain a' where a': "body = a' @ c # k @ d # b" by blast
    have "\<exists>x w. spec url = x @ w \<and> pattern_matches_at body w"
      using pattern_accepts_occurs [OF acc0] unfolding pattern_occurs_suffix body_def .
    then show ?thesis using inside a' by blast
  next
    case 2
    have nostar: "\<not> StartsWith body ''*''"
      using 2(2) ne by (cases k) (auto simp: is_keyword_char_def IsAsciiAlphaNumeric_def)
    have "leading_bars p = 1 \<or> leading_bars p = 2" using 2(1) w(1) by linarith
    then show ?thesis
    proof
      assume "leading_bars p = 1"
      then have "pattern_matches_at (k @ d # b) (spec url)" using acc 2(2) by simp
      from keyword_at_start [OF this k(4,3)] obtain t where
        "spec url = [] @ k @ t" "t = [] \<or> \<not> is_keyword_char (hd t)" by auto
      then show ?thesis unfolding stands_in_def by blast
    next
      assume two: "leading_bars p = 2"
      obtain skip where skip: "finds (spec url) body 0 = Some skip" "IsValidStartOfHost skip url"
        using assms(3) two nostar unfolding DoesPatternMatchUrl_cases [OF w(1)] Let_def body_def [symmetric]
        by (auto split: option.splits)
      have dc: "IsValidStartOfHost_dcheck skip url"
        using assms(5) two skip(1) by (simp add: host_anchor_dcheck_def body_def)
      have sl: "skip_length body i = i" for i
        using 2(2) ne by (cases k) (auto simp: skip_length_def is_keyword_char_def IsAsciiAlphaNumeric_def)
      have "found_at body (spec url) skip"
        using finds_sound [OF w(2) _ skip(1)] host_body_starts nostar by (simp add: body_def)
      then obtain i where i: "pattern_matches_at (k @ d # b) (drop i (spec url))" "skip = take i (spec url)"
        unfolding found_at_def sl unfolding 2(2) by blast
      from keyword_at_start [OF i(1) k(4,3)] obtain t where
        t: "drop i (spec url) = k @ t" "t = [] \<or> \<not> is_keyword_char (hd t)" .
      then have sp: "spec url = skip @ k @ t" using i(2) by (metis append_take_drop_id)
      have "skip \<noteq> [] \<and> \<not> is_keyword_char (last skip)"
        using host_boundary [OF assms(4) sp _ _ skip(2) dc] ne by simp
      then show ?thesis using sp t(2) unfolding stands_in_def by blast
    qed
  qed
qed

section \<open>Indexed search is a scan\<close>

lemma ToLowerChar_keyword [simp]: "is_keyword_char (ToLowerChar c) = is_keyword_char c"
proof -
  have "ToLowerChar c = CHR ''%'' \<longleftrightarrow> c = CHR ''%''"
    by (rule ToLowerChar_eq_nonalnum) (simp add: IsAsciiAlphaNumeric_def)
  then show ?thesis by (simp add: is_keyword_char_def)
qed

lemma stands_in_lower: "stands_in k s \<Longrightarrow> stands_in (ToLowerASCII k) (ToLowerASCII s)"
proof -
  assume "stands_in k s"
  then obtain a b where ab: "s = a @ k @ b" "a = [] \<or> \<not> is_keyword_char (last a)"
    "b = [] \<or> \<not> is_keyword_char (hd b)" unfolding stands_in_def by blast
  have "ToLowerASCII s = ToLowerASCII a @ ToLowerASCII k @ ToLowerASCII b" using ab(1) by simp
  moreover have "ToLowerASCII a = [] \<or> \<not> is_keyword_char (last (ToLowerASCII a))"
    using ab(2) by (cases "a = []") (simp_all add: ToLowerASCII_def last_map)
  moreover have "ToLowerASCII b = [] \<or> \<not> is_keyword_char (hd (ToLowerASCII b))"
    using ab(3) by (cases b) simp_all
  ultimately show ?thesis unfolding stands_in_def by blast
qed

lemma stands_in_url_keywords:
  assumes "stands_in k s" "list_all is_keyword_char k" "k \<noteq> []" "\<not> IsBadKeyword k"
  shows "k \<in> set (url_keywords s)"
  using assms url_keywords_complete unfolding stands_in_def by blast

text \<open>Filters the keyword index serves: regular expressions have no keyword; other patterns are ASCII,
  have their anchors at the ends and no keyword that lowercasing makes a bad one.\<close>

definition servable :: "flat_UrlFilter \<Rightarrow> bool" where
  "servable f \<longleftrightarrow> ExtractRegexFilterFromPattern (fu_pattern f) \<noteq> None \<or>
     ascii_string (fu_pattern f) \<and> well_formed_pattern (fu_pattern f) \<and>
     list_all (\<lambda>k. \<not> IsBadKeyword (ToLowerASCII k)) (filter_keywords (fu_pattern f))"

text \<open>URLs it serves: standard ones, whose lowercased text the URL parser leaves alone.\<close>

definition query_ok :: "url_query \<Rightarrow> bool" where
  "query_ok q \<longleftrightarrow> standard_url (q_url q) \<and> standard_url (q_lowercase_url q) \<and>
     spec (q_lowercase_url q) = ToLowerASCII (spec (q_url q))"

definition filter_dcheck :: "url_query \<Rightarrow> flat_UrlFilter \<Rightarrow> bool" where
  "filter_dcheck q f = host_anchor_dcheck (fu_pattern f) (if fu_match_case f then q_url q else q_lowercase_url q)"

lemma accepted_keyword_found:
  assumes "accepts env m q f" "indexed_under f k" "servable f" "query_ok q" "filter_dcheck q f"
  shows "k \<in> set (query_keywords q) \<union> {[]}"
proof (cases "k = []")
  case False
  then obtain k0 where k0: "ExtractRegexFilterFromPattern (fu_pattern f) = None"
    "k = ToLowerASCII k0" "k0 \<in> set (filter_keywords (fu_pattern f))"
    using assms(2) by (auto simp: indexed_under_def)
  then have sv: "ascii_string (fu_pattern f)" "well_formed_pattern (fu_pattern f)" "\<not> IsBadKeyword k"
    using assms(3) by (auto simp: servable_def list_all_iff)
  let ?u = "if fu_match_case f then q_url q else q_lowercase_url q"
  note kp = filter_keywords_in_pattern [OF k0(3) sv(1), THEN conjunct1]
  have "fu_pattern f \<noteq> []" using kp by (auto simp: keyword_in_pattern_def)
  then have "DoesPatternMatchUrl (fu_pattern f) ?u"
    using assms(1) k0(1) by (simp add: accepts_def FilterPatternMatches_def)
  moreover have "standard_url ?u" using assms(4) by (simp add: query_ok_def)
  ultimately have "stands_in k0 (spec ?u)"
    using keyword_stands_in_url [OF kp sv(2)] assms(5) by (simp add: filter_dcheck_def)
  then have "stands_in k (ToLowerASCII (spec ?u))" using stands_in_lower k0(2) by simp
  moreover have "ToLowerASCII (spec ?u) = spec (q_lowercase_url q)"
    using assms(4) by (simp add: query_ok_def)
  moreover have "list_all is_keyword_char k" "k \<noteq> []"
    using kp False k0(2) by (auto simp: keyword_in_pattern_def list_all_iff ToLowerASCII_def)
  ultimately show ?thesis
    using stands_in_url_keywords [of k] sv(3) by (simp add: query_keywords_def)
qed simp

lemma keywords_no_nul: "k \<in> set (query_keywords q) \<Longrightarrow> no_nul k"
proof -
  have sound: "k \<in> set (url_keywords_from s) \<Longrightarrow> null_free k" for s
  proof (induction s rule: UrlKeyword_induct)
    case (1 s)
    have "null_free (until_null (skip_nulls s))"
      by (auto simp: null_free_def until_null_def dest: set_takeWhileD)
    with 1 show ?case by (subst (asm) (2) url_keywords_from_step) (auto split: if_splits)
  qed
  assume "k \<in> set (query_keywords q)"
  then show "no_nul k" using sound by (simp add: query_keywords_def url_keywords_def null_free_def no_nul_def)
qed

lemma FindInternal_scan:
  assumes "sorted_keys index" "q = make_query env url ct doc key cat" "query_ok q"
    "\<And>k f. (k, f) \<in> entries index \<Longrightarrow> indexed_under f k \<and> servable f \<and> filter_dcheck q f"
  shows "set (FindInternal env m index url ct doc key cat FindAll) =
    {f \<in> snd ` entries index. accepts env m q f}"
proof -
  have key: "(\<exists>k\<in>set (query_keywords q) \<union> {[]}. f \<in> set (lookup_filters index k)) \<longleftrightarrow> f \<in> snd ` entries index"
    if "accepts env m q f" for f
  proof
    assume "\<exists>k\<in>set (query_keywords q) \<union> {[]}. f \<in> set (lookup_filters index k)"
    then obtain k where "k \<in> set (query_keywords q) \<union> {[]}" "f \<in> set (lookup_filters index k)" by blast
    moreover from this have "no_nul k" using keywords_no_nul by auto
    ultimately have "(k, f) \<in> entries index" using lookup_filters_entries [OF assms(1)] by blast
    then show "f \<in> snd ` entries index" by force
  next
    assume "f \<in> snd ` entries index"
    then obtain k where k: "(k, f) \<in> entries index" by force
    then have "k \<in> set (query_keywords q) \<union> {[]}"
      using accepted_keyword_found [OF that] assms(3,4) by blast
    moreover from this have "no_nul k" using keywords_no_nul by auto
    ultimately show "\<exists>k\<in>set (query_keywords q) \<union> {[]}. f \<in> set (lookup_filters index k)"
      using lookup_filters_entries [OF assms(1)] k by blast
  qed
  show ?thesis
    unfolding FindInternal_all Let_def assms(2) [symmetric] set_all_hits using key by blast
qed

section \<open>Searching a converted list\<close>

definition searchable_line :: "url_query \<Rightarrow> string \<Rightarrow> bool" where
  "searchable_line q line \<longleftrightarrow> no_nul line \<and>
     (case parse_line line of
        Parsed_url f \<Rightarrow> servable (CreateUrlFilter f) \<and> filter_dcheck q (CreateUrlFilter f)
      | _ \<Rightarrow> True)"

text \<open>The filters of a list that go to an index.\<close>

definition list_filters :: "bool \<Rightarrow> UrlFilterIndexRef \<Rightarrow> string list \<Rightarrow> flat_UrlFilter list" where
  "list_filters allow r lines =
     concat (map (\<lambda>line. case parse_line line of
         Parsed_url f \<Rightarrow> if r \<in> set (index_targets allow f) then [CreateUrlFilter f] else []
       | _ \<Rightarrow> []) lines)"

lemma set_list_filters: "set (list_filters allow r lines) = url_filters allow r lines"
  by (auto simp: list_filters_def url_filters_def split: parsed_line.splits if_splits) metis

lemma converted_index_scan:
  assumes "q = make_query env url ct doc key cat" "query_ok q" "list_all (searchable_line q) lines"
  shows "set (FindInternal env m (get_index r (ConvertFilters v lines u allow)) url ct doc key cat FindAll)
    = {f \<in> set (list_filters allow r lines). accepts env m q f}"
proof -
  let ?sub = "ConvertFilters v lines u allow"
  have "url_contents lines allow ?sub" using ConvertFilters_contents by (simp add: contents_def)
  then have c: "snd ` entries (get_index r ?sub) = url_filters allow r lines"
    "\<And>k f. (k, f) \<in> entries (get_index r ?sub) \<Longrightarrow> indexed_under f k"
    unfolding url_contents_def by blast+
  have "list_all no_nul lines" using assms(3) by (auto simp: list_all_iff searchable_line_def)
  then have "all_sorted ?sub" by (rule ConvertFilters_sorted)
  then have srt: "sorted_keys (get_index r ?sub)" unfolding all_sorted_def by blast
  have "indexed_under f k \<and> servable f \<and> filter_dcheck q f" if "(k, f) \<in> entries (get_index r ?sub)" for k f
  proof -
    have "f \<in> url_filters allow r lines" using that c(1) by force
    then obtain line g where "line \<in> set lines" "parse_line line = Parsed_url g" "f = CreateUrlFilter g"
      by (auto simp: url_filters_def)
    moreover from this have "searchable_line q line" using assms(3) by (simp add: list_all_iff)
    ultimately show ?thesis using c(2) [OF that] by (simp add: searchable_line_def)
  qed
  from FindInternal_scan [OF srt assms(1,2) this] show ?thesis
    unfolding c(1) set_list_filters .
qed

lemma converted_index_found:
  assumes "q = make_query env url ct doc key cat" "query_ok q" "list_all (searchable_line q) lines"
  shows "FindInternal env m (get_index r (ConvertFilters v lines u allow)) url ct doc key cat FindFirst \<noteq> []
    \<longleftrightarrow> list_ex (accepts env m q) (list_filters allow r lines)"
proof -
  let ?all = "FindInternal env m (get_index r (ConvertFilters v lines u allow)) url ct doc key cat FindAll"
  have "take 1 ?all \<noteq> [] \<longleftrightarrow> set ?all \<noteq> {}" by (cases ?all) auto
  then show ?thesis
    unfolding FindInternal_first converted_index_scan [OF assms] list_ex_iff by blast
qed

section \<open>Examples\<close>

definition example_regex :: "string \<Rightarrow> string \<Rightarrow> bool" where
  "example_regex e s = contains s e"

definition example_env :: net_env where
  "example_env =
     \<lparr>env_parse_url = simple_gurl, env_SameDomainOrHost = (\<lambda>a b. host a = host b),
      env_engines = \<lparr>re2_compile = (\<lambda>e cs. Some (example_regex e)), icu_compile = (\<lambda>e cs. None)\<rparr>\<rparr>"

definition example_lines :: "string list" where
  "example_lines =
     [''! a comment'', ''||ads.example.com/banner/$script'', ''@@||example.com^$document'',
      ''/track[0-9]/$image'', ''news.com##.ad'']"

definition example_url :: gurl where
  "example_url = simple_gurl ''https://ads.example.com/banner/1.js''"

definition example_query :: url_query where
  "example_query = make_query example_env example_url (Some CT_Script) ''news.com'' [] Blocking"

definition example_subscription :: InstalledSubscriptionImpl where
  "example_subscription =
     new_InstalledSubscriptionImpl example_env
       (ConvertFilters [] example_lines (simple_gurl ''https://lists.example.org/list.txt'') False) Installed 0"

lemma example_query_ok: "query_ok example_query"
  by code_simp

lemma example_lines_searchable: "list_all (searchable_line example_query) example_lines"
  by code_simp

section \<open>Properties\<close>

text \<open>C4: A search of any of the fourteen URL indexes of a converted list returns exactly the list's
  filters for that index that the request passes, as a scan over all lines would: no filter is lost to
  the keyword it is stored under. The hypotheses leave out patterns the matcher reads differently from
  the specification (bars inside, keywords that are bad only in lower case) and URLs that are not of a
  standard scheme.\<close>

theorem indexed_search_is_a_scan:
  assumes "query_ok (make_query env url ct doc key cat)"
    "list_all (searchable_line (make_query env url ct doc key cat)) lines"
  shows "set (FindInternal env m (get_index r (ConvertFilters v lines u allow)) url ct doc key cat FindAll)
    = {f \<in> set (list_filters allow r lines). accepts env m (make_query env url ct doc key cat) f}"
  by (rule converted_index_scan [OF refl assms])

theorem indexed_search_is_a_scan_witness:
  "set (FindInternal example_env empty_RegexMatcher
      (get_index Subresource_block (ConvertFilters [] example_lines empty_gurl False))
      example_url (Some CT_Script) ''news.com'' [] Blocking FindAll)
    = {f \<in> set (list_filters False Subresource_block example_lines).
        accepts example_env empty_RegexMatcher example_query f}"
  using indexed_search_is_a_scan [of example_env example_url "Some CT_Script" "''news.com''" "[]" Blocking
      example_lines] example_query_ok example_lines_searchable
  unfolding example_query_def by blast

text \<open>\<open>HasUrlFilter\<close> on an installed list is true exactly when some line of the list is a blocking
  (or, for the allowing category, an allowing) filter for subresources that passes the content type,
  domain, site key, party and pattern tests.\<close>

theorem HasUrlFilter_iff_some_line:
  assumes "query_ok (make_query env url (Some ct) doc key cat)"
    "list_all (searchable_line (make_query env url (Some ct) doc key cat)) lines"
  shows "HasUrlFilter env (new_InstalledSubscriptionImpl env (ConvertFilters v lines u allow) st t)
      url doc ct key cat \<longleftrightarrow>
    list_ex (accepts env
        (PreBuildRegexPatternsWithNoKeyword (env_engines env) (ConvertFilters v lines u allow) empty_RegexMatcher)
        (make_query env url (Some ct) doc key cat))
      (list_filters allow (if cat = Allowing then Subresource_allow else Subresource_block) lines)"
  using converted_index_found [OF refl assms, of _ "if cat = Allowing then Subresource_allow else Subresource_block"]
  by (cases "cat = Allowing") (simp_all add: HasUrlFilter_def new_InstalledSubscriptionImpl_def)

theorem HasUrlFilter_iff_some_line_witness:
  "HasUrlFilter example_env example_subscription example_url ''news.com'' CT_Script [] Blocking \<and>
   list_ex (accepts example_env
       (PreBuildRegexPatternsWithNoKeyword (env_engines example_env)
         (ConvertFilters [] example_lines (simple_gurl ''https://lists.example.org/list.txt'') False) empty_RegexMatcher)
       example_query) (list_filters False Subresource_block example_lines)"
proof -
  have "HasUrlFilter example_env example_subscription example_url ''news.com'' CT_Script [] Blocking"
    by code_simp
  moreover have "Blocking \<noteq> Allowing" by simp
  ultimately show ?thesis
    using HasUrlFilter_iff_some_line [of example_env example_url CT_Script "''news.com''" "[]" Blocking
        example_lines "[]" "simple_gurl ''https://lists.example.org/list.txt''" False Installed 0,
        folded example_query_def example_subscription_def, OF example_query_ok example_lines_searchable]
    by (simp only: if_False simp_thms)
qed

text \<open>The two strategies agree: \<open>FindFirst\<close> returns the first result of \<open>FindAll\<close>, or none when that has
  none, for every index, request and list of filters.\<close>

theorem find_first_of_find_all:
  "FindInternal env m index url ct doc key cat FindFirst =
     take 1 (FindInternal env m index url ct doc key cat FindAll)"
  by (rule FindInternal_first)

end
