(* ===== verification/Elemhide_Search.thy ===== *)
theory Elemhide_Search
  imports Search_Completeness
begin

text \<open>
  The queries that go by domain: element hiding, emulation and snippets look up the host and each of its
  parent domains. On a converted list they yield exactly what a scan over the filters of the list
  would, so storing a filter under its include domains loses nothing.
\<close>

section \<open>Selectors\<close>

definition selector_active :: "string \<Rightarrow> flat_ElemHideFilter \<Rightarrow> bool" where
  "selector_active d f \<longleftrightarrow>
     (fe_include_domains f = [] \<or> DomainOnList d (fe_include_domains f)) \<and>
     \<not> DomainOnList d (fe_exclude_domains f)"

lemma selectors_loop_filter:
  "selectors_loop d fs out = out @ map (\<lambda>f. c_str (fe_selector f)) (filter (selector_active d) fs)"
  by (induction fs arbitrary: out) (auto simp: Let_def selector_active_def DomainOnList_def)

lemma GetSelectorsForDomain_lookup:
  "GetSelectorsForDomain (LookupByKey idx k) d =
     map (\<lambda>f. c_str (fe_selector f)) (filter (selector_active d) (lookup_filters idx k))"
  by (simp add: GetSelectorsForDomain_def lookup_filters_def selectors_loop_filter split: option.splits)

definition domain_selectors :: "flat_ElemHideFilter keyed_vector \<Rightarrow> string \<Rightarrow> string list \<Rightarrow> string list" where
  "domain_selectors idx d ks =
     concat (map (\<lambda>k. GetSelectorsForDomain (LookupByKey idx k) d) ks)"

lemma foldl_selectors:
  "foldl (\<lambda>result sd.
       \<lparr>elemhide_selectors = elemhide_selectors result @ GetSelectorsForDomain (LookupByKey i (snd sd)) d,
        elemhide_exceptions = elemhide_exceptions result @ GetSelectorsForDomain (LookupByKey j (snd sd)) d\<rparr>)
     \<lparr>elemhide_selectors = a, elemhide_exceptions = b\<rparr> ks =
   \<lparr>elemhide_selectors = a @ domain_selectors i d (map snd ks),
    elemhide_exceptions = b @ domain_selectors j d (map snd ks)\<rparr>"
  by (induction ks arbitrary: a b) (simp_all add: domain_selectors_def)

definition domain_lookup_keys :: "bool \<Rightarrow> string \<Rightarrow> string list" where
  "domain_lookup_keys domain_specific d = (if domain_specific then [] else [[]]) @ map snd (subdomains d)"

lemma GetElemhideSelectors_keys:
  "GetElemhideSelectors s url ds =
     (let d = ToLowerASCII (host url); ks = domain_lookup_keys ds d
      in \<lparr>elemhide_selectors = domain_selectors (fb_elemhide (is_index s)) d ks,
          elemhide_exceptions = domain_selectors (fb_elemhide_exception (is_index s)) d ks\<rparr>)"
  by (simp add: GetElemhideSelectors_def foldl_selectors domain_lookup_keys_def Let_def
      domain_selectors_def)

lemma GetElemhideEmulationSelectors_keys:
  "GetElemhideEmulationSelectors s url =
     (let d = host url; ks = domain_lookup_keys True d
      in \<lparr>elemhide_selectors = domain_selectors (fb_elemhide_emulation (is_index s)) d ks,
          elemhide_exceptions = domain_selectors (fb_elemhide_exception (is_index s)) d ks\<rparr>)"
  by (simp add: GetElemhideEmulationSelectors_def foldl_selectors domain_lookup_keys_def Let_def)

text \<open>A host as URL parsers produce it: not empty, no dot at either end, no \<open>NUL\<close>.\<close>

definition plain_host :: "string \<Rightarrow> bool" where
  "plain_host d \<longleftrightarrow> trimmed_domain d \<and> no_nul d"

lemma domain_lookup_keys_set:
  assumes "plain_host d"
  shows "set (domain_lookup_keys ds d) = (if ds then {} else {[]}) \<union> set (dot_suffixes d)"
  using map_snd_subdomains [of d] assms
  by (simp add: domain_lookup_keys_def plain_host_def flip: set_map)

lemma dot_suffixes_plain:
  assumes "plain_host d" "k \<in> set (dot_suffixes d)"
  shows "no_nul k" "k \<noteq> []"
proof -
  from assms(2) consider "k = d" | x where "d = x @ ''.'' @ k" unfolding dot_suffixes_iff by blast
  then show "no_nul k" "k \<noteq> []"
    using assms(1) by (cases; auto simp: plain_host_def trimmed_domain_def)+
qed

text \<open>Filters stored under their include domains, or under the empty key when they have none.\<close>

definition stored_by_domain :: "flat_ElemHideFilter keyed_vector \<Rightarrow> flat_ElemHideFilter set \<Rightarrow> bool" where
  "stored_by_domain idx fs \<longleftrightarrow>
     sorted_keys idx \<and> entries idx = {(k, f) | k f. f \<in> fs \<and> k \<in> set (domain_keys (fe_include_domains f))}"

lemma domain_selectors_scan:
  assumes "stored_by_domain idx fs" "plain_host d"
  shows "set (domain_selectors idx d (domain_lookup_keys ds d)) =
    {c_str (fe_selector f) | f. f \<in> fs \<and> selector_active d f \<and> (ds \<longrightarrow> fe_include_domains f \<noteq> [])}"
proof -
  have srt: "sorted_keys idx"
    and ent: "(k, f) \<in> entries idx \<longleftrightarrow> f \<in> fs \<and> k \<in> set (domain_keys (fe_include_domains f))" for k f
    using assms(1) by (auto simp: stored_by_domain_def)
  have nn: "no_nul k" if "k \<in> set (domain_lookup_keys ds d)" for k
    using that dot_suffixes_plain(1) [OF assms(2)] domain_lookup_keys_set [OF assms(2)]
    by (auto split: if_splits)
  have key: "(\<exists>k\<in>set (domain_lookup_keys ds d). (k, f) \<in> entries idx) \<longleftrightarrow>
      f \<in> fs \<and> (ds \<longrightarrow> fe_include_domains f \<noteq> [])" if act: "selector_active d f" for f
  proof (cases "fe_include_domains f = []")
    case True
    then show ?thesis
      using dot_suffixes_plain(2) [OF assms(2)] unfolding ent domain_lookup_keys_set [OF assms(2)]
      by (auto simp: domain_keys_def)
  next
    case False
    then obtain g where "g \<in> set (fe_include_domains f)" "DomainMatches g d"
      using act by (auto simp: selector_active_def DomainOnList_iff)
    then have "g \<in> set (domain_lookup_keys ds d) \<and> g \<in> set (domain_keys (fe_include_domains f))"
      using False unfolding domain_lookup_keys_set [OF assms(2)]
      by (auto simp: domain_keys_def DomainMatches_suffixes)
    then show ?thesis using False unfolding ent by blast
  qed
  have "set (domain_selectors idx d (domain_lookup_keys ds d)) =
      {c_str (fe_selector f) | f. selector_active d f \<and>
        (\<exists>k\<in>set (domain_lookup_keys ds d). f \<in> set (lookup_filters idx k))}"
    by (auto simp: domain_selectors_def GetSelectorsForDomain_lookup)
  also have "\<dots> = {c_str (fe_selector f) | f. selector_active d f \<and>
        (\<exists>k\<in>set (domain_lookup_keys ds d). (k, f) \<in> entries idx)}"
    using lookup_filters_entries [OF srt nn] by blast
  also have "\<dots> = {c_str (fe_selector f) | f. f \<in> fs \<and> selector_active d f \<and>
        (ds \<longrightarrow> fe_include_domains f \<noteq> [])}"
    using key by blast
  finally show ?thesis .
qed

section \<open>Converted lists\<close>

definition content_filters :: "FilterType \<Rightarrow> string list \<Rightarrow> flat_ElemHideFilter list" where
  "content_filters t lines =
     concat (map (\<lambda>line. case parse_line line of
         Parsed_content f \<Rightarrow> if cf_type f = t then [CreateElemHideFilter f] else []
       | _ \<Rightarrow> []) lines)"

lemma in_content_filters:
  "f \<in> set (content_filters t lines) \<longleftrightarrow>
     (\<exists>c. (\<exists>line\<in>set lines. parse_line line = Parsed_content c) \<and> cf_type c = t \<and> f = CreateElemHideFilter c)"
  by (auto simp: content_filters_def split: parsed_line.splits if_splits) (metis, metis parsed_line.inject(1))

lemma content_filters_stored:
  "content_entries t lines =
     {(k, f) | k f. f \<in> set (content_filters t lines) \<and> k \<in> set (domain_keys (fe_include_domains f))}"
proof -
  have "fe_include_domains (CreateElemHideFilter c) = include_domains (cf_domains c)" for c
    by (simp add: CreateElemHideFilter_def)
  then show ?thesis unfolding content_entries_def in_content_filters by auto blast
qed

definition converted :: "string \<Rightarrow> string list \<Rightarrow> gurl \<Rightarrow> bool \<Rightarrow> net_env \<Rightarrow> InstalledSubscriptionImpl" where
  "converted v lines u allow env =
     new_InstalledSubscriptionImpl env (ConvertFilters v lines u allow) Installed 0"

lemma is_index_converted [simp]: "is_index (converted v lines u allow env) = ConvertFilters v lines u allow"
  by (simp add: converted_def new_InstalledSubscriptionImpl_def)

lemma converted_stored_by_domain:
  assumes "list_all no_nul lines"
  shows "stored_by_domain (fb_elemhide (ConvertFilters v lines u allow)) (set (content_filters FT_ElemHide lines))"
    "stored_by_domain (fb_elemhide_exception (ConvertFilters v lines u allow))
       (set (content_filters FT_ElemHideException lines))"
    "stored_by_domain (fb_elemhide_emulation (ConvertFilters v lines u allow))
       (set (content_filters FT_ElemHideEmulation lines))"
  using ConvertFilters_contents [of lines allow v u] ConvertFilters_sorted [OF assms, of v u allow]
  by (simp_all add: stored_by_domain_def contents_def all_sorted_def content_filters_stored)

lemma elemhide_selectors_of_list:
  assumes "list_all no_nul lines" "plain_host (ToLowerASCII (host url))"
  shows "set (elemhide_selectors (GetElemhideSelectors (converted v lines u allow env) url ds)) =
      {c_str (fe_selector f) | f. f \<in> set (content_filters FT_ElemHide lines) \<and>
        selector_active (ToLowerASCII (host url)) f \<and> (ds \<longrightarrow> fe_include_domains f \<noteq> [])} \<and>
    set (elemhide_exceptions (GetElemhideSelectors (converted v lines u allow env) url ds)) =
      {c_str (fe_selector f) | f. f \<in> set (content_filters FT_ElemHideException lines) \<and>
        selector_active (ToLowerASCII (host url)) f \<and> (ds \<longrightarrow> fe_include_domains f \<noteq> [])}"
  using domain_selectors_scan [OF converted_stored_by_domain(1) [OF assms(1)] assms(2)]
    domain_selectors_scan [OF converted_stored_by_domain(2) [OF assms(1)] assms(2)]
  by (simp add: GetElemhideSelectors_keys Let_def)

section \<open>Properties\<close>

text \<open>Element hiding on an installed list: the selectors for a page are those of the list's hiding
  filters that are active on the page's host (an include domain that is the host or a parent of it,
  where there are includes, and no such exclude domain); a domain-specific query leaves out the filters
  without include domains. The same holds for the exceptions.\<close>

theorem elemhide_selectors_are_those_of_the_list:
  assumes "list_all no_nul lines" "plain_host (ToLowerASCII (host url))"
  shows "set (elemhide_selectors (GetElemhideSelectors (converted v lines u allow env) url ds)) =
      {c_str (fe_selector f) | f. f \<in> set (content_filters FT_ElemHide lines) \<and>
        selector_active (ToLowerASCII (host url)) f \<and> (ds \<longrightarrow> fe_include_domains f \<noteq> [])} \<and>
    set (elemhide_exceptions (GetElemhideSelectors (converted v lines u allow env) url ds)) =
      {c_str (fe_selector f) | f. f \<in> set (content_filters FT_ElemHideException lines) \<and>
        selector_active (ToLowerASCII (host url)) f \<and> (ds \<longrightarrow> fe_include_domains f \<noteq> [])}"
  using assms by (rule elemhide_selectors_of_list)

theorem elemhide_selectors_are_those_of_the_list_witness:
  "set (elemhide_selectors (GetElemhideSelectors
      (converted [] [''news.com##.ad'', ''##.banner''] empty_gurl False example_env)
      (simple_gurl ''https://www.news.com/'') True)) =
    {c_str (fe_selector f) | f. f \<in> set (content_filters FT_ElemHide [''news.com##.ad'', ''##.banner'']) \<and>
      selector_active (ToLowerASCII (host (simple_gurl ''https://www.news.com/''))) f \<and>
      (True \<longrightarrow> fe_include_domains f \<noteq> [])} \<and>
   elemhide_selectors (GetElemhideSelectors
      (converted [] [''news.com##.ad'', ''##.banner''] empty_gurl False example_env)
      (simple_gurl ''https://www.news.com/'') True) = [''.ad'']"
proof -
  have "list_all no_nul [''news.com##.ad'', ''##.banner'']" by code_simp
  moreover have "plain_host (ToLowerASCII (host (simple_gurl ''https://www.news.com/'')))" by code_simp
  moreover have "elemhide_selectors (GetElemhideSelectors
      (converted [] [''news.com##.ad'', ''##.banner''] empty_gurl False example_env)
      (simple_gurl ''https://www.news.com/'') True) = [''.ad'']" by code_simp
  ultimately show ?thesis
    using elemhide_selectors_are_those_of_the_list [of "[''news.com##.ad'', ''##.banner'']"
        "simple_gurl ''https://www.news.com/''" "[]" empty_gurl False example_env True] by blast
qed

text \<open>Emulation filters are looked up the same way, and always domain-specifically: the parser lets
  none through that has no include domain.\<close>

theorem emulation_selectors_are_those_of_the_list:
  assumes "list_all no_nul lines" "plain_host (host url)"
  shows "set (elemhide_selectors (GetElemhideEmulationSelectors (converted v lines u allow env) url)) =
      {c_str (fe_selector f) | f. f \<in> set (content_filters FT_ElemHideEmulation lines) \<and>
        selector_active (host url) f}"
proof -
  have "fe_include_domains f \<noteq> []" if "f \<in> set (content_filters FT_ElemHideEmulation lines)" for f
  proof -
    from that obtain line c where c: "parse_line line = Parsed_content c" "cf_type c = FT_ElemHideEmulation"
      "f = CreateElemHideFilter c"
      unfolding in_content_filters by blast
    obtain dl sel t where "ContentFilter_FromString dl t sel = Some c"
      using c(1) by (auto simp: parse_line_def Let_def split: if_splits option.splits FilterType.splits)
    then show ?thesis
      using ContentFilter_FromString_Some(1,5) [of dl t sel c] c(2,3) by (simp add: CreateElemHideFilter_def)
  qed
  then show ?thesis
    using domain_selectors_scan [OF converted_stored_by_domain(3) [OF assms(1)] assms(2), of v u allow True]
    by (auto simp: GetElemhideEmulationSelectors_keys Let_def)
qed

theorem emulation_selectors_are_those_of_the_list_witness:
  "set (elemhide_selectors (GetElemhideEmulationSelectors
      (converted [] [''news.com#?#.ad'', ''##.banner''] empty_gurl False example_env)
      (simple_gurl ''https://www.news.com/''))) =
    {c_str (fe_selector f) | f.
      f \<in> set (content_filters FT_ElemHideEmulation [''news.com#?#.ad'', ''##.banner'']) \<and>
      selector_active (host (simple_gurl ''https://www.news.com/'')) f}"
proof -
  have "list_all no_nul [''news.com#?#.ad'', ''##.banner'']" by code_simp
  moreover have "plain_host (host (simple_gurl ''https://www.news.com/''))" by code_simp
  ultimately show ?thesis by (rule emulation_selectors_are_those_of_the_list)
qed

end
