(* ===== verification/Parser_Properties.thy ===== *)
theory Parser_Properties
  imports Converter_Facts
begin

unbundle bit_operations_syntax

text \<open>
  What the parser and the converter guarantee: the shape of every filter that gets through, the meaning
  of type options, the round trip of snippet scripts, the bounds of the expiration time, and what a
  converted subscription may hold.
\<close>

section \<open>Options that name content types\<close>

definition type_option :: "bool \<Rightarrow> ContentType \<Rightarrow> string" where
  "type_option neg t = (if neg then ''~'' else []) @ ToLowerASCII (ContentTypeToString t)"

definition join_options :: "string list \<Rightarrow> string" where
  "join_options = SerializeLanguages"

definition plain_type_name :: "ContentType \<Rightarrow> bool" where
  "plain_type_name t \<longleftrightarrow>
     (let s = ToLowerASCII (ContentTypeToString t)
      in find_char (CHR ''='') s = None \<and> RemoveChars (ToLowerASCII s) kWhitespaceASCII = s \<and>
         s \<notin> {''match-case'', ''popup'', ''third-party'', ''rewrite'', ''domain'', ''sitekey'', ''csp'', ''header''} \<and>
         s \<noteq> [] \<and> hd s \<noteq> CHR ''~'' \<and> CHR '','' \<notin> set s)"

lemma resource_types_plain: "list_all plain_type_name resource_types"
  by code_simp

lemma parse_type_option:
  assumes "t \<in> set resource_types"
  shows "parse_option (type_option neg t) (o', v) = Some (add_content_type neg t o', v)"
proof -
  let ?s = "ToLowerASCII (ContentTypeToString t)"
  have p: "plain_type_name t" using resource_types_plain assms by (simp add: list_all_iff)
  then have s: "find_char (CHR ''='') ?s = None" "RemoveChars (ToLowerASCII ?s) kWhitespaceASCII = ?s"
    "?s \<noteq> []" "hd ?s \<noteq> CHR ''~''"
    and k: "?s \<noteq> ''match-case''" "?s \<noteq> ''popup''" "?s \<noteq> ''third-party''" "?s \<noteq> ''rewrite''"
      "?s \<noteq> ''domain''" "?s \<noteq> ''sitekey''" "?s \<noteq> ''csp''" "?s \<noteq> ''header''"
    by (simp_all add: plain_type_name_def Let_def)
  have ct: "ContentTypeFromString ?s = t" by (rule ContentType_name_roundtrip [OF assms])
  have "t \<noteq> CT_Unknown" using assms by (auto simp: resource_types_def)
  then have key: "parse_keyed_option neg ?s v o' = Some (add_content_type neg t o', v)"
    using k ct by (simp add: parse_keyed_option_def Let_def)
  show ?thesis
    using s key by (cases neg)
      (simp_all add: type_option_def parse_option_def split_option_def Let_def del: ToLowerASCII_simps(5))
qed

definition add_types :: "bool \<Rightarrow> ContentType list \<Rightarrow> UrlFilterOptions \<Rightarrow> UrlFilterOptions" where
  "add_types neg ts o' = foldl (\<lambda>o' t. add_content_type neg t o') o' ts"

lemma parse_type_options:
  "set ts \<subseteq> set resource_types \<Longrightarrow>
     parse_options (map (type_option neg) ts) (o', v) = Some (add_types neg ts o', v)"
  by (induction ts arbitrary: o') (simp_all add: parse_type_option add_types_def)

lemma split_join:
  "list_all (\<lambda>l. l \<noteq> [] \<and> CHR '','' \<notin> set l) ls \<Longrightarrow>
     SplitStringNonempty (join_options ls) (CHR '','') KEEP_WHITESPACE = ls"
proof (induction ls)
  case Nil
  then show ?case by (simp add: join_options_def SerializeLanguages_def SplitStringNonempty_def)
next
  case (Cons l ls)
  then show ?case
    by (auto simp: join_options_def SerializeLanguages_Cons SplitStringNonempty_def
        split_on_append split_on_id)
qed

lemma type_option_plain:
  assumes "set ts \<subseteq> set resource_types"
  shows "list_all (\<lambda>l. l \<noteq> [] \<and> CHR '','' \<notin> set l) (map (type_option neg) ts)"
proof -
  have "plain_type_name t" if "t \<in> set ts" for t
    using resource_types_plain that assms by (auto simp: list_all_iff)
  then show ?thesis by (auto simp: list_all_iff type_option_def plain_type_name_def Let_def)
qed

abbreviation passes :: "content_mask \<Rightarrow> ContentType \<Rightarrow> bool" where
  "passes m t \<equiv> m AND content_type_value t \<noteq> 0"

lemma type_bits_distinct:
  "t \<in> set resource_types \<Longrightarrow> t' \<in> set resource_types \<Longrightarrow>
     content_type_value t AND content_type_value t' = (if t = t' then content_type_value t else 0)"
  by (cases t; cases t'; simp add: resource_types_def)

lemma type_bits_spare:
  "t \<in> set resource_types \<Longrightarrow> content_type_value t AND 64 = 0 \<and> content_type_value t \<noteq> 0 \<and>
     content_type_value CT_Default AND content_type_value t = content_type_value t"
  by (cases t) (simp_all add: resource_types_def)

lemma not_and_absorb: "a AND b = 0 \<Longrightarrow> NOT a AND b = b" for a b :: content_mask
proof -
  assume a: "a AND b = 0"
  have "b = (a OR NOT a) AND b" by simp
  also have "\<dots> = (a AND b) OR (NOT a AND b)" by (simp only: bit.conj_disj_distrib2)
  finally show "NOT a AND b = b" using a by simp
qed

lemma or_zero_iff: "a OR b = 0 \<longleftrightarrow> a = 0 \<and> b = 0" for a b :: content_mask
  by (rule or_eq_0_iff)

lemma and_not_passes:
  assumes "t \<in> set resource_types" "t' \<in> set resource_types"
  shows "passes (m AND NOT (content_type_value t)) t' \<longleftrightarrow> passes m t' \<and> t \<noteq> t'"
proof (cases "t = t'")
  case True
  then show ?thesis by (simp add: and.assoc)
next
  case False
  have "NOT (content_type_value t) AND content_type_value t' = content_type_value t'"
    using type_bits_distinct [OF assms] False by (simp add: not_and_absorb)
  then show ?thesis using False by (simp add: and.assoc)
qed

lemma or_passes:
  assumes "t \<in> set resource_types" "t' \<in> set resource_types"
  shows "passes (m OR content_type_value t) t' \<longleftrightarrow> passes m t' \<or> t = t'"
proof -
  have "(m OR content_type_value t) AND content_type_value t' =
      (m AND content_type_value t') OR (content_type_value t AND content_type_value t')"
    by (simp add: bit.conj_disj_distrib2)
  then show ?thesis using type_bits_distinct [OF assms] type_bits_spare [OF assms(1)]
    by (auto simp: or_zero_iff)
qed

lemma add_types_excluded:
  assumes "set ts \<subseteq> set resource_types" "content_types o' AND 64 = 64" "t \<in> set resource_types"
  shows "(passes (content_types (add_types True ts o')) t \<longleftrightarrow> passes (content_types o') t \<and> t \<notin> set ts) \<and>
    content_types (add_types True ts o') AND 64 = 64"
  using assms
proof (induction ts arbitrary: o')
  case (Cons u ts)
  let ?o = "add_content_type True u o'"
  have nz: "content_types o' \<noteq> 0" using Cons.prems(2) by auto
  have u: "u \<in> set resource_types" using Cons.prems(1) by simp
  have m: "content_types ?o = content_types o' AND NOT (content_type_value u)"
    using nz by (simp add: add_content_type_def)
  have "NOT (content_type_value u) AND 64 = 64"
    using type_bits_spare [OF u] by (simp add: not_and_absorb)
  then have b: "content_types ?o AND 64 = 64"
    using Cons.prems(2) m by (metis and.assoc and.commute)
  have rec: "add_types True (u # ts) o' = add_types True ts ?o" by (simp add: add_types_def)
  show ?case unfolding rec
    using Cons.IH [of ?o] Cons.prems(1,3) b m and_not_passes [OF u Cons.prems(3)] by auto
qed (simp add: add_types_def)

lemma add_types_included:
  assumes "set ts \<subseteq> set resource_types" "t \<in> set resource_types"
  shows "passes (content_types (add_types False ts o')) t \<longleftrightarrow> passes (content_types o') t \<or> t \<in> set ts"
  using assms
proof (induction ts arbitrary: o')
  case (Cons u ts)
  have "add_types False (u # ts) o' = add_types False ts (add_content_type False u o')"
    by (simp add: add_types_def)
  moreover have "content_types (add_content_type False u o') = content_types o' OR content_type_value u"
    by (simp add: add_content_type_def)
  ultimately show ?case using Cons or_passes [of u t "content_types o'"] by auto
qed (simp add: add_types_def)

lemma finish_passes:
  "content_types o' \<noteq> 0 \<Longrightarrow> content_types (finish_options o') = content_types o'"
  by (simp add: finish_options_def Let_def)

text \<open>A list of positive content types selects exactly these types, a list of negated ones exactly
  the others; the options always parse.\<close>

theorem type_options_select:
  assumes "set ts \<subseteq> set resource_types" "ts \<noteq> []" "t \<in> set resource_types"
  shows "\<exists>o'. UrlFilterOptions_FromString (join_options (map (type_option neg) ts)) = Some o' \<and>
    (passes (content_types o') t \<longleftrightarrow> (if neg then t \<notin> set ts else t \<in> set ts))"
proof -
  let ?o = "add_types neg ts initial_options"
  have "UrlFilterOptions_FromString (join_options (map (type_option neg) ts)) = Some (finish_options ?o)"
    unfolding UrlFilterOptions_FromString_def split_join [OF type_option_plain [OF assms(1)]]
      parse_type_options [OF assms(1)] by simp
  moreover have "content_types ?o \<noteq> 0 \<and> (passes (content_types ?o) t \<longleftrightarrow> (if neg then t \<notin> set ts else t \<in> set ts))"
  proof (cases neg)
    case True
    from assms(2) obtain u us where ts: "ts = u # us" by (cases ts) auto
    let ?d = "initial_options\<lparr>content_types := content_type_value CT_Default\<rparr>"
    have "add_content_type True u initial_options = add_content_type True u ?d"
      by (simp add: add_content_type_def initial_options_def)
    then have eq: "add_types True ts initial_options = add_types True ts ?d"
      by (simp add: add_types_def ts)
    have d: "content_types ?d AND 64 = 64" by simp
    have "content_types (add_types True ts ?d) AND 64 = 64" by (rule add_types_excluded [OF assms(1) d assms(3), THEN conjunct2])
    then have "content_types (add_types True ts ?d) \<noteq> 0" by auto
    moreover have "passes (content_types ?d) t" using type_bits_spare [OF assms(3)] by simp
    ultimately show ?thesis using True eq add_types_excluded [OF assms(1) d assms(3)] by simp
  next
    case False
    have z: "content_types initial_options = 0" by (simp add: initial_options_def)
    have 1: "passes (content_types ?o) t' \<longleftrightarrow> t' \<in> set ts" if "t' \<in> set resource_types" for t'
      using add_types_included [OF assms(1) that, of initial_options] z False by simp
    then have "content_types ?o \<noteq> 0" using assms(1,2) by (cases ts) (auto, metis and_zero_eq and.commute)
    then show ?thesis using 1 [OF assms(3)] False by simp
  qed
  ultimately show ?thesis using finish_passes by auto
qed

theorem type_options_select_witness:
  "\<exists>o'. UrlFilterOptions_FromString (join_options (map (type_option True) [CT_Script, CT_Image])) = Some o' \<and>
    (passes (content_types o') CT_Xmlhttprequest \<longleftrightarrow>
       (if True then CT_Xmlhttprequest \<notin> set [CT_Script, CT_Image] else CT_Xmlhttprequest \<in> set [CT_Script, CT_Image]))"
  by (rule type_options_select) (simp_all add: resource_types_def)

section \<open>Filters that get through the parser\<close>

text \<open>C33: Every URL filter the parser accepts is well formed: a rewrite is restricted to domains, is not
  third party and starts at a host or matches everything; a blocking filter has no empty CSP or header
  and no document exceptions without a subresource; the pattern is lower case unless it is a regular
  expression or \<open>match-case\<close>; the content mask stays within the known types and is not empty, domains and site
  keys are normalised and no unsafe CSP directive gets in.\<close>

theorem accepted_url_filters_are_well_formed:
  assumes "UrlFilter_FromString line = Some f"
  shows "url_filter_ok f"
  using assms by (rule UrlFilter_FromString_ok)

theorem accepted_url_filters_are_well_formed_witness:
  "\<exists>f. UrlFilter_FromString ''||ads.com^$rewrite=abp-resource:blank-js,domain=a.com'' = Some f \<and> url_filter_ok f \<and>
     rewrite (uf_options f) = Some AbpResource_BlankJs"
proof -
  let ?l = "''||ads.com^$rewrite=abp-resource:blank-js,domain=a.com''"
  have "map_option (rewrite \<circ> uf_options) (UrlFilter_FromString ?l) = Some (Some AbpResource_BlankJs)" by code_simp
  then obtain f where "UrlFilter_FromString ?l = Some f" "rewrite (uf_options f) = Some AbpResource_BlankJs" by auto
  with accepted_url_filters_are_well_formed show ?thesis by blast
qed

definition known_option :: "string \<Rightarrow> bool" where
  "known_option key \<longleftrightarrow>
     key \<in> {''match-case'', ''popup'', ''third-party'', ''rewrite'', ''domain'', ''sitekey'', ''csp'', ''header''} \<or>
     ContentTypeFromString key \<noteq> CT_Unknown \<or> ExceptionTypeFromString key \<noteq> None"

definition option_key :: "string \<Rightarrow> string" where
  "option_key opt =
     (let opt = (if hd opt = CHR ''~'' then drop 1 opt else opt)
      in RemoveChars (ToLowerASCII (case find_char (CHR ''='') opt of Some i \<Rightarrow> take i opt | None \<Rightarrow> opt))
           kWhitespaceASCII)"

lemma parse_option_unknown:
  assumes "opt \<noteq> []" "\<not> known_option (option_key opt)"
  shows "parse_option opt st = None"
proof -
  obtain o' v where st: "st = (o', v)" by (cases st)
  let ?opt = "if hd opt = CHR ''~'' then drop 1 opt else opt"
  obtain key val where kv: "split_option ?opt v = (key, val)" by (cases "split_option ?opt v")
  have "option_key opt = RemoveChars (ToLowerASCII key) kWhitespaceASCII"
    using kv by (auto simp: option_key_def split_option_def Let_def split: option.splits)
  then show ?thesis
    using assms kv st by (simp add: parse_option_def Let_def parse_keyed_option_def known_option_def)
qed

lemma parse_options_unknown:
  "opt \<in> set opts \<Longrightarrow> opt \<noteq> [] \<Longrightarrow> \<not> known_option (option_key opt) \<Longrightarrow> parse_options opts st = None"
  by (induction opts arbitrary: st) (auto simp: parse_option_unknown split: option.splits)

text \<open>A filter with an option that is not known is rejected, wherever the option stands.\<close>

theorem unknown_option_rejects_the_filter:
  assumes "opt \<in> set (SplitStringNonempty option_list (CHR '','') KEEP_WHITESPACE)"
    "\<not> known_option (option_key opt)"
  shows "UrlFilterOptions_FromString option_list = None"
  using parse_options_unknown [OF assms(1) SplitStringNonempty_nonempty [OF assms(1)] assms(2)]
  by (simp add: UrlFilterOptions_FromString_def)

theorem unknown_option_rejects_the_filter_witness:
  "UrlFilterOptions_FromString ''script,~gif=1,image'' = None"
proof (rule unknown_option_rejects_the_filter)
  show "''~gif=1'' \<in> set (SplitStringNonempty ''script,~gif=1,image'' (CHR '','') KEEP_WHITESPACE)" by code_simp
  show "\<not> known_option (option_key ''~gif=1'')" by code_simp
qed

text \<open>An option without a value reads the value of the option before it: the loop does not reset it. So
  \<open>csp\<close> after \<open>domain=a.com\<close> is the policy \<open>a.com\<close>.\<close>

lemma option_value_is_not_reset:
  "map_option csp (UrlFilterOptions_FromString ''domain=a.com,csp'') = Some (Some ''a.com'')"
  "map_option csp (UrlFilterOptions_FromString ''csp'') = Some (Some [])"
  by code_simp+

lemma contradicting_types_select_everything:
  "map_option content_types (UrlFilterOptions_FromString ''script,~script'') =
     Some (content_type_value CT_Default)"
  by code_simp

section \<open>Snippet scripts\<close>

text \<open>C35: A script of non-empty calls, printed with every argument quoted, is read back by the tokenizer
  as it was, whatever characters the arguments hold.\<close>

theorem snippet_scripts_round_trip:
  assumes "calls_have_commands sc"
  shows "Tokenize (print_script sc) = sc"
  using assms by (rule Tokenize_print_script)

theorem snippet_scripts_round_trip_witness:
  "Tokenize (print_script [[''log'', ''it'' @ [CHR 0x27] @ ''s; a ''], [''hide'']]) =
     [[''log'', ''it'' @ [CHR 0x27] @ ''s; a ''], [''hide'']]"
  by (rule snippet_scripts_round_trip) (simp add: calls_have_commands_def)

text \<open>A snippet filter that is accepted has at least one call, every call names a command, and the
  filter is tied to domains with a dot in them or \<open>localhost\<close>.\<close>

theorem accepted_snippet_filters_are_restricted:
  assumes "SnippetFilter_FromString dl sn = Some f"
  shows "snippet_script f \<noteq> [] \<and> calls_have_commands (snippet_script f) \<and>
    include_domains (sf_domains f) \<noteq> [] \<and>
    list_all (\<lambda>d. d = ''localhost'' \<or> CHR ''.'' \<in> set d) (include_domains (sf_domains f))"
  using SnippetFilter_FromString_Some [OF assms] by simp

theorem accepted_snippet_filters_are_restricted_witness:
  "\<exists>f. SnippetFilter_FromString ''a.com,com'' ''log 1; hide'' = Some f \<and>
    snippet_script f \<noteq> [] \<and> calls_have_commands (snippet_script f) \<and>
    include_domains (sf_domains f) \<noteq> [] \<and>
    list_all (\<lambda>d. d = ''localhost'' \<or> CHR ''.'' \<in> set d) (include_domains (sf_domains f))"
proof -
  have "SnippetFilter_FromString ''a.com,com'' ''log 1; hide'' \<noteq> None" by code_simp
  then obtain f where "SnippetFilter_FromString ''a.com,com'' ''log 1; hide'' = Some f" by auto
  with accepted_snippet_filters_are_restricted [OF this] show ?thesis by blast
qed

text \<open>A script that ends inside a quote keeps the calls before it.\<close>

lemma unfinished_quote_keeps_calls: "Tokenize (''a; '' @ [CHR 0x27] @ ''b'') = [[''a'']]"
  by code_simp

section \<open>Converted subscriptions\<close>

lemma stream_lines_no_nul: "no_nul s \<Longrightarrow> list_all no_nul (stream_lines s)"
proof (induction s rule: stream_lines.induct)
  case (1 s)
  show ?case
  proof (cases "getline s")
    case (Some lr)
    obtain l r where lr: "lr = (l, r)" by (cases lr)
    have "set l \<subseteq> set s \<and> set r \<subseteq> set s"
      using Some lr by (cases s) (auto split: option.splits if_splits dest: in_set_takeD in_set_dropD)
    then have "no_nul l" "no_nul r" using 1(2) no_nul_subset by blast+
    then show ?thesis using 1(1) Some lr by (simp add: stream_lines.simps [of s])
  qed (simp add: stream_lines.simps [of s])
qed

lemma ConvertStream_sorted:
  assumes "ConvertStream v p (Some stream) u allow = Converted sub" "no_nul stream"
  shows "all_sorted sub"
proof -
  obtain m rest where h: "Metadata_FromStream p stream = Some (m, rest)"
    "sub = GetSerializedSubscription (foldl (\<lambda>s line. ConvertFilter line s)
       (SerializeMetadata v m (new_FlatbufferSerializer v u allow)) (stream_lines rest))"
    using assms(1) by (auto simp: ConvertStream_def Let_def split: option.splits)
  obtain l r where lr: "(case getline stream of None \<Rightarrow> ([], []) | Some r \<Rightarrow> r) = (l, r)"
    by (cases "case getline stream of None \<Rightarrow> ([], []) | Some r \<Rightarrow> r")
  have rest: "rest = snd (read_metadata p r Metadata_Default)"
    using h(1) lr by (auto simp: Metadata_FromStream_def split: if_splits)
  have r: "r = [] \<or> list_all no_nul (stream_lines r)"
    using lr stream_lines_no_nul [OF assms(2)]
    by (cases "getline stream") (auto simp: stream_lines.simps [of stream])
  have "set (stream_lines rest) \<subseteq> set (stream_lines r)"
    using read_metadata_suffix [of p r Metadata_Default] rest by (auto dest: set_mono_suffix)
  then have "list_all no_nul (stream_lines rest)"
    using r by (auto simp: list_all_iff)
  moreover have "searchable (SerializeMetadata v m (new_FlatbufferSerializer v u allow))"
    using new_serializer_ok(2) [of v u allow] by (simp add: SerializeMetadata_def searchable_def)
  ultimately show ?thesis
    unfolding h(2) by (intro GetSerializedSubscription_sorted foldl_ConvertFilter_searchable)
qed

text \<open>C12: A filter list that converts is complete and searchable: every vector holds exactly the filters
  of the lines after the header that belong there, under their keys, and is sorted, so that
  \<open>LookupByKey\<close> finds every key.\<close>

theorem converted_lists_are_complete_and_searchable:
  assumes "ConvertStream v p (Some stream) u allow = Converted sub" "no_nul stream"
  shows "all_sorted sub \<and>
    (\<exists>m rest. Metadata_FromStream p stream = Some (m, rest) \<and> contents (stream_lines rest) allow sub \<and>
       (\<forall>r. sorted_keys (get_index r sub)) \<and> valid_expiration (expires m))"
  using ConvertStream_sorted [OF assms] Metadata_FromStream_expires ConvertStream_contents [OF assms(1)]
  by (metis all_sorted_def)

definition example_list :: string where
  "example_list =
     concat (map (\<lambda>l. l @ [CHR 0x0A])
       [''[Adblock Plus 2.0]'', ''! Title: example'', ''! Expires: 2 days'', ''||ads.com^$script'',
        ''a.com##.ad'', ''a.com#$#log 1'', ''||x.com^$header=a=b''])"

lemma example_list_converts:
  "\<exists>sub. ConvertStream ''v'' simple_gurl (Some example_list) empty_gurl al = Converted sub"
proof -
  have "map_option (redirect_url \<circ> fst) (Metadata_FromStream simple_gurl example_list) = Some None"
    by code_simp
  then show ?thesis by (auto simp: ConvertStream_def Let_def)
qed

theorem converted_lists_are_complete_and_searchable_witness:
  "\<exists>sub m rest. ConvertStream ''v'' simple_gurl (Some example_list) empty_gurl False = Converted sub \<and>
     all_sorted sub \<and> contents (stream_lines rest) False sub"
proof -
  obtain sub where s: "ConvertStream ''v'' simple_gurl (Some example_list) empty_gurl False = Converted sub"
    using example_list_converts by blast
  have "no_nul example_list" by code_simp
  from converted_lists_are_complete_and_searchable [OF s this] s show ?thesis by blast
qed

text \<open>Conversion ends in one of four ways, decided by the header: an error for a stream that cannot
  be read, an error for a first line that is not an Adblock header, the redirect the header asks for, or
  a subscription.\<close>

theorem conversion_outcome:
  "ConvertStream v p filter_stream u allow =
    (case filter_stream of
       None \<Rightarrow> ConversionError ''Invalid filter stream''
     | Some stream \<Rightarrow>
         (if \<not> IsValidAdblockHeader (case stream_lines stream of [] \<Rightarrow> [] | l # _ \<Rightarrow> l)
          then ConversionError ''Invalid filter list metadata''
          else case redirect_url (fst (the (Metadata_FromStream p stream))) of
                 Some url \<Rightarrow> Redirect url
               | None \<Rightarrow> Converted (GetSerializedSubscription
                   (foldl (\<lambda>s line. ConvertFilter line s)
                     (SerializeMetadata v (fst (the (Metadata_FromStream p stream)))
                        (new_FlatbufferSerializer v u allow))
                     (stream_lines (snd (the (Metadata_FromStream p stream))))))))"
  by (auto simp: ConvertStream_def Metadata_FromStream_def Let_def stream_lines.simps
      split: option.splits prod.splits)

lemma exception_index_no_header:
  "exception_index e \<noteq> Header_block" "exception_index e \<noteq> Header_allow"
  "Header_block \<noteq> exception_index e" "Header_allow \<noteq> exception_index e"
  by (cases e; simp)+

text \<open>C34: A list that is not privileged never gets a snippet or a header filter into its subscription,
  whatever its lines say.\<close>

theorem unprivileged_lists_have_no_snippets_or_headers:
  assumes "ConvertStream v p filter_stream u False = Converted sub"
  shows "entries (fb_snippet sub) = {} \<and>
    entries (url_header_block sub) = {} \<and> entries (url_header_allow sub) = {}"
proof -
  obtain stream where s: "filter_stream = Some stream"
    using assms by (cases filter_stream) (simp_all add: ConvertStream_def)
  obtain m rest where c: "contents (stream_lines rest) False sub"
    using ConvertStream_contents assms s by metis
  have no: "Header_block \<notin> set (index_targets False f)" "Header_allow \<notin> set (index_targets False f)" for f
    using exception_index_no_header by (auto simp: index_targets_def Let_def)
  then have none: "url_filters False Header_block (stream_lines rest) = {}"
    "url_filters False Header_allow (stream_lines rest) = {}"
    by (simp_all add: url_filters_def)
  have "snd ` entries (get_index r sub) = url_filters False r (stream_lines rest)" for r
    using c by (simp add: contents_def url_contents_def)
  from this [of Header_block] this [of Header_allow]
  have "entries (url_header_block sub) = {}" "entries (url_header_allow sub) = {}"
    unfolding none by simp_all
  with c show ?thesis by (simp add: contents_def snippet_entries_def)
qed

theorem unprivileged_lists_have_no_snippets_or_headers_witness:
  "\<exists>sub. ConvertStream ''v'' simple_gurl (Some example_list) empty_gurl False = Converted sub \<and>
     entries (fb_snippet sub) = {} \<and> entries (url_header_block sub) = {} \<and> entries (url_header_allow sub) = {}"
  using example_list_converts unprivileged_lists_have_no_snippets_or_headers by metis

text \<open>The update interval of a list lies between one hour and fourteen days, and a header that asks
  for a whole number of days in that range gets it.\<close>

theorem expiration_is_bounded_and_exact_for_days:
  assumes "1 \<le> n" "n \<le> 14"
  shows "ParseExpirationTime (decimal n @ '' days'') = int n * kMicrosecondsPerDay \<and>
    kMinExpirationInterval \<le> ParseExpirationTime v \<and> ParseExpirationTime v \<le> kMaxExpirationInterval"
  using ParseExpirationTime_days [OF assms] ParseExpirationTime_valid [of v]
  by (simp add: valid_expiration_def)

theorem expiration_is_bounded_and_exact_for_days_witness:
  "ParseExpirationTime (decimal 7 @ '' days'') = int 7 * kMicrosecondsPerDay \<and>
    kMinExpirationInterval \<le> ParseExpirationTime ''99 days'' \<and>
    ParseExpirationTime ''99 days'' \<le> kMaxExpirationInterval"
  by (rule expiration_is_bounded_and_exact_for_days) simp_all

end
