(* ===== verification/Matcher_Properties.thy ===== *)
theory Matcher_Properties
  imports Search_Completeness
begin

text \<open>
  What matching promises: URL patterns against their specification, the regular-expression cache
  against the engines, and the domain lists of a filter against the rule they stand for.
\<close>

section \<open>URL patterns\<close>

text \<open>C11: For a pattern with at most two leading bars, no other bar before its end and at most 48 tokens
  (the recursion stops at a depth of 50), the recursive matcher decides exactly the declarative meaning
  of the pattern: literals, the separator, stars, and anchors at the start, the end and the host.\<close>

theorem pattern_matching_meets_its_specification:
  assumes "well_formed_pattern p" "token_count p \<le> 48"
  shows "DoesPatternMatchUrl p url \<longleftrightarrow> pattern_spec p url"
  using assms by (rule DoesPatternMatchUrl_spec)

theorem pattern_matching_meets_its_specification_witness:
  "DoesPatternMatchUrl ''||ads.example.com^*banner'' example_url \<longleftrightarrow>
     pattern_spec ''||ads.example.com^*banner'' example_url"
proof (rule pattern_matching_meets_its_specification)
  show "well_formed_pattern ''||ads.example.com^*banner''" by code_simp
  show "token_count ''||ads.example.com^*banner'' \<le> 48" by code_simp
qed

text \<open>Whatever the number of tokens, the bounded recursion never accepts a URL that the pattern does not
  mean: cutting it off can only lose a match.\<close>

theorem bounded_matching_is_sound:
  assumes "well_formed_pattern p" "DoesPatternMatchUrl p url"
  shows "pattern_accepts p url"
  using assms by (rule DoesPatternMatchUrl_sound)

theorem bounded_matching_is_sound_witness:
  "pattern_accepts ''||ads.example.com^*banner'' example_url"
proof (rule bounded_matching_is_sound)
  show "well_formed_pattern ''||ads.example.com^*banner''" by code_simp
  show "DoesPatternMatchUrl ''||ads.example.com^*banner'' example_url" by code_simp
qed

text \<open>A pattern that is anchored at the host is tried at its leftmost occurrence only: where that is not
  the start of a label, a later one is not tried.\<close>

lemma host_anchor_tries_the_leftmost_place_only:
  "\<not> DoesPatternMatchUrl ''||ads.'' (simple_gurl ''https://roads.ads.com/'')"
  "pattern_accepts ''||ads.'' (simple_gurl ''https://roads.ads.com/'')"
  by code_simp+

section \<open>Regular expressions\<close>

text \<open>The matcher that is built for a subscription holds at most 500 expressions, and for an expression
  it holds the answer is the engines' own: RE2 where it compiles the expression, else ICU.\<close>

theorem prebuilt_regexes_answer_like_the_engines:
  assumes "map_of (re2_cache m) (e, cs) \<noteq> None \<or> map_of (icu_cache m) (e, cs) \<noteq> None"
    "m = PreBuildRegexPatternsWithNoKeyword eng sub empty_RegexMatcher"
  shows "MatchesRegex eng m e data url cs = regex_meaning eng e cs (spec url) \<and>
    CacheSize m \<le> kMaxPrebuiltPatterns"
proof -
  have "cache_ok eng m" unfolding assms(2) by (rule PreBuild_ok(1) [OF empty_RegexMatcher_ok(1)])
  moreover have "CacheSize m \<le> kMaxPrebuiltPatterns"
    unfolding assms(2)
    by (rule PreBuild_ok(2)) (simp add: empty_RegexMatcher_ok(2) kMaxPrebuiltPatterns_def)
  moreover note MatchesRegex_cached [OF _ assms(1)]
  ultimately show ?thesis by blast
qed

definition example_index :: flat_Subscription where
  "example_index = ConvertFilters [] [''/ads[0-9]/$script'', ''@@/good/$image''] empty_gurl False"

theorem prebuilt_regexes_answer_like_the_engines_witness:
  "MatchesRegex (env_engines example_env)
     (PreBuildRegexPatternsWithNoKeyword (env_engines example_env) example_index empty_RegexMatcher)
     ''ads[0-9]'' ''ads[0-9]/'' example_url False
   = regex_meaning (env_engines example_env) ''ads[0-9]'' False (spec example_url) \<and>
   CacheSize (PreBuildRegexPatternsWithNoKeyword (env_engines example_env) example_index empty_RegexMatcher)
     \<le> kMaxPrebuiltPatterns"
proof (rule prebuilt_regexes_answer_like_the_engines [OF _ refl])
  have "\<not> Option.is_none (map_of (re2_cache
      (PreBuildRegexPatternsWithNoKeyword (env_engines example_env) example_index empty_RegexMatcher))
      (''ads[0-9]'', False))"
    by code_simp
  then show "map_of (re2_cache
      (PreBuildRegexPatternsWithNoKeyword (env_engines example_env) example_index empty_RegexMatcher))
      (''ads[0-9]'', False) \<noteq> None \<or>
    map_of (icu_cache
      (PreBuildRegexPatternsWithNoKeyword (env_engines example_env) example_index empty_RegexMatcher))
      (''ads[0-9]'', False) \<noteq> None"
    by (simp only: Option.is_none_def simp_thms)
qed

section \<open>Domains\<close>

text \<open>With no empty include domain, a filter is active on a domain exactly when no excluded domain is
  the domain or a parent of it, and, where the filter names domains, one of them is.\<close>

theorem domain_lists_decide_activity:
  assumes "list_all (\<lambda>d. d \<noteq> []) incl"
  shows "IsActiveOnDomainLists d incl excl \<longleftrightarrow>
    set excl \<inter> set (dot_suffixes d) = {} \<and> (incl = [] \<or> set incl \<inter> set (dot_suffixes d) \<noteq> {})"
  unfolding IsActiveOnDomainLists_spec [OF assms] DomainOnList_iff DomainMatches_suffixes by blast

theorem domain_lists_decide_activity_witness:
  "IsActiveOnDomainLists ''www.a.com'' [''a.com'', ''b.com''] [''x.a.com''] \<longleftrightarrow>
    set [''x.a.com''] \<inter> set (dot_suffixes ''www.a.com'') = {} \<and>
    ([''a.com'', ''b.com''] = [] \<or> set [''a.com'', ''b.com''] \<inter> set (dot_suffixes ''www.a.com'') \<noteq> {})"
  by (rule domain_lists_decide_activity) simp

end
