(* ===== verification/Subscription_Collection.thy ===== *)
theory Subscription_Collection
  imports Installed_Subscription
begin

text \<open>
  \<open>subscription/subscription_collection_impl.cc\<close>: the subscriptions of one filtering configuration,
  queried together. \<open>InstalledSubscription\<close> is an interface with one implementation, whose operations
  the code reaches through virtual calls; a collection is the list of these objects. A list of frames
  begins with the innermost one.
\<close>

section \<open>The collection\<close>

type_synonym SubscriptionCollection = "InstalledSubscriptionImpl list"

definition DocumentDomain :: "gurl \<Rightarrow> gurl list \<Rightarrow> string" where
  "DocumentDomain request_url frame_hierarchy =
     (if frame_hierarchy = [] then host request_url else host (hd frame_hierarchy))"

definition ReduceSelectors :: "Selectors \<Rightarrow> string list" where
  "ReduceSelectors combined_selectors =
     filter (\<lambda>selector. \<not> selector \<in> set (elemhide_exceptions combined_selectors))
       (elemhide_selectors combined_selectors)"

type_synonym GenericGetter =
  "InstalledSubscriptionImpl \<Rightarrow> gurl \<Rightarrow> string \<Rightarrow> FilterCategory \<Rightarrow> string option"

definition IsFilterOverruled :: "string \<Rightarrow> InstalledSubscriptionImpl \<Rightarrow> gurl \<Rightarrow> string \<Rightarrow> GenericGetter \<Rightarrow> bool"
where
  "IsFilterOverruled blocking subscription request_url request_domain getter =
     (case getter subscription request_url request_domain Allowing of
        None \<Rightarrow> False
      | Some allowing \<Rightarrow> allowing = [] \<or> allowing = blocking)"

text \<open>A frame is looked up with the domain of its parent, the outermost with its own.\<close>

fun SubscriptionContainsSpecialFilter ::
  "net_env \<Rightarrow> InstalledSubscriptionImpl \<Rightarrow> SpecialFilterType \<Rightarrow> gurl list \<Rightarrow> string \<Rightarrow> bool" where
  "SubscriptionContainsSpecialFilter env subscription filter_type [] sitekey = False"
| "SubscriptionContainsSpecialFilter env subscription filter_type (current_url # rest) sitekey =
     (let current_domain = (case rest of [] \<Rightarrow> host current_url | next # _ \<Rightarrow> host next)
      in if HasSpecialFilter env subscription filter_type current_url current_domain sitekey then True
         else SubscriptionContainsSpecialFilter env subscription filter_type rest sitekey)"

definition GenericHasAllowingFilter ::
  "net_env \<Rightarrow> InstalledSubscriptionImpl \<Rightarrow> string \<Rightarrow> gurl \<Rightarrow> gurl list \<Rightarrow> GenericGetter \<Rightarrow> bool" where
  "GenericHasAllowingFilter env subscription blocking request_url frame_hierarchy getter =
     (let request_domain = DocumentDomain request_url frame_hierarchy
      in if IsFilterOverruled blocking subscription request_url request_domain getter \<or>
            HasSpecialFilter env subscription SF_Document request_url request_domain [] then True
         else SubscriptionContainsSpecialFilter env subscription SF_Document frame_hierarchy [])"

definition HasAllowFilter ::
  "net_env \<Rightarrow> InstalledSubscriptionImpl \<Rightarrow> gurl \<Rightarrow> gurl list \<Rightarrow> ContentType \<Rightarrow> string \<Rightarrow> bool" where
  "HasAllowFilter env subscription request_url frame_hierarchy content_type sitekey =
     (if HasUrlFilter env subscription request_url (DocumentDomain request_url frame_hierarchy)
           content_type sitekey Allowing then True
      else if SubscriptionContainsSpecialFilter env subscription SF_Document frame_hierarchy sitekey then True
      else False)"

text \<open>The function of the source has the name of the method it calls.\<close>

definition HasSpecialFilterInFrames ::
  "net_env \<Rightarrow> InstalledSubscriptionImpl \<Rightarrow> SpecialFilterType \<Rightarrow> gurl \<Rightarrow> gurl list \<Rightarrow> string \<Rightarrow> bool" where
  "HasSpecialFilterInFrames env subscription filter_type request_url frame_hierarchy sitekey =
     (if HasSpecialFilter env subscription filter_type request_url
           (DocumentDomain request_url frame_hierarchy) sitekey then True
      else SubscriptionContainsSpecialFilter env subscription filter_type frame_hierarchy sitekey)"

text \<open>The loop of \<open>GenericFindFilter\<close> over what is left of the subscriptions; \<open>subs\<close> are all of them.\<close>

fun find_filter_loop :: "net_env \<Rightarrow> SubscriptionCollection \<Rightarrow> gurl \<Rightarrow> gurl list \<Rightarrow> GenericGetter \<Rightarrow>
    InstalledSubscriptionImpl list \<Rightarrow> string option" where
  "find_filter_loop env subs request_url frame_hierarchy getter [] = None"
| "find_filter_loop env subs request_url frame_hierarchy getter (subscription # rest) =
     (case getter subscription request_url (DocumentDomain request_url frame_hierarchy) Blocking of
        None \<Rightarrow> find_filter_loop env subs request_url frame_hierarchy getter rest
      | Some blocking \<Rightarrow>
          (if list_ex (\<lambda>sub. GenericHasAllowingFilter env sub blocking request_url frame_hierarchy getter) subs
           then find_filter_loop env subs request_url frame_hierarchy getter rest
           else if list_ex (\<lambda>sub. HasSpecialFilterInFrames env sub SF_Genericblock request_url
                     frame_hierarchy []) subs
           then
             (case getter subscription request_url (DocumentDomain request_url frame_hierarchy)
                     DomainSpecificBlocking of
                Some domain_specific_blocking \<Rightarrow> Some domain_specific_blocking
              | None \<Rightarrow> find_filter_loop env subs request_url frame_hierarchy getter rest)
           else Some blocking))"

definition GenericFindFilter ::
  "net_env \<Rightarrow> SubscriptionCollection \<Rightarrow> gurl \<Rightarrow> gurl list \<Rightarrow> GenericGetter \<Rightarrow> string option" where
  "GenericFindFilter env subs request_url frame_hierarchy getter =
     find_filter_loop env subs request_url frame_hierarchy getter subs"

section \<open>Its operations\<close>

definition FindBySubresourceFilter :: "net_env \<Rightarrow> SubscriptionCollection \<Rightarrow> gurl \<Rightarrow> gurl list \<Rightarrow> ContentType \<Rightarrow>
    string \<Rightarrow> FilterCategory \<Rightarrow> gurl option" where
  "FindBySubresourceFilter env subs request_url frame_hierarchy content_type sitekey category =
     (case List.find (\<lambda>subscription. HasUrlFilter env subscription request_url
               (DocumentDomain request_url frame_hierarchy) content_type sitekey category) subs of
        Some subscription \<Rightarrow> Some (GetSourceUrl env subscription)
      | None \<Rightarrow> None)"

definition FindByPopupFilter :: "net_env \<Rightarrow> SubscriptionCollection \<Rightarrow> gurl \<Rightarrow> gurl list \<Rightarrow> string \<Rightarrow>
    FilterCategory \<Rightarrow> gurl option" where
  "FindByPopupFilter env subs popup_url frame_hierarchy sitekey category =
     (case List.find (\<lambda>subscription. HasPopupFilter env subscription popup_url
               (DocumentDomain popup_url frame_hierarchy) sitekey category) subs of
        Some subscription \<Rightarrow> Some (GetSourceUrl env subscription)
      | None \<Rightarrow> None)"

fun FindByAllowFilter :: "net_env \<Rightarrow> SubscriptionCollection \<Rightarrow> gurl \<Rightarrow> gurl list \<Rightarrow> ContentType \<Rightarrow> string \<Rightarrow>
    gurl option" where
  "FindByAllowFilter env [] request_url frame_hierarchy content_type sitekey = None"
| "FindByAllowFilter env (subscription # rest) request_url frame_hierarchy content_type sitekey =
     (if HasAllowFilter env subscription request_url frame_hierarchy content_type sitekey
      then Some (GetSourceUrl env subscription)
      else FindByAllowFilter env rest request_url frame_hierarchy content_type sitekey)"

fun FindBySpecialFilter :: "net_env \<Rightarrow> SubscriptionCollection \<Rightarrow> SpecialFilterType \<Rightarrow> gurl \<Rightarrow> gurl list \<Rightarrow> string \<Rightarrow>
    gurl option" where
  "FindBySpecialFilter env [] filter_type request_url frame_hierarchy sitekey = None"
| "FindBySpecialFilter env (subscription # rest) filter_type request_url frame_hierarchy sitekey =
     (if HasSpecialFilterInFrames env subscription filter_type request_url frame_hierarchy sitekey
      then Some (GetSourceUrl env subscription)
      else FindBySpecialFilter env rest filter_type request_url frame_hierarchy sitekey)"

definition combine_selectors :: "Selectors list \<Rightarrow> Selectors" where
  "combine_selectors sels =
     foldl (\<lambda>combined selectors.
         \<lparr>elemhide_selectors = elemhide_selectors combined @ elemhide_selectors selectors,
          elemhide_exceptions = elemhide_exceptions combined @ elemhide_exceptions selectors\<rparr>)
       \<lparr>elemhide_selectors = [], elemhide_exceptions = []\<rparr> sels"

definition GetElementHideSelectors :: "net_env \<Rightarrow> SubscriptionCollection \<Rightarrow> gurl \<Rightarrow> gurl list \<Rightarrow> string \<Rightarrow>
    string list" where
  "GetElementHideSelectors env subs frame_url frame_hierarchy sitekey =
     (let domain_specific =
            (FindBySpecialFilter env subs SF_Generichide frame_url frame_hierarchy sitekey \<noteq> None)
      in ReduceSelectors (combine_selectors
           (map (\<lambda>subscription. GetElemhideSelectors subscription frame_url domain_specific) subs)))"

definition GetElementHideEmulationSelectors :: "SubscriptionCollection \<Rightarrow> gurl \<Rightarrow> string list" where
  "GetElementHideEmulationSelectors subs frame_url =
     ReduceSelectors (combine_selectors
       (map (\<lambda>subscription. GetElemhideEmulationSelectors subscription frame_url) subs))"

definition GenerateSnippets :: "SubscriptionCollection \<Rightarrow> gurl \<Rightarrow> gurl list \<Rightarrow> string list list" where
  "GenerateSnippets subs frame_url frame_hierarchy =
     (let document_domain = DocumentDomain frame_url frame_hierarchy
      in concat (map (\<lambda>subscription.
           map (\<lambda>snippet. snip_command snippet # snip_arguments snippet)
             (MatchSnippets subscription document_domain)) subs))"

text \<open>The allowing filters, or \<open>None\<close> when a document filter ends the search.\<close>

fun csp_allowing_loop :: "net_env \<Rightarrow> gurl \<Rightarrow> gurl list \<Rightarrow> InstalledSubscriptionImpl list \<Rightarrow> string set \<Rightarrow>
    string set option" where
  "csp_allowing_loop env request_url frame_hierarchy [] allowing_filters = Some allowing_filters"
| "csp_allowing_loop env request_url frame_hierarchy (subscription # rest) allowing_filters =
     (if HasSpecialFilterInFrames env subscription SF_Document request_url frame_hierarchy [] then None
      else csp_allowing_loop env request_url frame_hierarchy rest
        (FindCspFilters env subscription request_url (DocumentDomain request_url frame_hierarchy) Allowing
           allowing_filters))"

text \<open>Going through the allowing filters: an empty one ends with no filter, others take filters away.\<close>

definition remove_overruled :: "string set \<Rightarrow> string set \<Rightarrow> string set" where
  "remove_overruled allowing_filters blocking_filters =
     (if [] \<in> allowing_filters then {} else blocking_filters - allowing_filters)"

definition GetCspInjections :: "net_env \<Rightarrow> SubscriptionCollection \<Rightarrow> gurl \<Rightarrow> gurl list \<Rightarrow> string set" where
  "GetCspInjections env subs request_url frame_hierarchy =
     (let domain = DocumentDomain request_url frame_hierarchy;
          find = (\<lambda>category. foldl (\<lambda>results subscription.
             FindCspFilters env subscription request_url domain category results) {} subs);
          blocking_filters = find Blocking
      in if blocking_filters = {} then {}
         else
           (case csp_allowing_loop env request_url frame_hierarchy subs {} of
              None \<Rightarrow> {}
            | Some allowing_filters \<Rightarrow>
                (let blocking_filters = remove_overruled allowing_filters blocking_filters
                 in if blocking_filters = {} then {}
                    else if list_ex (\<lambda>sub. HasSpecialFilterInFrames env sub SF_Genericblock request_url
                              frame_hierarchy []) subs
                    then
                      (let domain_specific_blocking = find DomainSpecificBlocking
                       in if domain_specific_blocking \<noteq> {}
                          then remove_overruled allowing_filters domain_specific_blocking
                          else domain_specific_blocking)
                    else blocking_filters)))"

definition GetRewriteUrl :: "net_env \<Rightarrow> SubscriptionCollection \<Rightarrow> gurl \<Rightarrow> gurl list \<Rightarrow> gurl option" where
  "GetRewriteUrl env subs request_url frame_hierarchy =
     (case GenericFindFilter env subs request_url frame_hierarchy (FindRewriteFilter env) of
        Some result \<Rightarrow> Some (env_parse_url env result)
      | None \<Rightarrow> None)"

definition GetHeaderFilters :: "net_env \<Rightarrow> SubscriptionCollection \<Rightarrow> gurl \<Rightarrow> gurl list \<Rightarrow> ContentType \<Rightarrow>
    FilterCategory \<Rightarrow> header_filter_set" where
  "GetHeaderFilters env subs request_url frame_hierarchy content_type category =
     foldl (\<lambda>filters subscription.
         FindHeaderFilters env subscription request_url content_type
           (DocumentDomain request_url frame_hierarchy) category filters) [] subs"

end
