(* ===== verification/Collection_Facts.thy ===== *)
theory Collection_Facts
  imports Subscription_Collection Elemhide_Search
begin

text \<open>
  What a collection of subscriptions answers. Two contracts carry the proofs: operations that return
  the source of the first subscription with a hit (\<open>first_hit\<close>), and operations that add what they find
  to a set (\<open>result_source\<close>).
\<close>

section \<open>The first subscription with a hit\<close>

locale first_hit =
  fixes search :: "'s list \<Rightarrow> 'u option"
    and hit :: "'s \<Rightarrow> bool"
    and source :: "'s \<Rightarrow> 'u"
  assumes search_Nil: "search [] = None"
    and search_Cons: "search (s # ss) = (if hit s then Some (source s) else search ss)"
begin

lemma search_find: "search ss = map_option source (List.find hit ss)"
  by (induction ss) (simp_all add: search_Nil search_Cons)

lemma search_None_iff: "search ss = None \<longleftrightarrow> (\<forall>s\<in>set ss. \<not> hit s)"
  by (induction ss) (simp_all add: search_Nil search_Cons)

lemma search_SomeD: "search ss = Some u \<Longrightarrow> \<exists>s\<in>set ss. hit s \<and> u = source s"
  by (induction ss) (auto simp: search_Nil search_Cons split: if_splits)

lemma search_Some_iff: "(\<exists>u. search ss = Some u) \<longleftrightarrow> (\<exists>s\<in>set ss. hit s)"
  using search_None_iff [of ss] by (cases "search ss") auto

lemma search_append: "search (ss @ ts) = (case search ss of None \<Rightarrow> search ts | Some u \<Rightarrow> Some u)"
  by (induction ss) (simp_all add: search_Nil search_Cons)

lemma search_same_members: "set ss = set ts \<Longrightarrow> search ss = None \<longleftrightarrow> search ts = None"
  by (simp add: search_None_iff)

end

interpretation subresource: first_hit
  "\<lambda>subs. FindBySubresourceFilter env subs url frames ct key cat"
  "\<lambda>s. HasUrlFilter env s url (DocumentDomain url frames) ct key cat" "GetSourceUrl env"
  for env url frames ct key cat
  by unfold_locales (simp_all add: FindBySubresourceFilter_def)

interpretation popup: first_hit
  "\<lambda>subs. FindByPopupFilter env subs url frames key cat"
  "\<lambda>s. HasPopupFilter env s url (DocumentDomain url frames) key cat" "GetSourceUrl env"
  for env url frames key cat
  by unfold_locales (simp_all add: FindByPopupFilter_def)

interpretation allow: first_hit
  "\<lambda>subs. FindByAllowFilter env subs url frames ct key"
  "\<lambda>s. HasAllowFilter env s url frames ct key" "GetSourceUrl env"
  for env url frames ct key
  by unfold_locales simp_all

interpretation special: first_hit
  "\<lambda>subs. FindBySpecialFilter env subs t url frames key"
  "\<lambda>s. HasSpecialFilterInFrames env s t url frames key" "GetSourceUrl env"
  for env t url frames key
  by unfold_locales simp_all

section \<open>Operations that collect\<close>

locale result_source =
  fixes collect :: "'s \<Rightarrow> 'r set \<Rightarrow> 'r set"
  assumes collect_adds: "collect s R = R \<union> collect s {}"
begin

lemma foldl_collect: "foldl (\<lambda>R s. collect s R) R ss = R \<union> (\<Union>s\<in>set ss. collect s {})"
proof (induction ss arbitrary: R)
  case (Cons s ss)
  show ?case unfolding foldl.simps Cons.IH using collect_adds [of s R] by auto
qed simp

end

lemma foldl_insert: "foldl (\<lambda>R x. insert (h x) R) R xs = R \<union> h ` set xs"
  by (induction xs arbitrary: R) auto

interpretation csp: result_source "\<lambda>s. FindCspFilters env s url dom cat" for env url dom cat
  by unfold_locales (simp add: FindCspFilters_def foldl_insert)

section \<open>Frames\<close>

text \<open>Each frame with the domain it is looked up with.\<close>

fun frame_domains :: "gurl list \<Rightarrow> (gurl \<times> string) list" where
  "frame_domains [] = []"
| "frame_domains (u # rest) = (u, case rest of [] \<Rightarrow> host u | p # _ \<Rightarrow> host p) # frame_domains rest"

lemma SubscriptionContainsSpecialFilter_iff:
  "SubscriptionContainsSpecialFilter env s t frames key \<longleftrightarrow>
     (\<exists>(u, d)\<in>set (frame_domains frames). HasSpecialFilter env s t u d key)"
  by (induction env s t frames key rule: SubscriptionContainsSpecialFilter.induct) (auto simp: Let_def)

text \<open>The page a request comes from is allowlisted: a document filter of the subscription matches one of the
  frames.\<close>

definition document_allowed :: "net_env \<Rightarrow> SubscriptionCollection \<Rightarrow> gurl list \<Rightarrow> string \<Rightarrow> bool" where
  "document_allowed env subs frames key \<longleftrightarrow>
     list_ex (\<lambda>s. list_ex (\<lambda>(u, d). HasSpecialFilter env s SF_Document u d key) (frame_domains frames)) subs"

lemma document_allowed_iff:
  "document_allowed env subs frames key \<longleftrightarrow>
     (\<exists>s\<in>set subs. SubscriptionContainsSpecialFilter env s SF_Document frames key)"
  by (auto simp: document_allowed_def SubscriptionContainsSpecialFilter_iff list_ex_iff)

lemma document_allowed_FindByAllowFilter:
  "document_allowed env subs frames key \<Longrightarrow> FindByAllowFilter env subs url frames ct key \<noteq> None"
  unfolding document_allowed_iff allow.search_None_iff by (auto simp: HasAllowFilter_def)

lemma document_allowed_FindBySpecialFilter:
  "document_allowed env subs frames key \<Longrightarrow>
     FindBySpecialFilter env subs SF_Document url frames key \<noteq> None"
  unfolding document_allowed_iff special.search_None_iff by (auto simp: HasSpecialFilterInFrames_def)

section \<open>Content security policies\<close>

definition csp_found :: "net_env \<Rightarrow> SubscriptionCollection \<Rightarrow> gurl \<Rightarrow> gurl list \<Rightarrow> FilterCategory \<Rightarrow> string set" where
  "csp_found env subs url frames cat =
     (\<Union>s\<in>set subs. FindCspFilters env s url (DocumentDomain url frames) cat {})"

lemma csp_allowing_loop_eq:
  "csp_allowing_loop env url frames subs R =
    (if list_ex (\<lambda>s. HasSpecialFilterInFrames env s SF_Document url frames []) subs then None
     else Some (R \<union> csp_found env subs url frames Allowing))"
proof (induction env url frames subs R rule: csp_allowing_loop.induct)
  case (2 env url frames s rest R)
  then show ?case
    using csp.collect_adds [of env s url "DocumentDomain url frames" Allowing R]
    by (auto simp: csp_found_def)
qed (simp add: csp_found_def)

lemma GetCspInjections_eq:
  "GetCspInjections env subs url frames =
    (let blocking = csp_found env subs url frames Blocking;
         allowing = csp_found env subs url frames Allowing;
         specific = csp_found env subs url frames DomainSpecificBlocking
     in if [] \<in> allowing \<or> blocking \<subseteq> allowing \<or>
           FindBySpecialFilter env subs SF_Document url frames [] \<noteq> None then {}
        else if FindBySpecialFilter env subs SF_Genericblock url frames [] \<noteq> None
        then specific - allowing else blocking - allowing)"
proof -
  have find: "foldl (\<lambda>results s. FindCspFilters env s url (DocumentDomain url frames) cat results) {} subs =
      csp_found env subs url frames cat" for cat
    by (simp add: csp.foldl_collect csp_found_def)
  have ex: "FindBySpecialFilter env subs t url frames [] \<noteq> None \<longleftrightarrow>
      list_ex (\<lambda>s. HasSpecialFilterInFrames env s t url frames []) subs" for t
    by (auto simp: special.search_None_iff list_ex_iff simp del: not_None_eq)
  show ?thesis
    unfolding GetCspInjections_def Let_def find csp_allowing_loop_eq ex remove_overruled_def
    by auto
qed

section \<open>Selectors\<close>

lemma combine_selectors_eq:
  "combine_selectors sels =
    \<lparr>elemhide_selectors = concat (map elemhide_selectors sels),
     elemhide_exceptions = concat (map elemhide_exceptions sels)\<rparr>"
proof -
  have "foldl (\<lambda>combined selectors.
         \<lparr>elemhide_selectors = elemhide_selectors combined @ elemhide_selectors selectors,
          elemhide_exceptions = elemhide_exceptions combined @ elemhide_exceptions selectors\<rparr>)
       \<lparr>elemhide_selectors = xs, elemhide_exceptions = ys\<rparr> sels =
     \<lparr>elemhide_selectors = xs @ concat (map elemhide_selectors sels),
      elemhide_exceptions = ys @ concat (map elemhide_exceptions sels)\<rparr>" for xs ys
    by (induction sels arbitrary: xs ys) simp_all
  from this [of "[]" "[]"] show ?thesis by (simp add: combine_selectors_def)
qed

lemma set_ReduceSelectors:
  "set (ReduceSelectors (combine_selectors sels)) =
     (\<Union>s\<in>set sels. set (elemhide_selectors s)) - (\<Union>s\<in>set sels. set (elemhide_exceptions s))"
  by (auto simp: ReduceSelectors_def combine_selectors_eq)

section \<open>Rewrites\<close>

lemma find_filter_loop_Some:
  assumes "find_filter_loop env subs url frames getter ss = Some r"
  shows "\<exists>s\<in>set ss. \<exists>b. getter s url (DocumentDomain url frames) Blocking = Some b \<and>
    \<not> list_ex (\<lambda>sub. GenericHasAllowingFilter env sub b url frames getter) subs \<and>
    (if FindBySpecialFilter env subs SF_Genericblock url frames [] \<noteq> None
     then getter s url (DocumentDomain url frames) DomainSpecificBlocking = Some r else r = b)"
proof -
  have ex: "FindBySpecialFilter env subs SF_Genericblock url frames [] \<noteq> None \<longleftrightarrow>
      list_ex (\<lambda>s. HasSpecialFilterInFrames env s SF_Genericblock url frames []) subs"
    by (auto simp: special.search_None_iff list_ex_iff simp del: not_None_eq)
  show ?thesis
    unfolding ex using assms
    by (induction env subs url frames getter ss rule: find_filter_loop.induct)
      (auto split: option.splits if_splits)
qed

lemma FindRewriteFilter_blank:
  "FindRewriteFilter env s url doc cat = Some r \<Longrightarrow> \<exists>a. r = RewriteUrl a"
  by (auto simp: FindRewriteFilter_def Let_def split: list.splits option.splits)

section \<open>Properties\<close>

text \<open>The CSP directives a collection injects: none when a document filter covers the request or its
  frames, when an allowing filter without a policy matches or when every blocking policy is allowed;
  otherwise the blocking policies of all subscriptions, the domain-specific ones under a \<open>genericblock\<close>
  filter, without the allowed ones.\<close>

theorem csp_injections_of_a_collection:
  "GetCspInjections env subs url frames =
    (let blocking = csp_found env subs url frames Blocking;
         allowing = csp_found env subs url frames Allowing;
         specific = csp_found env subs url frames DomainSpecificBlocking
     in if [] \<in> allowing then {}
        else if blocking \<subseteq> allowing then {}
        else if FindBySpecialFilter env subs SF_Document url frames [] \<noteq> None then {}
        else if FindBySpecialFilter env subs SF_Genericblock url frames [] \<noteq> None
        then specific - allowing else blocking - allowing)"
  by (simp add: GetCspInjections_eq Let_def)

text \<open>C23: A request is only ever rewritten to a built-in blank resource, and only when a subscription
  has a blocking rewrite filter for it that no subscription allows, a domain-specific one when a
  \<open>genericblock\<close> filter applies.\<close>

theorem rewrites_go_to_blank_resources:
  assumes "GetRewriteUrl env subs url frames = Some u"
  shows "\<exists>a. u = env_parse_url env (RewriteUrl a) \<and>
    (\<exists>s\<in>set subs. \<exists>b. FindRewriteFilter env s url (DocumentDomain url frames) Blocking = Some b \<and>
       \<not> list_ex (\<lambda>sub. GenericHasAllowingFilter env sub b url frames (FindRewriteFilter env)) subs \<and>
       FindRewriteFilter env s url (DocumentDomain url frames)
         (if FindBySpecialFilter env subs SF_Genericblock url frames [] \<noteq> None
          then DomainSpecificBlocking else Blocking) = Some (RewriteUrl a))"
proof -
  obtain r where r: "GenericFindFilter env subs url frames (FindRewriteFilter env) = Some r"
    "u = env_parse_url env r"
    using assms by (auto simp: GetRewriteUrl_def split: option.splits)
  from find_filter_loop_Some [OF r(1) [unfolded GenericFindFilter_def]] obtain s b where s: "s \<in> set subs"
    "FindRewriteFilter env s url (DocumentDomain url frames) Blocking = Some b"
    "\<not> list_ex (\<lambda>sub. GenericHasAllowingFilter env sub b url frames (FindRewriteFilter env)) subs"
    "FindRewriteFilter env s url (DocumentDomain url frames)
         (if FindBySpecialFilter env subs SF_Genericblock url frames [] \<noteq> None
          then DomainSpecificBlocking else Blocking) = Some r"
    by (auto split: if_splits)
  from FindRewriteFilter_blank [OF s(4)] r(2) s show ?thesis by blast
qed

definition rewrite_subscription :: InstalledSubscriptionImpl where
  "rewrite_subscription =
     new_InstalledSubscriptionImpl example_env
       (ConvertFilters [] [''||ads.example.com^$rewrite=abp-resource:blank-js,domain=news.com'']
          empty_gurl False) Installed 0"

theorem rewrites_go_to_blank_resources_witness:
  "\<exists>u a. GetRewriteUrl example_env [rewrite_subscription] example_url [simple_gurl ''https://news.com/''] = Some u \<and>
     u = env_parse_url example_env (RewriteUrl a)"
proof -
  have "GetRewriteUrl example_env [rewrite_subscription] example_url [simple_gurl ''https://news.com/''] \<noteq> None"
    by code_simp
  then obtain u where "GetRewriteUrl example_env [rewrite_subscription] example_url
      [simple_gurl ''https://news.com/''] = Some u" by blast
  with rewrites_go_to_blank_resources show ?thesis by blast
qed

subsection \<open>Element hiding over several lists\<close>

definition converted_all :: "net_env \<Rightarrow> string list list \<Rightarrow> SubscriptionCollection" where
  "converted_all env lss = map (\<lambda>lines. converted [] lines empty_gurl False env) lss"

definition hiding :: "FilterType \<Rightarrow> string list list \<Rightarrow> string \<Rightarrow> bool \<Rightarrow> string set" where
  "hiding t lss h specific =
     {c_str (fe_selector f) | f. f \<in> set (content_filters t (concat lss)) \<and>
        selector_active h f \<and> (specific \<longrightarrow> fe_include_domains f \<noteq> [])}"

lemma hiding_Union:
  "hiding t lss h specific = (\<Union>lines\<in>set lss. hiding t [lines] h specific)"
  unfolding hiding_def content_filters_def by auto

text \<open>C20: The selectors a collection of converted lists hides on a page are those of the lines of all
  lists that are active on the host, less every selector that some list's exception line excepts there;
  under a \<open>generichide\<close> filter only lines with domains count.\<close>

theorem selectors_of_a_collection:
  assumes "list_all (list_all no_nul) lss" "plain_host (ToLowerASCII (host url))"
  shows "set (GetElementHideSelectors env (converted_all env lss) url frames key) =
    (let specific = FindBySpecialFilter env (converted_all env lss) SF_Generichide url frames key \<noteq> None;
         h = ToLowerASCII (host url)
     in hiding FT_ElemHide lss h specific - hiding FT_ElemHideException lss h specific)"
proof -
  have one: "set (elemhide_selectors (GetElemhideSelectors (converted [] lines empty_gurl False env) url ds)) =
      hiding FT_ElemHide [lines] (ToLowerASCII (host url)) ds"
    "set (elemhide_exceptions (GetElemhideSelectors (converted [] lines empty_gurl False env) url ds)) =
      hiding FT_ElemHideException [lines] (ToLowerASCII (host url)) ds"
    if "lines \<in> set lss" for lines ds
    using elemhide_selectors_of_list [OF _ assms(2), of lines "[]" empty_gurl False env ds] assms(1) that
    by (auto simp: hiding_def list_all_iff)
  show ?thesis
    unfolding GetElementHideSelectors_def Let_def set_ReduceSelectors
      hiding_Union [of FT_ElemHide lss] hiding_Union [of FT_ElemHideException lss]
    using one by (simp add: converted_all_def)
qed

theorem selectors_of_a_collection_witness:
  "set (GetElementHideSelectors example_env
      (converted_all example_env [[''news.com##.ad'', ''##.banner''], [''www.news.com#@#.ad'']])
      (simple_gurl ''https://www.news.com/'') [] []) =
    (let specific = FindBySpecialFilter example_env
           (converted_all example_env [[''news.com##.ad'', ''##.banner''], [''www.news.com#@#.ad'']])
           SF_Generichide (simple_gurl ''https://www.news.com/'') [] [] \<noteq> None;
         h = ToLowerASCII (host (simple_gurl ''https://www.news.com/''))
     in hiding FT_ElemHide [[''news.com##.ad'', ''##.banner''], [''www.news.com#@#.ad'']] h specific -
        hiding FT_ElemHideException [[''news.com##.ad'', ''##.banner''], [''www.news.com#@#.ad'']] h specific)"
proof (rule selectors_of_a_collection)
  show "list_all (list_all no_nul) [[''news.com##.ad'', ''##.banner''], [''www.news.com#@#.ad'']]" by code_simp
  show "plain_host (ToLowerASCII (host (simple_gurl ''https://www.news.com/'')))" by code_simp
qed

end
