(* ===== verification/Resource_Classifier.thy ===== *)
theory Resource_Classifier
  imports Collection_Facts
begin

text \<open>
  \<open>classifier/resource_classifier_impl.cc\<close>: the decision on a request, a popup or a response, over the
  collections of all filtering configurations. Response headers are a type of \<open>net\<close>; the two queries the
  code makes of them are the fields of \<open>response_headers\<close>.
\<close>

section \<open>Decisions\<close>

datatype Decision = Blocked | Allowed | Ignored

record ClassificationResult =
  decision :: Decision
  decisive_subscription :: gurl

abbreviation result :: "Decision \<Rightarrow> gurl \<Rightarrow> ClassificationResult" where
  "result d u \<equiv> \<lparr>decision = d, decisive_subscription = u\<rparr>"

text \<open>\<open>HasHeader\<close>, and the values \<open>EnumerateHeader\<close> goes through for a name.\<close>

record response_headers =
  HasHeader :: "string \<Rightarrow> bool"
  header_values :: "string \<Rightarrow> string list"

section \<open>One collection\<close>

definition ClassifyRequestWithSingleCollection ::
  "net_env \<Rightarrow> SubscriptionCollection \<Rightarrow> gurl \<Rightarrow> gurl list \<Rightarrow> ContentType \<Rightarrow> string \<Rightarrow> ClassificationResult" where
  "ClassifyRequestWithSingleCollection env collection request_url frame_hierarchy content_type sitekey =
     (case FindBySubresourceFilter env collection request_url frame_hierarchy content_type sitekey Blocking of
        None \<Rightarrow> result Ignored empty_gurl
      | Some blocking \<Rightarrow>
          (case FindByAllowFilter env collection request_url frame_hierarchy content_type sitekey of
             Some allowing \<Rightarrow> result Allowed allowing
           | None \<Rightarrow>
               (if FindBySpecialFilter env collection SF_Genericblock request_url frame_hierarchy sitekey \<noteq> None
                then
                  (case FindBySubresourceFilter env collection request_url frame_hierarchy content_type
                          sitekey DomainSpecificBlocking of
                     Some domain_specific \<Rightarrow> result Blocked domain_specific
                   | None \<Rightarrow> result Ignored empty_gurl)
                else result Blocked blocking)))"

definition ClassifyPopupWithSingleCollection ::
  "net_env \<Rightarrow> SubscriptionCollection \<Rightarrow> gurl \<Rightarrow> gurl list \<Rightarrow> string \<Rightarrow> ClassificationResult" where
  "ClassifyPopupWithSingleCollection env collection popup_url opener_frame_hierarchy sitekey =
     (case FindByPopupFilter env collection popup_url opener_frame_hierarchy sitekey Blocking of
        None \<Rightarrow> result Ignored empty_gurl
      | Some blocking \<Rightarrow>
          (case FindByPopupFilter env collection popup_url opener_frame_hierarchy sitekey Allowing of
             Some allowing \<Rightarrow> result Allowed allowing
           | None \<Rightarrow>
               (case FindBySpecialFilter env collection SF_Document popup_url opener_frame_hierarchy sitekey of
                  Some document_allowing \<Rightarrow> result Allowed document_allowing
                | None \<Rightarrow> result Blocked blocking)))"

subsection \<open>Response headers\<close>

fun IsHeaderFilterOverruled ::
  "regex_engines \<Rightarrow> string \<Rightarrow> header_filter_set \<Rightarrow> HeaderFilterData option" where
  "IsHeaderFilterOverruled eng blocking_header_filter [] = None"
| "IsHeaderFilterOverruled eng blocking_header_filter (flt # rest) =
     (if header_filter flt = [] then Some flt
      else if RegexMatches eng (header_filter flt) (c_str (header_filter flt)) blocking_header_filter True
      then Some flt
      else IsHeaderFilterOverruled eng blocking_header_filter rest)"

definition ContainsHeaderValue :: "response_headers \<Rightarrow> string \<Rightarrow> string \<Rightarrow> bool" where
  "ContainsHeaderValue resp header_name header_value =
     list_ex (\<lambda>value. contains value header_value) (header_values resp header_name)"

text \<open>Whether a response has what a header filter names. A filter without a non-empty piece, as \<open>=\<close>, makes
  the code read the first element of an empty vector: \<open>None\<close>.\<close>

definition header_filter_matches :: "response_headers \<Rightarrow> string \<Rightarrow> bool option" where
  "header_filter_matches resp filter_text =
     (case SplitStringNonempty filter_text (CHR ''='') KEEP_WHITESPACE of
        [] \<Rightarrow> None
      | [_] \<Rightarrow> Some (HasHeader resp filter_text)
      | key # val # _ \<Rightarrow> Some (ContainsHeaderValue resp key val))"

fun header_filters_loop :: "regex_engines \<Rightarrow> response_headers \<Rightarrow> header_filter_set \<Rightarrow> header_filter_set \<Rightarrow>
    ClassificationResult \<Rightarrow> ClassificationResult option" where
  "header_filters_loop eng resp [] allowing_filters res = Some res"
| "header_filters_loop eng resp (flt # rest) allowing_filters res =
     (case header_filter_matches resp (header_filter flt) of
        None \<Rightarrow> None
      | Some False \<Rightarrow> header_filters_loop eng resp rest allowing_filters res
      | Some True \<Rightarrow>
          (case IsHeaderFilterOverruled eng (header_filter flt) allowing_filters of
             Some allow_rule \<Rightarrow>
               header_filters_loop eng resp rest allowing_filters
                 (result Allowed (hf_subscription_url allow_rule))
           | None \<Rightarrow> Some (result Blocked (hf_subscription_url flt))))"

definition CheckHeaderFiltersMatchResponseHeaders :: "regex_engines \<Rightarrow> response_headers \<Rightarrow>
    header_filter_set \<Rightarrow> header_filter_set \<Rightarrow> ClassificationResult option" where
  "CheckHeaderFiltersMatchResponseHeaders eng resp blocking_filters allowing_filters =
     header_filters_loop eng resp blocking_filters allowing_filters (result Ignored empty_gurl)"

definition ClassifyResponseWithSingleCollection :: "net_env \<Rightarrow> SubscriptionCollection \<Rightarrow> gurl \<Rightarrow> gurl list \<Rightarrow>
    ContentType \<Rightarrow> response_headers \<Rightarrow> ClassificationResult option" where
  "ClassifyResponseWithSingleCollection env collection request_url frame_hierarchy content_type
       response_headers =
     (let blocking_filters =
            GetHeaderFilters env collection request_url frame_hierarchy content_type Blocking
      in if blocking_filters = [] then Some (result Ignored empty_gurl)
         else
           (case FindBySpecialFilter env collection SF_Document request_url frame_hierarchy [] of
              Some allowing_document \<Rightarrow> Some (result Allowed allowing_document)
            | None \<Rightarrow>
                (if FindBySpecialFilter env collection SF_Genericblock request_url frame_hierarchy [] \<noteq> None
                 then
                   CheckHeaderFiltersMatchResponseHeaders (env_engines env) response_headers
                     (GetHeaderFilters env collection request_url frame_hierarchy content_type
                        DomainSpecificBlocking) []
                 else
                   CheckHeaderFiltersMatchResponseHeaders (env_engines env) response_headers
                     blocking_filters
                     (GetHeaderFilters env collection request_url frame_hierarchy content_type Allowing))))"

section \<open>All collections\<close>

text \<open>The loop the three methods share: the first blocking collection decides, else the last allowing one.\<close>

fun classify_loop :: "('c \<Rightarrow> ClassificationResult) \<Rightarrow> 'c list \<Rightarrow> ClassificationResult \<Rightarrow> ClassificationResult"
where
  "classify_loop classify [] classification = classification"
| "classify_loop classify (collection # rest) classification =
     (let r = classify collection
      in if decision r = Blocked then r
         else if decision r = Allowed then classify_loop classify rest r
         else classify_loop classify rest classification)"

fun classify_response_loop :: "('c \<Rightarrow> ClassificationResult option) \<Rightarrow> 'c list \<Rightarrow> ClassificationResult \<Rightarrow>
    ClassificationResult option" where
  "classify_response_loop classify [] classification = Some classification"
| "classify_response_loop classify (collection # rest) classification =
     (case classify collection of
        None \<Rightarrow> None
      | Some r \<Rightarrow>
          (if decision r = Blocked then Some r
           else if decision r = Allowed then classify_response_loop classify rest r
           else classify_response_loop classify rest classification))"

type_synonym Snapshot = "SubscriptionCollection list"

definition ClassifyRequest ::
  "net_env \<Rightarrow> Snapshot \<Rightarrow> gurl \<Rightarrow> gurl list \<Rightarrow> ContentType \<Rightarrow> string \<Rightarrow> ClassificationResult" where
  "ClassifyRequest env subscription_collections request_url frame_hierarchy content_type sitekey =
     classify_loop
       (\<lambda>collection. ClassifyRequestWithSingleCollection env collection request_url frame_hierarchy
          content_type sitekey)
       subscription_collections (result Ignored empty_gurl)"

definition ClassifyPopup ::
  "net_env \<Rightarrow> Snapshot \<Rightarrow> gurl \<Rightarrow> gurl list \<Rightarrow> string \<Rightarrow> ClassificationResult" where
  "ClassifyPopup env subscription_collections popup_url opener_frame_hierarchy sitekey =
     classify_loop
       (\<lambda>collection. ClassifyPopupWithSingleCollection env collection popup_url opener_frame_hierarchy sitekey)
       subscription_collections (result Ignored empty_gurl)"

definition ClassifyResponse :: "net_env \<Rightarrow> Snapshot \<Rightarrow> gurl \<Rightarrow> gurl list \<Rightarrow> ContentType \<Rightarrow> response_headers \<Rightarrow>
    ClassificationResult option" where
  "ClassifyResponse env subscription_collections request_url frame_hierarchy content_type response_headers =
     classify_response_loop
       (\<lambda>collection. ClassifyResponseWithSingleCollection env collection request_url frame_hierarchy
          content_type response_headers)
       subscription_collections (result Ignored empty_gurl)"

section \<open>What the loop decides\<close>

lemma classify_loop_find:
  "classify_loop classify cs r0 =
    (case List.find (\<lambda>c. decision (classify c) = Blocked) cs of
       Some c \<Rightarrow> classify c
     | None \<Rightarrow>
         (case List.find (\<lambda>c. decision (classify c) = Allowed) (rev cs) of
            Some c \<Rightarrow> classify c | None \<Rightarrow> r0))"
proof (induction cs arbitrary: r0)
  case (Cons c cs)
  have find_snoc: "List.find P (xs @ [x]) = (case List.find P xs of Some y \<Rightarrow> Some y | None \<Rightarrow> if P x then Some x else None)"
    for P :: "'a \<Rightarrow> bool" and xs x
    by (induction xs) auto
  show ?case using Cons.IH by (auto simp: Let_def find_snoc split: option.splits)
qed simp

lemma classify_loop_Blocked:
  assumes "decision r0 = Ignored"
  shows "decision (classify_loop classify cs r0) = Blocked \<longleftrightarrow> (\<exists>c\<in>set cs. decision (classify c) = Blocked)"
  unfolding classify_loop_find using assms
  by (auto split: option.splits simp: find_None_iff dest!: find_SomeD)

lemma classify_loop_Allowed:
  assumes "decision r0 = Ignored"
  shows "decision (classify_loop classify cs r0) = Allowed \<longleftrightarrow>
       (\<forall>c\<in>set cs. decision (classify c) \<noteq> Blocked) \<and> (\<exists>c\<in>set cs. decision (classify c) = Allowed)"
  unfolding classify_loop_find using assms
  by (auto split: option.splits simp: find_None_iff dest!: find_SomeD)

lemma classify_loop_member:
  "classify_loop classify cs r0 = r0 \<or> (\<exists>c\<in>set cs. classify_loop classify cs r0 = classify c)"
  unfolding classify_loop_find by (auto split: option.splits dest!: find_SomeD)

section \<open>What one collection decides\<close>

lemma request_Blocked_iff:
  "decision (ClassifyRequestWithSingleCollection env c url frames ct key) = Blocked \<longleftrightarrow>
    (\<exists>s\<in>set c. HasUrlFilter env s url (DocumentDomain url frames) ct key Blocking) \<and>
    (\<forall>s\<in>set c. \<not> HasAllowFilter env s url frames ct key) \<and>
    ((\<exists>s\<in>set c. HasSpecialFilterInFrames env s SF_Genericblock url frames key) \<longrightarrow>
     (\<exists>s\<in>set c. HasUrlFilter env s url (DocumentDomain url frames) ct key DomainSpecificBlocking))"
  unfolding ClassifyRequestWithSingleCollection_def
    subresource.search_Some_iff [symmetric] special.search_Some_iff [symmetric]
    allow.search_None_iff [symmetric]
  by (auto split: option.splits)

lemma request_Allowed_iff:
  "decision (ClassifyRequestWithSingleCollection env c url frames ct key) = Allowed \<longleftrightarrow>
    (\<exists>s\<in>set c. HasUrlFilter env s url (DocumentDomain url frames) ct key Blocking) \<and>
    (\<exists>s\<in>set c. HasAllowFilter env s url frames ct key)"
  unfolding ClassifyRequestWithSingleCollection_def
    subresource.search_Some_iff [symmetric] allow.search_Some_iff [symmetric]
  by (auto split: option.splits)

lemma popup_Blocked_iff:
  "decision (ClassifyPopupWithSingleCollection env c url frames key) = Blocked \<longleftrightarrow>
    (\<exists>s\<in>set c. HasPopupFilter env s url (DocumentDomain url frames) key Blocking) \<and>
    (\<forall>s\<in>set c. \<not> HasPopupFilter env s url (DocumentDomain url frames) key Allowing) \<and>
    (\<forall>s\<in>set c. \<not> HasSpecialFilterInFrames env s SF_Document url frames key)"
  unfolding ClassifyPopupWithSingleCollection_def
    popup.search_Some_iff [symmetric] popup.search_None_iff [symmetric] special.search_None_iff [symmetric]
  by (auto split: option.splits)

lemma request_source:
  assumes "decision (ClassifyRequestWithSingleCollection env c url frames ct key) \<noteq> Ignored"
  shows "\<exists>s\<in>set c. decisive_subscription (ClassifyRequestWithSingleCollection env c url frames ct key)
    = GetSourceUrl env s"
  using assms unfolding ClassifyRequestWithSingleCollection_def
  by (auto split: option.splits if_splits dest!: subresource.search_SomeD allow.search_SomeD)

subsection \<open>Headers\<close>

lemma IsHeaderFilterOverruled_None_iff:
  "IsHeaderFilterOverruled eng b hs = None \<longleftrightarrow>
     (\<forall>h\<in>set hs. header_filter h \<noteq> [] \<and>
        \<not> RegexMatches eng (header_filter h) (c_str (header_filter h)) b True)"
  by (induction eng b hs rule: IsHeaderFilterOverruled.induct) auto

text \<open>A blocking header filter that decides: the response has it, and no allowing filter overrules it.\<close>

definition header_blocks ::
  "regex_engines \<Rightarrow> response_headers \<Rightarrow> header_filter_set \<Rightarrow> HeaderFilterData \<Rightarrow> bool" where
  "header_blocks eng resp allowing flt \<longleftrightarrow>
     header_filter_matches resp (header_filter flt) = Some True \<and>
     IsHeaderFilterOverruled eng (header_filter flt) allowing = None"

definition usable_header :: "HeaderFilterData \<Rightarrow> bool" where
  "usable_header flt \<longleftrightarrow> SplitStringNonempty (header_filter flt) (CHR ''='') KEEP_WHITESPACE \<noteq> []"

lemma header_filter_matches_None:
  "header_filter_matches resp (header_filter flt) = None \<longleftrightarrow> \<not> usable_header flt"
  by (auto simp: header_filter_matches_def usable_header_def split: list.splits)

lemma header_filters_loop_defined:
  "list_all usable_header hs \<Longrightarrow> \<exists>r. header_filters_loop eng resp hs allowing r0 = Some r"
proof (induction eng resp hs allowing r0 rule: header_filters_loop.induct)
  case (2 eng resp flt rest allowing r0)
  then obtain b where b: "header_filter_matches resp (header_filter flt) = Some b"
    using header_filter_matches_None [of resp flt] by auto
  show ?case
  proof (cases b)
    case True
    then show ?thesis
      using 2 b by (cases "IsHeaderFilterOverruled eng (header_filter flt) allowing") auto
  next
    case False
    then show ?thesis using 2 b by auto
  qed
qed simp

lemma header_filters_loop_Blocked:
  "header_filters_loop eng resp hs allowing r0 = Some r \<Longrightarrow> decision r0 \<noteq> Blocked \<Longrightarrow>
     decision r = Blocked \<longleftrightarrow> list_ex (header_blocks eng resp allowing) hs"
  by (induction eng resp hs allowing r0 rule: header_filters_loop.induct)
    (auto simp: header_blocks_def split: option.splits bool.splits)

lemma header_filters_loop_source:
  "header_filters_loop eng resp hs allowing r0 = Some r \<Longrightarrow> decision r = Blocked \<Longrightarrow> decision r0 \<noteq> Blocked \<Longrightarrow>
     \<exists>h\<in>set hs. header_blocks eng resp allowing h \<and> decisive_subscription r = hf_subscription_url h"
  by (induction eng resp hs allowing r0 rule: header_filters_loop.induct)
    (auto simp: header_blocks_def split: option.splits bool.splits)

end
