(* ===== verification/Classifier_Properties.thy ===== *)
theory Classifier_Properties
  imports Resource_Classifier
begin

text \<open>
  What the classifier decides, over all collections and down to the lines of the filter lists.
\<close>

section \<open>Requests and popups\<close>

definition request_blocked_by ::
  "net_env \<Rightarrow> SubscriptionCollection \<Rightarrow> gurl \<Rightarrow> gurl list \<Rightarrow> ContentType \<Rightarrow> string \<Rightarrow> bool" where
  "request_blocked_by env c url frames ct key \<longleftrightarrow>
     (let doc = DocumentDomain url frames
      in list_ex (\<lambda>s. HasUrlFilter env s url doc ct key Blocking) c \<and>
         \<not> list_ex (\<lambda>s. HasAllowFilter env s url frames ct key) c \<and>
         (list_ex (\<lambda>s. HasSpecialFilterInFrames env s SF_Genericblock url frames key) c \<longrightarrow>
          list_ex (\<lambda>s. HasUrlFilter env s url doc ct key DomainSpecificBlocking) c))"

definition request_allowed_by ::
  "net_env \<Rightarrow> SubscriptionCollection \<Rightarrow> gurl \<Rightarrow> gurl list \<Rightarrow> ContentType \<Rightarrow> string \<Rightarrow> bool" where
  "request_allowed_by env c url frames ct key \<longleftrightarrow>
     list_ex (\<lambda>s. HasUrlFilter env s url (DocumentDomain url frames) ct key Blocking) c \<and>
     list_ex (\<lambda>s. HasAllowFilter env s url frames ct key) c"

definition popup_blocked_by :: "net_env \<Rightarrow> SubscriptionCollection \<Rightarrow> gurl \<Rightarrow> gurl list \<Rightarrow> string \<Rightarrow> bool" where
  "popup_blocked_by env c url frames key \<longleftrightarrow>
     (let doc = DocumentDomain url frames
      in list_ex (\<lambda>s. HasPopupFilter env s url doc key Blocking) c \<and>
         \<not> list_ex (\<lambda>s. HasPopupFilter env s url doc key Allowing) c \<and>
         \<not> list_ex (\<lambda>s. HasSpecialFilterInFrames env s SF_Document url frames key) c)"

lemma request_decisions:
  "decision (ClassifyRequestWithSingleCollection env c url frames ct key) = Blocked \<longleftrightarrow>
     request_blocked_by env c url frames ct key"
  "decision (ClassifyRequestWithSingleCollection env c url frames ct key) = Allowed \<longleftrightarrow>
     request_allowed_by env c url frames ct key"
  unfolding request_Blocked_iff request_Allowed_iff request_blocked_by_def request_allowed_by_def Let_def
    list_ex_iff by blast+

lemma request_decision_cs:
  "decision (ClassifyRequest env cs url frames ct key) =
    (if list_ex (\<lambda>c. request_blocked_by env c url frames ct key) cs then Blocked
     else if list_ex (\<lambda>c. request_allowed_by env c url frames ct key) cs then Allowed else Ignored)"
proof -
  let ?d = "decision (ClassifyRequest env cs url frames ct key)"
  have "?d = Blocked \<longleftrightarrow> list_ex (\<lambda>c. request_blocked_by env c url frames ct key) cs"
    unfolding ClassifyRequest_def list_ex_iff request_decisions [symmetric]
    by (rule classify_loop_Blocked) simp
  moreover have "?d = Allowed \<longleftrightarrow> \<not> list_ex (\<lambda>c. request_blocked_by env c url frames ct key) cs \<and>
      list_ex (\<lambda>c. request_allowed_by env c url frames ct key) cs"
    unfolding ClassifyRequest_def list_ex_iff request_decisions [symmetric]
    by (subst classify_loop_Allowed) auto
  ultimately show ?thesis by (cases ?d) auto
qed

lemma request_decisions_cs:
  "decision (ClassifyRequest env cs url frames ct key) = Blocked \<longleftrightarrow>
     list_ex (\<lambda>c. request_blocked_by env c url frames ct key) cs"
  by (simp add: request_decision_cs)

text \<open>A request is blocked exactly when some configuration blocks it: one of its subscriptions has a
  blocking filter for it, none has an allowing filter for it or its frames, and under a \<open>genericblock\<close>
  filter a domain-specific one blocks it too. It is allowed when no configuration blocks it and in some
  one a blocking filter is overruled, and ignored otherwise.\<close>

theorem request_decision_over_configurations:
  "decision (ClassifyRequest env cs url frames ct key) =
    (if list_ex (\<lambda>c. request_blocked_by env c url frames ct key) cs then Blocked
     else if list_ex (\<lambda>c. request_allowed_by env c url frames ct key) cs then Allowed else Ignored)"
  by (rule request_decision_cs)

lemma popup_blocked_cs:
  "decision (ClassifyPopup env cs url frames key) = Blocked \<longleftrightarrow>
     list_ex (\<lambda>c. popup_blocked_by env c url frames key) cs"
proof -
  have "decision (ClassifyPopupWithSingleCollection env c url frames key) = Blocked \<longleftrightarrow>
      popup_blocked_by env c url frames key" for c
    unfolding popup_Blocked_iff popup_blocked_by_def Let_def list_ex_iff by blast
  then show ?thesis unfolding ClassifyPopup_def by (simp add: classify_loop_Blocked list_ex_iff)
qed

text \<open>A popup is blocked exactly when in some configuration a popup filter blocks it, none allows it and
  no document filter covers it or a frame of its opener.\<close>

theorem popup_blocked_iff_some_configuration_blocks:
  "decision (ClassifyPopup env cs url frames key) = Blocked \<longleftrightarrow>
     list_ex (\<lambda>c. popup_blocked_by env c url frames key) cs"
  by (rule popup_blocked_cs)

lemma document_allowed_request:
  assumes "document_allowed env c frames key"
  shows "\<not> request_blocked_by env c url frames ct key" "\<not> popup_blocked_by env c url frames key"
  using document_allowed_FindByAllowFilter [OF assms, of url ct]
    document_allowed_FindBySpecialFilter [OF assms, of url]
  unfolding request_blocked_by_def popup_blocked_by_def Let_def list_ex_iff
    allow.search_None_iff special.search_None_iff by blast+

text \<open>A decision other than \<open>Ignored\<close> names the source of a subscription of one of the
  configurations.\<close>

theorem decisive_subscription_is_installed:
  assumes "decision (ClassifyRequest env cs url frames ct key) \<noteq> Ignored"
  shows "\<exists>c\<in>set cs. \<exists>s\<in>set c.
    decisive_subscription (ClassifyRequest env cs url frames ct key) = GetSourceUrl env s"
proof -
  let ?classify = "\<lambda>c. ClassifyRequestWithSingleCollection env c url frames ct key"
  consider "ClassifyRequest env cs url frames ct key = result Ignored empty_gurl"
    | c where "c \<in> set cs" "ClassifyRequest env cs url frames ct key = ?classify c"
    unfolding ClassifyRequest_def
    using classify_loop_member [of ?classify cs "result Ignored empty_gurl"] by blast
  then show ?thesis
  proof cases
    case 1
    then show ?thesis using assms by simp
  next
    case 2
    then show ?thesis using assms request_source [of env c url frames ct key] by metis
  qed
qed

theorem decisive_subscription_is_installed_witness:
  "\<exists>c\<in>set [[example_subscription]]. \<exists>s\<in>set c.
    decisive_subscription (ClassifyRequest example_env [[example_subscription]] example_url
      [simple_gurl ''https://news.com/''] CT_Script []) = GetSourceUrl example_env s"
proof (rule decisive_subscription_is_installed)
  have "decision (ClassifyRequest example_env [[example_subscription]] example_url
      [simple_gurl ''https://news.com/''] CT_Script []) = Blocked" by code_simp
  then show "decision (ClassifyRequest example_env [[example_subscription]] example_url
      [simple_gurl ''https://news.com/''] CT_Script []) \<noteq> Ignored" by simp
qed

section \<open>Responses\<close>

definition response_blocked_by ::
  "net_env \<Rightarrow> SubscriptionCollection \<Rightarrow> gurl \<Rightarrow> gurl list \<Rightarrow> ContentType \<Rightarrow> response_headers \<Rightarrow> bool" where
  "response_blocked_by env c url frames ct resp \<longleftrightarrow>
     (let found = GetHeaderFilters env c url frames ct
      in found Blocking \<noteq> [] \<and>
         \<not> list_ex (\<lambda>s. HasSpecialFilterInFrames env s SF_Document url frames []) c \<and>
         (if list_ex (\<lambda>s. HasSpecialFilterInFrames env s SF_Genericblock url frames []) c
          then list_ex (header_blocks (env_engines env) resp []) (found DomainSpecificBlocking)
          else list_ex (header_blocks (env_engines env) resp (found Allowing)) (found Blocking)))"

definition usable_headers :: "net_env \<Rightarrow> SubscriptionCollection \<Rightarrow> gurl \<Rightarrow> gurl list \<Rightarrow> ContentType \<Rightarrow> bool" where
  "usable_headers env c url frames ct \<longleftrightarrow>
     list_all usable_header (GetHeaderFilters env c url frames ct Blocking) \<and>
     list_all usable_header (GetHeaderFilters env c url frames ct DomainSpecificBlocking)"

lemma response_single:
  assumes "usable_headers env c url frames ct"
  shows "\<exists>r. ClassifyResponseWithSingleCollection env c url frames ct resp = Some r \<and>
    (decision r = Blocked \<longleftrightarrow> response_blocked_by env c url frames ct resp)"
proof -
  have ex: "FindBySpecialFilter env c t url frames [] \<noteq> None \<longleftrightarrow>
      list_ex (\<lambda>s. HasSpecialFilterInFrames env s t url frames []) c" for t
    by (auto simp: special.search_None_iff list_ex_iff simp del: not_None_eq)
  have check: "\<exists>r. CheckHeaderFiltersMatchResponseHeaders eng resp hs al = Some r \<and>
      (decision r = Blocked \<longleftrightarrow> list_ex (header_blocks eng resp al) hs)"
    if "list_all usable_header hs" for eng hs al
    unfolding CheckHeaderFiltersMatchResponseHeaders_def
    using header_filters_loop_defined [OF that] header_filters_loop_Blocked
    by (metis Decision.distinct(3) ClassificationResult.select_convs(1))
  show ?thesis
  proof (cases "GetHeaderFilters env c url frames ct Blocking = []")
    case True
    then show ?thesis
      by (simp add: ClassifyResponseWithSingleCollection_def response_blocked_by_def Let_def)
  next
    case False
    show ?thesis
    proof (cases "FindBySpecialFilter env c SF_Document url frames []")
      case (Some u)
      then show ?thesis using False ex [of SF_Document]
        by (simp add: ClassifyResponseWithSingleCollection_def response_blocked_by_def Let_def)
    next
      case None
      then show ?thesis
        using False ex [of SF_Document] ex [of SF_Genericblock] assms check
        unfolding ClassifyResponseWithSingleCollection_def response_blocked_by_def Let_def
          usable_headers_def
        by (auto simp del: not_None_eq)
    qed
  qed
qed

lemma classify_response_loop_total:
  assumes "\<And>c. c \<in> set cs \<Longrightarrow> classify c = Some (f c)"
  shows "classify_response_loop classify cs r0 = Some (classify_loop f cs r0)"
  using assms by (induction cs arbitrary: r0) (simp_all add: Let_def)

text \<open>C22: When every header filter has a name, classifying a response never fails, and blocks it exactly when
  some configuration does: no document filter covers it, and one of its header filters (a
  domain-specific one under \<open>genericblock\<close>) matches the response and no allowing header filter overrules
  it.\<close>

theorem response_blocked_iff_some_header_filter_blocks:
  assumes "list_all (\<lambda>c. usable_headers env c url frames ct) cs"
  shows "\<exists>r. ClassifyResponse env cs url frames ct resp = Some r \<and>
    (decision r = Blocked \<longleftrightarrow> list_ex (\<lambda>c. response_blocked_by env c url frames ct resp) cs)"
proof -
  let ?f = "\<lambda>c. ClassifyResponseWithSingleCollection env c url frames ct resp"
  have s: "?f c = Some (the (?f c))"
    "decision (the (?f c)) = Blocked \<longleftrightarrow> response_blocked_by env c url frames ct resp"
    if "c \<in> set cs" for c
    using response_single [of env c url frames ct resp] assms that by (auto simp: list_all_iff)
  have "ClassifyResponse env cs url frames ct resp =
      Some (classify_loop (\<lambda>c. the (?f c)) cs (result Ignored empty_gurl))"
    unfolding ClassifyResponse_def by (rule classify_response_loop_total) (rule s(1))
  moreover have "decision (classify_loop (\<lambda>c. the (?f c)) cs (result Ignored empty_gurl)) = Blocked \<longleftrightarrow>
      list_ex (\<lambda>c. response_blocked_by env c url frames ct resp) cs"
    using s(2) by (subst classify_loop_Blocked) (auto simp: list_ex_iff)
  ultimately show ?thesis by blast
qed

definition header_subscription :: "string \<Rightarrow> InstalledSubscriptionImpl" where
  "header_subscription h =
     new_InstalledSubscriptionImpl example_env
       (ConvertFilters [] [''||example.com^$header='' @ h] empty_gurl True) Installed 0"

definition example_response :: response_headers where
  "example_response = \<lparr>HasHeader = (\<lambda>h. h = ''x-ads''), header_values = (\<lambda>h. [''1'', ''yes''])\<rparr>"

theorem response_blocked_iff_some_header_filter_blocks_witness:
  "\<exists>r. ClassifyResponse example_env [[header_subscription ''x-ads=yes'']] example_url [] CT_Script example_response = Some r \<and>
    (decision r = Blocked \<longleftrightarrow> list_ex (\<lambda>c. response_blocked_by example_env c example_url [] CT_Script example_response)
       [[header_subscription ''x-ads=yes'']])"
proof (rule response_blocked_iff_some_header_filter_blocks)
  have "usable_headers example_env [header_subscription ''x-ads=yes''] example_url [] CT_Script" by code_simp
  then show "list_all (\<lambda>c. usable_headers example_env c example_url [] CT_Script) [[header_subscription ''x-ads=yes'']]"
    by simp
qed

text \<open>A header filter without a name, as \<open>$header==\<close>, is accepted by the parser and makes the classifier
  read past the end of an empty vector.\<close>

lemma header_filter_without_a_name:
  "ClassifyResponse example_env [[header_subscription ''='']] example_url [] CT_Script example_response = None"
  by code_simp

end
