(* ===== verification/List_Decisions.thy ===== *)
theory List_Decisions
  imports Classifier_Properties
begin

text \<open>
  From the text of filter lists to decisions: the classifier over converted lists refines a
  specification that reads the lines of the lists, with no index and no keyword in it.
\<close>

section \<open>The specification\<close>

definition installed_matcher :: "net_env \<Rightarrow> string list \<Rightarrow> RegexMatcher" where
  "installed_matcher env lines = is_regex_matcher (converted [] lines empty_gurl False env)"

text \<open>Some line of the list is a filter for the index that the query passes.\<close>

definition line_passes :: "net_env \<Rightarrow> UrlFilterIndexRef \<Rightarrow> url_query \<Rightarrow> string list \<Rightarrow> bool" where
  "line_passes env r q lines \<longleftrightarrow>
     list_ex (accepts env (installed_matcher env lines) q) (list_filters False r lines)"

fun special_ref :: "SpecialFilterType \<Rightarrow> UrlFilterIndexRef" where
  "special_ref SF_Document = Document_allow"
| "special_ref SF_Elemhide = Elemhide_allow"
| "special_ref SF_Genericblock = Genericblock_allow"
| "special_ref SF_Generichide = Generichide_allow"

definition request_query :: "net_env \<Rightarrow> gurl \<Rightarrow> gurl list \<Rightarrow> ContentType \<Rightarrow> string \<Rightarrow> FilterCategory \<Rightarrow> url_query"
where
  "request_query env url frames ct key cat =
     make_query env url (Some ct) (DocumentDomain url frames) key cat"

definition frame_query :: "net_env \<Rightarrow> string \<Rightarrow> gurl \<times> string \<Rightarrow> url_query" where
  "frame_query env key f = make_query env (fst f) None (snd f) key Allowing"

definition frames_pass :: "net_env \<Rightarrow> SpecialFilterType \<Rightarrow> (gurl \<times> string) list \<Rightarrow> string \<Rightarrow> string list \<Rightarrow> bool" where
  "frames_pass env t fs key lines \<longleftrightarrow>
     list_ex (\<lambda>f. line_passes env (special_ref t) (frame_query env key f) lines) fs"

definition lists_decision ::
  "net_env \<Rightarrow> string list list \<Rightarrow> gurl \<Rightarrow> gurl list \<Rightarrow> ContentType \<Rightarrow> string \<Rightarrow> Decision" where
  "lists_decision env lss url frames ct key =
     (let blocks = (\<lambda>cat. list_ex (line_passes env Subresource_block (request_query env url frames ct key cat)) lss);
          allows = list_ex (\<lambda>lines. line_passes env Subresource_allow (request_query env url frames ct key Allowing) lines \<or>
                     frames_pass env SF_Document (frame_domains frames) key lines) lss;
          generic_off = list_ex (frames_pass env SF_Genericblock
                          ((url, DocumentDomain url frames) # frame_domains frames) key) lss
      in if \<not> blocks Blocking then Ignored
         else if allows then Allowed
         else if generic_off then (if blocks DomainSpecificBlocking then Blocked else Ignored)
         else Blocked)"

text \<open>The queries a request makes, and the lists they are exact for.\<close>

definition request_queries ::
  "net_env \<Rightarrow> gurl \<Rightarrow> gurl list \<Rightarrow> ContentType \<Rightarrow> string \<Rightarrow> url_query list" where
  "request_queries env url frames ct key =
     map (request_query env url frames ct key) [Blocking, Allowing, DomainSpecificBlocking] @
     map (frame_query env key) ((url, DocumentDomain url frames) # frame_domains frames)"

definition list_serves :: "string list \<Rightarrow> url_query \<Rightarrow> bool" where
  "list_serves lines q \<longleftrightarrow> query_ok q \<and> list_all (searchable_line q) lines"

definition lists_serve ::
  "net_env \<Rightarrow> string list list \<Rightarrow> gurl \<Rightarrow> gurl list \<Rightarrow> ContentType \<Rightarrow> string \<Rightarrow> bool" where
  "lists_serve env lss url frames ct key \<longleftrightarrow>
     list_all (\<lambda>lines. list_all (list_serves lines) (request_queries env url frames ct key)) lss"

section \<open>One list\<close>

lemma special_index_ref: "special_index t sub = get_index (special_ref t) sub"
  by (cases t) simp_all

lemma converted_matcher: "is_regex_matcher (converted [] lines empty_gurl False env) = installed_matcher env lines"
  by (simp add: installed_matcher_def)

lemma HasUrlFilter_lines:
  assumes "list_serves lines (make_query env url (Some ct) doc key cat)"
  shows "HasUrlFilter env (converted [] lines empty_gurl False env) url doc ct key cat \<longleftrightarrow>
    line_passes env (if cat = Allowing then Subresource_allow else Subresource_block)
      (make_query env url (Some ct) doc key cat) lines"
  using assms converted_index_found [OF refl, of env url "Some ct" doc key cat lines
      "installed_matcher env lines" "if cat = Allowing then Subresource_allow else Subresource_block"]
  by (cases "cat = Allowing") (simp_all add: HasUrlFilter_def converted_matcher line_passes_def list_serves_def)

lemma HasSpecialFilter_lines:
  assumes "list_serves lines (frame_query env key (url, doc))"
  shows "HasSpecialFilter env (converted [] lines empty_gurl False env) t url doc key \<longleftrightarrow>
    line_passes env (special_ref t) (frame_query env key (url, doc)) lines"
  using assms converted_index_found [OF refl, of env url None doc key Allowing lines
      "installed_matcher env lines" "special_ref t"]
  by (simp add: HasSpecialFilter_def special_index_ref converted_matcher line_passes_def list_serves_def frame_query_def)

lemma frames_lines:
  assumes "list_all (\<lambda>f. list_serves lines (frame_query env key f)) (frame_domains frames)"
  shows "SubscriptionContainsSpecialFilter env (converted [] lines empty_gurl False env) t frames key \<longleftrightarrow>
    frames_pass env t (frame_domains frames) key lines"
proof -
  have "HasSpecialFilter env (converted [] lines empty_gurl False env) t (fst f) (snd f) key \<longleftrightarrow>
      line_passes env (special_ref t) (frame_query env key f) lines"
    if "f \<in> set (frame_domains frames)" for f
    using HasSpecialFilter_lines [of lines env key "fst f" "snd f" t] assms that by (simp add: list_all_iff)
  then show ?thesis
    unfolding SubscriptionContainsSpecialFilter_iff frames_pass_def list_ex_iff by (auto simp: split_beta)
qed

section \<open>One configuration\<close>

lemma converted_collection_decision:
  assumes "lists_serve env lss url frames ct key"
  shows "decision (ClassifyRequestWithSingleCollection env (converted_all env lss) url frames ct key) =
    lists_decision env lss url frames ct key"
proof -
  let ?doc = "DocumentDomain url frames"
  let ?s = "\<lambda>lines. converted [] lines empty_gurl False env"
  let ?rq = "request_query env url frames ct key"
  have serve: "list_serves lines q" if "lines \<in> set lss" "q \<in> set (request_queries env url frames ct key)" for lines q
    using assms that by (auto simp: lists_serve_def list_all_iff)
  have url_ok: "HasUrlFilter env (?s lines) url ?doc ct key cat \<longleftrightarrow>
      line_passes env (if cat = Allowing then Subresource_allow else Subresource_block) (?rq cat) lines"
    if "lines \<in> set lss" for lines cat
    unfolding request_query_def
    by (rule HasUrlFilter_lines) (use serve [OF that, of "?rq cat"] in
        \<open>cases cat; simp add: request_queries_def request_query_def\<close>)
  have frames_ok: "SubscriptionContainsSpecialFilter env (?s lines) t frames key \<longleftrightarrow>
      frames_pass env t (frame_domains frames) key lines" if "lines \<in> set lss" for lines t
    by (rule frames_lines) (use serve [OF that] in \<open>auto simp: request_queries_def list_all_iff\<close>)
  have here_ok: "HasSpecialFilter env (?s lines) t url ?doc key \<longleftrightarrow>
      line_passes env (special_ref t) (frame_query env key (url, ?doc)) lines" if "lines \<in> set lss" for lines t
    by (rule HasSpecialFilter_lines) (use serve [OF that] in \<open>simp add: request_queries_def\<close>)
  have sets: "set (converted_all env lss) = ?s ` set lss" by (simp add: converted_all_def)
  have blocks: "FindBySubresourceFilter env (converted_all env lss) url frames ct key cat \<noteq> None \<longleftrightarrow>
      list_ex (line_passes env Subresource_block (?rq cat)) lss" if "cat \<noteq> Allowing" for cat
    using url_ok that by (auto simp: subresource.search_None_iff sets list_ex_iff simp del: not_None_eq)
  have allows: "FindByAllowFilter env (converted_all env lss) url frames ct key \<noteq> None \<longleftrightarrow>
      list_ex (\<lambda>lines. line_passes env Subresource_allow (?rq Allowing) lines \<or>
         frames_pass env SF_Document (frame_domains frames) key lines) lss"
    using url_ok frames_ok
    by (auto simp: allow.search_None_iff sets list_ex_iff HasAllowFilter_def simp del: not_None_eq)
  have generic: "FindBySpecialFilter env (converted_all env lss) SF_Genericblock url frames key \<noteq> None \<longleftrightarrow>
      list_ex (frames_pass env SF_Genericblock ((url, ?doc) # frame_domains frames) key) lss"
    using here_ok frames_ok
    by (auto simp: special.search_None_iff sets list_ex_iff HasSpecialFilterInFrames_def frames_pass_def
        simp del: not_None_eq)
  note b = blocks [of Blocking, simplified] blocks [of DomainSpecificBlocking, simplified]
  show ?thesis
    unfolding lists_decision_def Let_def ClassifyRequestWithSingleCollection_def
      b [symmetric] allows [symmetric] generic [symmetric]
    by (auto split: option.splits)
qed

section \<open>All configurations\<close>

definition combine_decisions :: "Decision list \<Rightarrow> Decision" where
  "combine_decisions ds = (if Blocked \<in> set ds then Blocked else if Allowed \<in> set ds then Allowed else Ignored)"

lemma decision_combine:
  "decision (classify_loop classify cs (result Ignored empty_gurl)) =
     combine_decisions (map (\<lambda>c. decision (classify c)) cs)"
proof -
  let ?d = "decision (classify_loop classify cs (result Ignored empty_gurl))"
  have mem: "d \<in> set (map (\<lambda>c. decision (classify c)) cs) \<longleftrightarrow> (\<exists>c\<in>set cs. decision (classify c) = d)" for d
    by (auto simp: image_iff)
  have "?d = Blocked \<longleftrightarrow> Blocked \<in> set (map (\<lambda>c. decision (classify c)) cs)"
    unfolding mem by (rule classify_loop_Blocked) simp
  moreover have "?d = Allowed \<longleftrightarrow> Blocked \<notin> set (map (\<lambda>c. decision (classify c)) cs) \<and>
      Allowed \<in> set (map (\<lambda>c. decision (classify c)) cs)"
    unfolding mem by (subst classify_loop_Allowed) auto
  ultimately show ?thesis by (cases ?d) (auto simp: combine_decisions_def)
qed

text \<open>C1: The classifier over installed filter lists refines the specification on their lines: the decision
  on a request is the one that reading every line of every list of every configuration gives, for lists
  and URLs in the scope of the index search.\<close>

theorem request_decision_refines_the_lists:
  assumes "list_all (\<lambda>lss. lists_serve env lss url frames ct key) configurations"
  shows "decision (ClassifyRequest env (map (converted_all env) configurations) url frames ct key) =
    combine_decisions (map (\<lambda>lss. lists_decision env lss url frames ct key) configurations)"
proof -
  have "map (\<lambda>lss. decision (ClassifyRequestWithSingleCollection env (converted_all env lss) url frames ct key))
        configurations = map (\<lambda>lss. lists_decision env lss url frames ct key) configurations"
    using assms converted_collection_decision by (simp add: list_all_iff)
  then show ?thesis unfolding ClassifyRequest_def decision_combine map_map comp_def
    by (simp only:)
qed

theorem request_decision_refines_the_lists_witness:
  "decision (ClassifyRequest example_env (map (converted_all example_env) [[example_lines, [''@@||news.com^$genericblock'']]])
      example_url [simple_gurl ''https://news.com/''] CT_Script []) =
    combine_decisions (map (\<lambda>lss. lists_decision example_env lss example_url [simple_gurl ''https://news.com/''] CT_Script [])
      [[example_lines, [''@@||news.com^$genericblock'']]])"
proof (rule request_decision_refines_the_lists)
  have "lists_serve example_env [example_lines, [''@@||news.com^$genericblock'']] example_url
      [simple_gurl ''https://news.com/''] CT_Script []" by code_simp
  then show "list_all (\<lambda>lss. lists_serve example_env lss example_url [simple_gurl ''https://news.com/''] CT_Script [])
      [[example_lines, [''@@||news.com^$genericblock'']]]" by simp
qed

end
