(* ===== verification/Domain_Allowlisting.thy ===== *)
theory Domain_Allowlisting
  imports List_Decisions
begin

text \<open>
  Allowlisting a domain, from \<open>CreateDomainAllowlistingFilter\<close> (\<open>common/adblock_utils.cc\<close>) through the
  parser, the converter and the index to the classifier: the generated filter is parsed as a document
  exception for that domain, and a page of the domain is matched by it.
\<close>

section \<open>The generated filter\<close>

definition domain_char :: "char \<Rightarrow> bool" where
  "domain_char c \<longleftrightarrow> IsAsciiLower c \<or> IsAsciiDigit c \<or> c = CHR ''-'' \<or> c = CHR ''.''"

text \<open>A lower-case host name with at least one dot inside.\<close>

definition plain_domain :: "string \<Rightarrow> bool" where
  "plain_domain d \<longleftrightarrow> list_all domain_char d \<and> CHR ''.'' \<in> set d"

lemma domain_char_not:
  "\<not> domain_char (CHR ''#'')" "\<not> domain_char (CHR ''$'')" "\<not> domain_char (CHR '','')" "\<not> domain_char (CHR ''='')"
  "\<not> domain_char (CHR ''|'')" "\<not> domain_char (CHR ''~'')" "\<not> domain_char (CHR '':'')" "\<not> domain_char (CHR ''/'')"
  "\<not> domain_char (CHR ''^'')" "\<not> domain_char (CHR ''*'')" "\<not> domain_char (CHR 0x00)"
  "IsAsciiWhitespace c \<Longrightarrow> \<not> domain_char c" "domain_char c \<Longrightarrow> \<not> IsAsciiUpper c"
proof -
  have "list_all (\<lambda>c. \<not> domain_char c) kWhitespaceASCII" by code_simp
  then show "IsAsciiWhitespace c \<Longrightarrow> \<not> domain_char c" by (simp add: IsAsciiWhitespace_def list_all_iff)
qed (auto simp: domain_char_def IsAsciiLower_def IsAsciiDigit_def IsAsciiUpper_def)

lemma plain_domain_facts:
  assumes "plain_domain d"
  shows "d \<noteq> []" "ToLowerASCII d = d" "\<And>c. c \<in> set d \<Longrightarrow> domain_char c" "TrimWhitespaceASCII d = d"
    "c \<in> set d \<Longrightarrow> c \<noteq> CHR ''$'' \<and> c \<noteq> CHR '','' \<and> c \<noteq> CHR ''|'' \<and> c \<noteq> CHR ''#'' \<and> c \<noteq> CHR ''=''"
proof -
  show ne: "d \<noteq> []" and dc: "\<And>c. c \<in> set d \<Longrightarrow> domain_char c"
    using assms by (auto simp: plain_domain_def list_all_iff)
  show "ToLowerASCII d = d" using dc domain_char_not(13) by (intro ToLowerASCII_id) blast
  have "c \<notin> set kWhitespaceASCII" if "c \<in> set d" for c
    using dc [OF that] domain_char_not(12) by (auto simp: IsAsciiWhitespace_def)
  then have "hd d \<notin> set kWhitespaceASCII" "last d \<notin> set kWhitespaceASCII" using ne by simp_all
  then have "dropWhile (\<lambda>c. c \<in> set kWhitespaceASCII) d = d"
    "dropWhile (\<lambda>c. c \<in> set kWhitespaceASCII) (rev d) = rev d"
    using ne by (simp_all add: dropWhile_eq_self_iff hd_rev)
  then show "TrimWhitespaceASCII d = d"
    by (simp add: TrimWhitespaceASCII_def TrimString_def TrimLeading_def TrimTrailing_def)
  show "c \<in> set d \<Longrightarrow> c \<noteq> CHR ''$'' \<and> c \<noteq> CHR '','' \<and> c \<noteq> CHR ''|'' \<and> c \<noteq> CHR ''#'' \<and> c \<noteq> CHR ''=''"
    using dc [of c] domain_char_not by auto
qed

definition allowlisting_options :: "string \<Rightarrow> UrlFilterOptions" where
  "allowlisting_options d =
     default_UrlFilterOptions\<lparr>is_subresource := False,
       domains := \<lparr>exclude_domains = [], include_domains = [d]\<rparr>, exception_types := {ET_Document}\<rparr>"

definition allowlisting_filter :: "string \<Rightarrow> UrlFilter" where
  "allowlisting_filter d =
     \<lparr>uf_is_allowing = True, uf_pattern = ''||'' @ d @ ''^'', uf_options = allowlisting_options d\<rparr>"

lemma domain_option_single:
  assumes "plain_domain d"
  shows "DomainOption_FromString d (CHR ''|'') = \<lparr>exclude_domains = [], include_domains = [d]\<rparr>"
proof -
  note d = plain_domain_facts [OF assms]
  have "CHR ''|'' \<notin> set d" using d(5) by blast
  then have "split_on (CHR ''|'') d = [d]" by (rule split_on_id)
  then have s: "SplitStringNonempty d (CHR ''|'') TRIM_WHITESPACE = [d]"
    using d(1,4) by (simp add: SplitStringNonempty_def)
  have "hd d \<noteq> CHR ''~''" using d(1) d(3) [of "hd d"] domain_char_not(6) by auto
  then show ?thesis
    by (simp add: DomainOption_FromString_def Let_def d(2) s kExcludeSymbol_def last_passing_def)
qed

lemma document_option:
  "parse_option ''document'' (o', v) = Some (o'\<lparr>exception_types := insert ET_Document (exception_types o')\<rparr>, v)"
proof -
  have "split_option ''document'' v = (''document'', v)"
    "RemoveChars (ToLowerASCII ''document'') kWhitespaceASCII = ''document''"
    "ContentTypeFromString ''document'' = CT_Unknown" "ExceptionTypeFromString ''document'' = Some ET_Document"
    by (simp add: split_option_def) code_simp+
  then show ?thesis by (simp add: parse_option_def parse_keyed_option_def Let_def)
qed

lemma domain_option:
  assumes "plain_domain d"
  shows "parse_option (''domain='' @ d) (o', v) =
    Some (o'\<lparr>domains := \<lparr>exclude_domains = [], include_domains = [d]\<rparr>\<rparr>, d)"
proof -
  have "split_option (''domain='' @ d) v = (''domain'', d)" by (simp add: split_option_def)
  moreover have "RemoveChars (ToLowerASCII ''domain'') kWhitespaceASCII = ''domain''" by code_simp
  ultimately show ?thesis
    using domain_option_single [OF assms] plain_domain_facts(1) [OF assms]
    by (simp add: parse_option_def parse_keyed_option_def Let_def)
qed

lemma allowlisting_options_parse:
  assumes "plain_domain d"
  shows "UrlFilterOptions_FromString (''document,domain='' @ d) = Some (allowlisting_options d)"
proof -
  have c: "CHR '','' \<notin> set (''domain='' @ d)" using plain_domain_facts(5) [OF assms] by auto
  have "split_on (CHR '','') (''document'' @ CHR '','' # (''domain='' @ d)) = [''document'', ''domain='' @ d]"
    using split_on_append [of "CHR '',''" "''document''" "''domain='' @ d"] split_on_id [OF c] by simp
  then have "SplitStringNonempty (''document,domain='' @ d) (CHR '','') KEEP_WHITESPACE = [''document'', ''domain='' @ d]"
    by (simp add: SplitStringNonempty_def)
  then show ?thesis
    by (simp add: UrlFilterOptions_FromString_def document_option domain_option [OF assms, simplified]
        finish_options_def initial_options_def allowlisting_options_def default_UrlFilterOptions_def
        empty_DomainOption_def)
qed

lemma UrlFilter_FromString_allowing:
  assumes "split_filter_options True s = Some (p, Some o')" "rewrite o' = None"
  shows "UrlFilter_FromString (''@@'' @ s) =
    Some \<lparr>uf_is_allowing = True, uf_pattern = lowercase_pattern p (Some o'), uf_options = o'\<rparr>"
  using assms by (simp add: UrlFilter_FromString_def)

lemma allowlisting_filter_parse:
  assumes "plain_domain d"
  shows "parse_line (CreateDomainAllowlistingFilter d) = Parsed_url (allowlisting_filter d)"
proof -
  note d = plain_domain_facts [OF assms]
  let ?rest = "''document,domain='' @ d"
  let ?p = "''||'' @ d @ ''^''"
  have line: "CreateDomainAllowlistingFilter d = ''@@'' @ ?p @ CHR ''$'' # ?rest"
    by (simp add: CreateDomainAllowlistingFilter_def d(2))
  have "last d \<notin> set kWhitespaceASCII"
    using d(1) d(3) [of "last d"] domain_char_not(12) by (auto simp: IsAsciiWhitespace_def)
  moreover have "CHR ''@'' \<notin> set kWhitespaceASCII" by code_simp
  ultimately have trim: "TrimWhitespaceASCII (CreateDomainAllowlistingFilter d) = CreateDomainAllowlistingFilter d"
    using d(1) unfolding line
    by (simp add: TrimWhitespaceASCII_def TrimString_def TrimLeading_def TrimTrailing_def
        dropWhile_eq_self_iff hd_rev rev_swap)
  have hash: "find_char (CHR ''#'') (CreateDomainAllowlistingFilter d) = None"
    using d(5) unfolding line find_char_None by auto
  have "CHR ''$'' \<notin> set ?rest" using d(5) by auto
  then have rf: "rfind_char kOptionSymbol (?p @ CHR ''$'' # ?rest) = Some (length ?p)"
    unfolding kOptionSymbol_def by (rule rfind_char_append)
  have nore: "ExtractRegexFilterFromPattern (?p @ CHR ''$'' # ?rest) = None" "ExtractRegexFilterFromPattern ?p = None"
    by (simp_all add: ExtractRegexFilterFromPattern_def)
  have dr: "drop (Suc (length ?p)) (?p @ CHR ''$'' # ?rest) = ?rest" "take (length ?p) (?p @ CHR ''$'' # ?rest) = ?p"
    by simp_all
  have split: "split_filter_options True (?p @ CHR ''$'' # ?rest) = Some (?p, Some (allowlisting_options d))"
    unfolding split_filter_options_def rf nore option.case dr allowlisting_options_parse [OF assms]
    by (simp add: options_suit_filter_def allowlisting_options_def default_UrlFilterOptions_def)
  have low: "lowercase_pattern ?p (Some (allowlisting_options d)) = ?p"
    using d(2) by (simp add: lowercase_pattern_def nore(2) [simplified])
  have rw: "rewrite (allowlisting_options d) = None"
    by (simp add: allowlisting_options_def default_UrlFilterOptions_def)
  have "UrlFilter_FromString (CreateDomainAllowlistingFilter d) = Some (allowlisting_filter d)"
    unfolding line UrlFilter_FromString_allowing [OF split rw] low allowlisting_filter_def ..
  moreover have "\<not> StartsWith (CreateDomainAllowlistingFilter d) ''!''" "CreateDomainAllowlistingFilter d \<noteq> []"
    by (simp_all add: line)
  ultimately show ?thesis by (simp add: parse_line_def trim hash)
qed

section \<open>The pattern on a page of the domain\<close>

definition domain_pattern :: "string \<Rightarrow> string" where
  "domain_pattern d = ''||'' @ d @ ''^''"

lemma domain_token:
  assumes "plain_domain d"
  shows "list_all (\<lambda>c. \<not> is_token_separator c) d"
  using plain_domain_facts(3) [OF assms] domain_char_not
  by (auto simp: list_all_iff is_token_separator_def)

lemma bars_body:
  assumes "d \<noteq> []" "hd d \<noteq> CHR ''|''"
  shows "leading_bars (''||'' @ d @ q) = 2" "pattern_body (''||'' @ d @ q) = d @ q"
  using assms by (cases d; simp add: leading_bars_def pattern_body_def)+

lemma end_anchored_without_bar: "CHR ''|'' \<notin> set p \<Longrightarrow> end_anchored_ok p"
  by (induction p rule: end_anchored_ok.induct) auto

lemma domain_pattern_ok:
  assumes "plain_domain d"
  shows "leading_bars (domain_pattern d) = 2" "pattern_body (domain_pattern d) = d @ ''^''"
    "well_formed_pattern (domain_pattern d)" "token_count (domain_pattern d) \<le> 48"
proof -
  note d = plain_domain_facts [OF assms]
  have bar: "hd d \<noteq> CHR ''|''" "CHR ''|'' \<notin> set d" using d(1,5) by auto
  note b = bars_body [OF d(1) bar(1), of "''^''", folded domain_pattern_def]
  then show "leading_bars (domain_pattern d) = 2" "pattern_body (domain_pattern d) = d @ ''^''" by simp_all
  show "well_formed_pattern (domain_pattern d)"
    unfolding well_formed_pattern_def b using bar(2) by (simp add: end_anchored_without_bar)
  obtain c t where ct: "d = c # t" using d(1) by (cases d) auto
  have "token_count (d @ ''^'') = Suc (token_count ''^'')"
    unfolding ct append_Cons
    by (rule token_count_literal) (use domain_token [OF assms] ct in \<open>simp_all add: is_token_separator_def\<close>)
  then have "token_count (domain_pattern d) = 3"
    using ct bar by (simp add: domain_pattern_def)
  then show "token_count (domain_pattern d) \<le> 48" by simp
qed

lemma separator_after_host:
  assumes "c \<in> set '':/?#''"
  shows "CharacterIsValidSeparator c"
proof -
  have "list_all CharacterIsValidSeparator '':/?#''" by code_simp
  then show ?thesis using assms by auto
qed

text \<open>No occurrence of the host before the host: it has a dot, the scheme has none, and it has no colon and
  no slash.\<close>

lemma no_earlier_host:
  assumes "plain_domain d" "CHR ''.'' \<notin> set sch" "i < length sch + 3"
  shows "drop i (sch @ ''://'' @ r) \<noteq> d @ q"
proof
  assume eq: "drop i (sch @ ''://'' @ r) = d @ q"
  note d = plain_domain_facts [OF assms(1)]
  have cs: "CHR '':'' \<notin> set d" "CHR ''/'' \<notin> set d" using d(3) domain_char_not by blast+
  have dot: "CHR ''.'' \<in> set d" using assms(1) by (simp add: plain_domain_def)
  show False
  proof (cases "i \<le> length sch")
    case True
    then have "drop i sch @ CHR '':'' # ''//'' @ r = d @ q" using eq by simp
    then obtain x where x: "drop i sch = d @ x \<and> x @ CHR '':'' # ''//'' @ r = q \<or>
        drop i sch @ x = d \<and> CHR '':'' # ''//'' @ r = x @ q"
      unfolding append_eq_append_conv2 by blast
    have "set (drop i sch) \<subseteq> set sch" by (rule set_drop_subset)
    then have "x \<noteq> [] \<and> CHR '':'' # ''//'' @ r = x @ q \<and> set x \<subseteq> set d"
      using x dot assms(2) by auto
    then show False using cs(1) by (cases x) auto
  next
    case False
    then consider "i = Suc (length sch)" | "i = Suc (Suc (length sch))" using assms(3) by linarith
    then have "hd (d @ q) = CHR ''/''" unfolding eq [symmetric] by cases simp_all
    then show False using cs(2) d(1) by (cases d) auto
  qed
qed

lemma domain_pattern_matches:
  assumes "plain_domain d" "standard_url u" "host u = d" "CHR ''.'' \<notin> set (scheme u)"
  shows "DoesPatternMatchUrl (domain_pattern d) u"
proof -
  note d = plain_domain_facts [OF assms(1)] and p = domain_pattern_ok [OF assms(1)]
  obtain r where sp: "spec u = scheme u @ ''://'' @ d @ r" and r: "r = [] \<or> hd r \<in> set '':/?#''"
  proof -
    obtain r where r: "spec u = (scheme u @ ''://'' @ host u) @ r"
      using assms(2) by (auto simp: standard_url_def StartsWith_iff)
    moreover have "drop (length (scheme u @ ''://'' @ host u)) (spec u) = r"
      using append_eq_conv_conj [of "scheme u @ ''://'' @ host u" r "spec u"] r by metis
    ultimately show thesis using that [of r] assms(2,3) by (cases r) (auto simp: standard_url_def)
  qed
  let ?n = "length (scheme u) + 3"
  have lit: "pattern_matches_at (d @ ''^'') s \<longleftrightarrow> (\<exists>r. s = d @ r \<and> pattern_matches_at ''^'' r)" for s
    by (rule literal_matches [OF domain_token [OF assms(1)]])
  have here: "pattern_matches_at (d @ ''^'') (drop ?n (spec u))"
    using r separator_after_host unfolding lit sp by (cases r) auto
  have not_before: "\<not> pattern_matches_at (d @ ''^'') (drop i (spec u))" if "i < ?n" for i
    using no_earlier_host [OF assms(1,4) that] unfolding lit sp by blast
  have n: "?n < Suc (length (spec u))" by (simp add: sp)
  have "[0..<Suc (length (spec u))] = [0..<?n] @ [?n..<Suc (length (spec u))]"
    using n upt_add_eq_append [of 0 ?n "Suc (length (spec u)) - ?n"] by simp
  moreover have "[?n..<Suc (length (spec u))] = ?n # [Suc ?n..<Suc (length (spec u))]"
    using n by (rule upt_conv_Cons)
  ultimately have fm: "first_match (d @ ''^'') (spec u) = Some ?n"
    using here not_before unfolding first_match_def find_Some_iff
    by (intro exI [of _ ?n]) (auto simp: nth_append simp del: upt_Suc)
  have "skip_length (d @ ''^'') ?n = ?n"
    using d(1) d(3) [of "hd d"] domain_char_not(9) by (cases d) (auto simp: skip_length_def)
  moreover have "IsValidStartOfHost (take ?n (spec u)) u"
    using assms(2) by (simp add: sp IsValidStartOfHost_def Let_def TrimLeading_def has_scheme_def standard_url_def)
  moreover have "\<not> StartsWith (d @ ''^'') ''*''"
    using d(1) d(3) [of "hd d"] domain_char_not(10) by (cases d) auto
  ultimately have "pattern_spec (domain_pattern d) u"
    by (simp add: pattern_spec_def p(1,2) fm Let_def)
  then show ?thesis using DoesPatternMatchUrl_spec [OF p(3,4)] by blast
qed

section \<open>From the list to the decision\<close>

lemma allowlisting_filter_index: "Document_allow \<in> set (index_targets al (allowlisting_filter d))"
proof -
  have "exception_list {ET_Document} = [ET_Document]" by code_simp
  then show ?thesis
    by (simp add: index_targets_def Let_def allowlisting_filter_def allowlisting_options_def
        default_UrlFilterOptions_def)
qed

lemma allowlisting_filter_accepted:
  assumes "plain_domain d" "query_ok (frame_query env key (u, d))"
    "host (q_lowercase_url (frame_query env key (u, d))) = d"
    "CHR ''.'' \<notin> set (scheme (q_lowercase_url (frame_query env key (u, d))))"
  shows "accepts env m (frame_query env key (u, d)) (CreateUrlFilter (allowlisting_filter d))"
proof -
  let ?q = "frame_query env key (u, d)" and ?f = "CreateUrlFilter (allowlisting_filter d)"
  note d = plain_domain_facts [OF assms(1)]
  have f: "fu_pattern ?f = domain_pattern d" "fu_match_case ?f = False" "fu_third_party ?f = ThirdParty_Ignore"
    "fu_sitekeys ?f = []" "fu_include_domains ?f = [d]" "fu_exclude_domains ?f = []"
    by (simp_all add: CreateUrlFilter_def Let_def allowlisting_filter_def allowlisting_options_def
        default_UrlFilterOptions_def domain_pattern_def)
  have nolow: "\<not> NeedsLowercasing d"
    using d(3) domain_char_not(13) by (auto simp: NeedsLowercasing_def list_ex_iff)
  then have q: "q_content_type ?q = None" "q_category ?q = Allowing" "q_document_domain ?q = d"
    by (simp_all add: frame_query_def make_query_def)
  have "CandidateFilterViable ?q ?f"
    by (simp add: CandidateFilterViable_def q CheckThirdParty_def f IsActiveOnDomain_def
        IsActiveOnDomainLists_def DomainOnList_def DomainMatches_def)
  moreover have "ExtractRegexFilterFromPattern (domain_pattern d) = None"
    by (simp add: ExtractRegexFilterFromPattern_def domain_pattern_def)
  moreover have "DoesPatternMatchUrl (domain_pattern d) (q_lowercase_url ?q)"
    using assms by (intro domain_pattern_matches) (simp_all add: query_ok_def)
  ultimately show ?thesis by (simp add: accepts_def FilterPatternMatches_def f)
qed

lemma allowlisted_page_covered:
  assumes "plain_domain d" "CreateDomainAllowlistingFilter d \<in> set lines"
    "list_serves lines (frame_query env key (u, d))" "host (q_lowercase_url (frame_query env key (u, d))) = d"
    "CHR ''.'' \<notin> set (scheme (q_lowercase_url (frame_query env key (u, d))))"
  shows "HasSpecialFilter env (converted [] lines empty_gurl False env) SF_Document u d key"
proof -
  let ?f = "CreateUrlFilter (allowlisting_filter d)"
  have "?f \<in> set (list_filters False Document_allow lines)"
    using assms(2) allowlisting_filter_parse [OF assms(1)] allowlisting_filter_index [of False d]
    unfolding set_list_filters url_filters_def by blast
  moreover have "accepts env (installed_matcher env lines) (frame_query env key (u, d)) ?f"
    using assms by (intro allowlisting_filter_accepted) (simp_all add: list_serves_def)
  ultimately show ?thesis
    unfolding HasSpecialFilter_lines [OF assms(3)] line_passes_def list_ex_iff by auto
qed

text \<open>The outermost frame is looked up with its own host.\<close>

lemma last_frame_domain:
  "frames \<noteq> [] \<Longrightarrow> (last frames, host (last frames)) \<in> set (frame_domains frames)"
  by (induction frames rule: frame_domains.induct) (auto split: list.splits)

text \<open>Allowlisting a domain works end to end: when every configuration has a list with the filter that
  \<open>CreateDomainAllowlistingFilter\<close> makes for a domain, no request from a page of that domain is blocked,
  whatever other lists say, and no popup it opens.\<close>

theorem allowlisted_domains_are_not_blocked:
  assumes "plain_domain d" "frames \<noteq> []" "host (last frames) = d"
    "CreateDomainAllowlistingFilter d \<in> set lines" "list_all (\<lambda>lss. lines \<in> set lss) configurations"
    "list_serves lines (frame_query env key (last frames, d))"
    "host (q_lowercase_url (frame_query env key (last frames, d))) = d"
    "CHR ''.'' \<notin> set (scheme (q_lowercase_url (frame_query env key (last frames, d))))"
  shows "decision (ClassifyRequest env (map (converted_all env) configurations) url frames ct key) \<noteq> Blocked \<and>
    decision (ClassifyPopup env (map (converted_all env) configurations) url frames key) \<noteq> Blocked"
proof -
  have "HasSpecialFilter env (converted [] lines empty_gurl False env) SF_Document (last frames) d key"
    using assms by (intro allowlisted_page_covered) simp_all
  moreover have "(last frames, d) \<in> set (frame_domains frames)"
    using last_frame_domain [OF assms(2)] assms(3) by simp
  ultimately have "document_allowed env (converted_all env lss) frames key" if "lss \<in> set configurations" for lss
    using assms(5) that unfolding document_allowed_def list_ex_iff converted_all_def by (force simp: list_all_iff)
  then have none: "\<not> request_blocked_by env (converted_all env lss) url frames ct key"
    "\<not> popup_blocked_by env (converted_all env lss) url frames key" if "lss \<in> set configurations" for lss
    using document_allowed_request that by blast+
  have "\<not> list_ex (\<lambda>c. request_blocked_by env c url frames ct key) (map (converted_all env) configurations)"
    "\<not> list_ex (\<lambda>c. popup_blocked_by env c url frames key) (map (converted_all env) configurations)"
    using none by (auto simp: list_ex_iff)
  then show ?thesis
    unfolding request_decisions_cs popup_blocked_cs by simp
qed

theorem allowlisted_domains_are_not_blocked_witness:
  "decision (ClassifyRequest example_env
      (map (converted_all example_env) [[[CreateDomainAllowlistingFilter ''news.com''], example_lines]])
      example_url [simple_gurl ''https://news.com/''] CT_Script []) \<noteq> Blocked \<and>
   decision (ClassifyPopup example_env
      (map (converted_all example_env) [[[CreateDomainAllowlistingFilter ''news.com''], example_lines]])
      example_url [simple_gurl ''https://news.com/''] []) \<noteq> Blocked"
proof (rule allowlisted_domains_are_not_blocked [where d = "''news.com''"
      and lines = "[CreateDomainAllowlistingFilter ''news.com'']"])
  let ?page = "simple_gurl ''https://news.com/''"
  have l: "last [?page] = ?page" by simp
  show "plain_domain ''news.com''" by code_simp
  show "[?page] \<noteq> []" by simp
  show "host (last [?page]) = ''news.com''" unfolding l by code_simp
  show "CreateDomainAllowlistingFilter ''news.com'' \<in> set [CreateDomainAllowlistingFilter ''news.com'']" by simp
  show "list_all (\<lambda>lss. [CreateDomainAllowlistingFilter ''news.com''] \<in> set lss)
      [[[CreateDomainAllowlistingFilter ''news.com''], example_lines]]" by simp
  show "list_serves [CreateDomainAllowlistingFilter ''news.com''] (frame_query example_env [] (last [?page], ''news.com''))"
    unfolding l by code_simp
  show "host (q_lowercase_url (frame_query example_env [] (last [?page], ''news.com''))) = ''news.com''"
    unfolding l by code_simp
  show "CHR ''.'' \<notin> set (scheme (q_lowercase_url (frame_query example_env [] (last [?page], ''news.com''))))"
    unfolding l by code_simp
qed

end
