(* ===== verification/Filtering_Configuration.thy ===== *)
theory Filtering_Configuration
  imports Prelude "HOL-Library.AList"
begin

text \<open>
  \<open>configuration/persistent_filtering_configuration.cc\<close>: the settings of one filtering configuration,
  kept in a dictionary that is stored under the configuration's name in the preferences. The
  preferences are explicit state, shared by all configurations: an operation returns the changed
  configuration, the changed preferences and the notifications its observers get.
\<close>

section \<open>Values and dictionaries\<close>

text \<open>\<open>base::Value\<close>; doubles and binary values are never looked into.\<close>

datatype Value =
    NoneValue
  | BoolValue bool
  | IntValue int
  | OpaqueValue nat
  | StringValue string
  | ListValue "Value list"
  | DictValue "(string \<times> Value) list"

type_synonym dict = "(string \<times> Value) list"

definition FindBool :: "dict \<Rightarrow> string \<Rightarrow> bool option" where
  "FindBool dictionary key = (case map_of dictionary key of Some (BoolValue b) \<Rightarrow> Some b | _ \<Rightarrow> None)"

definition FindList :: "dict \<Rightarrow> string \<Rightarrow> Value list option" where
  "FindList dictionary key = (case map_of dictionary key of Some (ListValue l) \<Rightarrow> Some l | _ \<Rightarrow> None)"

definition EnsureList :: "string \<Rightarrow> dict \<Rightarrow> dict" where
  "EnsureList key dictionary =
     (if FindList dictionary key = None then AList.update key (ListValue []) dictionary else dictionary)"

definition kEnabledKey :: string where "kEnabledKey = ''enabled''"
definition kDomainsKey :: string where "kDomainsKey = ''domains''"
definition kCustomFiltersKey :: string where "kCustomFiltersKey = ''filters''"
definition kFilterListsKey :: string where "kFilterListsKey = ''subscriptions''"

lemmas setting_keys = kEnabledKey_def kDomainsKey_def kCustomFiltersKey_def kFilterListsKey_def

text \<open>The preference \<open>filtering.configurations\<close> is a dictionary from names to configurations.\<close>

definition ReadFromPrefs :: "dict \<Rightarrow> string \<Rightarrow> dict" where
  "ReadFromPrefs prefs configuration_name =
     (case map_of prefs configuration_name of Some (DictValue d) \<Rightarrow> d | _ \<Rightarrow> [])"

definition StoreToPrefs :: "dict \<Rightarrow> dict \<Rightarrow> string \<Rightarrow> dict" where
  "StoreToPrefs configuration prefs configuration_name =
     AList.update configuration_name (DictValue configuration) prefs"

definition SetDefaultValuesIfNeeded :: "dict \<Rightarrow> dict" where
  "SetDefaultValuesIfNeeded configuration =
     (let d = (if FindBool configuration kEnabledKey = None
               then AList.update kEnabledKey (BoolValue True) configuration else configuration)
      in EnsureList kFilterListsKey (EnsureList kCustomFiltersKey (EnsureList kDomainsKey d)))"

text \<open>The lists exist (\<open>SetDefaultValuesIfNeeded\<close>); an absent one would be a null pointer. The result is the
  changed dictionary, or \<open>None\<close> for no change.\<close>

definition AppendToList :: "dict \<Rightarrow> string \<Rightarrow> string \<Rightarrow> dict option" where
  "AppendToList configuration key v =
     (case FindList configuration key of
        None \<Rightarrow> None
      | Some l \<Rightarrow>
          (if StringValue v \<in> set l then None
           else Some (AList.update key (ListValue (l @ [StringValue v])) configuration)))"

definition RemoveFromList :: "dict \<Rightarrow> string \<Rightarrow> string \<Rightarrow> dict option" where
  "RemoveFromList configuration key v =
     (case FindList configuration key of
        None \<Rightarrow> None
      | Some l \<Rightarrow>
          (if StringValue v \<notin> set l then None
           else Some (AList.update key (ListValue (remove1 (StringValue v) l)) configuration)))"

fun strings_of :: "Value list \<Rightarrow> string list" where
  "strings_of [] = []"
| "strings_of (StringValue s # l) = s # strings_of l"
| "strings_of (_ # l) = strings_of l"

definition GetFromList :: "dict \<Rightarrow> string \<Rightarrow> string list" where
  "GetFromList configuration key =
     (case FindList configuration key of None \<Rightarrow> [] | Some l \<Rightarrow> strings_of l)"

section \<open>The configuration\<close>

record FilteringConfiguration =
  cfg_name :: string
  cfg_dictionary :: dict

datatype Notification =
    EnabledStateChanged
  | FilterListsChanged
  | AllowedDomainsChanged
  | CustomFiltersChanged

type_synonym config_result = "FilteringConfiguration \<times> dict \<times> Notification list"

definition new_FilteringConfiguration :: "dict \<Rightarrow> string \<Rightarrow> FilteringConfiguration" where
  "new_FilteringConfiguration prefs name =
     \<lparr>cfg_name = name, cfg_dictionary = SetDefaultValuesIfNeeded (ReadFromPrefs prefs name)\<rparr>"

definition IsEnabled :: "FilteringConfiguration \<Rightarrow> bool" where
  "IsEnabled c = (case FindBool (cfg_dictionary c) kEnabledKey of Some b \<Rightarrow> b | None \<Rightarrow> False)"

text \<open>The end of every change: the new dictionary goes to the preferences, then observers are told.\<close>

definition persist_and_notify ::
  "FilteringConfiguration \<Rightarrow> dict \<Rightarrow> dict \<Rightarrow> Notification \<Rightarrow> config_result" where
  "persist_and_notify c dictionary prefs n =
     (c\<lparr>cfg_dictionary := dictionary\<rparr>, StoreToPrefs dictionary prefs (cfg_name c), [n])"

definition SetEnabled :: "bool \<Rightarrow> FilteringConfiguration \<Rightarrow> dict \<Rightarrow> config_result" where
  "SetEnabled enabled c prefs =
     (if IsEnabled c = enabled then (c, prefs, [])
      else persist_and_notify c (AList.update kEnabledKey (BoolValue enabled) (cfg_dictionary c)) prefs
             EnabledStateChanged)"

definition change_list :: "dict option \<Rightarrow> Notification \<Rightarrow> FilteringConfiguration \<Rightarrow> dict \<Rightarrow> config_result" where
  "change_list changed n c prefs =
     (case changed of None \<Rightarrow> (c, prefs, []) | Some d \<Rightarrow> persist_and_notify c d prefs n)"

definition AddFilterList :: "gurl \<Rightarrow> FilteringConfiguration \<Rightarrow> dict \<Rightarrow> config_result" where
  "AddFilterList url c = change_list (AppendToList (cfg_dictionary c) kFilterListsKey (spec url)) FilterListsChanged c"

definition RemoveFilterList :: "gurl \<Rightarrow> FilteringConfiguration \<Rightarrow> dict \<Rightarrow> config_result" where
  "RemoveFilterList url c =
     change_list (RemoveFromList (cfg_dictionary c) kFilterListsKey (spec url)) FilterListsChanged c"

definition GetFilterLists :: "(string \<Rightarrow> gurl) \<Rightarrow> FilteringConfiguration \<Rightarrow> gurl list" where
  "GetFilterLists parse_url c = map parse_url (GetFromList (cfg_dictionary c) kFilterListsKey)"

definition AddAllowedDomain :: "string \<Rightarrow> FilteringConfiguration \<Rightarrow> dict \<Rightarrow> config_result" where
  "AddAllowedDomain domain c =
     change_list (AppendToList (cfg_dictionary c) kDomainsKey domain) AllowedDomainsChanged c"

definition RemoveAllowedDomain :: "string \<Rightarrow> FilteringConfiguration \<Rightarrow> dict \<Rightarrow> config_result" where
  "RemoveAllowedDomain domain c =
     change_list (RemoveFromList (cfg_dictionary c) kDomainsKey domain) AllowedDomainsChanged c"

definition GetAllowedDomains :: "FilteringConfiguration \<Rightarrow> string list" where
  "GetAllowedDomains c = GetFromList (cfg_dictionary c) kDomainsKey"

definition AddCustomFilter :: "string \<Rightarrow> FilteringConfiguration \<Rightarrow> dict \<Rightarrow> config_result" where
  "AddCustomFilter flt c =
     change_list (AppendToList (cfg_dictionary c) kCustomFiltersKey flt) CustomFiltersChanged c"

definition RemoveCustomFilter :: "string \<Rightarrow> FilteringConfiguration \<Rightarrow> dict \<Rightarrow> config_result" where
  "RemoveCustomFilter flt c =
     change_list (RemoveFromList (cfg_dictionary c) kCustomFiltersKey flt) CustomFiltersChanged c"

definition GetCustomFilters :: "FilteringConfiguration \<Rightarrow> string list" where
  "GetCustomFilters c = GetFromList (cfg_dictionary c) kCustomFiltersKey"

declare SetEnabled_def [state_defs] AddFilterList_def [state_defs] RemoveFilterList_def [state_defs]
  AddAllowedDomain_def [state_defs] RemoveAllowedDomain_def [state_defs] AddCustomFilter_def [state_defs]
  RemoveCustomFilter_def [state_defs] change_list_def [state_defs] persist_and_notify_def [state_defs]

section \<open>Dictionaries\<close>

lemma FindList_update [simp]:
  "FindList (AList.update k (ListValue l) d) k' = (if k = k' then Some l else FindList d k')"
  "FindList (AList.update k (BoolValue b) d) k' = (if k = k' then None else FindList d k')"
  by (simp_all add: FindList_def update_conv')

lemma FindBool_update [simp]:
  "FindBool (AList.update k (BoolValue b) d) k' = (if k = k' then Some b else FindBool d k')"
  "FindBool (AList.update k (ListValue l) d) k' = (if k = k' then None else FindBool d k')"
  by (simp_all add: FindBool_def update_conv')

lemma EnsureList_simps [simp]:
  "FindList (EnsureList k d) k' = (if k = k' \<and> FindList d k = None then Some [] else FindList d k')"
  "k \<noteq> k' \<Longrightarrow> FindBool (EnsureList k d) k' = FindBool d k'"
  by (auto simp: EnsureList_def)

lemma keys_distinct [simp]:
  "kEnabledKey \<noteq> kDomainsKey" "kDomainsKey \<noteq> kEnabledKey" "kEnabledKey \<noteq> kCustomFiltersKey"
  "kCustomFiltersKey \<noteq> kEnabledKey" "kEnabledKey \<noteq> kFilterListsKey" "kFilterListsKey \<noteq> kEnabledKey"
  "kDomainsKey \<noteq> kCustomFiltersKey" "kCustomFiltersKey \<noteq> kDomainsKey" "kDomainsKey \<noteq> kFilterListsKey"
  "kFilterListsKey \<noteq> kDomainsKey" "kCustomFiltersKey \<noteq> kFilterListsKey" "kFilterListsKey \<noteq> kCustomFiltersKey"
  by (simp_all add: setting_keys)

text \<open>What the constructor establishes and the operations rely on.\<close>

definition dict_ok :: "dict \<Rightarrow> bool" where
  "dict_ok d \<longleftrightarrow> FindBool d kEnabledKey \<noteq> None \<and>
     list_all (\<lambda>k. FindList d k \<noteq> None) [kDomainsKey, kCustomFiltersKey, kFilterListsKey]"

lemma SetDefaultValues_ok: "dict_ok (SetDefaultValuesIfNeeded d)"
  by (auto simp: dict_ok_def SetDefaultValuesIfNeeded_def Let_def)

lemma SetDefaultValues_id: "dict_ok d \<Longrightarrow> SetDefaultValuesIfNeeded d = d"
  by (auto simp: dict_ok_def SetDefaultValuesIfNeeded_def EnsureList_def Let_def)

lemma strings_of_append [simp]: "strings_of (l @ l') = strings_of l @ strings_of l'"
  by (induction l rule: strings_of.induct) simp_all

lemma strings_of_mem: "s \<in> set (strings_of l) \<longleftrightarrow> StringValue s \<in> set l"
  by (induction l rule: strings_of.induct) auto

lemma strings_of_remove1 [simp]: "strings_of (remove1 (StringValue s) l) = remove1 s (strings_of l)"
  by (induction l rule: strings_of.induct) auto

lemma AppendToList_get:
  assumes "FindList d k \<noteq> None"
  shows "GetFromList (case AppendToList d k v of None \<Rightarrow> d | Some d' \<Rightarrow> d') k' =
    (if k' = k \<and> v \<notin> set (GetFromList d k) then GetFromList d k @ [v] else GetFromList d k')"
  using assms by (auto simp: AppendToList_def GetFromList_def strings_of_mem)

lemma RemoveFromList_get:
  assumes "FindList d k \<noteq> None"
  shows "GetFromList (case RemoveFromList d k v of None \<Rightarrow> d | Some d' \<Rightarrow> d') k' =
    (if k' = k then remove1 v (GetFromList d k) else GetFromList d k')"
  using assms by (auto simp: RemoveFromList_def GetFromList_def strings_of_mem remove1_idem)

section \<open>A setting that is a list of strings\<close>

locale string_list_setting =
  fixes ok :: "'c \<Rightarrow> bool"
    and get :: "'c \<Rightarrow> string list"
    and add :: "string \<Rightarrow> 'c \<Rightarrow> 'c"
    and remove :: "string \<Rightarrow> 'c \<Rightarrow> 'c"
  assumes add_ok: "ok c \<Longrightarrow> ok (add x c)"
    and remove_ok: "ok c \<Longrightarrow> ok (remove x c)"
    and get_add: "ok c \<Longrightarrow> get (add x c) = (if x \<in> set (get c) then get c else get c @ [x])"
    and get_remove: "ok c \<Longrightarrow> get (remove x c) = remove1 x (get c)"
begin

lemma add_twice: "ok c \<Longrightarrow> get (add x (add x c)) = get (add x c)"
  by (simp add: get_add add_ok)

lemma remove_added: "ok c \<Longrightarrow> x \<notin> set (get c) \<Longrightarrow> get (remove x (add x c)) = get c"
  by (simp add: get_add add_ok get_remove remove1_append)

lemma distinct_kept:
  "ok c \<Longrightarrow> distinct (get c) \<Longrightarrow> distinct (get (add x c)) \<and> distinct (get (remove x c))"
  by (simp add: get_add get_remove)

lemma mem_add: "ok c \<Longrightarrow> y \<in> set (get (add x c)) \<longleftrightarrow> y = x \<or> y \<in> set (get c)"
  by (auto simp: get_add)

lemma mem_remove: "ok c \<Longrightarrow> distinct (get c) \<Longrightarrow> y \<in> set (get (remove x c)) \<longleftrightarrow> y \<noteq> x \<and> y \<in> set (get c)"
  by (auto simp: get_remove)

lemma foldl_add:
  "ok c \<Longrightarrow> set (get (foldl (\<lambda>c x. add x c) c xs)) = set (get c) \<union> set xs"
proof (induction xs arbitrary: c)
  case (Cons x xs)
  then show ?case by (auto simp: add_ok mem_add)
qed simp

end

definition config_ok :: "FilteringConfiguration \<Rightarrow> bool" where
  "config_ok c \<longleftrightarrow> dict_ok (cfg_dictionary c)"

lemma change_list_dictionary:
  "cfg_dictionary (fst (change_list changed n c prefs)) = (case changed of None \<Rightarrow> cfg_dictionary c | Some d \<Rightarrow> d)"
  by (simp add: change_list_def persist_and_notify_def split: option.splits)

lemma list_keys_ok: "dict_ok d \<Longrightarrow> k \<in> {kDomainsKey, kCustomFiltersKey, kFilterListsKey} \<Longrightarrow> FindList d k \<noteq> None"
  by (auto simp: dict_ok_def)

lemma list_change_ok:
  assumes "dict_ok d" "k \<in> {kDomainsKey, kCustomFiltersKey, kFilterListsKey}"
  shows "dict_ok (case AppendToList d k v of None \<Rightarrow> d | Some d' \<Rightarrow> d')"
    "dict_ok (case RemoveFromList d k v of None \<Rightarrow> d | Some d' \<Rightarrow> d')"
  using assms by (auto simp: dict_ok_def AppendToList_def RemoveFromList_def split: option.splits)

lemmas setting_facts = config_ok_def change_list_dictionary AppendToList_get RemoveFromList_get list_keys_ok
  list_change_ok

interpretation allowed_domains: string_list_setting config_ok GetAllowedDomains
  "\<lambda>x c. fst (AddAllowedDomain x c prefs)" "\<lambda>x c. fst (RemoveAllowedDomain x c prefs)" for prefs
  by unfold_locales
    (auto simp: setting_facts AddAllowedDomain_def RemoveAllowedDomain_def GetAllowedDomains_def)

interpretation custom_filters: string_list_setting config_ok GetCustomFilters
  "\<lambda>x c. fst (AddCustomFilter x c prefs)" "\<lambda>x c. fst (RemoveCustomFilter x c prefs)" for prefs
  by unfold_locales
    (auto simp: setting_facts AddCustomFilter_def RemoveCustomFilter_def GetCustomFilters_def)

interpretation filter_lists: string_list_setting config_ok "\<lambda>c. GetFromList (cfg_dictionary c) kFilterListsKey"
  "\<lambda>x c. fst (AddFilterList (empty_gurl\<lparr>spec := x\<rparr>) c prefs)"
  "\<lambda>x c. fst (RemoveFilterList (empty_gurl\<lparr>spec := x\<rparr>) c prefs)" for prefs
  by unfold_locales (auto simp: setting_facts AddFilterList_def RemoveFilterList_def)

section \<open>Operations\<close>

datatype config_op =
    Op_SetEnabled bool
  | Op_AddFilterList gurl
  | Op_RemoveFilterList gurl
  | Op_AddAllowedDomain string
  | Op_RemoveAllowedDomain string
  | Op_AddCustomFilter string
  | Op_RemoveCustomFilter string

fun apply_op :: "config_op \<Rightarrow> FilteringConfiguration \<Rightarrow> dict \<Rightarrow> config_result" where
  "apply_op (Op_SetEnabled b) = SetEnabled b"
| "apply_op (Op_AddFilterList u) = AddFilterList u"
| "apply_op (Op_RemoveFilterList u) = RemoveFilterList u"
| "apply_op (Op_AddAllowedDomain d) = AddAllowedDomain d"
| "apply_op (Op_RemoveAllowedDomain d) = RemoveAllowedDomain d"
| "apply_op (Op_AddCustomFilter f) = AddCustomFilter f"
| "apply_op (Op_RemoveCustomFilter f) = RemoveCustomFilter f"

subsection \<open>The settings they stand for\<close>

record settings =
  set_enabled :: bool
  set_lists :: "string list"
  set_domains :: "string list"
  set_filters :: "string list"

definition settings_of :: "FilteringConfiguration \<Rightarrow> settings" where
  "settings_of c =
     \<lparr>set_enabled = IsEnabled c, set_lists = GetFromList (cfg_dictionary c) kFilterListsKey,
      set_domains = GetAllowedDomains c, set_filters = GetCustomFilters c\<rparr>"

definition add_once :: "string \<Rightarrow> string list \<Rightarrow> string list" where
  "add_once x xs = (if x \<in> set xs then xs else xs @ [x])"

fun change_settings :: "config_op \<Rightarrow> settings \<Rightarrow> settings" where
  "change_settings (Op_SetEnabled b) s = s\<lparr>set_enabled := b\<rparr>"
| "change_settings (Op_AddFilterList u) s = s\<lparr>set_lists := add_once (spec u) (set_lists s)\<rparr>"
| "change_settings (Op_RemoveFilterList u) s = s\<lparr>set_lists := remove1 (spec u) (set_lists s)\<rparr>"
| "change_settings (Op_AddAllowedDomain d) s = s\<lparr>set_domains := add_once d (set_domains s)\<rparr>"
| "change_settings (Op_RemoveAllowedDomain d) s = s\<lparr>set_domains := remove1 d (set_domains s)\<rparr>"
| "change_settings (Op_AddCustomFilter f) s = s\<lparr>set_filters := add_once f (set_filters s)\<rparr>"
| "change_settings (Op_RemoveCustomFilter f) s = s\<lparr>set_filters := remove1 f (set_filters s)\<rparr>"

fun notification_of :: "config_op \<Rightarrow> Notification" where
  "notification_of (Op_SetEnabled b) = EnabledStateChanged"
| "notification_of (Op_AddFilterList u) = FilterListsChanged"
| "notification_of (Op_RemoveFilterList u) = FilterListsChanged"
| "notification_of (Op_AddAllowedDomain d) = AllowedDomainsChanged"
| "notification_of (Op_RemoveAllowedDomain d) = AllowedDomainsChanged"
| "notification_of (Op_AddCustomFilter f) = CustomFiltersChanged"
| "notification_of (Op_RemoveCustomFilter f) = CustomFiltersChanged"

lemma change_list_cases:
  "change_list changed n c prefs =
    (case changed of None \<Rightarrow> (c, prefs, [])
     | Some d \<Rightarrow> (c\<lparr>cfg_dictionary := d\<rparr>, StoreToPrefs d prefs (cfg_name c), [n]))"
  by (simp add: change_list_def persist_and_notify_def split: option.split)

lemma apply_op_list_ops:
  "apply_op (Op_AddFilterList u) c = change_list (AppendToList (cfg_dictionary c) kFilterListsKey (spec u)) FilterListsChanged c"
  "apply_op (Op_RemoveFilterList u) c = change_list (RemoveFromList (cfg_dictionary c) kFilterListsKey (spec u)) FilterListsChanged c"
  "apply_op (Op_AddAllowedDomain d) c = change_list (AppendToList (cfg_dictionary c) kDomainsKey d) AllowedDomainsChanged c"
  "apply_op (Op_RemoveAllowedDomain d) c = change_list (RemoveFromList (cfg_dictionary c) kDomainsKey d) AllowedDomainsChanged c"
  "apply_op (Op_AddCustomFilter f) c = change_list (AppendToList (cfg_dictionary c) kCustomFiltersKey f) CustomFiltersChanged c"
  "apply_op (Op_RemoveCustomFilter f) c = change_list (RemoveFromList (cfg_dictionary c) kCustomFiltersKey f) CustomFiltersChanged c"
  by (simp_all add: AddFilterList_def RemoveFilterList_def AddAllowedDomain_def RemoveAllowedDomain_def
      AddCustomFilter_def RemoveCustomFilter_def)

lemma SetEnabled_cases:
  "SetEnabled b c prefs =
    (if IsEnabled c = b then (c, prefs, [])
     else (let d = AList.update kEnabledKey (BoolValue b) (cfg_dictionary c)
           in (c\<lparr>cfg_dictionary := d\<rparr>, StoreToPrefs d prefs (cfg_name c), [EnabledStateChanged])))"
  by (simp add: SetEnabled_def persist_and_notify_def Let_def)

text \<open>An operation that changes nothing leaves everything as it is and notifies nobody; one that changes
  something stores the new dictionary and notifies once.\<close>

definition unchanged_or_stored :: "Notification \<Rightarrow> FilteringConfiguration \<Rightarrow> dict \<Rightarrow> config_result \<Rightarrow> bool" where
  "unchanged_or_stored n c prefs r \<longleftrightarrow> r = (c, prefs, []) \<or>
     (\<exists>d. r = (c\<lparr>cfg_dictionary := d\<rparr>, StoreToPrefs d prefs (cfg_name c), [n]))"

lemma change_list_shape: "unchanged_or_stored n c prefs (change_list changed n c prefs)"
  by (cases changed) (auto simp: unchanged_or_stored_def change_list_cases)

lemma apply_op_shape_of: "unchanged_or_stored (notification_of op) c prefs (apply_op op c prefs)"
proof (cases op)
  case (Op_SetEnabled b)
  then show ?thesis
    by (cases "IsEnabled c = b") (auto simp: SetEnabled_cases Let_def unchanged_or_stored_def)
qed (simp_all del: apply_op.simps add: apply_op_list_ops change_list_shape)

lemma apply_op_shape:
  obtains "apply_op op c prefs = (c, prefs, [])"
    | d where "apply_op op c prefs =
        (c\<lparr>cfg_dictionary := d\<rparr>, StoreToPrefs d prefs (cfg_name c), [notification_of op])"
  using apply_op_shape_of [of op c prefs] unfolding unchanged_or_stored_def by blast

lemma apply_op_ok:
  assumes "config_ok c"
  shows "config_ok (fst (apply_op op c prefs))"
proof (cases op)
  case (Op_SetEnabled b)
  then show ?thesis using assms by (auto simp: SetEnabled_cases Let_def config_ok_def dict_ok_def)
qed (use assms in \<open>simp_all del: apply_op.simps add: apply_op_list_ops change_list_dictionary config_ok_def list_change_ok\<close>)

lemma IsEnabled_list_change:
  assumes "dict_ok d" "k \<in> {kDomainsKey, kCustomFiltersKey, kFilterListsKey}"
  shows "FindBool (case AppendToList d k v of None \<Rightarrow> d | Some d' \<Rightarrow> d') kEnabledKey = FindBool d kEnabledKey"
    "FindBool (case RemoveFromList d k v of None \<Rightarrow> d | Some d' \<Rightarrow> d') kEnabledKey = FindBool d kEnabledKey"
  using assms by (auto simp: AppendToList_def RemoveFromList_def split: option.splits)

lemma settings_list_change:
  assumes "config_ok c"
  shows "settings_of (fst (change_list (AppendToList (cfg_dictionary c) kFilterListsKey x) n c prefs)) =
      (settings_of c)\<lparr>set_lists := add_once x (set_lists (settings_of c))\<rparr>"
    "settings_of (fst (change_list (AppendToList (cfg_dictionary c) kDomainsKey x) n c prefs)) =
      (settings_of c)\<lparr>set_domains := add_once x (set_domains (settings_of c))\<rparr>"
    "settings_of (fst (change_list (AppendToList (cfg_dictionary c) kCustomFiltersKey x) n c prefs)) =
      (settings_of c)\<lparr>set_filters := add_once x (set_filters (settings_of c))\<rparr>"
    "settings_of (fst (change_list (RemoveFromList (cfg_dictionary c) kFilterListsKey x) n c prefs)) =
      (settings_of c)\<lparr>set_lists := remove1 x (set_lists (settings_of c))\<rparr>"
    "settings_of (fst (change_list (RemoveFromList (cfg_dictionary c) kDomainsKey x) n c prefs)) =
      (settings_of c)\<lparr>set_domains := remove1 x (set_domains (settings_of c))\<rparr>"
    "settings_of (fst (change_list (RemoveFromList (cfg_dictionary c) kCustomFiltersKey x) n c prefs)) =
      (settings_of c)\<lparr>set_filters := remove1 x (set_filters (settings_of c))\<rparr>"
  using assms
  by (simp_all add: settings_of_def IsEnabled_def GetAllowedDomains_def GetCustomFilters_def config_ok_def
      change_list_dictionary IsEnabled_list_change AppendToList_get RemoveFromList_get list_keys_ok add_once_def)

lemma GetFromList_enabled [simp]:
  "k \<noteq> kEnabledKey \<Longrightarrow> GetFromList (AList.update kEnabledKey (BoolValue b) d) k = GetFromList d k"
  by (simp add: GetFromList_def)

lemma settings_SetEnabled:
  "settings_of (fst (SetEnabled b c prefs)) = (settings_of c)\<lparr>set_enabled := b\<rparr>"
  by (auto simp: SetEnabled_cases Let_def settings_of_def IsEnabled_def GetAllowedDomains_def GetCustomFilters_def)

lemma apply_op_settings:
  assumes "config_ok c"
  shows "settings_of (fst (apply_op op c prefs)) = change_settings op (settings_of c)"
proof (cases op)
  case (Op_SetEnabled b)
  then show ?thesis by (simp add: settings_SetEnabled)
qed (simp_all del: apply_op.simps add: apply_op_list_ops settings_list_change [OF assms])

lemma remove1_changes: "remove1 x xs = xs \<longleftrightarrow> x \<notin> set xs"
  by (metis One_nat_def diff_less in_set_conv_decomp length_greater_0_conv length_pos_if_in_set
      length_remove1 nat_neq_iff remove1_idem zero_less_one)

lemma apply_op_notifies:
  assumes "config_ok c"
  shows "snd (snd (apply_op op c prefs)) =
    (if change_settings op (settings_of c) = settings_of c then [] else [notification_of op])"
proof -
  note defs = change_list_cases AppendToList_def RemoveFromList_def add_once_def remove1_changes
    settings_of_def GetAllowedDomains_def GetCustomFilters_def GetFromList_def strings_of_mem
  have keys: "FindList (cfg_dictionary c) kDomainsKey \<noteq> None" "FindList (cfg_dictionary c) kCustomFiltersKey \<noteq> None"
    "FindList (cfg_dictionary c) kFilterListsKey \<noteq> None"
    using assms by (auto simp: config_ok_def dict_ok_def)
  show ?thesis
  proof (cases op)
    case (Op_SetEnabled b)
    then show ?thesis by (auto simp: SetEnabled_cases Let_def settings_of_def)
  qed (use keys in \<open>auto simp del: apply_op.simps simp: apply_op_list_ops defs\<close>)
qed

section \<open>Several configurations over the same preferences\<close>

record config_world =
  w_configs :: "FilteringConfiguration list"
  w_prefs :: dict

definition world_step :: "nat \<times> config_op \<Rightarrow> config_world \<Rightarrow> config_world" where
  "world_step = (\<lambda>(i, op) w.
     if i < length (w_configs w)
     then (case apply_op op (w_configs w ! i) (w_prefs w) of
             (c, prefs, _) \<Rightarrow> w\<lparr>w_configs := (w_configs w)[i := c], w_prefs := prefs\<rparr>)
     else w)"

definition start_configs :: "dict \<Rightarrow> string list \<Rightarrow> config_world" where
  "start_configs prefs names =
     \<lparr>w_configs = map (new_FilteringConfiguration prefs) names, w_prefs = prefs\<rparr>"

text \<open>A configuration that is read back from the preferences is the one in memory, and the names differ.\<close>

definition reloadable :: "dict \<Rightarrow> FilteringConfiguration \<Rightarrow> bool" where
  "reloadable prefs c \<longleftrightarrow> config_ok c \<and> new_FilteringConfiguration prefs (cfg_name c) = c"

definition world_ok :: "config_world \<Rightarrow> bool" where
  "world_ok w \<longleftrightarrow> distinct (map cfg_name (w_configs w)) \<and> list_all (reloadable (w_prefs w)) (w_configs w)"

lemma start_configs_ok: "distinct names \<Longrightarrow> world_ok (start_configs prefs names)"
  by (simp add: world_ok_def start_configs_def reloadable_def list_all_iff new_FilteringConfiguration_def
      config_ok_def SetDefaultValues_ok comp_def)

lemma ReadFromPrefs_Store:
  "ReadFromPrefs (StoreToPrefs d prefs n) n' = (if n = n' then d else ReadFromPrefs prefs n')"
  by (simp add: ReadFromPrefs_def StoreToPrefs_def update_conv')

lemma reloadable_stored:
  "config_ok (c\<lparr>cfg_dictionary := d\<rparr>) \<Longrightarrow> reloadable (StoreToPrefs d prefs (cfg_name c)) (c\<lparr>cfg_dictionary := d\<rparr>)"
  by (simp add: reloadable_def new_FilteringConfiguration_def ReadFromPrefs_Store config_ok_def SetDefaultValues_id)

lemma reloadable_other:
  "cfg_name c \<noteq> n \<Longrightarrow> reloadable (StoreToPrefs d prefs n) c = reloadable prefs c"
  by (simp add: reloadable_def new_FilteringConfiguration_def ReadFromPrefs_Store)

lemma world_step_ok:
  assumes "world_ok w"
  shows "world_ok (world_step (i, op) w)"
proof (cases "i < length (w_configs w)")
  case True
  let ?c = "w_configs w ! i"
  have rel: "reloadable (w_prefs w) c" if "c \<in> set (w_configs w)" for c
    using assms that by (simp add: world_ok_def list_all_iff)
  have ok: "config_ok ?c" using rel [of ?c] True by (simp add: reloadable_def)
  show ?thesis
  proof (rule apply_op_shape [of op ?c "w_prefs w"])
    assume "apply_op op ?c (w_prefs w) = (?c, w_prefs w, [])"
    then show ?thesis using assms True by (simp add: world_step_def list_update_id)
  next
    fix d
    assume d: "apply_op op ?c (w_prefs w) =
      (?c\<lparr>cfg_dictionary := d\<rparr>, StoreToPrefs d (w_prefs w) (cfg_name ?c), [notification_of op])"
    have names: "map cfg_name ((w_configs w)[i := ?c\<lparr>cfg_dictionary := d\<rparr>]) = map cfg_name (w_configs w)"
      using True by (simp add: map_update)  (metis list_update_id map_update nth_map)
    have "config_ok (?c\<lparr>cfg_dictionary := d\<rparr>)" using apply_op_ok [OF ok, of op "w_prefs w"] d by simp
    then have new: "reloadable (StoreToPrefs d (w_prefs w) (cfg_name ?c)) (?c\<lparr>cfg_dictionary := d\<rparr>)"
      by (rule reloadable_stored)
    have "reloadable (StoreToPrefs d (w_prefs w) (cfg_name ?c)) ((w_configs w)[i := ?c\<lparr>cfg_dictionary := d\<rparr>] ! j)"
      if "j < length (w_configs w)" for j
    proof (cases "j = i")
      case False
      then have "cfg_name (w_configs w ! j) \<noteq> cfg_name ?c"
        using assms that True by (auto simp: world_ok_def distinct_conv_nth)
      then show ?thesis using False that rel [of "w_configs w ! j"] by (simp add: reloadable_other)
    qed (use new True in simp)
    then have "list_all (reloadable (StoreToPrefs d (w_prefs w) (cfg_name ?c))) ((w_configs w)[i := ?c\<lparr>cfg_dictionary := d\<rparr>])"
      by (simp add: list_all_length)
    then show ?thesis using d True names assms by (simp add: world_step_def world_ok_def)
  qed
qed (use assms in \<open>simp add: world_step_def\<close>)

definition run_configs :: "(nat \<times> config_op) list \<Rightarrow> config_world \<Rightarrow> config_world" where
  "run_configs steps w = foldl (\<lambda>w s. world_step s w) w steps"

lemma run_configs_ok: "world_ok w \<Longrightarrow> world_ok (run_configs steps w)"
  unfolding run_configs_def
proof (induction steps arbitrary: w)
  case (Cons s steps)
  then show ?case using world_step_ok by (cases s) simp
qed simp

section \<open>Properties\<close>

text \<open>C31: Every operation on a configuration refines the abstract settings (a flag and three lists without
  repetition of what is added), changes no other setting, and notifies the observers of that setting once
  when the settings change and not at all when they do not.\<close>

theorem configuration_operations_refine_settings:
  assumes "config_ok c"
  shows "settings_of (fst (apply_op op c prefs)) = change_settings op (settings_of c) \<and>
    snd (snd (apply_op op c prefs)) =
      (if change_settings op (settings_of c) = settings_of c then [] else [notification_of op])"
  using apply_op_settings [OF assms] apply_op_notifies [OF assms] by blast

theorem configuration_operations_refine_settings_witness:
  "settings_of (fst (apply_op (Op_AddAllowedDomain ''a.com'') (new_FilteringConfiguration [] ''ads'') [])) =
     change_settings (Op_AddAllowedDomain ''a.com'') (settings_of (new_FilteringConfiguration [] ''ads'')) \<and>
   snd (snd (apply_op (Op_AddAllowedDomain ''a.com'') (new_FilteringConfiguration [] ''ads'') [])) =
     (if change_settings (Op_AddAllowedDomain ''a.com'') (settings_of (new_FilteringConfiguration [] ''ads'')) =
         settings_of (new_FilteringConfiguration [] ''ads'') then []
      else [notification_of (Op_AddAllowedDomain ''a.com'')])"
  by (rule configuration_operations_refine_settings)
    (simp add: config_ok_def new_FilteringConfiguration_def SetDefaultValues_ok)

text \<open>C32: Configurations with different names survive a restart: after any sequence of operations on
  any of them, reading each one back from the preferences gives the configuration in memory.\<close>

theorem configurations_survive_a_restart:
  assumes "distinct names"
  shows "map (\<lambda>c. new_FilteringConfiguration (w_prefs (run_configs steps (start_configs prefs names))) (cfg_name c))
      (w_configs (run_configs steps (start_configs prefs names))) =
    w_configs (run_configs steps (start_configs prefs names))"
proof -
  have "world_ok (run_configs steps (start_configs prefs names))"
    by (rule run_configs_ok [OF start_configs_ok [OF assms]])
  then show ?thesis by (intro map_idI) (auto simp: world_ok_def list_all_iff reloadable_def)
qed

definition example_steps :: "(nat \<times> config_op) list" where
  "example_steps = [(0, Op_AddAllowedDomain ''a.com''), (1, Op_SetEnabled False), (0, Op_AddCustomFilter ''x'')]"

theorem configurations_survive_a_restart_witness:
  "map (\<lambda>c. new_FilteringConfiguration (w_prefs (run_configs example_steps (start_configs [] [''ads'', ''privacy''])))
      (cfg_name c)) (w_configs (run_configs example_steps (start_configs [] [''ads'', ''privacy'']))) =
    w_configs (run_configs example_steps (start_configs [] [''ads'', ''privacy'']))"
  by (rule configurations_survive_a_restart) simp

end
