(* ===== verification/Persistent_Metadata.thy ===== *)
theory Persistent_Metadata
  imports Filtering_Configuration
begin

text \<open>
  \<open>subscription/subscription_persistent_metadata_impl.cc\<close>: what is remembered of every subscription across
  restarts. A time is a number of microseconds, the null time is 0; the conversion between times and
  values (\<open>base/json/values_util.h\<close>) and the parsing of URLs are parameters. Every change writes the whole
  map to the preference.
\<close>

section \<open>The map\<close>

record SubscriptionMetadata =
  expiration_time :: int
  last_installation_time :: int
  md_version :: string
  download_count :: int
  error_count :: int

definition default_metadata :: SubscriptionMetadata where
  "default_metadata =
     \<lparr>expiration_time = 0, last_installation_time = 0, md_version = ''0'', download_count = 0,
      error_count = 0\<rparr>"

type_synonym metadata_map = "(gurl \<times> SubscriptionMetadata) list"

record metadata_env =
  env_TimeToValue :: "int \<Rightarrow> Value"
  env_ValueToTime :: "Value option \<Rightarrow> int option"
  env_ParseUrl :: "string \<Rightarrow> gurl"

record PersistentMetadata =
  md_map :: metadata_map
  md_prefs :: dict

definition kExpirationTimeKey :: string where "kExpirationTimeKey = ''expiration_time''"
definition kLastInstallationTimeKey :: string where "kLastInstallationTimeKey = ''last_installation_time''"
definition kVersionKey :: string where "kVersionKey = ''version''"
definition kDownloadCountKey :: string where "kDownloadCountKey = ''download_count''"
definition kErrorCountKey :: string where "kErrorCountKey = ''error_count''"

lemmas metadata_keys = kExpirationTimeKey_def kLastInstallationTimeKey_def kVersionKey_def
  kDownloadCountKey_def kErrorCountKey_def

text \<open>\<open>metadata_map_[url]\<close> makes a default entry when there is none.\<close>

definition metadata_at :: "metadata_map \<Rightarrow> gurl \<Rightarrow> SubscriptionMetadata" where
  "metadata_at m url = (case map_of m url of Some d \<Rightarrow> d | None \<Rightarrow> default_metadata)"

definition metadata_value :: "metadata_env \<Rightarrow> SubscriptionMetadata \<Rightarrow> dict" where
  "metadata_value env d =
     [(kExpirationTimeKey, env_TimeToValue env (expiration_time d)),
      (kLastInstallationTimeKey, env_TimeToValue env (last_installation_time d)),
      (kVersionKey, StringValue (md_version d)),
      (kDownloadCountKey, IntValue (download_count d)),
      (kErrorCountKey, IntValue (error_count d))]"

definition UpdatePrefs :: "metadata_env \<Rightarrow> PersistentMetadata \<Rightarrow> PersistentMetadata" where
  "UpdatePrefs env s =
     s\<lparr>md_prefs := map (\<lambda>(url, d). (spec url, DictValue (metadata_value env d))) (md_map s)\<rparr>"

definition FindInt :: "dict \<Rightarrow> string \<Rightarrow> int option" where
  "FindInt dictionary key = (case map_of dictionary key of Some (IntValue i) \<Rightarrow> Some i | _ \<Rightarrow> None)"

definition FindString :: "dict \<Rightarrow> string \<Rightarrow> string option" where
  "FindString dictionary key = (case map_of dictionary key of Some (StringValue s) \<Rightarrow> Some s | _ \<Rightarrow> None)"

definition value_or :: "'a option \<Rightarrow> 'a \<Rightarrow> 'a" where
  "value_or x d = (case x of Some v \<Rightarrow> v | None \<Rightarrow> d)"

text \<open>A value that is not a dictionary has no keys.\<close>

definition dict_of :: "Value \<Rightarrow> dict" where
  "dict_of v = (case v of DictValue d \<Rightarrow> d | _ \<Rightarrow> [])"

definition metadata_from_value :: "metadata_env \<Rightarrow> Value \<Rightarrow> SubscriptionMetadata" where
  "metadata_from_value env v =
     \<lparr>expiration_time = value_or (env_ValueToTime env (map_of (dict_of v) kExpirationTimeKey)) 0,
      last_installation_time = value_or (env_ValueToTime env (map_of (dict_of v) kLastInstallationTimeKey)) 0,
      md_version = value_or (FindString (dict_of v) kVersionKey) ''0'',
      download_count = value_or (FindInt (dict_of v) kDownloadCountKey) 0,
      error_count = value_or (FindInt (dict_of v) kErrorCountKey) 0\<rparr>"

text \<open>\<open>emplace\<close> keeps the entry of a URL that is already there.\<close>

definition emplace :: "gurl \<Rightarrow> SubscriptionMetadata \<Rightarrow> metadata_map \<Rightarrow> metadata_map" where
  "emplace url d m = (if map_of m url = None then m @ [(url, d)] else m)"

definition LoadFromPrefs :: "metadata_env \<Rightarrow> dict \<Rightarrow> PersistentMetadata" where
  "LoadFromPrefs env prefs =
     \<lparr>md_map = foldl (\<lambda>m (key, v). emplace (env_ParseUrl env key) (metadata_from_value env v) m) [] prefs,
      md_prefs = prefs\<rparr>"

section \<open>Operations\<close>

definition change_metadata ::
  "metadata_env \<Rightarrow> gurl \<Rightarrow> (SubscriptionMetadata \<Rightarrow> SubscriptionMetadata) \<Rightarrow> PersistentMetadata \<Rightarrow> PersistentMetadata"
where
  "change_metadata env url f s =
     UpdatePrefs env
       (s\<lparr>md_map := AList.update url (f (metadata_at (md_map s) url)) (md_map s)\<rparr>)"

definition SetExpirationInterval ::
  "metadata_env \<Rightarrow> int \<Rightarrow> gurl \<Rightarrow> int \<Rightarrow> PersistentMetadata \<Rightarrow> PersistentMetadata" where
  "SetExpirationInterval env now subscription_url expires_in =
     change_metadata env subscription_url
       (\<lambda>d. d\<lparr>last_installation_time := now, expiration_time := now + expires_in\<rparr>)"

definition SetVersion :: "metadata_env \<Rightarrow> gurl \<Rightarrow> string \<Rightarrow> PersistentMetadata \<Rightarrow> PersistentMetadata" where
  "SetVersion env subscription_url v = change_metadata env subscription_url (\<lambda>d. d\<lparr>md_version := v\<rparr>)"

text \<open>The counters are \<open>int\<close>; the model leaves out their overflow after \<open>2 ^ 31\<close> downloads.\<close>

definition IncrementDownloadSuccessCount ::
  "metadata_env \<Rightarrow> gurl \<Rightarrow> PersistentMetadata \<Rightarrow> PersistentMetadata" where
  "IncrementDownloadSuccessCount env subscription_url =
     change_metadata env subscription_url
       (\<lambda>d. d\<lparr>download_count := download_count d + 1, error_count := 0\<rparr>)"

definition IncrementDownloadErrorCount ::
  "metadata_env \<Rightarrow> gurl \<Rightarrow> PersistentMetadata \<Rightarrow> PersistentMetadata" where
  "IncrementDownloadErrorCount env subscription_url =
     change_metadata env subscription_url (\<lambda>d. d\<lparr>error_count := error_count d + 1\<rparr>)"

definition RemoveMetadata :: "metadata_env \<Rightarrow> gurl \<Rightarrow> PersistentMetadata \<Rightarrow> PersistentMetadata" where
  "RemoveMetadata env subscription_url s =
     UpdatePrefs env (s\<lparr>md_map := AList.delete subscription_url (md_map s)\<rparr>)"

definition IsExpired :: "int \<Rightarrow> gurl \<Rightarrow> PersistentMetadata \<Rightarrow> bool" where
  "IsExpired now subscription_url s =
     (case map_of (md_map s) subscription_url of
        None \<Rightarrow> True | Some d \<Rightarrow> expiration_time d \<le> now)"

definition GetLastInstallationTime :: "gurl \<Rightarrow> PersistentMetadata \<Rightarrow> int" where
  "GetLastInstallationTime subscription_url s =
     (case map_of (md_map s) subscription_url of None \<Rightarrow> 0 | Some d \<Rightarrow> last_installation_time d)"

definition GetVersion :: "gurl \<Rightarrow> PersistentMetadata \<Rightarrow> string" where
  "GetVersion subscription_url s =
     (case map_of (md_map s) subscription_url of None \<Rightarrow> ''0'' | Some d \<Rightarrow> md_version d)"

definition GetDownloadSuccessCount :: "gurl \<Rightarrow> PersistentMetadata \<Rightarrow> int" where
  "GetDownloadSuccessCount subscription_url s =
     (case map_of (md_map s) subscription_url of None \<Rightarrow> 0 | Some d \<Rightarrow> download_count d)"

definition GetDownloadErrorCount :: "gurl \<Rightarrow> PersistentMetadata \<Rightarrow> int" where
  "GetDownloadErrorCount subscription_url s =
     (case map_of (md_map s) subscription_url of None \<Rightarrow> 0 | Some d \<Rightarrow> error_count d)"

section \<open>Lookups after changes\<close>

lemma map_change [simp]:
  "map_of (md_map (change_metadata env url f s)) url' =
    (if url = url' then Some (f (metadata_at (md_map s) url)) else map_of (md_map s) url')"
  by (simp add: change_metadata_def UpdatePrefs_def update_conv')

lemma map_RemoveMetadata [simp]:
  "map_of (md_map (RemoveMetadata env url s)) url' =
    (if url = url' then None else map_of (md_map s) url')"
  by (simp add: RemoveMetadata_def UpdatePrefs_def delete_conv')

section \<open>What is stored is what is read back\<close>

text \<open>The documented behaviour of the conversions: a time is read back from its value, a URL from its
  spec.\<close>

definition env_inverse :: "metadata_env \<Rightarrow> gurl list \<Rightarrow> bool" where
  "env_inverse env urls \<longleftrightarrow> (\<forall>t. env_ValueToTime env (Some (env_TimeToValue env t)) = Some t) \<and>
     (\<forall>u\<in>set urls. env_ParseUrl env (spec u) = u)"

lemma metadata_value_roundtrip:
  assumes "\<And>t. env_ValueToTime env (Some (env_TimeToValue env t)) = Some t"
  shows "metadata_from_value env (DictValue (metadata_value env d)) = d"
  by (simp add: metadata_from_value_def metadata_value_def metadata_keys dict_of_def value_or_def
      FindString_def FindInt_def assms)

lemma foldl_emplace:
  assumes "\<And>t. env_ValueToTime env (Some (env_TimeToValue env t)) = Some t"
    "\<forall>e\<in>set m. env_ParseUrl env (spec (fst e)) = fst e"
    "distinct (map fst acc @ map fst m)"
  shows "foldl (\<lambda>m (key, v). emplace (env_ParseUrl env key) (metadata_from_value env v) m) acc
      (map (\<lambda>(url, d). (spec url, DictValue (metadata_value env d))) m) = acc @ m"
  using assms(2,3)
proof (induction m arbitrary: acc)
  case (Cons e m)
  obtain u d where e: "e = (u, d)" by (cases e)
  have "u \<notin> fst ` set acc" using Cons.prems(2) e by auto
  then have "map_of acc u = None" by (simp add: map_of_eq_None_iff)
  moreover have "env_ParseUrl env (spec u) = u" using Cons.prems(1) e by simp
  ultimately have "emplace (env_ParseUrl env (spec u))
      (metadata_from_value env (DictValue (metadata_value env d))) acc = acc @ [(u, d)]"
    by (simp add: emplace_def metadata_value_roundtrip [OF assms(1)])
  then show ?case using Cons.IH [of "acc @ [(u, d)]"] Cons.prems e by simp
qed simp

definition metadata_stored :: "metadata_env \<Rightarrow> PersistentMetadata \<Rightarrow> bool" where
  "metadata_stored env s \<longleftrightarrow> distinct (map fst (md_map s)) \<and> md_prefs s = md_prefs (UpdatePrefs env s)"

lemma metadata_stored_change: "distinct (map fst (md_map s)) \<Longrightarrow> metadata_stored env (change_metadata env url f s)"
  by (simp add: metadata_stored_def change_metadata_def UpdatePrefs_def distinct_update)

lemma metadata_stored_remove: "distinct (map fst (md_map s)) \<Longrightarrow> metadata_stored env (RemoveMetadata env url s)"
  by (simp add: metadata_stored_def RemoveMetadata_def UpdatePrefs_def distinct_delete)

lemma LoadFromPrefs_stored:
  assumes "metadata_stored env s" "env_inverse env (map fst (md_map s))"
  shows "LoadFromPrefs env (md_prefs s) = s"
proof -
  have "md_prefs s = map (\<lambda>(url, d). (spec url, DictValue (metadata_value env d))) (md_map s)"
    using assms(1) by (simp add: metadata_stored_def UpdatePrefs_def)
  then have "md_map (LoadFromPrefs env (md_prefs s)) = md_map s"
    using assms foldl_emplace [of env "md_map s" "[]"]
    by (simp add: LoadFromPrefs_def env_inverse_def metadata_stored_def)
  then show ?thesis by (simp add: LoadFromPrefs_def)
qed

section \<open>Histories\<close>

datatype metadata_op =
    Op_SetExpirationInterval int gurl int
  | Op_SetVersion gurl string
  | Op_DownloadSuccess gurl
  | Op_DownloadError gurl
  | Op_RemoveMetadata gurl

fun op_url :: "metadata_op \<Rightarrow> gurl" where
  "op_url (Op_SetExpirationInterval now url i) = url"
| "op_url (Op_SetVersion url v) = url"
| "op_url (Op_DownloadSuccess url) = url"
| "op_url (Op_DownloadError url) = url"
| "op_url (Op_RemoveMetadata url) = url"

fun metadata_step :: "metadata_env \<Rightarrow> metadata_op \<Rightarrow> PersistentMetadata \<Rightarrow> PersistentMetadata" where
  "metadata_step env (Op_SetExpirationInterval now url i) = SetExpirationInterval env now url i"
| "metadata_step env (Op_SetVersion url v) = SetVersion env url v"
| "metadata_step env (Op_DownloadSuccess url) = IncrementDownloadSuccessCount env url"
| "metadata_step env (Op_DownloadError url) = IncrementDownloadErrorCount env url"
| "metadata_step env (Op_RemoveMetadata url) = RemoveMetadata env url"

definition metadata_run :: "metadata_env \<Rightarrow> metadata_op list \<Rightarrow> PersistentMetadata \<Rightarrow> PersistentMetadata" where
  "metadata_run env ops s = fold (metadata_step env) ops s"

lemma metadata_run_snoc: "metadata_run env (ops @ [op]) s = metadata_step env op (metadata_run env ops s)"
  by (simp add: metadata_run_def)

lemmas metadata_setters = SetExpirationInterval_def SetVersion_def IncrementDownloadSuccessCount_def
  IncrementDownloadErrorCount_def

lemma metadata_step_stored: "metadata_stored env s \<Longrightarrow> metadata_stored env (metadata_step env op s)"
  by (cases op) (simp_all add: metadata_setters metadata_stored_change metadata_stored_remove metadata_stored_def [of env s])

lemma metadata_step_urls: "fst ` set (md_map (metadata_step env op s)) \<subseteq> insert (op_url op) (fst ` set (md_map s))"
  by (cases op) (auto simp: metadata_setters change_metadata_def UpdatePrefs_def RemoveMetadata_def dom_update
      AList.delete_eq image_iff)

lemma metadata_run_stored:
  "metadata_stored env (metadata_run env ops (LoadFromPrefs env [])) \<and>
   fst ` set (md_map (metadata_run env ops (LoadFromPrefs env []))) \<subseteq> op_url ` set ops"
proof (induction ops rule: rev_induct)
  case Nil
  show ?case by (simp add: metadata_run_def metadata_stored_def LoadFromPrefs_def UpdatePrefs_def)
next
  case (snoc op ops)
  then show ?case
    using metadata_step_urls [of env op "metadata_run env ops (LoadFromPrefs env [])"]
    unfolding metadata_run_snoc by (auto intro: metadata_step_stored)
qed

text \<open>What the counters of a URL count: the downloads since its last removal, the errors since its last
  successful download or removal.\<close>

fun downloads_since :: "gurl \<Rightarrow> metadata_op list \<Rightarrow> int \<times> int" where
  "downloads_since url [] = (0, 0)"
| "downloads_since url (Op_DownloadSuccess u # earlier) =
     (if u = url then (fst (downloads_since url earlier) + 1, 0) else downloads_since url earlier)"
| "downloads_since url (Op_DownloadError u # earlier) =
     (if u = url then (fst (downloads_since url earlier), snd (downloads_since url earlier) + 1)
      else downloads_since url earlier)"
| "downloads_since url (Op_RemoveMetadata u # earlier) = (if u = url then (0, 0) else downloads_since url earlier)"
| "downloads_since url (_ # earlier) = downloads_since url earlier"

lemma counts_step:
  assumes "(GetDownloadSuccessCount url s, GetDownloadErrorCount url s) = downloads_since url ops"
  shows "(GetDownloadSuccessCount url (metadata_step env op s), GetDownloadErrorCount url (metadata_step env op s)) =
    downloads_since url (op # ops)"
  using assms [symmetric]
  by (cases op) (auto simp: metadata_setters GetDownloadSuccessCount_def GetDownloadErrorCount_def metadata_at_def
      default_metadata_def split: option.splits)

section \<open>Properties\<close>

text \<open>The metadata in memory is at all times what a new process would read from the preferences, for
  every sequence of operations on URLs that parse back from their spec.\<close>

theorem metadata_survives_a_restart:
  assumes "env_inverse env (map op_url ops)"
  shows "LoadFromPrefs env (md_prefs (metadata_run env ops (LoadFromPrefs env []))) =
    metadata_run env ops (LoadFromPrefs env [])"
proof -
  have "env_inverse env (map fst (md_map (metadata_run env ops (LoadFromPrefs env []))))"
    using assms metadata_run_stored [of env ops] by (auto simp: env_inverse_def)
  then show ?thesis using metadata_run_stored [of env ops] by (blast intro: LoadFromPrefs_stored)
qed

definition example_metadata_env :: metadata_env where
  "example_metadata_env =
     \<lparr>env_TimeToValue = IntValue, env_ValueToTime = (\<lambda>v. case v of Some (IntValue i) \<Rightarrow> Some i | _ \<Rightarrow> None),
      env_ParseUrl = simple_gurl\<rparr>"

definition example_metadata_ops :: "metadata_op list" where
  "example_metadata_ops =
     (let a = simple_gurl ''https://a.com/l.txt''; b = simple_gurl ''https://b.com/l.txt''
      in [Op_DownloadError a, Op_DownloadError a, Op_DownloadSuccess b, Op_SetExpirationInterval 5 b 100,
          Op_DownloadSuccess a, Op_SetVersion a ''202301'', Op_DownloadError a, Op_RemoveMetadata b])"

theorem metadata_survives_a_restart_witness:
  "LoadFromPrefs example_metadata_env
     (md_prefs (metadata_run example_metadata_env example_metadata_ops (LoadFromPrefs example_metadata_env []))) =
   metadata_run example_metadata_env example_metadata_ops (LoadFromPrefs example_metadata_env [])"
proof (rule metadata_survives_a_restart)
  have "\<forall>u\<in>set (map op_url example_metadata_ops). simple_gurl (spec u) = u" by code_simp
  then show "env_inverse example_metadata_env (map op_url example_metadata_ops)"
    by (simp add: env_inverse_def example_metadata_env_def)
qed

text \<open>For every history, the success counter of a URL is the number of its downloads since it was last
  removed, and the error counter the number of failed ones since the last success.\<close>

theorem counters_count_downloads:
  "(GetDownloadSuccessCount url (metadata_run env ops (LoadFromPrefs env [])),
    GetDownloadErrorCount url (metadata_run env ops (LoadFromPrefs env []))) = downloads_since url (rev ops)"
proof (induction ops rule: rev_induct)
  case Nil
  show ?case by (simp add: metadata_run_def GetDownloadSuccessCount_def GetDownloadErrorCount_def LoadFromPrefs_def)
next
  case (snoc op ops)
  then show ?case unfolding metadata_run_snoc by (simp only: counts_step rev_append rev.simps append.simps)
qed

end
