(* ===== verification/Subscription_Storage.thy ===== *)
theory Subscription_Storage
  imports Installed_Subscription Persistent_Metadata
begin

text \<open>
  \<open>subscription/subscription_persistent_storage_impl.cc\<close>, \<open>subscription_validator_impl.cc\<close> and
  \<open>common/flatbuffer_data.cc\<close>: subscriptions as files on disk, the signatures that vouch for them, and
  the objects made from them. The disk is a list of files by base name with contents of a type
  \<open>'b\<close>; hashing and reading a buffer are fields of \<open>storage_env\<close>. What the file system does (a write
  that fails, a file that cannot be read or mapped) is an argument of the operations. Tasks posted to the
  main thread run in the order they are posted, so an operation is one step.
\<close>

section \<open>State\<close>

record 'b storage_env =
  env_hash :: "'b \<Rightarrow> string"
  env_GetSubscription :: "'b \<Rightarrow> flat_Subscription"
  env_metadata :: metadata_env
  env_net :: net_env

datatype BufferKind = InMemory | MemoryMapped string

record stored_subscription =
  ss_id :: nat
  ss_buffer :: BufferKind
  ss_subscription :: InstalledSubscriptionImpl

record 'b storage =
  st_disk :: "(string \<times> 'b) list"
  st_signatures :: "(string \<times> string) list"
  st_schema_version :: string
  st_metadata :: PersistentMetadata
  st_backing :: "(nat \<times> string) list"
  st_objects :: "stored_subscription list"
  st_next_id :: nat

section \<open>The validator\<close>

definition ClearSignaturesIfSchemaVersionChanged :: "string \<Rightarrow> 'b storage \<Rightarrow> 'b storage" where
  "ClearSignaturesIfSchemaVersionChanged current_schema_version s =
     (if st_schema_version s \<noteq> current_schema_version
      then s\<lparr>st_signatures := [], st_schema_version := current_schema_version\<rparr> else s)"

definition IsSignatureValidInternal ::
  "'b storage_env \<Rightarrow> (string \<times> string) list \<Rightarrow> 'b \<Rightarrow> string \<Rightarrow> bool" where
  "IsSignatureValidInternal env initial_subscription_signatures data path =
     (case map_of initial_subscription_signatures path of
        None \<Rightarrow> False
      | Some expected_hash \<Rightarrow> expected_hash = env_hash env data)"

definition StoreTrustedSignatureOnMainThread :: "string \<Rightarrow> string \<Rightarrow> 'b storage \<Rightarrow> 'b storage" where
  "StoreTrustedSignatureOnMainThread signature path s =
     s\<lparr>st_signatures := AList.update path signature (st_signatures s)\<rparr>"

definition StoreTrustedSignatureInternal :: "'b storage_env \<Rightarrow> 'b \<Rightarrow> string \<Rightarrow> 'b storage \<Rightarrow> 'b storage" where
  "StoreTrustedSignatureInternal env data path =
     StoreTrustedSignatureOnMainThread (env_hash env data) path"

definition RemoveStoredSignatureInMainThread :: "string \<Rightarrow> 'b storage \<Rightarrow> 'b storage" where
  "RemoveStoredSignatureInMainThread path s = s\<lparr>st_signatures := AList.delete path (st_signatures s)\<rparr>"

text \<open>The check that a task on the thread pool gets has a copy of the signatures of that moment.\<close>

definition IsSignatureValid :: "'b storage \<Rightarrow> (string \<times> string) list" where
  "IsSignatureValid s = st_signatures s"

section \<open>Storing\<close>

text \<open>A failed write may leave a part of the file.\<close>

datatype 'b write_outcome = Written | Write_failed "'b option"

definition WriteSubscription :: "'b storage_env \<Rightarrow> string \<Rightarrow> 'b write_outcome \<Rightarrow> bool \<Rightarrow> 'b \<Rightarrow> 'b storage \<Rightarrow>
    (BufferKind \<times> 'b \<times> string) option \<times> 'b storage" where
  "WriteSubscription env tok outcome mapped raw_data s =
     (let subscription_path = tok @ ''.fb''
      in case outcome of
           Write_failed None \<Rightarrow> (None, s)
         | Write_failed (Some part) \<Rightarrow> (None, s\<lparr>st_disk := AList.update subscription_path part (st_disk s)\<rparr>)
         | Written \<Rightarrow>
             (let s = s\<lparr>st_disk := AList.update subscription_path raw_data (st_disk s)\<rparr>
              in if \<not> mapped then (None, s)
                 else (Some (InMemory, raw_data, subscription_path),
                       StoreTrustedSignatureInternal env raw_data subscription_path s)))"

definition UrlFromFlatbufferData :: "'b storage_env \<Rightarrow> 'b \<Rightarrow> gurl" where
  "UrlFromFlatbufferData env data =
     env_parse_url (env_net env) (fm_url (fb_metadata (env_GetSubscription env data)))"

text \<open>Making the object of a buffer and its entry in \<open>backing_file_mapping_\<close>.\<close>

definition make_subscription :: "'b storage_env \<Rightarrow> BufferKind \<Rightarrow> 'b \<Rightarrow> string \<Rightarrow> int \<Rightarrow> 'b storage \<Rightarrow>
    stored_subscription \<times> 'b storage" where
  "make_subscription env kind data path time s =
     (let sub = \<lparr>ss_id = st_next_id s, ss_buffer = kind,
                 ss_subscription = new_InstalledSubscriptionImpl (env_net env) (env_GetSubscription env data)
                   Installed time\<rparr>
      in (sub, s\<lparr>st_objects := st_objects s @ [sub], st_backing := (st_next_id s, path) # st_backing s,
                 st_next_id := Suc (st_next_id s)\<rparr>))"

definition SubscriptionStored :: "'b storage_env \<Rightarrow> int \<Rightarrow> (BufferKind \<times> 'b \<times> string) option \<Rightarrow> 'b storage \<Rightarrow>
    stored_subscription option \<times> 'b storage" where
  "SubscriptionStored env now storage_result s =
     (case storage_result of
        None \<Rightarrow> (None, s)
      | Some (kind, data, path) \<Rightarrow>
          (let url = UrlFromFlatbufferData env data;
               (sub, s) = make_subscription env kind data path now s;
               m = IncrementDownloadSuccessCount (env_metadata env) url (st_metadata s);
               m = SetExpirationInterval (env_metadata env) now url (GetExpirationInterval (ss_subscription sub)) m;
               parsed_version = GetCurrentVersion (ss_subscription sub);
               m = (if parsed_version \<noteq> [] then SetVersion (env_metadata env) url parsed_version m else m)
           in (Some sub, s\<lparr>st_metadata := m\<rparr>)))"

definition StoreSubscription :: "'b storage_env \<Rightarrow> string \<Rightarrow> 'b write_outcome \<Rightarrow> bool \<Rightarrow> int \<Rightarrow> 'b \<Rightarrow> 'b storage \<Rightarrow>
    stored_subscription option \<times> 'b storage" where
  "StoreSubscription env tok outcome mapped now raw_data s =
     (let (r, s) = WriteSubscription env tok outcome mapped raw_data s
      in SubscriptionStored env now r s)"

section \<open>Removing\<close>

text \<open>A subscription that this storage does not know is an iterator at the end: \<open>None\<close>.\<close>

definition mark_object :: "nat \<Rightarrow> stored_subscription list \<Rightarrow> stored_subscription list" where
  "mark_object i objects =
     map (\<lambda>x. if ss_id x = i then x\<lparr>ss_subscription := MarkForPermanentRemoval (ss_subscription x)\<rparr> else x) objects"

definition RemoveSubscription :: "nat \<Rightarrow> 'b storage \<Rightarrow> 'b storage option" where
  "RemoveSubscription i s =
     (case map_of (st_backing s) i of
        None \<Rightarrow> None
      | Some path \<Rightarrow>
          (let s = RemoveStoredSignatureInMainThread path s
           in Some (s\<lparr>st_backing := AList.delete i (st_backing s), st_objects := mark_object i (st_objects s)\<rparr>)))"

text \<open>The destructors of a subscription and of its buffer, when the last reference is gone: a mapped file
  is deleted if the subscription was marked.\<close>

definition destroy_buffer :: "BufferKind \<Rightarrow> bool \<Rightarrow> (string \<times> 'b) list \<Rightarrow> (string \<times> 'b) list" where
  "destroy_buffer kind permanently_remove_path disk =
     (case kind of
        InMemory \<Rightarrow> disk
      | MemoryMapped path \<Rightarrow> (if permanently_remove_path then AList.delete path disk else disk))"

definition DestroySubscription :: "nat \<Rightarrow> 'b storage \<Rightarrow> 'b storage" where
  "DestroySubscription i s =
     (if i \<in> fst ` set (st_backing s) then s
      else
        (case List.find (\<lambda>x. ss_id x = i) (st_objects s) of
           None \<Rightarrow> s
         | Some x \<Rightarrow>
             s\<lparr>st_objects := filter (\<lambda>y. ss_id y \<noteq> i) (st_objects s),
               st_disk := destroy_buffer (ss_buffer x) (is_marked_for_removal (ss_subscription x)) (st_disk s)\<rparr>))"

section \<open>Loading\<close>

text \<open>One file of the directory: deleted when it cannot be read or its signature is not valid, skipped when
  it cannot be mapped.\<close>

fun read_files :: "'b storage_env \<Rightarrow> (string \<times> string) list \<Rightarrow> (string \<Rightarrow> bool) \<Rightarrow> (string \<Rightarrow> bool) \<Rightarrow>
    (string \<times> 'b) list \<Rightarrow> (string \<times> 'b) list \<times> (string \<times> 'b) list" where
  "read_files env signatures readable mappable [] = ([], [])"
| "read_files env signatures readable mappable ((path, content) # rest) =
     (let (loaded, disk) = read_files env signatures readable mappable rest
      in if \<not> readable path then (loaded, disk)
         else if \<not> IsSignatureValidInternal env signatures content path then (loaded, disk)
         else if \<not> mappable path then (loaded, (path, content) # disk)
         else ((path, content) # loaded, (path, content) # disk))"

definition ReadSubscriptionsFromDirectory :: "'b storage_env \<Rightarrow> (string \<times> string) list \<Rightarrow> (string \<Rightarrow> bool) \<Rightarrow>
    (string \<Rightarrow> bool) \<Rightarrow> 'b storage \<Rightarrow> (string \<times> 'b) list \<times> 'b storage" where
  "ReadSubscriptionsFromDirectory env signatures readable mappable s =
     (let (loaded, disk) = read_files env signatures readable mappable (st_disk s)
      in (loaded, s\<lparr>st_disk := disk\<rparr>))"

definition load_one :: "'b storage_env \<Rightarrow> string \<times> 'b \<Rightarrow> stored_subscription list \<times> 'b storage \<Rightarrow>
    stored_subscription list \<times> 'b storage" where
  "load_one env = (\<lambda>(path, data) (loaded, s).
     let url = UrlFromFlatbufferData env data;
         last_installation_time = GetLastInstallationTime url (st_metadata s);
         (sub, s) = make_subscription env (MemoryMapped path) data path last_installation_time s
     in (loaded @ [sub], s))"

definition LoadComplete :: "'b storage_env \<Rightarrow> (string \<times> 'b) list \<Rightarrow> 'b storage \<Rightarrow>
    stored_subscription list \<times> 'b storage" where
  "LoadComplete env loaded_buffers s = foldl (\<lambda>r b. load_one env b r) ([], s) loaded_buffers"

text \<open>The task that reads the directory and its reply. Nothing is asked of a storage before it has loaded, so here
  they are one step; \<open>Maintainer\<close> takes them apart.\<close>

definition LoadSubscriptions :: "'b storage_env \<Rightarrow> (string \<Rightarrow> bool) \<Rightarrow> (string \<Rightarrow> bool) \<Rightarrow> 'b storage \<Rightarrow>
    stored_subscription list \<times> 'b storage" where
  "LoadSubscriptions env readable mappable s =
     (let (loaded, s) = ReadSubscriptionsFromDirectory env (IsSignatureValid s) readable mappable s
      in LoadComplete env loaded s)"

text \<open>A storage is made over a directory, with a new validator; it governs nothing yet.\<close>

definition new_Storage :: "string \<Rightarrow> 'b storage \<Rightarrow> 'b storage" where
  "new_Storage schema_version s =
     ClearSignaturesIfSchemaVersionChanged schema_version (s\<lparr>st_backing := [], st_objects := [], st_next_id := 0\<rparr>)"

text \<open>A new process: the disk and the preferences are kept.\<close>

definition Restart :: "'b storage_env \<Rightarrow> string \<Rightarrow> 'b storage \<Rightarrow> 'b storage" where
  "Restart env schema_version s =
     new_Storage schema_version (s\<lparr>st_metadata := LoadFromPrefs (env_metadata env) (md_prefs (st_metadata s))\<rparr>)"

end
