(* ===== verification/Storage_Facts.thy ===== *)
theory Storage_Facts
  imports Subscription_Storage Search_Completeness
begin

text \<open>
  The storage over time: what every sequence of stores, removals, destructions and restarts keeps, and
  what a restart brings back.
\<close>

section \<open>Loading\<close>

definition signed :: "'b storage_env \<Rightarrow> (string \<times> string) list \<Rightarrow> string \<times> 'b \<Rightarrow> bool" where
  "signed env sigs f \<longleftrightarrow> map_of sigs (fst f) = Some (env_hash env (snd f))"

lemma IsSignatureValid_signed: "IsSignatureValidInternal env sigs d p \<longleftrightarrow> signed env sigs (p, d)"
  by (auto simp: IsSignatureValidInternal_def signed_def split: option.splits)

text \<open>The files that stay on disk, and those of them that are loaded.\<close>

definition kept_files :: "'b storage_env \<Rightarrow> (string \<times> string) list \<Rightarrow> (string \<Rightarrow> bool) \<Rightarrow> (string \<times> 'b) list \<Rightarrow>
    (string \<times> 'b) list" where
  "kept_files env sigs readable disk = filter (\<lambda>f. readable (fst f) \<and> signed env sigs f) disk"

definition loaded_files :: "'b storage_env \<Rightarrow> (string \<times> string) list \<Rightarrow> (string \<Rightarrow> bool) \<Rightarrow> (string \<Rightarrow> bool) \<Rightarrow>
    (string \<times> 'b) list \<Rightarrow> (string \<times> 'b) list" where
  "loaded_files env sigs readable mappable disk = filter (\<lambda>f. mappable (fst f)) (kept_files env sigs readable disk)"

lemma read_files_eq:
  "read_files env sigs readable mappable disk =
    (loaded_files env sigs readable mappable disk, kept_files env sigs readable disk)"
proof (induction disk)
  case Nil
  show ?case by (simp add: loaded_files_def kept_files_def)
next
  case (Cons f disk)
  then show ?case
    by (cases f) (simp add: IsSignatureValid_signed loaded_files_def kept_files_def)
qed

definition loaded_object :: "'b storage_env \<Rightarrow> PersistentMetadata \<Rightarrow> nat \<Rightarrow> string \<times> 'b \<Rightarrow> stored_subscription" where
  "loaded_object env m i f =
     \<lparr>ss_id = i, ss_buffer = MemoryMapped (fst f),
      ss_subscription = new_InstalledSubscriptionImpl (env_net env) (env_GetSubscription env (snd f)) Installed
        (GetLastInstallationTime (UrlFromFlatbufferData env (snd f)) m)\<rparr>"

fun loaded_objects :: "'b storage_env \<Rightarrow> PersistentMetadata \<Rightarrow> nat \<Rightarrow> (string \<times> 'b) list \<Rightarrow> stored_subscription list"
where
  "loaded_objects env m i [] = []"
| "loaded_objects env m i (f # fs) = loaded_object env m i f # loaded_objects env m (Suc i) fs"

fun loaded_backing :: "nat \<Rightarrow> (string \<times> 'b) list \<Rightarrow> (nat \<times> string) list" where
  "loaded_backing i [] = []"
| "loaded_backing i (f # fs) = loaded_backing (Suc i) fs @ [(i, fst f)]"

lemma load_one_eq:
  "load_one env f (l, s) =
    (l @ [loaded_object env (st_metadata s) (st_next_id s) f],
     s\<lparr>st_objects := st_objects s @ [loaded_object env (st_metadata s) (st_next_id s) f],
       st_backing := (st_next_id s, fst f) # st_backing s, st_next_id := Suc (st_next_id s)\<rparr>)"
  by (cases f) (simp add: load_one_def make_subscription_def loaded_object_def Let_def)

lemma foldl_load:
  "foldl (\<lambda>r b. load_one env b r) (l, s) fs =
    (l @ loaded_objects env (st_metadata s) (st_next_id s) fs,
     s\<lparr>st_objects := st_objects s @ loaded_objects env (st_metadata s) (st_next_id s) fs,
       st_backing := loaded_backing (st_next_id s) fs @ st_backing s,
       st_next_id := st_next_id s + length fs\<rparr>)"
  by (induction fs arbitrary: l s) (simp_all add: load_one_eq)

lemma LoadSubscriptions_eq:
  "LoadSubscriptions env readable mappable s =
    (let fs = loaded_files env (st_signatures s) readable mappable (st_disk s)
     in (loaded_objects env (st_metadata s) (st_next_id s) fs,
         s\<lparr>st_disk := kept_files env (st_signatures s) readable (st_disk s),
           st_objects := st_objects s @ loaded_objects env (st_metadata s) (st_next_id s) fs,
           st_backing := loaded_backing (st_next_id s) fs @ st_backing s,
           st_next_id := st_next_id s + length fs\<rparr>))"
  by (simp add: LoadSubscriptions_def ReadSubscriptionsFromDirectory_def IsSignatureValid_def read_files_eq LoadComplete_def
      foldl_load Let_def)

lemma loaded_objects_ids:
  "x \<in> set (loaded_objects env m i fs) \<Longrightarrow> i \<le> ss_id x \<and> ss_id x < i + length fs"
  by (induction fs arbitrary: i) (force simp: loaded_object_def)+

lemma loaded_objects_distinct: "distinct (map ss_id (loaded_objects env m i fs))"
  by (induction fs arbitrary: i) (auto simp: loaded_object_def dest!: loaded_objects_ids)

lemma loaded_backing_paths: "snd ` set (loaded_backing i fs) = fst ` set fs"
  by (induction fs arbitrary: i) auto

lemma loaded_backing_ids: "(j, p) \<in> set (loaded_backing i fs) \<Longrightarrow> i \<le> j \<and> j < i + length fs"
  by (induction fs arbitrary: i) force+

lemma loaded_backing_distinct:
  "distinct (map fst fs) \<Longrightarrow> distinct (map fst (loaded_backing i fs)) \<and> distinct (map snd (loaded_backing i fs))"
proof (induction fs arbitrary: i)
  case (Cons f fs)
  have "i \<notin> fst ` set (loaded_backing (Suc i) fs)" using loaded_backing_ids by fastforce
  moreover have "fst f \<notin> snd ` set (loaded_backing (Suc i) fs)"
    using Cons.prems unfolding loaded_backing_paths by simp
  ultimately show ?case using Cons by simp
qed simp

lemma loaded_backing_object:
  "(j, p) \<in> set (loaded_backing i fs) \<Longrightarrow> \<exists>f\<in>set fs. p = fst f \<and> loaded_object env m j f \<in> set (loaded_objects env m i fs)"
  by (induction fs arbitrary: i) auto

lemma loaded_object_backing:
  "x \<in> set (loaded_objects env m i fs) \<Longrightarrow>
     \<exists>f\<in>set fs. x = loaded_object env m (ss_id x) f \<and> (ss_id x, fst f) \<in> set (loaded_backing i fs)"
proof (induction fs arbitrary: i)
  case (Cons f fs)
  show ?case
  proof (cases "x \<in> set (loaded_objects env m (Suc i) fs)")
    case True
    with Cons.IH [OF True] show ?thesis by auto
  next
    case False
    then have "x = loaded_object env m i f" using Cons.prems by simp
    then show ?thesis by (auto simp: loaded_object_def)
  qed
qed simp

section \<open>What every step keeps\<close>

definition governed :: "'b storage_env \<Rightarrow> 'b storage \<Rightarrow> nat \<Rightarrow> string \<Rightarrow> bool" where
  "governed env s i p \<longleftrightarrow> (\<exists>d x. map_of (st_disk s) p = Some d \<and> map_of (st_signatures s) p = Some (env_hash env d) \<and>
     x \<in> set (st_objects s) \<and> ss_id x = i \<and> is_index (ss_subscription x) = env_GetSubscription env d)"

definition objects_ok :: "'b storage \<Rightarrow> bool" where
  "objects_ok s \<longleftrightarrow> distinct (map ss_id (st_objects s)) \<and>
     (\<forall>x\<in>set (st_objects s). ss_id x < st_next_id s \<and>
        (\<forall>p. ss_buffer x = MemoryMapped p \<longrightarrow> p \<in> fst ` set (st_disk s) \<and>
           (p \<in> snd ` set (st_backing s) \<longrightarrow> (ss_id x, p) \<in> set (st_backing s)) \<and>
           (\<forall>y\<in>set (st_objects s). ss_buffer y = MemoryMapped p \<longrightarrow> y = x)))"

lemma objects_okI:
  assumes "distinct (map ss_id (st_objects s))"
    "\<And>x. x \<in> set (st_objects s) \<Longrightarrow> ss_id x < st_next_id s"
    "\<And>x p. x \<in> set (st_objects s) \<Longrightarrow> ss_buffer x = MemoryMapped p \<Longrightarrow> p \<in> fst ` set (st_disk s)"
    "\<And>x p. x \<in> set (st_objects s) \<Longrightarrow> ss_buffer x = MemoryMapped p \<Longrightarrow> p \<in> snd ` set (st_backing s) \<Longrightarrow>
      (ss_id x, p) \<in> set (st_backing s)"
    "\<And>x y p. x \<in> set (st_objects s) \<Longrightarrow> ss_buffer x = MemoryMapped p \<Longrightarrow> y \<in> set (st_objects s) \<Longrightarrow>
      ss_buffer y = MemoryMapped p \<Longrightarrow> y = x"
  shows "objects_ok s"
  unfolding objects_ok_def using assms by blast

lemma objects_okD:
  assumes "objects_ok s"
  shows "distinct (map ss_id (st_objects s))"
    "x \<in> set (st_objects s) \<Longrightarrow> ss_id x < st_next_id s"
    "x \<in> set (st_objects s) \<Longrightarrow> ss_buffer x = MemoryMapped p \<Longrightarrow> p \<in> fst ` set (st_disk s)"
    "x \<in> set (st_objects s) \<Longrightarrow> ss_buffer x = MemoryMapped p \<Longrightarrow> p \<in> snd ` set (st_backing s) \<Longrightarrow>
      (ss_id x, p) \<in> set (st_backing s)"
    "x \<in> set (st_objects s) \<Longrightarrow> ss_buffer x = MemoryMapped p \<Longrightarrow> y \<in> set (st_objects s) \<Longrightarrow>
      ss_buffer y = MemoryMapped p \<Longrightarrow> y = x"
  using assms unfolding objects_ok_def by blast+

definition storage_ok :: "'b storage_env \<Rightarrow> 'b storage \<Rightarrow> bool" where
  "storage_ok env s \<longleftrightarrow> distinct (map fst (st_disk s)) \<and> distinct (map fst (st_signatures s)) \<and>
     distinct (map fst (st_backing s)) \<and> distinct (map snd (st_backing s)) \<and>
     (\<forall>(i, p)\<in>set (st_backing s). governed env s i p) \<and> objects_ok s"

text \<open>Loading files into a storage that has no objects yet.\<close>

definition governs_nothing :: "'b storage \<Rightarrow> bool" where
  "governs_nothing s \<longleftrightarrow> st_objects s = [] \<and> st_backing s = [] \<and> st_next_id s = 0"

definition files_ok :: "'b storage_env \<Rightarrow> (string \<times> 'b) list \<Rightarrow> 'b storage \<Rightarrow> bool" where
  "files_ok env fs s \<longleftrightarrow> distinct (map fst fs) \<and> set fs \<subseteq> set (st_disk s) \<and>
     list_all (signed env (st_signatures s)) fs"

lemma LoadComplete_eq:
  "LoadComplete env fs s =
    (loaded_objects env (st_metadata s) (st_next_id s) fs,
     s\<lparr>st_objects := st_objects s @ loaded_objects env (st_metadata s) (st_next_id s) fs,
       st_backing := loaded_backing (st_next_id s) fs @ st_backing s, st_next_id := st_next_id s + length fs\<rparr>)"
  by (simp add: LoadComplete_def foldl_load)

lemma LoadComplete_ok:
  assumes "storage_ok env s" "governs_nothing s" "files_ok env fs s"
  shows "storage_ok env (snd (LoadComplete env fs s))"
proof -
  let ?ks = "st_disk s" and ?fs = fs
  let ?s = "snd (LoadComplete env fs s)"
  let ?m = "st_metadata s"
  have dk: "distinct (map fst ?ks)" using assms(1) by (simp add: storage_ok_def)
  have d: "distinct (map fst ?fs)" and sub: "set ?fs \<subseteq> set ?ks" using assms(3) by (simp_all add: files_ok_def)
  have fields: "st_disk ?s = ?ks" "st_signatures ?s = st_signatures s" "st_objects ?s = loaded_objects env ?m 0 ?fs"
    "st_backing ?s = loaded_backing 0 ?fs" "st_next_id ?s = length ?fs"
    using assms(2) by (simp_all add: LoadComplete_eq governs_nothing_def)
  have gov: "governed env ?s i p" if mem: "(i, p) \<in> set (loaded_backing 0 ?fs)" for i p
  proof -
    obtain f where f: "f \<in> set ?fs" "p = fst f" "loaded_object env ?m i f \<in> set (loaded_objects env ?m 0 ?fs)"
      using loaded_backing_object [OF mem] by blast
    have k: "f \<in> set ?ks" using f(1) sub by blast
    then have "map_of ?ks p = Some (snd f)" using dk f(2) by simp
    moreover have "map_of (st_signatures s) p = Some (env_hash env (snd f))"
      using f(1,2) assms(3) by (simp add: files_ok_def list_all_iff signed_def)
    ultimately show ?thesis
      unfolding governed_def fields using f(3)
      by (intro exI [of _ "snd f"] exI [of _ "loaded_object env ?m i f"])
        (simp add: loaded_object_def new_InstalledSubscriptionImpl_def)
  qed
  have at: "\<exists>f\<in>set ?fs. p = fst f \<and> x = loaded_object env ?m (ss_id x) f \<and> (ss_id x, p) \<in> set (loaded_backing 0 ?fs)"
    if x: "x \<in> set (loaded_objects env ?m 0 ?fs)" "ss_buffer x = MemoryMapped p" for x p
  proof -
    obtain f where f: "f \<in> set ?fs" "x = loaded_object env ?m (ss_id x) f" "(ss_id x, fst f) \<in> set (loaded_backing 0 ?fs)"
      using loaded_object_backing [OF x(1)] by blast
    moreover have "p = fst f"
      using x(2) f(2) by (metis BufferKind.inject loaded_object_def stored_subscription.select_convs(2))
    ultimately show ?thesis by blast
  qed
  have ob: "objects_ok ?s"
  proof (rule objects_okI, unfold fields)
    show "ss_id x < length ?fs" if "x \<in> set (loaded_objects env ?m 0 ?fs)" for x
      using loaded_objects_ids [OF that] by simp
    show "p \<in> fst ` set ?ks" if "x \<in> set (loaded_objects env ?m 0 ?fs)" "ss_buffer x = MemoryMapped p" for x p
      using at [OF that] sub by blast
    show "(ss_id x, p) \<in> set (loaded_backing 0 ?fs)"
      if "x \<in> set (loaded_objects env ?m 0 ?fs)" "ss_buffer x = MemoryMapped p" for x p
      using at [OF that] by blast
    show "y = x" if "x \<in> set (loaded_objects env ?m 0 ?fs)" "ss_buffer x = MemoryMapped p"
      "y \<in> set (loaded_objects env ?m 0 ?fs)" "ss_buffer y = MemoryMapped p" for x y p
    proof -
      note mem = that
      obtain f where f: "f \<in> set ?fs" "p = fst f" "x = loaded_object env ?m (ss_id x) f"
        "(ss_id x, p) \<in> set (loaded_backing 0 ?fs)" using at [OF mem(1,2)] by blast
      obtain g where g: "g \<in> set ?fs" "p = fst g" "y = loaded_object env ?m (ss_id y) g"
        "(ss_id y, p) \<in> set (loaded_backing 0 ?fs)" using at [OF mem(3,4)] by blast
      have "ss_id y = ss_id x"
        using loaded_backing_distinct [OF d, of 0] f(4) g(4) by (metis distinct_map inj_onD prod.inject snd_conv)
      moreover have "g = f" using d f(1,2) g(1,2) by (metis distinct_map inj_onD)
      ultimately show "y = x" using f(3) g(3) by metis
    qed
  qed (rule loaded_objects_distinct)
  have "\<forall>(i, p)\<in>set (loaded_backing 0 ?fs). governed env ?s i p" using gov by blast
  then show ?thesis
    unfolding storage_ok_def fields
    using dk assms(1) loaded_backing_distinct [OF d, of 0] ob unfolding storage_ok_def by blast
qed

lemma read_directory_eq:
  "ReadSubscriptionsFromDirectory env sigs readable mappable s =
    (loaded_files env sigs readable mappable (st_disk s), s\<lparr>st_disk := kept_files env sigs readable (st_disk s)\<rparr>)"
  by (simp add: ReadSubscriptionsFromDirectory_def read_files_eq)

lemma read_directory_ok:
  assumes "storage_ok env s" "governs_nothing s"
    "ReadSubscriptionsFromDirectory env (st_signatures s) readable mappable s = (fs, t)"
  shows "storage_ok env t" "governs_nothing t" "files_ok env fs t" "st_signatures t = st_signatures s"
    "st_metadata t = st_metadata s"
proof -
  have d: "distinct (map fst (kept_files env (st_signatures s) readable (st_disk s)))"
    using assms(1) by (simp add: storage_ok_def kept_files_def distinct_map_filter)
  show "governs_nothing t" "st_signatures t = st_signatures s" "st_metadata t = st_metadata s"
    using assms(2) assms(3) by (auto simp: read_directory_eq governs_nothing_def)
  show "storage_ok env t" using assms(1,2) d assms(3) by (auto simp: read_directory_eq storage_ok_def governs_nothing_def objects_ok_def)
  show "files_ok env fs t"
    using distinct_map_filter [OF d, of "\<lambda>f. mappable (fst f)"] assms(3)
    by (auto simp: read_directory_eq files_ok_def loaded_files_def list_all_iff kept_files_def)
qed

lemma LoadSubscriptions_split:
  "ReadSubscriptionsFromDirectory env (st_signatures s) readable mappable s = (fs, t) \<Longrightarrow>
    LoadSubscriptions env readable mappable s = LoadComplete env fs t"
  by (simp add: LoadSubscriptions_def IsSignatureValid_def)

lemma loaded_storage_ok:
  assumes "storage_ok env s" "governs_nothing s"
  shows "storage_ok env (snd (LoadSubscriptions env readable mappable s))"
proof -
  obtain fs t where r: "ReadSubscriptionsFromDirectory env (st_signatures s) readable mappable s = (fs, t)" by fastforce
  show ?thesis unfolding LoadSubscriptions_split [OF r]
    by (rule LoadComplete_ok [OF read_directory_ok(1-3) [OF assms r]])
qed

subsection \<open>Restarting\<close>

lemma Restart_fields:
  "st_disk (Restart env v s) = st_disk s"
  "st_signatures (Restart env v s) = (if st_schema_version s = v then st_signatures s else [])"
  "st_objects (Restart env v s) = []" "st_backing (Restart env v s) = []" "st_next_id (Restart env v s) = 0"
  by (simp_all add: Restart_def new_Storage_def ClearSignaturesIfSchemaVersionChanged_def)

lemma new_Storage_ok: "storage_ok env s \<Longrightarrow> storage_ok env (new_Storage v s) \<and> governs_nothing (new_Storage v s)"
  by (simp add: storage_ok_def objects_ok_def governs_nothing_def new_Storage_def ClearSignaturesIfSchemaVersionChanged_def)

lemma Restart_ok: "storage_ok env s \<Longrightarrow> storage_ok env (Restart env v s) \<and> governs_nothing (Restart env v s)"
  by (simp add: storage_ok_def objects_ok_def governs_nothing_def Restart_fields)

lemma restart_ok:
  "storage_ok env s \<Longrightarrow> storage_ok env (snd (LoadSubscriptions env readable mappable (Restart env v s)))"
  using Restart_ok by (blast intro: loaded_storage_ok)

subsection \<open>Storing, removing, destroying\<close>

lemma objects_ok_disk:
  assumes "objects_ok s" "fst ` set (st_disk s) \<subseteq> fst ` set disk"
  shows "objects_ok (s\<lparr>st_disk := disk\<rparr>)"
proof (rule objects_okI)
  note ob = objects_okD [OF assms(1)]
  let ?s = "s\<lparr>st_disk := disk\<rparr>"
  show "distinct (map ss_id (st_objects ?s))" using ob(1) by simp
  show "ss_id x < st_next_id ?s" if "x \<in> set (st_objects ?s)" for x using ob(2) that by simp
  show "p \<in> fst ` set (st_disk ?s)" if "x \<in> set (st_objects ?s)" "ss_buffer x = MemoryMapped p" for x p
    using ob(3) [of x p] that assms(2) by auto
  show "(ss_id x, p) \<in> set (st_backing ?s)"
    if "x \<in> set (st_objects ?s)" "ss_buffer x = MemoryMapped p" "p \<in> snd ` set (st_backing ?s)" for x p
    using ob(4) [of x p] that by simp
  show "y = x" if "x \<in> set (st_objects ?s)" "ss_buffer x = MemoryMapped p" "y \<in> set (st_objects ?s)"
    "ss_buffer y = MemoryMapped p" for x y p
    using ob(5) [of x p y] that by simp
qed

lemma governed_on_disk: "governed env s i p \<Longrightarrow> p \<in> fst ` set (st_disk s)"
  by (force simp: governed_def dest: map_of_SomeD)

lemma disk_only_ok:
  assumes "storage_ok env s" "p \<notin> fst ` set (st_disk s)"
  shows "storage_ok env (s\<lparr>st_disk := AList.update p d (st_disk s)\<rparr>)"
proof -
  let ?s = "s\<lparr>st_disk := AList.update p d (st_disk s)\<rparr>"
  have ok: "objects_ok ?s"
    by (rule objects_ok_disk) (use assms(1) in \<open>auto simp: storage_ok_def dom_update\<close>)
  have gov: "governed env ?s i q" if g: "governed env s i q" for i q
  proof -
    have "q \<noteq> p" using governed_on_disk [OF g] assms(2) by blast
    then show ?thesis using g by (simp add: governed_def update_conv')
  qed
  have "\<forall>(i, q)\<in>set (st_backing s). governed env ?s i q"
    using assms(1) gov by (auto simp: storage_ok_def)
  then show ?thesis
    using assms(1) ok by (simp add: storage_ok_def distinct_update)
qed

lemma backing_path_on_disk: "storage_ok env s \<Longrightarrow> (i, p) \<in> set (st_backing s) \<Longrightarrow> p \<in> fst ` set (st_disk s)"
  by (force simp: storage_ok_def governed_def dest: map_of_SomeD)

lemma backing_id_less: "storage_ok env s \<Longrightarrow> (i, p) \<in> set (st_backing s) \<Longrightarrow> i < st_next_id s"
  by (force simp: storage_ok_def governed_def objects_ok_def)

definition stored_state :: "'b storage_env \<Rightarrow> string \<Rightarrow> 'b \<Rightarrow> stored_subscription \<Rightarrow> 'b storage \<Rightarrow> 'b storage" where
  "stored_state env p d x s =
     s\<lparr>st_disk := AList.update p d (st_disk s), st_signatures := AList.update p (env_hash env d) (st_signatures s),
       st_objects := st_objects s @ [x], st_backing := (st_next_id s, p) # st_backing s,
       st_next_id := Suc (st_next_id s)\<rparr>"

lemma stored_state_ok:
  assumes "storage_ok env s" "p \<notin> fst ` set (st_disk s)" "ss_id x = st_next_id s" "ss_buffer x = InMemory"
    "is_index (ss_subscription x) = env_GetSubscription env d"
  shows "storage_ok env (stored_state env p d x s)"
proof -
  let ?s = "stored_state env p d x s"
  have fields: "st_disk ?s = AList.update p d (st_disk s)"
    "st_signatures ?s = AList.update p (env_hash env d) (st_signatures s)"
    "st_objects ?s = st_objects s @ [x]" "st_backing ?s = (st_next_id s, p) # st_backing s"
    "st_next_id ?s = Suc (st_next_id s)"
    by (simp_all add: stored_state_def)
  have fresh: "p \<notin> snd ` set (st_backing s)" using backing_path_on_disk [OF assms(1)] assms(2) by force
  have id: "st_next_id s \<notin> fst ` set (st_backing s)" using backing_id_less [OF assms(1)] by force
  have new: "governed env ?s (st_next_id s) p"
    unfolding governed_def fields using assms(3,5) by (intro exI [of _ d] exI [of _ x]) (simp add: update_conv')
  have old: "governed env ?s i q" if mem: "(i, q) \<in> set (st_backing s)" for i q
  proof -
    have "governed env s i q" using assms(1) mem by (auto simp: storage_ok_def)
    moreover have "q \<noteq> p" using mem fresh by force
    ultimately show ?thesis unfolding governed_def fields by (simp add: update_conv') blast
  qed
  have ob: "objects_ok s" using assms(1) by (simp add: storage_ok_def)
  note obD = objects_okD [OF ob]
  have mapped: "y \<in> set (st_objects s) \<and> q \<noteq> p"
    if mem: "y \<in> set (st_objects ?s)" "ss_buffer y = MemoryMapped q" for y q
  proof -
    have "y \<in> set (st_objects s)" using mem assms(4) by (auto simp: fields)
    then show ?thesis using obD(3) [OF _ mem(2)] assms(2) by blast
  qed
  have objs: "objects_ok ?s"
  proof (rule objects_okI)
    show "distinct (map ss_id (st_objects ?s))" using obD(1,2) assms(3) by (force simp: fields)
    show "ss_id y < st_next_id ?s" if "y \<in> set (st_objects ?s)" for y
      using that obD(2) assms(3) by (auto simp: fields less_SucI)
    show "q \<in> fst ` set (st_disk ?s)" if "y \<in> set (st_objects ?s)" "ss_buffer y = MemoryMapped q" for y q
      using obD(3) [OF conjunct1 [OF mapped [OF that]] that(2)] by (simp add: fields dom_update)
    show "(ss_id y, q) \<in> set (st_backing ?s)"
      if "y \<in> set (st_objects ?s)" "ss_buffer y = MemoryMapped q" "q \<in> snd ` set (st_backing ?s)" for y q
    proof -
      have "q \<in> snd ` set (st_backing s)" using mapped [OF that(1,2)] that(3) by (simp add: fields)
      then show ?thesis using mapped [OF that(1,2)] obD(4) that(2) by (simp add: fields)
    qed
    show "z = y" if "y \<in> set (st_objects ?s)" "ss_buffer y = MemoryMapped q" "z \<in> set (st_objects ?s)"
      "ss_buffer z = MemoryMapped q" for y z q
      using mapped [OF that(1,2)] mapped [OF that(3,4)] obD(5) that(2,4) by blast
  qed
  have gov: "\<forall>(i, q)\<in>set (st_backing ?s). governed env ?s i q" using new old by (auto simp: fields)
  have "distinct (map fst (st_disk ?s))" "distinct (map fst (st_signatures ?s))" "distinct (map fst (st_backing ?s))"
    "distinct (map snd (st_backing ?s))"
    using assms(1) fresh id by (simp_all add: fields storage_ok_def distinct_update)
  then show ?thesis unfolding storage_ok_def using objs gov by blast
qed

lemma storage_ok_metadata [simp]: "storage_ok env (s\<lparr>st_metadata := m\<rparr>) = storage_ok env s"
  by (simp add: storage_ok_def objects_ok_def governed_def)

text \<open>A store either fails, leaving the storage as it was or with a file that nothing vouches for, or adds
  one object over a buffer in memory.\<close>

lemma StoreSubscription_cases:
  obtains (failed) "StoreSubscription env tok outcome mapped now d s = (None, s)"
  | (left_over) c where "StoreSubscription env tok outcome mapped now d s =
      (None, s\<lparr>st_disk := AList.update (tok @ ''.fb'') c (st_disk s)\<rparr>)"
  | (stored) x m where "StoreSubscription env tok outcome mapped now d s =
      (Some x, (stored_state env (tok @ ''.fb'') d x s)\<lparr>st_metadata := m\<rparr>)"
      "x = \<lparr>ss_id = st_next_id s, ss_buffer = InMemory,
         ss_subscription = new_InstalledSubscriptionImpl (env_net env) (env_GetSubscription env d) Installed now\<rparr>"
proof (cases outcome)
  case Written
  show ?thesis
  proof (cases mapped)
    case True
    then show ?thesis
      using Written
      by (intro stored [OF _ refl])
        (simp add: StoreSubscription_def WriteSubscription_def SubscriptionStored_def make_subscription_def Let_def
          stored_state_def StoreTrustedSignatureInternal_def StoreTrustedSignatureOnMainThread_def)
  next
    case False
    then show ?thesis
      using Written
      by (intro left_over [of d]) (simp add: StoreSubscription_def WriteSubscription_def SubscriptionStored_def)
  qed
next
  case (Write_failed part)
  then show ?thesis
    by (cases part) (auto simp: StoreSubscription_def WriteSubscription_def SubscriptionStored_def
        intro: failed left_over)
qed

lemma StoreSubscription_ok:
  assumes "storage_ok env s" "tok @ ''.fb'' \<notin> fst ` set (st_disk s)"
  shows "storage_ok env (snd (StoreSubscription env tok outcome mapped now d s))"
proof (cases rule: StoreSubscription_cases [of env tok outcome mapped now d s])
  case failed
  then show ?thesis using assms by simp
next
  case (left_over c)
  then show ?thesis using disk_only_ok [OF assms] by simp
next
  case (stored x m)
  have "storage_ok env (stored_state env (tok @ ''.fb'') d x s)"
    by (rule stored_state_ok [OF assms]) (simp_all add: stored(2) new_InstalledSubscriptionImpl_def)
  then show ?thesis using stored(1) by simp
qed

lemma set_mark_object:
  "y \<in> set (mark_object i xs) \<Longrightarrow>
    \<exists>x\<in>set xs. ss_id y = ss_id x \<and> ss_buffer y = ss_buffer x \<and> is_index (ss_subscription y) = is_index (ss_subscription x) \<and>
      (ss_id x \<noteq> i \<longrightarrow> y = x)"
  by (auto simp: mark_object_def MarkForPermanentRemoval_def)

lemma marked_mapped:
  assumes "x \<in> set (mark_object i xs)" "ss_buffer x = MemoryMapped q"
  shows "\<exists>y\<in>set xs. ss_id x = ss_id y \<and> ss_buffer y = MemoryMapped q"
  using set_mark_object [OF assms(1)] assms(2) by metis

lemma mark_object_ids [simp]: "map ss_id (mark_object i xs) = map ss_id xs"
  by (simp add: mark_object_def)

lemma mark_object_other: "x \<in> set xs \<Longrightarrow> ss_id x \<noteq> i \<Longrightarrow> x \<in> set (mark_object i xs)"
  by (force simp: mark_object_def)

lemma ss_id_eq: "distinct (map ss_id xs) \<Longrightarrow> x \<in> set xs \<Longrightarrow> y \<in> set xs \<Longrightarrow> ss_id x = ss_id y \<Longrightarrow> x = y"
  by (metis distinct_map inj_onD)

lemma set_delete [simp]: "(j, q) \<in> set (AList.delete i xs) \<longleftrightarrow> (j, q) \<in> set xs \<and> j \<noteq> i"
  by (auto simp: AList.delete_eq)

lemma RemoveSubscription_Some:
  "RemoveSubscription i s = Some s' \<longleftrightarrow>
    (\<exists>p. map_of (st_backing s) i = Some p \<and>
      s' = s\<lparr>st_signatures := AList.delete p (st_signatures s), st_backing := AList.delete i (st_backing s),
             st_objects := mark_object i (st_objects s)\<rparr>)"
  by (auto simp: RemoveSubscription_def RemoveStoredSignatureInMainThread_def Let_def split: option.splits)

lemma RemoveSubscription_ok:
  assumes "storage_ok env s" "RemoveSubscription i s = Some s'"
  shows "storage_ok env s'"
proof -
  obtain p where p: "map_of (st_backing s) i = Some p" and s': "s' = s\<lparr>st_signatures := AList.delete p (st_signatures s),
      st_backing := AList.delete i (st_backing s), st_objects := mark_object i (st_objects s)\<rparr>"
    using assms(2) by (auto simp: RemoveSubscription_Some)
  have ip: "(i, p) \<in> set (st_backing s)" using p by (rule map_of_SomeD)
  have d: "distinct (map fst (st_backing s))" "distinct (map snd (st_backing s))" using assms(1) by (simp_all add: storage_ok_def)
  have sub: "(j, q) \<in> set (st_backing s) \<and> j \<noteq> i \<and> q \<noteq> p" if mem: "(j, q) \<in> set (AList.delete i (st_backing s))" for j q
  proof -
    have "(j, q) \<in> set (st_backing s)" "j \<noteq> i" using mem by simp_all
    moreover have "q \<noteq> p" using calculation ip d(2) by (metis distinct_map inj_onD prod.inject snd_conv)
    ultimately show ?thesis by blast
  qed
  have gov: "governed env s' j q" if mem: "(j, q) \<in> set (AList.delete i (st_backing s))" for j q
  proof -
    have "governed env s j q" using sub [OF mem] assms(1) by (auto simp: storage_ok_def)
    then show ?thesis
      unfolding governed_def s' using sub [OF mem] mark_object_other [of _ "st_objects s" i] by auto
  qed
  have ob: "objects_ok s" using assms(1) by (simp add: storage_ok_def)
  note obD = objects_okD [OF ob]
  have objs: "objects_ok s'"
  proof (rule objects_okI)
    show "distinct (map ss_id (st_objects s'))" using obD(1) by (simp add: s')
    show "ss_id x < st_next_id s'" if "x \<in> set (st_objects s')" for x
      using set_mark_object [of x i "st_objects s"] that obD(2) by (auto simp: s')
    show "q \<in> fst ` set (st_disk s')" if mem: "x \<in> set (st_objects s')" "ss_buffer x = MemoryMapped q" for x q
    proof -
      obtain y where "y \<in> set (st_objects s)" "ss_buffer y = MemoryMapped q"
        using marked_mapped [of x i "st_objects s" q] mem by (auto simp: s')
      then show ?thesis using obD(3) [of y q] by (simp add: s')
    qed
    show "(ss_id x, q) \<in> set (st_backing s')"
      if mem: "x \<in> set (st_objects s')" "ss_buffer x = MemoryMapped q" "q \<in> snd ` set (st_backing s')" for x q
    proof -
      obtain y where y: "y \<in> set (st_objects s)" "ss_id x = ss_id y" "ss_buffer y = MemoryMapped q"
        using marked_mapped [of x i "st_objects s" q] mem(1,2) by (auto simp: s')
      obtain j where j: "(j, q) \<in> set (AList.delete i (st_backing s))" using mem(3) by (auto simp: s')
      have "(ss_id y, q) \<in> set (st_backing s)" using obD(4) [OF y(1,3)] sub [OF j] by force
      then have "ss_id y = j" using sub [OF j] d(2) by (metis distinct_map inj_onD prod.inject snd_conv)
      then show ?thesis using j y(2) by (simp add: s')
    qed
    show "y = x" if mem: "x \<in> set (st_objects s')" "ss_buffer x = MemoryMapped q" "y \<in> set (st_objects s')"
      "ss_buffer y = MemoryMapped q" for x y q
    proof -
      obtain a where a: "a \<in> set (st_objects s)" "ss_id x = ss_id a" "ss_buffer a = MemoryMapped q"
        using marked_mapped [of x i "st_objects s" q] mem(1,2) by (auto simp: s')
      obtain b where b: "b \<in> set (st_objects s)" "ss_id y = ss_id b" "ss_buffer b = MemoryMapped q"
        using marked_mapped [of y i "st_objects s" q] mem(3,4) by (auto simp: s')
      have "b = a" using obD(5) [OF a(1,3) b(1,3)] .
      moreover have "distinct (map ss_id (st_objects s'))" using obD(1) by (simp add: s')
      ultimately show ?thesis using ss_id_eq [OF _ mem(3,1)] a(2) b(2) by simp
    qed
  qed
  have "\<forall>(j, q)\<in>set (st_backing s'). governed env s' j q" using gov by (auto simp: s')
  moreover have "distinct (map fst (st_disk s'))" "distinct (map fst (st_signatures s'))" "distinct (map fst (st_backing s'))"
    using assms(1) by (simp_all add: s' storage_ok_def AList.distinct_delete)
  moreover have "distinct (map snd (st_backing s'))"
    using d(2) by (simp add: s' AList.delete_eq distinct_map_filter)
  ultimately show ?thesis unfolding storage_ok_def using objs by blast
qed

lemma DestroySubscription_cases:
  obtains (none) "DestroySubscription i s = s"
  | (gone) x where "x \<in> set (st_objects s)" "ss_id x = i" "i \<notin> fst ` set (st_backing s)"
      "DestroySubscription i s = s\<lparr>st_objects := filter (\<lambda>y. ss_id y \<noteq> i) (st_objects s),
         st_disk := destroy_buffer (ss_buffer x) (is_marked_for_removal (ss_subscription x)) (st_disk s)\<rparr>"
proof (cases "i \<in> fst ` set (st_backing s)")
  case True
  then show ?thesis by (intro none) (simp add: DestroySubscription_def)
next
  case False
  show ?thesis
  proof (cases "List.find (\<lambda>x. ss_id x = i) (st_objects s)")
    case None
    then show ?thesis by (intro none) (simp add: DestroySubscription_def)
  next
    case (Some x)
    then have "x \<in> set (st_objects s)" "ss_id x = i" by (auto simp: find_Some_iff)
    then show ?thesis using Some False by (intro gone [of x]) (simp_all add: DestroySubscription_def)
  qed
qed

lemma destroy_buffer_other:
  "kind \<noteq> MemoryMapped p \<Longrightarrow> map_of (destroy_buffer kind b disk) p = map_of disk p"
  by (auto simp: destroy_buffer_def AList.delete_conv' split: BufferKind.splits)

lemma DestroySubscription_ok:
  assumes "storage_ok env s"
  shows "storage_ok env (DestroySubscription i s)"
proof (cases rule: DestroySubscription_cases [of i s])
  case none
  then show ?thesis using assms by simp
next
  case (gone x)
  let ?s = "DestroySubscription i s"
  let ?d = "destroy_buffer (ss_buffer x) (is_marked_for_removal (ss_subscription x)) (st_disk s)"
  have fields: "st_disk ?s = ?d" "st_signatures ?s = st_signatures s" "st_backing ?s = st_backing s"
    "st_objects ?s = filter (\<lambda>y. ss_id y \<noteq> i) (st_objects s)" "st_next_id ?s = st_next_id s"
    by (simp_all add: gone(4))
  have ob: "objects_ok s" using assms by (simp add: storage_ok_def)
  note obD = objects_okD [OF ob]
  have backed: "ss_buffer x \<noteq> MemoryMapped p" if "(j, p) \<in> set (st_backing s)" for j p
    using obD(4) [OF gone(1), of p] that gone(2,3) by force
  have other: "ss_buffer x \<noteq> MemoryMapped p" if "y \<in> set (st_objects s)" "ss_id y \<noteq> i" "ss_buffer y = MemoryMapped p" for y p
    using obD(5) [OF gone(1) _ that(1,3)] that(2) gone(2) by blast
  have gov: "governed env ?s j p" if mem: "(j, p) \<in> set (st_backing s)" for j p
  proof -
    have "governed env s j p" using mem assms by (auto simp: storage_ok_def)
    then obtain d a where da: "map_of (st_disk s) p = Some d" "map_of (st_signatures s) p = Some (env_hash env d)"
      "a \<in> set (st_objects s)" "ss_id a = j" "is_index (ss_subscription a) = env_GetSubscription env d"
      by (auto simp: governed_def)
    have "j \<noteq> i" using mem gone(3) by force
    moreover have "map_of ?d p = Some d" by (simp add: destroy_buffer_other [OF backed [OF mem]] da(1))
    ultimately show ?thesis
      unfolding governed_def fields using da(2-5) by (intro exI [of _ d] exI [of _ a]) simp
  qed
  have objs: "objects_ok ?s"
  proof (rule objects_okI)
    show "distinct (map ss_id (st_objects ?s))" using obD(1) by (simp add: fields distinct_map_filter)
    show "ss_id y < st_next_id ?s" if "y \<in> set (st_objects ?s)" for y using that obD(2) by (simp add: fields)
    show "p \<in> fst ` set (st_disk ?s)" if mem: "y \<in> set (st_objects ?s)" "ss_buffer y = MemoryMapped p" for y p
    proof -
      have y: "y \<in> set (st_objects s)" "ss_id y \<noteq> i" using mem(1) by (simp_all add: fields)
      have "map_of (st_disk s) p \<noteq> None" using obD(3) [OF y(1) mem(2)] by (simp add: map_of_eq_None_iff)
      then have "map_of ?d p \<noteq> None" by (simp add: destroy_buffer_other [OF other [OF y mem(2)]])
      then show ?thesis by (simp add: fields map_of_eq_None_iff)
    qed
    show "(ss_id y, p) \<in> set (st_backing ?s)"
      if "y \<in> set (st_objects ?s)" "ss_buffer y = MemoryMapped p" "p \<in> snd ` set (st_backing ?s)" for y p
      using that obD(4) [of y p] by (simp add: fields)
    show "z = y" if "y \<in> set (st_objects ?s)" "ss_buffer y = MemoryMapped p" "z \<in> set (st_objects ?s)"
      "ss_buffer z = MemoryMapped p" for y z p
      using that obD(5) [of y p z] by (simp add: fields)
  qed
  have "\<forall>(j, p)\<in>set (st_backing ?s). governed env ?s j p" using gov by (auto simp: fields)
  moreover have "distinct (map fst (st_disk ?s))"
    using assms by (simp add: fields storage_ok_def destroy_buffer_def AList.distinct_delete split: BufferKind.split)
  ultimately show ?thesis
    unfolding storage_ok_def using objs assms by (simp add: fields storage_ok_def)
qed

section \<open>Runs\<close>

text \<open>What happens to a storage: a store under the token that the random source gave, which no file on disk
  has, a removal of a subscription it knows, the end of the last reference, a restart.\<close>

datatype 'b storage_event =
    Store string "'b write_outcome" bool int 'b
  | Remove nat
  | Destroy nat
  | Reboot string "string \<Rightarrow> bool" "string \<Rightarrow> bool"

fun storage_step :: "'b storage_env \<Rightarrow> 'b storage_event \<Rightarrow> 'b storage \<Rightarrow> 'b storage option" where
  "storage_step env (Store tok outcome mapped now d) s =
     (if tok @ ''.fb'' \<in> fst ` set (st_disk s) then None
      else Some (snd (StoreSubscription env tok outcome mapped now d s)))"
| "storage_step env (Remove i) s = RemoveSubscription i s"
| "storage_step env (Destroy i) s = Some (DestroySubscription i s)"
| "storage_step env (Reboot v readable mappable) s =
     Some (snd (LoadSubscriptions env readable mappable (Restart env v s)))"

fun storage_run :: "'b storage_env \<Rightarrow> 'b storage_event list \<Rightarrow> 'b storage \<Rightarrow> 'b storage option" where
  "storage_run env [] s = Some s"
| "storage_run env (e # es) s =
     (case storage_step env e s of None \<Rightarrow> None | Some s' \<Rightarrow> storage_run env es s')"

lemma storage_step_ok: "storage_ok env s \<Longrightarrow> storage_step env e s = Some s' \<Longrightarrow> storage_ok env s'"
  by (cases e) (auto split: if_splits intro: StoreSubscription_ok RemoveSubscription_ok DestroySubscription_ok restart_ok)

lemma storage_run_ok: "storage_ok env s \<Longrightarrow> storage_run env es s = Some s' \<Longrightarrow> storage_ok env s'"
  by (induction es arbitrary: s) (auto split: option.splits intro: storage_step_ok)

text \<open>A first start over any directory and any preferences.\<close>

definition fresh_storage :: "'b storage_env \<Rightarrow> (string \<times> 'b) list \<Rightarrow> (string \<times> string) list \<Rightarrow> string \<Rightarrow> dict \<Rightarrow> 'b storage" where
  "fresh_storage env disk sigs schema metadata =
     \<lparr>st_disk = disk, st_signatures = sigs, st_schema_version = schema,
      st_metadata = LoadFromPrefs (env_metadata env) metadata, st_backing = [], st_objects = [], st_next_id = 0\<rparr>"

lemma fresh_storage_ok:
  assumes "distinct (map fst disk)" "distinct (map fst sigs)"
  shows "storage_ok env (fresh_storage env disk sigs schema metadata)"
  using assms by (simp add: storage_ok_def objects_ok_def fresh_storage_def)

section \<open>Removed for good\<close>

definition forgotten :: "string \<Rightarrow> 'b storage \<Rightarrow> bool" where
  "forgotten p s \<longleftrightarrow> map_of (st_signatures s) p = None \<and> p \<notin> snd ` set (st_backing s)"

fun stores_under :: "string \<Rightarrow> 'b storage_event \<Rightarrow> bool" where
  "stores_under p (Store tok outcome mapped now d) = (tok @ ''.fb'' = p)"
| "stores_under p _ = False"

lemma removed_is_forgotten:
  assumes "storage_ok env s" "RemoveSubscription i s = Some s'" "map_of (st_backing s) i = Some p"
  shows "forgotten p s'"
proof -
  have s': "s' = s\<lparr>st_signatures := AList.delete p (st_signatures s),
      st_backing := AList.delete i (st_backing s), st_objects := mark_object i (st_objects s)\<rparr>"
    using assms(2,3) by (simp add: RemoveSubscription_Some)
  have d: "distinct (map snd (st_backing s))" using assms(1) by (simp add: storage_ok_def)
  have "j = i" if "(j, p) \<in> set (st_backing s)" for j
    using that map_of_SomeD [OF assms(3)] d by (metis distinct_map inj_onD prod.inject snd_conv)
  then show ?thesis by (auto simp: forgotten_def s' AList.delete_conv')
qed

lemma loaded_files_signed:
  "(p, c) \<in> set (kept_files env sigs readable disk) \<Longrightarrow> map_of sigs p = Some (env_hash env c)"
  by (auto simp: kept_files_def signed_def)

lemma forgotten_event:
  assumes "forgotten p s" "storage_step env e s = Some s'" "\<not> stores_under p e"
  shows "forgotten p s'"
proof (cases e)
  case (Store tok outcome mapped now d)
  then have "tok @ ''.fb'' \<noteq> p" "s' = snd (StoreSubscription env tok outcome mapped now d s)"
    using assms(2,3) by (auto split: if_splits)
  then show ?thesis
    using assms(1)
    by (cases rule: StoreSubscription_cases [of env tok outcome mapped now d s])
      (auto simp: forgotten_def stored_state_def AList.update_conv')
next
  case (Remove i)
  then show ?thesis
    using assms by (force simp: RemoveSubscription_Some forgotten_def AList.delete_conv')
next
  case (Destroy i)
  then show ?thesis
    using assms by (cases rule: DestroySubscription_cases [of i s]) (auto simp: forgotten_def)
next
  case (Reboot v readable mappable)
  have "p \<notin> fst ` set (loaded_files env (st_signatures (Restart env v s)) readable mappable (st_disk s))"
    using assms(1) by (auto simp: Restart_fields forgotten_def loaded_files_def dest!: loaded_files_signed split: if_splits)
  moreover have "s' = snd (LoadSubscriptions env readable mappable (Restart env v s))"
    using Reboot assms(2) by simp
  ultimately show ?thesis
    using assms(1) by (simp add: forgotten_def LoadSubscriptions_eq Let_def Restart_fields loaded_backing_paths)
qed

lemma forgotten_run:
  "forgotten p s \<Longrightarrow> storage_run env es s = Some s' \<Longrightarrow> \<not> list_ex (stores_under p) es \<Longrightarrow> forgotten p s'"
  by (induction es arbitrary: s) (auto split: option.splits intro: forgotten_event)

section \<open>After a restart\<close>

lemma kept_after_restart:
  "st_disk (snd (LoadSubscriptions env readable mappable (Restart env v s))) =
    kept_files env (if st_schema_version s = v then st_signatures s else []) readable (st_disk s)"
  by (simp add: LoadSubscriptions_eq Let_def Restart_fields)

lemma backing_after_restart:
  "st_backing (snd (LoadSubscriptions env readable mappable (Restart env v s))) =
    loaded_backing 0 (loaded_files env (if st_schema_version s = v then st_signatures s else []) readable mappable
      (st_disk s))"
  by (simp add: LoadSubscriptions_eq Let_def Restart_fields)

lemma forgotten_file_deleted:
  "forgotten p s \<Longrightarrow> p \<notin> fst ` set (st_disk (snd (LoadSubscriptions env readable mappable (Restart env v s))))"
  by (auto simp: kept_after_restart forgotten_def dest!: loaded_files_signed split: if_splits)

lemma loaded_backing_of:
  "f \<in> set fs \<Longrightarrow> \<exists>j. (j, fst f) \<in> set (loaded_backing i fs)"
  using loaded_backing_paths [of i fs] by (metis image_eqI imageE prod.collapse)

definition same_content :: "'b storage \<Rightarrow> nat \<Rightarrow> 'b storage \<Rightarrow> nat \<Rightarrow> bool" where
  "same_content s i s' j \<longleftrightarrow> (\<exists>x\<in>set (st_objects s). \<exists>y\<in>set (st_objects s').
     ss_id x = i \<and> ss_id y = j \<and> is_index (ss_subscription y) = is_index (ss_subscription x))"

lemma survives:
  assumes "storage_ok env s" "(i, p) \<in> set (st_backing s)" "readable p" "mappable p"
  defines "s' \<equiv> snd (LoadSubscriptions env readable mappable (Restart env (st_schema_version s) s))"
  shows "\<exists>j. (j, p) \<in> set (st_backing s') \<and> same_content s i s' j"
proof -
  let ?fs = "loaded_files env (st_signatures s) readable mappable (st_disk s)"
  have "governed env s i p" using assms(1,2) by (auto simp: storage_ok_def)
  then obtain d x where d: "map_of (st_disk s) p = Some d" "map_of (st_signatures s) p = Some (env_hash env d)"
    and x: "x \<in> set (st_objects s)" "ss_id x = i" "is_index (ss_subscription x) = env_GetSubscription env d"
    by (auto simp: governed_def)
  have f: "(p, d) \<in> set ?fs"
    using map_of_SomeD [OF d(1)] d(2) assms(3,4) by (simp add: loaded_files_def kept_files_def signed_def)
  then obtain j where j: "(j, p) \<in> set (st_backing s')"
    using loaded_backing_of [of "(p, d)" ?fs 0] by (auto simp: s'_def backing_after_restart)
  have "storage_ok env s'" unfolding s'_def by (rule restart_ok [OF assms(1)])
  then have "governed env s' j p" using j by (auto simp: storage_ok_def)
  then obtain d' y where d': "map_of (st_disk s') p = Some d'"
    and y: "y \<in> set (st_objects s')" "ss_id y = j" "is_index (ss_subscription y) = env_GetSubscription env d'"
    by (auto simp: governed_def)
  have "(p, d') \<in> set (st_disk s)"
    using map_of_SomeD [OF d'] by (simp add: s'_def kept_after_restart kept_files_def)
  then have "d' = d" using assms(1) d(1) by (simp add: storage_ok_def)
  then show ?thesis using j x y unfolding same_content_def by metis
qed

lemma loaded_only_trusted:
  assumes "(j, p) \<in> set (st_backing (snd (LoadSubscriptions env readable mappable (Restart env v s))))"
  shows "v = st_schema_version s \<and> (\<exists>d. (p, d) \<in> set (st_disk s) \<and> map_of (st_signatures s) p = Some (env_hash env d))"
proof -
  let ?sigs = "if st_schema_version s = v then st_signatures s else []"
  have "p \<in> fst ` set (loaded_files env ?sigs readable mappable (st_disk s))"
    using assms unfolding backing_after_restart by (metis loaded_backing_paths image_eqI snd_conv)
  then obtain d where "(p, d) \<in> set (st_disk s)" "map_of ?sigs p = Some (env_hash env d)"
    by (auto simp: loaded_files_def kept_files_def signed_def)
  then show ?thesis by (cases "st_schema_version s = v") auto
qed

section \<open>Where the file goes\<close>

lemma find_marked:
  assumes "distinct (map ss_id xs)" "x \<in> set xs"
  shows "List.find (\<lambda>y. ss_id y = ss_id x) (mark_object (ss_id x) xs) =
    Some (x\<lparr>ss_subscription := MarkForPermanentRemoval (ss_subscription x)\<rparr>)"
  using assms by (induction xs) (auto simp: mark_object_def)

lemma destroy_removed:
  assumes "storage_ok env s" "x \<in> set (st_objects s)" "RemoveSubscription (ss_id x) s = Some s'"
  shows "st_disk (DestroySubscription (ss_id x) s') = destroy_buffer (ss_buffer x) True (st_disk s)"
proof -
  obtain p where p: "map_of (st_backing s) (ss_id x) = Some p"
    and s': "s' = s\<lparr>st_signatures := AList.delete p (st_signatures s),
      st_backing := AList.delete (ss_id x) (st_backing s), st_objects := mark_object (ss_id x) (st_objects s)\<rparr>"
    using assms(3) by (auto simp: RemoveSubscription_Some)
  have "distinct (map ss_id (st_objects s))" using assms(1) by (simp add: storage_ok_def objects_ok_def)
  then have "List.find (\<lambda>y. ss_id y = ss_id x) (st_objects s') =
      Some (x\<lparr>ss_subscription := MarkForPermanentRemoval (ss_subscription x)\<rparr>)"
    using find_marked [OF _ assms(2)] by (simp add: s')
  moreover have "ss_id x \<notin> fst ` set (st_backing s')" by (auto simp: s')
  ultimately show ?thesis by (simp add: DestroySubscription_def MarkForPermanentRemoval_def) (simp add: s')
qed

lemma stored_then_removed:
  assumes "storage_ok env s" "tok @ ''.fb'' \<notin> fst ` set (st_disk s)"
    "StoreSubscription env tok outcome mapped now d s = (Some x, s1)" "RemoveSubscription (ss_id x) s1 = Some s2"
  shows "map_of (st_disk (DestroySubscription (ss_id x) s2)) (tok @ ''.fb'') = Some d"
proof (cases rule: StoreSubscription_cases [of env tok outcome mapped now d s])
  case (stored y m)
  then have x: "x = y" and s1: "s1 = (stored_state env (tok @ ''.fb'') d x s)\<lparr>st_metadata := m\<rparr>" using assms(3) by auto
  have "storage_ok env s1" using StoreSubscription_ok [OF assms(1,2), of outcome mapped now d] assms(3) by simp
  moreover have "x \<in> set (st_objects s1)" by (simp add: s1 stored_state_def)
  ultimately have "st_disk (DestroySubscription (ss_id x) s2) = destroy_buffer (ss_buffer x) True (st_disk s1)"
    using destroy_removed assms(4) by blast
  moreover have "ss_buffer x = InMemory" using stored(2) x by simp
  ultimately show ?thesis by (simp add: s1 stored_state_def destroy_buffer_def AList.update_conv')
qed (use assms(3) in simp_all)

section \<open>Properties\<close>

text \<open>A disk with one file that is vouched for and one that is not.\<close>

definition example_buffer :: "string \<Rightarrow> flat_Subscription" where
  "example_buffer content = ConvertFilters ''1'' [content] (simple_gurl (''https://lists.com/'' @ content)) False"

definition example_storage_env :: "string storage_env" where
  "example_storage_env =
     \<lparr>env_hash = (\<lambda>content. ''hash of '' @ content),
      env_GetSubscription = example_buffer,
      env_metadata = example_metadata_env, env_net = example_env\<rparr>"

definition example_disk :: "string storage" where
  "example_disk = fresh_storage example_storage_env [(''a.fb'', ''/ads.js''), (''b.fb'', ''evil'')]
     [(''a.fb'', ''hash of /ads.js'')] ''1'' []"

abbreviation all_fine :: "string \<Rightarrow> bool" where
  "all_fine \<equiv> \<lambda>_. True"

definition example_session :: "string storage_event list" where
  "example_session = [Reboot ''1'' all_fine all_fine, Store ''c'' Written True 7 ''/banner'']"

definition example_storage :: "string storage" where
  "example_storage = the (storage_run example_storage_env example_session example_disk)"

lemmas example_steps_simps = example_session_def example_disk_def fresh_storage_def LoadSubscriptions_eq
  Restart_def new_Storage_def ClearSignaturesIfSchemaVersionChanged_def StoreSubscription_def WriteSubscription_def
  SubscriptionStored_def make_subscription_def Let_def StoreTrustedSignatureInternal_def
  StoreTrustedSignatureOnMainThread_def loaded_files_def kept_files_def signed_def example_storage_env_def
  loaded_object_def

lemma example_storage_run: "storage_run example_storage_env example_session example_disk = Some example_storage"
  by (simp add: example_storage_def) (simp add: example_steps_simps)

lemma example_storage_ok: "storage_ok example_storage_env example_storage"
  by (rule storage_run_ok [OF fresh_storage_ok example_storage_run [unfolded example_disk_def]]) simp_all

lemma example_storage_fields:
  "st_backing example_storage = [(1, ''c.fb''), (0, ''a.fb'')]"
  "st_disk example_storage = [(''a.fb'', ''/ads.js''), (''c.fb'', ''/banner'')]"
  "st_schema_version example_storage = ''1''"
  "map ss_id (st_objects example_storage) = [0, 1]"
  "map ss_buffer (st_objects example_storage) = [MemoryMapped ''a.fb'', InMemory]"
  by (simp_all add: example_storage_def) (simp_all add: example_steps_simps)

text \<open>C15: Whatever is on disk at the first start, after any sequence of stores (that succeed or fail),
  removals, destructions and restarts: every subscription in \<open>backing_file_mapping_\<close> has its own file, which
  is on disk with the content the object was made from and with a signature that vouches for that
  content.\<close>

theorem storage_invariant:
  assumes "distinct (map fst disk)" "distinct (map fst sigs)"
    "storage_run env es (fresh_storage env disk sigs schema metadata) = Some s"
  shows "storage_ok env s"
  by (rule storage_run_ok [OF fresh_storage_ok [OF assms(1,2)] assms(3)])

theorem storage_invariant_witness: "storage_ok example_storage_env example_storage"
  by (rule storage_invariant [OF _ _ example_storage_run [unfolded example_disk_def]]) simp_all

text \<open>C17: A restart with the same schema version brings back every governed subscription whose file can be read
  and mapped, with the same content, from the same file.\<close>

theorem stored_subscriptions_survive_a_restart:
  assumes "storage_ok env s" "(i, p) \<in> set (st_backing s)" "readable p" "mappable p"
    "s' = snd (LoadSubscriptions env readable mappable (Restart env (st_schema_version s) s))"
  shows "\<exists>j. (j, p) \<in> set (st_backing s') \<and> same_content s i s' j"
  unfolding assms(5) using assms(1-4) by (rule survives)

theorem stored_subscriptions_survive_a_restart_witness:
  "\<exists>j. (j, ''c.fb'') \<in> set (st_backing (snd (LoadSubscriptions example_storage_env all_fine all_fine
        (Restart example_storage_env (st_schema_version example_storage) example_storage)))) \<and>
     same_content example_storage 1 (snd (LoadSubscriptions example_storage_env all_fine all_fine
        (Restart example_storage_env (st_schema_version example_storage) example_storage))) j"
  by (rule stored_subscriptions_survive_a_restart [OF example_storage_ok _ _ _ refl]) (simp_all add: example_storage_fields)

text \<open>C16: A restart loads nothing that is not vouched for: a loaded file has the stored signature, and after a
  change of the schema version nothing is loaded and the directory is emptied of readable and unreadable
  files alike.\<close>

theorem restart_loads_only_trusted_files:
  "(\<forall>(j, p)\<in>set (st_backing (snd (LoadSubscriptions env readable mappable (Restart env v s)))).
      v = st_schema_version s \<and> (\<exists>d. (p, d) \<in> set (st_disk s) \<and> map_of (st_signatures s) p = Some (env_hash env d))) \<and>
   (v \<noteq> st_schema_version s \<longrightarrow> st_disk (snd (LoadSubscriptions env readable mappable (Restart env v s))) = [])"
proof -
  have "st_disk (snd (LoadSubscriptions env readable mappable (Restart env v s))) = []" if "v \<noteq> st_schema_version s"
    using that by (auto simp: kept_after_restart kept_files_def signed_def)
  then show ?thesis using loaded_only_trusted by blast
qed

theorem restart_loads_only_trusted_files_witness:
  "st_disk (snd (LoadSubscriptions example_storage_env all_fine all_fine
     (Restart example_storage_env ''2'' example_storage))) = []"
proof -
  have "''2'' \<noteq> st_schema_version example_storage" by (simp add: example_storage_fields)
  then show ?thesis using restart_loads_only_trusted_files by blast
qed

text \<open>C18: A removed subscription does not come back: after its removal, whatever happens except a store under
  the same token, its file is governed by no subscription, and the next start deletes it.\<close>

theorem removed_subscriptions_do_not_come_back:
  assumes "storage_ok env s" "map_of (st_backing s) i = Some p" "RemoveSubscription i s = Some s1"
    "storage_run env es s1 = Some s2" "\<not> list_ex (stores_under p) es"
  shows "p \<notin> snd ` set (st_backing s2) \<and>
    p \<notin> fst ` set (st_disk (snd (LoadSubscriptions env readable mappable (Restart env v s2))))"
proof -
  have "forgotten p s2"
    by (rule forgotten_run [OF removed_is_forgotten [OF assms(1,3,2)] assms(4,5)])
  then show ?thesis using forgotten_file_deleted unfolding forgotten_def by metis
qed

definition example_removed :: "string storage" where
  "example_removed = the (RemoveSubscription 0 example_storage)"

lemma RemoveSubscription_example: "RemoveSubscription 0 example_storage = Some example_removed"
  unfolding example_removed_def by (simp add: RemoveSubscription_def example_storage_fields Let_def)

theorem removed_subscriptions_do_not_come_back_witness:
  "''a.fb'' \<notin> snd ` set (st_backing example_removed) \<and>
   ''a.fb'' \<notin> fst ` set (st_disk (snd (LoadSubscriptions example_storage_env all_fine all_fine
      (Restart example_storage_env ''1'' example_removed))))"
proof (rule removed_subscriptions_do_not_come_back [OF example_storage_ok])
  show "map_of (st_backing example_storage) 0 = Some ''a.fb''" by (simp add: example_storage_fields)
  show "RemoveSubscription 0 example_storage = Some example_removed" by (rule RemoveSubscription_example)
  show "storage_run example_storage_env [] example_removed = Some example_removed" by simp
qed simp

text \<open>When the last reference to a removed subscription goes away, its file is deleted if the subscription
  was loaded from it, and stays on disk if it was stored in this session, because the object then has its
  buffer in memory.\<close>

theorem removal_deletes_only_mapped_files:
  assumes "storage_ok env s" "x \<in> set (st_objects s)" "RemoveSubscription (ss_id x) s = Some s'"
  shows "st_disk (DestroySubscription (ss_id x) s') =
    (case ss_buffer x of InMemory \<Rightarrow> st_disk s | MemoryMapped p \<Rightarrow> AList.delete p (st_disk s))"
  by (simp add: destroy_removed [OF assms] destroy_buffer_def split: BufferKind.split)

theorem removal_deletes_only_mapped_files_witness:
  "st_disk (DestroySubscription 0 example_removed) = [(''c.fb'', ''/banner'')]"
proof -
  obtain x y where xy: "st_objects example_storage = [x, y]" "ss_id x = 0" "ss_buffer x = MemoryMapped ''a.fb''"
    using example_storage_fields(4,5) by auto
  then have "x \<in> set (st_objects example_storage)" "RemoveSubscription (ss_id x) example_storage = Some example_removed"
    by (simp_all add: RemoveSubscription_example)
  from removal_deletes_only_mapped_files [OF example_storage_ok this] show ?thesis
    by (simp add: xy example_storage_fields)
qed

lemma removed_in_the_same_session_keeps_its_file:
  "map_of (st_disk (DestroySubscription 1 (the (RemoveSubscription 1 example_storage)))) ''c.fb'' = Some ''/banner''"
proof -
  obtain x y where xy: "st_objects example_storage = [x, y]" "ss_id y = 1" "ss_buffer y = InMemory"
    using example_storage_fields(4,5) by auto
  have "RemoveSubscription (ss_id y) example_storage = Some (the (RemoveSubscription 1 example_storage))"
    by (simp add: xy RemoveSubscription_def example_storage_fields Let_def)
  from destroy_removed [OF example_storage_ok _ this] show ?thesis
    by (simp add: xy example_storage_fields destroy_buffer_def)
qed

end
