(* ===== verification/Subscription_Config.thy ===== *)
theory Subscription_Config
  imports Common
begin

text \<open>
  \<open>subscription/subscription_config.cc\<close>: the filter lists the browser knows, their addresses, and the lists
  that come with it. Parsing an address and replacing its port are parameters.
\<close>

section \<open>Addresses\<close>

record config_env =
  ce_parse_url :: "string \<Rightarrow> gurl"
  ce_SetPort :: "string \<Rightarrow> gurl \<Rightarrow> gurl"
  ce_port_for_testing :: nat

definition GetHost :: "config_env \<Rightarrow> string" where
  "GetHost env =
     (let url = ce_parse_url env ''https://easylist-downloads.adblockplus.org''
      in if ce_port_for_testing env = 0 then spec url
         else spec (ce_SetPort env (decimal (ce_port_for_testing env)) url))"

definition AcceptableAdsUrl :: "config_env \<Rightarrow> gurl" where
  "AcceptableAdsUrl env = ce_parse_url env (GetHost env @ ''exceptionrules.txt'')"

definition AntiCVUrl :: "config_env \<Rightarrow> gurl" where
  "AntiCVUrl env = ce_parse_url env (GetHost env @ ''abp-filters-anti-cv.txt'')"

definition DefaultSubscriptionUrl :: "config_env \<Rightarrow> gurl" where
  "DefaultSubscriptionUrl env = ce_parse_url env (GetHost env @ ''easylist.txt'')"

definition TestPagesSubscriptionUrl :: "config_env \<Rightarrow> gurl" where
  "TestPagesSubscriptionUrl env = ce_parse_url env ''https://abptestpages.org/en/abp-testcase-subscription.txt''"

definition CustomFiltersUrl :: "config_env \<Rightarrow> gurl" where
  "CustomFiltersUrl env = ce_parse_url env ''adblock:custom''"

section \<open>Known lists\<close>

datatype SubscriptionUiVisibility = Visible | Invisible
datatype SubscriptionFirstRunBehavior = Subscribe | SubscribeIfLocaleMatch | Ignore_list
datatype SubscriptionPrivilegedFilterStatus = Privileged_Allowed | Privileged_Forbidden

record KnownSubscriptionInfo =
  ks_url :: gurl
  ks_title :: string
  ks_languages :: "string list"
  ks_ui_visibility :: SubscriptionUiVisibility
  ks_first_run :: SubscriptionFirstRunBehavior
  ks_privileged_status :: SubscriptionPrivilegedFilterStatus

abbreviation known :: "gurl \<Rightarrow> string \<Rightarrow> string list \<Rightarrow> SubscriptionUiVisibility \<Rightarrow>
    SubscriptionFirstRunBehavior \<Rightarrow> SubscriptionPrivilegedFilterStatus \<Rightarrow> KnownSubscriptionInfo" where
  "known u t l v f p \<equiv> \<lparr>ks_url = u, ks_title = t, ks_languages = l, ks_ui_visibility = v, ks_first_run = f,
     ks_privileged_status = p\<rparr>"

abbreviation host_url :: "config_env \<Rightarrow> string \<Rightarrow> gurl" where
  "host_url env name \<equiv> ce_parse_url env (GetHost env @ name)"

definition known_language_lists :: "config_env \<Rightarrow> KnownSubscriptionInfo list" where
  "known_language_lists env =
     [
      known (host_url env ''abpindo+easylist.txt'') ''ABPindo+EasyList'' [''id'', ''ms'']
        Visible SubscribeIfLocaleMatch Privileged_Forbidden,
      known (host_url env ''abpvn+easylist.txt'') ''ABPVN List+EasyList'' [''vi'']
        Visible SubscribeIfLocaleMatch Privileged_Forbidden,
      known (host_url env ''bulgarian_list+easylist.txt'') ''Bulgarian list+EasyList'' [''bg'']
        Visible SubscribeIfLocaleMatch Privileged_Forbidden,
      known (host_url env ''dandelion_sprouts_nordic_filters+easylist.txt'') ''Dandelion Sprout's Nordic Filters+EasyList'' [''no'', ''nb'', ''nn'', ''da'', ''is'', ''fo'', ''kl'']
        Visible SubscribeIfLocaleMatch Privileged_Forbidden,
      known (DefaultSubscriptionUrl env) ''EasyList'' [''en'']
        Visible SubscribeIfLocaleMatch Privileged_Forbidden,
      known (host_url env ''easylistchina+easylist.txt'') ''EasyList China+EasyList'' [''zh'']
        Visible SubscribeIfLocaleMatch Privileged_Forbidden,
      known (host_url env ''easylistczechslovak+easylist.txt'') ''EasyList Czech and Slovak+EasyList'' [''cs'', ''sk'']
        Visible SubscribeIfLocaleMatch Privileged_Forbidden,
      known (host_url env ''easylistdutch+easylist.txt'') ''EasyList Dutch+EasyList'' [''nl'']
        Visible SubscribeIfLocaleMatch Privileged_Forbidden,
      known (host_url env ''easylistgermany+easylist.txt'') ''EasyList Germany+EasyList'' [''de'']
        Visible SubscribeIfLocaleMatch Privileged_Forbidden,
      known (host_url env ''israellist+easylist.txt'') ''EasyList Hebrew+EasyList'' [''he'']
        Visible SubscribeIfLocaleMatch Privileged_Forbidden,
      known (host_url env ''easylistitaly+easylist.txt'') ''EasyList Italy+EasyList'' [''it'']
        Visible SubscribeIfLocaleMatch Privileged_Forbidden,
      known (host_url env ''easylistlithuania+easylist.txt'') ''EasyList Lithuania+EasyList'' [''lt'']
        Visible SubscribeIfLocaleMatch Privileged_Forbidden
     ]"

definition known_more_language_lists :: "config_env \<Rightarrow> KnownSubscriptionInfo list" where
  "known_more_language_lists env =
     [
      known (host_url env ''easylistpolish+easylist.txt'') ''EasyList Polish+EasyList'' [''pl'']
        Visible SubscribeIfLocaleMatch Privileged_Forbidden,
      known (host_url env ''easylistportuguese+easylist.txt'') ''EasyList Portuguese+EasyList'' [''pt'']
        Visible SubscribeIfLocaleMatch Privileged_Forbidden,
      known (host_url env ''easylistspanish+easylist.txt'') ''EasyList Spanish+EasyList'' [''es'']
        Visible SubscribeIfLocaleMatch Privileged_Forbidden,
      known (host_url env ''indianlist+easylist.txt'') ''IndianList+EasyList'' [''bn'', ''gu'', ''hi'', ''pa'', ''as'', ''mr'', ''ml'', ''te'', ''kn'', ''or'', ''ne'', ''si'']
        Visible SubscribeIfLocaleMatch Privileged_Forbidden,
      known (host_url env ''koreanlist+easylist.txt'') ''KoreanList+EasyList'' [''ko'']
        Visible SubscribeIfLocaleMatch Privileged_Forbidden,
      known (host_url env ''latvianlist+easylist.txt'') ''Latvian List+EasyList'' [''lv'']
        Visible SubscribeIfLocaleMatch Privileged_Forbidden,
      known (host_url env ''liste_ar+liste_fr+easylist.txt'') ''Liste AR+Liste FR+EasyList'' [''ar'']
        Visible SubscribeIfLocaleMatch Privileged_Forbidden,
      known (host_url env ''liste_fr+easylist.txt'') ''Liste FR+EasyList'' [''fr'']
        Visible SubscribeIfLocaleMatch Privileged_Forbidden,
      known (host_url env ''rolist+easylist.txt'') ''ROList+EasyList'' [''ro'']
        Visible SubscribeIfLocaleMatch Privileged_Forbidden,
      known (host_url env ''ruadlist+easylist.txt'') ''RuAdList+EasyList'' [''ru'', ''uk'']
        Visible SubscribeIfLocaleMatch Privileged_Forbidden
     ]"

definition known_general_lists :: "config_env \<Rightarrow> KnownSubscriptionInfo list" where
  "known_general_lists env =
     [
      known (AcceptableAdsUrl env) ''Acceptable Ads'' []
        Invisible Subscribe Privileged_Forbidden,
      known (AntiCVUrl env) ''ABP filters'' []
        Visible Subscribe Privileged_Allowed,
      known (host_url env ''i_dont_care_about_cookies.txt'') ''I don't care about cookies'' []
        Visible Ignore_list Privileged_Forbidden,
      known (host_url env ''fanboy-notifications.txt'') ''Fanboy's Notifications Blocking List'' []
        Visible Ignore_list Privileged_Forbidden,
      known (host_url env ''easyprivacy.txt'') ''EasyPrivacy'' []
        Visible Ignore_list Privileged_Forbidden,
      known (host_url env ''fanboy-social.txt'') ''Fanboy's Social Blocking List'' []
        Visible Ignore_list Privileged_Forbidden,
      known (CustomFiltersUrl env) ''User filters'' []
        Invisible Ignore_list Privileged_Allowed,
      known (TestPagesSubscriptionUrl env) ''ABP Test filters'' []
        Invisible Ignore_list Privileged_Allowed
     ]"

definition GetKnownSubscriptions :: "config_env \<Rightarrow> KnownSubscriptionInfo list" where
  "GetKnownSubscriptions env =
     known_language_lists env @ known_more_language_lists env @ known_general_lists env"

definition AllowPrivilegedFilters :: "config_env \<Rightarrow> gurl \<Rightarrow> bool" where
  "AllowPrivilegedFilters env url =
     (case List.find (\<lambda>cur. ks_url cur = url) (GetKnownSubscriptions env) of
        Some cur \<Rightarrow> ks_privileged_status cur = Privileged_Allowed
      | None \<Rightarrow> False)"

section \<open>Lists that come with the browser\<close>

datatype resource_id =
    IDR_ADBLOCK_FLATBUFFER_EASYLIST
  | IDR_ADBLOCK_FLATBUFFER_EXCEPTIONRULES
  | IDR_ADBLOCK_FLATBUFFER_ANTICV

record PreloadedSubscriptionInfo =
  pi_url_pattern :: string
  pi_flatbuffer_resource_id :: resource_id

definition GetPreloadedSubscriptionConfiguration :: "PreloadedSubscriptionInfo list" where
  "GetPreloadedSubscriptionConfiguration =
     [\<lparr>pi_url_pattern = ''*easylist.txt'', pi_flatbuffer_resource_id = IDR_ADBLOCK_FLATBUFFER_EASYLIST\<rparr>,
      \<lparr>pi_url_pattern = ''*exceptionrules.txt'', pi_flatbuffer_resource_id = IDR_ADBLOCK_FLATBUFFER_EXCEPTIONRULES\<rparr>,
      \<lparr>pi_url_pattern = ''*abp-filters-anti-cv.txt'', pi_flatbuffer_resource_id = IDR_ADBLOCK_FLATBUFFER_ANTICV\<rparr>]"

end
