(* ===== verification/Adblock_Controller.thy ===== *)
theory Adblock_Controller
  imports Filtering_Configuration Subscription_Config
begin

text \<open>
  \<open>adblock_controller_impl.cc\<close>: the controller of the "adblock" configuration, what it installs on the first
  run, and how it takes over the settings of earlier versions. The base language of the locale and the
  command line switch are arguments; the subscriptions of the service are a list of any type with a source
  URL.
\<close>

section \<open>Preferences\<close>

definition kEnableAdblockLegacy :: string where "kEnableAdblockLegacy = ''adblock.enable''"
definition kEnableAcceptableAdsLegacy :: string where "kEnableAcceptableAdsLegacy = ''adblock.aa_enable''"
definition kAdblockAllowedDomainsLegacy :: string where
  "kAdblockAllowedDomainsLegacy = ''adblock.allowed_domains''"
definition kAdblockCustomFiltersLegacy :: string where
  "kAdblockCustomFiltersLegacy = ''adblock.custom_filters''"
definition kAdblockSubscriptionsLegacy :: string where
  "kAdblockSubscriptionsLegacy = ''adblock.subscriptions''"
definition kAdblockCustomSubscriptionsLegacy :: string where
  "kAdblockCustomSubscriptionsLegacy = ''adblock.custom_subscriptions''"
definition kAdblockMoreOptionsEnabled :: string where
  "kAdblockMoreOptionsEnabled = ''adblock.more_options''"
definition kInstallFirstStartSubscriptions :: string where
  "kInstallFirstStartSubscriptions = ''adblock.install_first_run_subscriptions''"

definition kSubscriptionSignatures :: string where
  "kSubscriptionSignatures = ''adblock.subscription_signatures''"
definition kLastUsedSchemaVersion :: string where
  "kLastUsedSchemaVersion = ''adblock.last_used_schema_version''"
definition kSubscriptionMetadata :: string where
  "kSubscriptionMetadata = ''adblock.subscription_metadata''"
definition kTelemetryLastPingTag :: string where
  "kTelemetryLastPingTag = ''adblock.telemetry.activeping.last_ping_tag''"
definition kTelemetryLastPingTime :: string where
  "kTelemetryLastPingTime = ''adblock.telemetry.activeping.last_ping_time''"
definition kTelemetryPreviousLastPingTime :: string where
  "kTelemetryPreviousLastPingTime = ''adblock.telemetry.activeping.previous_last_ping_time''"
definition kTelemetryFirstPingTime :: string where
  "kTelemetryFirstPingTime = ''adblock.telemetry.activeping.first_ping_time''"
definition kTelemetryNextPingTime :: string where
  "kTelemetryNextPingTime = ''adblock.telemetry.activeping.next_ping_time''"

lemmas pref_names = kEnableAdblockLegacy_def kEnableAcceptableAdsLegacy_def kAdblockAllowedDomainsLegacy_def
  kAdblockCustomFiltersLegacy_def kAdblockSubscriptionsLegacy_def kAdblockCustomSubscriptionsLegacy_def
  kAdblockMoreOptionsEnabled_def kInstallFirstStartSubscriptions_def

text \<open>The defaults that are registered (the null time is stored as 0 microseconds); a \<open>PrefService\<close> is the
  list of the settings the user has.\<close>

definition RegisterTelemetryPrefs :: dict where
  "RegisterTelemetryPrefs =
     [(kTelemetryLastPingTag, StringValue []), (kTelemetryLastPingTime, StringValue []),
      (kTelemetryPreviousLastPingTime, StringValue []), (kTelemetryFirstPingTime, StringValue []),
      (kTelemetryNextPingTime, StringValue ''0'')]"

definition RegisterProfilePrefs :: dict where
  "RegisterProfilePrefs =
     [(kEnableAdblockLegacy, BoolValue True), (kEnableAcceptableAdsLegacy, BoolValue True),
      (kAdblockMoreOptionsEnabled, BoolValue False), (kAdblockAllowedDomainsLegacy, ListValue []),
      (kAdblockCustomFiltersLegacy, ListValue []), (kAdblockSubscriptionsLegacy, ListValue []),
      (kAdblockCustomSubscriptionsLegacy, ListValue []), (kInstallFirstStartSubscriptions, BoolValue True),
      (kSubscriptionSignatures, DictValue []), (kLastUsedSchemaVersion, StringValue []),
      (kSubscriptionMetadata, DictValue [])] @ RegisterTelemetryPrefs"

definition GetBoolean :: "dict \<Rightarrow> string \<Rightarrow> bool" where
  "GetBoolean user name =
     (case FindBool user name of
        Some b \<Rightarrow> b
      | None \<Rightarrow> (case FindBool RegisterProfilePrefs name of Some b \<Rightarrow> b | None \<Rightarrow> False))"

definition GetList :: "dict \<Rightarrow> string \<Rightarrow> Value list" where
  "GetList user name = (case FindList user name of Some l \<Rightarrow> l | None \<Rightarrow> [])"

definition HasUserSetting :: "dict \<Rightarrow> string \<Rightarrow> bool" where
  "HasUserSetting user name \<longleftrightarrow> name \<in> fst ` set user"

section \<open>State\<close>

datatype controller_event =
    Configuration_changed Notification
  | OnEnabledStateChanged
  | OnSubscriptionUpdated gurl

record controller =
  ctl_config :: FilteringConfiguration
  ctl_configuration_prefs :: dict
  ctl_language :: string
  ctl_known_subscriptions :: "KnownSubscriptionInfo list"
  ctl_user_prefs :: dict
  ctl_events :: "controller_event list"

definition new_AdblockController ::
  "FilteringConfiguration \<Rightarrow> dict \<Rightarrow> dict \<Rightarrow> string \<Rightarrow> KnownSubscriptionInfo list \<Rightarrow> controller" where
  "new_AdblockController c configuration_prefs user_prefs base_language known_subscriptions =
     \<lparr>ctl_config = c, ctl_configuration_prefs = configuration_prefs,
      ctl_language = (if length base_language \<noteq> 2 then ''en'' else base_language),
      ctl_known_subscriptions = known_subscriptions, ctl_user_prefs = user_prefs, ctl_events = []\<rparr>"

text \<open>A call of the configuration: it changes, stores itself and notifies its observers.\<close>

definition on_configuration :: "config_op \<Rightarrow> controller \<Rightarrow> controller" where
  "on_configuration op s =
     (let (c, prefs, ns) = apply_op op (ctl_config s) (ctl_configuration_prefs s)
      in s\<lparr>ctl_config := c, ctl_configuration_prefs := prefs,
           ctl_events := ctl_events s @ map Configuration_changed ns\<rparr>)"

section \<open>Operations\<close>

definition SetAdblockEnabled :: "bool \<Rightarrow> controller \<Rightarrow> controller" where
  "SetAdblockEnabled enabled s =
     (let s = on_configuration (Op_SetEnabled enabled) s
      in s\<lparr>ctl_events := ctl_events s @ [OnEnabledStateChanged]\<rparr>)"

definition IsAdblockEnabled :: "controller \<Rightarrow> bool" where
  "IsAdblockEnabled s = IsEnabled (ctl_config s)"

definition InstallSubscription :: "gurl \<Rightarrow> controller \<Rightarrow> controller" where
  "InstallSubscription url = on_configuration (Op_AddFilterList url)"

definition UninstallSubscription :: "gurl \<Rightarrow> controller \<Rightarrow> controller" where
  "UninstallSubscription url = on_configuration (Op_RemoveFilterList url)"

definition SetAcceptableAdsEnabled :: "config_env \<Rightarrow> bool \<Rightarrow> controller \<Rightarrow> controller" where
  "SetAcceptableAdsEnabled env enabled =
     (if enabled then InstallSubscription (AcceptableAdsUrl env) else UninstallSubscription (AcceptableAdsUrl env))"

definition IsAcceptableAdsEnabled :: "config_env \<Rightarrow> controller \<Rightarrow> bool" where
  "IsAcceptableAdsEnabled env s =
     list_ex (\<lambda>url. url = AcceptableAdsUrl env) (GetFilterLists (ce_parse_url env) (ctl_config s))"

definition IsKnownSubscription :: "KnownSubscriptionInfo list \<Rightarrow> gurl \<Rightarrow> bool" where
  "IsKnownSubscription known_subscriptions url = list_ex (\<lambda>k. ks_url k = url) known_subscriptions"

definition GetSelectedBuiltInSubscriptions :: "('a \<Rightarrow> gurl) \<Rightarrow> 'a list \<Rightarrow> controller \<Rightarrow> 'a list" where
  "GetSelectedBuiltInSubscriptions source_url installed s =
     filter (\<lambda>x. IsKnownSubscription (ctl_known_subscriptions s) (source_url x)) installed"

definition GetCustomSubscriptions :: "('a \<Rightarrow> gurl) \<Rightarrow> 'a list \<Rightarrow> controller \<Rightarrow> 'a list" where
  "GetCustomSubscriptions source_url installed s =
     filter (\<lambda>x. \<not> IsKnownSubscription (ctl_known_subscriptions s) (source_url x)) installed"

definition OnSubscriptionInstalled :: "gurl \<Rightarrow> controller \<Rightarrow> controller" where
  "OnSubscriptionInstalled subscription_url s =
     s\<lparr>ctl_events := ctl_events s @ [OnSubscriptionUpdated subscription_url]\<rparr>"

subsection \<open>The first run\<close>

fun install_matching :: "KnownSubscriptionInfo list \<Rightarrow> controller \<Rightarrow> bool \<times> controller" where
  "install_matching [] s = (False, s)"
| "install_matching (k # ks) s =
     (if ks_first_run k = SubscribeIfLocaleMatch \<and> ctl_language s \<in> set (ks_languages k)
      then (True, snd (install_matching ks (InstallSubscription (ks_url k) s)))
      else install_matching ks s)"

definition InstallLanguageBasedRecommendedSubscriptions :: "config_env \<Rightarrow> controller \<Rightarrow> controller" where
  "InstallLanguageBasedRecommendedSubscriptions env s =
     (let (language_specific_subscription_installed, s) = install_matching (ctl_known_subscriptions s) s
      in if language_specific_subscription_installed then s
         else if list_ex (\<lambda>k. ks_url k = DefaultSubscriptionUrl env \<and> ks_first_run k \<noteq> Ignore_list)
                   (ctl_known_subscriptions s)
         then InstallSubscription (DefaultSubscriptionUrl env) s
         else s)"

fun first_run_loop :: "config_env \<Rightarrow> bool \<Rightarrow> KnownSubscriptionInfo list \<Rightarrow> controller \<Rightarrow> controller" where
  "first_run_loop env disable_acceptable_ads [] s = s"
| "first_run_loop env disable_acceptable_ads (cur # ks) s =
     (if ks_first_run cur = Subscribe then
        if ks_url cur = AcceptableAdsUrl env \<and> disable_acceptable_ads
        then first_run_loop env disable_acceptable_ads ks s
        else first_run_loop env disable_acceptable_ads ks (InstallSubscription (ks_url cur) s)
      else first_run_loop env disable_acceptable_ads ks s)"

definition RunFirstRunLogic :: "config_env \<Rightarrow> bool \<Rightarrow> controller \<Rightarrow> controller" where
  "RunFirstRunLogic env disable_acceptable_ads s =
     (if GetBoolean (ctl_user_prefs s) kInstallFirstStartSubscriptions then
        let s = first_run_loop env disable_acceptable_ads (ctl_known_subscriptions s) s;
            s = InstallLanguageBasedRecommendedSubscriptions env s
        in s\<lparr>ctl_user_prefs := AList.update kInstallFirstStartSubscriptions (BoolValue False) (ctl_user_prefs s)\<rparr>
      else s)"

subsection \<open>Settings of earlier versions\<close>

definition MigrateItemsFromList :: "string \<Rightarrow> dict \<Rightarrow> string list \<times> dict" where
  "MigrateItemsFromList pref_name user =
     (if HasUserSetting user pref_name
      then (strings_of (GetList user pref_name), AList.delete pref_name user) else ([], user))"

definition MigrateBoolFromPrefs :: "string \<Rightarrow> dict \<Rightarrow> bool option \<times> dict" where
  "MigrateBoolFromPrefs pref_name user =
     (if HasUserSetting user pref_name
      then (Some (GetBoolean user pref_name), AList.delete pref_name user) else (None, user))"

definition migrate_bool :: "string \<Rightarrow> (bool \<Rightarrow> controller \<Rightarrow> controller) \<Rightarrow> controller \<Rightarrow> controller" where
  "migrate_bool pref_name set_value s =
     (let (migrated, user) = MigrateBoolFromPrefs pref_name (ctl_user_prefs s);
          s = s\<lparr>ctl_user_prefs := user\<rparr>
      in case migrated of Some b \<Rightarrow> set_value b s | None \<Rightarrow> s)"

definition migrate_items :: "string \<Rightarrow> (string \<Rightarrow> config_op) \<Rightarrow> controller \<Rightarrow> controller" where
  "migrate_items pref_name op s =
     (let (items, user) = MigrateItemsFromList pref_name (ctl_user_prefs s)
      in fold (\<lambda>x. on_configuration (op x)) items (s\<lparr>ctl_user_prefs := user\<rparr>))"

definition MigrateLegacyPrefs :: "config_env \<Rightarrow> controller \<Rightarrow> controller" where
  "MigrateLegacyPrefs env s =
     (let s = migrate_bool kEnableAcceptableAdsLegacy (SetAcceptableAdsEnabled env) s;
          s = migrate_bool kEnableAdblockLegacy SetAdblockEnabled s;
          s = migrate_items kAdblockCustomSubscriptionsLegacy (\<lambda>u. Op_AddFilterList (ce_parse_url env u)) s;
          s = migrate_items kAdblockSubscriptionsLegacy (\<lambda>u. Op_AddFilterList (ce_parse_url env u)) s;
          s = migrate_items kAdblockAllowedDomainsLegacy Op_AddAllowedDomain s
      in migrate_items kAdblockCustomFiltersLegacy Op_AddCustomFilter s)"

end
