(* ===== verification/Controller_Facts.thy ===== *)
theory Controller_Facts
  imports Adblock_Controller
begin

text \<open>
  What the controller does to the settings: each of its operations is a list of operations on the
  configuration, so the first run and the migration are read off as lists of settings.
\<close>

section \<open>Lists of operations on the configuration\<close>

definition on_all :: "config_op list \<Rightarrow> controller \<Rightarrow> controller" where
  "on_all ops = fold on_configuration ops"

lemma on_all_simps [simp]:
  "on_all [] s = s" "on_all (op # ops) s = on_all ops (on_configuration op s)"
  "on_all (ops @ ops') s = on_all ops' (on_all ops s)"
  by (simp_all add: on_all_def)

lemma on_configuration_fields [simp]:
  "ctl_language (on_configuration op s) = ctl_language s"
  "ctl_known_subscriptions (on_configuration op s) = ctl_known_subscriptions s"
  "ctl_user_prefs (on_configuration op s) = ctl_user_prefs s"
  "ctl_config (on_configuration op s) = fst (apply_op op (ctl_config s) (ctl_configuration_prefs s))"
  by (simp_all add: on_configuration_def split: prod.split)

lemma on_configuration_user_prefs [simp]:
  "on_configuration op (s\<lparr>ctl_user_prefs := u\<rparr>) = (on_configuration op s)\<lparr>ctl_user_prefs := u\<rparr>"
  by (simp add: on_configuration_def split: prod.split)

lemma on_all_fields [simp]:
  "ctl_language (on_all ops s) = ctl_language s"
  "ctl_known_subscriptions (on_all ops s) = ctl_known_subscriptions s"
  "ctl_user_prefs (on_all ops s) = ctl_user_prefs s"
  "on_all ops (s\<lparr>ctl_user_prefs := u\<rparr>) = (on_all ops s)\<lparr>ctl_user_prefs := u\<rparr>"
  by (induction ops arbitrary: s) simp_all

definition controller_settings :: "controller \<Rightarrow> settings" where
  "controller_settings s = settings_of (ctl_config s)"

definition controller_ok :: "controller \<Rightarrow> bool" where
  "controller_ok s \<longleftrightarrow> config_ok (ctl_config s)"

lemma on_configuration_settings:
  "controller_ok s \<Longrightarrow> controller_settings (on_configuration op s) = change_settings op (controller_settings s) \<and>
    controller_ok (on_configuration op s)"
  by (simp add: controller_ok_def controller_settings_def apply_op_settings apply_op_ok)

lemma on_all_settings:
  "controller_ok s \<Longrightarrow> controller_settings (on_all ops s) = fold change_settings ops (controller_settings s) \<and>
    controller_ok (on_all ops s)"
  by (induction ops arbitrary: s) (simp_all add: on_configuration_settings)

lemma controller_settings_irrelevant [simp]:
  "controller_settings (s\<lparr>ctl_user_prefs := u\<rparr>) = controller_settings s"
  "controller_settings (s\<lparr>ctl_events := e\<rparr>) = controller_settings s"
  "controller_ok (s\<lparr>ctl_user_prefs := u\<rparr>) = controller_ok s"
  "controller_ok (s\<lparr>ctl_events := e\<rparr>) = controller_ok s"
  by (simp_all add: controller_settings_def controller_ok_def)

lemma fold_add_lists:
  "fold change_settings (map Op_AddFilterList us) t =
    t\<lparr>set_lists := fold add_once (map spec us) (set_lists t)\<rparr>"
  by (induction us arbitrary: t) simp_all

lemma set_fold_add_once: "set (fold add_once xs ys) = set ys \<union> set xs"
  by (induction xs arbitrary: ys) (auto simp: add_once_def)

section \<open>The first run\<close>

definition matching_lists :: "string \<Rightarrow> KnownSubscriptionInfo list \<Rightarrow> KnownSubscriptionInfo list" where
  "matching_lists lang ks = filter (\<lambda>k. ks_first_run k = SubscribeIfLocaleMatch \<and> lang \<in> set (ks_languages k)) ks"

definition recommended_urls :: "config_env \<Rightarrow> string \<Rightarrow> KnownSubscriptionInfo list \<Rightarrow> gurl list" where
  "recommended_urls env lang ks =
     (if matching_lists lang ks \<noteq> [] then map ks_url (matching_lists lang ks)
      else if \<exists>k\<in>set ks. ks_url k = DefaultSubscriptionUrl env \<and> ks_first_run k \<noteq> Ignore_list
      then [DefaultSubscriptionUrl env] else [])"

definition first_run_urls :: "config_env \<Rightarrow> bool \<Rightarrow> string \<Rightarrow> KnownSubscriptionInfo list \<Rightarrow> gurl list" where
  "first_run_urls env disable_acceptable_ads lang ks =
     map ks_url (filter (\<lambda>k. ks_first_run k = Subscribe \<and>
       (ks_url k = AcceptableAdsUrl env \<longrightarrow> \<not> disable_acceptable_ads)) ks) @ recommended_urls env lang ks"

lemma install_matching_eq:
  "install_matching ks s =
    (matching_lists (ctl_language s) ks \<noteq> [],
     on_all (map Op_AddFilterList (map ks_url (matching_lists (ctl_language s) ks))) s)"
  by (induction ks arbitrary: s) (auto simp: matching_lists_def InstallSubscription_def)

lemma first_run_loop_eq:
  "first_run_loop env b ks s =
    on_all (map Op_AddFilterList (map ks_url (filter (\<lambda>k. ks_first_run k = Subscribe \<and>
       (ks_url k = AcceptableAdsUrl env \<longrightarrow> \<not> b)) ks))) s"
  by (induction ks arbitrary: s) (auto simp: InstallSubscription_def)

lemma InstallLanguageBased_eq:
  "InstallLanguageBasedRecommendedSubscriptions env s =
    on_all (map Op_AddFilterList (recommended_urls env (ctl_language s) (ctl_known_subscriptions s))) s"
  by (auto simp: InstallLanguageBasedRecommendedSubscriptions_def install_matching_eq recommended_urls_def
      InstallSubscription_def list_ex_iff)

lemma RunFirstRunLogic_eq:
  "RunFirstRunLogic env b s =
    (if GetBoolean (ctl_user_prefs s) kInstallFirstStartSubscriptions
     then (on_all (map Op_AddFilterList (first_run_urls env b (ctl_language s) (ctl_known_subscriptions s))) s)
       \<lparr>ctl_user_prefs := AList.update kInstallFirstStartSubscriptions (BoolValue False) (ctl_user_prefs s)\<rparr>
     else s)"
  by (simp add: RunFirstRunLogic_def first_run_loop_eq InstallLanguageBased_eq first_run_urls_def Let_def)

lemma first_run_done:
  "RunFirstRunLogic env b (RunFirstRunLogic env b' s) = RunFirstRunLogic env b' s"
  by (simp add: RunFirstRunLogic_eq GetBoolean_def FindBool_def AList.update_conv')

text \<open>No language has two lists.\<close>

lemma one_list_per_language:
  assumes "distinct (concat (map ks_languages ks))"
  shows "length (filter (\<lambda>k. P k \<and> l \<in> set (ks_languages k)) ks) \<le> 1"
  using assms
proof (induction ks)
  case (Cons k ks)
  have "filter (\<lambda>k. P k \<and> l \<in> set (ks_languages k)) ks = []" if "l \<in> set (ks_languages k)"
    using Cons.prems that by (auto simp: filter_empty_conv)
  then show ?case using Cons by auto
qed simp

lemma known_languages_distinct: "distinct (concat (map ks_languages (GetKnownSubscriptions env)))"
  by (simp add: GetKnownSubscriptions_def known_language_lists_def known_more_language_lists_def
      known_general_lists_def)

lemma known_language_facts:
  "k \<in> set (GetKnownSubscriptions env) \<Longrightarrow> ks_languages k \<noteq> [] \<Longrightarrow> ks_first_run k = SubscribeIfLocaleMatch"
  by (auto simp: GetKnownSubscriptions_def known_language_lists_def known_more_language_lists_def
      known_general_lists_def)

lemma known_subscribed:
  "map ks_url (filter (\<lambda>k. ks_first_run k = Subscribe \<and> P k) (GetKnownSubscriptions env)) =
    map ks_url (filter P (take 2 (known_general_lists env)))"
  by (simp add: GetKnownSubscriptions_def known_language_lists_def known_more_language_lists_def
      known_general_lists_def)

lemma known_default: "\<exists>k\<in>set (GetKnownSubscriptions env). ks_url k = DefaultSubscriptionUrl env \<and> ks_first_run k \<noteq> Ignore_list"
  by (rule bexI [of _ "known_language_lists env ! 4"])
    (simp_all add: GetKnownSubscriptions_def known_language_lists_def)

lemma known_first_run:
  "\<exists>u. first_run_urls env False lang (GetKnownSubscriptions env) = [AcceptableAdsUrl env, AntiCVUrl env, u] \<and>
    (if list_ex (\<lambda>k. lang \<in> set (ks_languages k)) (GetKnownSubscriptions env)
     then list_ex (\<lambda>k. lang \<in> set (ks_languages k) \<and> u = ks_url k) (GetKnownSubscriptions env)
     else u = DefaultSubscriptionUrl env)"
proof -
  let ?ks = "GetKnownSubscriptions env"
  let ?m = "matching_lists lang ?ks"
  have m: "?m = filter (\<lambda>k. lang \<in> set (ks_languages k)) ?ks"
    unfolding matching_lists_def by (rule filter_cong) (auto dest: known_language_facts)
  have len: "length ?m \<le> 1"
    using one_list_per_language [OF known_languages_distinct [of env], of "\<lambda>_. True" lang] by (simp add: m)
  have urls: "first_run_urls env False lang ?ks = [AcceptableAdsUrl env, AntiCVUrl env] @ recommended_urls env lang ?ks"
    unfolding first_run_urls_def known_subscribed by (simp add: known_general_lists_def)
  show ?thesis
  proof (cases ?m)
    case Nil
    then have "\<not> list_ex (\<lambda>k. lang \<in> set (ks_languages k)) ?ks" by (simp add: m filter_empty_conv list_ex_iff)
    then show ?thesis using urls Nil known_default [of env] by (simp add: recommended_urls_def)
  next
    case (Cons k ks)
    then have "ks = []" using len by simp
    moreover have "k \<in> set (filter (\<lambda>k. lang \<in> set (ks_languages k)) ?ks)" using Cons m by simp
    then have "k \<in> set ?ks" "lang \<in> set (ks_languages k)" by simp_all
    ultimately show ?thesis using urls Cons by (auto simp: recommended_urls_def list_ex_iff)
  qed
qed

section \<open>Migration\<close>

definition legacy_bool :: "string \<Rightarrow> dict \<Rightarrow> bool option" where
  "legacy_bool name user = (if HasUserSetting user name then Some (GetBoolean user name) else None)"

definition legacy_items :: "string \<Rightarrow> dict \<Rightarrow> string list" where
  "legacy_items name user = (if HasUserSetting user name then strings_of (GetList user name) else [])"

lemma HasUserSetting_map_of: "HasUserSetting user name \<longleftrightarrow> map_of user name \<noteq> None"
  by (simp add: HasUserSetting_def map_of_eq_None_iff)

lemma legacy_delete [simp]:
  "n \<noteq> m \<Longrightarrow> legacy_bool n (AList.delete m user) = legacy_bool n user"
  "n \<noteq> m \<Longrightarrow> legacy_items n (AList.delete m user) = legacy_items n user"
  by (simp_all add: legacy_bool_def legacy_items_def HasUserSetting_map_of GetBoolean_def GetList_def FindBool_def
      FindList_def AList.delete_conv')

text \<open>What a step of the migration does: operations on the settings, and one preference less.\<close>

definition migrates :: "(controller \<Rightarrow> controller) \<Rightarrow> string \<Rightarrow> (dict \<Rightarrow> config_op list) \<Rightarrow> bool" where
  "migrates f name ops \<longleftrightarrow> (\<forall>s. controller_ok s \<longrightarrow>
     controller_settings (f s) = fold change_settings (ops (ctl_user_prefs s)) (controller_settings s) \<and>
     controller_ok (f s) \<and> ctl_user_prefs (f s) = AList.delete name (ctl_user_prefs s))"

lemma migratesD:
  assumes "migrates f name ops" "controller_ok s"
  shows "controller_settings (f s) = fold change_settings (ops (ctl_user_prefs s)) (controller_settings s)"
    "controller_ok (f s)" "ctl_user_prefs (f s) = AList.delete name (ctl_user_prefs s)"
  using assms by (simp_all add: migrates_def)

lemma migrate_items_migrates:
  "migrates (migrate_items name op) name (\<lambda>user. map op (legacy_items name user))"
proof -
  have "fold (\<lambda>x. on_configuration (op x)) xs s = on_all (map op xs) s" for xs s
    by (induction xs arbitrary: s) simp_all
  then have "migrate_items name op s =
      (on_all (map op (legacy_items name (ctl_user_prefs s))) s)\<lparr>ctl_user_prefs := AList.delete name (ctl_user_prefs s)\<rparr>" for s
    by (simp add: migrate_items_def MigrateItemsFromList_def legacy_items_def HasUserSetting_def AList.delete_id)
  then show ?thesis by (simp add: migrates_def on_all_settings)
qed

lemma migrate_bool_migrates:
  assumes "\<And>b s. controller_ok s \<Longrightarrow> controller_settings (f b s) = change_settings (op b) (controller_settings s) \<and>
      controller_ok (f b s) \<and> ctl_user_prefs (f b s) = ctl_user_prefs s"
  shows "migrates (migrate_bool name f) name
    (\<lambda>user. case legacy_bool name user of Some b \<Rightarrow> [op b] | None \<Rightarrow> [])"
  by (auto simp: migrates_def migrate_bool_def MigrateBoolFromPrefs_def legacy_bool_def HasUserSetting_def
      AList.delete_id assms)

definition acceptable_ads_op :: "config_env \<Rightarrow> bool \<Rightarrow> config_op" where
  "acceptable_ads_op env b =
     (if b then Op_AddFilterList (AcceptableAdsUrl env) else Op_RemoveFilterList (AcceptableAdsUrl env))"

lemma SetAcceptableAds_op: "SetAcceptableAdsEnabled env b = on_configuration (acceptable_ads_op env b)"
  by (auto simp: SetAcceptableAdsEnabled_def InstallSubscription_def UninstallSubscription_def acceptable_ads_op_def)

lemma SetAcceptableAds_migrates:
  "migrates (migrate_bool kEnableAcceptableAdsLegacy (SetAcceptableAdsEnabled env)) kEnableAcceptableAdsLegacy
    (\<lambda>user. case legacy_bool kEnableAcceptableAdsLegacy user of Some b \<Rightarrow> [acceptable_ads_op env b] | None \<Rightarrow> [])"
  by (rule migrate_bool_migrates) (simp add: SetAcceptableAds_op on_configuration_settings)

lemma SetAdblockEnabled_migrates:
  "migrates (migrate_bool kEnableAdblockLegacy SetAdblockEnabled) kEnableAdblockLegacy
    (\<lambda>user. case legacy_bool kEnableAdblockLegacy user of Some b \<Rightarrow> [Op_SetEnabled b] | None \<Rightarrow> [])"
  by (rule migrate_bool_migrates) (simp add: SetAdblockEnabled_def Let_def on_configuration_settings)

definition migration_ops :: "config_env \<Rightarrow> dict \<Rightarrow> config_op list" where
  "migration_ops env user =
     (case legacy_bool kEnableAcceptableAdsLegacy user of Some b \<Rightarrow> [acceptable_ads_op env b] | None \<Rightarrow> []) @
     (case legacy_bool kEnableAdblockLegacy user of Some b \<Rightarrow> [Op_SetEnabled b] | None \<Rightarrow> []) @
     map (\<lambda>u. Op_AddFilterList (ce_parse_url env u)) (legacy_items kAdblockCustomSubscriptionsLegacy user) @
     map (\<lambda>u. Op_AddFilterList (ce_parse_url env u)) (legacy_items kAdblockSubscriptionsLegacy user) @
     map Op_AddAllowedDomain (legacy_items kAdblockAllowedDomainsLegacy user) @
     map Op_AddCustomFilter (legacy_items kAdblockCustomFiltersLegacy user)"

definition legacy_names :: "string list" where
  "legacy_names = [kEnableAcceptableAdsLegacy, kEnableAdblockLegacy, kAdblockCustomSubscriptionsLegacy,
     kAdblockSubscriptionsLegacy, kAdblockAllowedDomainsLegacy, kAdblockCustomFiltersLegacy]"

lemma MigrateLegacyPrefs_effect:
  assumes "controller_ok s"
  shows "controller_settings (MigrateLegacyPrefs env s) =
      fold change_settings (migration_ops env (ctl_user_prefs s)) (controller_settings s)"
    and "controller_ok (MigrateLegacyPrefs env s)"
    and "ctl_user_prefs (MigrateLegacyPrefs env s) = fold AList.delete legacy_names (ctl_user_prefs s)"
proof -
  let ?u = "\<lambda>u. Op_AddFilterList (ce_parse_url env u)"
  define s1 where "s1 = migrate_bool kEnableAcceptableAdsLegacy (SetAcceptableAdsEnabled env) s"
  define s2 where "s2 = migrate_bool kEnableAdblockLegacy SetAdblockEnabled s1"
  define s3 where "s3 = migrate_items kAdblockCustomSubscriptionsLegacy ?u s2"
  define s4 where "s4 = migrate_items kAdblockSubscriptionsLegacy ?u s3"
  define s5 where "s5 = migrate_items kAdblockAllowedDomainsLegacy Op_AddAllowedDomain s4"
  have final: "MigrateLegacyPrefs env s = migrate_items kAdblockCustomFiltersLegacy Op_AddCustomFilter s5"
    by (simp add: MigrateLegacyPrefs_def Let_def s1_def s2_def s3_def s4_def s5_def)
  note 1 = migratesD [OF SetAcceptableAds_migrates assms, of env, folded s1_def]
  note 2 = migratesD [OF SetAdblockEnabled_migrates 1(2), folded s2_def]
  note 3 = migratesD [OF migrate_items_migrates 2(2), of kAdblockCustomSubscriptionsLegacy ?u, folded s3_def]
  note 4 = migratesD [OF migrate_items_migrates 3(2), of kAdblockSubscriptionsLegacy ?u, folded s4_def]
  note 5 = migratesD [OF migrate_items_migrates 4(2), of kAdblockAllowedDomainsLegacy Op_AddAllowedDomain, folded s5_def]
  note 6 = migratesD [OF migrate_items_migrates 5(2), of kAdblockCustomFiltersLegacy Op_AddCustomFilter, folded final]
  show "controller_ok (MigrateLegacyPrefs env s)" by (rule 6(2))
  show "ctl_user_prefs (MigrateLegacyPrefs env s) = fold AList.delete legacy_names (ctl_user_prefs s)"
    by (simp add: 1(3) 2(3) 3(3) 4(3) 5(3) 6(3) legacy_names_def)
  show "controller_settings (MigrateLegacyPrefs env s) =
      fold change_settings (migration_ops env (ctl_user_prefs s)) (controller_settings s)"
    by (simp add: 1(1,3) 2(1,3) 3(1,3) 4(1,3) 5(1,3) 6(1,3) migration_ops_def) (simp add: pref_names)
qed

lemma fold_delete_keys: "fst ` set (fold AList.delete ns user) = fst ` set user - set ns"
proof (induction ns arbitrary: user)
  case (Cons n ns)
  have "fst ` set (AList.delete n user) = fst ` set user - {n}" by (force simp: AList.delete_eq)
  then show ?case using Cons by auto
qed simp

lemma fold_delete_other: "k \<notin> set ns \<Longrightarrow> map_of (fold AList.delete ns user) k = map_of user k"
  by (induction ns arbitrary: user) (auto simp: AList.delete_conv')

lemma nothing_legacy:
  assumes "fst ` set user \<inter> set legacy_names = {}"
  shows "migration_ops env user = []"
proof -
  have "\<not> HasUserSetting user n" if "n \<in> set legacy_names" for n
    using assms that by (auto simp: HasUserSetting_def)
  then show ?thesis by (simp add: migration_ops_def legacy_bool_def legacy_items_def legacy_names_def)
qed

section \<open>Properties\<close>

text \<open>The first run adds to the filter lists exactly the lists that are always recommended (without Acceptable
  Ads when the switch forbids them) and those for the language, or the default list when the language has
  none; it changes no other setting, and it does not run twice.\<close>

theorem first_run_installs_the_recommended_lists:
  assumes "controller_ok s" "GetBoolean (ctl_user_prefs s) kInstallFirstStartSubscriptions"
  shows "controller_settings (RunFirstRunLogic env b s) = (controller_settings s)
      \<lparr>set_lists := fold add_once (map spec (first_run_urls env b (ctl_language s) (ctl_known_subscriptions s)))
         (set_lists (controller_settings s))\<rparr> \<and>
    RunFirstRunLogic env b' (RunFirstRunLogic env b s) = RunFirstRunLogic env b s"
  by (simp add: first_run_done) (simp add: RunFirstRunLogic_eq assms(2) on_all_settings [OF assms(1)] fold_add_lists
      [unfolded list.map_comp])

definition example_config_env :: config_env where
  "example_config_env =
     \<lparr>ce_parse_url = (\<lambda>s. simple_gurl (if s = ''https://easylist-downloads.adblockplus.org'' then s @ ''/'' else s)),
      ce_SetPort = (\<lambda>p u. u), ce_port_for_testing = 0\<rparr>"

definition example_controller :: "string \<Rightarrow> controller" where
  "example_controller lang = new_AdblockController (new_FilteringConfiguration [] ''adblock'') [] [] lang
     (GetKnownSubscriptions example_config_env)"

lemma example_controller_ok: "controller_ok (example_controller lang)"
  by (simp add: controller_ok_def example_controller_def new_AdblockController_def config_ok_def
      new_FilteringConfiguration_def SetDefaultValues_ok)

lemma example_controller_first: "GetBoolean (ctl_user_prefs (example_controller lang)) kInstallFirstStartSubscriptions"
  by (simp add: example_controller_def new_AdblockController_def) code_simp

theorem first_run_installs_the_recommended_lists_witness:
  "set_lists (controller_settings (RunFirstRunLogic example_config_env True (example_controller ''de''))) =
     [''https://easylist-downloads.adblockplus.org/abp-filters-anti-cv.txt'',
      ''https://easylist-downloads.adblockplus.org/easylistgermany+easylist.txt'']"
proof -
  have "fold add_once (map spec (first_run_urls example_config_env True (ctl_language (example_controller ''de''))
      (ctl_known_subscriptions (example_controller ''de'')))) (set_lists (controller_settings (example_controller ''de''))) =
     [''https://easylist-downloads.adblockplus.org/abp-filters-anti-cv.txt'',
      ''https://easylist-downloads.adblockplus.org/easylistgermany+easylist.txt'']"
    by code_simp
  then show ?thesis
    using first_run_installs_the_recommended_lists [OF example_controller_ok example_controller_first] by simp
qed

text \<open>With the lists the browser knows, the first run chooses for every language Acceptable Ads, the ABP
  filters, and exactly one more list: the one that names the language, or EasyList when none does.\<close>

theorem one_list_for_every_language:
  "\<exists>u. first_run_urls env False lang (GetKnownSubscriptions env) = [AcceptableAdsUrl env, AntiCVUrl env, u] \<and>
    (if list_ex (\<lambda>k. lang \<in> set (ks_languages k)) (GetKnownSubscriptions env)
     then list_ex (\<lambda>k. lang \<in> set (ks_languages k) \<and> u = ks_url k) (GetKnownSubscriptions env)
     else u = DefaultSubscriptionUrl env)"
  by (rule known_first_run)

text \<open>The migration turns the settings of earlier versions into operations on the configuration, in the
  order Acceptable Ads, switch, custom lists, lists, domains, filters; it removes those settings and no
  other, and a second migration does nothing to the configuration.\<close>

theorem migration_takes_over_the_legacy_settings:
  assumes "controller_ok s"
  shows "controller_settings (MigrateLegacyPrefs env s) =
      fold change_settings (migration_ops env (ctl_user_prefs s)) (controller_settings s) \<and>
    fst ` set (ctl_user_prefs (MigrateLegacyPrefs env s)) = fst ` set (ctl_user_prefs s) - set legacy_names \<and>
    controller_settings (MigrateLegacyPrefs env (MigrateLegacyPrefs env s)) =
      controller_settings (MigrateLegacyPrefs env s)"
proof -
  note effect = MigrateLegacyPrefs_effect [OF assms]
  have keys: "fst ` set (ctl_user_prefs (MigrateLegacyPrefs env s)) = fst ` set (ctl_user_prefs s) - set legacy_names"
    by (simp add: effect(3) fold_delete_keys)
  then have "migration_ops env (ctl_user_prefs (MigrateLegacyPrefs env s)) = []" by (intro nothing_legacy) auto
  then show ?thesis using effect(1) keys MigrateLegacyPrefs_effect(1) [OF effect(2), of env env] by simp
qed

definition example_legacy :: controller where
  "example_legacy = (example_controller ''en'')\<lparr>ctl_user_prefs :=
     [(kEnableAdblockLegacy, BoolValue False), (kAdblockAllowedDomainsLegacy, ListValue [StringValue ''a.com'', IntValue 3]),
      (kAdblockMoreOptionsEnabled, BoolValue True)]\<rparr>"

theorem migration_takes_over_the_legacy_settings_witness:
  "set_domains (controller_settings (MigrateLegacyPrefs example_config_env example_legacy)) = [''a.com''] \<and>
   \<not> set_enabled (controller_settings (MigrateLegacyPrefs example_config_env example_legacy))"
proof -
  have ok: "controller_ok example_legacy" by (simp add: example_legacy_def example_controller_ok)
  have "set_domains (fold change_settings (migration_ops example_config_env (ctl_user_prefs example_legacy))
      (controller_settings example_legacy)) = [''a.com'']"
    "\<not> set_enabled (fold change_settings (migration_ops example_config_env (ctl_user_prefs example_legacy))
      (controller_settings example_legacy))" by code_simp+
  then show ?thesis using migration_takes_over_the_legacy_settings [OF ok] by metis
qed

end
