(* ===== verification/Subscription_Downloader.thy ===== *)
theory Subscription_Downloader
  imports Persistent_Metadata Subscription_Config Converter
begin

text \<open>
  \<open>subscription/ongoing_subscription_request_impl.cc\<close> and \<open>subscription/subscription_downloader_impl.cc\<close>:
  requests for filter lists, with retries and redirects. The network, the timers and the conversion of a
  downloaded file are the environment: an event says that one of them is done. A callback is an
  identifier, and running it an effect that is returned. URL replacement and escaping are parameters. The query a list is asked with, and the version taken from the
  date of an answer (\<open>Common\<close>), are written out.
\<close>

section \<open>One request\<close>

datatype Method = GET | HEAD

text \<open>Waiting for the network, waiting for the retry timer, or neither.\<close>

datatype request_phase = Quiet | Loading | Waiting_to_retry

record ongoing_request =
  rq_url :: gurl
  rq_method :: Method
  rq_phase :: request_phase
  rq_failures :: nat
  rq_number_of_redirects :: nat
  rq_has_loader_factory :: bool

definition new_OngoingSubscriptionRequest :: "bool \<Rightarrow> ongoing_request" where
  "new_OngoingSubscriptionRequest has_loader_factory =
     \<lparr>rq_url = empty_gurl, rq_method = GET, rq_phase = Quiet, rq_failures = 0, rq_number_of_redirects = 0,
      rq_has_loader_factory = has_loader_factory\<rparr>"

definition StartInternal :: "ongoing_request \<Rightarrow> ongoing_request" where
  "StartInternal r = (if \<not> rq_has_loader_factory r then r else r\<lparr>rq_phase := Loading\<rparr>)"

definition Request_Start :: "gurl \<Rightarrow> Method \<Rightarrow> ongoing_request \<Rightarrow> ongoing_request" where
  "Request_Start url method r = StartInternal (r\<lparr>rq_url := url, rq_method := method\<rparr>)"

definition Request_Retry :: "ongoing_request \<Rightarrow> ongoing_request" where
  "Request_Retry r =
     (if \<not> rq_has_loader_factory r then r
      else r\<lparr>rq_failures := rq_failures r + 1, rq_phase := Waiting_to_retry\<rparr>)"

definition Request_Redirect :: "gurl \<Rightarrow> ongoing_request \<Rightarrow> ongoing_request" where
  "Request_Redirect redirect_to r =
     StartInternal (r\<lparr>rq_number_of_redirects := rq_number_of_redirects r + 1, rq_url := redirect_to\<rparr>)"

section \<open>Addresses\<close>

record download_env =
  de_SetQuery :: "string \<Rightarrow> gurl \<Rightarrow> gurl"
  de_ClearQuery :: "gurl \<Rightarrow> gurl"
  de_IsLocalhost :: "gurl \<Rightarrow> bool"
  de_EscapeQueryParamValue :: "string \<Rightarrow> string"
  de_client_metadata :: AppInfo
  de_metadata :: metadata_env
  de_has_network :: bool

definition GetClampedDownloadCount :: "int \<Rightarrow> string" where
  "GetClampedDownloadCount n = (if n > 4 then ''4+'' else decimal (nat n))"

definition AddUrlParameters :: "download_env \<Rightarrow> PersistentMetadata \<Rightarrow> bool \<Rightarrow> gurl \<Rightarrow> gurl" where
  "AddUrlParameters env m is_disabled list_url =
     de_SetQuery env
       (concat
         [''addonName='', ''eyeo-chromium-sdk'', ''&addonVersion='', ''1.0'',
          ''&application='', de_EscapeQueryParamValue env (app_name (de_client_metadata env)),
          ''&applicationVersion='', de_EscapeQueryParamValue env (app_version (de_client_metadata env)),
          ''&platform='', de_EscapeQueryParamValue env (client_os (de_client_metadata env)),
          ''&platformVersion='', ''1.0'',
          ''&lastVersion='', de_EscapeQueryParamValue env (GetVersion list_url m),
          ''&disabled='', if is_disabled then ''true'' else ''false'',
          ''&downloadCount='', GetClampedDownloadCount (GetDownloadSuccessCount list_url m)])
       list_url"

definition IsUrlAllowed :: "download_env \<Rightarrow> gurl \<Rightarrow> bool" where
  "IsUrlAllowed env list_url =
     (if de_IsLocalhost env list_url then True
      else if scheme list_url \<noteq> ''https'' \<and> scheme list_url \<noteq> ''data'' then False
      else True)"

section \<open>The downloader\<close>

datatype RetryPolicy = RetryUntilSucceeded | DoNotRetry

record 'cb ongoing_download =
  od_request :: ongoing_request
  od_policy :: RetryPolicy
  od_callback :: 'cb

record 'cb downloader =
  ongoing_downloads :: "(gurl \<times> 'cb ongoing_download) list"
  ongoing_ping :: "(ongoing_request \<times> 'cb) option"
  ongoing_conversions :: "gurl list"

datatype 'cb download_effect =
    Download_completed 'cb "flat_Subscription option"
  | Head_request_done 'cb string

definition no_downloads :: "'cb downloader" where
  "no_downloads = \<lparr>ongoing_downloads = [], ongoing_ping = None, ongoing_conversions = []\<rparr>"

definition kMaxNumberOfRedirects :: nat where
  "kMaxNumberOfRedirects = 5"

definition StartDownload :: "download_env \<Rightarrow> PersistentMetadata \<Rightarrow> gurl \<Rightarrow> RetryPolicy \<Rightarrow> 'cb \<Rightarrow> 'cb downloader \<Rightarrow>
    'cb downloader \<times> 'cb download_effect list" where
  "StartDownload env m list_url retry_policy on_finished d =
     (if \<not> IsUrlAllowed env list_url then (d, [Download_completed on_finished None])
      else
        (let r = Request_Start (AddUrlParameters env m False list_url) GET
                   (new_OngoingSubscriptionRequest (de_has_network env))
         in (d\<lparr>ongoing_downloads := AList.update list_url
                 \<lparr>od_request = r, od_policy = retry_policy, od_callback = on_finished\<rparr> (ongoing_downloads d)\<rparr>, [])))"

definition CancelDownload :: "gurl \<Rightarrow> 'cb downloader \<Rightarrow> 'cb downloader" where
  "CancelDownload list_url d =
     d\<lparr>ongoing_downloads := AList.delete list_url (ongoing_downloads d)\<rparr>"

definition DoHeadRequest :: "download_env \<Rightarrow> PersistentMetadata \<Rightarrow> gurl \<Rightarrow> 'cb \<Rightarrow> 'cb downloader \<Rightarrow>
    'cb downloader \<times> 'cb download_effect list" where
  "DoHeadRequest env m list_url on_finished d =
     (let cancelled = (case ongoing_ping d of None \<Rightarrow> [] | Some (_, callback) \<Rightarrow> [Head_request_done callback []]);
          r = Request_Start (AddUrlParameters env m True list_url) HEAD
                (new_OngoingSubscriptionRequest (de_has_network env))
      in (d\<lparr>ongoing_ping := Some (r, on_finished)\<rparr>, cancelled))"

text \<open>\<open>None\<close>: there is no ping, or no download of that URL, which the code takes for granted.\<close>

definition OnHeadersOnlyDownloaded :: "exploded_time option \<Rightarrow> 'cb downloader \<Rightarrow> ('cb downloader \<times> 'cb download_effect list) option"
where
  "OnHeadersOnlyDownloaded date d =
     (case ongoing_ping d of
        None \<Rightarrow> None
      | Some (_, callback) \<Rightarrow>
          (let version = (case date of None \<Rightarrow> [] | Some e \<Rightarrow> ConvertBaseTimeToABPFilterVersionFormat e)
           in Some (d\<lparr>ongoing_ping := None\<rparr>, [Head_request_done callback version])))"

definition OnDownloadFinished :: "download_env \<Rightarrow> gurl \<Rightarrow> bool \<Rightarrow> PersistentMetadata \<times> 'cb downloader \<Rightarrow>
    ((PersistentMetadata \<times> 'cb downloader) \<times> 'cb download_effect list) option" where
  "OnDownloadFinished env list_url downloaded = (\<lambda>(m, d).
     case map_of (ongoing_downloads d) list_url of
       None \<Rightarrow> None
     | Some dl \<Rightarrow>
         if \<not> downloaded then
           (let m = IncrementDownloadErrorCount (de_metadata env) list_url m
            in if od_policy dl = RetryUntilSucceeded
               then Some ((m, d\<lparr>ongoing_downloads := AList.update list_url
                                 (dl\<lparr>od_request := Request_Retry (od_request dl)\<rparr>) (ongoing_downloads d)\<rparr>), [])
               else Some ((m, d\<lparr>ongoing_downloads := AList.delete list_url (ongoing_downloads d)\<rparr>),
                          [Download_completed (od_callback dl) None]))
         else Some ((m, d\<lparr>ongoing_conversions := list_url # ongoing_conversions d\<rparr>), []))"

definition AbortWithWarning :: "gurl \<Rightarrow> 'cb downloader \<Rightarrow> 'cb downloader \<times> 'cb download_effect list" where
  "AbortWithWarning key d =
     (case map_of (ongoing_downloads d) key of
        None \<Rightarrow> (d, [])
      | Some dl \<Rightarrow> (d\<lparr>ongoing_downloads := AList.delete key (ongoing_downloads d)\<rparr>,
                   [Download_completed (od_callback dl) None]))"

text \<open>The download moves to the key of the redirect. If that URL is already being downloaded, \<open>insert\<close> keeps
  the download that is there and drops the one that moved, with its callback; the redirect then goes to the
  one that was there.\<close>

definition redirect_download :: "download_env \<Rightarrow> PersistentMetadata \<Rightarrow> gurl \<Rightarrow> gurl \<Rightarrow> 'cb ongoing_download \<Rightarrow>
    'cb downloader \<Rightarrow> 'cb downloader" where
  "redirect_download env m list_url redirect_to dl d =
     (let extracted = AList.delete list_url (ongoing_downloads d);
          redirected = (case map_of extracted redirect_to of Some there \<Rightarrow> there | None \<Rightarrow> dl);
          r = Request_Redirect (AddUrlParameters env m False redirect_to) (od_request redirected)
      in d\<lparr>ongoing_downloads := AList.update redirect_to (redirected\<lparr>od_request := r\<rparr>) extracted\<rparr>)"

definition OnConversionFinished :: "download_env \<Rightarrow> gurl \<Rightarrow> ConversionResult \<Rightarrow> PersistentMetadata \<times> 'cb downloader \<Rightarrow>
    (PersistentMetadata \<times> 'cb downloader) \<times> 'cb download_effect list" where
  "OnConversionFinished env list_url converter_result = (\<lambda>(m, d).
     case map_of (ongoing_downloads d) list_url of
       None \<Rightarrow> ((m, d), [])
     | Some dl \<Rightarrow>
         (case converter_result of
            Converted raw_data \<Rightarrow>
              ((m, d\<lparr>ongoing_downloads := AList.delete list_url (ongoing_downloads d)\<rparr>),
               [Download_completed (od_callback dl) (Some raw_data)])
          | Redirect redirect_to \<Rightarrow>
              if \<not> IsUrlAllowed env redirect_to then
                (let (d, e) = AbortWithWarning list_url d in ((m, d), e))
              else if redirect_to = list_url then
                (let (d, e) = AbortWithWarning list_url d in ((m, d), e))
              else if rq_number_of_redirects (od_request dl) \<ge> kMaxNumberOfRedirects then
                (let (d, e) = AbortWithWarning list_url d in ((m, d), e))
              else ((m, redirect_download env m list_url redirect_to dl d), [])
          | ConversionError reason \<Rightarrow>
              (let m = IncrementDownloadErrorCount (de_metadata env) list_url m;
                   (d, e) = AbortWithWarning list_url d
               in ((m, d), e))))"

section \<open>Events\<close>

text \<open>What the environment can do next: end a request that is loading, let a retry timer fire, end a conversion
  that was started.\<close>

datatype download_event =
    Request_done gurl bool
  | Retry_timer gurl
  | Conversion_done gurl ConversionResult
  | Headers_received "exploded_time option"

definition set_phase :: "request_phase \<Rightarrow> gurl \<Rightarrow> 'cb ongoing_download \<Rightarrow> 'cb downloader \<Rightarrow> 'cb downloader" where
  "set_phase phase key dl d =
     d\<lparr>ongoing_downloads := AList.update key (dl\<lparr>od_request := (od_request dl)\<lparr>rq_phase := phase\<rparr>\<rparr>) (ongoing_downloads d)\<rparr>"

fun event_possible :: "download_event \<Rightarrow> 'cb downloader \<Rightarrow> bool" where
  "event_possible (Request_done key downloaded) d =
     (case map_of (ongoing_downloads d) key of Some dl \<Rightarrow> rq_phase (od_request dl) = Loading | None \<Rightarrow> False)"
| "event_possible (Retry_timer key) d =
     (case map_of (ongoing_downloads d) key of Some dl \<Rightarrow> rq_phase (od_request dl) = Waiting_to_retry | None \<Rightarrow> False)"
| "event_possible (Conversion_done url result) d \<longleftrightarrow> url \<in> set (ongoing_conversions d)"
| "event_possible (Headers_received date) d \<longleftrightarrow> ongoing_ping d \<noteq> None"

text \<open>The response callback gets the URL of the request without its query.\<close>

fun download_step :: "download_env \<Rightarrow> download_event \<Rightarrow> PersistentMetadata \<times> 'cb downloader \<Rightarrow>
    ((PersistentMetadata \<times> 'cb downloader) \<times> 'cb download_effect list) option" where
  "download_step env (Request_done key downloaded) (m, d) =
     (case map_of (ongoing_downloads d) key of
        None \<Rightarrow> None
      | Some dl \<Rightarrow> OnDownloadFinished env (de_ClearQuery env (rq_url (od_request dl))) downloaded
                    (m, set_phase Quiet key dl d))"
| "download_step env (Retry_timer key) (m, d) =
     (case map_of (ongoing_downloads d) key of
        None \<Rightarrow> None
      | Some dl \<Rightarrow> Some ((m, d\<lparr>ongoing_downloads := AList.update key
                                (dl\<lparr>od_request := StartInternal (od_request dl)\<rparr>) (ongoing_downloads d)\<rparr>), []))"
| "download_step env (Conversion_done url result) (m, d) =
     Some (OnConversionFinished env url result
             (m, d\<lparr>ongoing_conversions := remove1 url (ongoing_conversions d)\<rparr>))"
| "download_step env (Headers_received date) (m, d) =
     (case OnHeadersOnlyDownloaded date d of None \<Rightarrow> None | Some (d, e) \<Rightarrow> Some ((m, d), e))"

end
