(* ===== verification/Preloaded_Provider.thy ===== *)
theory Preloaded_Provider
  imports Subscription_Config Installed_Subscription
begin

text \<open>
  \<open>subscription/preloaded_subscription_provider_impl.cc\<close>: lists that come with the browser and stand in for
  lists that are being downloaded. Matching a wildcard (\<open>base::MatchPattern\<close>) and the contents of the
  resources are parameters.
\<close>

record preloaded_env =
  pe_MatchPattern :: "string \<Rightarrow> string \<Rightarrow> bool"
  pe_resource :: "resource_id \<Rightarrow> flat_Subscription"
  pe_net :: net_env

record SingleSubscriptionProvider =
  sp_info :: PreloadedSubscriptionInfo
  sp_subscription :: "InstalledSubscriptionImpl option"

record PreloadedSubscriptionProvider =
  installed_subscriptions :: "gurl list"
  pending_subscriptions :: "gurl list"
  providers :: "SingleSubscriptionProvider list"

definition HasSubscriptionWithMatchingUrl :: "preloaded_env \<Rightarrow> gurl list \<Rightarrow> string \<Rightarrow> bool" where
  "HasSubscriptionWithMatchingUrl env collection wildcard =
     list_ex (\<lambda>url. pe_MatchPattern env (spec url) wildcard) collection"

definition UpdatePreloadedSubscription ::
  "preloaded_env \<Rightarrow> gurl list \<Rightarrow> gurl list \<Rightarrow> SingleSubscriptionProvider \<Rightarrow> SingleSubscriptionProvider" where
  "UpdatePreloadedSubscription env installed pending p =
     (let needs_subscription = HasSubscriptionWithMatchingUrl env pending (pi_url_pattern (sp_info p)) \<and>
            \<not> HasSubscriptionWithMatchingUrl env installed (pi_url_pattern (sp_info p))
      in if needs_subscription \<and> sp_subscription p = None then
           p\<lparr>sp_subscription := Some (new_InstalledSubscriptionImpl (pe_net env)
               (pe_resource env (pi_flatbuffer_resource_id (sp_info p))) Preloaded 0)\<rparr>
         else if \<not> needs_subscription \<and> sp_subscription p \<noteq> None then p\<lparr>sp_subscription := None\<rparr>
         else p)"

definition new_PreloadedSubscriptionProvider :: PreloadedSubscriptionProvider where
  "new_PreloadedSubscriptionProvider =
     \<lparr>installed_subscriptions = [], pending_subscriptions = [],
      providers = map (\<lambda>info. \<lparr>sp_info = info, sp_subscription = None\<rparr>) GetPreloadedSubscriptionConfiguration\<rparr>"

definition UpdateSubscriptions ::
  "preloaded_env \<Rightarrow> gurl list \<Rightarrow> gurl list \<Rightarrow> PreloadedSubscriptionProvider \<Rightarrow> PreloadedSubscriptionProvider" where
  "UpdateSubscriptions env installed pending p =
     p\<lparr>installed_subscriptions := installed, pending_subscriptions := pending,
       providers := map (UpdatePreloadedSubscription env installed pending) (providers p)\<rparr>"

definition GetCurrentPreloadedSubscriptions :: "PreloadedSubscriptionProvider \<Rightarrow> InstalledSubscriptionImpl list" where
  "GetCurrentPreloadedSubscriptions p = List.map_filter sp_subscription (providers p)"

section \<open>Which lists are provided\<close>

definition preloaded_subscription :: "preloaded_env \<Rightarrow> PreloadedSubscriptionInfo \<Rightarrow> InstalledSubscriptionImpl" where
  "preloaded_subscription env info =
     new_InstalledSubscriptionImpl (pe_net env) (pe_resource env (pi_flatbuffer_resource_id info)) Preloaded 0"

definition needed :: "preloaded_env \<Rightarrow> gurl list \<Rightarrow> gurl list \<Rightarrow> PreloadedSubscriptionInfo \<Rightarrow> bool" where
  "needed env installed pending info \<longleftrightarrow>
     (\<exists>u\<in>set pending. pe_MatchPattern env (spec u) (pi_url_pattern info)) \<and>
     (\<forall>u\<in>set installed. \<not> pe_MatchPattern env (spec u) (pi_url_pattern info))"

text \<open>The providers are those of the configuration, and each holds its own list or none.\<close>

definition provider_ok :: "preloaded_env \<Rightarrow> PreloadedSubscriptionProvider \<Rightarrow> bool" where
  "provider_ok env p \<longleftrightarrow> map sp_info (providers p) = GetPreloadedSubscriptionConfiguration \<and>
     (\<forall>q\<in>set (providers p). sp_subscription q \<in> {None, Some (preloaded_subscription env (sp_info q))})"

lemma new_provider_ok: "provider_ok env new_PreloadedSubscriptionProvider"
  by (auto simp: provider_ok_def new_PreloadedSubscriptionProvider_def comp_def)

lemma UpdatePreloaded_eq:
  "sp_subscription q \<in> {None, Some (preloaded_subscription env (sp_info q))} \<Longrightarrow>
    UpdatePreloadedSubscription env installed pending q =
      \<lparr>sp_info = sp_info q, sp_subscription =
        (if needed env installed pending (sp_info q) then Some (preloaded_subscription env (sp_info q)) else None)\<rparr>"
  by (cases q) (auto simp: UpdatePreloadedSubscription_def Let_def needed_def HasSubscriptionWithMatchingUrl_def
      list_ex_iff preloaded_subscription_def)

lemma UpdateSubscriptions_providers:
  assumes "provider_ok env p"
  shows "providers (UpdateSubscriptions env installed pending p) =
    map (\<lambda>info. \<lparr>sp_info = info, sp_subscription =
      (if needed env installed pending info then Some (preloaded_subscription env info) else None)\<rparr>)
      GetPreloadedSubscriptionConfiguration"
proof -
  have "map (UpdatePreloadedSubscription env installed pending) (providers p) =
      map ((\<lambda>info. \<lparr>sp_info = info, sp_subscription =
        (if needed env installed pending info then Some (preloaded_subscription env info) else None)\<rparr>) \<circ> sp_info)
        (providers p)"
    using assms by (intro map_cong refl) (simp add: provider_ok_def UpdatePreloaded_eq)
  then show ?thesis using assms by (simp add: UpdateSubscriptions_def provider_ok_def flip: map_map)
qed

lemma UpdateSubscriptions_ok:
  assumes "provider_ok env p"
  shows "provider_ok env (UpdateSubscriptions env installed pending p)"
  using UpdateSubscriptions_providers [OF assms] by (auto simp: provider_ok_def comp_def)

lemma GetCurrentPreloaded_eq:
  assumes "provider_ok env p"
  shows "GetCurrentPreloadedSubscriptions (UpdateSubscriptions env installed pending p) =
    map (preloaded_subscription env) (filter (needed env installed pending) GetPreloadedSubscriptionConfiguration)"
proof -
  let ?f = "\<lambda>info. \<lparr>sp_info = info, sp_subscription =
      (if needed env installed pending info then Some (preloaded_subscription env info) else None)\<rparr>"
  have "List.map_filter sp_subscription (map ?f xs) =
      map (preloaded_subscription env) (filter (needed env installed pending) xs)" for xs
    by (induction xs) (simp_all add: map_filter_simps)
  then show ?thesis
    unfolding GetCurrentPreloadedSubscriptions_def UpdateSubscriptions_providers [OF assms] .
qed

end
