(* ===== verification/Maintainer.thy ===== *)
theory Maintainer
  imports Subscription_Storage Subscription_Downloader Preloaded_Provider Subscription_Collection
    "HOL-Library.Monad_Syntax"
begin

text \<open>
  \<open>subscription/filtering_configuration_maintainer_impl.cc\<close>, with the parts of
  \<open>chrome/browser/adblock/subscription_service_factory.cc\<close> that put it together and the schedule of
  \<open>subscription_updater_impl.cc\<close>: it keeps the subscriptions of one configuration in step with the lists the
  configuration asks for. Its storage, its downloader and the preloaded lists are the models of those
  components; the metadata they share is the one in the storage. A callback of the downloader is the
  number of the installation that waits for it. Loading the stored lists has three steps, as in the code: the
  maintainer posts the task, the thread pool reads the directory, and the reply makes the maintainer ready; until
  then it knows no lists and does not react to changes of the filter lists. \<open>None\<close> stands for a call that the code forbids
  (removing a subscription that the storage does not know), or for a step that is not due.
\<close>

section \<open>State\<close>

record maintainer_env =
  me_storage :: "flat_Subscription storage_env"
  me_download :: download_env
  me_config :: config_env
  me_preloaded :: preloaded_env
  me_schema_version :: string

text \<open>The load of the stored lists: the signatures that the task on the thread pool was given, and the files that its
  reply brings.\<close>

datatype load_state =
    Not_loading
  | Reading "(string \<times> string) list"
  | Files_read "(string \<times> flat_Subscription) list"

text \<open>\<open>ongoing_installations_\<close> is a set of pointers, here of numbered URLs. The subscriptions that are being
  written to disk wait in \<open>mt_storing\<close>.\<close>

record maintainer =
  mt_configuration :: FilteringConfiguration
  mt_configuration_prefs :: dict
  mt_initialized :: bool
  mt_loading :: load_state
  mt_current_state :: "stored_subscription list"
  mt_ongoing_installations :: "(nat \<times> gurl) list"
  mt_next_installation :: nat
  mt_storage :: "flat_Subscription storage"
  mt_downloader :: "nat downloader"
  mt_preloaded :: PreloadedSubscriptionProvider
  mt_custom_filters :: "InstalledSubscriptionImpl option"
  mt_storing :: "(nat \<times> flat_Subscription) list"
  mt_schedule_running :: bool
  mt_updated :: "gurl list"

definition source_url :: "maintainer_env \<Rightarrow> stored_subscription \<Rightarrow> gurl" where
  "source_url env x = GetSourceUrl (env_net (me_storage env)) (ss_subscription x)"

definition GetReadySubscriptions :: "maintainer_env \<Rightarrow> maintainer \<Rightarrow> gurl list" where
  "GetReadySubscriptions env s = map (source_url env) (mt_current_state s)"

definition GetPendingSubscriptions :: "maintainer \<Rightarrow> gurl list" where
  "GetPendingSubscriptions s = map snd (mt_ongoing_installations s)"

definition mt_filter_lists :: "maintainer_env \<Rightarrow> maintainer \<Rightarrow> gurl list" where
  "mt_filter_lists env s = GetFilterLists (ce_parse_url (me_config env)) (mt_configuration s)"

definition UpdatePreloadedSubscriptionProvider :: "maintainer_env \<Rightarrow> maintainer \<Rightarrow> maintainer" where
  "UpdatePreloadedSubscriptionProvider env s =
     s\<lparr>mt_preloaded := UpdateSubscriptions (me_preloaded env) (GetReadySubscriptions env s)
         (GetPendingSubscriptions s) (mt_preloaded s)\<rparr>"

section \<open>What is installed\<close>

text \<open>The subscriptions of a snapshot: installed ones, custom filters, preloaded ones.\<close>

definition GetSubscriptionCollection :: "maintainer \<Rightarrow> SubscriptionCollection" where
  "GetSubscriptionCollection s =
     map ss_subscription (mt_current_state s) @
     (case mt_custom_filters s of Some c \<Rightarrow> [c] | None \<Rightarrow> []) @
     GetCurrentPreloadedSubscriptions (mt_preloaded s)"

datatype listed_subscription =
    Listed InstalledSubscriptionImpl
  | Ongoing gurl

definition listed_url :: "maintainer_env \<Rightarrow> listed_subscription \<Rightarrow> gurl" where
  "listed_url env x =
     (case x of Listed i \<Rightarrow> GetSourceUrl (env_net (me_storage env)) i | Ongoing u \<Rightarrow> u)"

text \<open>\<open>copy_if\<close> looks for the URL in \<open>result\<close> while it grows.\<close>

fun append_ongoing :: "maintainer_env \<Rightarrow> gurl list \<Rightarrow> listed_subscription list \<Rightarrow> listed_subscription list" where
  "append_ongoing env [] result = result"
| "append_ongoing env (u # us) result =
     (if u \<in> listed_url env ` set result then append_ongoing env us result
      else append_ongoing env us (result @ [Ongoing u]))"

definition GetCurrentSubscriptions :: "maintainer_env \<Rightarrow> maintainer \<Rightarrow> listed_subscription list" where
  "GetCurrentSubscriptions env s =
     append_ongoing env (GetPendingSubscriptions s)
       (map (Listed \<circ> ss_subscription) (mt_current_state s) @
        map Listed (GetCurrentPreloadedSubscriptions (mt_preloaded s)))"

section \<open>Custom filters\<close>

definition ConvertCustomFilters :: "maintainer_env \<Rightarrow> string list \<Rightarrow> InstalledSubscriptionImpl" where
  "ConvertCustomFilters env filters =
     new_InstalledSubscriptionImpl (env_net (me_storage env))
       (ConvertFilters (me_schema_version env) filters (CustomFiltersUrl (me_config env)) True) Installed 0"

definition SetCustomFilters :: "maintainer_env \<Rightarrow> maintainer \<Rightarrow> maintainer" where
  "SetCustomFilters env s =
     (let filters = GetCustomFilters (mt_configuration s) @
            map CreateDomainAllowlistingFilter (GetAllowedDomains (mt_configuration s))
      in if filters = [] then s\<lparr>mt_custom_filters := None\<rparr>
         else s\<lparr>mt_custom_filters := Some (ConvertCustomFilters env filters)\<rparr>)"

section \<open>Installing\<close>

definition OnSubscriptionDataAvailable ::
  "maintainer_env \<Rightarrow> nat \<Rightarrow> flat_Subscription option \<Rightarrow> maintainer \<Rightarrow> maintainer" where
  "OnSubscriptionDataAvailable env ongoing_installation raw_data s =
     (if ongoing_installation \<notin> fst ` set (mt_ongoing_installations s) then UpdatePreloadedSubscriptionProvider env s
      else
        (case raw_data of
           None \<Rightarrow> UpdatePreloadedSubscriptionProvider env
                     (s\<lparr>mt_ongoing_installations := AList.delete ongoing_installation (mt_ongoing_installations s)\<rparr>)
         | Some d \<Rightarrow> s\<lparr>mt_storing := mt_storing s @ [(ongoing_installation, d)]\<rparr>))"

definition kDefaultHeadRequestExpirationInterval :: int where
  "kDefaultHeadRequestExpirationInterval = 24 * 60 * 60 * 1000000"

definition OnHeadRequestDone :: "maintainer_env \<Rightarrow> int \<Rightarrow> string \<Rightarrow> maintainer \<Rightarrow> maintainer" where
  "OnHeadRequestDone env now v s =
     (if v = [] then s
      else
        (let menv = env_metadata (me_storage env);
             u = AcceptableAdsUrl (me_config env);
             m = SetVersion menv u v (st_metadata (mt_storage s));
             m = SetExpirationInterval menv now u kDefaultHeadRequestExpirationInterval m
         in s\<lparr>mt_storage := (mt_storage s)\<lparr>st_metadata := m\<rparr>\<rparr>))"

text \<open>The callbacks that the downloader runs.\<close>

fun run_callback :: "maintainer_env \<Rightarrow> int \<Rightarrow> nat download_effect \<Rightarrow> maintainer \<Rightarrow> maintainer" where
  "run_callback env now (Download_completed i raw_data) = OnSubscriptionDataAvailable env i raw_data"
| "run_callback env now (Head_request_done i v) = OnHeadRequestDone env now v"

definition run_callbacks :: "maintainer_env \<Rightarrow> int \<Rightarrow> nat download_effect list \<Rightarrow> maintainer \<Rightarrow> maintainer" where
  "run_callbacks env now es = fold (run_callback env now) es"

definition DownloadAndInstallSubscription :: "maintainer_env \<Rightarrow> gurl \<Rightarrow> maintainer \<Rightarrow> maintainer" where
  "DownloadAndInstallSubscription env list_url s =
     (let is_an_update = list_ex (\<lambda>candidate. source_url env candidate = list_url) (mt_current_state s);
          retry_policy = (if is_an_update then DoNotRetry else RetryUntilSucceeded);
          ongoing_installation = mt_next_installation s;
          s = s\<lparr>mt_ongoing_installations := mt_ongoing_installations s @ [(ongoing_installation, list_url)],
                mt_next_installation := Suc ongoing_installation\<rparr>;
          s = UpdatePreloadedSubscriptionProvider env s;
          (d, es) = StartDownload (me_download env) (st_metadata (mt_storage s)) list_url retry_policy
                      ongoing_installation (mt_downloader s)
      in run_callbacks env 0 es (s\<lparr>mt_downloader := d\<rparr>))"

section \<open>Uninstalling\<close>

definition storage_remove :: "stored_subscription \<Rightarrow> maintainer \<Rightarrow> maintainer option" where
  "storage_remove x s =
     do { st \<leftarrow> RemoveSubscription (ss_id x) (mt_storage s); Some (s\<lparr>mt_storage := st\<rparr>) }"

fun erase_first :: "('a \<Rightarrow> bool) \<Rightarrow> 'a list \<Rightarrow> 'a list" where
  "erase_first P [] = []"
| "erase_first P (x # xs) = (if P x then xs else x # erase_first P xs)"

definition UninstallSubscriptionInternal :: "maintainer_env \<Rightarrow> gurl \<Rightarrow> maintainer \<Rightarrow> (bool \<times> maintainer) option" where
  "UninstallSubscriptionInternal env list_url s =
     do { (removed, s) \<leftarrow>
            (case List.find (\<lambda>x. source_url env x = list_url) (mt_current_state s) of
               None \<Rightarrow> Some (False, s)
             | Some x \<Rightarrow>
                 do { s \<leftarrow> storage_remove x s;
                      Some (True, s\<lparr>mt_current_state :=
                        erase_first (\<lambda>x. source_url env x = list_url) (mt_current_state s)\<rparr>) });
          (case List.find (\<lambda>(i, u). u = list_url) (mt_ongoing_installations s) of
             None \<Rightarrow> Some (removed, s)
           | Some (i, u) \<Rightarrow>
               Some (True, s\<lparr>mt_ongoing_installations := AList.delete i (mt_ongoing_installations s),
                            mt_downloader := CancelDownload list_url (mt_downloader s)\<rparr>)) }"

definition Maintainer_UninstallSubscription :: "maintainer_env \<Rightarrow> gurl \<Rightarrow> maintainer \<Rightarrow> maintainer option" where
  "Maintainer_UninstallSubscription env list_url s =
     do { (removed, s) \<leftarrow> UninstallSubscriptionInternal env list_url s;
          if \<not> removed then Some s
          else
            (let s = (if list_url \<noteq> AcceptableAdsUrl (me_config env)
                      then s\<lparr>mt_storage := (mt_storage s)\<lparr>st_metadata :=
                             RemoveMetadata (env_metadata (me_storage env)) list_url (st_metadata (mt_storage s))\<rparr>\<rparr>
                      else s)
             in Some (UpdatePreloadedSubscriptionProvider env s)) }"

text \<open>A subscription was written to disk, or could not be.\<close>

definition SubscriptionAddedToStorage ::
  "maintainer_env \<Rightarrow> nat \<Rightarrow> stored_subscription option \<Rightarrow> maintainer \<Rightarrow> maintainer option" where
  "SubscriptionAddedToStorage env ongoing_installation subscription s =
     (if ongoing_installation \<notin> fst ` set (mt_ongoing_installations s) then
        (case subscription of
           None \<Rightarrow> None
         | Some x \<Rightarrow> do { s \<leftarrow> storage_remove x s; Some (UpdatePreloadedSubscriptionProvider env s) })
      else
        (let s = s\<lparr>mt_ongoing_installations := AList.delete ongoing_installation (mt_ongoing_installations s)\<rparr>
         in case subscription of
              None \<Rightarrow> Some (UpdatePreloadedSubscriptionProvider env s)
            | Some x \<Rightarrow>
                do { (existed, s) \<leftarrow> UninstallSubscriptionInternal env (source_url env x) s;
                     (let s = s\<lparr>mt_current_state := mt_current_state s @ [x]\<rparr>;
                          s = UpdatePreloadedSubscriptionProvider env s
                      in Some (s\<lparr>mt_updated := mt_updated s @ [source_url env x]\<rparr>)) }))"

section \<open>In step with the configuration\<close>

text \<open>\<open>std::set_difference\<close> of two sorted ranges of URLs, which are ordered by their specs.\<close>

fun set_difference :: "gurl list \<Rightarrow> gurl list \<Rightarrow> gurl list" where
  "set_difference [] ys = []"
| "set_difference (x # xs) [] = x # xs"
| "set_difference (x # xs) (y # ys) =
     (if spec x < spec y then x # set_difference xs (y # ys)
      else if spec y < spec x then set_difference (x # xs) ys
      else set_difference xs ys)"

definition InstallMissingSubscriptions :: "maintainer_env \<Rightarrow> maintainer \<Rightarrow> maintainer" where
  "InstallMissingSubscriptions env s =
     (let installed = GetReadySubscriptions env s @ GetPendingSubscriptions s;
          demanded = mt_filter_lists env s;
          missing = set_difference (sort_key spec demanded) (sort_key spec installed)
      in fold (DownloadAndInstallSubscription env) missing s)"

fun uninstall_all :: "maintainer_env \<Rightarrow> gurl list \<Rightarrow> maintainer \<Rightarrow> maintainer option" where
  "uninstall_all env [] s = Some s"
| "uninstall_all env (u # us) s = do { s \<leftarrow> Maintainer_UninstallSubscription env u s; uninstall_all env us s }"

definition RemoveUnneededSubscriptions :: "maintainer_env \<Rightarrow> maintainer \<Rightarrow> maintainer option" where
  "RemoveUnneededSubscriptions env s =
     (let installed = GetReadySubscriptions env s @ GetPendingSubscriptions s;
          demanded = mt_filter_lists env s;
          unneeded = set_difference (sort_key spec installed) (sort_key spec demanded)
      in uninstall_all env unneeded s)"

definition OnFilterListsChanged :: "maintainer_env \<Rightarrow> maintainer \<Rightarrow> maintainer option" where
  "OnFilterListsChanged env s =
     (if mt_initialized s then RemoveUnneededSubscriptions env (InstallMissingSubscriptions env s) else Some s)"

definition OnCustomFiltersChanged :: "maintainer_env \<Rightarrow> maintainer \<Rightarrow> maintainer" where
  "OnCustomFiltersChanged env s = SetCustomFilters env s"

definition OnAllowedDomainsChanged :: "maintainer_env \<Rightarrow> maintainer \<Rightarrow> maintainer" where
  "OnAllowedDomainsChanged env s = OnCustomFiltersChanged env s"

section \<open>Starting\<close>

text \<open>\<open>unique_subscriptions\<close> is a set ordered by source URL.\<close>

fun remove_duplicates :: "maintainer_env \<Rightarrow> stored_subscription list \<Rightarrow> stored_subscription list \<Rightarrow> maintainer \<Rightarrow>
    (stored_subscription list \<times> maintainer) option" where
  "remove_duplicates env [] unique s = Some (unique, s)"
| "remove_duplicates env (x # xs) unique s =
     (if list_ex (\<lambda>y. spec (source_url env y) = spec (source_url env x)) unique
      then do { s \<leftarrow> storage_remove x s; remove_duplicates env xs unique s }
      else remove_duplicates env xs (insort_key (\<lambda>y. spec (source_url env y)) x unique) s)"

definition RemoveDuplicateSubscriptions :: "maintainer_env \<Rightarrow> maintainer \<Rightarrow> maintainer option" where
  "RemoveDuplicateSubscriptions env s =
     do { (unique, s) \<leftarrow> remove_duplicates env (mt_current_state s) [] s;
          Some (s\<lparr>mt_current_state := unique\<rparr>) }"

definition StorageInitialized :: "maintainer_env \<Rightarrow> stored_subscription list \<Rightarrow> maintainer \<Rightarrow> maintainer option" where
  "StorageInitialized env loaded_subscriptions s =
     do { s \<leftarrow> RemoveDuplicateSubscriptions env (s\<lparr>mt_current_state := loaded_subscriptions, mt_initialized := True\<rparr>);
          s \<leftarrow> OnFilterListsChanged env s;
          Some ((OnCustomFiltersChanged env s)\<lparr>mt_schedule_running := True\<rparr>) }"

definition InitializeStorage :: "maintainer \<Rightarrow> maintainer" where
  "InitializeStorage s = s\<lparr>mt_loading := Reading (IsSignatureValid (mt_storage s))\<rparr>"

text \<open>The task of the thread pool, and its reply on the main thread.\<close>

definition read_directory :: "maintainer_env \<Rightarrow> (string \<Rightarrow> bool) \<Rightarrow> (string \<Rightarrow> bool) \<Rightarrow> maintainer \<Rightarrow> maintainer option" where
  "read_directory env readable mappable s =
     (case mt_loading s of
        Reading signatures \<Rightarrow>
          (let (files, st) = ReadSubscriptionsFromDirectory (me_storage env) signatures readable mappable (mt_storage s)
           in Some (s\<lparr>mt_storage := st, mt_loading := Files_read files\<rparr>))
      | _ \<Rightarrow> None)"

definition load_replied :: "maintainer_env \<Rightarrow> maintainer \<Rightarrow> maintainer option" where
  "load_replied env s =
     (case mt_loading s of
        Files_read files \<Rightarrow>
          (let (loaded, st) = LoadComplete (me_storage env) files (mt_storage s)
           in StorageInitialized env loaded (s\<lparr>mt_storage := st, mt_loading := Not_loading\<rparr>))
      | _ \<Rightarrow> None)"

definition new_Maintainer :: "FilteringConfiguration \<Rightarrow> dict \<Rightarrow> flat_Subscription storage \<Rightarrow> maintainer" where
  "new_Maintainer configuration prefs st =
     \<lparr>mt_configuration = configuration, mt_configuration_prefs = prefs, mt_initialized = False,
      mt_loading = Not_loading, mt_current_state = [], mt_ongoing_installations = [], mt_next_installation = 1, mt_storage = st,
      mt_downloader = no_downloads, mt_preloaded = new_PreloadedSubscriptionProvider, mt_custom_filters = None,
      mt_storing = [], mt_schedule_running = False, mt_updated = []\<rparr>"

section \<open>Updating\<close>

definition PingAcceptableAds :: "maintainer_env \<Rightarrow> int \<Rightarrow> maintainer \<Rightarrow> maintainer" where
  "PingAcceptableAds env now s =
     (let (d, es) = DoHeadRequest (me_download env) (st_metadata (mt_storage s)) (AcceptableAdsUrl (me_config env)) 0
                      (mt_downloader s)
      in run_callbacks env now es (s\<lparr>mt_downloader := d\<rparr>))"

fun update_expired :: "maintainer_env \<Rightarrow> int \<Rightarrow> stored_subscription list \<Rightarrow> maintainer \<Rightarrow> maintainer" where
  "update_expired env now [] s = s"
| "update_expired env now (x # xs) s =
     (let url = source_url env x
      in if IsExpired now url (st_metadata (mt_storage s)) \<and> url \<notin> set (GetPendingSubscriptions s)
         then update_expired env now xs (DownloadAndInstallSubscription env url s)
         else update_expired env now xs s)"

definition RunUpdateCheck :: "maintainer_env \<Rightarrow> int \<Rightarrow> maintainer \<Rightarrow> maintainer" where
  "RunUpdateCheck env now s =
     (let s = update_expired env now (mt_current_state s) s;
          acceptable_ads = AcceptableAdsUrl (me_config env)
      in if cfg_name (mt_configuration s) = ''adblock'' \<and>
            acceptable_ads \<notin> listed_url env ` set (GetCurrentSubscriptions env s) \<and>
            IsExpired now acceptable_ads (st_metadata (mt_storage s))
         then PingAcceptableAds env now s else s)"

end
