(* ===== verification/Downloader_Facts.thy ===== *)
theory Downloader_Facts
  imports Subscription_Downloader "HOL-Library.Multiset"
begin

text \<open>
  What holds of the downloader over time: which URLs it fetches, that no download hangs, how often it follows
  redirects, and what becomes of every callback it is given.
\<close>

section \<open>Association lists as multisets\<close>

lemma mset_AList_delete:
  "distinct (map fst xs) \<Longrightarrow> map_of xs k = Some v \<Longrightarrow> mset xs = add_mset (k, v) (mset (AList.delete k xs))"
proof (induction xs)
  case (Cons x xs)
  obtain a b where x: "x = (a, b)" by (cases x)
  show ?case
  proof (cases "a = k")
    case True
    then have "k \<notin> fst ` set xs" using Cons.prems x by auto
    then show ?thesis using Cons.prems True x by (simp add: AList.delete_id)
  next
    case False
    then show ?thesis using Cons x by simp
  qed
qed simp

lemma mset_AList_update:
  "distinct (map fst xs) \<Longrightarrow> mset (AList.update k v xs) = add_mset (k, v) (mset (AList.delete k xs))"
proof (induction xs)
  case (Cons x xs)
  obtain a b where x: "x = (a, b)" by (cases x)
  show ?case
  proof (cases "a = k")
    case True
    then have "k \<notin> fst ` set xs" using Cons.prems x by auto
    then show ?thesis using True x by (simp add: AList.delete_id)
  next
    case False
    then show ?thesis using Cons x by simp
  qed
qed simp

lemma in_AList_update:
  "distinct (map fst xs) \<Longrightarrow> (a, b) \<in> set (AList.update k v xs) \<longleftrightarrow> (a = k \<and> b = v) \<or> (a \<noteq> k \<and> (a, b) \<in> set xs)"
  by (metis AList.distinct_update AList.update_conv' fun_upd_apply map_of_SomeD map_of_is_SomeI option.inject)

lemma in_AList_delete: "(a, b) \<in> set (AList.delete k xs) \<longleftrightarrow> a \<noteq> k \<and> (a, b) \<in> set xs"
  by (auto simp: AList.delete_eq)

section \<open>No download hangs\<close>

text \<open>The documented behaviour of \<open>GURL::ReplaceComponents\<close>: clearing the query of a URL forgets the query that
  was set.\<close>

definition download_env_ok :: "download_env \<Rightarrow> bool" where
  "download_env_ok env \<longleftrightarrow> (\<forall>q u. de_ClearQuery env (de_SetQuery env q u) = de_ClearQuery env u)"

definition without_query :: "download_env \<Rightarrow> gurl \<Rightarrow> bool" where
  "without_query env u \<longleftrightarrow> de_ClearQuery env u = u"

text \<open>What a request asks for: the URL of a list with the parameters that describe the client.\<close>

definition asks_for :: "download_env \<Rightarrow> gurl \<Rightarrow> gurl \<Rightarrow> bool" where
  "asks_for env key u \<longleftrightarrow> (\<exists>m. u = AddUrlParameters env m False key)"

text \<open>A download has an allowed URL, which is the one its request asks for, and something is going on for it. The
  answer to the request is looked up under the URL without its query, so the last part holds of a list whose own
  URL has no query.\<close>

definition download_ok :: "download_env \<Rightarrow> gurl list \<Rightarrow> gurl \<Rightarrow> 'cb ongoing_download \<Rightarrow> bool" where
  "download_ok env conversions key dl \<longleftrightarrow> IsUrlAllowed env key \<and>
     asks_for env key (rq_url (od_request dl)) \<and>
     rq_has_loader_factory (od_request dl) = de_has_network env \<and>
     (if de_has_network env \<and> rq_phase (od_request dl) = Quiet \<and> without_query env key then key \<in> set conversions else True)"

definition downloads_ok :: "download_env \<Rightarrow> 'cb downloader \<Rightarrow> bool" where
  "downloads_ok env d \<longleftrightarrow> distinct (map fst (ongoing_downloads d)) \<and>
     (\<forall>(key, dl)\<in>set (ongoing_downloads d). download_ok env (ongoing_conversions d) key dl)"

lemma downloads_okI:
  assumes "distinct (map fst (ongoing_downloads d))"
    "\<And>key dl. (key, dl) \<in> set (ongoing_downloads d) \<Longrightarrow> download_ok env (ongoing_conversions d) key dl"
  shows "downloads_ok env d"
  using assms by (auto simp: downloads_ok_def)

lemma downloads_okD:
  assumes "downloads_ok env d"
  shows "distinct (map fst (ongoing_downloads d))"
    "map_of (ongoing_downloads d) key = Some dl \<Longrightarrow> download_ok env (ongoing_conversions d) key dl"
    "(key, dl) \<in> set (ongoing_downloads d) \<Longrightarrow> download_ok env (ongoing_conversions d) key dl"
  using assms by (auto simp: downloads_ok_def dest: map_of_SomeD)

lemma downloads_ok_update:
  assumes "downloads_ok env d" "download_ok env (ongoing_conversions d) key dl"
  shows "downloads_ok env (d\<lparr>ongoing_downloads := AList.update key dl (ongoing_downloads d)\<rparr>)"
  using assms(2) downloads_okD(1,3) [OF assms(1)]
  by (intro downloads_okI) (auto simp: AList.distinct_update in_AList_update)

lemma downloads_ok_delete:
  assumes "downloads_ok env d"
  shows "downloads_ok env (d\<lparr>ongoing_downloads := AList.delete key (ongoing_downloads d)\<rparr>)"
  using downloads_okD(1,3) [OF assms]
  by (intro downloads_okI) (auto simp: AList.distinct_delete in_AList_delete)

lemma downloads_ok_ping [simp]: "downloads_ok env (d\<lparr>ongoing_ping := p\<rparr>) = downloads_ok env d"
  by (simp add: downloads_ok_def)

lemma asks_for_AddUrlParameters [simp]: "asks_for env u (AddUrlParameters env m False u)"
  by (auto simp: asks_for_def)

lemma ClearQuery_asked: "download_env_ok env \<Longrightarrow> asks_for env key u \<Longrightarrow> de_ClearQuery env u = de_ClearQuery env key"
  by (auto simp: asks_for_def AddUrlParameters_def download_env_ok_def)

lemma StartDownload_ok:
  assumes "downloads_ok env d"
  shows "downloads_ok env (fst (StartDownload env m u pol cb d))"
proof (cases "IsUrlAllowed env u")
  case True
  let ?dl = "\<lparr>od_request = Request_Start (AddUrlParameters env m False u) GET
      (new_OngoingSubscriptionRequest (de_has_network env)), od_policy = pol, od_callback = cb\<rparr>"
  have "download_ok env (ongoing_conversions d) u ?dl"
    using True
    by (simp add: download_ok_def Request_Start_def StartInternal_def new_OngoingSubscriptionRequest_def)
  then show ?thesis
    using downloads_ok_update [OF assms, of u ?dl] True by (simp add: StartDownload_def Let_def)
qed (use assms in \<open>simp add: StartDownload_def\<close>)

lemma AbortWithWarning_eq:
  "map_of (ongoing_downloads d) key = Some dl \<Longrightarrow>
    AbortWithWarning key d = (d\<lparr>ongoing_downloads := AList.delete key (ongoing_downloads d)\<rparr>,
      [Download_completed (od_callback dl) None])"
  by (simp add: AbortWithWarning_def)

lemma kMax: "kMaxNumberOfRedirects = 5" by (simp add: kMaxNumberOfRedirects_def)

text \<open>A conversion that ended has left \<open>ongoing_conversions\<close>; its download may be quiet until it is dealt with.\<close>

definition downloads_ok_except :: "gurl \<Rightarrow> download_env \<Rightarrow> 'cb downloader \<Rightarrow> bool" where
  "downloads_ok_except u env d \<longleftrightarrow> distinct (map fst (ongoing_downloads d)) \<and>
     (\<forall>(key, dl)\<in>set (ongoing_downloads d). download_ok env (u # ongoing_conversions d) key dl)"

lemma download_ok_mono: "download_ok env c key dl \<Longrightarrow> set c \<subseteq> set c' \<Longrightarrow> download_ok env c' key dl"
  by (auto simp: download_ok_def split: if_splits)

lemma downloads_ok_imp_except: "downloads_ok env d \<Longrightarrow> downloads_ok_except u env d"
  using download_ok_mono [of env "ongoing_conversions d" _ _ "u # ongoing_conversions d"]
  by (fastforce simp: downloads_ok_def downloads_ok_except_def)

lemma downloads_ok_remove1:
  assumes "downloads_ok env d"
  shows "downloads_ok_except u env (d\<lparr>ongoing_conversions := remove1 u (ongoing_conversions d)\<rparr>)"
proof -
  have "set (ongoing_conversions d) \<subseteq> set (u # remove1 u (ongoing_conversions d))"
    by (metis in_set_remove1 list.set_intros subsetI)
  then show ?thesis
    using downloads_okD(1,3) [OF assms] download_ok_mono unfolding downloads_ok_except_def by fastforce
qed

lemma downloads_ok_except_delete:
  assumes "downloads_ok_except u env d"
  shows "downloads_ok env (d\<lparr>ongoing_downloads := AList.delete u (ongoing_downloads d)\<rparr>)"
  using assms
  by (intro downloads_okI) (auto simp: downloads_ok_except_def AList.distinct_delete in_AList_delete download_ok_def)

lemma downloads_ok_except_update:
  assumes "downloads_ok_except u env d" "download_ok env (ongoing_conversions d) u dl"
  shows "downloads_ok env (d\<lparr>ongoing_downloads := AList.update u dl (ongoing_downloads d)\<rparr>)"
  using assms
  by (intro downloads_okI)
    (auto simp: downloads_ok_except_def AList.distinct_update in_AList_update download_ok_def split: if_splits)

lemma redirect_download_ok:
  assumes "downloads_ok_except u env d" "map_of (ongoing_downloads d) u = Some dl" "IsUrlAllowed env v"
  shows "downloads_ok env (redirect_download env m u v dl d)"
proof -
  let ?d = "d\<lparr>ongoing_downloads := AList.delete u (ongoing_downloads d)\<rparr>"
  let ?to = "case map_of (AList.delete u (ongoing_downloads d)) v of Some there \<Rightarrow> there | None \<Rightarrow> dl"
  let ?r = "Request_Redirect (AddUrlParameters env m False v) (od_request ?to)"
  have ok: "download_ok env (u # ongoing_conversions d) k x" if "map_of (ongoing_downloads d) k = Some x" for k x
    using assms(1) map_of_SomeD [OF that] by (auto simp: downloads_ok_except_def)
  have "rq_has_loader_factory (od_request ?to) = de_has_network env"
    using assms(2) ok by (auto simp: AList.delete_conv' download_ok_def split: option.splits if_splits)
  then have "download_ok env (ongoing_conversions ?d) v (?to\<lparr>od_request := ?r\<rparr>)"
    using assms(3)
    by (simp add: download_ok_def Request_Redirect_def StartInternal_def)
  then have "downloads_ok env (?d\<lparr>ongoing_downloads := AList.update v (?to\<lparr>od_request := ?r\<rparr>) (ongoing_downloads ?d)\<rparr>)"
    by (rule downloads_ok_update [OF downloads_ok_except_delete [OF assms(1)]])
  then show ?thesis by (simp add: redirect_download_def Let_def)
qed

lemma OnConversionFinished_ok:
  assumes "downloads_ok_except u env d"
  shows "downloads_ok env (snd (fst (OnConversionFinished env u result (m, d))))"
proof (cases "map_of (ongoing_downloads d) u")
  case None
  have "download_ok env (ongoing_conversions d) k dl" if "(k, dl) \<in> set (ongoing_downloads d)" for k dl
  proof -
    have "k \<noteq> u" using None that by (metis map_of_eq_None_iff fst_conv image_eqI)
    then show ?thesis using assms that by (auto simp: downloads_ok_except_def download_ok_def split: if_splits)
  qed
  then show ?thesis using None assms by (simp add: OnConversionFinished_def downloads_ok_def downloads_ok_except_def) blast
next
  case (Some dl)
  note del = downloads_ok_except_delete [OF assms]
  show ?thesis
  proof (cases result)
    case (Redirect v)
    then show ?thesis
      using Some del redirect_download_ok [OF assms Some, of v]
      by (simp add: OnConversionFinished_def AbortWithWarning_eq)
  qed (use Some del in \<open>simp_all add: OnConversionFinished_def AbortWithWarning_eq Let_def\<close>)
qed

lemma OnDownloadFinished_ok:
  assumes "downloads_ok_except u env d" "map_of (ongoing_downloads d) u = Some dl"
  obtains r where "OnDownloadFinished env u downloaded (m, d) = Some r" "downloads_ok env (snd (fst r))"
proof (cases downloaded)
  case True
  have "downloads_ok env (d\<lparr>ongoing_conversions := u # ongoing_conversions d\<rparr>)"
    using assms(1) by (simp add: downloads_ok_def downloads_ok_except_def)
  then show ?thesis using True assms(2) that by (simp add: OnDownloadFinished_def)
next
  case False
  note del = downloads_ok_except_delete [OF assms(1)]
  have "download_ok env (u # ongoing_conversions d) u dl"
    using assms(1) map_of_SomeD [OF assms(2)] by (auto simp: downloads_ok_except_def)
  then have "download_ok env (ongoing_conversions d) u (dl\<lparr>od_request := Request_Retry (od_request dl)\<rparr>)"
    by (auto simp: download_ok_def Request_Retry_def split: if_splits)
  note upd = downloads_ok_except_update [OF assms(1) this]
  show ?thesis using False del upd assms(2) that
    by (cases "od_policy dl = RetryUntilSucceeded") (auto simp: OnDownloadFinished_def Let_def)
qed

lemma set_phase_map_of [simp]:
  "map_of (ongoing_downloads (set_phase p key dl d)) k =
    (if k = key then Some (dl\<lparr>od_request := (od_request dl)\<lparr>rq_phase := p\<rparr>\<rparr>) else map_of (ongoing_downloads d) k)"
  by (simp add: set_phase_def AList.update_conv')

lemma set_phase_quiet_ok:
  assumes "download_env_ok env" "downloads_ok env d" "map_of (ongoing_downloads d) key = Some dl"
  shows "downloads_ok_except (de_ClearQuery env (rq_url (od_request dl))) env (set_phase Quiet key dl d)"
proof -
  let ?u = "de_ClearQuery env (rq_url (od_request dl))" and ?dl = "dl\<lparr>od_request := (od_request dl)\<lparr>rq_phase := Quiet\<rparr>\<rparr>"
  have dl: "download_ok env (ongoing_conversions d) key dl" by (rule downloads_okD(2) [OF assms(2,3)])
  then have "?u = de_ClearQuery env key" using ClearQuery_asked [OF assms(1)] by (simp add: download_ok_def)
  then have "download_ok env (?u # ongoing_conversions d) key ?dl"
    using dl by (simp add: download_ok_def without_query_def)
  moreover have "download_ok env (?u # ongoing_conversions d) k x" if "(k, x) \<in> set (ongoing_downloads d)" for k x
    using downloads_okD(3) [OF assms(2) that] by (rule download_ok_mono) auto
  ultimately show ?thesis
    using downloads_okD(1) [OF assms(2)]
    by (auto simp: downloads_ok_except_def set_phase_def AList.distinct_update in_AList_update)
qed

text \<open>The one case the code does not expect: no download has the URL that the answer is looked up under.\<close>

fun answer_is_lost :: "download_env \<Rightarrow> download_event \<Rightarrow> 'cb downloader \<Rightarrow> bool" where
  "answer_is_lost env (Request_done key downloaded) d \<longleftrightarrow>
     de_ClearQuery env key \<notin> fst ` set (ongoing_downloads d)"
| "answer_is_lost env _ d \<longleftrightarrow> False"

lemma lost_answers_have_a_query:
  assumes "answer_is_lost env ev d" "event_possible ev d"
  obtains key downloaded where "ev = Request_done key downloaded" "\<not> without_query env key"
proof (cases ev)
  case (Request_done key downloaded)
  then obtain dl where "map_of (ongoing_downloads d) key = Some dl" using assms(2) by (auto split: option.splits)
  then have "key \<in> fst ` set (ongoing_downloads d)" by (metis map_of_SomeD fst_conv image_eqI)
  moreover have "de_ClearQuery env key \<notin> fst ` set (ongoing_downloads d)" using assms(1) Request_done by simp
  ultimately have "\<not> without_query env key" unfolding without_query_def by metis
  then show ?thesis by (rule that [OF Request_done])
qed (use assms in simp_all)

lemma download_step_ok:
  assumes "download_env_ok env" "downloads_ok env d" "download_step env e (m, d) = Some r"
  shows "downloads_ok env (snd (fst r))"
proof (cases e)
  case (Request_done key downloaded)
  then obtain dl where dl: "map_of (ongoing_downloads d) key = Some dl" using assms(3) by (auto split: option.splits)
  let ?u = "de_ClearQuery env (rq_url (od_request dl))"
  have r: "OnDownloadFinished env ?u downloaded (m, set_phase Quiet key dl d) = Some r" using assms(3) Request_done dl by simp
  obtain x where "map_of (ongoing_downloads (set_phase Quiet key dl d)) ?u = Some x"
    using r by (cases "map_of (ongoing_downloads (set_phase Quiet key dl d)) ?u")
      (simp_all add: OnDownloadFinished_def del: set_phase_map_of)
  from OnDownloadFinished_ok [OF set_phase_quiet_ok [OF assms(1,2) dl] this, of downloaded m] r show ?thesis
    by (metis option.inject)
next
  case (Retry_timer key)
  then obtain dl where dl: "map_of (ongoing_downloads d) key = Some dl" using assms(3) by (auto split: option.splits)
  have "download_ok env (ongoing_conversions d) key (dl\<lparr>od_request := StartInternal (od_request dl)\<rparr>)"
    using downloads_okD(2) [OF assms(2) dl] by (auto simp: download_ok_def StartInternal_def split: if_splits)
  then show ?thesis using Retry_timer dl assms(3) downloads_ok_update [OF assms(2)] by auto
next
  case (Conversion_done u result)
  then show ?thesis
    using OnConversionFinished_ok [OF downloads_ok_remove1 [OF assms(2)]] assms(3) by auto
next
  case (Headers_received date)
  then show ?thesis
    using assms(2,3) by (auto simp: OnHeadersOnlyDownloaded_def Let_def split: option.splits)
qed

text \<open>Every other event that is possible is dealt with.\<close>

lemma download_step_fails_iff:
  assumes "download_env_ok env" "downloads_ok env d" "event_possible ev d"
  shows "download_step env ev (m, d) = None \<longleftrightarrow> answer_is_lost env ev d"
proof (cases ev)
  case (Request_done key downloaded)
  then obtain dl where dl: "map_of (ongoing_downloads d) key = Some dl" using assms(3) by (auto split: option.splits)
  let ?u = "de_ClearQuery env (rq_url (od_request dl))" and ?d = "set_phase Quiet key dl d"
  have u: "?u = de_ClearQuery env key"
    using downloads_okD(2) [OF assms(2) dl] ClearQuery_asked [OF assms(1)] by (simp add: download_ok_def)
  have "OnDownloadFinished env ?u downloaded (m, ?d) = None \<longleftrightarrow> map_of (ongoing_downloads ?d) ?u = None"
    by (simp add: OnDownloadFinished_def Let_def split: option.splits)
  also have "\<dots> \<longleftrightarrow> map_of (ongoing_downloads d) ?u = None" using dl by simp
  finally show ?thesis using Request_done dl u by (simp add: map_of_eq_None_iff)
next
  case (Headers_received date)
  then show ?thesis using assms(3) by (auto simp: OnHeadersOnlyDownloaded_def Let_def)
qed (use assms(3) in \<open>auto split: option.splits\<close>)

lemma CancelDownload_ok: "downloads_ok env d \<Longrightarrow> downloads_ok env (CancelDownload u d)"
  by (simp add: CancelDownload_def downloads_ok_delete)

lemma DoHeadRequest_ok: "downloads_ok env d \<Longrightarrow> downloads_ok env (fst (DoHeadRequest env m u cb d))"
  by (simp add: DoHeadRequest_def Let_def)

text \<open>Something is going on for a download, and finds it when it ends.\<close>

definition download_in_progress :: "download_env \<Rightarrow> PersistentMetadata \<Rightarrow> 'cb downloader \<Rightarrow> gurl \<Rightarrow> bool \<Rightarrow> ConversionResult \<Rightarrow> bool"
where
  "download_in_progress env m d key b result \<longleftrightarrow>
     (event_possible (Request_done key b) d \<and> download_step env (Request_done key b) (m, d) \<noteq> None) \<or>
     (event_possible (Retry_timer key) d \<and> download_step env (Retry_timer key) (m, d) \<noteq> None) \<or>
     (event_possible (Conversion_done key result) d \<and> download_step env (Conversion_done key result) (m, d) \<noteq> None)"

lemma download_progress:
  assumes "download_env_ok env" "downloads_ok env d" "de_has_network env" "(key, dl) \<in> set (ongoing_downloads d)"
    "without_query env key"
  shows "download_in_progress env m d key b result"
proof -
  have there: "map_of (ongoing_downloads d) key = Some dl" using downloads_okD(1) [OF assms(2)] assms(4) by simp
  have "\<not> answer_is_lost env ev d" if "ev = Request_done key b \<or> ev = Retry_timer key \<or> ev = Conversion_done key result" for ev
    using that assms(4,5) by (force simp: without_query_def)
  moreover have "event_possible (Request_done key b) d \<or> event_possible (Retry_timer key) d \<or> event_possible (Conversion_done key result) d"
    using downloads_okD(3) [OF assms(2,4)] assms(3,5) there
    by (cases "rq_phase (od_request dl)") (auto simp: download_ok_def)
  ultimately show ?thesis
    using download_step_fails_iff [OF assms(1,2)] unfolding download_in_progress_def by blast
qed

section \<open>Sessions\<close>

text \<open>Whether an event makes the downloader follow a redirect.\<close>

definition follows_redirect :: "download_env \<Rightarrow> download_event \<Rightarrow> 'cb downloader \<Rightarrow> nat" where
  "follows_redirect env e d =
     (case e of
        Conversion_done u (Redirect v) \<Rightarrow>
          (case map_of (ongoing_downloads d) u of
             None \<Rightarrow> 0
           | Some dl \<Rightarrow> if IsUrlAllowed env v \<and> v \<noteq> u \<and> rq_number_of_redirects (od_request dl) < kMaxNumberOfRedirects
                        then 1 else 0)
      | _ \<Rightarrow> 0)"

text \<open>What a downloader can get to, with the callbacks it was given and the effects it had, whatever URLs it is given
  and redirected to. Its events come when they are possible; the metadata may be changed by others at any time. An
  answer that is lost is a lookup that the code takes to succeed: nothing is said of what comes after it.\<close>

inductive download_reachable :: "download_env \<Rightarrow> 'cb list \<Rightarrow> 'cb download_effect list \<Rightarrow> nat \<Rightarrow>
    PersistentMetadata \<times> 'cb downloader \<Rightarrow> bool" for env where
  dr_init: "download_reachable env [] [] 0 (m, no_downloads)"
| dr_metadata: "download_reachable env cbs es n (m, d) \<Longrightarrow> download_reachable env cbs es n (m', d)"
| dr_start: "download_reachable env cbs es n (m, d) \<Longrightarrow>
    StartDownload env m u pol cb d = (d', e) \<Longrightarrow> download_reachable env (cb # cbs) (es @ e) n (m, d')"
| dr_cancel: "download_reachable env cbs es n (m, d) \<Longrightarrow> download_reachable env cbs es n (m, CancelDownload u d)"
| dr_head: "download_reachable env cbs es n (m, d) \<Longrightarrow> DoHeadRequest env m u cb d = (d', e) \<Longrightarrow>
    download_reachable env (cb # cbs) (es @ e) n (m, d')"
| dr_event: "download_reachable env cbs es n (m, d) \<Longrightarrow> event_possible ev d \<Longrightarrow>
    download_step env ev (m, d) = Some (s', e) \<Longrightarrow>
    download_reachable env cbs (es @ e) (n + follows_redirect env ev d) s'"

lemma reachable_ok:
  assumes "download_reachable env cbs es n s" "download_env_ok env"
  shows "downloads_ok env (snd s)"
  using assms
proof (induction rule: download_reachable.induct)
  case (dr_init m)
  show ?case by (simp add: no_downloads_def downloads_ok_def)
next
  case (dr_start cbs es n m d u pol cb d' e)
  then show ?case using StartDownload_ok [of env d m u pol cb] by simp
next
  case (dr_head cbs es n m d u cb d' e)
  then show ?case using DoHeadRequest_ok [of env d m u cb] by simp
next
  case (dr_event cbs es n m d ev s' e)
  then have "downloads_ok env d" by simp
  from download_step_ok [OF dr_event.prems this dr_event.hyps(3)] show ?case by simp
qed (simp_all add: CancelDownload_ok)

section \<open>What becomes of callbacks\<close>

fun effect_callback :: "'cb download_effect \<Rightarrow> 'cb" where
  "effect_callback (Download_completed cb r) = cb"
| "effect_callback (Head_request_done cb v) = cb"

definition held :: "'cb downloader \<Rightarrow> 'cb multiset" where
  "held d = mset (map (od_callback \<circ> snd) (ongoing_downloads d)) +
     (case ongoing_ping d of None \<Rightarrow> {#} | Some (r, cb) \<Rightarrow> {#cb#})"

definition callbacks_run :: "'cb download_effect list \<Rightarrow> 'cb multiset" where
  "callbacks_run es = mset (map effect_callback es)"

lemma callbacks_run_append [simp]: "callbacks_run (es @ es') = callbacks_run es + callbacks_run es'" "callbacks_run [] = {#}" "callbacks_run (e # es) = add_mset (effect_callback e) (callbacks_run es)"
  by (simp_all add: callbacks_run_def)

lemma callbacks_delete:
  assumes "distinct (map fst xs)" "map_of xs k = Some v"
  shows "mset (map f xs) = add_mset (f (k, v)) (mset (map f (AList.delete k xs)))"
  using arg_cong [OF mset_AList_delete [OF assms], of "image_mset f"] by simp

lemma callbacks_delete_subset: "mset (map f (AList.delete k xs)) \<subseteq># mset (map f xs)"
  by (simp add: AList.delete_eq image_mset_subseteq_mono mset_filter multiset_filter_subset)

lemma callbacks_update:
  assumes "distinct (map fst xs)"
  shows "mset (map f (AList.update k v xs)) = add_mset (f (k, v)) (mset (map f (AList.delete k xs)))"
  using arg_cong [OF mset_AList_update [OF assms], of "image_mset f"] by simp

lemma callbacks_update_same:
  assumes "distinct (map fst xs)" "map_of xs k = Some v" "od_callback v' = od_callback v"
  shows "mset (map (od_callback \<circ> snd) (AList.update k v' xs)) = mset (map (od_callback \<circ> snd) xs)"
  using callbacks_update [OF assms(1), of "od_callback \<circ> snd" k v'] callbacks_delete [OF assms(1,2), of "od_callback \<circ> snd"]
    assms(3) by simp

lemma held_StartDownload:
  assumes "distinct (map fst (ongoing_downloads d))" "StartDownload env m u pol cb d = (d', e)"
  shows "held d' + callbacks_run e \<subseteq># add_mset cb (held d)"
proof (cases "IsUrlAllowed env u")
  case True
  have sub: "mset (map (od_callback \<circ> snd) (AList.delete u (ongoing_downloads d))) \<subseteq># mset (map (od_callback \<circ> snd) (ongoing_downloads d))"
    by (rule callbacks_delete_subset)
  show ?thesis
    using assms True sub
    by (auto simp: StartDownload_def Let_def held_def callbacks_update simp del: mset_map intro!: mset_subset_eq_mono_add)
next
  case False
  then show ?thesis using assms(2) by (auto simp: StartDownload_def)
qed

lemma held_DoHeadRequest: "DoHeadRequest env m u cb d = (d', e) \<Longrightarrow> held d' + callbacks_run e = add_mset cb (held d)"
  by (auto simp: DoHeadRequest_def Let_def held_def split: option.splits)

lemma held_CancelDownload: "held (CancelDownload u d) \<subseteq># held d"
  unfolding held_def CancelDownload_def by (simp add: callbacks_delete_subset del: mset_map)

lemma held_delete:
  assumes "distinct (map fst (ongoing_downloads d))" "map_of (ongoing_downloads d) u = Some dl"
  shows "add_mset (od_callback dl) (held (d\<lparr>ongoing_downloads := AList.delete u (ongoing_downloads d)\<rparr>)) = held d"
  using callbacks_delete [OF assms, of "od_callback \<circ> snd"] by (simp add: held_def del: mset_map)

lemma held_update_same:
  assumes "distinct (map fst (ongoing_downloads d))" "map_of (ongoing_downloads d) u = Some dl" "od_callback dl' = od_callback dl"
  shows "held (d\<lparr>ongoing_downloads := AList.update u dl' (ongoing_downloads d)\<rparr>) = held d"
  using callbacks_update_same [OF assms] by (simp add: held_def del: mset_map)

lemma held_update_new:
  assumes "distinct (map fst (ongoing_downloads d))" "map_of (ongoing_downloads d) u = None"
  shows "held (d\<lparr>ongoing_downloads := AList.update u dl (ongoing_downloads d)\<rparr>) = add_mset (od_callback dl) (held d)"
proof -
  have "AList.delete u (ongoing_downloads d) = ongoing_downloads d"
    using assms(2) by (simp add: AList.delete_id map_of_eq_None_iff)
  then show ?thesis
    using callbacks_update [OF assms(1), of "od_callback \<circ> snd" u dl] by (simp add: held_def del: mset_map)
qed

text \<open>A redirect keeps the callback of the download that moves, or, when another one is in its place, the
  callback of that one only.\<close>

lemma held_redirect:
  assumes "distinct (map fst (ongoing_downloads d))" "map_of (ongoing_downloads d) u = Some dl" "v \<noteq> u"
  shows "held (redirect_download env m u v dl d) +
    (if map_of (ongoing_downloads d) v = None then {#} else {#od_callback dl#}) = held d"
proof -
  let ?d = "d\<lparr>ongoing_downloads := AList.delete u (ongoing_downloads d)\<rparr>"
  have d: "distinct (map fst (ongoing_downloads ?d))" using assms(1) by (simp add: AList.distinct_delete)
  have at: "map_of (AList.delete u (ongoing_downloads d)) v = map_of (ongoing_downloads d) v"
    using assms(3) by (simp add: AList.delete_conv')
  show ?thesis
  proof (cases "map_of (ongoing_downloads d) v")
    case None
    have n: "map_of (ongoing_downloads ?d) v = None" using None at by simp
    show ?thesis
      using held_update_new [OF d n] held_delete [OF assms(1,2)] None at by (simp add: redirect_download_def Let_def)
  next
    case (Some there)
    have n: "map_of (ongoing_downloads ?d) v = Some there" using Some at by simp
    show ?thesis
      using held_update_same [OF d n, of "there\<lparr>od_request := Request_Redirect (AddUrlParameters env m False v) (od_request there)\<rparr>"]
        held_delete [OF assms(1,2)] Some at by (simp add: redirect_download_def Let_def)
  qed
qed

lemma held_conversions [simp]: "held (d\<lparr>ongoing_conversions := c\<rparr>) = held d"
  by (simp add: held_def)

lemma held_OnConversionFinished:
  assumes "distinct (map fst (ongoing_downloads d))" "OnConversionFinished env u result (m, d) = ((m', d'), e)"
  shows "held d' + callbacks_run e \<subseteq># held d"
proof (cases "map_of (ongoing_downloads d) u")
  case (Some dl)
  have del: "held (d\<lparr>ongoing_downloads := AList.delete u (ongoing_downloads d)\<rparr>) + {#od_callback dl#} = held d"
    using held_delete [OF assms(1) Some] by simp
  show ?thesis
  proof (cases result)
    case (Redirect v)
    have "held (redirect_download env m u v dl d) \<subseteq># held d" if "v \<noteq> u"
      using held_redirect [OF assms(1) Some that, of env m] by (metis mset_subset_eq_add_left)
    then show ?thesis
      using assms(2) Some Redirect del
      by (auto simp: OnConversionFinished_def AbortWithWarning_eq split: if_splits)
  qed (use assms(2) Some del in \<open>auto simp: OnConversionFinished_def AbortWithWarning_eq Let_def\<close>)
qed (use assms(2) in \<open>simp add: OnConversionFinished_def\<close>)

lemma held_OnDownloadFinished:
  assumes "distinct (map fst (ongoing_downloads d))" "OnDownloadFinished env u b (m, d) = Some ((m', d'), e)"
  shows "held d' + callbacks_run e = held d"
proof -
  obtain dl where dl: "map_of (ongoing_downloads d) u = Some dl"
    using assms(2) by (auto simp: OnDownloadFinished_def split: option.splits)
  show ?thesis
    using assms(2) dl held_delete [OF assms(1) dl] held_update_same [OF assms(1) dl]
    by (auto simp: OnDownloadFinished_def Let_def split: if_splits)
qed

lemma held_step:
  assumes "distinct (map fst (ongoing_downloads d))" "download_step env ev (m, d) = Some ((m', d'), e)"
  shows "held d' + callbacks_run e \<subseteq># held d"
proof (cases ev)
  case (Request_done key b)
  then obtain dl where dl: "map_of (ongoing_downloads d) key = Some dl" using assms(2) by (auto split: option.splits)
  let ?d = "set_phase Quiet key dl d"
  have "held ?d = held d" unfolding set_phase_def by (rule held_update_same [OF assms(1) dl]) simp
  moreover have "distinct (map fst (ongoing_downloads ?d))" using assms(1) by (simp add: set_phase_def AList.distinct_update)
  ultimately show ?thesis using held_OnDownloadFinished [of ?d] assms(2) Request_done dl by auto
next
  case (Retry_timer key)
  then obtain dl where dl: "map_of (ongoing_downloads d) key = Some dl" using assms(2) by (auto split: option.splits)
  then show ?thesis using held_update_same [OF assms(1) dl] assms(2) Retry_timer by auto
next
  case (Conversion_done u result)
  then show ?thesis using held_OnConversionFinished [of "d\<lparr>ongoing_conversions := remove1 u (ongoing_conversions d)\<rparr>"] assms by simp
next
  case (Headers_received date)
  then show ?thesis using assms(2) by (auto simp: OnHeadersOnlyDownloaded_def held_def Let_def split: option.splits)
qed

lemma reachable_held:
  assumes "download_reachable env cbs es n s" "download_env_ok env"
  shows "held (snd s) + callbacks_run es \<subseteq># mset cbs"
  using assms
proof (induction rule: download_reachable.induct)
  case (dr_init m)
  show ?case by (simp add: held_def no_downloads_def)
next
  case (dr_start cbs es n m d u pol cb d' e)
  have "distinct (map fst (ongoing_downloads d))"
    using reachable_ok [OF dr_start.hyps(1) dr_start.prems] by (simp add: downloads_ok_def)
  from held_StartDownload [OF this dr_start.hyps(2)]
  have a: "held d' + callbacks_run e + callbacks_run es \<subseteq># add_mset cb (held d) + callbacks_run es" by (rule subset_mset.add_right_mono)
  have b: "add_mset cb (held d) + callbacks_run es \<subseteq># mset (cb # cbs)" using dr_start.IH [OF dr_start.prems] by simp
  show ?case using subset_mset.order_trans [OF a b] by (simp add: ac_simps)
next
  case (dr_head cbs es n m d u cb d' e)
  have "held d' + callbacks_run e + callbacks_run es = add_mset cb (held d) + callbacks_run es"
    using held_DoHeadRequest [OF dr_head.hyps(2)] by simp
  moreover have "add_mset cb (held d) + callbacks_run es \<subseteq># mset (cb # cbs)" using dr_head.IH [OF dr_head.prems] by simp
  ultimately have "held d' + callbacks_run e + callbacks_run es \<subseteq># mset (cb # cbs)" by argo
  then show ?case by (simp add: ac_simps)
next
  case (dr_cancel cbs es n m d u)
  have "held (CancelDownload u d) + callbacks_run es \<subseteq># held d + callbacks_run es"
    by (rule subset_mset.add_right_mono [OF held_CancelDownload])
  from subset_mset.order_trans [OF this] show ?case using dr_cancel.IH [OF dr_cancel.prems] by simp
next
  case (dr_event cbs es n m d ev s' e)
  have "distinct (map fst (ongoing_downloads d))"
    using reachable_ok [OF dr_event.hyps(1) dr_event.prems] by (simp add: downloads_ok_def)
  moreover obtain m' d' where s': "s' = (m', d')" by (cases s')
  ultimately have "held d' + callbacks_run e \<subseteq># held d" using held_step dr_event.hyps(3) by blast
  then have "held d' + callbacks_run e + callbacks_run es \<subseteq># held d + callbacks_run es" by simp
  from subset_mset.order_trans [OF this] show ?case using dr_event.IH [OF dr_event.prems] by (simp add: s' ac_simps)
qed simp_all

section \<open>How many redirects are followed\<close>

definition redirects_left :: "gurl \<times> 'cb ongoing_download \<Rightarrow> nat" where
  "redirects_left = (\<lambda>(key, dl). kMaxNumberOfRedirects - rq_number_of_redirects (od_request dl))"

definition budget :: "'cb downloader \<Rightarrow> nat" where
  "budget d = sum_mset (mset (map redirects_left (ongoing_downloads d)))"

lemma budget_delete:
  assumes "distinct (map fst (ongoing_downloads d))" "map_of (ongoing_downloads d) u = Some dl"
  shows "budget d = redirects_left (u, dl) + budget (d\<lparr>ongoing_downloads := AList.delete u (ongoing_downloads d)\<rparr>)"
  unfolding budget_def using callbacks_delete [OF assms, of redirects_left] by (simp del: mset_map)

lemma sum_mset_subset: "A \<subseteq># B \<Longrightarrow> sum_mset A \<le> sum_mset (B :: nat multiset)"
  by (metis le_add1 mset_subset_eq_exists_conv sum_mset.union)

lemma budget_delete_le: "budget (d\<lparr>ongoing_downloads := AList.delete u (ongoing_downloads d)\<rparr>) \<le> budget d"
  unfolding budget_def using callbacks_delete_subset [of redirects_left u "ongoing_downloads d"]
  by (simp add: sum_mset_subset del: mset_map)

lemma budget_update:
  assumes "distinct (map fst (ongoing_downloads d))"
  shows "budget (d\<lparr>ongoing_downloads := AList.update u dl (ongoing_downloads d)\<rparr>) =
    redirects_left (u, dl) + budget (d\<lparr>ongoing_downloads := AList.delete u (ongoing_downloads d)\<rparr>)"
  unfolding budget_def using callbacks_update [OF assms, of redirects_left u dl] by (simp del: mset_map)

lemma budget_update_same:
  assumes "distinct (map fst (ongoing_downloads d))" "map_of (ongoing_downloads d) u = Some dl"
    "rq_number_of_redirects (od_request dl') \<ge> rq_number_of_redirects (od_request dl)"
  shows "budget (d\<lparr>ongoing_downloads := AList.update u dl' (ongoing_downloads d)\<rparr>) \<le> budget d"
  using budget_update [OF assms(1), of u dl'] budget_delete [OF assms(1,2)] assms(3) by (simp add: redirects_left_def)

lemma budget_conversions [simp]:
  "budget (d\<lparr>ongoing_conversions := c\<rparr>) = budget d" "budget (d\<lparr>ongoing_ping := p\<rparr>) = budget d"
  by (simp_all add: budget_def)

lemma number_of_redirects_Redirect [simp]:
  "rq_number_of_redirects (Request_Redirect u r) = rq_number_of_redirects r + 1"
  by (simp add: Request_Redirect_def StartInternal_def)

lemma budget_redirect:
  assumes "distinct (map fst (ongoing_downloads d))" "map_of (ongoing_downloads d) u = Some dl" "v \<noteq> u"
    "rq_number_of_redirects (od_request dl) < kMaxNumberOfRedirects"
  shows "budget (redirect_download env m u v dl d) < budget d"
proof -
  let ?d = "d\<lparr>ongoing_downloads := AList.delete u (ongoing_downloads d)\<rparr>"
  have d: "distinct (map fst (ongoing_downloads ?d))" using assms(1) by (simp add: AList.distinct_delete)
  have at: "map_of (ongoing_downloads ?d) v = map_of (ongoing_downloads d) v" using assms(3) by (simp add: AList.delete_conv')
  have more: "redirects_left (u, dl) > 0" using assms(4) by (simp add: redirects_left_def)
  show ?thesis
  proof (cases "map_of (ongoing_downloads d) v")
    case None
    then have "v \<notin> fst ` set (ongoing_downloads ?d)" using at by (metis map_of_eq_None_iff)
    then have "AList.delete v (ongoing_downloads ?d) = ongoing_downloads ?d" by (rule AList.delete_id)
    then have "budget (redirect_download env m u v dl d) =
        redirects_left (v, dl\<lparr>od_request := Request_Redirect (AddUrlParameters env m False v) (od_request dl)\<rparr>) + budget ?d"
      using budget_update [OF d, of v] None at by (simp add: redirect_download_def Let_def)
    then show ?thesis
      using budget_delete [OF assms(1,2)] assms(4)
      by (simp add: redirects_left_def)
  next
    case (Some there)
    have "budget (redirect_download env m u v dl d) \<le> budget ?d"
      using budget_update_same [OF d, of v there "there\<lparr>od_request := Request_Redirect (AddUrlParameters env m False v) (od_request there)\<rparr>"]
        Some at by (simp add: redirect_download_def Let_def)
    then show ?thesis using budget_delete [OF assms(1,2)] more by simp
  qed
qed

lemma budget_StartDownload:
  assumes "distinct (map fst (ongoing_downloads d))" "StartDownload env m u pol cb d = (d', e)"
  shows "budget d' \<le> budget d + kMaxNumberOfRedirects"
proof (cases "IsUrlAllowed env u")
  case True
  then obtain dl where dl: "d' = d\<lparr>ongoing_downloads := AList.update u dl (ongoing_downloads d)\<rparr>"
    using assms(2) by (auto simp: StartDownload_def Let_def)
  have "redirects_left (u, dl) \<le> kMaxNumberOfRedirects" by (simp add: redirects_left_def)
  then show ?thesis using budget_update [OF assms(1), of u dl] budget_delete_le [of u d] dl by simp
next
  case False
  then show ?thesis using assms(2) by (simp add: StartDownload_def)
qed

lemma budget_OnConversionFinished:
  assumes "distinct (map fst (ongoing_downloads d))" "OnConversionFinished env u result (m, d) = ((m', d'), e)"
  shows "budget d' + follows_redirect env (Conversion_done u result) d \<le> budget d"
proof (cases "map_of (ongoing_downloads d) u")
  case (Some dl)
  note del = budget_delete_le [of u d]
  show ?thesis
  proof (cases result)
    case (Redirect v)
    show ?thesis
    proof (cases "follows_redirect env (Conversion_done u result) d = 0")
      case True
      then show ?thesis
        using assms(2) Some Redirect del
        by (auto simp: OnConversionFinished_def AbortWithWarning_eq follows_redirect_def split: if_splits)
    next
      case False
      then have c: "IsUrlAllowed env v" "v \<noteq> u" "rq_number_of_redirects (od_request dl) < kMaxNumberOfRedirects"
        "follows_redirect env (Conversion_done u result) d = 1"
        using Some Redirect by (auto simp: follows_redirect_def split: if_splits)
      then have "d' = redirect_download env m u v dl d"
        using assms(2) Some Redirect by (auto simp: OnConversionFinished_def)
      then show ?thesis using budget_redirect [OF assms(1) Some c(2,3), of env m] c(4) by simp
    qed
  qed (use assms(2) Some del in \<open>auto simp: OnConversionFinished_def AbortWithWarning_eq Let_def follows_redirect_def\<close>)
qed (use assms(2) in \<open>simp add: OnConversionFinished_def follows_redirect_def split: ConversionResult.split\<close>)

lemma budget_OnDownloadFinished:
  assumes "distinct (map fst (ongoing_downloads d))" "OnDownloadFinished env u b (m, d) = Some ((m', d'), e)"
  shows "budget d' \<le> budget d"
proof -
  obtain dl where dl: "map_of (ongoing_downloads d) u = Some dl"
    using assms(2) by (auto simp: OnDownloadFinished_def split: option.splits)
  have "budget (d\<lparr>ongoing_downloads := AList.update u (dl\<lparr>od_request := Request_Retry (od_request dl)\<rparr>) (ongoing_downloads d)\<rparr>) \<le> budget d"
    by (rule budget_update_same [OF assms(1) dl]) (simp add: Request_Retry_def)
  then show ?thesis
    using assms(2) dl budget_delete_le [of u d] by (auto simp: OnDownloadFinished_def Let_def split: if_splits)
qed

lemma budget_step:
  assumes "distinct (map fst (ongoing_downloads d))" "download_step env ev (m, d) = Some ((m', d'), e)"
  shows "budget d' + follows_redirect env ev d \<le> budget d"
proof (cases ev)
  case (Request_done key b)
  then obtain dl where dl: "map_of (ongoing_downloads d) key = Some dl" using assms(2) by (auto split: option.splits)
  let ?d = "set_phase Quiet key dl d"
  have "budget ?d \<le> budget d" unfolding set_phase_def by (rule budget_update_same [OF assms(1) dl]) simp
  moreover have "distinct (map fst (ongoing_downloads ?d))" using assms(1) by (simp add: set_phase_def AList.distinct_update)
  ultimately show ?thesis
    using budget_OnDownloadFinished [of ?d] assms(2) Request_done dl by (fastforce simp: follows_redirect_def)
next
  case (Retry_timer key)
  then obtain dl where dl: "map_of (ongoing_downloads d) key = Some dl" using assms(2) by (auto split: option.splits)
  then show ?thesis
    using budget_update_same [OF assms(1) dl, of "dl\<lparr>od_request := StartInternal (od_request dl)\<rparr>"] assms(2) Retry_timer
    by (auto simp: follows_redirect_def StartInternal_def split: if_splits)
next
  case (Conversion_done u result)
  let ?d = "d\<lparr>ongoing_conversions := remove1 u (ongoing_conversions d)\<rparr>"
  have "follows_redirect env (Conversion_done u result) ?d = follows_redirect env (Conversion_done u result) d"
    by (simp add: follows_redirect_def)
  then show ?thesis using budget_OnConversionFinished [of ?d env u result m m' d' e] assms Conversion_done by simp
next
  case (Headers_received date)
  then show ?thesis
    using assms(2) by (auto simp: OnHeadersOnlyDownloaded_def follows_redirect_def Let_def split: option.splits)
qed

lemma reachable_budget:
  assumes "download_reachable env cbs es n s" "download_env_ok env"
  shows "n + budget (snd s) \<le> kMaxNumberOfRedirects * length cbs"
  using assms
proof (induction rule: download_reachable.induct)
  case (dr_init m)
  show ?case by (simp add: budget_def no_downloads_def)
next
  case (dr_start cbs es n m d u pol cb d' e)
  have "distinct (map fst (ongoing_downloads d))"
    using reachable_ok [OF dr_start.hyps(1) dr_start.prems] by (simp add: downloads_ok_def)
  from budget_StartDownload [OF this dr_start.hyps(2)] dr_start show ?case by simp
next
  case (dr_cancel cbs es n m d u)
  then show ?case using budget_delete_le [of u d] by (simp add: CancelDownload_def)
next
  case (dr_head cbs es n m d u cb d' e)
  then show ?case by (auto simp: DoHeadRequest_def Let_def)
next
  case (dr_event cbs es n m d ev s' e)
  have "distinct (map fst (ongoing_downloads d))"
    using reachable_ok [OF dr_event.hyps(1) dr_event.prems] by (simp add: downloads_ok_def)
  moreover obtain m' d' where s': "s' = (m', d')" by (cases s')
  ultimately have "budget d' + follows_redirect env ev d \<le> budget d" using budget_step dr_event.hyps(3) by blast
  then show ?case using dr_event.IH [OF dr_event.prems] by (simp add: s')
qed simp_all

section \<open>What can go wrong\<close>

text \<open>A download that is redirected to a list that is being downloaded is dropped, and its callback with it.\<close>

lemma redirect_onto_a_download_drops_its_callback:
  assumes "distinct (map fst (ongoing_downloads d))" "map_of (ongoing_downloads d) u = Some dl"
    "map_of (ongoing_downloads d) v = Some there" "IsUrlAllowed env v" "v \<noteq> u"
    "rq_number_of_redirects (od_request dl) < kMaxNumberOfRedirects"
    "OnConversionFinished env u (Redirect v) (m, d) = ((m', d'), e)"
  shows "e = [] \<and> held d' + {#od_callback dl#} = held d"
proof -
  have "d' = redirect_download env m u v dl d" "e = []"
    using assms by (auto simp: OnConversionFinished_def)
  then show ?thesis using held_redirect [OF assms(1,2,5), of env m] assms(3) by simp
qed

text \<open>Once a download was redirected, cancelling it under its own URL does nothing.\<close>

lemma cancel_after_redirect_does_nothing:
  assumes "map_of (ongoing_downloads d) u = Some dl" "v \<noteq> u"
  shows "CancelDownload u (redirect_download env m u v dl d) = redirect_download env m u v dl d"
proof -
  have "u \<notin> fst ` set (ongoing_downloads (redirect_download env m u v dl d))"
    using assms(2) by (auto simp: redirect_download_def Let_def dom_update AList.delete_eq)
  then show ?thesis by (simp add: CancelDownload_def AList.delete_id)
qed

section \<open>Properties\<close>

definition example_clear_query :: "gurl \<Rightarrow> gurl" where
  "example_clear_query u = u\<lparr>spec := takeWhile (\<lambda>c. c \<noteq> CHR ''?'') (spec u)\<rparr>"

definition example_download_env :: download_env where
  "example_download_env =
     \<lparr>de_SetQuery = (\<lambda>q u. u\<lparr>spec := takeWhile (\<lambda>c. c \<noteq> CHR ''?'') (spec u) @ ''?'' @ q\<rparr>),
      de_ClearQuery = example_clear_query, de_IsLocalhost = (\<lambda>u. host u = ''localhost''),
      de_EscapeQueryParamValue = id, de_client_metadata = \<lparr>app_name = ''app'', app_version = ''1'', client_os = ''os''\<rparr>,
      de_metadata = example_metadata_env, de_has_network = True\<rparr>"

lemma example_download_env_ok: "download_env_ok example_download_env"
proof -
  have "takeWhile P (takeWhile P xs @ y # ys) = takeWhile P xs" if "\<not> P y" for P :: "char \<Rightarrow> bool" and xs y ys
    using that by (induction xs) auto
  then show ?thesis by (simp add: download_env_ok_def example_download_env_def example_clear_query_def)
qed

definition example_list_url :: gurl where
  "example_list_url = simple_gurl ''https://lists.com/a.txt''"

definition example_no_metadata :: PersistentMetadata where
  "example_no_metadata = LoadFromPrefs example_metadata_env []"

definition example_downloader :: "nat downloader" where
  "example_downloader =
     fst (StartDownload example_download_env example_no_metadata example_list_url RetryUntilSucceeded 1 no_downloads)"

lemma example_downloader_reachable:
  "download_reachable example_download_env [1] [] 0 (example_no_metadata, example_downloader)"
proof -
  have start: "StartDownload example_download_env example_no_metadata example_list_url RetryUntilSucceeded 1 no_downloads =
      (example_downloader, [])" 
    by (simp add: example_downloader_def StartDownload_def) code_simp
  show ?thesis using dr_start [OF dr_init start] by simp
qed

text \<open>C19: Whatever lists the downloader is asked for and redirected to, every download has a URL that \<open>IsUrlAllowed\<close>
  lets pass (\<open>https\<close>, \<open>data\<close> or local), also after redirects, and the request it has out is for that URL with the parameters
  of the client. While there is a network, the download of a list whose own URL has no query is never stuck: its
  request is loading, its retry timer runs, or a conversion for it was started, and each of these finds the download
  when it ends. For a list with a query in its URL the code may lose the answer: of the events that are possible it is
  exactly the answer to such a list, with no download under the URL without the query, that fails. The HEAD
  requests that count users are no downloads and are not checked by the code.\<close>

theorem downloads_are_allowed_and_do_not_hang:
  assumes "download_reachable env cbs es n (m, d)" "download_env_ok env" "de_has_network env"
  shows "(\<forall>(key, dl)\<in>set (ongoing_downloads d).
      IsUrlAllowed env key \<and> asks_for env key (rq_url (od_request dl)) \<and>
      (without_query env key \<longrightarrow> (\<forall>b result. download_in_progress env m d key b result))) \<and>
    (\<forall>ev. event_possible ev d \<longrightarrow> (download_step env ev (m, d) = None \<longleftrightarrow> answer_is_lost env ev d)) \<and>
    (\<forall>ev. event_possible ev d \<and> answer_is_lost env ev d \<longrightarrow> (\<exists>key b. ev = Request_done key b \<and> \<not> without_query env key))"
proof -
  have ok: "downloads_ok env d" using reachable_ok [OF assms(1,2)] by simp
  have "IsUrlAllowed env key \<and> asks_for env key (rq_url (od_request dl)) \<and>
      (without_query env key \<longrightarrow> (\<forall>b result. download_in_progress env m d key b result))"
    if "(key, dl) \<in> set (ongoing_downloads d)" for key dl
    using downloads_okD(3) [OF ok that] download_progress [OF assms(2) ok assms(3) that] by (simp add: download_ok_def)
  moreover have "\<forall>ev. event_possible ev d \<longrightarrow> (download_step env ev (m, d) = None \<longleftrightarrow> answer_is_lost env ev d)"
    using download_step_fails_iff [OF assms(2) ok] by blast
  moreover have "\<exists>key b. ev = Request_done key b \<and> \<not> without_query env key"
    if "event_possible ev d" "answer_is_lost env ev d" for ev
    using lost_answers_have_a_query [OF that(2,1)] by metis
  ultimately show ?thesis by blast
qed

theorem downloads_are_allowed_and_do_not_hang_witness:
  "IsUrlAllowed example_download_env example_list_url \<and>
   (event_possible (Request_done example_list_url True) example_downloader \<or>
    event_possible (Retry_timer example_list_url) example_downloader \<or>
    event_possible (Conversion_done example_list_url (ConversionError [])) example_downloader)"
proof -
  have network: "de_has_network example_download_env" by (simp add: example_download_env_def)
  have "ongoing_downloads example_downloader \<noteq> [] \<and> fst (hd (ongoing_downloads example_downloader)) = example_list_url"
    by code_simp
  then have "(example_list_url, snd (hd (ongoing_downloads example_downloader))) \<in> set (ongoing_downloads example_downloader)"
    by (metis hd_in_set prod.collapse)
  moreover have "without_query example_download_env example_list_url" by code_simp
  ultimately show ?thesis
    using downloads_are_allowed_and_do_not_hang [OF example_downloader_reachable example_download_env_ok network]
    unfolding download_in_progress_def by blast
qed

text \<open>Every answer of the network, of a timer and of a conversion that is not lost leads to a state in which all of
  this holds again.\<close>

theorem answers_find_their_download:
  assumes "download_reachable env cbs es n (m, d)" "download_env_ok env" "event_possible ev d" "\<not> answer_is_lost env ev d"
  shows "\<exists>s' e. download_step env ev (m, d) = Some (s', e) \<and>
    download_reachable env cbs (es @ e) (n + follows_redirect env ev d) s'"
proof -
  have "downloads_ok env d" using reachable_ok [OF assms(1,2)] by simp
  then obtain s' e where "download_step env ev (m, d) = Some (s', e)"
    using download_step_fails_iff [OF assms(2) _ assms(3), of m] assms(4) by (metis not_None_eq surj_pair)
  then show ?thesis using dr_event [OF assms(1,3)] by blast
qed

theorem answers_find_their_download_witness:
  "\<exists>s' e. download_step example_download_env (Request_done example_list_url False) (example_no_metadata, example_downloader) =
      Some (s', e) \<and>
    download_reachable example_download_env [1] ([] @ e)
      (0 + follows_redirect example_download_env (Request_done example_list_url False) example_downloader) s'"
proof (rule answers_find_their_download [OF example_downloader_reachable example_download_env_ok])
  show "event_possible (Request_done example_list_url False) example_downloader" by code_simp
  show "\<not> answer_is_lost example_download_env (Request_done example_list_url False) example_downloader" by code_simp
qed

lemma list_url_with_a_query_is_not_found:
  "download_step example_download_env (Request_done (simple_gurl ''https://lists.com/a.txt?x=1'') True)
     (example_no_metadata, fst (StartDownload example_download_env example_no_metadata
        (simple_gurl ''https://lists.com/a.txt?x=1'') RetryUntilSucceeded (1 :: nat) no_downloads)) = None"
  by code_simp

text \<open>A callback is run at most once for every time it is given to the downloader: those that were run and
  those still held are among those given.\<close>

theorem callbacks_run_at_most_once:
  assumes "download_reachable env cbs es n (m, d)" "download_env_ok env"
  shows "held d + callbacks_run es \<subseteq># mset cbs"
  using reachable_held [OF assms] by simp

theorem callbacks_run_at_most_once_witness:
  "held example_downloader + callbacks_run [] \<subseteq># mset [1]"
  by (rule callbacks_run_at_most_once [OF example_downloader_reachable example_download_env_ok])

text \<open>At most five redirects are followed for every download that was started, however lists redirect to one
  another.\<close>

theorem redirects_are_bounded:
  assumes "download_reachable env cbs es n (m, d)" "download_env_ok env"
  shows "n \<le> kMaxNumberOfRedirects * length cbs"
  using reachable_budget [OF assms] by simp

theorem redirects_are_bounded_witness: "0 \<le> kMaxNumberOfRedirects * length [1 :: nat]"
  by (rule redirects_are_bounded [OF example_downloader_reachable example_download_env_ok])

end
