(* ===== verification/Maintainer_Frame.thy ===== *)
theory Maintainer_Frame
  imports Maintainer Downloader_Facts
begin

text \<open>
  What the operations of the maintainer leave alone: its configuration and the state of the load, the metadata aside
  its storage while the downloader answers, and the order of its downloader. While it loads it has nothing to do.
\<close>

section \<open>What stays as it is\<close>

text \<open>The configuration with the filters made of it, and how far the load of the stored lists is.\<close>

definition kept :: "maintainer \<Rightarrow> FilteringConfiguration \<times> InstalledSubscriptionImpl option \<times> bool \<times> load_state" where
  "kept s = (mt_configuration s, mt_custom_filters s, mt_initialized s, mt_loading s)"

lemma kept_update [simp]:
  "kept (s\<lparr>mt_current_state := xs\<rparr>) = kept s" "kept (s\<lparr>mt_configuration_prefs := ps\<rparr>) = kept s"
  "kept (s\<lparr>mt_ongoing_installations := og\<rparr>) = kept s" "kept (s\<lparr>mt_next_installation := i\<rparr>) = kept s"
  "kept (s\<lparr>mt_storage := st\<rparr>) = kept s" "kept (s\<lparr>mt_downloader := d\<rparr>) = kept s"
  "kept (s\<lparr>mt_preloaded := p\<rparr>) = kept s" "kept (s\<lparr>mt_storing := w\<rparr>) = kept s"
  "kept (s\<lparr>mt_schedule_running := b\<rparr>) = kept s" "kept (s\<lparr>mt_updated := us\<rparr>) = kept s"
  by (simp_all add: kept_def)

lemma run_callbacks_kept: "kept (run_callbacks env now es s) = kept s"
proof (induction es arbitrary: s)
  case (Cons e es)
  then show ?case
    by (cases e) (auto simp: run_callbacks_def OnSubscriptionDataAvailable_def UpdatePreloadedSubscriptionProvider_def
        OnHeadRequestDone_def Let_def split: option.splits)
qed (simp add: run_callbacks_def)

lemma DownloadAndInstall_kept: "kept (DownloadAndInstallSubscription env u s) = kept s"
  by (simp add: DownloadAndInstallSubscription_def Let_def run_callbacks_kept UpdatePreloadedSubscriptionProvider_def
      split: prod.splits)

lemma fold_download_kept: "kept (fold (DownloadAndInstallSubscription env) us s) = kept s"
  by (induction us arbitrary: s) (simp_all add: DownloadAndInstall_kept)

lemma storage_remove_kept: "storage_remove x s = Some t \<Longrightarrow> kept t = kept s"
  by (auto simp: storage_remove_def split: Option.bind_splits)

lemma UninstallInternal_kept:
  "UninstallSubscriptionInternal env u s = Some (b, t) \<Longrightarrow> kept t = kept s"
  by (auto simp: UninstallSubscriptionInternal_def dest: storage_remove_kept
      split: Option.bind_splits option.splits prod.splits)

lemma Uninstall_kept: "Maintainer_UninstallSubscription env u s = Some t \<Longrightarrow> kept t = kept s"
  by (auto simp: Maintainer_UninstallSubscription_def Let_def UpdatePreloadedSubscriptionProvider_def
      dest!: UninstallInternal_kept split: Option.bind_splits if_splits)

lemma uninstall_all_kept: "uninstall_all env us s = Some t \<Longrightarrow> kept t = kept s"
  by (induction us arbitrary: s) (auto dest!: Uninstall_kept split: Option.bind_splits)

lemma OnFilterListsChanged_kept: "OnFilterListsChanged env s = Some t \<Longrightarrow> kept t = kept s"
  by (auto simp: OnFilterListsChanged_def RemoveUnneededSubscriptions_def InstallMissingSubscriptions_def Let_def
      fold_download_kept dest!: uninstall_all_kept split: if_splits)

lemma remove_duplicates_kept:
  "remove_duplicates env xs unique s = Some (ys, t) \<Longrightarrow> kept t = kept s"
  by (induction xs arbitrary: unique s) (auto dest!: storage_remove_kept split: if_splits Option.bind_splits)

lemma update_expired_kept: "kept (update_expired env now xs s) = kept s"
  by (induction xs arbitrary: s) (simp_all add: Let_def DownloadAndInstall_kept)

lemma RunUpdateCheck_kept: "kept (RunUpdateCheck env now s) = kept s"
  by (auto simp: RunUpdateCheck_def Let_def PingAcceptableAds_def run_callbacks_kept update_expired_kept
      split: prod.splits)

lemma SubscriptionAddedToStorage_kept:
  "SubscriptionAddedToStorage env i x s = Some t \<Longrightarrow> kept t = kept s"
  by (auto simp: SubscriptionAddedToStorage_def Let_def UpdatePreloadedSubscriptionProvider_def
      dest!: storage_remove_kept UninstallInternal_kept
      split: Option.bind_splits option.splits if_splits)

section \<open>Custom filters\<close>

text \<open>The custom filters of a configuration, as lines, and the list that a maintainer makes of them.\<close>

definition custom_lines :: "FilteringConfiguration \<Rightarrow> string list" where
  "custom_lines c = GetCustomFilters c @ map CreateDomainAllowlistingFilter (GetAllowedDomains c)"

definition custom_list :: "maintainer_env \<Rightarrow> FilteringConfiguration \<Rightarrow> InstalledSubscriptionImpl option" where
  "custom_list env c = (if custom_lines c = [] then None else Some (ConvertCustomFilters env (custom_lines c)))"

lemma SetCustomFilters_kept:
  "kept (SetCustomFilters env s) =
    (mt_configuration s, custom_list env (mt_configuration s), mt_initialized s, mt_loading s)"
  by (simp add: SetCustomFilters_def Let_def kept_def custom_list_def custom_lines_def)

lemma StorageInitialized_kept:
  assumes "StorageInitialized env loaded s = Some t"
  shows "kept t = (mt_configuration s, custom_list env (mt_configuration s), True, mt_loading s)"
proof -
  obtain v w where v: "RemoveDuplicateSubscriptions env (s\<lparr>mt_current_state := loaded, mt_initialized := True\<rparr>) = Some v"
    and w: "OnFilterListsChanged env v = Some w" and t: "t = (OnCustomFiltersChanged env w)\<lparr>mt_schedule_running := True\<rparr>"
    using assms by (auto simp: StorageInitialized_def split: Option.bind_splits)
  have "kept v = kept (s\<lparr>mt_initialized := True\<rparr>)"
    using v by (auto simp: RemoveDuplicateSubscriptions_def kept_def [of "_\<lparr>mt_current_state := _, mt_initialized := _\<rparr>"]
        kept_def [of "_\<lparr>mt_initialized := _\<rparr>"] dest!: remove_duplicates_kept split: Option.bind_splits)
  then have "kept w = kept (s\<lparr>mt_initialized := True\<rparr>)" using OnFilterListsChanged_kept [OF w] by simp
  then have "mt_configuration w = mt_configuration s" "mt_initialized w" "mt_loading w = mt_loading s" by (simp_all add: kept_def)
  then show ?thesis by (simp add: t OnCustomFiltersChanged_def SetCustomFilters_kept)
qed

section \<open>Downloads\<close>

lemma run_callback_frame:
  "mt_downloader (run_callback env now e s) = mt_downloader s"
  "mt_storage (run_callback env now e s) = (mt_storage s)\<lparr>st_metadata := st_metadata (mt_storage (run_callback env now e s))\<rparr>"
  "mt_current_state (run_callback env now e s) = mt_current_state s"
  by (cases e; simp add: OnSubscriptionDataAvailable_def UpdatePreloadedSubscriptionProvider_def OnHeadRequestDone_def
      Let_def split: option.splits)+

lemma run_callbacks_frame:
  "mt_downloader (run_callbacks env now es s) = mt_downloader s \<and>
   mt_storage (run_callbacks env now es s) = (mt_storage s)\<lparr>st_metadata := st_metadata (mt_storage (run_callbacks env now es s))\<rparr> \<and>
   mt_current_state (run_callbacks env now es s) = mt_current_state s"
proof (induction es arbitrary: s)
  case (Cons e es)
  have "run_callbacks env now (e # es) s = run_callbacks env now es (run_callback env now e s)"
    by (simp add: run_callbacks_def)
  then show ?case using Cons.IH [of "run_callback env now e s"] run_callback_frame [of env now e s]
    by (metis storage.surjective storage.update_convs(4))
qed (simp add: run_callbacks_def)

text \<open>The downloader stays in order.\<close>

abbreviation downloader_ok :: "maintainer_env \<Rightarrow> maintainer \<Rightarrow> bool" where
  "downloader_ok env s \<equiv> downloads_ok (me_download env) (mt_downloader s)"

lemma UpdatePreloaded_downloader [simp]: "mt_downloader (UpdatePreloadedSubscriptionProvider env s) = mt_downloader s"
  by (simp add: UpdatePreloadedSubscriptionProvider_def)

lemma DownloadAndInstall_downloader:
  assumes "downloader_ok env s"
  shows "downloader_ok env (DownloadAndInstallSubscription env u s)"
proof -
  have "downloads_ok (me_download env) d"
    if "StartDownload (me_download env) m u pol cb (mt_downloader s) = (d, es)" for m pol cb d es
    using StartDownload_ok [OF assms, of m u pol cb] that by simp
  then show ?thesis
    by (auto simp: DownloadAndInstallSubscription_def Let_def run_callbacks_frame split: prod.split)
qed

lemma fold_download_downloader: "downloader_ok env s \<Longrightarrow> downloader_ok env (fold (DownloadAndInstallSubscription env) us s)"
  by (induction us arbitrary: s) (simp_all add: DownloadAndInstall_downloader)

lemma storage_remove_downloader: "storage_remove x s = Some t \<Longrightarrow> mt_downloader t = mt_downloader s"
  by (auto simp: storage_remove_def split: Option.bind_splits)

lemma UninstallInternal_downloader:
  "UninstallSubscriptionInternal env u s = Some (b, t) \<Longrightarrow> downloader_ok env s \<Longrightarrow> downloader_ok env t"
  by (auto simp: UninstallSubscriptionInternal_def CancelDownload_ok dest: storage_remove_downloader
      split: Option.bind_splits option.splits prod.splits)

lemma Uninstall_downloader: "Maintainer_UninstallSubscription env u s = Some t \<Longrightarrow> downloader_ok env s \<Longrightarrow> downloader_ok env t"
  by (auto simp: Maintainer_UninstallSubscription_def Let_def dest!: UninstallInternal_downloader
      split: Option.bind_splits if_splits)

lemma uninstall_all_downloader: "uninstall_all env us s = Some t \<Longrightarrow> downloader_ok env s \<Longrightarrow> downloader_ok env t"
  by (induction us arbitrary: s) (auto dest!: Uninstall_downloader split: Option.bind_splits)

lemma OnFilterListsChanged_downloader:
  "OnFilterListsChanged env s = Some t \<Longrightarrow> downloader_ok env s \<Longrightarrow> downloader_ok env t"
  by (auto simp: OnFilterListsChanged_def RemoveUnneededSubscriptions_def InstallMissingSubscriptions_def Let_def
      dest!: uninstall_all_downloader intro!: fold_download_downloader split: if_splits)

lemma SetCustomFilters_downloader [simp]: "mt_downloader (SetCustomFilters env s) = mt_downloader s"
  by (simp add: SetCustomFilters_def Let_def)

lemma update_expired_downloader: "downloader_ok env s \<Longrightarrow> downloader_ok env (update_expired env now xs s)"
  by (induction xs arbitrary: s) (simp_all add: Let_def DownloadAndInstall_downloader)

lemma RunUpdateCheck_downloader:
  assumes "downloader_ok env s"
  shows "downloader_ok env (RunUpdateCheck env now s)"
proof -
  have "downloader_ok env (PingAcceptableAds env now t)" if "downloader_ok env t" for t
    using DoHeadRequest_ok [OF that] by (auto simp: PingAcceptableAds_def run_callbacks_frame split: prod.split) (metis fst_conv)
  then show ?thesis using update_expired_downloader [OF assms] by (simp add: RunUpdateCheck_def Let_def)
qed

lemma SubscriptionAddedToStorage_downloader:
  "SubscriptionAddedToStorage env i x s = Some t \<Longrightarrow> downloader_ok env s \<Longrightarrow> downloader_ok env t"
  by (auto simp: SubscriptionAddedToStorage_def Let_def dest: storage_remove_downloader
      dest!: UninstallInternal_downloader split: Option.bind_splits option.splits if_splits)

lemma remove_duplicates_downloader:
  "remove_duplicates env xs unique s = Some (ys, t) \<Longrightarrow> mt_downloader t = mt_downloader s"
  by (induction xs arbitrary: unique s) (auto dest!: storage_remove_downloader split: if_splits Option.bind_splits)

lemma StorageInitialized_downloader:
  "StorageInitialized env loaded s = Some t \<Longrightarrow> downloader_ok env s \<Longrightarrow> downloader_ok env t"
  by (auto simp: StorageInitialized_def RemoveDuplicateSubscriptions_def OnCustomFiltersChanged_def
      dest!: remove_duplicates_downloader OnFilterListsChanged_downloader split: Option.bind_splits)

section \<open>While the stored lists are loaded\<close>

definition idle :: "maintainer \<Rightarrow> bool" where
  "idle s \<longleftrightarrow> mt_current_state s = [] \<and> mt_ongoing_installations s = [] \<and> mt_storing s = [] \<and>
     GetCurrentPreloadedSubscriptions (mt_preloaded s) = []"

lemma idle_update [simp]:
  "idle (s\<lparr>mt_storage := st\<rparr>) = idle s" "idle (s\<lparr>mt_downloader := d\<rparr>) = idle s" "idle (s\<lparr>mt_loading := l\<rparr>) = idle s"
  "idle (s\<lparr>mt_configuration := c\<rparr>) = idle s" "idle (s\<lparr>mt_configuration_prefs := p\<rparr>) = idle s"
  "idle (s\<lparr>mt_initialized := b\<rparr>) = idle s" "idle (s\<lparr>mt_custom_filters := f\<rparr>) = idle s"
  by (simp_all add: idle_def)

lemma no_preloaded_lists:
  "GetCurrentPreloadedSubscriptions (UpdateSubscriptions env [] [] p) = []"
proof -
  have "sp_subscription (UpdatePreloadedSubscription env [] [] q) = None" for q
    by (simp add: UpdatePreloadedSubscription_def HasSubscriptionWithMatchingUrl_def Let_def)
  then have "List.map_filter sp_subscription (map (UpdatePreloadedSubscription env [] []) qs) = []" for qs
    by (induction qs) (simp_all add: map_filter_simps)
  then show ?thesis by (simp add: GetCurrentPreloadedSubscriptions_def UpdateSubscriptions_def)
qed

lemma UpdatePreloaded_idle: "idle s \<Longrightarrow> idle (UpdatePreloadedSubscriptionProvider env s)"
  by (simp add: idle_def UpdatePreloadedSubscriptionProvider_def GetReadySubscriptions_def GetPendingSubscriptions_def
      no_preloaded_lists)

lemma run_callbacks_idle: "idle s \<Longrightarrow> idle (run_callbacks env now es s)"
proof (induction es arbitrary: s)
  case (Cons e es)
  have "idle (run_callback env now e s)"
  proof (cases e)
    case (Download_completed i raw)
    have "i \<notin> fst ` set (mt_ongoing_installations s)" using Cons.prems by (simp add: idle_def)
    then show ?thesis
      using UpdatePreloaded_idle [OF Cons.prems] Download_completed by (simp add: OnSubscriptionDataAvailable_def)
  qed (use Cons.prems in \<open>simp add: OnHeadRequestDone_def Let_def\<close>)
  then show ?case using Cons.IH by (simp add: run_callbacks_def)
qed (simp add: run_callbacks_def)

lemma RunUpdateCheck_idle:
  assumes "idle s"
  shows "idle (RunUpdateCheck env now s)"
    "mt_storage (RunUpdateCheck env now s) = (mt_storage s)\<lparr>st_metadata := st_metadata (mt_storage (RunUpdateCheck env now s))\<rparr>"
proof -
  have none: "update_expired env now (mt_current_state s) s = s" using assms by (simp add: idle_def)
  have "idle (PingAcceptableAds env now s)"
    using assms by (auto simp: PingAcceptableAds_def intro: run_callbacks_idle split: prod.split)
  then show "idle (RunUpdateCheck env now s)" using assms none by (simp add: RunUpdateCheck_def Let_def)
  obtain d es where d: "DoHeadRequest (me_download env) (st_metadata (mt_storage s)) (AcceptableAdsUrl (me_config env)) 0
      (mt_downloader s) = (d, es)" by fastforce
  have "mt_storage (PingAcceptableAds env now s) = (mt_storage s)\<lparr>st_metadata := st_metadata (mt_storage (PingAcceptableAds env now s))\<rparr>"
    using run_callbacks_frame [of env now es "s\<lparr>mt_downloader := d\<rparr>"] d by (simp add: PingAcceptableAds_def)
  then show "mt_storage (RunUpdateCheck env now s) = (mt_storage s)\<lparr>st_metadata := st_metadata (mt_storage (RunUpdateCheck env now s))\<rparr>"
    using none by (simp add: RunUpdateCheck_def Let_def)
qed

lemma SubscriptionAddedToStorage_idle:
  assumes "SubscriptionAddedToStorage env i x s = Some t" "idle s"
  shows "idle t"
proof -
  have "i \<notin> fst ` set (mt_ongoing_installations s)" using assms(2) by (simp add: idle_def)
  then show ?thesis
    using assms by (auto simp: SubscriptionAddedToStorage_def storage_remove_def intro!: UpdatePreloaded_idle
        split: option.splits Option.bind_splits)
qed

end
