(* ===== verification/Maintainer_Facts.thy ===== *)
theory Maintainer_Facts
  imports Maintainer_Frame Storage_Facts
begin

text \<open>
  The maintainer keeps the installed and the pending subscriptions in step with the configuration: what every
  operation does to the two, and what holds of them at all times.
\<close>

section \<open>Differences of sorted ranges\<close>

definition specs_differ :: "gurl set \<Rightarrow> bool" where
  "specs_differ us \<longleftrightarrow> inj_on spec us"

text \<open>As the standard has it, the difference is one of multisets.\<close>

lemma set_difference_mset:
  assumes "sorted (map spec xs)" "sorted (map spec ys)" "specs_differ (set xs \<union> set ys)"
  shows "mset (set_difference xs ys) = mset xs - mset ys"
  using assms
proof (induction xs ys rule: set_difference.induct)
  case (3 x xs y ys)
  have inj: "spec a = spec b \<Longrightarrow> a = b" if "a \<in> set (x # xs) \<union> set (y # ys)" "b \<in> set (x # xs) \<union> set (y # ys)" for a b
    using 3(6) that unfolding specs_differ_def inj_on_def by blast
  have sub: "specs_differ (set xs \<union> set (y # ys))" "specs_differ (set (x # xs) \<union> set ys)" "specs_differ (set xs \<union> set ys)"
    using 3(6) by (auto simp: specs_differ_def elim: inj_on_subset)
  have srt: "sorted (map spec xs)" "sorted (map spec ys)" using 3(4,5) by simp_all
  consider (lt) "spec x < spec y" | (gt) "spec y < spec x" | (eq) "spec x = spec y" by (metis linorder_less_linear)
  then show ?case
  proof cases
    case lt
    have "x \<notin> set (y # ys)" using lt 3(5) by auto
    then have "count (mset (y # ys)) x = 0" by (meson count_mset_0_iff)
    moreover have "mset (set_difference xs (y # ys)) = mset xs - mset (y # ys)"
      by (rule 3(1) [OF lt srt(1) 3(5) sub(1)])
    moreover have "set_difference (x # xs) (y # ys) = x # set_difference xs (y # ys)" using lt by simp
    ultimately show ?thesis by (intro multiset_eqI) (simp del: mset.simps add: mset.simps(2) [of x])
  next
    case gt
    then have nlt: "\<not> spec x < spec y" by simp
    have "y \<notin> set (x # xs)" using gt 3(4) by auto
    then have "count (mset (x # xs)) y = 0" by (meson count_mset_0_iff)
    moreover have "mset (set_difference (x # xs) ys) = mset (x # xs) - mset ys"
      by (rule 3(2) [OF nlt gt 3(4) srt(2) sub(2)])
    moreover have "set_difference (x # xs) (y # ys) = set_difference (x # xs) ys" using gt nlt by simp
    ultimately show ?thesis by (intro multiset_eqI) (simp del: mset.simps add: mset.simps(2) [of y])
  next
    case eq
    then have n: "\<not> spec x < spec y" "\<not> spec y < spec x" by simp_all
    have "x = y" using inj [of x y] eq by simp
    moreover have "mset (set_difference xs ys) = mset xs - mset ys"
      by (rule 3(3) [OF n srt sub(3)])
    moreover have "set_difference (x # xs) (y # ys) = set_difference xs ys" using eq by simp
    ultimately show ?thesis by simp
  qed
qed auto

lemma set_difference_sorted:
  assumes "specs_differ (set xs \<union> set ys)"
  shows "mset (set_difference (sort_key spec xs) (sort_key spec ys)) = mset xs - mset ys"
  using set_difference_mset [of "sort_key spec xs" "sort_key spec ys"] assms by simp

section \<open>What holds at all times\<close>

text \<open>All URLs come out of the parser, which is the same for all components and reads the spec of a URL as that
  URL.\<close>

definition parsed :: "maintainer_env \<Rightarrow> gurl \<Rightarrow> bool" where
  "parsed env u \<longleftrightarrow> ce_parse_url (me_config env) (spec u) = u"

definition maintainer_env_ok :: "maintainer_env \<Rightarrow> bool" where
  "maintainer_env_ok env \<longleftrightarrow> env_parse_url (env_net (me_storage env)) = ce_parse_url (me_config env) \<and>
     (\<forall>s. parsed env (ce_parse_url (me_config env) s))"

lemma parsed_source_url: "maintainer_env_ok env \<Longrightarrow> parsed env (source_url env x)"
  by (simp add: maintainer_env_ok_def source_url_def GetSourceUrl_def)

lemma parsed_specs_differ: "\<forall>u\<in>us. parsed env u \<Longrightarrow> specs_differ us"
  unfolding specs_differ_def inj_on_def parsed_def by metis

definition installed_ok :: "maintainer_env \<Rightarrow> maintainer \<Rightarrow> bool" where
  "installed_ok env s \<longleftrightarrow> distinct (GetReadySubscriptions env s) \<and> distinct (map ss_id (mt_current_state s)) \<and>
     ss_id ` set (mt_current_state s) \<subseteq> fst ` set (st_backing (mt_storage s)) \<and>
     storage_ok (me_storage env) (mt_storage s)"

definition pending_ok :: "maintainer_env \<Rightarrow> maintainer \<Rightarrow> bool" where
  "pending_ok env s \<longleftrightarrow> distinct (map fst (mt_ongoing_installations s)) \<and> distinct (GetPendingSubscriptions s) \<and>
     (\<forall>(i, u)\<in>set (mt_ongoing_installations s). i < mt_next_installation s \<and> parsed env u) \<and>
     (\<forall>(i, d)\<in>set (mt_storing s). i < mt_next_installation s)"

definition preloaded_ok :: "maintainer_env \<Rightarrow> maintainer \<Rightarrow> bool" where
  "preloaded_ok env s \<longleftrightarrow> provider_ok (me_preloaded env) (mt_preloaded s) \<and>
     GetCurrentPreloadedSubscriptions (mt_preloaded s) =
       map (preloaded_subscription (me_preloaded env))
         (filter (needed (me_preloaded env) (GetReadySubscriptions env s) (GetPendingSubscriptions s))
           GetPreloadedSubscriptionConfiguration)"

definition demand_ok :: "maintainer_env \<Rightarrow> maintainer \<Rightarrow> bool" where
  "demand_ok env s \<longleftrightarrow> config_ok (mt_configuration s) \<and>
     (let lists = GetFromList (cfg_dictionary (mt_configuration s)) kFilterListsKey
      in distinct lists \<and> (\<forall>l\<in>set lists. spec (ce_parse_url (me_config env) l) = l))"

definition maintainer_ok :: "maintainer_env \<Rightarrow> maintainer \<Rightarrow> bool" where
  "maintainer_ok env s \<longleftrightarrow> installed_ok env s \<and> pending_ok env s \<and> preloaded_ok env s \<and> demand_ok env s"

lemma demand_distinct: "demand_ok env s \<Longrightarrow> distinct (mt_filter_lists env s)"
  unfolding demand_ok_def Let_def mt_filter_lists_def GetFilterLists_def
  by (auto simp: distinct_map inj_on_def) metis

lemma demand_parsed: "maintainer_env_ok env \<Longrightarrow> u \<in> set (mt_filter_lists env s) \<Longrightarrow> parsed env u"
  by (auto simp: maintainer_env_ok_def mt_filter_lists_def GetFilterLists_def)

subsection \<open>The preloaded lists\<close>

lemma UpdatePreloaded_fields [simp]:
  "mt_configuration (UpdatePreloadedSubscriptionProvider env s) = mt_configuration s"
  "mt_configuration_prefs (UpdatePreloadedSubscriptionProvider env s) = mt_configuration_prefs s"
  "mt_initialized (UpdatePreloadedSubscriptionProvider env s) = mt_initialized s"
  "mt_current_state (UpdatePreloadedSubscriptionProvider env s) = mt_current_state s"
  "mt_ongoing_installations (UpdatePreloadedSubscriptionProvider env s) = mt_ongoing_installations s"
  "mt_next_installation (UpdatePreloadedSubscriptionProvider env s) = mt_next_installation s"
  "mt_storage (UpdatePreloadedSubscriptionProvider env s) = mt_storage s"
  "mt_downloader (UpdatePreloadedSubscriptionProvider env s) = mt_downloader s"
  "mt_custom_filters (UpdatePreloadedSubscriptionProvider env s) = mt_custom_filters s"
  "mt_storing (UpdatePreloadedSubscriptionProvider env s) = mt_storing s"
  "mt_updated (UpdatePreloadedSubscriptionProvider env s) = mt_updated s"
  by (simp_all add: UpdatePreloadedSubscriptionProvider_def)

lemma ready_cong: "mt_current_state s = mt_current_state s' \<Longrightarrow> GetReadySubscriptions env s = GetReadySubscriptions env s'"
  by (simp add: GetReadySubscriptions_def)

lemma pending_cong:
  "mt_ongoing_installations s = mt_ongoing_installations s' \<Longrightarrow> GetPendingSubscriptions s = GetPendingSubscriptions s'"
  by (simp add: GetPendingSubscriptions_def)

lemma UpdatePreloaded_lists [simp]:
  "GetReadySubscriptions env (UpdatePreloadedSubscriptionProvider env' s) = GetReadySubscriptions env s"
  "GetPendingSubscriptions (UpdatePreloadedSubscriptionProvider env' s) = GetPendingSubscriptions s"
  "mt_filter_lists env (UpdatePreloadedSubscriptionProvider env' s) = mt_filter_lists env s"
  by (simp_all add: GetReadySubscriptions_def GetPendingSubscriptions_def mt_filter_lists_def)

lemma UpdatePreloaded_ok:
  "provider_ok (me_preloaded env) (mt_preloaded s) \<Longrightarrow> preloaded_ok env (UpdatePreloadedSubscriptionProvider env s)"
  unfolding preloaded_ok_def UpdatePreloaded_lists
  by (simp add: UpdatePreloadedSubscriptionProvider_def UpdateSubscriptions_ok GetCurrentPreloaded_eq)

lemma UpdatePreloaded_invariants [simp]:
  "installed_ok env (UpdatePreloadedSubscriptionProvider env s) = installed_ok env s"
  "pending_ok env (UpdatePreloadedSubscriptionProvider env s) = pending_ok env s"
  "demand_ok env (UpdatePreloadedSubscriptionProvider env s) = demand_ok env s"
  by (simp_all add: installed_ok_def pending_ok_def demand_ok_def)

section \<open>Uninstalling\<close>

lemma find_source:
  "List.find (\<lambda>x. source_url env x = u) xs = None \<longleftrightarrow> u \<notin> set (map (source_url env) xs)"
  "List.find (\<lambda>x. source_url env x = u) xs = Some x \<Longrightarrow> x \<in> set xs \<and> source_url env x = u"
  by (auto simp: find_None_iff find_Some_iff)

lemma find_pending:
  "List.find (\<lambda>(i, u). u = v) xs = None \<longleftrightarrow> v \<notin> snd ` set xs"
  "List.find (\<lambda>(i, u). u = v) xs = Some (i, u) \<Longrightarrow> u = v \<and> (i, v) \<in> set xs"
  by (force simp: find_None_iff) (auto dest: find_SomeD)

lemma remove1_source:
  assumes "distinct (map (source_url env) xs)" "x \<in> set xs"
  shows "map (source_url env) (remove1 x xs) = remove1 (source_url env x) (map (source_url env) xs)"
  using assms by (induction xs) (auto simp: image_iff)

lemma delete_pending:
  assumes "distinct (map fst xs)" "distinct (map snd xs)" "(i, u) \<in> set xs"
  shows "map snd (AList.delete i xs) = remove1 u (map snd xs)"
  using assms
proof (induction xs)
  case (Cons x xs)
  show ?case
  proof (cases "x = (i, u)")
    case True
    then have "i \<notin> fst ` set xs" using Cons.prems by auto
    then show ?thesis using True by (simp add: AList.delete_id)
  next
    case False
    then have "(i, u) \<in> set xs" using Cons.prems by auto
    then have "i \<in> fst ` set xs" "u \<in> snd ` set xs" by force+
    then have "fst x \<noteq> i" "snd x \<noteq> u" using Cons.prems by auto
    then show ?thesis using Cons \<open>(i, u) \<in> set xs\<close> by (cases x) simp
  qed
qed simp

text \<open>The subscription of a URL, if there is one, is taken out of the storage; the state is otherwise
  unchanged.\<close>

lemma RemoveSubscription_backed:
  assumes "storage_ok e st" "i \<in> fst ` set (st_backing st)"
  obtains st' where "RemoveSubscription i st = Some st'" "storage_ok e st'"
    "fst ` set (st_backing st') = fst ` set (st_backing st) - {i}"
proof -
  obtain p where p: "map_of (st_backing st) i = Some p"
    using assms(2) by (metis map_of_eq_None_iff not_None_eq)
  let ?st = "st\<lparr>st_signatures := AList.delete p (st_signatures st),
      st_backing := AList.delete i (st_backing st), st_objects := mark_object i (st_objects st)\<rparr>"
  have r: "RemoveSubscription i st = Some ?st" using p by (simp add: RemoveSubscription_Some)
  have "storage_ok e ?st" by (rule RemoveSubscription_ok [OF assms(1) r])
  moreover have "fst ` set (st_backing ?st) = fst ` set (st_backing st) - {i}" by force
  ultimately show ?thesis using that r by blast
qed

lemma storage_remove_ok:
  assumes "installed_ok env s" "x \<in> set (mt_current_state s)"
  obtains st where "storage_remove x s = Some (s\<lparr>mt_storage := st\<rparr>)" "storage_ok (me_storage env) st"
    "fst ` set (st_backing st) = fst ` set (st_backing (mt_storage s)) - {ss_id x}"
proof -
  have "storage_ok (me_storage env) (mt_storage s)" "ss_id x \<in> fst ` set (st_backing (mt_storage s))"
    using assms by (auto simp: installed_ok_def)
  then obtain st where "RemoveSubscription (ss_id x) (mt_storage s) = Some st" "storage_ok (me_storage env) st"
    "fst ` set (st_backing st) = fst ` set (st_backing (mt_storage s)) - {ss_id x}"
    by (rule RemoveSubscription_backed)
  then show ?thesis using that by (simp add: storage_remove_def)
qed

lemma erase_first_find: "List.find P xs = Some x \<Longrightarrow> erase_first P xs = remove1 x xs"
  by (induction xs) (auto split: if_splits simp: find_Some_iff)

lemma UninstallInternal_effect:
  assumes "installed_ok env s" "pending_ok env s"
  obtains cs og st d where
    "UninstallSubscriptionInternal env u s =
      Some (u \<in> set (GetReadySubscriptions env s) \<or> u \<in> set (GetPendingSubscriptions s),
        s\<lparr>mt_current_state := cs, mt_ongoing_installations := og, mt_storage := st, mt_downloader := d\<rparr>)"
    "installed_ok env (s\<lparr>mt_current_state := cs, mt_ongoing_installations := og, mt_storage := st, mt_downloader := d\<rparr>)"
    "pending_ok env (s\<lparr>mt_current_state := cs, mt_ongoing_installations := og, mt_storage := st, mt_downloader := d\<rparr>)"
    "map (source_url env) cs = remove1 u (GetReadySubscriptions env s)"
    "map snd og = remove1 u (GetPendingSubscriptions s)"
    "set cs \<subseteq> set (mt_current_state s)"
    "fst ` set (st_backing (mt_storage s)) - ss_id ` set (mt_current_state s) \<subseteq> fst ` set (st_backing st)"
proof -
  define f where "f = (\<lambda>(removed, t :: maintainer).
      (case List.find (\<lambda>(i, v). v = u) (mt_ongoing_installations t) of
         None \<Rightarrow> Some (removed, t)
       | Some (i, v) \<Rightarrow>
           Some (True, t\<lparr>mt_ongoing_installations := AList.delete i (mt_ongoing_installations t),
                        mt_downloader := CancelDownload u (mt_downloader t)\<rparr>)))"
  have od: "distinct (map fst (mt_ongoing_installations s))" "distinct (map snd (mt_ongoing_installations s))"
    using assms(2) by (simp_all add: pending_ok_def GetPendingSubscriptions_def)
  have cancel: "\<exists>og d. f (b, s\<lparr>mt_current_state := cs, mt_storage := st\<rparr>) =
        Some (b \<or> u \<in> set (GetPendingSubscriptions s),
          s\<lparr>mt_current_state := cs, mt_ongoing_installations := og, mt_storage := st, mt_downloader := d\<rparr>) \<and>
      map snd og = remove1 u (GetPendingSubscriptions s) \<and> set og \<subseteq> set (mt_ongoing_installations s) \<and>
      distinct (map fst og)" for b cs st
  proof (cases "List.find (\<lambda>(i, v). v = u) (mt_ongoing_installations s)")
    case None
    then have "u \<notin> set (GetPendingSubscriptions s)" using find_pending(1) [of u "mt_ongoing_installations s"]
      by (simp add: GetPendingSubscriptions_def)
    then show ?thesis using None od
      by (intro exI [of _ "mt_ongoing_installations s"] exI [of _ "mt_downloader s"])
        (simp add: f_def GetPendingSubscriptions_def remove1_idem)
  next
    case (Some iv)
    then obtain i where i: "List.find (\<lambda>(i, v). v = u) (mt_ongoing_installations s) = Some (i, u)"
      "(i, u) \<in> set (mt_ongoing_installations s)" using find_pending(2) by (metis surj_pair)
    have "u \<in> set (GetPendingSubscriptions s)" using i(2) by (force simp: GetPendingSubscriptions_def)
    then show ?thesis
      using i delete_pending [OF od i(2)] od(1)
      by (intro exI [of _ "AList.delete i (mt_ongoing_installations s)"] exI [of _ "CancelDownload u (mt_downloader s)"])
        (auto simp: f_def GetPendingSubscriptions_def AList.distinct_delete AList.delete_eq distinct_map_filter)
  qed
  have pend: "pending_ok env (s\<lparr>mt_current_state := cs, mt_ongoing_installations := og, mt_storage := st, mt_downloader := d\<rparr>)"
    if og: "map snd og = remove1 u (GetPendingSubscriptions s)" "set og \<subseteq> set (mt_ongoing_installations s)" "distinct (map fst og)" for cs og st d
  proof -
    have "distinct (map snd og)" using og(1) assms(2) by (simp add: pending_ok_def distinct_remove1)
    moreover have "\<forall>(i, u)\<in>set og. i < mt_next_installation s \<and> parsed env u"
      using og(2) assms(2) unfolding pending_ok_def by blast
    moreover have "\<forall>(i, d)\<in>set (mt_storing s). i < mt_next_installation s" using assms(2) unfolding pending_ok_def by blast
    ultimately show ?thesis using og(3) by (simp add: pending_ok_def GetPendingSubscriptions_def)
  qed
  show ?thesis
  proof (cases "List.find (\<lambda>x. source_url env x = u) (mt_current_state s)")
    case None
    then have no: "u \<notin> set (GetReadySubscriptions env s)" using find_source(1) [of env u "mt_current_state s"]
      by (simp add: GetReadySubscriptions_def)
    obtain og d where og: "f (False, s\<lparr>mt_current_state := mt_current_state s, mt_storage := mt_storage s\<rparr>) =
        Some (u \<in> set (GetPendingSubscriptions s),
          s\<lparr>mt_current_state := mt_current_state s, mt_ongoing_installations := og, mt_storage := mt_storage s, mt_downloader := d\<rparr>)"
      "map snd og = remove1 u (GetPendingSubscriptions s)" "set og \<subseteq> set (mt_ongoing_installations s)" "distinct (map fst og)"
      using cancel [where b = False and cs = "mt_current_state s" and st = "mt_storage s"] by auto
    have "UninstallSubscriptionInternal env u s = f (False, s)"
      by (simp add: UninstallSubscriptionInternal_def None f_def)
    then show ?thesis
      using og no assms(1) pend [OF og(2-4), where cs = "mt_current_state s" and st = "mt_storage s" and d = d]
      by (intro that [where cs = "mt_current_state s" and og = og and st = "mt_storage s" and d = d])
        (simp_all add: remove1_idem GetReadySubscriptions_def installed_ok_def)
  next
    case (Some x)
    then have x: "x \<in> set (mt_current_state s)" "source_url env x = u" by (blast dest: find_source(2))+
    obtain st where st: "storage_remove x s = Some (s\<lparr>mt_storage := st\<rparr>)" "storage_ok (me_storage env) st"
      "fst ` set (st_backing st) = fst ` set (st_backing (mt_storage s)) - {ss_id x}"
      using storage_remove_ok [OF assms(1) x(1)] by metis
    let ?cs = "remove1 x (mt_current_state s)"
    obtain og d where og: "f (True, s\<lparr>mt_current_state := ?cs, mt_storage := st\<rparr>) =
        Some (True, s\<lparr>mt_current_state := ?cs, mt_ongoing_installations := og, mt_storage := st, mt_downloader := d\<rparr>)"
      "map snd og = remove1 u (GetPendingSubscriptions s)" "set og \<subseteq> set (mt_ongoing_installations s)" "distinct (map fst og)"
      using cancel [where b = True and cs = ?cs and st = st] by auto
    have swap: "s\<lparr>mt_storage := st, mt_current_state := ?cs\<rparr> = s\<lparr>mt_current_state := ?cs, mt_storage := st\<rparr>" by simp
    have "UninstallSubscriptionInternal env u s = f (True, s\<lparr>mt_storage := st, mt_current_state := ?cs\<rparr>)"
      by (simp add: UninstallSubscriptionInternal_def Some st(1) f_def erase_first_find [OF Some])
    then have "UninstallSubscriptionInternal env u s = f (True, s\<lparr>mt_current_state := ?cs, mt_storage := st\<rparr>)"
      by (simp only: swap)
    moreover have src: "map (source_url env) ?cs = remove1 u (GetReadySubscriptions env s)"
      using remove1_source [of env "mt_current_state s" x] assms(1) x by (simp add: installed_ok_def GetReadySubscriptions_def)
    moreover have "u \<in> set (GetReadySubscriptions env s)" using x by (auto simp: GetReadySubscriptions_def)
    moreover have "installed_ok env (s\<lparr>mt_current_state := ?cs, mt_ongoing_installations := og, mt_storage := st, mt_downloader := d\<rparr>)"
    proof -
      have ids: "distinct (map ss_id (mt_current_state s))" "ss_id ` set (mt_current_state s) \<subseteq> fst ` set (st_backing (mt_storage s))"
        using assms(1) by (simp_all add: installed_ok_def)
      have cs: "set ?cs = set (mt_current_state s) - {x}" "distinct (map ss_id ?cs)"
        using ids(1) by (auto simp: distinct_map inj_on_def distinct_remove1)
      have "ss_id ` set ?cs \<subseteq> fst ` set (st_backing st)"
        using ids x(1) st(3) cs(1) by (auto simp: distinct_map inj_on_def)
      moreover have "distinct (map (source_url env) ?cs)" using src assms(1) by (simp add: installed_ok_def distinct_remove1)
      ultimately show ?thesis using st(2) cs(2) by (simp add: installed_ok_def GetReadySubscriptions_def)
    qed
    ultimately show ?thesis
      using og pend [OF og(2-4)] st(3) x(1) by (intro that [where cs = ?cs and og = og and st = st and d = d]) (auto dest: notin_set_remove1)
  qed
qed

definition frame :: "maintainer \<Rightarrow> _" where
  "frame s = (mt_configuration s, mt_configuration_prefs s, mt_initialized s, mt_custom_filters s,
     mt_schedule_running s, mt_updated s, mt_storing s)"

lemma frame_demand: "frame s = frame t \<Longrightarrow> demand_ok env s = demand_ok env t \<and> mt_filter_lists env s = mt_filter_lists env t \<and>
    mt_initialized s = mt_initialized t"
  by (simp add: frame_def demand_ok_def mt_filter_lists_def)

definition synced :: "maintainer_env \<Rightarrow> maintainer \<Rightarrow> bool" where
  "synced env s \<longleftrightarrow> installed_ok env s \<and> pending_ok env s \<and> preloaded_ok env s"

lemma installed_ok_metadata: "installed_ok env (s\<lparr>mt_storage := (mt_storage s)\<lparr>st_metadata := m\<rparr>\<rparr>) = installed_ok env s"
  by (simp add: installed_ok_def GetReadySubscriptions_def)

lemma pending_ok_storage: "pending_ok env (s\<lparr>mt_storage := st\<rparr>) = pending_ok env s"
  by (simp add: pending_ok_def GetPendingSubscriptions_def)

lemma preloaded_ok_cong:
  "mt_current_state s = mt_current_state t \<Longrightarrow> mt_ongoing_installations s = mt_ongoing_installations t \<Longrightarrow>
    mt_preloaded s = mt_preloaded t \<Longrightarrow> preloaded_ok env s = preloaded_ok env t"
  by (simp add: preloaded_ok_def GetReadySubscriptions_def GetPendingSubscriptions_def)

lemma Uninstall_effect:
  assumes "synced env s"
  obtains s' where "Maintainer_UninstallSubscription env u s = Some s'" "synced env s'" "frame s' = frame s"
    "GetReadySubscriptions env s' = remove1 u (GetReadySubscriptions env s)"
    "GetPendingSubscriptions s' = remove1 u (GetPendingSubscriptions s)"
proof -
  have ok: "installed_ok env s" "pending_ok env s" "preloaded_ok env s" using assms by (simp_all add: synced_def)
  obtain cs og st d where
    u: "UninstallSubscriptionInternal env u s =
      Some (u \<in> set (GetReadySubscriptions env s) \<or> u \<in> set (GetPendingSubscriptions s),
        s\<lparr>mt_current_state := cs, mt_ongoing_installations := og, mt_storage := st, mt_downloader := d\<rparr>)"
    and inst: "installed_ok env (s\<lparr>mt_current_state := cs, mt_ongoing_installations := og, mt_storage := st, mt_downloader := d\<rparr>)"
    and pend: "pending_ok env (s\<lparr>mt_current_state := cs, mt_ongoing_installations := og, mt_storage := st, mt_downloader := d\<rparr>)"
    and maps: "map (source_url env) cs = remove1 u (GetReadySubscriptions env s)" "map snd og = remove1 u (GetPendingSubscriptions s)"
    by (rule UninstallInternal_effect [OF ok(1,2), of u])
  let ?t = "s\<lparr>mt_current_state := cs, mt_ongoing_installations := og, mt_storage := st, mt_downloader := d\<rparr>"
  have lists: "GetReadySubscriptions env ?t = remove1 u (GetReadySubscriptions env s)"
    "GetPendingSubscriptions ?t = remove1 u (GetPendingSubscriptions s)"
    using maps by (simp_all add: GetReadySubscriptions_def GetPendingSubscriptions_def)
  have prov: "provider_ok (me_preloaded env) (mt_preloaded s)" using ok(3) by (simp add: preloaded_ok_def)
  show ?thesis
  proof (cases "u \<in> set (GetReadySubscriptions env s) \<or> u \<in> set (GetPendingSubscriptions s)")
    case False
    have "preloaded_ok env ?t"
      using ok(3) lists False by (simp add: preloaded_ok_def remove1_idem)
    then show ?thesis
      using u False inst pend lists
      by (intro that [of ?t]) (simp_all add: Maintainer_UninstallSubscription_def synced_def frame_def)
  next
    case True
    define t where "t = (if u \<noteq> AcceptableAdsUrl (me_config env)
      then ?t\<lparr>mt_storage := (mt_storage ?t)\<lparr>st_metadata :=
        RemoveMetadata (env_metadata (me_storage env)) u (st_metadata (mt_storage ?t))\<rparr>\<rparr> else ?t)"
    have t: "installed_ok env t" "pending_ok env t" "GetReadySubscriptions env t = GetReadySubscriptions env ?t"
      "GetPendingSubscriptions t = GetPendingSubscriptions ?t" "frame t = frame s" "mt_preloaded t = mt_preloaded s"
      using inst pend unfolding t_def
      by (simp_all add: installed_ok_def pending_ok_def GetReadySubscriptions_def GetPendingSubscriptions_def frame_def)
    have "Maintainer_UninstallSubscription env u s = Some (UpdatePreloadedSubscriptionProvider env t)"
      using u True by (simp add: Maintainer_UninstallSubscription_def t_def)
    moreover have "synced env (UpdatePreloadedSubscriptionProvider env t)"
      using t(1,2,6) prov by (simp add: synced_def UpdatePreloaded_ok)
    moreover have "frame (UpdatePreloadedSubscriptionProvider env t) = frame s"
      using t(5) by (simp add: frame_def UpdatePreloadedSubscriptionProvider_def)
    ultimately show ?thesis using that t(3,4) lists by simp
  qed
qed

lemma uninstall_all_effect:
  assumes "synced env s"
  obtains s' where "uninstall_all env us s = Some s'" "synced env s'" "frame s' = frame s"
    "set (GetReadySubscriptions env s') = set (GetReadySubscriptions env s) - set us"
    "set (GetPendingSubscriptions s') = set (GetPendingSubscriptions s) - set us"
  using assms
proof (induction us arbitrary: s thesis)
  case Nil
  then show ?case by simp
next
  case (Cons u us)
  obtain t where t: "Maintainer_UninstallSubscription env u s = Some t" "synced env t" "frame t = frame s"
    "GetReadySubscriptions env t = remove1 u (GetReadySubscriptions env s)"
    "GetPendingSubscriptions t = remove1 u (GetPendingSubscriptions s)"
    by (rule Uninstall_effect [OF Cons.prems(2)])
  have "distinct (GetReadySubscriptions env s)" "distinct (GetPendingSubscriptions s)"
    using Cons.prems(2) by (simp_all add: synced_def installed_ok_def pending_ok_def)
  then have sets: "set (GetReadySubscriptions env t) = set (GetReadySubscriptions env s) - {u}"
    "set (GetPendingSubscriptions t) = set (GetPendingSubscriptions s) - {u}" using t(4,5) by simp_all
  obtain s' where s': "uninstall_all env us t = Some s'" "synced env s'" "frame s' = frame t"
    "set (GetReadySubscriptions env s') = set (GetReadySubscriptions env t) - set us"
    "set (GetPendingSubscriptions s') = set (GetPendingSubscriptions t) - set us"
    by (rule Cons.IH [OF _ t(2)])
  show ?case
    by (rule Cons.prems(1) [of s']) (use s' t sets in auto)
qed

section \<open>Installing\<close>

lemma Download_effect:
  assumes "synced env s" "u \<notin> set (GetPendingSubscriptions s)" "parsed env u"
  shows "synced env (DownloadAndInstallSubscription env u s)"
    "frame (DownloadAndInstallSubscription env u s) = frame s"
    "mt_current_state (DownloadAndInstallSubscription env u s) = mt_current_state s"
    "mt_storage (DownloadAndInstallSubscription env u s) = mt_storage s"
    "GetPendingSubscriptions (DownloadAndInstallSubscription env u s) =
      GetPendingSubscriptions s @ (if IsUrlAllowed (me_download env) u then [u] else [])"
proof -
  let ?i = "mt_next_installation s"
  let ?pol = "if list_ex (\<lambda>c. source_url env c = u) (mt_current_state s) then DoNotRetry else RetryUntilSucceeded"
  define t where "t = UpdatePreloadedSubscriptionProvider env
    (s\<lparr>mt_ongoing_installations := mt_ongoing_installations s @ [(?i, u)], mt_next_installation := Suc ?i\<rparr>)"
  have t: "mt_current_state t = mt_current_state s" "mt_storage t = mt_storage s" "frame t = frame s"
    "mt_ongoing_installations t = mt_ongoing_installations s @ [(?i, u)]" "mt_next_installation t = Suc ?i"
    "mt_storing t = mt_storing s"
    by (simp_all add: t_def frame_def UpdatePreloadedSubscriptionProvider_def)
  have fresh: "?i \<notin> fst ` set (mt_ongoing_installations s)"
    using assms(1) by (auto simp: synced_def pending_ok_def)
  have inst: "installed_ok env t" using assms(1) t(1,2) by (simp add: synced_def installed_ok_def GetReadySubscriptions_def)
  have pend: "pending_ok env t"
    using assms fresh t(4-6) by (auto simp: synced_def pending_ok_def GetPendingSubscriptions_def less_SucI)
  have pre: "preloaded_ok env t"
    using assms(1) unfolding t_def by (intro UpdatePreloaded_ok) (simp add: synced_def preloaded_ok_def)
  obtain d es where d: "StartDownload (me_download env) (st_metadata (mt_storage t)) u ?pol ?i (mt_downloader t) = (d, es)"
    by (cases "StartDownload (me_download env) (st_metadata (mt_storage t)) u ?pol ?i (mt_downloader t)")
  have eq: "DownloadAndInstallSubscription env u s = run_callbacks env 0 es (t\<lparr>mt_downloader := d\<rparr>)"
    using d by (simp add: DownloadAndInstallSubscription_def Let_def t_def)
  let ?r = "DownloadAndInstallSubscription env u s"
  have "synced env ?r \<and> frame ?r = frame s \<and> mt_current_state ?r = mt_current_state s \<and> mt_storage ?r = mt_storage s \<and>
      GetPendingSubscriptions ?r = GetPendingSubscriptions s @ (if IsUrlAllowed (me_download env) u then [u] else [])"
  proof (cases "IsUrlAllowed (me_download env) u")
    case True
    then have "?r = t\<lparr>mt_downloader := d\<rparr>" using eq d by (auto simp: StartDownload_def Let_def run_callbacks_def)
    moreover have "synced env (t\<lparr>mt_downloader := d\<rparr>)"
      using inst pend pre by (simp add: synced_def installed_ok_def pending_ok_def preloaded_ok_def
          GetReadySubscriptions_def GetPendingSubscriptions_def)
    ultimately show ?thesis using t True by (simp add: frame_def GetPendingSubscriptions_def)
  next
    case False
    then have es: "es = [Download_completed ?i None]" "d = mt_downloader t" using d by (auto simp: StartDownload_def)
    have del: "AList.delete ?i (mt_ongoing_installations t) = mt_ongoing_installations s"
      using fresh t(4) by (simp add: AList.delete_eq filter_id_conv) force
    let ?u = "t\<lparr>mt_ongoing_installations := mt_ongoing_installations s\<rparr>"
    have r: "?r = UpdatePreloadedSubscriptionProvider env ?u"
      using eq es del t(4) by (simp add: run_callbacks_def OnSubscriptionDataAvailable_def)
    have "pending_ok env ?u"
      using assms(1) t(4-6) by (auto simp: synced_def pending_ok_def GetPendingSubscriptions_def less_SucI)
    moreover have "installed_ok env ?u" using inst by (simp add: installed_ok_def GetReadySubscriptions_def)
    moreover have "provider_ok (me_preloaded env) (mt_preloaded ?u)" using pre by (simp add: preloaded_ok_def)
    ultimately have "synced env ?r" unfolding r by (simp add: synced_def UpdatePreloaded_ok)
    then show ?thesis
      using t False by (simp add: r frame_def GetPendingSubscriptions_def UpdatePreloadedSubscriptionProvider_def)
  qed
  then show "synced env ?r" "frame ?r = frame s" "mt_current_state ?r = mt_current_state s" "mt_storage ?r = mt_storage s"
    "GetPendingSubscriptions ?r = GetPendingSubscriptions s @ (if IsUrlAllowed (me_download env) u then [u] else [])"
    by blast+
qed

lemma download_all_effect:
  assumes "synced env s" "distinct us" "set us \<inter> set (GetPendingSubscriptions s) = {}" "\<forall>u\<in>set us. parsed env u"
  shows "synced env (fold (DownloadAndInstallSubscription env) us s) \<and>
    frame (fold (DownloadAndInstallSubscription env) us s) = frame s \<and>
    mt_current_state (fold (DownloadAndInstallSubscription env) us s) = mt_current_state s \<and>
    mt_storage (fold (DownloadAndInstallSubscription env) us s) = mt_storage s \<and>
    GetPendingSubscriptions (fold (DownloadAndInstallSubscription env) us s) =
      GetPendingSubscriptions s @ filter (IsUrlAllowed (me_download env)) us"
  using assms
proof (induction us arbitrary: s)
  case (Cons u us)
  have "u \<notin> set (GetPendingSubscriptions s)" "parsed env u" using Cons.prems by auto
  note effect = Download_effect [OF Cons.prems(1) this]
  have "set us \<inter> set (GetPendingSubscriptions (DownloadAndInstallSubscription env u s)) = {}"
    using Cons.prems(2,3) by (auto simp: effect(5))
  then show ?case
    using Cons.IH [OF effect(1)] Cons.prems(2,4) effect(2-5) by simp
qed simp

section \<open>In step with the configuration\<close>

lemma synced_parsed:
  assumes "maintainer_env_ok env" "synced env s"
  shows "\<forall>u\<in>set (GetReadySubscriptions env s) \<union> set (GetPendingSubscriptions s) \<union> set (mt_filter_lists env s). parsed env u"
proof -
  have "\<forall>u\<in>set (GetPendingSubscriptions s). parsed env u"
    using assms(2) by (auto simp: synced_def pending_ok_def GetPendingSubscriptions_def)
  moreover have "\<forall>u\<in>set (GetReadySubscriptions env s). parsed env u"
    using parsed_source_url [OF assms(1)] by (auto simp: GetReadySubscriptions_def)
  ultimately show ?thesis using demand_parsed [OF assms(1)] by blast
qed

lemma distinct_mset_diff:
  assumes "distinct xs" "mset zs = mset xs - mset ys"
  shows "distinct zs \<and> set zs = set xs - set ys"
proof -
  have c: "count (mset zs) a = count (mset xs) a - count (mset ys) a" for a using assms(2) by simp
  have x: "count (mset xs) a = (if a \<in> set xs then 1 else 0)" for a using assms(1) by (simp add: distinct_count_atmost_1)
  have z: "count (mset zs) a = (if a \<in> set xs \<and> a \<notin> set ys then 1 else 0)" for a
  proof (cases "a \<in> set ys")
    case True
    then have "count (mset ys) a \<noteq> 0" using count_mset_0_iff [of ys a] by blast
    then show ?thesis using c [of a] x [of a] True by auto
  next
    case False
    then have "count (mset ys) a = 0" using count_mset_0_iff [of ys a] by blast
    then show ?thesis using c [of a] x [of a] False by (simp del: count_mset_0_iff)
  qed
  have s: "a \<in> set zs \<longleftrightarrow> a \<in> set xs \<and> a \<notin> set ys" for a
    using count_mset_0_iff [of zs a] z [of a] by (auto split: if_splits)
  then have "\<forall>a. count (mset zs) a = (if a \<in> set zs then 1 else 0)" using z by simp
  then show ?thesis using s by (auto simp: distinct_count_atmost_1)
qed

lemma InstallMissing_effect:
  assumes "maintainer_env_ok env" "synced env s" "demand_ok env s"
  shows "synced env (InstallMissingSubscriptions env s)" "frame (InstallMissingSubscriptions env s) = frame s"
    "mt_current_state (InstallMissingSubscriptions env s) = mt_current_state s"
    "set (GetPendingSubscriptions (InstallMissingSubscriptions env s)) = set (GetPendingSubscriptions s) \<union>
      {u \<in> set (mt_filter_lists env s). u \<notin> set (GetReadySubscriptions env s) \<and> u \<notin> set (GetPendingSubscriptions s) \<and>
         IsUrlAllowed (me_download env) u}"
proof -
  let ?inst = "GetReadySubscriptions env s @ GetPendingSubscriptions s"
  let ?missing = "set_difference (sort_key spec (mt_filter_lists env s)) (sort_key spec ?inst)"
  have parsed: "\<forall>u\<in>set (mt_filter_lists env s) \<union> set ?inst. parsed env u"
    using synced_parsed [OF assms(1,2)] by auto
  have "mset ?missing = mset (mt_filter_lists env s) - mset ?inst"
    by (rule set_difference_sorted [OF parsed_specs_differ [OF parsed]])
  then have missing: "distinct ?missing" "set ?missing = set (mt_filter_lists env s) - set ?inst"
    using distinct_mset_diff [OF demand_distinct [OF assms(3)]] by blast+
  have "set ?missing \<inter> set (GetPendingSubscriptions s) = {}" using missing(2) by auto
  moreover have "\<forall>u\<in>set ?missing. parsed env u" using missing(2) parsed by blast
  moreover have eq: "InstallMissingSubscriptions env s = fold (DownloadAndInstallSubscription env) ?missing s"
    by (simp add: InstallMissingSubscriptions_def Let_def)
  ultimately have e: "synced env (InstallMissingSubscriptions env s) \<and> frame (InstallMissingSubscriptions env s) = frame s \<and>
      mt_current_state (InstallMissingSubscriptions env s) = mt_current_state s \<and>
      GetPendingSubscriptions (InstallMissingSubscriptions env s) =
        GetPendingSubscriptions s @ filter (IsUrlAllowed (me_download env)) ?missing"
    using download_all_effect [OF assms(2) missing(1)] by simp
  then show "synced env (InstallMissingSubscriptions env s)" "frame (InstallMissingSubscriptions env s) = frame s"
    "mt_current_state (InstallMissingSubscriptions env s) = mt_current_state s" by blast+
  show "set (GetPendingSubscriptions (InstallMissingSubscriptions env s)) = set (GetPendingSubscriptions s) \<union>
      {u \<in> set (mt_filter_lists env s). u \<notin> set (GetReadySubscriptions env s) \<and> u \<notin> set (GetPendingSubscriptions s) \<and>
         IsUrlAllowed (me_download env) u}"
    using e missing(2) by auto
qed

text \<open>A URL that is both ready and pending is counted twice: it is unneeded even when it is demanded.\<close>

lemma RemoveUnneeded_effect:
  assumes "maintainer_env_ok env" "synced env s" "demand_ok env s"
  obtains s' where "RemoveUnneededSubscriptions env s = Some s'" "synced env s'" "frame s' = frame s"
    "set (GetReadySubscriptions env s') =
      {u \<in> set (GetReadySubscriptions env s). u \<in> set (mt_filter_lists env s) \<and> u \<notin> set (GetPendingSubscriptions s)}"
    "set (GetPendingSubscriptions s') =
      {u \<in> set (GetPendingSubscriptions s). u \<in> set (mt_filter_lists env s) \<and> u \<notin> set (GetReadySubscriptions env s)}"
proof -
  let ?r = "GetReadySubscriptions env s" and ?p = "GetPendingSubscriptions s" and ?d = "mt_filter_lists env s"
  let ?un = "set_difference (sort_key spec (?r @ ?p)) (sort_key spec ?d)"
  have parsed: "\<forall>u\<in>set (?r @ ?p) \<union> set ?d. parsed env u"
    using synced_parsed [OF assms(1,2)] by auto
  have m: "mset ?un = mset (?r @ ?p) - mset ?d"
    by (rule set_difference_sorted [OF parsed_specs_differ [OF parsed]])
  have d: "distinct ?r" "distinct ?p" "distinct ?d"
    using assms(2) demand_distinct [OF assms(3)] by (simp_all add: synced_def installed_ok_def pending_ok_def)
  have c: "count (mset xs) u = (if u \<in> set xs then 1 else 0)" if "distinct xs" for xs :: "gurl list" and u
    using that by (simp add: distinct_count_atmost_1)
  have un: "u \<in> set ?un \<longleftrightarrow> (u \<in> set ?r \<or> u \<in> set ?p) \<and> (u \<notin> set ?d \<or> (u \<in> set ?r \<and> u \<in> set ?p))" for u
  proof -
    have "count (mset ?un) u = (if u \<in> set ?r then 1 else 0) + (if u \<in> set ?p then 1 else 0) - (if u \<in> set ?d then 1 else 0)"
      using m c [OF d(1), of u] c [OF d(2), of u] c [OF d(3), of u] by simp
    moreover have "u \<in> set ?un \<longleftrightarrow> 0 < count (mset ?un) u" using count_mset_0_iff [of ?un u] by auto
    ultimately show ?thesis by auto
  qed
  obtain s' where s': "uninstall_all env ?un s = Some s'" "synced env s'" "frame s' = frame s"
    "set (GetReadySubscriptions env s') = set ?r - set ?un" "set (GetPendingSubscriptions s') = set ?p - set ?un"
    by (rule uninstall_all_effect [OF assms(2)])
  show ?thesis
  proof (rule that [of s'])
    show "RemoveUnneededSubscriptions env s = Some s'" using s'(1) by (simp add: RemoveUnneededSubscriptions_def Let_def)
  qed (use s' un in auto)
qed

lemma OnFilterListsChanged_effect:
  assumes "maintainer_env_ok env" "synced env s" "demand_ok env s" "mt_initialized s"
  obtains s' where "OnFilterListsChanged env s = Some s'" "synced env s'" "frame s' = frame s"
    "set (GetReadySubscriptions env s') =
      {u \<in> set (GetReadySubscriptions env s). u \<in> set (mt_filter_lists env s) \<and> u \<notin> set (GetPendingSubscriptions s)}"
    "set (GetPendingSubscriptions s') =
      {u \<in> set (mt_filter_lists env s). u \<notin> set (GetReadySubscriptions env s) \<and>
         (u \<in> set (GetPendingSubscriptions s) \<or> IsUrlAllowed (me_download env) u)}"
proof -
  let ?t = "InstallMissingSubscriptions env s"
  note t = InstallMissing_effect [OF assms(1-3)]
  have f: "demand_ok env ?t" "mt_filter_lists env ?t = mt_filter_lists env s" "mt_initialized ?t"
    using frame_demand [OF t(2)] assms(3,4) by simp_all
  have r: "GetReadySubscriptions env ?t = GetReadySubscriptions env s" using t(3) by (simp add: GetReadySubscriptions_def)
  obtain s' where s': "RemoveUnneededSubscriptions env ?t = Some s'" "synced env s'" "frame s' = frame ?t"
    "set (GetReadySubscriptions env s') =
      {u \<in> set (GetReadySubscriptions env ?t). u \<in> set (mt_filter_lists env ?t) \<and> u \<notin> set (GetPendingSubscriptions ?t)}"
    "set (GetPendingSubscriptions s') =
      {u \<in> set (GetPendingSubscriptions ?t). u \<in> set (mt_filter_lists env ?t) \<and> u \<notin> set (GetReadySubscriptions env ?t)}"
    by (rule RemoveUnneeded_effect [OF assms(1) t(1) f(1)])
  show ?thesis
  proof (rule that [of s'])
    show "OnFilterListsChanged env s = Some s'" using s'(1) assms(4) by (simp add: OnFilterListsChanged_def)
  qed (use s' t f r in auto)
qed

section \<open>Answers\<close>

lemma OnSubscriptionDataAvailable_effect:
  assumes "synced env s"
  shows "synced env (OnSubscriptionDataAvailable env i raw s)"
    "mt_storage (OnSubscriptionDataAvailable env i raw s) = mt_storage s"
    "mt_current_state (OnSubscriptionDataAvailable env i raw s) = mt_current_state s"
    "set (GetPendingSubscriptions (OnSubscriptionDataAvailable env i raw s)) \<subseteq> set (GetPendingSubscriptions s)"
proof -
  have prov: "provider_ok (me_preloaded env) (mt_preloaded s)" using assms by (simp add: synced_def preloaded_ok_def)
  have plain: "synced env (UpdatePreloadedSubscriptionProvider env s)"
    using assms prov by (simp add: synced_def UpdatePreloaded_ok)
  have "synced env (OnSubscriptionDataAvailable env i raw s) \<and>
    mt_storage (OnSubscriptionDataAvailable env i raw s) = mt_storage s \<and>
    mt_current_state (OnSubscriptionDataAvailable env i raw s) = mt_current_state s \<and>
    set (GetPendingSubscriptions (OnSubscriptionDataAvailable env i raw s)) \<subseteq> set (GetPendingSubscriptions s)"
  proof (cases "i \<in> fst ` set (mt_ongoing_installations s)")
    case False
    then show ?thesis using plain by (simp add: OnSubscriptionDataAvailable_def)
  next
    case True
    show ?thesis
    proof (cases raw)
      case None
      let ?t = "s\<lparr>mt_ongoing_installations := AList.delete i (mt_ongoing_installations s)\<rparr>"
      have "pending_ok env ?t"
        using assms by (auto simp: synced_def pending_ok_def GetPendingSubscriptions_def AList.distinct_delete
            AList.delete_eq distinct_map_filter)
      moreover have "installed_ok env ?t" using assms by (simp add: synced_def installed_ok_def GetReadySubscriptions_def)
      ultimately have "synced env (UpdatePreloadedSubscriptionProvider env ?t)"
        using prov by (simp add: synced_def UpdatePreloaded_ok)
      moreover have "OnSubscriptionDataAvailable env i raw s = UpdatePreloadedSubscriptionProvider env ?t"
        using True None by (simp add: OnSubscriptionDataAvailable_def)
      ultimately show ?thesis by (auto simp: GetPendingSubscriptions_def AList.delete_eq)
    next
      case (Some d)
      let ?t = "s\<lparr>mt_storing := mt_storing s @ [(i, d)]\<rparr>"
      have "i < mt_next_installation s" using True assms by (auto simp: synced_def pending_ok_def)
      then have "synced env ?t"
        using assms by (auto simp: synced_def installed_ok_def pending_ok_def preloaded_ok_def
            GetReadySubscriptions_def GetPendingSubscriptions_def)
      then show ?thesis using True Some by (simp add: OnSubscriptionDataAvailable_def GetPendingSubscriptions_def)
    qed
  qed
  then show "synced env (OnSubscriptionDataAvailable env i raw s)"
    "mt_storage (OnSubscriptionDataAvailable env i raw s) = mt_storage s"
    "mt_current_state (OnSubscriptionDataAvailable env i raw s) = mt_current_state s"
    "set (GetPendingSubscriptions (OnSubscriptionDataAvailable env i raw s)) \<subseteq> set (GetPendingSubscriptions s)" by blast+
qed

lemma OnSubscriptionDataAvailable_demand:
  "mt_configuration (OnSubscriptionDataAvailable env i raw s) = mt_configuration s \<and>
   mt_initialized (OnSubscriptionDataAvailable env i raw s) = mt_initialized s"
  by (simp add: OnSubscriptionDataAvailable_def split: option.split)

lemma synced_metadata: "synced env (s\<lparr>mt_storage := (mt_storage s)\<lparr>st_metadata := m\<rparr>\<rparr>) = synced env s"
  by (simp add: synced_def installed_ok_metadata pending_ok_storage preloaded_ok_def GetReadySubscriptions_def
      GetPendingSubscriptions_def)

lemma run_callbacks_effect:
  assumes "synced env s"
  shows "synced env (run_callbacks env now es s) \<and>
    mt_configuration (run_callbacks env now es s) = mt_configuration s \<and>
    mt_initialized (run_callbacks env now es s) = mt_initialized s \<and>
    mt_current_state (run_callbacks env now es s) = mt_current_state s \<and>
    set (GetPendingSubscriptions (run_callbacks env now es s)) \<subseteq> set (GetPendingSubscriptions s)"
  using assms
proof (induction es arbitrary: s)
  case Nil
  then show ?case by (simp add: run_callbacks_def)
next
  case (Cons e es)
  have step: "synced env (run_callback env now e s) \<and>
    mt_configuration (run_callback env now e s) = mt_configuration s \<and>
    mt_initialized (run_callback env now e s) = mt_initialized s \<and>
    mt_current_state (run_callback env now e s) = mt_current_state s \<and>
    set (GetPendingSubscriptions (run_callback env now e s)) \<subseteq> set (GetPendingSubscriptions s)"
  proof (cases e)
    case (Download_completed i raw)
    then show ?thesis
      using OnSubscriptionDataAvailable_effect [OF Cons.prems] OnSubscriptionDataAvailable_demand by simp
  next
    case (Head_request_done i v)
    then show ?thesis
      using Cons.prems by (simp add: OnHeadRequestDone_def Let_def synced_metadata GetPendingSubscriptions_def)
  qed
  have "run_callbacks env now (e # es) s = run_callbacks env now es (run_callback env now e s)"
    by (simp add: run_callbacks_def)
  then show ?case using Cons.IH [of "run_callback env now e s"] step by auto
qed

section \<open>A subscription was written\<close>

lemma StoreSubscription_backing:
  assumes "StoreSubscription e tok outcome mapped now d st = (sub, st')"
  shows "fst ` set (st_backing st) \<subseteq> fst ` set (st_backing st')"
    "sub = Some x \<Longrightarrow> ss_id x = st_next_id st \<and> ss_id x \<in> fst ` set (st_backing st')"
  using assms
  by (cases rule: StoreSubscription_cases [of e tok outcome mapped now d st]; auto simp: stored_state_def)+

lemma installed_ok_cong:
  "mt_current_state s = mt_current_state t \<Longrightarrow> mt_storage s = mt_storage t \<Longrightarrow> installed_ok env s = installed_ok env t"
  by (simp add: installed_ok_def GetReadySubscriptions_def)

lemma pending_ok_cong:
  "mt_ongoing_installations s = mt_ongoing_installations t \<Longrightarrow> mt_next_installation s = mt_next_installation t \<Longrightarrow>
    mt_storing s = mt_storing t \<Longrightarrow> pending_ok env s = pending_ok env t"
  by (simp add: pending_ok_def GetPendingSubscriptions_def)

lemma pending_ok_delete:
  "pending_ok env s \<Longrightarrow> pending_ok env (s\<lparr>mt_ongoing_installations := AList.delete i (mt_ongoing_installations s)\<rparr>)"
  by (auto simp: pending_ok_def GetPendingSubscriptions_def AList.distinct_delete AList.delete_eq distinct_map_filter)

lemma Added_cancelled:
  assumes "installed_ok env s" "pending_ok env s" "provider_ok (me_preloaded env) (mt_preloaded s)"
    "ss_id x \<in> fst ` set (st_backing (mt_storage s))" "ss_id x \<notin> ss_id ` set (mt_current_state s)"
    "i \<notin> fst ` set (mt_ongoing_installations s)"
  obtains s' where "SubscriptionAddedToStorage env i (Some x) s = Some s'" "synced env s'"
    "GetReadySubscriptions env s' = GetReadySubscriptions env s" "GetPendingSubscriptions s' = GetPendingSubscriptions s"
    "mt_configuration s' = mt_configuration s" "mt_initialized s' = mt_initialized s"
proof -
  have "storage_ok (me_storage env) (mt_storage s)" using assms(1) by (simp add: installed_ok_def)
  then obtain st where st: "RemoveSubscription (ss_id x) (mt_storage s) = Some st" "storage_ok (me_storage env) st"
    "fst ` set (st_backing st) = fst ` set (st_backing (mt_storage s)) - {ss_id x}"
    using RemoveSubscription_backed [OF _ assms(4)] by blast
  let ?t = "s\<lparr>mt_storage := st\<rparr>"
  have "ss_id ` set (mt_current_state s) \<subseteq> fst ` set (st_backing (mt_storage s))"
    using assms(1) by (simp add: installed_ok_def)
  then have "ss_id ` set (mt_current_state s) \<subseteq> fst ` set (st_backing st)"
    unfolding st(3) using assms(5) by (simp add: subset_Diff_insert)
  then have "installed_ok env ?t" using assms(1) st(2) by (simp add: installed_ok_def GetReadySubscriptions_def)
  moreover have "pending_ok env ?t" using assms(2) by (simp add: pending_ok_storage)
  ultimately have "synced env (UpdatePreloadedSubscriptionProvider env ?t)"
    using assms(3) by (simp add: synced_def UpdatePreloaded_ok)
  moreover have "SubscriptionAddedToStorage env i (Some x) s = Some (UpdatePreloadedSubscriptionProvider env ?t)"
    using assms(6) st(1) by (simp add: SubscriptionAddedToStorage_def storage_remove_def)
  ultimately show ?thesis using that by (simp add: GetReadySubscriptions_def GetPendingSubscriptions_def)
qed

lemma Added_installed:
  assumes "installed_ok env s" "pending_ok env s" "provider_ok (me_preloaded env) (mt_preloaded s)"
    "ss_id x \<in> fst ` set (st_backing (mt_storage s))" "ss_id x \<notin> ss_id ` set (mt_current_state s)"
    "(i, v) \<in> set (mt_ongoing_installations s)"
  obtains s' where "SubscriptionAddedToStorage env i (Some x) s = Some s'" "synced env s'"
    "GetReadySubscriptions env s' = remove1 (source_url env x) (GetReadySubscriptions env s) @ [source_url env x]"
    "set (GetPendingSubscriptions s') = set (GetPendingSubscriptions s) - {v, source_url env x}"
    "mt_configuration s' = mt_configuration s" "mt_initialized s' = mt_initialized s" "x \<in> set (mt_current_state s')"
proof -
  let ?u = "source_url env x"
  let ?t = "s\<lparr>mt_ongoing_installations := AList.delete i (mt_ongoing_installations s)\<rparr>"
  have od: "distinct (map fst (mt_ongoing_installations s))" "distinct (map snd (mt_ongoing_installations s))"
    using assms(2) by (simp_all add: pending_ok_def GetPendingSubscriptions_def)
  have pt: "GetPendingSubscriptions ?t = remove1 v (GetPendingSubscriptions s)"
    using delete_pending [OF od assms(6)] by (simp add: GetPendingSubscriptions_def)
  have it: "installed_ok env ?t" using assms(1) by (simp add: installed_ok_def GetReadySubscriptions_def)
  obtain cs og st d b where
    u: "UninstallSubscriptionInternal env ?u ?t =
      Some (b, ?t\<lparr>mt_current_state := cs, mt_ongoing_installations := og, mt_storage := st, mt_downloader := d\<rparr>)"
    and inst: "installed_ok env (?t\<lparr>mt_current_state := cs, mt_ongoing_installations := og, mt_storage := st, mt_downloader := d\<rparr>)"
    and pend: "pending_ok env (?t\<lparr>mt_current_state := cs, mt_ongoing_installations := og, mt_storage := st, mt_downloader := d\<rparr>)"
    and maps: "map (source_url env) cs = remove1 ?u (GetReadySubscriptions env ?t)" "map snd og = remove1 ?u (GetPendingSubscriptions ?t)"
    and sub: "set cs \<subseteq> set (mt_current_state ?t)"
      "fst ` set (st_backing (mt_storage ?t)) - ss_id ` set (mt_current_state ?t) \<subseteq> fst ` set (st_backing st)"
    by (rule UninstallInternal_effect [OF it pending_ok_delete [OF assms(2)], of ?u])
  let ?w = "?t\<lparr>mt_current_state := cs, mt_ongoing_installations := og, mt_storage := st, mt_downloader := d,
      mt_current_state := cs @ [x]\<rparr>"
  let ?r = "(UpdatePreloadedSubscriptionProvider env ?w)\<lparr>mt_updated := mt_updated s @ [?u]\<rparr>"
  have ready: "map (source_url env) cs = remove1 ?u (GetReadySubscriptions env s)"
    using maps(1) by (simp add: GetReadySubscriptions_def)
  have "distinct (GetReadySubscriptions env s)" using assms(1) by (simp add: installed_ok_def)
  then have fresh: "?u \<notin> set (map (source_url env) cs)" using ready by simp
  have wi: "installed_ok env ?w"
    using inst fresh sub assms(4,5) by (auto simp: installed_ok_def GetReadySubscriptions_def)
  have wp: "pending_ok env ?w" using pend by (simp add: pending_ok_def GetPendingSubscriptions_def)
  have "synced env (UpdatePreloadedSubscriptionProvider env ?w)"
    using wi wp assms(3) by (simp add: synced_def UpdatePreloaded_ok)
  then have "synced env ?r"
    by (simp add: synced_def installed_ok_def pending_ok_def preloaded_ok_def GetReadySubscriptions_def GetPendingSubscriptions_def)
  moreover have "SubscriptionAddedToStorage env i (Some x) s = Some ?r"
  proof -
    have "i \<in> fst ` set (mt_ongoing_installations s)" using assms(6) by force
    then show ?thesis using u by (simp add: SubscriptionAddedToStorage_def Let_def)
  qed
  moreover have "GetReadySubscriptions env ?r = remove1 ?u (GetReadySubscriptions env s) @ [?u]"
    using ready by (simp add: GetReadySubscriptions_def)
  moreover have "set (GetPendingSubscriptions ?r) = set (GetPendingSubscriptions s) - {v, ?u}"
    using maps(2) pt assms(2) by (auto simp: GetPendingSubscriptions_def pending_ok_def)
  ultimately show ?thesis by (intro that [of ?r]) simp_all
qed

lemma Added_failed:
  assumes "synced env s" "(i, v) \<in> set (mt_ongoing_installations s)"
  obtains s' where "SubscriptionAddedToStorage env i None s = Some s'" "synced env s'"
    "GetReadySubscriptions env s' = GetReadySubscriptions env s"
    "set (GetPendingSubscriptions s') = set (GetPendingSubscriptions s) - {v}"
    "mt_configuration s' = mt_configuration s" "mt_initialized s' = mt_initialized s"
proof -
  let ?t = "s\<lparr>mt_ongoing_installations := AList.delete i (mt_ongoing_installations s)\<rparr>"
  have ok: "installed_ok env s" "pending_ok env s" "provider_ok (me_preloaded env) (mt_preloaded s)"
    using assms(1) by (simp_all add: synced_def preloaded_ok_def)
  have od: "distinct (map fst (mt_ongoing_installations s))" "distinct (map snd (mt_ongoing_installations s))"
    using ok(2) by (simp_all add: pending_ok_def GetPendingSubscriptions_def)
  have pt: "GetPendingSubscriptions ?t = remove1 v (GetPendingSubscriptions s)"
    using delete_pending [OF od assms(2)] by (simp add: GetPendingSubscriptions_def)
  have "installed_ok env ?t" using ok(1) by (simp add: installed_ok_def GetReadySubscriptions_def)
  then have "synced env (UpdatePreloadedSubscriptionProvider env ?t)"
    using pending_ok_delete [OF ok(2)] ok(3) by (simp add: synced_def UpdatePreloaded_ok)
  moreover have "i \<in> fst ` set (mt_ongoing_installations s)" using assms(2) by force
  then have "SubscriptionAddedToStorage env i None s = Some (UpdatePreloadedSubscriptionProvider env ?t)"
    by (simp add: SubscriptionAddedToStorage_def Let_def)
  moreover have "set (GetPendingSubscriptions ?t) = set (GetPendingSubscriptions s) - {v}"
    using pt od by (simp add: GetPendingSubscriptions_def)
  moreover have "GetReadySubscriptions env ?t = GetReadySubscriptions env s" by (simp add: GetReadySubscriptions_def)
  ultimately show ?thesis by (intro that [of "UpdatePreloadedSubscriptionProvider env ?t"]) simp_all
qed

section \<open>Starting\<close>

lemma insort_source:
  "set (map (source_url env) (insort_key f x xs)) = insert (source_url env x) (set (map (source_url env) xs))"
  "distinct (map (source_url env) (insort_key f x xs)) \<longleftrightarrow> source_url env x \<notin> set (map (source_url env) xs) \<and> distinct (map (source_url env) xs)"
  "distinct (map ss_id (insort_key f x xs)) \<longleftrightarrow> ss_id x \<notin> set (map ss_id xs) \<and> distinct (map ss_id xs)"
  by (induction xs) (auto simp: set_insort_key)

lemma remove_duplicates_effect:
  assumes "maintainer_env_ok env" "storage_ok (me_storage env) (mt_storage s)" "distinct (map ss_id (unique @ xs))"
    "set (map ss_id (unique @ xs)) \<subseteq> fst ` set (st_backing (mt_storage s))" "distinct (map (source_url env) unique)"
  obtains unique' st where "remove_duplicates env xs unique s = Some (unique', s\<lparr>mt_storage := st\<rparr>)"
    "storage_ok (me_storage env) st" "distinct (map (source_url env) unique')" "distinct (map ss_id unique')"
    "set (map (source_url env) unique') = set (map (source_url env) (unique @ xs))"
    "set (map ss_id unique') \<subseteq> fst ` set (st_backing st)"
  using assms
proof (induction xs arbitrary: unique s thesis)
  case Nil
  show ?case by (rule Nil.prems(1) [of unique "mt_storage s"]) (use Nil.prems in simp_all)
next
  case (Cons x xs)
  have spec_eq: "spec (source_url env y) = spec (source_url env x) \<longleftrightarrow> source_url env y = source_url env x" for y
    using parsed_source_url [OF Cons.prems(2), of x] parsed_source_url [OF Cons.prems(2), of y] unfolding parsed_def by metis
  show ?case
  proof (cases "source_url env x \<in> set (map (source_url env) unique)")
    case True
    then have c: "list_ex (\<lambda>y. spec (source_url env y) = spec (source_url env x)) unique"
      unfolding spec_eq by (auto simp: list_ex_iff)
    have "ss_id x \<in> fst ` set (st_backing (mt_storage s))" using Cons.prems(5) by simp
    then obtain st where st: "RemoveSubscription (ss_id x) (mt_storage s) = Some st" "storage_ok (me_storage env) st"
      "fst ` set (st_backing st) = fst ` set (st_backing (mt_storage s)) - {ss_id x}"
      using RemoveSubscription_backed [OF Cons.prems(3)] by blast
    have ids: "set (map ss_id (unique @ xs)) \<subseteq> fst ` set (st_backing st)"
      unfolding st(3) using Cons.prems(4,5) by (auto simp: image_iff)
    have d: "distinct (map ss_id (unique @ xs))" using Cons.prems(4) by simp
    obtain unique' st' where r: "remove_duplicates env xs unique (s\<lparr>mt_storage := st\<rparr>) = Some (unique', (s\<lparr>mt_storage := st\<rparr>)\<lparr>mt_storage := st'\<rparr>)"
      "storage_ok (me_storage env) st'" "distinct (map (source_url env) unique')" "distinct (map ss_id unique')"
      "set (map (source_url env) unique') = set (map (source_url env) (unique @ xs))"
      "set (map ss_id unique') \<subseteq> fst ` set (st_backing st')"
      using Cons.IH [of unique "s\<lparr>mt_storage := st\<rparr>"] Cons.prems(2,6) st(2) ids d by auto
    show ?thesis
      by (rule Cons.prems(1) [of unique' st']) (use r c st(1) True in \<open>auto simp: storage_remove_def\<close>)
  next
    case False
    have "source_url env y \<noteq> source_url env x" if "y \<in> set unique" for y
    proof
      assume "source_url env y = source_url env x"
      then have "source_url env x \<in> source_url env ` set unique" using that by (metis imageI)
      then show False using False by simp
    qed
    then have c: "\<not> list_ex (\<lambda>y. spec (source_url env y) = spec (source_url env x)) unique"
      unfolding spec_eq list_ex_iff by blast
    let ?u = "insort_key (\<lambda>y. spec (source_url env y)) x unique"
    have d: "distinct (map ss_id (?u @ xs))" using Cons.prems(4) by (auto simp: insort_source set_insort_key)
    have ids: "set (map ss_id (?u @ xs)) \<subseteq> fst ` set (st_backing (mt_storage s))"
      using Cons.prems(5) by (simp add: set_insort_key)
    have du: "distinct (map (source_url env) ?u)" using False Cons.prems(6) unfolding insort_source(2) by blast
    obtain unique' st' where r: "remove_duplicates env xs ?u s = Some (unique', s\<lparr>mt_storage := st'\<rparr>)"
      "storage_ok (me_storage env) st'" "distinct (map (source_url env) unique')" "distinct (map ss_id unique')"
      "set (map (source_url env) unique') = set (map (source_url env) (?u @ xs))"
      "set (map ss_id unique') \<subseteq> fst ` set (st_backing st')"
      by (rule Cons.IH [OF _ Cons.prems(2,3) d ids du])
    show ?thesis
      by (rule Cons.prems(1) [of unique' st']) (use r c in \<open>auto simp: set_insort_key\<close>)
  qed
qed

lemma SetCustomFilters_fields:
  "mt_current_state (SetCustomFilters env s) = mt_current_state s"
  "mt_storage (SetCustomFilters env s) = mt_storage s"
  "mt_ongoing_installations (SetCustomFilters env s) = mt_ongoing_installations s"
  "mt_next_installation (SetCustomFilters env s) = mt_next_installation s"
  "mt_storing (SetCustomFilters env s) = mt_storing s"
  "mt_preloaded (SetCustomFilters env s) = mt_preloaded s"
  "mt_configuration (SetCustomFilters env s) = mt_configuration s"
  "mt_initialized (SetCustomFilters env s) = mt_initialized s"
  by (simp_all add: SetCustomFilters_def Let_def)

lemma synced_cong:
  assumes "mt_current_state s = mt_current_state t" "mt_storage s = mt_storage t"
    "mt_ongoing_installations s = mt_ongoing_installations t" "mt_next_installation s = mt_next_installation t"
    "mt_storing s = mt_storing t" "mt_preloaded s = mt_preloaded t"
  shows "synced env s = synced env t"
  unfolding synced_def
  using installed_ok_cong [OF assms(1,2)] pending_ok_cong [OF assms(3-5)] preloaded_ok_cong [OF assms(1,3,6)] by metis

lemma StorageInitialized_effect:
  assumes "maintainer_env_ok env" "storage_ok (me_storage env) (mt_storage s)" "demand_ok env s"
    "distinct (map ss_id loaded)" "set (map ss_id loaded) \<subseteq> fst ` set (st_backing (mt_storage s))"
    "mt_ongoing_installations s = []" "mt_storing s = []" "preloaded_ok env s"
  obtains s' where "StorageInitialized env loaded s = Some s'" "maintainer_ok env s'" "mt_initialized s'"
    "set (GetReadySubscriptions env s') = set (map (source_url env) loaded) \<inter> set (mt_filter_lists env s)"
    "set (GetPendingSubscriptions s') =
      {u \<in> set (mt_filter_lists env s). u \<notin> set (map (source_url env) loaded) \<and> IsUrlAllowed (me_download env) u}"
proof -
  let ?s = "s\<lparr>mt_current_state := loaded, mt_initialized := True\<rparr>"
  have "storage_ok (me_storage env) (mt_storage ?s)" using assms(2) by simp
  then obtain unique st where u: "remove_duplicates env loaded [] ?s = Some (unique, ?s\<lparr>mt_storage := st\<rparr>)"
    "storage_ok (me_storage env) st" "distinct (map (source_url env) unique)" "distinct (map ss_id unique)"
    "set (map (source_url env) unique) = set (map (source_url env) ([] @ loaded))"
    "set (map ss_id unique) \<subseteq> fst ` set (st_backing st)"
    by (rule remove_duplicates_effect [OF assms(1), of ?s "[]" loaded]) (use assms(4,5) in simp_all)
  let ?t = "?s\<lparr>mt_storage := st, mt_current_state := unique\<rparr>"
  have dedup: "RemoveDuplicateSubscriptions env ?s = Some ?t"
    using u(1) by (simp add: RemoveDuplicateSubscriptions_def)
  have "installed_ok env ?t" using u by (simp add: installed_ok_def GetReadySubscriptions_def)
  moreover have "pending_ok env ?t" using assms(6,7) by (simp add: pending_ok_def GetPendingSubscriptions_def)
  moreover have "preloaded_ok env ?t"
    using assms(6,8) by (simp add: preloaded_ok_def GetPendingSubscriptions_def needed_def)
  ultimately have syn: "synced env ?t" by (simp add: synced_def)
  have dem: "demand_ok env ?t" "mt_filter_lists env ?t = mt_filter_lists env s" "mt_initialized ?t"
    using assms(3) by (simp_all add: demand_ok_def mt_filter_lists_def)
  obtain w where w: "OnFilterListsChanged env ?t = Some w" "synced env w" "frame w = frame ?t"
    "set (GetReadySubscriptions env w) =
      {u \<in> set (GetReadySubscriptions env ?t). u \<in> set (mt_filter_lists env ?t) \<and> u \<notin> set (GetPendingSubscriptions ?t)}"
    "set (GetPendingSubscriptions w) =
      {u \<in> set (mt_filter_lists env ?t). u \<notin> set (GetReadySubscriptions env ?t) \<and>
         (u \<in> set (GetPendingSubscriptions ?t) \<or> IsUrlAllowed (me_download env) u)}"
    by (rule OnFilterListsChanged_effect [OF assms(1) syn dem(1,3)])
  let ?r = "(OnCustomFiltersChanged env w)\<lparr>mt_schedule_running := True\<rparr>"
  have "synced env ?r" using w(2) by (subst synced_cong [where t = w]) (simp_all add: OnCustomFiltersChanged_def SetCustomFilters_fields)
  moreover have fr: "mt_configuration w = mt_configuration s" "mt_initialized w" using w(3) by (simp_all add: frame_def)
  then have "demand_ok env ?r" using assms(3) by (simp add: demand_ok_def OnCustomFiltersChanged_def SetCustomFilters_fields)
  ultimately have "maintainer_ok env ?r" by (simp add: maintainer_ok_def synced_def)
  moreover have "StorageInitialized env loaded s = Some ?r"
    using dedup w(1) by (simp add: StorageInitialized_def)
  moreover have "mt_initialized ?r" using fr by (simp add: OnCustomFiltersChanged_def SetCustomFilters_fields)
  moreover have "GetReadySubscriptions env ?r = GetReadySubscriptions env w" "GetPendingSubscriptions ?r = GetPendingSubscriptions w"
    by (simp_all add: GetReadySubscriptions_def GetPendingSubscriptions_def OnCustomFiltersChanged_def SetCustomFilters_fields)
  moreover have "set (GetReadySubscriptions env ?t) = set (map (source_url env) loaded)" "GetPendingSubscriptions ?t = []"
    using u(5) assms(6) by (simp_all add: GetReadySubscriptions_def GetPendingSubscriptions_def)
  ultimately show ?thesis using that [of ?r] w(4,5) dem(2) by auto
qed

end
