(* ===== verification/Maintainer_Properties.thy ===== *)
theory Maintainer_Properties
  imports Maintainer_Facts Downloader_Facts
begin

text \<open>
  The maintainer over time: its events, the invariant they keep, and the properties of starting, changing the
  configuration, updating and installing.
\<close>

section \<open>Update checks\<close>

lemma update_expired_effect:
  assumes "synced env s" "\<forall>u\<in>source_url env ` set xs. parsed env u"
  shows "synced env (update_expired env now xs s) \<and> frame (update_expired env now xs s) = frame s \<and>
    mt_current_state (update_expired env now xs s) = mt_current_state s \<and>
    mt_storage (update_expired env now xs s) = mt_storage s \<and>
    set (GetPendingSubscriptions (update_expired env now xs s)) = set (GetPendingSubscriptions s) \<union>
      {u \<in> source_url env ` set xs. IsExpired now u (st_metadata (mt_storage s)) \<and> IsUrlAllowed (me_download env) u}"
  using assms
proof (induction xs arbitrary: s)
  case (Cons x xs)
  let ?u = "source_url env x"
  show ?case
  proof (cases "IsExpired now ?u (st_metadata (mt_storage s)) \<and> ?u \<notin> set (GetPendingSubscriptions s)")
    case True
    then have np: "?u \<notin> set (GetPendingSubscriptions s)" by simp
    have p: "parsed env ?u" using Cons.prems(2) by simp
    note e = Download_effect [OF Cons.prems(1) np p]
    have "update_expired env now (x # xs) s = update_expired env now xs (DownloadAndInstallSubscription env ?u s)"
      using True by (simp add: Let_def)
    then show ?thesis using Cons.IH [OF e(1)] Cons.prems(2) e(2-5) True by auto
  next
    case False
    have "update_expired env now (x # xs) s = update_expired env now xs s"
      using False by (auto simp: Let_def)
    then show ?thesis using Cons.IH [OF Cons.prems(1)] Cons.prems(2) False by auto
  qed
qed simp

lemma RunUpdateCheck_effect:
  assumes "maintainer_env_ok env" "synced env s"
  shows "synced env (RunUpdateCheck env now s) \<and> mt_configuration (RunUpdateCheck env now s) = mt_configuration s \<and>
    mt_initialized (RunUpdateCheck env now s) = mt_initialized s \<and>
    GetReadySubscriptions env (RunUpdateCheck env now s) = GetReadySubscriptions env s \<and>
    (\<forall>u. u \<in> set (GetReadySubscriptions env s) \<and> IsExpired now u (st_metadata (mt_storage s)) \<and>
      IsUrlAllowed (me_download env) u \<longrightarrow> u \<in> set (GetPendingSubscriptions (update_expired env now (mt_current_state s) s)))"
proof -
  let ?t = "update_expired env now (mt_current_state s) s"
  have "\<forall>u\<in>source_url env ` set (mt_current_state s). parsed env u" using parsed_source_url [OF assms(1)] by blast
  note t = update_expired_effect [OF assms(2) this, of now]
  have fr: "mt_configuration ?t = mt_configuration s" "mt_initialized ?t = mt_initialized s"
    using t by (simp_all add: frame_def)
  have ready: "GetReadySubscriptions env ?t = GetReadySubscriptions env s" using t by (simp add: GetReadySubscriptions_def)
  have ping: "synced env (PingAcceptableAds env now ?t) \<and> mt_configuration (PingAcceptableAds env now ?t) = mt_configuration ?t \<and>
      mt_initialized (PingAcceptableAds env now ?t) = mt_initialized ?t \<and>
      mt_current_state (PingAcceptableAds env now ?t) = mt_current_state ?t"
  proof -
    obtain d es where d: "DoHeadRequest (me_download env) (st_metadata (mt_storage ?t)) (AcceptableAdsUrl (me_config env)) 0
        (mt_downloader ?t) = (d, es)" by fastforce
    have "synced env (?t\<lparr>mt_downloader := d\<rparr>)" using t by (subst synced_cong [where t = ?t]) simp_all
    from run_callbacks_effect [OF this, of now es] show ?thesis using d by (simp add: PingAcceptableAds_def)
  qed
  have "RunUpdateCheck env now s \<in> {PingAcceptableAds env now ?t, ?t}" by (simp add: RunUpdateCheck_def Let_def)
  then show ?thesis using ping fr ready t by (auto simp: GetReadySubscriptions_def)
qed

section \<open>Events\<close>

text \<open>The thread pool reads the directory, the reply to that, a change of the configuration, an answer of the environment of
  the downloader, a list that was written to disk or could not be, the timer of the updater, the last reference to
  a subscription that is gone. The thread pool may also end a write of an earlier maintainer of the directory, which
  was destroyed meanwhile: the file is there, but nobody stores a signature for it. When there is no maintainer at
  that moment, the next one finds the directory as if the write had ended just after it was made.\<close>

datatype maintainer_event =
    Directory_read "string \<Rightarrow> bool" "string \<Rightarrow> bool"
  | Load_replied
  | Configuration_event config_op
  | Network_event download_event int
  | Written_event nat flat_Subscription string "flat_Subscription write_outcome" bool int
  | Update_timer int
  | Subscription_released nat
  | Orphan_written string flat_Subscription

fun on_notification :: "maintainer_env \<Rightarrow> Notification \<Rightarrow> maintainer \<Rightarrow> maintainer option" where
  "on_notification env FilterListsChanged s = OnFilterListsChanged env s"
| "on_notification env AllowedDomainsChanged s = Some (OnAllowedDomainsChanged env s)"
| "on_notification env CustomFiltersChanged s = Some (OnCustomFiltersChanged env s)"
| "on_notification env EnabledStateChanged s = Some s"

fun notify_all :: "maintainer_env \<Rightarrow> Notification list \<Rightarrow> maintainer \<Rightarrow> maintainer option" where
  "notify_all env [] s = Some s"
| "notify_all env (n # ns) s = do { s \<leftarrow> on_notification env n s; notify_all env ns s }"

fun maintainer_step :: "maintainer_env \<Rightarrow> maintainer_event \<Rightarrow> maintainer \<Rightarrow> maintainer option" where
  "maintainer_step env (Directory_read readable mappable) s = read_directory env readable mappable s"
| "maintainer_step env Load_replied s = load_replied env s"
| "maintainer_step env (Configuration_event op) s =
     (let (c, prefs, ns) = apply_op op (mt_configuration s) (mt_configuration_prefs s)
      in notify_all env ns (s\<lparr>mt_configuration := c, mt_configuration_prefs := prefs\<rparr>))"
| "maintainer_step env (Network_event e now) s =
     do { ((m, d), es) \<leftarrow> download_step (me_download env) e (st_metadata (mt_storage s), mt_downloader s);
          Some (run_callbacks env now es
            (s\<lparr>mt_storage := (mt_storage s)\<lparr>st_metadata := m\<rparr>, mt_downloader := d\<rparr>)) }"
| "maintainer_step env (Written_event i raw_data tok outcome mapped now) s =
     (let (sub, st) = StoreSubscription (me_storage env) tok outcome mapped now raw_data (mt_storage s)
      in SubscriptionAddedToStorage env i sub
           (s\<lparr>mt_storage := st, mt_storing := remove1 (i, raw_data) (mt_storing s)\<rparr>))"
| "maintainer_step env (Update_timer now) s = Some (RunUpdateCheck env now s)"
| "maintainer_step env (Subscription_released i) s =
     Some (s\<lparr>mt_storage := DestroySubscription i (mt_storage s)\<rparr>)"
| "maintainer_step env (Orphan_written tok raw_data) s =
     Some (s\<lparr>mt_storage := (mt_storage s)\<lparr>st_disk := AList.update (tok @ ''.fb'') raw_data (st_disk (mt_storage s))\<rparr>\<rparr>)"

text \<open>What can happen: the directory is read once and replied to once, added lists have parsed URLs, the list that is
  written was given to the storage and its token is not in use.\<close>

fun maintainer_event_ok :: "maintainer_env \<Rightarrow> maintainer_event \<Rightarrow> maintainer \<Rightarrow> bool" where
  "maintainer_event_ok env (Directory_read readable mappable) s \<longleftrightarrow>
     (case mt_loading s of Reading signatures \<Rightarrow> True | _ \<Rightarrow> False)"
| "maintainer_event_ok env Load_replied s \<longleftrightarrow> (case mt_loading s of Files_read files \<Rightarrow> True | _ \<Rightarrow> False)"
| "maintainer_event_ok env (Orphan_written tok raw_data) s \<longleftrightarrow> tok @ ''.fb'' \<notin> fst ` set (st_disk (mt_storage s))"
| "maintainer_event_ok env (Configuration_event (Op_AddFilterList u)) s \<longleftrightarrow> parsed env u"
| "maintainer_event_ok env (Written_event i raw_data tok outcome mapped now) s \<longleftrightarrow>
     (i, raw_data) \<in> set (mt_storing s) \<and> tok @ ''.fb'' \<notin> fst ` set (st_disk (mt_storage s))"
| "maintainer_event_ok env _ s \<longleftrightarrow> True"

text \<open>The one case the code does not expect: the installation was cancelled and writing it failed.\<close>

fun cancelled_and_failed :: "maintainer_env \<Rightarrow> maintainer_event \<Rightarrow> maintainer \<Rightarrow> bool" where
  "cancelled_and_failed env (Written_event i raw_data tok outcome mapped now) s \<longleftrightarrow>
     i \<notin> fst ` set (mt_ongoing_installations s) \<and> (outcome \<noteq> Written \<or> \<not> mapped)"
| "cancelled_and_failed env _ s \<longleftrightarrow> False"

lemma demand_ok_op:
  assumes "demand_ok env s" "maintainer_event_ok env (Configuration_event op) s"
    "apply_op op (mt_configuration s) prefs = (c, prefs', ns)"
  shows "demand_ok env (s\<lparr>mt_configuration := c, mt_configuration_prefs := prefs'\<rparr>)"
proof -
  let ?l = "GetFromList (cfg_dictionary (mt_configuration s)) kFilterListsKey"
  have ok: "config_ok (mt_configuration s)" "distinct ?l" "\<forall>l\<in>set ?l. spec (ce_parse_url (me_config env) l) = l"
    using assms(1) by (simp_all add: demand_ok_def Let_def)
  have c: "config_ok c" using apply_op_ok [OF ok(1), of op prefs] assms(3) by simp
  have "set_lists (settings_of c) = set_lists (change_settings op (settings_of (mt_configuration s)))"
    using apply_op_settings [OF ok(1), of op prefs] assms(3) by simp
  then have l: "GetFromList (cfg_dictionary c) kFilterListsKey = set_lists (change_settings op (settings_of (mt_configuration s)))"
    by (simp add: settings_of_def)
  have "distinct (set_lists (change_settings op (settings_of (mt_configuration s)))) \<and>
      (\<forall>l\<in>set (set_lists (change_settings op (settings_of (mt_configuration s)))). spec (ce_parse_url (me_config env) l) = l)"
    using ok(2,3) assms(2)
    by (cases op) (auto simp: settings_of_def add_once_def parsed_def distinct_remove1 dest: notin_set_remove1)
  then show ?thesis using c l by (simp add: demand_ok_def Let_def)
qed

text \<open>The environment of the downloader answers what it was asked. The answer may still be lost (\<open>Downloader_Facts\<close> says
  when).\<close>

fun answer_possible :: "maintainer_event \<Rightarrow> maintainer \<Rightarrow> bool" where
  "answer_possible (Network_event e now) s \<longleftrightarrow> event_possible e (mt_downloader s)"
| "answer_possible _ s \<longleftrightarrow> True"

fun answer_lost :: "maintainer_env \<Rightarrow> maintainer_event \<Rightarrow> maintainer \<Rightarrow> bool" where
  "answer_lost env (Network_event e now) s \<longleftrightarrow> answer_is_lost (me_download env) e (mt_downloader s)"
| "answer_lost env _ s \<longleftrightarrow> False"

text \<open>The load of the stored lists. While it is under way the maintainer has nothing, and its storage governs nothing;
  the files that were read stay on disk and vouched for.\<close>

definition loading_ok :: "maintainer_env \<Rightarrow> maintainer \<Rightarrow> bool" where
  "loading_ok env s \<longleftrightarrow>
     (if mt_initialized s then mt_loading s = Not_loading
      else idle s \<and> governs_nothing (mt_storage s) \<and>
        (case mt_loading s of
           Not_loading \<Rightarrow> False
         | Reading signatures \<Rightarrow> signatures = st_signatures (mt_storage s)
         | Files_read files \<Rightarrow> files_ok (me_storage env) files (mt_storage s)))"

lemma maintainer_okD:
  assumes "maintainer_ok env s"
  shows "synced env s" "demand_ok env s" "installed_ok env s" "pending_ok env s" "provider_ok (me_preloaded env) (mt_preloaded s)"
  using assms by (simp_all add: maintainer_ok_def synced_def preloaded_ok_def)

lemma demand_ok_cong: "mt_configuration s = mt_configuration t \<Longrightarrow> demand_ok env s = demand_ok env t"
  by (simp add: demand_ok_def)

lemma ok_intro: "synced env s \<Longrightarrow> demand_ok env t \<Longrightarrow> mt_configuration s = mt_configuration t \<Longrightarrow> maintainer_ok env s"
  using demand_ok_cong [of s t env] by (simp add: maintainer_ok_def synced_def)

lemma configuration_step_ok:
  assumes "maintainer_env_ok env" "maintainer_ok env s" "maintainer_event_ok env (Configuration_event op) s"
  obtains s' where "maintainer_step env (Configuration_event op) s = Some s'" "maintainer_ok env s'"
    "mt_initialized s' = mt_initialized s" "mt_loading s' = mt_loading s"
    "\<not> mt_initialized s \<Longrightarrow> mt_storage s' = mt_storage s \<and> idle s' = idle s"
proof -
  obtain c prefs ns where r: "apply_op op (mt_configuration s) (mt_configuration_prefs s) = (c, prefs, ns)"
    by (metis surj_pair)
  let ?t = "s\<lparr>mt_configuration := c, mt_configuration_prefs := prefs\<rparr>"
  have dem: "demand_ok env ?t" by (rule demand_ok_op [OF maintainer_okD(2) [OF assms(2)] assms(3) r])
  have syn: "synced env ?t" using maintainer_okD(1) [OF assms(2)] by (subst synced_cong [where t = s]) simp_all
  have same: "maintainer_ok env ?t" using ok_intro [OF syn dem] by simp
  have custom: "maintainer_ok env (OnCustomFiltersChanged env ?t)"
  proof (rule ok_intro [OF _ dem])
    show "synced env (OnCustomFiltersChanged env ?t)"
      using syn by (subst synced_cong [where t = ?t]) (simp_all add: OnCustomFiltersChanged_def SetCustomFilters_fields)
  qed (simp add: OnCustomFiltersChanged_def SetCustomFilters_fields)
  have "kept (OnCustomFiltersChanged env ?t) = (c, custom_list env c, mt_initialized s, mt_loading s)"
    by (simp add: OnCustomFiltersChanged_def SetCustomFilters_kept)
  then have fields: "mt_initialized (OnCustomFiltersChanged env ?t) = mt_initialized s" "mt_loading (OnCustomFiltersChanged env ?t) = mt_loading s"
    by (simp_all add: kept_def)
  have idle: "mt_storage (OnCustomFiltersChanged env ?t) = mt_storage s" "idle (OnCustomFiltersChanged env ?t) = idle s"
    by (simp_all add: OnCustomFiltersChanged_def SetCustomFilters_fields idle_def)
  have "ns = [] \<or> (\<exists>n. ns = [n])"
    using apply_op_shape_of [of op "mt_configuration s" "mt_configuration_prefs s"] r by (auto simp: unchanged_or_stored_def)
  then consider "ns = []" | "ns = [EnabledStateChanged]" | "ns = [FilterListsChanged]" |
      "ns = [AllowedDomainsChanged]" | "ns = [CustomFiltersChanged]" by (metis Notification.exhaust)
  then show ?thesis
  proof cases
    case 3
    show ?thesis
    proof (cases "mt_initialized s")
      case True
      then have i: "mt_initialized ?t" by simp
      obtain s' where s': "OnFilterListsChanged env ?t = Some s'" "synced env s'" "frame s' = frame ?t"
        by (rule OnFilterListsChanged_effect [OF assms(1) syn dem i])
      then have "maintainer_ok env s'" using ok_intro [OF s'(2) dem] by (simp add: frame_def)
      moreover have "mt_initialized s' = mt_initialized s" "mt_loading s' = mt_loading s"
        using OnFilterListsChanged_kept [OF s'(1)] by (simp_all add: kept_def)
      ultimately show ?thesis using r s'(1) 3 True by (intro that [of s']) simp_all
    next
      case False
      then show ?thesis using r 3 same by (intro that [of ?t]) (simp_all add: OnFilterListsChanged_def)
    qed
  next
    case 4
    then show ?thesis
      using r custom fields idle by (intro that [of "OnCustomFiltersChanged env ?t"]) (simp_all add: OnAllowedDomainsChanged_def)
  next
    case 5
    then show ?thesis using r custom fields idle by (intro that [of "OnCustomFiltersChanged env ?t"]) simp_all
  qed (use r same in \<open>auto intro!: that [of ?t]\<close>)
qed

lemma written_facts:
  assumes "maintainer_ok env s" "tok @ ''.fb'' \<notin> fst ` set (st_disk (mt_storage s))"
    "StoreSubscription (me_storage env) tok outcome mapped now d (mt_storage s) = (sub, st)"
  shows "synced env (s\<lparr>mt_storage := st, mt_storing := remove1 (i, d) (mt_storing s)\<rparr>)"
    "sub = Some x \<Longrightarrow> ss_id x \<in> fst ` set (st_backing st)"
    "sub = Some x \<Longrightarrow> ss_id x \<notin> ss_id ` set (mt_current_state s)"
proof -
  note ok = maintainer_okD [OF assms(1)] and fresh = assms(2) and r = assms(3)
  let ?t = "s\<lparr>mt_storage := st, mt_storing := remove1 (i, d) (mt_storing s)\<rparr>"
  have st_ok: "storage_ok (me_storage env) (mt_storage s)" using ok(3) by (simp add: installed_ok_def)
  have st: "storage_ok (me_storage env) st"
    using StoreSubscription_ok [OF st_ok fresh, of outcome mapped now d] r by simp
  have grow: "fst ` set (st_backing (mt_storage s)) \<subseteq> fst ` set (st_backing st)" by (rule StoreSubscription_backing(1) [OF r])
  have "ss_id ` set (mt_current_state s) \<subseteq> fst ` set (st_backing st)"
    using ok(3) grow by (meson installed_ok_def order_trans)
  then have ti: "installed_ok env ?t" using ok(3) st by (simp add: installed_ok_def GetReadySubscriptions_def)
  have tp: "pending_ok env ?t"
  proof -
    have "\<forall>(j, e)\<in>set (mt_storing s). j < mt_next_installation s" using ok(4) by (simp add: pending_ok_def)
    then have "\<forall>(j, e)\<in>set (remove1 (i, d) (mt_storing s)). j < mt_next_installation s"
      by (meson notin_set_remove1)
    then show ?thesis using ok(4) by (simp add: pending_ok_def GetPendingSubscriptions_def)
  qed
  have tpre: "preloaded_ok env ?t" using ok(1) by (subst preloaded_ok_cong [where t = s]) (simp_all add: synced_def)
  have tsyn: "synced env ?t" using ti tp tpre by (simp add: synced_def)
  show "synced env ?t" by (rule tsyn)
  show "ss_id x \<in> fst ` set (st_backing st)" if "sub = Some x"
    using StoreSubscription_backing(2) [OF r that] by blast
  have less: "j < st_next_id (mt_storage s)" if "j \<in> ss_id ` set (mt_current_state s)" for j
  proof -
    have "j \<in> fst ` set (st_backing (mt_storage s))" using ok(3) that by (auto simp: installed_ok_def)
    then show ?thesis using backing_id_less [OF st_ok] by auto
  qed
  show "ss_id x \<notin> ss_id ` set (mt_current_state s)" if "sub = Some x"
    using less [of "ss_id x"] StoreSubscription_backing(2) [OF r that] by auto
qed

lemma written_step_ok:
  assumes "maintainer_ok env s"
    "maintainer_event_ok env (Written_event i d tok outcome mapped now) s"
    "\<not> cancelled_and_failed env (Written_event i d tok outcome mapped now) s"
  obtains s' where "maintainer_step env (Written_event i d tok outcome mapped now) s = Some s'" "maintainer_ok env s'"
proof -
  note obt = that
  note ok = maintainer_okD [OF assms(1)]
  obtain sub st where r: "StoreSubscription (me_storage env) tok outcome mapped now d (mt_storage s) = (sub, st)"
    by (cases "StoreSubscription (me_storage env) tok outcome mapped now d (mt_storage s)")
  let ?t = "s\<lparr>mt_storage := st, mt_storing := remove1 (i, d) (mt_storing s)\<rparr>"
  have fresh: "tok @ ''.fb'' \<notin> fst ` set (st_disk (mt_storage s))" using assms(2) by simp
  note f1 = written_facts(1) [OF assms(1) fresh r, where i = i] and f = written_facts(2,3) [OF assms(1) fresh r]
  have ti: "installed_ok env ?t" and tp: "pending_ok env ?t" using f1 by (simp_all add: synced_def)
  have step: "maintainer_step env (Written_event i d tok outcome mapped now) s = SubscriptionAddedToStorage env i sub ?t"
    using r by simp
  have fin: thesis if h: "maintainer_step env (Written_event i d tok outcome mapped now) s = Some s'" "synced env s'"
    "mt_configuration s' = mt_configuration ?t" for s'
    using obt [OF h(1)] ok_intro [OF h(2) ok(2)] h(3) by simp
  show ?thesis
  proof (cases "i \<in> fst ` set (mt_ongoing_installations ?t)")
    case True
    then obtain v where v: "(i, v) \<in> set (mt_ongoing_installations ?t)" by auto
    show ?thesis
    proof (cases sub)
      case None
      obtain s' where "SubscriptionAddedToStorage env i None ?t = Some s'" "synced env s'"
        "mt_configuration s' = mt_configuration ?t"
        by (rule Added_failed [OF f1 v])
      then show ?thesis using fin step None by metis
    next
      case (Some x)
      obtain s' where "SubscriptionAddedToStorage env i (Some x) ?t = Some s'" "synced env s'"
        "mt_configuration s' = mt_configuration ?t"
        by (rule Added_installed [OF ti tp _ _ _ v])
          (use ok(5) f [OF Some] in simp_all)
      then show ?thesis using fin step Some by metis
    qed
  next
    case False
    then have "outcome = Written" "mapped" using assms(3) by auto
    then obtain x where x: "sub = Some x"
      using r by (auto simp: StoreSubscription_def WriteSubscription_def SubscriptionStored_def make_subscription_def Let_def)
    obtain s' where "SubscriptionAddedToStorage env i (Some x) ?t = Some s'" "synced env s'"
      "mt_configuration s' = mt_configuration ?t"
      by (rule Added_cancelled [OF ti tp _ _ _ False])
        (use ok(5) f [OF x] in simp_all)
    then show ?thesis using fin step x by metis
  qed
qed

lemma network_step_ok:
  assumes "maintainer_ok env s" "maintainer_step env (Network_event e now) s = Some s'"
  shows "maintainer_ok env s'"
proof -
  obtain m d es where r: "download_step (me_download env) e (st_metadata (mt_storage s), mt_downloader s) = Some ((m, d), es)"
    and s': "s' = run_callbacks env now es (s\<lparr>mt_storage := (mt_storage s)\<lparr>st_metadata := m\<rparr>, mt_downloader := d\<rparr>)"
    using assms(2) by (auto split: Option.bind_splits prod.splits)
  let ?t = "s\<lparr>mt_storage := (mt_storage s)\<lparr>st_metadata := m\<rparr>, mt_downloader := d\<rparr>"
  have "synced env (s\<lparr>mt_storage := (mt_storage s)\<lparr>st_metadata := m\<rparr>\<rparr>)"
    using maintainer_okD(1) [OF assms(1)] by (simp add: synced_metadata)
  then have "synced env ?t" by (subst synced_cong [where t = "s\<lparr>mt_storage := (mt_storage s)\<lparr>st_metadata := m\<rparr>\<rparr>"]) simp_all
  note c = run_callbacks_effect [OF this, of now es]
  then show ?thesis unfolding s' by (intro ok_intro [OF _ maintainer_okD(2) [OF assms(1)]]) simp_all
qed

lemma Destroy_backing: "st_backing (DestroySubscription i st) = st_backing st"
  by (simp add: DestroySubscription_def split: option.split)

lemma released_step_ok:
  assumes "maintainer_ok env s"
  shows "maintainer_ok env (s\<lparr>mt_storage := DestroySubscription i (mt_storage s)\<rparr>)"
proof -
  note ok = maintainer_okD [OF assms]
  have "storage_ok (me_storage env) (DestroySubscription i (mt_storage s))"
    using ok(3) by (intro DestroySubscription_ok) (simp add: installed_ok_def)
  then have "installed_ok env (s\<lparr>mt_storage := DestroySubscription i (mt_storage s)\<rparr>)"
    using ok(3) by (simp add: installed_ok_def GetReadySubscriptions_def Destroy_backing)
  moreover have "preloaded_ok env (s\<lparr>mt_storage := DestroySubscription i (mt_storage s)\<rparr>)"
    using ok(1) by (subst preloaded_ok_cong [where t = s]) (simp_all add: synced_def)
  ultimately have "synced env (s\<lparr>mt_storage := DestroySubscription i (mt_storage s)\<rparr>)"
    using ok(4) by (simp add: synced_def pending_ok_storage)
  then show ?thesis by (rule ok_intro [OF _ ok(2)]) simp
qed

lemma storage_replaced_ok:
  assumes "maintainer_ok env s" "storage_ok (me_storage env) st" "st_backing st = st_backing (mt_storage s)"
  shows "maintainer_ok env (s\<lparr>mt_storage := st\<rparr>)"
proof -
  note ok = maintainer_okD [OF assms(1)]
  have "installed_ok env (s\<lparr>mt_storage := st\<rparr>)" using ok(3) assms(2,3) by (simp add: installed_ok_def GetReadySubscriptions_def)
  moreover have "preloaded_ok env (s\<lparr>mt_storage := st\<rparr>)"
    using ok(1) by (subst preloaded_ok_cong [where t = s]) (simp_all add: synced_def)
  ultimately have "synced env (s\<lparr>mt_storage := st\<rparr>)" using ok(4) by (simp add: synced_def pending_ok_storage)
  then show ?thesis by (rule ok_intro [OF _ ok(2)]) simp
qed

lemma maintainer_ok_loading [simp]: "maintainer_ok env (s\<lparr>mt_loading := l\<rparr>) = maintainer_ok env s"
  by (simp add: maintainer_ok_def installed_ok_def pending_ok_def preloaded_ok_def demand_ok_def GetReadySubscriptions_def
      GetPendingSubscriptions_def)

lemma storage_of_ok: "maintainer_ok env s \<Longrightarrow> storage_ok (me_storage env) (mt_storage s)"
  by (simp add: maintainer_ok_def installed_ok_def)

section \<open>Loading\<close>

text \<open>Everything but the directory and the reply leaves the load alone.\<close>

fun load_event :: "maintainer_event \<Rightarrow> bool" where
  "load_event (Directory_read readable mappable) \<longleftrightarrow> True"
| "load_event Load_replied \<longleftrightarrow> True"
| "load_event _ \<longleftrightarrow> False"

fun changes_configuration :: "maintainer_event \<Rightarrow> bool" where
  "changes_configuration (Configuration_event op) \<longleftrightarrow> True"
| "changes_configuration e \<longleftrightarrow> False"

lemma maintainer_step_kept:
  assumes "maintainer_step env e s = Some t" "\<not> changes_configuration e" "\<not> load_event e"
  shows "kept t = kept s"
proof (cases e)
  case (Network_event ev now)
  then show ?thesis using assms(1) by (auto simp: run_callbacks_kept split: Option.bind_splits prod.splits)
next
  case (Written_event i d tok outcome mapped now)
  then show ?thesis using assms(1) by (auto dest!: SubscriptionAddedToStorage_kept split: prod.splits)
qed (use assms in \<open>auto simp: RunUpdateCheck_kept\<close>)

lemma maintainer_step_idle:
  assumes "maintainer_step env e s = Some t" "\<not> changes_configuration e" "\<not> load_event e" "idle s"
  shows "idle t"
proof (cases e)
  case (Network_event ev now)
  then show ?thesis
    using assms(1,4) by (auto intro!: run_callbacks_idle split: Option.bind_splits prod.splits)
next
  case (Written_event i d tok outcome mapped now)
  obtain sub st where "StoreSubscription (me_storage env) tok outcome mapped now d (mt_storage s) = (sub, st)" by fastforce
  then have "SubscriptionAddedToStorage env i sub (s\<lparr>mt_storage := st, mt_storing := remove1 (i, d) (mt_storing s)\<rparr>) = Some t"
    using assms(1) Written_event by simp
  then show ?thesis by (rule SubscriptionAddedToStorage_idle) (use assms(4) in \<open>simp add: idle_def\<close>)
next
  case (Update_timer now)
  then show ?thesis using assms(1) RunUpdateCheck_idle(1) [OF assms(4)] by auto
qed (use assms in auto)

text \<open>While the load is under way the files of the storage can only become more.\<close>

definition storage_grew :: "flat_Subscription storage \<Rightarrow> flat_Subscription storage \<Rightarrow> bool" where
  "storage_grew st st' \<longleftrightarrow> st_objects st' = st_objects st \<and> st_backing st' = st_backing st \<and> st_next_id st' = st_next_id st \<and>
     st_signatures st' = st_signatures st \<and> set (st_disk st) \<subseteq> set (st_disk st')"

lemma storage_grew_metadata [simp]: "storage_grew st (st\<lparr>st_metadata := m\<rparr>)" "storage_grew st st"
  by (simp_all add: storage_grew_def)

lemma updated_disk: "p \<notin> fst ` set d \<Longrightarrow> set (AList.update p c d) = insert (p, c) (set d)"
  by (induction d) auto

lemma maintainer_step_storage:
  assumes "maintainer_step env e s = Some t" "maintainer_event_ok env e s" "\<not> changes_configuration e" "\<not> load_event e"
    "idle s" "governs_nothing (mt_storage s)"
  shows "storage_grew (mt_storage s) (mt_storage t)"
proof (cases e)
  case (Network_event ev now)
  then obtain m d es where "t = run_callbacks env now es (s\<lparr>mt_storage := (mt_storage s)\<lparr>st_metadata := m\<rparr>, mt_downloader := d\<rparr>)"
    using assms(1) by (auto split: Option.bind_splits prod.splits)
  then have "mt_storage t = (mt_storage s)\<lparr>st_metadata := st_metadata (mt_storage t)\<rparr>"
    using run_callbacks_frame [of env now es "s\<lparr>mt_storage := (mt_storage s)\<lparr>st_metadata := m\<rparr>, mt_downloader := d\<rparr>"] by simp
  then show ?thesis using storage_grew_metadata(1) by metis
next
  case (Written_event i d tok outcome mapped now)
  then show ?thesis using assms(2,5) by (simp add: idle_def)
next
  case (Update_timer now)
  then have "mt_storage t = (mt_storage s)\<lparr>st_metadata := st_metadata (mt_storage t)\<rparr>"
    using assms(1) RunUpdateCheck_idle(2) [OF assms(5), of env now] by auto
  then show ?thesis using storage_grew_metadata(1) by metis
next
  case (Subscription_released i)
  then show ?thesis using assms(1,6) by (auto simp: DestroySubscription_def governs_nothing_def)
next
  case (Orphan_written tok c)
  then show ?thesis using assms(1,2) by (auto simp: storage_grew_def updated_disk)
qed (use assms(3,4) in simp_all)

lemma loading_ok_grew:
  assumes "loading_ok env s" "mt_initialized t = mt_initialized s" "mt_loading t = mt_loading s"
    "\<not> mt_initialized s \<Longrightarrow> idle t \<and> storage_grew (mt_storage s) (mt_storage t)"
  shows "loading_ok env t"
  using assms
  by (auto simp: loading_ok_def storage_grew_def governs_nothing_def files_ok_def split: load_state.splits if_splits)

text \<open>The reply makes the maintainer ready, in step with the configuration as it is then.\<close>

lemma load_replied_effect:
  assumes "maintainer_env_ok env" "maintainer_ok env s" "loading_ok env s" "mt_loading s = Files_read fs"
  obtains s' where "load_replied env s = Some s'" "maintainer_ok env s'" "mt_initialized s'" "mt_loading s' = Not_loading"
    "set (GetReadySubscriptions env s') =
      source_url env ` set (fst (LoadComplete (me_storage env) fs (mt_storage s))) \<inter> set (mt_filter_lists env s)"
    "set (GetPendingSubscriptions s') = {u \<in> set (mt_filter_lists env s).
       u \<notin> source_url env ` set (fst (LoadComplete (me_storage env) fs (mt_storage s))) \<and> IsUrlAllowed (me_download env) u}"
proof -
  have f: "idle s" "governs_nothing (mt_storage s)" "files_ok (me_storage env) fs (mt_storage s)"
    using assms(3,4) by (auto simp: loading_ok_def split: if_splits)
  obtain loaded st where l: "LoadComplete (me_storage env) fs (mt_storage s) = (loaded, st)" by fastforce
  let ?t = "s\<lparr>mt_storage := st, mt_loading := Not_loading\<rparr>"
  have st: "storage_ok (me_storage env) (mt_storage ?t)"
    using LoadComplete_ok [OF storage_of_ok [OF assms(2)] f(2,3)] l by simp
  have loaded: "loaded = loaded_objects (me_storage env) (st_metadata (mt_storage s)) 0 fs" "st_backing st = loaded_backing 0 fs"
    using l f(2) by (auto simp: LoadComplete_eq governs_nothing_def)
  have ids: "set (map ss_id loaded) \<subseteq> fst ` set (st_backing (mt_storage ?t))"
    using loaded_object_backing loaded by force
  have dist: "distinct (map ss_id loaded)" unfolding loaded by (rule loaded_objects_distinct)
  have dem: "demand_ok env ?t" using maintainer_okD(2) [OF assms(2)] by (simp add: demand_ok_def)
  have pre: "preloaded_ok env ?t"
    using assms(2) by (subst preloaded_ok_cong [where t = s]) (simp_all add: maintainer_ok_def)
  have none: "mt_ongoing_installations ?t = []" "mt_storing ?t = []" using f(1) by (simp_all add: idle_def)
  obtain s' where s': "StorageInitialized env loaded ?t = Some s'" "maintainer_ok env s'" "mt_initialized s'"
    "set (GetReadySubscriptions env s') = set (map (source_url env) loaded) \<inter> set (mt_filter_lists env ?t)"
    "set (GetPendingSubscriptions s') =
      {u \<in> set (mt_filter_lists env ?t). u \<notin> set (map (source_url env) loaded) \<and> IsUrlAllowed (me_download env) u}"
    by (rule StorageInitialized_effect [OF assms(1) st dem dist ids none pre])
  have "mt_loading s' = Not_loading" using StorageInitialized_kept [OF s'(1)] by (simp add: kept_def)
  moreover have "mt_filter_lists env ?t = mt_filter_lists env s" by (simp add: mt_filter_lists_def)
  ultimately show ?thesis using that [of s'] s' l assms(4) by (simp add: load_replied_def)
qed

lemma load_step_ok:
  assumes "maintainer_env_ok env" "maintainer_ok env s" "loading_ok env s" "load_event e" "maintainer_event_ok env e s"
  obtains s' where "maintainer_step env e s = Some s'" "maintainer_ok env s'" "loading_ok env s'"
proof (cases e)
  case (Directory_read readable mappable)
  then obtain sigs where l: "mt_loading s = Reading sigs" using assms(5) by (auto split: load_state.splits)
  then have f: "\<not> mt_initialized s" "idle s" "governs_nothing (mt_storage s)" "sigs = st_signatures (mt_storage s)"
    using assms(3) by (auto simp: loading_ok_def split: if_splits)
  obtain fs st where r: "ReadSubscriptionsFromDirectory (me_storage env) (st_signatures (mt_storage s)) readable mappable
      (mt_storage s) = (fs, st)" by fastforce
  note st = read_directory_ok [OF storage_of_ok [OF assms(2)] f(3) r]
  have "st_backing st = st_backing (mt_storage s)" using st(2) f(3) by (simp add: governs_nothing_def)
  from storage_replaced_ok [OF assms(2) st(1) this]
  have "maintainer_ok env (s\<lparr>mt_storage := st, mt_loading := Files_read fs\<rparr>)" by simp
  moreover have "loading_ok env (s\<lparr>mt_storage := st, mt_loading := Files_read fs\<rparr>)" using f st by (simp add: loading_ok_def)
  ultimately show ?thesis
    using that [of "s\<lparr>mt_storage := st, mt_loading := Files_read fs\<rparr>"] l f(4) r Directory_read by (simp add: read_directory_def)
next
  case Load_replied
  then obtain fs where l: "mt_loading s = Files_read fs" using assms(5) by (auto split: load_state.splits)
  obtain s' where "load_replied env s = Some s'" "maintainer_ok env s'" "mt_initialized s'" "mt_loading s' = Not_loading"
    by (rule load_replied_effect [OF assms(1-3) l])
  then show ?thesis using that [of s'] Load_replied by (simp add: loading_ok_def)
qed (use assms(4) in simp_all)

section \<open>Steps\<close>

lemma forbidden_write_fails:
  "cancelled_and_failed env e s \<Longrightarrow> maintainer_step env e s = None"
  by (cases e) (auto simp: SubscriptionAddedToStorage_def StoreSubscription_def WriteSubscription_def SubscriptionStored_def
      Let_def split: write_outcome.splits option.splits)

lemma maintainer_step_keeps:
  assumes "maintainer_env_ok env" "maintainer_ok env s" "loading_ok env s" "maintainer_event_ok env e s"
    "maintainer_step env e s = Some s'"
  shows "maintainer_ok env s' \<and> loading_ok env s'"
proof (cases "load_event e")
  case True
  then obtain t where "maintainer_step env e s = Some t" "maintainer_ok env t" "loading_ok env t"
    by (rule load_step_ok [OF assms(1-3) _ assms(4)])
  then show ?thesis using assms(5) by simp
next
  case other: False
  show ?thesis
  proof (cases "changes_configuration e")
    case True
    then obtain op where op: "e = Configuration_event op" by (cases e) simp_all
    obtain t where t: "maintainer_step env e s = Some t" "maintainer_ok env t" "mt_initialized t = mt_initialized s"
      "mt_loading t = mt_loading s" "\<not> mt_initialized s \<Longrightarrow> mt_storage t = mt_storage s \<and> idle t = idle s"
      using configuration_step_ok [OF assms(1,2), of op] assms(4) unfolding op by blast
    have "loading_ok env t"
      by (rule loading_ok_grew [OF assms(3) t(3,4)]) (use t(5) assms(3) in \<open>auto simp: loading_ok_def split: if_splits\<close>)
    then show ?thesis using t(1,2) assms(5) by simp
  next
    case False
    note s' = assms(5)
    have kept: "mt_initialized s' = mt_initialized s" "mt_loading s' = mt_loading s"
      using maintainer_step_kept [OF s' False other] by (simp_all add: kept_def)
    have "loading_ok env s'"
    proof (rule loading_ok_grew [OF assms(3) kept])
      assume "\<not> mt_initialized s"
      then have "idle s" "governs_nothing (mt_storage s)" using assms(3) by (auto simp: loading_ok_def split: if_splits)
      then show "idle s' \<and> storage_grew (mt_storage s) (mt_storage s')"
        using maintainer_step_idle [OF s' False other] maintainer_step_storage [OF s' assms(4) False other] by blast
    qed
    moreover have "maintainer_ok env s'"
    proof (cases e)
      case (Network_event ev now)
      then show ?thesis using network_step_ok [OF assms(2)] s' by blast
    next
      case (Written_event i d tok outcome mapped now)
      have "\<not> cancelled_and_failed env e s" using forbidden_write_fails [of env e s] s' by auto
      then obtain t where "maintainer_step env e s = Some t" "maintainer_ok env t"
        using written_step_ok [OF assms(2), of i d tok outcome mapped now] assms(4) unfolding Written_event by blast
      then show ?thesis using s' by simp
    next
      case (Update_timer now)
      then show ?thesis
        using RunUpdateCheck_effect [OF assms(1) maintainer_okD(1) [OF assms(2)], of now] s'
        by (auto intro!: ok_intro [OF _ maintainer_okD(2) [OF assms(2)]])
    next
      case (Subscription_released i)
      then show ?thesis using released_step_ok [OF assms(2)] s' by auto
    next
      case (Orphan_written tok c)
      have "storage_ok (me_storage env) ((mt_storage s)\<lparr>st_disk := AList.update (tok @ ''.fb'') c (st_disk (mt_storage s))\<rparr>)"
        using disk_only_ok [OF storage_of_ok [OF assms(2)]] assms(4) Orphan_written by simp
      then show ?thesis using storage_replaced_ok [OF assms(2)] s' Orphan_written by auto
    qed (use False other in simp_all)
    ultimately show ?thesis by blast
  qed
qed

lemma downloader_step_ok:
  assumes "maintainer_step env e s = Some t" "download_env_ok (me_download env)" "downloader_ok env s"
  shows "downloader_ok env t"
proof (cases e)
  case (Directory_read readable mappable)
  then show ?thesis using assms(1,3) by (auto simp: read_directory_def split: load_state.splits prod.splits)
next
  case Load_replied
  then show ?thesis
    using assms(1,3) by (auto simp: load_replied_def dest!: StorageInitialized_downloader split: load_state.splits prod.splits)
next
  case (Configuration_event op)
  have notified: "downloader_ok env v" if "on_notification env n u = Some v" "downloader_ok env u" for n u v
    using that by (cases n) (auto simp: OnAllowedDomainsChanged_def OnCustomFiltersChanged_def dest: OnFilterListsChanged_downloader)
  have "downloader_ok env v" if "notify_all env ns u = Some v" "downloader_ok env u" for ns u v
    using that by (induction ns arbitrary: u) (auto dest: notified split: Option.bind_splits)
  then show ?thesis using assms(1,3) Configuration_event by (fastforce split: prod.splits)
next
  case (Network_event ev now)
  then obtain m d es where "download_step (me_download env) ev (st_metadata (mt_storage s), mt_downloader s) = Some ((m, d), es)"
    "t = run_callbacks env now es (s\<lparr>mt_storage := (mt_storage s)\<lparr>st_metadata := m\<rparr>, mt_downloader := d\<rparr>)"
    using assms(1) by (auto split: Option.bind_splits prod.splits)
  then show ?thesis using download_step_ok [OF assms(2,3)] by (fastforce simp: run_callbacks_frame)
next
  case (Written_event i d tok outcome mapped now)
  then show ?thesis using assms(1,3) by (auto dest!: SubscriptionAddedToStorage_downloader split: prod.splits)
qed (use assms(1,3) RunUpdateCheck_downloader in auto)

text \<open>Of the events that are possible, these two are the ones that fail.\<close>

lemma maintainer_step_fails_iff:
  assumes "maintainer_env_ok env" "maintainer_ok env s" "loading_ok env s" "maintainer_event_ok env e s"
    "download_env_ok (me_download env)" "downloader_ok env s" "answer_possible e s"
  shows "maintainer_step env e s = None \<longleftrightarrow> cancelled_and_failed env e s \<or> answer_lost env e s"
proof (cases "\<exists>ev now. e = Network_event ev now")
  case True
  then obtain ev now where e: "e = Network_event ev now" by blast
  have "maintainer_step env e s = None \<longleftrightarrow>
      download_step (me_download env) ev (st_metadata (mt_storage s), mt_downloader s) = None"
    unfolding e by (auto split: Option.bind_splits prod.splits)
  then show ?thesis using download_step_fails_iff [OF assms(5,6), of ev] assms(7) e by simp
next
  case False
  then have "\<not> answer_lost env e s" by (cases e) auto
  moreover have "maintainer_step env e s \<noteq> None" if "\<not> cancelled_and_failed env e s"
  proof (cases "load_event e")
    case True
    then show ?thesis using load_step_ok [OF assms(1-3) _ assms(4)] by (metis option.distinct(1))
  next
    case other: False
    show ?thesis
    proof (cases e)
      case (Configuration_event op)
      then show ?thesis using configuration_step_ok [OF assms(1,2), of op] assms(4) by (metis option.distinct(1))
    next
      case (Written_event i d tok outcome mapped now)
      then show ?thesis
        using written_step_ok [OF assms(2), of i d tok outcome mapped now] assms(4) that by (metis option.distinct(1))
    qed (use False other in auto)
  qed
  ultimately show ?thesis using forbidden_write_fails by blast
qed

section \<open>Runs\<close>

fun maintainer_run :: "maintainer_env \<Rightarrow> maintainer_event list \<Rightarrow> maintainer \<Rightarrow> maintainer option" where
  "maintainer_run env [] s = Some s"
| "maintainer_run env (e # es) s = do { s \<leftarrow> maintainer_step env e s; maintainer_run env es s }"

text \<open>Every event of a run meets a condition in the state it comes in.\<close>

fun run_meets :: "(maintainer_event \<Rightarrow> maintainer \<Rightarrow> bool) \<Rightarrow> maintainer_env \<Rightarrow> maintainer_event list \<Rightarrow> maintainer \<Rightarrow> bool" where
  "run_meets P env [] s \<longleftrightarrow> True"
| "run_meets P env (e # es) s \<longleftrightarrow> P e s \<and>
     (case maintainer_step env e s of None \<Rightarrow> True | Some s' \<Rightarrow> run_meets P env es s')"

definition possible_run :: "maintainer_env \<Rightarrow> maintainer_event list \<Rightarrow> maintainer \<Rightarrow> bool" where
  "possible_run env = run_meets (\<lambda>e s. maintainer_event_ok env e s \<and> answer_possible e s) env"

lemma maintainer_run_keeps:
  assumes "maintainer_env_ok env" "maintainer_ok env s" "loading_ok env s" "run_meets (maintainer_event_ok env) env es s"
    "maintainer_run env es s = Some t"
  shows "maintainer_ok env t \<and> loading_ok env t"
  using assms(2-5)
proof (induction es arbitrary: s)
  case (Cons e es)
  obtain s' where s': "maintainer_step env e s = Some s'" "maintainer_run env es s' = Some t"
    using Cons.prems(4) by (auto split: Option.bind_splits)
  then have "maintainer_ok env s'" "loading_ok env s'"
    using maintainer_step_keeps [OF assms(1) Cons.prems(1,2) _ s'(1)] Cons.prems(3) by auto
  then show ?case using Cons.IH [of s'] s' Cons.prems(3) by simp
qed simp

lemma possible_run_events: "possible_run env es s \<Longrightarrow> run_meets (maintainer_event_ok env) env es s"
  unfolding possible_run_def by (induction es arbitrary: s) (auto split: option.splits)

text \<open>A run fails exactly at an event that the code does not expect.\<close>

definition unexpected_event :: "maintainer_env \<Rightarrow> maintainer_event list \<Rightarrow> maintainer \<Rightarrow> bool" where
  "unexpected_event env es s0 \<longleftrightarrow> (\<exists>before e after s. es = before @ e # after \<and> maintainer_run env before s0 = Some s \<and>
     (cancelled_and_failed env e s \<or> answer_lost env e s))"

lemma unexpected_event_Cons:
  "unexpected_event env (e # es) s \<longleftrightarrow> cancelled_and_failed env e s \<or> answer_lost env e s \<or>
     (\<exists>s'. maintainer_step env e s = Some s' \<and> unexpected_event env es s')"
proof
  assume "unexpected_event env (e # es) s"
  then obtain before e' after t where h: "e # es = before @ e' # after" "maintainer_run env before s = Some t"
    "cancelled_and_failed env e' t \<or> answer_lost env e' t" by (auto simp: unexpected_event_def)
  show "cancelled_and_failed env e s \<or> answer_lost env e s \<or>
     (\<exists>s'. maintainer_step env e s = Some s' \<and> unexpected_event env es s')"
  proof (cases before)
    case Nil
    then show ?thesis using h by auto
  next
    case (Cons b bs)
    then obtain s' where "maintainer_step env e s = Some s'" "maintainer_run env bs s' = Some t"
      using h(1,2) by (auto split: Option.bind_splits)
    then show ?thesis using h(1,3) Cons unfolding unexpected_event_def by auto
  qed
next
  assume "cancelled_and_failed env e s \<or> answer_lost env e s \<or>
     (\<exists>s'. maintainer_step env e s = Some s' \<and> unexpected_event env es s')"
  then consider "cancelled_and_failed env e s \<or> answer_lost env e s"
    | s' where "maintainer_step env e s = Some s'" "unexpected_event env es s'" by blast
  then show "unexpected_event env (e # es) s"
  proof cases
    case 1
    then show ?thesis unfolding unexpected_event_def by (intro exI [of _ "[]"] exI [of _ e] exI [of _ es] exI [of _ s]) simp
  next
    case 2
    then obtain before e' after t where "es = before @ e' # after" "maintainer_run env before s' = Some t"
      "cancelled_and_failed env e' t \<or> answer_lost env e' t" by (auto simp: unexpected_event_def)
    then show ?thesis
      unfolding unexpected_event_def using 2(1)
      by (intro exI [of _ "e # before"] exI [of _ e'] exI [of _ after] exI [of _ t]) simp
  qed
qed

lemma maintainer_run_fails_iff:
  assumes "maintainer_env_ok env" "download_env_ok (me_download env)" "maintainer_ok env s" "loading_ok env s"
    "downloader_ok env s" "possible_run env es s"
  shows "maintainer_run env es s = None \<longleftrightarrow> unexpected_event env es s"
  using assms(3-6)
proof (induction es arbitrary: s)
  case Nil
  show ?case by (simp add: unexpected_event_def)
next
  case (Cons e es)
  have e: "maintainer_event_ok env e s" "answer_possible e s" using Cons.prems(4) by (simp_all add: possible_run_def)
  note fails = maintainer_step_fails_iff [OF assms(1) Cons.prems(1,2) e(1) assms(2) Cons.prems(3) e(2)]
  show ?case
  proof (cases "maintainer_step env e s")
    case None
    then show ?thesis using fails by (simp add: unexpected_event_Cons)
  next
    case (Some s')
    then have expected: "\<not> cancelled_and_failed env e s" "\<not> answer_lost env e s" using fails by simp_all
    have "maintainer_ok env s'" "loading_ok env s'"
      using maintainer_step_keeps [OF assms(1) Cons.prems(1,2) e(1) Some] by auto
    moreover have "downloader_ok env s'" by (rule downloader_step_ok [OF Some assms(2) Cons.prems(3)])
    moreover have "possible_run env es s'" using Cons.prems(4) Some by (simp add: possible_run_def)
    ultimately show ?thesis using Cons.IH [of s'] Some expected by (simp add: unexpected_event_Cons)
  qed
qed

section \<open>Starts\<close>

text \<open>A start of the program: the files and preferences of the last session, the configuration. The maintainer that is
  made has its load ahead.\<close>

definition made_maintainer :: "maintainer_env \<Rightarrow> FilteringConfiguration \<Rightarrow> dict \<Rightarrow> flat_Subscription storage \<Rightarrow> maintainer" where
  "made_maintainer env configuration prefs last_session =
     InitializeStorage (new_Maintainer configuration prefs (Restart (me_storage env) (me_schema_version env) last_session))"

definition start_maintainer :: "maintainer_env \<Rightarrow> (string \<Rightarrow> bool) \<Rightarrow> (string \<Rightarrow> bool) \<Rightarrow> FilteringConfiguration \<Rightarrow> dict \<Rightarrow>
    flat_Subscription storage \<Rightarrow> maintainer option" where
  "start_maintainer env readable mappable configuration prefs last_session =
     maintainer_run env [Directory_read readable mappable, Load_replied] (made_maintainer env configuration prefs last_session)"

definition loaded_urls :: "maintainer_env \<Rightarrow> (string \<Rightarrow> bool) \<Rightarrow> (string \<Rightarrow> bool) \<Rightarrow> flat_Subscription storage \<Rightarrow> gurl set" where
  "loaded_urls env readable mappable last_session =
     source_url env ` set (fst (LoadSubscriptions (me_storage env) readable mappable
       (Restart (me_storage env) (me_schema_version env) last_session)))"

lemma new_provider_preloads_nothing: "GetCurrentPreloadedSubscriptions new_PreloadedSubscriptionProvider = []"
  by (simp add: GetCurrentPreloadedSubscriptions_def new_PreloadedSubscriptionProvider_def map_filter_map_filter List.map_filter_def)

lemma new_maintainer_ok:
  assumes "storage_ok (me_storage env) st" "governs_nothing st" "demand_ok env (new_Maintainer configuration prefs st)"
  shows "maintainer_ok env (InitializeStorage (new_Maintainer configuration prefs st))"
    "loading_ok env (InitializeStorage (new_Maintainer configuration prefs st))"
    "downloader_ok env (InitializeStorage (new_Maintainer configuration prefs st))"
    "\<not> mt_initialized (InitializeStorage (new_Maintainer configuration prefs st))"
proof -
  let ?s = "new_Maintainer configuration prefs st"
  have "preloaded_ok env ?s"
    using new_provider_ok [of "me_preloaded env"] new_provider_preloads_nothing
    by (simp add: preloaded_ok_def new_Maintainer_def GetPendingSubscriptions_def needed_def)
  then have "maintainer_ok env ?s"
    using assms by (simp add: maintainer_ok_def installed_ok_def pending_ok_def new_Maintainer_def GetReadySubscriptions_def
        GetPendingSubscriptions_def)
  then show "maintainer_ok env (InitializeStorage ?s)" by (simp add: InitializeStorage_def)
  show "loading_ok env (InitializeStorage ?s)"
    using assms(2) new_provider_preloads_nothing
    by (simp add: loading_ok_def InitializeStorage_def new_Maintainer_def idle_def IsSignatureValid_def)
  show "downloader_ok env (InitializeStorage ?s)"
    by (simp add: InitializeStorage_def new_Maintainer_def no_downloads_def downloads_ok_def)
  show "\<not> mt_initialized (InitializeStorage ?s)" by (simp add: InitializeStorage_def new_Maintainer_def)
qed

lemma made_maintainer_ok:
  assumes "storage_ok (me_storage env) session" "demand_ok env (new_Maintainer configuration prefs session)"
  shows "maintainer_ok env (made_maintainer env configuration prefs session)"
    "loading_ok env (made_maintainer env configuration prefs session)"
    "downloader_ok env (made_maintainer env configuration prefs session)"
proof -
  let ?r = "Restart (me_storage env) (me_schema_version env) session"
  have r: "storage_ok (me_storage env) ?r" "governs_nothing ?r" using Restart_ok [OF assms(1)] by blast+
  have "demand_ok env (new_Maintainer configuration prefs ?r)" using assms(2) by (simp add: demand_ok_def new_Maintainer_def)
  note ok = new_maintainer_ok [OF r this]
  show "maintainer_ok env (made_maintainer env configuration prefs session)"
    "loading_ok env (made_maintainer env configuration prefs session)"
    "downloader_ok env (made_maintainer env configuration prefs session)"
    unfolding made_maintainer_def by (rule ok)+
qed

lemma start_effect:
  assumes "maintainer_env_ok env" "storage_ok (me_storage env) session"
    "demand_ok env (new_Maintainer configuration prefs session)"
  obtains s where "start_maintainer env readable mappable configuration prefs session = Some s" "maintainer_ok env s" "mt_initialized s"
    "set (GetReadySubscriptions env s) =
      loaded_urls env readable mappable session \<inter> set (GetFilterLists (ce_parse_url (me_config env)) configuration)"
    "set (GetPendingSubscriptions s) =
      {u \<in> set (GetFilterLists (ce_parse_url (me_config env)) configuration).
         u \<notin> loaded_urls env readable mappable session \<and> IsUrlAllowed (me_download env) u}"
proof -
  let ?r = "Restart (me_storage env) (me_schema_version env) session" and ?m = "made_maintainer env configuration prefs session"
  note m = made_maintainer_ok [OF assms(2,3)]
  obtain fs st where r: "ReadSubscriptionsFromDirectory (me_storage env) (st_signatures ?r) readable mappable ?r = (fs, st)" by fastforce
  have fields: "mt_loading ?m = Reading (st_signatures ?r)" "mt_storage ?m = ?r" "mt_configuration ?m = configuration"
    by (simp_all add: made_maintainer_def InitializeStorage_def new_Maintainer_def IsSignatureValid_def)
  let ?t = "?m\<lparr>mt_storage := st, mt_loading := Files_read fs\<rparr>"
  have step: "maintainer_step env (Directory_read readable mappable) ?m = Some ?t"
    using fields r by (simp add: read_directory_def)
  have "maintainer_event_ok env (Directory_read readable mappable) ?m" by (simp add: fields)
  then have t: "maintainer_ok env ?t" "loading_ok env ?t"
    using load_step_ok [OF assms(1) m(1,2), of "Directory_read readable mappable"] step by auto
  obtain s where s: "load_replied env ?t = Some s" "maintainer_ok env s" "mt_initialized s" "mt_loading s = Not_loading"
    "set (GetReadySubscriptions env s) =
      source_url env ` set (fst (LoadComplete (me_storage env) fs st)) \<inter> set (mt_filter_lists env ?t)"
    "set (GetPendingSubscriptions s) = {u \<in> set (mt_filter_lists env ?t).
       u \<notin> source_url env ` set (fst (LoadComplete (me_storage env) fs st)) \<and> IsUrlAllowed (me_download env) u}"
    by (rule load_replied_effect [OF assms(1) t]) simp_all
  have "loaded_urls env readable mappable session = source_url env ` set (fst (LoadComplete (me_storage env) fs st))"
    using LoadSubscriptions_split [OF r] by (simp add: loaded_urls_def)
  moreover have "start_maintainer env readable mappable configuration prefs session = Some s"
    using step s(1) by (simp add: start_maintainer_def)
  ultimately show ?thesis using s(2,3,5,6) that by (simp add: mt_filter_lists_def fields)
qed

end
