(* ===== verification/Maintainer_Contract.thy ===== *)
theory Maintainer_Contract
  imports Maintainer_Properties
begin

text \<open>
  What the maintainer promises: after a start and after every change of the filter lists the installed and the
  pending lists are those of the configuration, a list that was written replaces its predecessor, preloaded
  lists stand in for pending ones, expired lists are updated, and all of this is kept by every run.
\<close>

section \<open>Single steps\<close>

lemma run_pings_keep_pending:
  assumes "\<forall>e\<in>set es. \<exists>i. e = Head_request_done i []"
  shows "run_callbacks env now es s = s"
proof -
  have "run_callback env now e s = s" if "e \<in> set es" for e
    using assms that by (auto simp: OnHeadRequestDone_def)
  then show ?thesis by (induction es) (simp_all add: run_callbacks_def)
qed

lemma Ping_pending: "GetPendingSubscriptions (PingAcceptableAds env now s) = GetPendingSubscriptions s"
proof -
  obtain d es where d: "DoHeadRequest (me_download env) (st_metadata (mt_storage s)) (AcceptableAdsUrl (me_config env)) 0
      (mt_downloader s) = (d, es)" by fastforce
  then have "\<forall>e\<in>set es. \<exists>i. e = Head_request_done i []"
    by (auto simp: DoHeadRequest_def Let_def split: option.splits prod.splits)
  from run_pings_keep_pending [OF this] show ?thesis
    using d by (simp add: PingAcceptableAds_def GetPendingSubscriptions_def)
qed

lemma RunUpdateCheck_pending:
  assumes "maintainer_env_ok env" "synced env s"
  shows "set (GetPendingSubscriptions (RunUpdateCheck env now s)) = set (GetPendingSubscriptions s) \<union>
    {u \<in> set (GetReadySubscriptions env s). IsExpired now u (st_metadata (mt_storage s)) \<and> IsUrlAllowed (me_download env) u}"
proof -
  have "\<forall>u\<in>source_url env ` set (mt_current_state s). parsed env u" using parsed_source_url [OF assms(1)] by blast
  from update_expired_effect [OF assms(2) this, of now] show ?thesis
    by (simp add: RunUpdateCheck_def Let_def Ping_pending GetReadySubscriptions_def)
qed

text \<open>A list that is being updated is ready and pending at once. When the filter lists change it is counted
  twice in \<open>RemoveUnneededSubscriptions\<close>, and loses both the installed list and its update although the
  configuration still asks for it.\<close>

lemma updating_lists_are_uninstalled_by_a_change:
  assumes "maintainer_env_ok env" "maintainer_ok env s" "mt_initialized s"
    "u \<in> set (mt_filter_lists env s)" "u \<in> set (GetReadySubscriptions env s)" "u \<in> set (GetPendingSubscriptions s)"
  shows "\<exists>s'. OnFilterListsChanged env s = Some s' \<and> u \<notin> set (GetReadySubscriptions env s') \<and>
    u \<notin> set (GetPendingSubscriptions s')"
proof -
  obtain s' where s': "OnFilterListsChanged env s = Some s'"
    "set (GetReadySubscriptions env s') =
      {u \<in> set (GetReadySubscriptions env s). u \<in> set (mt_filter_lists env s) \<and> u \<notin> set (GetPendingSubscriptions s)}"
    "set (GetPendingSubscriptions s') =
      {u \<in> set (mt_filter_lists env s). u \<notin> set (GetReadySubscriptions env s) \<and>
         (u \<in> set (GetPendingSubscriptions s) \<or> IsUrlAllowed (me_download env) u)}"
    by (rule OnFilterListsChanged_effect [OF assms(1) maintainer_okD(1,2) [OF assms(2)] assms(3)])
  show ?thesis
  proof (intro exI conjI)
    show "OnFilterListsChanged env s = Some s'" by (rule s'(1))
    show "u \<notin> set (GetReadySubscriptions env s')" unfolding s'(2) using assms(6) by simp
    show "u \<notin> set (GetPendingSubscriptions s')" unfolding s'(3) using assms(5) by simp
  qed
qed

lemma written_replaces:
  assumes "maintainer_ok env s" "(i, v) \<in> set (mt_ongoing_installations s)"
    "tok @ ''.fb'' \<notin> fst ` set (st_disk (mt_storage s))"
  obtains s' x where "maintainer_step env (Written_event i d tok Written True now) s = Some s'" "x \<in> set (mt_current_state s')"
    "ss_subscription x = new_InstalledSubscriptionImpl (env_net (me_storage env)) (env_GetSubscription (me_storage env) d)
      Installed now"
    "GetReadySubscriptions env s' = remove1 (source_url env x) (GetReadySubscriptions env s) @ [source_url env x]"
    "set (GetPendingSubscriptions s') = set (GetPendingSubscriptions s) - {v, source_url env x}"
proof -
  obtain sub st where r: "StoreSubscription (me_storage env) tok Written True now d (mt_storage s) = (sub, st)"
    by (cases "StoreSubscription (me_storage env) tok Written True now d (mt_storage s)")
  then obtain x where x: "sub = Some x"
    and xs: "ss_subscription x = new_InstalledSubscriptionImpl (env_net (me_storage env)) (env_GetSubscription (me_storage env) d)
      Installed now"
    by (auto simp: StoreSubscription_def WriteSubscription_def SubscriptionStored_def make_subscription_def Let_def)
  let ?t = "s\<lparr>mt_storage := st, mt_storing := remove1 (i, d) (mt_storing s)\<rparr>"
  note f1 = written_facts(1) [OF assms(1,3) r, where i = i] and f = written_facts(2,3) [OF assms(1,3) r]
  have t: "installed_ok env ?t" "pending_ok env ?t" "provider_ok (me_preloaded env) (mt_preloaded ?t)"
    using f1 by (simp_all add: synced_def preloaded_ok_def)
  have v: "(i, v) \<in> set (mt_ongoing_installations ?t)" using assms(2) by simp
  have same: "GetReadySubscriptions env ?t = GetReadySubscriptions env s" "GetPendingSubscriptions ?t = GetPendingSubscriptions s"
    by (simp_all add: GetReadySubscriptions_def GetPendingSubscriptions_def)
  obtain s' where "SubscriptionAddedToStorage env i (Some x) ?t = Some s'" "x \<in> set (mt_current_state s')"
    "GetReadySubscriptions env s' = remove1 (source_url env x) (GetReadySubscriptions env ?t) @ [source_url env x]"
    "set (GetPendingSubscriptions s') = set (GetPendingSubscriptions ?t) - {v, source_url env x}"
    by (rule Added_installed [OF t _ _ v, of x]) (use f [OF x] in simp_all)
  then show ?thesis using r x xs same by (intro that) simp_all
qed

section \<open>An example\<close>

text \<open>Two stored lists, of which the configuration asks for one and for a third one.\<close>

definition example_list_file :: "string \<Rightarrow> flat_Subscription" where
  "example_list_file list_url = empty_subscription\<lparr>fb_metadata := (fb_metadata empty_subscription)\<lparr>fm_url := list_url\<rparr>\<rparr>"

definition example_maintainer_env :: maintainer_env where
  "example_maintainer_env =
     \<lparr>me_storage = \<lparr>env_hash = (\<lambda>d. fm_url (fb_metadata d)), env_GetSubscription = id,
        env_metadata = example_metadata_env, env_net = example_env\<rparr>,
      me_download = example_download_env,
      me_config = \<lparr>ce_parse_url = simple_gurl, ce_SetPort = (\<lambda>p u. u), ce_port_for_testing = 0\<rparr>,
      me_preloaded = \<lparr>pe_MatchPattern = (\<lambda>s w. w = CHR ''*'' # drop (Suc (length s) - length w) s),
        pe_resource = (\<lambda>r. example_list_file ''preloaded''), pe_net = example_env\<rparr>,
      me_schema_version = ''1''\<rparr>"

definition example_last_session :: "flat_Subscription storage" where
  "example_last_session = fresh_storage (me_storage example_maintainer_env)
     [(''a.fb'', example_list_file ''https://a.com/x.txt''), (''b.fb'', example_list_file ''https://b.com/y.txt'')]
     [(''a.fb'', ''https://a.com/x.txt''), (''b.fb'', ''https://b.com/y.txt'')] ''1'' []"

definition example_lists_wanted :: FilteringConfiguration where
  "example_lists_wanted =
     fst (AddFilterList (simple_gurl ''https://c.com/easylist.txt'')
       (fst (AddFilterList (simple_gurl ''https://a.com/x.txt'') (new_FilteringConfiguration [] ''adblock'') [])) [])"

abbreviation all_files :: "string \<Rightarrow> bool" where
  "all_files \<equiv> \<lambda>_. True"

definition example_start :: maintainer where
  "example_start =
     the (start_maintainer example_maintainer_env all_files all_files example_lists_wanted [] example_last_session)"

definition example_events :: "maintainer_event list" where
  "example_events =
     [Directory_read all_files all_files, Configuration_event (Op_AddFilterList (simple_gurl ''https://d.com/z.txt'')),
      Orphan_written ''o'' (example_list_file ''https://o.com/z.txt''), Load_replied,
      Network_event (Request_done (simple_gurl ''https://c.com/easylist.txt'') True) 3]"

definition example_made :: maintainer where
  "example_made = made_maintainer example_maintainer_env example_lists_wanted [] example_last_session"

lemma example_maintainer_env_ok: "maintainer_env_ok example_maintainer_env"
  by (simp add: maintainer_env_ok_def parsed_def example_maintainer_env_def example_env_def simple_gurl_def Let_def)

lemma example_last_session_ok: "storage_ok (me_storage example_maintainer_env) example_last_session"
  unfolding example_last_session_def by (rule fresh_storage_ok) simp_all

lemma example_lists: "GetFromList (cfg_dictionary example_lists_wanted) kFilterListsKey =
    [''https://a.com/x.txt'', ''https://c.com/easylist.txt'']"
  by code_simp

lemma example_demand_ok: "demand_ok example_maintainer_env (new_Maintainer example_lists_wanted [] example_last_session)"
proof -
  have "dict_ok (cfg_dictionary example_lists_wanted)" by code_simp
  then show ?thesis
    by (simp add: demand_ok_def new_Maintainer_def example_lists config_ok_def example_maintainer_env_def simple_gurl_def Let_def)
qed

lemmas example_ok = example_maintainer_env_ok example_last_session_ok example_demand_ok

lemma example_started:
  "start_maintainer example_maintainer_env all_files all_files example_lists_wanted [] example_last_session = Some example_start"
proof -
  obtain s where "start_maintainer example_maintainer_env all_files all_files example_lists_wanted [] example_last_session = Some s"
    using start_effect [OF example_ok] by metis
  then show ?thesis by (simp add: example_start_def)
qed

lemma example_start_ok: "maintainer_ok example_maintainer_env example_start" "mt_initialized example_start"
  using start_effect [OF example_ok, of all_files all_files] example_started by (metis option.inject)+

lemma example_start_fields:
  "map spec (GetReadySubscriptions example_maintainer_env example_start) = [''https://a.com/x.txt'']"
  "mt_ongoing_installations example_start = [(1, simple_gurl ''https://c.com/easylist.txt'')]"
  "map fst (st_disk (mt_storage example_start)) = [''a.fb'', ''b.fb'']"
  "IsExpired 1 (simple_gurl ''https://a.com/x.txt'') (st_metadata (mt_storage example_start))"
  by code_simp+

lemma example_ready: "GetReadySubscriptions example_maintainer_env example_start = [simple_gurl ''https://a.com/x.txt'']"
proof -
  obtain u where u: "GetReadySubscriptions example_maintainer_env example_start = [u]" "spec u = ''https://a.com/x.txt''"
    using example_start_fields(1) by auto
  have "parsed example_maintainer_env u"
    using synced_parsed [OF example_maintainer_env_ok maintainer_okD(1) [OF example_start_ok(1)]] u(1) by simp
  then show ?thesis using u by (simp add: parsed_def example_maintainer_env_def)
qed

lemma example_pending: "GetPendingSubscriptions example_start = [simple_gurl ''https://c.com/easylist.txt'']"
  by (simp add: GetPendingSubscriptions_def example_start_fields(2))

lemma example_start_possible:
  "run_meets (maintainer_event_ok example_maintainer_env) example_maintainer_env [Directory_read all_files all_files, Load_replied]
     (made_maintainer example_maintainer_env example_lists_wanted [] example_last_session)"
  by code_simp

lemma example_possible: "possible_run example_maintainer_env example_events example_made"
  by code_simp

lemma example_download_ok: "download_env_ok (me_download example_maintainer_env)"
  using example_download_env_ok by (simp add: example_maintainer_env_def)

text \<open>A list is removed while it is being written, and writing it fails.\<close>

lemma failed_write_of_a_cancelled_installation:
  "maintainer_run example_maintainer_env
     [Directory_read all_files all_files, Load_replied,
      Network_event (Request_done (simple_gurl ''https://c.com/easylist.txt'') True) 3,
      Network_event (Conversion_done (simple_gurl ''https://c.com/easylist.txt'')
        (Converted (example_list_file ''https://c.com/easylist.txt''))) 4,
      Configuration_event (Op_RemoveFilterList (simple_gurl ''https://c.com/easylist.txt'')),
      Written_event 1 (example_list_file ''https://c.com/easylist.txt'') ''c'' (Write_failed None) True 6] example_made = None"
  by (simp only: Option.is_none_def [symmetric]) code_simp

section \<open>The contract\<close>

text \<open>C10: From any stored files and any configuration, from the moment the maintainer is made and through any events that
  are possible, in any order: the directory is read and replied to, the configuration changes (also before the reply),
  downloads are answered, writes end or fail, the timer fires, subscriptions are released. Either none of the events is
  one of the two that the code does not expect; then no call is forbidden and the invariant holds: installed lists have
  distinct URLs and are backed by files that the storage vouches for, pending lists have distinct URLs, the preloaded lists
  are exactly those that are needed, and until the reply the maintainer has no lists and what was read stays on disk
  and vouched for. Or the run contains such an event, and then it fails: the write of an installation that was
  cancelled has failed (the code removes a null subscription), or the answer to the request for a list finds no download,
  because the URL of the list has a query.\<close>

theorem maintainer_stays_in_step:
  assumes "maintainer_env_ok env" "download_env_ok (me_download env)" "storage_ok (me_storage env) session"
    "demand_ok env (new_Maintainer configuration prefs session)"
    "possible_run env es (made_maintainer env configuration prefs session)"
  shows "case maintainer_run env es (made_maintainer env configuration prefs session) of
      Some s \<Rightarrow> maintainer_ok env s \<and> loading_ok env s \<and>
        \<not> unexpected_event env es (made_maintainer env configuration prefs session)
    | None \<Rightarrow> unexpected_event env es (made_maintainer env configuration prefs session)"
proof -
  note made = made_maintainer_ok [OF assms(3,4)]
  show ?thesis
    using maintainer_run_fails_iff [OF assms(1,2) made assms(5)]
      maintainer_run_keeps [OF assms(1) made(1,2) possible_run_events [OF assms(5)]]
    by (auto split: option.split)
qed

theorem maintainer_stays_in_step_witness:
  "case maintainer_run example_maintainer_env example_events example_made of
     Some s \<Rightarrow> maintainer_ok example_maintainer_env s \<and> loading_ok example_maintainer_env s \<and>
       \<not> unexpected_event example_maintainer_env example_events example_made
   | None \<Rightarrow> False"
proof -
  have "\<not> Option.is_none (maintainer_run example_maintainer_env example_events example_made)" by code_simp
  then show ?thesis
    using maintainer_stays_in_step [OF example_maintainer_env_ok example_download_ok example_last_session_ok example_demand_ok
      example_possible [unfolded example_made_def]]
    by (auto simp: example_made_def Option.is_none_def split: option.splits)
qed

text \<open>C13: After a start the installed lists are exactly the stored and trusted ones that the configuration asks
  for, each once, and the pending ones are exactly the others that may be downloaded.\<close>

theorem start_synchronises_with_the_configuration:
  assumes "maintainer_env_ok env" "storage_ok (me_storage env) session"
    "demand_ok env (new_Maintainer configuration prefs session)"
  shows "\<exists>s. start_maintainer env readable mappable configuration prefs session = Some s \<and>
    distinct (GetReadySubscriptions env s) \<and>
    set (GetReadySubscriptions env s) =
      loaded_urls env readable mappable session \<inter> set (GetFilterLists (ce_parse_url (me_config env)) configuration) \<and>
    set (GetPendingSubscriptions s) =
      {u \<in> set (GetFilterLists (ce_parse_url (me_config env)) configuration).
         u \<notin> loaded_urls env readable mappable session \<and> IsUrlAllowed (me_download env) u}"
proof -
  obtain s where "start_maintainer env readable mappable configuration prefs session = Some s" "maintainer_ok env s"
    "set (GetReadySubscriptions env s) =
      loaded_urls env readable mappable session \<inter> set (GetFilterLists (ce_parse_url (me_config env)) configuration)"
    "set (GetPendingSubscriptions s) =
      {u \<in> set (GetFilterLists (ce_parse_url (me_config env)) configuration).
         u \<notin> loaded_urls env readable mappable session \<and> IsUrlAllowed (me_download env) u}"
    by (rule start_effect [OF assms])
  then show ?thesis by (intro exI [of _ s]) (simp add: maintainer_ok_def installed_ok_def)
qed

theorem start_synchronises_with_the_configuration_witness:
  "\<exists>s. start_maintainer example_maintainer_env all_files all_files example_lists_wanted [] example_last_session = Some s \<and>
    set (GetReadySubscriptions example_maintainer_env s) =
      loaded_urls example_maintainer_env all_files all_files example_last_session \<inter>
      set (GetFilterLists (ce_parse_url (me_config example_maintainer_env)) example_lists_wanted)"
  using start_synchronises_with_the_configuration [OF example_ok, of all_files all_files] by blast

text \<open>C24: When the user adds or removes a filter list and no list is being updated, the lists that stay
  installed are those the new configuration asks for, and the pending ones are the wanted ones that are not
  installed and were pending or may be downloaded.\<close>

theorem list_changes_synchronise:
  assumes "maintainer_env_ok env" "maintainer_ok env s" "mt_initialized s" "maintainer_event_ok env (Configuration_event op) s"
    "apply_op op (mt_configuration s) (mt_configuration_prefs s) = (configuration, prefs, [FilterListsChanged])"
    "set (GetReadySubscriptions env s) \<inter> set (GetPendingSubscriptions s) = {}"
  shows "\<exists>s'. maintainer_step env (Configuration_event op) s = Some s' \<and> maintainer_ok env s' \<and>
    mt_filter_lists env s' = GetFilterLists (ce_parse_url (me_config env)) configuration \<and>
    set (GetReadySubscriptions env s') = set (GetReadySubscriptions env s) \<inter> set (mt_filter_lists env s') \<and>
    set (GetPendingSubscriptions s') =
      {u \<in> set (mt_filter_lists env s'). u \<notin> set (GetReadySubscriptions env s) \<and>
         (u \<in> set (GetPendingSubscriptions s) \<or> IsUrlAllowed (me_download env) u)}"
proof -
  let ?t = "s\<lparr>mt_configuration := configuration, mt_configuration_prefs := prefs\<rparr>"
  have dem: "demand_ok env ?t" by (rule demand_ok_op [OF maintainer_okD(2) [OF assms(2)] assms(4,5)])
  have syn: "synced env ?t" using maintainer_okD(1) [OF assms(2)] by (subst synced_cong [where t = s]) simp_all
  have i: "mt_initialized ?t" using assms(3) by simp
  obtain s' where s': "OnFilterListsChanged env ?t = Some s'" "synced env s'" "frame s' = frame ?t"
    "set (GetReadySubscriptions env s') =
      {u \<in> set (GetReadySubscriptions env ?t). u \<in> set (mt_filter_lists env ?t) \<and> u \<notin> set (GetPendingSubscriptions ?t)}"
    "set (GetPendingSubscriptions s') =
      {u \<in> set (mt_filter_lists env ?t). u \<notin> set (GetReadySubscriptions env ?t) \<and>
         (u \<in> set (GetPendingSubscriptions ?t) \<or> IsUrlAllowed (me_download env) u)}"
    by (rule OnFilterListsChanged_effect [OF assms(1) syn dem i])
  have conf: "mt_configuration s' = configuration" using s'(3) by (simp add: frame_def)
  have lists: "mt_filter_lists env s' = mt_filter_lists env ?t" "GetReadySubscriptions env ?t = GetReadySubscriptions env s"
    "GetPendingSubscriptions ?t = GetPendingSubscriptions s"
    using conf by (simp_all add: mt_filter_lists_def GetReadySubscriptions_def GetPendingSubscriptions_def)
  have "maintainer_ok env s'" using conf by (intro ok_intro [OF s'(2) dem]) simp
  moreover have "maintainer_step env (Configuration_event op) s = Some s'" using assms(5) s'(1) by simp
  moreover have "set (GetReadySubscriptions env s') = set (GetReadySubscriptions env s) \<inter> set (mt_filter_lists env s')"
    unfolding s'(4) lists using assms(6) by fast
  moreover have "mt_filter_lists env s' = GetFilterLists (ce_parse_url (me_config env)) configuration"
    using conf by (simp add: mt_filter_lists_def)
  moreover have "set (GetPendingSubscriptions s') =
      {u \<in> set (mt_filter_lists env s'). u \<notin> set (GetReadySubscriptions env s) \<and>
         (u \<in> set (GetPendingSubscriptions s) \<or> IsUrlAllowed (me_download env) u)}"
    using s'(5) by (simp only: lists)
  ultimately show ?thesis by (intro exI [of _ s'] conjI)
qed

theorem list_changes_synchronise_witness:
  "\<exists>s'. maintainer_step example_maintainer_env (Configuration_event (Op_RemoveFilterList (simple_gurl ''https://a.com/x.txt'')))
      example_start = Some s' \<and> GetReadySubscriptions example_maintainer_env s' = [] \<and>
    set (GetPendingSubscriptions s') \<subseteq> {simple_gurl ''https://c.com/easylist.txt''}"
proof -
  let ?op = "Op_RemoveFilterList (simple_gurl ''https://a.com/x.txt'')"
  obtain c p ns where op: "apply_op ?op (mt_configuration example_start) (mt_configuration_prefs example_start) = (c, p, ns)"
    by (metis surj_pair)
  have notified: "snd (snd (apply_op ?op (mt_configuration example_start) (mt_configuration_prefs example_start))) = [FilterListsChanged]"
    by code_simp
  have "map spec (GetFilterLists simple_gurl
      (fst (apply_op ?op (mt_configuration example_start) (mt_configuration_prefs example_start)))) = [''https://c.com/easylist.txt'']"
    by code_simp
  then have wanted: "GetFilterLists simple_gurl c = [simple_gurl ''https://c.com/easylist.txt'']"
    using op by (auto simp: GetFilterLists_def simple_gurl_def Let_def)
  have disjoint: "set (GetReadySubscriptions example_maintainer_env example_start) \<inter> set (GetPendingSubscriptions example_start) = {}"
    by (simp add: example_ready example_pending simple_gurl_def Let_def)
  have parse: "ce_parse_url (me_config example_maintainer_env) = simple_gurl" by (simp add: example_maintainer_env_def)
  have differ: "simple_gurl ''https://a.com/x.txt'' \<noteq> simple_gurl ''https://c.com/easylist.txt''"
    by (simp add: simple_gurl_def Let_def)
  have "apply_op ?op (mt_configuration example_start) (mt_configuration_prefs example_start) = (c, p, [FilterListsChanged])"
    using op notified by simp
  from list_changes_synchronise [OF example_maintainer_env_ok example_start_ok _ this disjoint]
  obtain s' where s': "maintainer_step example_maintainer_env (Configuration_event ?op) example_start = Some s'"
    "mt_filter_lists example_maintainer_env s' = GetFilterLists simple_gurl c"
    "set (GetReadySubscriptions example_maintainer_env s') =
      set (GetReadySubscriptions example_maintainer_env example_start) \<inter> set (mt_filter_lists example_maintainer_env s')"
    "set (GetPendingSubscriptions s') \<subseteq> set (mt_filter_lists example_maintainer_env s')"
    unfolding parse by auto
  have "set (GetReadySubscriptions example_maintainer_env s') = {}"
    unfolding s'(3) s'(2) wanted example_ready using differ by simp
  then show ?thesis using s'(1,4) s'(2) wanted by auto
qed

text \<open>C25: A list that was downloaded and written to disk is installed in place of its predecessor, once, and is
  no longer pending.\<close>

theorem written_lists_replace_their_predecessors:
  assumes "maintainer_ok env s" "(i, v) \<in> set (mt_ongoing_installations s)"
    "tok @ ''.fb'' \<notin> fst ` set (st_disk (mt_storage s))"
  shows "\<exists>s' x. maintainer_step env (Written_event i d tok Written True now) s = Some s' \<and> x \<in> set (mt_current_state s') \<and>
    ss_subscription x = new_InstalledSubscriptionImpl (env_net (me_storage env)) (env_GetSubscription (me_storage env) d)
      Installed now \<and>
    GetReadySubscriptions env s' = remove1 (source_url env x) (GetReadySubscriptions env s) @ [source_url env x] \<and>
    set (GetPendingSubscriptions s') = set (GetPendingSubscriptions s) - {v, source_url env x}"
  by (rule written_replaces [OF assms, of d now]) blast

theorem written_lists_replace_their_predecessors_witness:
  "\<exists>s' x. maintainer_step example_maintainer_env
      (Written_event 1 (example_list_file ''https://a.com/x.txt'') ''c'' Written True 7) example_start = Some s' \<and>
    x \<in> set (mt_current_state s') \<and> is_installation_time (ss_subscription x) = 7"
proof -
  have "''c'' @ ''.fb'' \<notin> fst ` set (st_disk (mt_storage example_start))"
    using example_start_fields(3) by (simp flip: set_map)
  from written_lists_replace_their_predecessors [OF example_start_ok(1) _ this,
      of 1 "simple_gurl ''https://c.com/easylist.txt''" "example_list_file ''https://a.com/x.txt''" 7]
  obtain s' x where "maintainer_step example_maintainer_env
      (Written_event 1 (example_list_file ''https://a.com/x.txt'') ''c'' Written True 7) example_start = Some s'"
    "x \<in> set (mt_current_state s')"
    "ss_subscription x = new_InstalledSubscriptionImpl (env_net (me_storage example_maintainer_env))
      (env_GetSubscription (me_storage example_maintainer_env) (example_list_file ''https://a.com/x.txt'')) Installed 7"
    by (auto simp: example_start_fields(2))
  then show ?thesis by (intro exI [of _ s'] exI [of _ x]) (simp add: new_InstalledSubscriptionImpl_def)
qed

text \<open>C26: An update check starts a download for exactly the installed lists that are expired and may be
  downloaded, keeps the installed lists in use meanwhile, and leaves what is pending alone.\<close>

theorem update_check_downloads_the_expired_lists:
  assumes "maintainer_env_ok env" "maintainer_ok env s"
  shows "GetReadySubscriptions env (RunUpdateCheck env now s) = GetReadySubscriptions env s \<and>
    set (GetPendingSubscriptions (RunUpdateCheck env now s)) = set (GetPendingSubscriptions s) \<union>
      {u \<in> set (GetReadySubscriptions env s). IsExpired now u (st_metadata (mt_storage s)) \<and> IsUrlAllowed (me_download env) u}"
  using RunUpdateCheck_effect [OF assms(1) maintainer_okD(1) [OF assms(2)]]
    RunUpdateCheck_pending [OF assms(1) maintainer_okD(1) [OF assms(2)]] by simp

theorem update_check_downloads_the_expired_lists_witness:
  "set (GetPendingSubscriptions (RunUpdateCheck example_maintainer_env 1 example_start)) =
     {simple_gurl ''https://c.com/easylist.txt'', simple_gurl ''https://a.com/x.txt''}"
proof -
  have "IsUrlAllowed (me_download example_maintainer_env) (simple_gurl ''https://a.com/x.txt'')" by code_simp
  then show ?thesis
    using update_check_downloads_the_expired_lists [OF example_maintainer_env_ok example_start_ok(1), of 1] example_start_fields(4)
    by (auto simp: example_ready example_pending)
qed

text \<open>C27: In every reachable state a snapshot consists of the installed lists, the custom filters and the
  preloaded lists whose pattern matches a pending list and no installed one; so also while the stored lists are being loaded.\<close>

theorem snapshots_fill_gaps_with_preloaded_lists:
  assumes "maintainer_env_ok env" "storage_ok (me_storage env) session"
    "demand_ok env (new_Maintainer configuration prefs session)"
    "run_meets (maintainer_event_ok env) env es (made_maintainer env configuration prefs session)"
    "maintainer_run env es (made_maintainer env configuration prefs session) = Some s"
  shows "GetSubscriptionCollection s = map ss_subscription (mt_current_state s) @
    (case mt_custom_filters s of Some c \<Rightarrow> [c] | None \<Rightarrow> []) @
    map (preloaded_subscription (me_preloaded env))
      (filter (\<lambda>info. (\<exists>u\<in>set (GetPendingSubscriptions s). pe_MatchPattern (me_preloaded env) (spec u) (pi_url_pattern info)) \<and>
          \<not> (\<exists>u\<in>set (GetReadySubscriptions env s). pe_MatchPattern (me_preloaded env) (spec u) (pi_url_pattern info)))
        GetPreloadedSubscriptionConfiguration)"
proof -
  have "maintainer_ok env s"
    using maintainer_run_keeps [OF assms(1) made_maintainer_ok(1,2) [OF assms(2,3)] assms(4,5)] by blast
  then have "GetCurrentPreloadedSubscriptions (mt_preloaded s) =
      map (preloaded_subscription (me_preloaded env))
        (filter (needed (me_preloaded env) (GetReadySubscriptions env s) (GetPendingSubscriptions s))
          GetPreloadedSubscriptionConfiguration)"
    by (simp add: maintainer_ok_def preloaded_ok_def)
  then show ?thesis by (simp add: GetSubscriptionCollection_def needed_def cong: filter_cong)
qed

theorem snapshots_fill_gaps_with_preloaded_lists_witness:
  "length (GetSubscriptionCollection example_start) = 2"
proof -
  have current: "length (mt_current_state example_start) = 1"
    using arg_cong [OF example_ready, of length] by (simp add: GetReadySubscriptions_def)
  have none: "mt_custom_filters example_start = None" by (simp add: Option.is_none_def [symmetric]) code_simp
  have pattern: "pe_MatchPattern (me_preloaded example_maintainer_env) = (\<lambda>s w. w = CHR ''*'' # drop (Suc (length s) - length w) s)"
    by (simp add: example_maintainer_env_def)
  have spec: "spec (simple_gurl u) = u" for u by (simp add: simple_gurl_def Let_def)
  have snapshot: "GetSubscriptionCollection example_start = map ss_subscription (mt_current_state example_start) @
      (case mt_custom_filters example_start of Some c \<Rightarrow> [c] | None \<Rightarrow> []) @
      map (preloaded_subscription (me_preloaded example_maintainer_env))
        (filter (\<lambda>info. (\<exists>u\<in>{simple_gurl ''https://c.com/easylist.txt''}.
              pe_MatchPattern (me_preloaded example_maintainer_env) (spec u) (pi_url_pattern info)) \<and>
            \<not> (\<exists>u\<in>{simple_gurl ''https://a.com/x.txt''}.
              pe_MatchPattern (me_preloaded example_maintainer_env) (spec u) (pi_url_pattern info)))
          GetPreloadedSubscriptionConfiguration)"
    using snapshots_fill_gaps_with_preloaded_lists [OF example_ok example_start_possible example_started [unfolded start_maintainer_def]]
    by (simp add: example_ready example_pending)
  show ?thesis unfolding snapshot none pattern
    by (simp add: current spec GetPreloadedSubscriptionConfiguration_def)
qed

end
