(* ===== verification/Page_Context.thy ===== *)
theory Page_Context
  imports Resource_Classifier "HOL-Library.AList"
begin

text \<open>
  \<open>content/browser/frame_hierarchy_builder.cc\<close> and \<open>core/sitekey_storage_impl.cc\<close>: what a request is
  judged by besides its URL, namely the frames it comes from and the site key of one of them. A live frame
  is the list of the committed URLs of the frame and of its parents, found by its number. What the code asks
  of a \<open>GURL\<close>, of base64 and of the signature verifier is the fields of \<open>page_env\<close>.
\<close>

section \<open>Environment\<close>

record page_env =
  pg_GetAsReferrer :: "gurl \<Rightarrow> gurl"
  pg_IsAboutBlank :: "gurl \<Rightarrow> bool"
  pg_path :: "gurl \<Rightarrow> string"
  pg_query :: "gurl \<Rightarrow> string option"
  pg_Base64Decode :: "string \<Rightarrow> string option"
  pg_VerifyInit :: "string \<Rightarrow> string \<Rightarrow> bool"
  pg_VerifyFinal :: "string \<Rightarrow> string \<Rightarrow> string \<Rightarrow> bool"

type_synonym frame_urls = "gurl list"
type_synonym frame_hosts = "(nat \<times> frame_urls) list"

section \<open>Frames\<close>

definition is_empty_url :: "gurl \<Rightarrow> bool" where
  "is_empty_url url \<longleftrightarrow> spec url = []"

definition IsValidForFrameHierarchy :: "page_env \<Rightarrow> gurl \<Rightarrow> bool" where
  "IsValidForFrameHierarchy env url = (\<not> is_empty_url url \<and> \<not> pg_IsAboutBlank env url)"

definition FindRenderFrameHost :: "frame_hosts \<Rightarrow> nat \<Rightarrow> frame_urls option" where
  "FindRenderFrameHost frames render_frame_host_id = map_of frames render_frame_host_id"

fun BuildFrameHierarchy :: "page_env \<Rightarrow> frame_urls \<Rightarrow> gurl list" where
  "BuildFrameHierarchy env [] = []"
| "BuildFrameHierarchy env (committed # parents) =
     (let last_commited_referrer = pg_GetAsReferrer env committed
      in if IsValidForFrameHierarchy env last_commited_referrer
         then last_commited_referrer # BuildFrameHierarchy env parents
         else BuildFrameHierarchy env parents)"

text \<open>The loop over the parents, and the URL of the page when none of them has one.\<close>

fun find_parent_url :: "page_env \<Rightarrow> frame_urls \<Rightarrow> gurl option" where
  "find_parent_url env [] = None"
| "find_parent_url env (parent_url # parents) =
     (if \<not> is_empty_url parent_url \<and> \<not> pg_IsAboutBlank env parent_url then Some parent_url
      else find_parent_url env parents)"

fun FindUrlForFrame :: "page_env \<Rightarrow> frame_urls \<Rightarrow> gurl \<Rightarrow> gurl" where
  "FindUrlForFrame env [] page_url = page_url"
| "FindUrlForFrame env (url # parents) page_url =
     (if pg_IsAboutBlank env url
      then (case find_parent_url env parents of
              Some parent_url \<Rightarrow> parent_url
            | None \<Rightarrow> page_url)
      else url)"

section \<open>Site keys\<close>

type_synonym sitekey_map = "(gurl \<times> string) list"

text \<open>The first of the URLs that has a site key.\<close>

fun FindSiteKeyForAnyUrl :: "gurl list \<Rightarrow> sitekey_map \<Rightarrow> (gurl \<times> string) option" where
  "FindSiteKeyForAnyUrl [] m = None"
| "FindSiteKeyForAnyUrl (url # urls) m =
     (case map_of m url of
        Some site_key \<Rightarrow> Some (url, site_key)
      | None \<Rightarrow> FindSiteKeyForAnyUrl urls m)"

text \<open>Position of a substring; \<open>None\<close> is \<open>npos\<close>.\<close>

fun find_substring :: "string \<Rightarrow> string \<Rightarrow> nat option" where
  "find_substring needle [] = (if needle = [] then Some 0 else None)"
| "find_substring needle (c # cs) =
     (if take (length needle) (c # cs) = needle then Some 0 else map_option Suc (find_substring needle cs))"

definition IsSitekeySignatureValid :: "page_env \<Rightarrow> string \<Rightarrow> string \<Rightarrow> string \<Rightarrow> bool" where
  "IsSitekeySignatureValid env public_key_b64 signature_b64 data =
     (case pg_Base64Decode env signature_b64 of
        None \<Rightarrow> False
      | Some signature \<Rightarrow>
          (case pg_Base64Decode env public_key_b64 of
             None \<Rightarrow> False
           | Some public_key \<Rightarrow>
               (if pg_VerifyInit env signature public_key then pg_VerifyFinal env signature public_key data
                else False)))"

text \<open>What a site signs: the path with the query, the host and the user agent, with \<open>NUL\<close> between them.\<close>

definition sitekey_data :: "page_env \<Rightarrow> gurl \<Rightarrow> string \<Rightarrow> string" where
  "sitekey_data env url user_agent =
     (let path_with_query = pg_path env url;
          path_with_query = (case pg_query env url of Some q \<Rightarrow> path_with_query @ ''?'' @ q | None \<Rightarrow> path_with_query)
      in path_with_query @ [CHR 0x00] @ host url @ [CHR 0x00] @ user_agent)"

definition strip_public_key :: "string \<Rightarrow> string" where
  "strip_public_key public_key =
     (case find_substring ''=='' public_key of Some n \<Rightarrow> take n public_key | None \<Rightarrow> public_key)"

definition ProcessSiteKey :: "page_env \<Rightarrow> gurl \<Rightarrow> string \<Rightarrow> string \<Rightarrow> sitekey_map \<Rightarrow> sitekey_map" where
  "ProcessSiteKey env request_url site_key user_agent m =
     (if (case FindSiteKeyForAnyUrl [request_url] m of Some (_, stored) \<Rightarrow> site_key = stored | None \<Rightarrow> False) then m
      else
        (let url = pg_GetAsReferrer env request_url
         in case find_substring ''_'' site_key of
              None \<Rightarrow> m
            | Some delimiter \<Rightarrow>
                (if delimiter \<ge> length site_key - 1 then m
                 else
                   (let public_key = take delimiter site_key;
                        public_key_stripped = strip_public_key public_key;
                        signature = drop (delimiter + 1) site_key
                    in if IsSitekeySignatureValid env public_key signature (sitekey_data env url user_agent) \<and>
                          \<not> is_empty_url request_url \<and> is_valid request_url \<and> site_key \<noteq> []
                       then AList.update url public_key_stripped m else m))))"

definition ProcessResponseHeaders ::
  "page_env \<Rightarrow> gurl \<Rightarrow> (string \<times> string) list \<Rightarrow> string \<Rightarrow> sitekey_map \<Rightarrow> sitekey_map" where
  "ProcessResponseHeaders env request_url header_lines user_agent m =
     (if user_agent = [] then m
      else if GetSitekeyHeader header_lines = [] then m
      else ProcessSiteKey env request_url (GetSitekeyHeader header_lines) user_agent m)"

section \<open>Facts\<close>

lemma BuildFrameHierarchy_filter:
  "BuildFrameHierarchy env urls = filter (IsValidForFrameHierarchy env) (map (pg_GetAsReferrer env) urls)"
  by (induction urls) (simp_all add: Let_def)

lemma find_substring_char:
  "find_substring [x] s = (if x \<in> set s then Some (length (takeWhile (\<lambda>c. c \<noteq> x) s)) else None)"
  by (induction s) auto

lemma FindSiteKeyForAnyUrl_SomeD: "FindSiteKeyForAnyUrl urls m = Some (u, k) \<Longrightarrow> u \<in> set urls \<and> map_of m u = Some k"
  by (induction urls) (auto split: option.splits)

lemma FindSiteKeyForAnyUrl_None_iff: "FindSiteKeyForAnyUrl urls m = None \<longleftrightarrow> (\<forall>u\<in>set urls. map_of m u = None)"
  by (induction urls) (auto split: option.splits)

text \<open>A site key comes with a signature: the header is the key, an underscore and the signature, which covers
  this URL, its host and the user agent.\<close>

definition signed_by :: "page_env \<Rightarrow> gurl \<Rightarrow> string \<Rightarrow> string \<Rightarrow> string \<Rightarrow> bool" where
  "signed_by env url user_agent key header \<longleftrightarrow>
     (\<exists>public_key signature. header = public_key @ ''_'' @ signature \<and> CHR ''_'' \<notin> set public_key \<and> signature \<noteq> [] \<and>
        key = strip_public_key public_key \<and>
        IsSitekeySignatureValid env public_key signature (sitekey_data env url user_agent))"

lemma split_at_underscore:
  assumes "find_substring ''_'' s = Some n" "n < length s - 1"
  shows "s = take n s @ ''_'' @ drop (n + 1) s \<and> CHR ''_'' \<notin> set (take n s) \<and> drop (n + 1) s \<noteq> []"
proof -
  have n: "n = length (takeWhile (\<lambda>c. c \<noteq> CHR ''_'') s)"
    using assms(1) by (simp add: find_substring_char split: if_splits)
  have t: "take n s = takeWhile (\<lambda>c. c \<noteq> CHR ''_'') s" unfolding n by (rule takeWhile_eq_take [symmetric])
  have len: "n < length s" using assms(2) by simp
  have "s ! n = CHR ''_''" using nth_length_takeWhile [of "\<lambda>c. c \<noteq> CHR ''_''" s] len n by simp
  then have "s = take n s @ ''_'' @ drop (n + 1) s" using id_take_nth_drop [OF len] by simp
  moreover have "CHR ''_'' \<notin> set (take n s)" unfolding t using set_takeWhileD by fastforce
  moreover have "drop (n + 1) s \<noteq> []" using assms(2) by simp
  ultimately show ?thesis by blast
qed

lemma ProcessResponseHeaders_cases:
  obtains (same) "ProcessResponseHeaders env request_url header_lines user_agent m = m"
  | (stored) key where "ProcessResponseHeaders env request_url header_lines user_agent m =
        AList.update (pg_GetAsReferrer env request_url) key m"
      "signed_by env (pg_GetAsReferrer env request_url) user_agent key (GetSitekeyHeader header_lines)"
      "is_valid request_url" "user_agent \<noteq> []"
proof (cases "ProcessResponseHeaders env request_url header_lines user_agent m = m")
  case False
  let ?h = "GetSitekeyHeader header_lines" and ?u = "pg_GetAsReferrer env request_url"
  have ua: "user_agent \<noteq> []" "?h \<noteq> []" using False by (auto simp: ProcessResponseHeaders_def split: if_splits)
  then have p: "ProcessSiteKey env request_url ?h user_agent m \<noteq> m" using False by (simp add: ProcessResponseHeaders_def)
  then obtain n where n: "find_substring ''_'' ?h = Some n"
    by (cases "find_substring ''_'' ?h") (auto simp: ProcessSiteKey_def Let_def split: if_splits)
  have lt: "n < length ?h - 1" using p n by (auto simp: ProcessSiteKey_def Let_def split: if_splits)
  have valid: "IsSitekeySignatureValid env (take n ?h) (drop (n + 1) ?h) (sitekey_data env ?u user_agent)" "is_valid request_url"
    and res: "ProcessSiteKey env request_url ?h user_agent m = AList.update ?u (strip_public_key (take n ?h)) m"
    using p n by (auto simp: ProcessSiteKey_def Let_def split: if_splits)
  have "signed_by env ?u user_agent (strip_public_key (take n ?h)) ?h"
    unfolding signed_by_def using split_at_underscore [OF n lt] valid(1) by blast
  then show ?thesis using stored res valid(2) ua by (simp add: ProcessResponseHeaders_def)
qed (rule same)

section \<open>Every stored key was signed\<close>

record sitekey_response =
  sr_url :: gurl
  sr_headers :: "(string \<times> string) list"
  sr_user_agent :: string

definition process_responses :: "page_env \<Rightarrow> sitekey_response list \<Rightarrow> sitekey_map" where
  "process_responses env rs =
     fold (\<lambda>r. ProcessResponseHeaders env (sr_url r) (sr_headers r) (sr_user_agent r)) rs []"

lemma stored_keys_signed:
  assumes "map_of (fold (\<lambda>r. ProcessResponseHeaders env (sr_url r) (sr_headers r) (sr_user_agent r)) rs m) u = Some k"
  shows "map_of m u = Some k \<or> (\<exists>r\<in>set rs. u = pg_GetAsReferrer env (sr_url r) \<and> is_valid (sr_url r) \<and>
     signed_by env u (sr_user_agent r) k (GetSitekeyHeader (sr_headers r)))"
  using assms
proof (induction rs arbitrary: m)
  case (Cons r rs)
  let ?m = "ProcessResponseHeaders env (sr_url r) (sr_headers r) (sr_user_agent r) m"
  have "map_of ?m u = Some k \<or> (\<exists>r\<in>set rs. u = pg_GetAsReferrer env (sr_url r) \<and> is_valid (sr_url r) \<and>
     signed_by env u (sr_user_agent r) k (GetSitekeyHeader (sr_headers r)))"
    using Cons.IH [of ?m] Cons.prems by simp
  then show ?case
  proof
    assume h: "map_of ?m u = Some k"
    show ?thesis
      by (cases rule: ProcessResponseHeaders_cases [of env "sr_url r" "sr_headers r" "sr_user_agent r" m])
        (use h in \<open>auto simp: update_conv split: if_splits\<close>)
  qed auto
qed simp

end
