(* ===== verification/Classification_Runner.thy ===== *)
theory Classification_Runner
  imports Page_Context
begin

text \<open>
  \<open>content/browser/resource_classification_runner_impl.cc\<close> and \<open>session_stats_impl.cc\<close>: the classifier
  is run on a thread pool, over a snapshot of the subscriptions that is taken when a check is asked for. A
  check that was posted is a task; tasks end in any order. A callback is a value of type \<open>'k\<close>, an observer a
  number; running and notifying them are effects that the operations return. Checks of the sequence and of
  the scheme (\<open>DCHECK\<close>) are left out.
\<close>

section \<open>Results, effects and tasks\<close>

datatype FilterMatchResult = kNoRule | kBlockRule | kAllowRule | kDisabled

record CheckResourceFilterMatchResult =
  cr_status :: FilterMatchResult
  cr_subscription :: gurl

datatype 'k runner_effect =
    Run_callback 'k FilterMatchResult
  | Run_rewrite_callback 'k "gurl option"
  | AdMatched nat gurl FilterMatchResult "gurl list" ContentType nat gurl
  | PageAllowed nat gurl nat gurl
  | PopupMatched nat gurl FilterMatchResult gurl nat gurl

datatype 'k runner_task =
    Request_task 'k Snapshot gurl "gurl list" ContentType string nat
  | Response_task 'k Snapshot gurl "gurl list" ContentType response_headers nat
  | Document_task Snapshot gurl nat
  | Rewrite_task 'k Snapshot gurl "gurl list"

record 'k runner =
  rn_observers :: "nat list"
  rn_tasks :: "'k runner_task list"

definition rn_AddObserver :: "nat \<Rightarrow> 'k runner \<Rightarrow> 'k runner" where
  "rn_AddObserver observer r =
     (if observer \<in> set (rn_observers r) then r else r\<lparr>rn_observers := rn_observers r @ [observer]\<rparr>)"

definition rn_RemoveObserver :: "nat \<Rightarrow> 'k runner \<Rightarrow> 'k runner" where
  "rn_RemoveObserver observer r = r\<lparr>rn_observers := removeAll observer (rn_observers r)\<rparr>"

definition post_task :: "'k runner_task \<Rightarrow> 'k runner \<Rightarrow> 'k runner" where
  "post_task t r = r\<lparr>rn_tasks := rn_tasks r @ [t]\<rparr>"

section \<open>Helpers\<close>

fun HasRewriteHelper :: "net_env \<Rightarrow> Snapshot \<Rightarrow> gurl \<Rightarrow> gurl list \<Rightarrow> gurl option" where
  "HasRewriteHelper net [] request_url frame_hierarchy = None"
| "HasRewriteHelper net (collection # rest) request_url frame_hierarchy =
     (case GetRewriteUrl net collection request_url frame_hierarchy of
        Some rewrite_url \<Rightarrow> Some rewrite_url
      | None \<Rightarrow> HasRewriteHelper net rest request_url frame_hierarchy)"

text \<open>The page has to be allowlisted in every configuration; the last subscription found is returned.\<close>

fun document_allowlisted_loop :: "net_env \<Rightarrow> Snapshot \<Rightarrow> gurl \<Rightarrow> gurl option \<Rightarrow> gurl option" where
  "document_allowlisted_loop net [] request_url found = found"
| "document_allowlisted_loop net (collection # rest) request_url found =
     (case FindBySpecialFilter net collection SF_Document request_url [] [] of
        None \<Rightarrow> None
      | Some subscription \<Rightarrow> document_allowlisted_loop net rest request_url (Some subscription))"

definition CheckDocumentAllowlistedHelper :: "net_env \<Rightarrow> Snapshot \<Rightarrow> gurl \<Rightarrow> gurl option" where
  "CheckDocumentAllowlistedHelper net subscription_collections request_url =
     document_allowlisted_loop net subscription_collections request_url None"

section \<open>On the thread pool\<close>

definition match_result :: "ClassificationResult \<Rightarrow> CheckResourceFilterMatchResult" where
  "match_result classification_result =
     (if decision classification_result = Allowed then
        \<lparr>cr_status = kAllowRule, cr_subscription = decisive_subscription classification_result\<rparr>
      else if decision classification_result = Blocked then
        \<lparr>cr_status = kBlockRule, cr_subscription = decisive_subscription classification_result\<rparr>
      else \<lparr>cr_status = kNoRule, cr_subscription = empty_gurl\<rparr>)"

definition CheckRequestFilterMatchInternal :: "net_env \<Rightarrow> Snapshot \<Rightarrow> gurl \<Rightarrow> gurl list \<Rightarrow> ContentType \<Rightarrow> string \<Rightarrow>
    CheckResourceFilterMatchResult" where
  "CheckRequestFilterMatchInternal net subscription_collections request_url frame_hierarchy adblock_resource_type sitekey =
     match_result (ClassifyRequest net subscription_collections request_url frame_hierarchy adblock_resource_type sitekey)"

definition CheckResponseFilterMatchInternal :: "net_env \<Rightarrow> Snapshot \<Rightarrow> gurl \<Rightarrow> gurl list \<Rightarrow> ContentType \<Rightarrow>
    response_headers \<Rightarrow> CheckResourceFilterMatchResult option" where
  "CheckResponseFilterMatchInternal net subscription_collections response_url frame_hierarchy adblock_resource_type resp =
     map_option match_result
       (ClassifyResponse net subscription_collections response_url frame_hierarchy adblock_resource_type resp)"

section \<open>Replies\<close>

definition NotifyAdMatched :: "'k runner \<Rightarrow> gurl \<Rightarrow> FilterMatchResult \<Rightarrow> gurl list \<Rightarrow> ContentType \<Rightarrow> nat \<Rightarrow> gurl \<Rightarrow>
    'k runner_effect list" where
  "NotifyAdMatched r url match parent_frame_urls content_type render_frame_host subscription =
     map (\<lambda>observer. AdMatched observer url match parent_frame_urls content_type render_frame_host subscription)
       (rn_observers r)"

definition OnCheckResourceFilterMatchComplete :: "frame_hosts \<Rightarrow> 'k runner \<Rightarrow> gurl \<Rightarrow> gurl list \<Rightarrow> ContentType \<Rightarrow> nat \<Rightarrow>
    'k \<Rightarrow> CheckResourceFilterMatchResult \<Rightarrow> 'k runner_effect list" where
  "OnCheckResourceFilterMatchComplete frames r request_url frame_hierarchy adblock_resource_type render_frame_host_id
       callback res =
     Run_callback callback (cr_status res) #
     (if FindRenderFrameHost frames render_frame_host_id \<noteq> None \<and>
         (cr_status res = kAllowRule \<or> cr_status res = kBlockRule)
      then NotifyAdMatched r request_url (cr_status res) frame_hierarchy adblock_resource_type render_frame_host_id
             (cr_subscription res)
      else [])"

definition ProcessDocumentAllowlistedResponse :: "frame_hosts \<Rightarrow> 'k runner \<Rightarrow> gurl \<Rightarrow> nat \<Rightarrow> gurl option \<Rightarrow>
    'k runner_effect list" where
  "ProcessDocumentAllowlistedResponse frames r request_url render_frame_host_id allowing_subscription =
     (case allowing_subscription of
        None \<Rightarrow> []
      | Some subscription \<Rightarrow>
          (if FindRenderFrameHost frames render_frame_host_id \<noteq> None
           then map (\<lambda>observer. PageAllowed observer request_url render_frame_host_id subscription) (rn_observers r)
           else []))"

text \<open>A task ends. \<open>None\<close> is the undefined behaviour of a header filter without a name.\<close>

fun end_task :: "net_env \<Rightarrow> frame_hosts \<Rightarrow> 'k runner \<Rightarrow> 'k runner_task \<Rightarrow> 'k runner_effect list option" where
  "end_task net frames r (Request_task k snapshot url hierarchy ctype sitekey frame) =
     Some (OnCheckResourceFilterMatchComplete frames r url hierarchy ctype frame k
       (CheckRequestFilterMatchInternal net snapshot url hierarchy ctype sitekey))"
| "end_task net frames r (Response_task k snapshot url hierarchy ctype resp frame) =
     map_option (OnCheckResourceFilterMatchComplete frames r url hierarchy ctype frame k)
       (CheckResponseFilterMatchInternal net snapshot url hierarchy ctype resp)"
| "end_task net frames r (Document_task snapshot url frame) =
     Some (ProcessDocumentAllowlistedResponse frames r url frame (CheckDocumentAllowlistedHelper net snapshot url))"
| "end_task net frames r (Rewrite_task k snapshot url hierarchy) =
     Some [Run_rewrite_callback k (HasRewriteHelper net snapshot url hierarchy)]"

section \<open>Asking for a check\<close>

type_synonym 'k runner_result = "'k runner \<times> 'k runner_effect list"

definition CheckRequestFilterMatchImpl :: "page_env \<Rightarrow> frame_hosts \<Rightarrow> sitekey_map \<Rightarrow> Snapshot \<Rightarrow> gurl \<Rightarrow> ContentType \<Rightarrow>
    nat \<Rightarrow> 'k \<Rightarrow> 'k runner \<Rightarrow> 'k runner_result" where
  "CheckRequestFilterMatchImpl page frames site_keys subscription_collections request_url adblock_resource_type
       frame_host_id callback r =
     (case FindRenderFrameHost frames frame_host_id of
        None \<Rightarrow> (r, [Run_callback callback kNoRule])
      | Some frame \<Rightarrow>
          (let frame_hierarchy_chain = BuildFrameHierarchy page frame;
               site_key = (case FindSiteKeyForAnyUrl frame_hierarchy_chain site_keys of
                             Some (_, key) \<Rightarrow> key | None \<Rightarrow> [])
           in (post_task (Request_task callback subscription_collections request_url frame_hierarchy_chain
                 adblock_resource_type site_key frame_host_id) r, [])))"

definition CheckRequestFilterMatch :: "page_env \<Rightarrow> frame_hosts \<Rightarrow> sitekey_map \<Rightarrow> Snapshot \<Rightarrow> gurl \<Rightarrow> ContentType \<Rightarrow>
    nat \<Rightarrow> 'k \<Rightarrow> 'k runner \<Rightarrow> 'k runner_result" where
  "CheckRequestFilterMatch page frames site_keys subscription_collections request_url adblock_resource_type
       render_frame_host_id callback r =
     (case FindRenderFrameHost frames render_frame_host_id of
        None \<Rightarrow> (r, [Run_callback callback kNoRule])
      | Some _ \<Rightarrow> CheckRequestFilterMatchImpl page frames site_keys subscription_collections request_url
                   adblock_resource_type render_frame_host_id callback r)"

definition CheckRequestFilterMatchForWebSocket :: "page_env \<Rightarrow> frame_hosts \<Rightarrow> sitekey_map \<Rightarrow> Snapshot \<Rightarrow> gurl \<Rightarrow>
    nat \<Rightarrow> 'k \<Rightarrow> 'k runner \<Rightarrow> 'k runner_result" where
  "CheckRequestFilterMatchForWebSocket page frames site_keys subscription_collections request_url
       render_frame_host_id callback r =
     CheckRequestFilterMatchImpl page frames site_keys subscription_collections request_url CT_Websocket
       render_frame_host_id callback r"

definition CheckDocumentAllowlisted :: "Snapshot \<Rightarrow> gurl \<Rightarrow> nat \<Rightarrow> 'k runner \<Rightarrow> 'k runner" where
  "CheckDocumentAllowlisted subscription_collections request_url render_frame_host_id =
     post_task (Document_task subscription_collections request_url render_frame_host_id)"

definition CheckResponseFilterMatch :: "page_env \<Rightarrow> frame_hosts \<Rightarrow> Snapshot \<Rightarrow> gurl \<Rightarrow> ContentType \<Rightarrow> nat \<Rightarrow>
    response_headers \<Rightarrow> 'k \<Rightarrow> 'k runner \<Rightarrow> 'k runner_result" where
  "CheckResponseFilterMatch page frames subscription_collections response_url adblock_resource_type
       render_frame_host_id resp callback r =
     (case FindRenderFrameHost frames render_frame_host_id of
        None \<Rightarrow> (r, [Run_callback callback kNoRule])
      | Some frame \<Rightarrow>
          (post_task (Response_task callback subscription_collections response_url (BuildFrameHierarchy page frame)
             adblock_resource_type resp render_frame_host_id) r, []))"

definition CheckRewriteFilterMatch :: "page_env \<Rightarrow> frame_hosts \<Rightarrow> Snapshot \<Rightarrow> gurl \<Rightarrow> nat \<Rightarrow> 'k \<Rightarrow> 'k runner \<Rightarrow>
    'k runner_result" where
  "CheckRewriteFilterMatch page frames subscription_collections request_url render_frame_host_id callback r =
     (case FindRenderFrameHost frames render_frame_host_id of
        None \<Rightarrow> (r, [Run_rewrite_callback callback None])
      | Some frame \<Rightarrow>
          (post_task (Rewrite_task callback subscription_collections request_url (BuildFrameHierarchy page frame)) r, []))"

text \<open>A popup is judged at once.\<close>

definition ShouldBlockPopup :: "net_env \<Rightarrow> page_env \<Rightarrow> sitekey_map \<Rightarrow> Snapshot \<Rightarrow> gurl \<Rightarrow> nat \<Rightarrow> frame_urls \<Rightarrow>
    'k runner \<Rightarrow> FilterMatchResult \<times> 'k runner_effect list" where
  "ShouldBlockPopup net page site_keys subscription_collections popup_url frame_host_id frame_host r =
     (let frame_hierarchy = BuildFrameHierarchy page frame_host;
          sitekey = FindSiteKeyForAnyUrl frame_hierarchy site_keys;
          classification_result = ClassifyPopup net subscription_collections popup_url frame_hierarchy
            (case sitekey of Some (_, key) \<Rightarrow> key | None \<Rightarrow> [])
      in if decision classification_result = Ignored then (kNoRule, [])
         else
           (let res = (if decision classification_result = Allowed then kAllowRule else kBlockRule);
                opener_url = (if frame_hierarchy = [] then empty_gurl else hd frame_hierarchy)
            in (res, map (\<lambda>observer. PopupMatched observer popup_url res opener_url frame_host_id
                       (decisive_subscription classification_result)) (rn_observers r))))"

section \<open>Session statistics\<close>

text \<open>\<open>content/browser/session_stats_impl.cc\<close>; the counters are \<open>long\<close>, here numbers.\<close>

record SessionStats =
  allowed_map :: "(gurl \<times> nat) list"
  blocked_map :: "(gurl \<times> nat) list"

definition new_SessionStats :: SessionStats where
  "new_SessionStats = \<lparr>allowed_map = [], blocked_map = []\<rparr>"

definition count_of :: "(gurl \<times> nat) list \<Rightarrow> gurl \<Rightarrow> nat" where
  "count_of m u = (case map_of m u of Some n \<Rightarrow> n | None \<Rightarrow> 0)"

definition OnMatchedInternal :: "FilterMatchResult \<Rightarrow> gurl \<Rightarrow> SessionStats \<Rightarrow> SessionStats" where
  "OnMatchedInternal match subscription s =
     (if match = kBlockRule
      then s\<lparr>blocked_map := AList.update subscription (Suc (count_of (blocked_map s) subscription)) (blocked_map s)\<rparr>
      else s\<lparr>allowed_map := AList.update subscription (Suc (count_of (allowed_map s) subscription)) (allowed_map s)\<rparr>)"

text \<open>The statistics are one of the observers, and ignore what is sent to others.\<close>

fun stats_notified :: "nat \<Rightarrow> 'k runner_effect \<Rightarrow> SessionStats \<Rightarrow> SessionStats" where
  "stats_notified me (AdMatched observer url match hierarchy ctype frame subscription) s =
     (if observer = me then OnMatchedInternal match subscription s else s)"
| "stats_notified me (PageAllowed observer url frame subscription) s =
     (if observer = me then OnMatchedInternal kAllowRule subscription s else s)"
| "stats_notified me (PopupMatched observer url match opener frame subscription) s =
     (if observer = me then OnMatchedInternal match subscription s else s)"
| "stats_notified me (Run_callback k res) s = s"
| "stats_notified me (Run_rewrite_callback k url) s = s"

end
