(* ===== verification/Page_Injection.thy ===== *)
theory Page_Injection
  imports Classification_Runner
begin

text \<open>
  What is put into a page: \<open>content/browser/element_hider_impl.cc\<close>, \<open>adblock_webcontents_observer.cc\<close> and
  \<open>content_security_policy_injector_impl.cc\<close>. The scripts that come with the browser, escaping and printing
  JSON and what is asked of a URL are the fields of \<open>hide_env\<close>.
\<close>

record hide_env =
  he_EscapeJSONString :: "string \<Rightarrow> bool \<Rightarrow> string"
  he_SerializeSnippets :: "string list list \<Rightarrow> string"
  he_ELEMHIDE_JS :: string
  he_ELEMHIDE_FOR_SELECTOR_JS :: string
  he_ELEMHIDE_EMU_JS :: string
  he_SNIPPETS_JS :: string
  he_ExtractFileName :: "gurl \<Rightarrow> string"

section \<open>Strings\<close>

text \<open>\<open>base::ReplaceSubstringsAfterOffset\<close> from the start: all matches, from the left, what is put in is not
  searched.\<close>

function replace_all :: "string \<Rightarrow> string \<Rightarrow> string \<Rightarrow> string" where
  "replace_all find_this replace_with [] = []"
| "replace_all find_this replace_with (c # cs) =
     (if find_this \<noteq> [] \<and> take (length find_this) (c # cs) = find_this
      then replace_with @ replace_all find_this replace_with (drop (length find_this - 1) cs)
      else c # replace_all find_this replace_with cs)"
  by pat_completeness auto
termination by (relation "measure (\<lambda>(f, r, s). length s)") auto

fun JoinString :: "string list \<Rightarrow> string \<Rightarrow> string" where
  "JoinString [] separator = []"
| "JoinString [part] separator = part"
| "JoinString (part # parts) separator = part @ separator @ JoinString parts separator"

section \<open>What is injected for element hiding\<close>

definition GenerateBlockedElemhideJavaScript :: "hide_env \<Rightarrow> string \<Rightarrow> string \<Rightarrow> string" where
  "GenerateBlockedElemhideJavaScript env url filename_with_query =
     (let query_jst = he_ELEMHIDE_FOR_SELECTOR_JS env;
          build_string = he_EscapeJSONString env filename_with_query False;
          query_jst = replace_all ''{{url}}'' url query_jst;
          query_jst = replace_all ''{{filename_with_query}}'' build_string query_jst
      in he_ELEMHIDE_JS env @ [CHR 0x0A] @ query_jst)"

definition max_selector_count :: nat where
  "max_selector_count = 1024"

definition stylesheet_rule :: "string list \<Rightarrow> string" where
  "stylesheet_rule selectors_batch = JoinString selectors_batch '', '' @ '' {display: none !important;}'' @ [CHR 0x0A]"

function GenerateStylesheet_loop :: "string list \<Rightarrow> nat \<Rightarrow> string \<Rightarrow> string" where
  "GenerateStylesheet_loop input i output =
     (if i < length input then
        (let batch_size = min max_selector_count (length input - i);
             selectors_batch = take batch_size (drop i input)
         in GenerateStylesheet_loop input (i + max_selector_count) (output @ stylesheet_rule selectors_batch))
      else output)"
  by pat_completeness auto
termination by (relation "measure (\<lambda>(input, i, output). length input - i)") (auto simp: max_selector_count_def)

declare GenerateStylesheet_loop.simps [simp del]

definition GenerateStylesheet :: "string list \<Rightarrow> string" where
  "GenerateStylesheet input = GenerateStylesheet_loop input 0 []"

definition GenerateElemHidingEmuJavaScript :: "hide_env \<Rightarrow> gurl \<Rightarrow> string list \<Rightarrow> string" where
  "GenerateElemHidingEmuJavaScript env url input =
     (let build_string = concat (map (\<lambda>selector.
            ''{selector:'' @ he_EscapeJSONString env selector True @ '', text:'' @
            he_EscapeJSONString env (host url) True @ ''}, '' @ [CHR 0x0A]) input)
      in replace_all ''{{elemHidingEmulatedPatternsDef}}'' build_string (he_ELEMHIDE_EMU_JS env))"

definition GenerateSnippetScript :: "hide_env \<Rightarrow> string list list \<Rightarrow> string" where
  "GenerateSnippetScript env input =
     (let serialized = he_SerializeSnippets env input;
          output = ''({{callback}})({}, ...{{snippets}});'';
          output = replace_all ''{{callback}}'' (he_SNIPPETS_JS env) output
      in replace_all ''{{snippets}}'' serialized output)"

record ElemhideInjectionData =
  ed_stylesheet :: string
  ed_elemhide_js :: string
  ed_snippet_js :: string

text \<open>The selectors, emulation selectors and snippets of one collection, after its allowlisting.\<close>

definition collection_injections :: "net_env \<Rightarrow> gurl \<Rightarrow> gurl list \<Rightarrow> string \<Rightarrow> SubscriptionCollection \<Rightarrow>
    string list \<times> string list \<times> string list list" where
  "collection_injections net url frame_hierarchy sitekey collection =
     (let doc_allowlisted = FindBySpecialFilter net collection SF_Document url frame_hierarchy sitekey \<noteq> None;
          ehe_allowlisted = doc_allowlisted \<or>
            FindBySpecialFilter net collection SF_Elemhide url frame_hierarchy sitekey \<noteq> None
      in (if \<not> ehe_allowlisted then GetElementHideSelectors net collection url frame_hierarchy sitekey else [],
          if \<not> ehe_allowlisted then GetElementHideEmulationSelectors collection url else [],
          if \<not> doc_allowlisted then GenerateSnippets collection url frame_hierarchy else []))"

definition PrepareElemhideEmulationData :: "net_env \<Rightarrow> hide_env \<Rightarrow> Snapshot \<Rightarrow> gurl \<Rightarrow> gurl list \<Rightarrow> string \<Rightarrow>
    ElemhideInjectionData" where
  "PrepareElemhideEmulationData net env subscription_collections url frame_hierarchy sitekey =
     (let injections = map (collection_injections net url frame_hierarchy sitekey) subscription_collections;
          stylesheet = concat (map fst injections);
          elemhide_js = concat (map (fst \<circ> snd) injections);
          snippet_js = concat (map (snd \<circ> snd) injections)
      in \<lparr>ed_stylesheet = (if stylesheet \<noteq> [] then GenerateStylesheet stylesheet else []),
          ed_elemhide_js = (if elemhide_js \<noteq> [] then GenerateElemHidingEmuJavaScript env url elemhide_js else []),
          ed_snippet_js = (if snippet_js \<noteq> [] then GenerateSnippetScript env snippet_js else [])\<rparr>)"

section \<open>Doing it\<close>

datatype page_effect =
    InsertAbpElemhideStylesheet nat string
  | ExecuteJavaScriptInIsolatedWorld nat string

definition InsertUserCSSAndApplyElemHidingEmuJS :: "frame_hosts \<Rightarrow> nat \<Rightarrow> ElemhideInjectionData \<Rightarrow> page_effect list" where
  "InsertUserCSSAndApplyElemHidingEmuJS frames frame_host_id input =
     (case FindRenderFrameHost frames frame_host_id of
        None \<Rightarrow> []
      | Some _ \<Rightarrow>
          (if ed_stylesheet input \<noteq> [] then [InsertAbpElemhideStylesheet frame_host_id (ed_stylesheet input)] else []) @
          (if ed_elemhide_js input \<noteq> [] then [ExecuteJavaScriptInIsolatedWorld frame_host_id (ed_elemhide_js input)] else []) @
          (if ed_snippet_js input \<noteq> [] then [ExecuteJavaScriptInIsolatedWorld frame_host_id (ed_snippet_js input)] else []))"

definition IsElementTypeHideable :: "ContentType \<Rightarrow> bool" where
  "IsElementTypeHideable adblock_resource_type =
     (adblock_resource_type = CT_Image \<or> adblock_resource_type = CT_Object \<or> adblock_resource_type = CT_Media)"

definition HideBlockedElement :: "page_env \<Rightarrow> hide_env \<Rightarrow> gurl \<Rightarrow> nat \<Rightarrow> page_effect list" where
  "HideBlockedElement page env url render_frame_host =
     (let filename_with_query = he_ExtractFileName env url @
            (case pg_query page url of Some q \<Rightarrow> ''?'' @ q | None \<Rightarrow> [])
      in [ExecuteJavaScriptInIsolatedWorld render_frame_host
            (GenerateBlockedElemhideJavaScript env (spec url) filename_with_query)])"

text \<open>The data are prepared on the thread pool, from the snapshot that is current when the page is loaded, and
  injected when they are there.\<close>

record hiding_task =
  ht_snapshot :: Snapshot
  ht_url :: gurl
  ht_hierarchy :: "gurl list"
  ht_frame :: nat
  ht_sitekey :: string

definition ApplyElementHidingEmulationOnPage :: "Snapshot \<Rightarrow> gurl \<Rightarrow> gurl list \<Rightarrow> nat \<Rightarrow> string \<Rightarrow> hiding_task" where
  "ApplyElementHidingEmulationOnPage snapshot url frame_hierarchy frame sitekey =
     \<lparr>ht_snapshot = snapshot, ht_url = url, ht_hierarchy = frame_hierarchy, ht_frame = frame, ht_sitekey = sitekey\<rparr>"

definition hiding_done :: "net_env \<Rightarrow> hide_env \<Rightarrow> frame_hosts \<Rightarrow> hiding_task \<Rightarrow> page_effect list" where
  "hiding_done net env frames t =
     InsertUserCSSAndApplyElemHidingEmuJS frames (ht_frame t)
       (PrepareElemhideEmulationData net env (ht_snapshot t) (ht_url t) (ht_hierarchy t) (ht_sitekey t))"

section \<open>When a navigation is finished\<close>

record navigation =
  nv_url :: gurl
  nv_committed :: bool
  nv_frame :: "nat option"
  nv_parent :: nat
  nv_error_page :: bool
  nv_blocked_by_administrator :: bool
  nv_owner_is_iframe :: bool

definition SchemeIsHTTPOrHTTPS :: "gurl \<Rightarrow> bool" where
  "SchemeIsHTTPOrHTTPS url \<longleftrightarrow> scheme url = ''http'' \<or> scheme url = ''https''"

definition HandleOnLoad :: "page_env \<Rightarrow> (gurl \<Rightarrow> bool) \<Rightarrow> frame_hosts \<Rightarrow> sitekey_map \<Rightarrow> Snapshot \<Rightarrow> gurl \<Rightarrow> nat \<Rightarrow>
    hiding_task list" where
  "HandleOnLoad page IsLocalhost frames site_keys snapshot page_url frame_host =
     (case FindRenderFrameHost frames frame_host of
        None \<Rightarrow> []
      | Some frame \<Rightarrow>
          (let url = FindUrlForFrame page frame page_url
           in if IsLocalhost url then []
              else
                (let referrers_chain = BuildFrameHierarchy page frame;
                     site_key = (case FindSiteKeyForAnyUrl referrers_chain site_keys of
                                   Some (_, key) \<Rightarrow> key | None \<Rightarrow> [])
                 in [ApplyElementHidingEmulationOnPage snapshot url referrers_chain frame_host site_key])))"

definition DidFinishNavigation :: "page_env \<Rightarrow> hide_env \<Rightarrow> (gurl \<Rightarrow> bool) \<Rightarrow> frame_hosts \<Rightarrow> sitekey_map \<Rightarrow> Snapshot \<Rightarrow>
    bool list \<Rightarrow> gurl \<Rightarrow> navigation \<Rightarrow> hiding_task list \<times> page_effect list" where
  "DidFinishNavigation page env IsLocalhost frames site_keys snapshot configurations_enabled page_url nav =
     (if \<not> list_ex id configurations_enabled then ([], [])
      else if \<not> nv_committed nav then ([], [])
      else
        (case nv_frame nav of
           None \<Rightarrow> ([], [])
         | Some frame \<Rightarrow>
             (if \<not> nv_error_page nav then HandleOnLoad page IsLocalhost frames site_keys snapshot page_url frame else [],
              if (nv_error_page nav \<or> pg_IsAboutBlank page (nv_url nav) \<or> \<not> SchemeIsHTTPOrHTTPS (nv_url nav)) \<and>
                 nv_blocked_by_administrator nav \<and> nv_owner_is_iframe nav
              then HideBlockedElement page env (nv_url nav) (nv_parent nav) else [])))"

section \<open>Content security policies\<close>

definition snapshot_csp_injections :: "net_env \<Rightarrow> Snapshot \<Rightarrow> gurl \<Rightarrow> gurl list \<Rightarrow> string set" where
  "snapshot_csp_injections net subscription_collections request_url frame_hierarchy_chain =
     (\<Union>collection\<in>set subscription_collections. GetCspInjections net collection request_url frame_hierarchy_chain)"

text \<open>The headers are added in the order of the set. Parsing them is left to the network service.\<close>

definition add_csp_headers :: "string set \<Rightarrow> (string \<times> string) list \<Rightarrow> (string \<times> string) list" where
  "add_csp_headers csp_injections header_lines =
     header_lines @ map (\<lambda>c_i. (''Content-Security-Policy'', c_i)) (sorted_list_of_set csp_injections)"

end
