(* ===== verification/Url_Loader.thy ===== *)
theory Url_Loader
  imports Page_Injection "HOL-Library.Monad_Syntax"
begin

text \<open>
  \<open>content/browser/adblock_url_loader_factory.cc\<close>: the proxy between the requests of one frame and the network,
  with the runner, the element hider, the site keys and the injector of content security policies it calls. A
  request is a number; a callback bound to a weak pointer of it is dropped when the request is gone. Replies
  come back to the UI thread through its queue of tasks. What is sent to the network and to the client of a
  request is an effect.
\<close>

section \<open>Requests\<close>

datatype RequestDestination =
    kEmpty | kAudio | kAudioWorklet | kDocument | kEmbed | kFont | kFrame | kIframe | kImage | kManifest | kObject
  | kPaintWorklet | kReport | kScript | kServiceWorker | kSharedWorker | kStyle | kTrack | kVideo | kWebBundle
  | kWorker | kXslt | kFencedframe | kWebIdentity

record ResourceRequest =
  rr_url :: gurl
  rr_is_fetch_like_api :: bool
  rr_destination :: RequestDestination
  rr_keepalive :: bool

definition SchemeIsWSOrWSS :: "gurl \<Rightarrow> bool" where
  "SchemeIsWSOrWSS url \<longleftrightarrow> scheme url = ''ws'' \<or> scheme url = ''wss''"

definition IsDocumentRequest :: "ResourceRequest \<Rightarrow> bool" where
  "IsDocumentRequest request =
     (\<not> SchemeIsWSOrWSS (rr_url request) \<and> \<not> rr_is_fetch_like_api request \<and> rr_destination request = kDocument)"

definition ToAdblockResourceType :: "ResourceRequest \<Rightarrow> ContentType" where
  "ToAdblockResourceType request =
     (if SchemeIsWSOrWSS (rr_url request) then CT_Websocket
      else if rr_is_fetch_like_api request then CT_Xmlhttprequest
      else
        (case rr_destination request of
           kDocument \<Rightarrow> CT_Subdocument | kIframe \<Rightarrow> CT_Subdocument | kFrame \<Rightarrow> CT_Subdocument | kFencedframe \<Rightarrow> CT_Subdocument
         | kStyle \<Rightarrow> CT_Stylesheet | kXslt \<Rightarrow> CT_Stylesheet
         | kScript \<Rightarrow> CT_Script | kWorker \<Rightarrow> CT_Script | kSharedWorker \<Rightarrow> CT_Script | kServiceWorker \<Rightarrow> CT_Script
         | kImage \<Rightarrow> CT_Image
         | kFont \<Rightarrow> CT_Font
         | kObject \<Rightarrow> CT_Object | kEmbed \<Rightarrow> CT_Object
         | kAudio \<Rightarrow> CT_Media | kTrack \<Rightarrow> CT_Media | kVideo \<Rightarrow> CT_Media
         | kEmpty \<Rightarrow> (if rr_keepalive request then CT_Ping else CT_Other)
         | kWebBundle \<Rightarrow> CT_Other | kReport \<Rightarrow> CT_Other | kAudioWorklet \<Rightarrow> CT_Other | kManifest \<Rightarrow> CT_Other
         | kPaintWorklet \<Rightarrow> CT_Other | kWebIdentity \<Rightarrow> CT_Other))"

text \<open>The network can only speak once the request was sent to it; until then, and after a rewrite, nobody holds the
  other end of the pipe.\<close>

record in_progress_request =
  ip_request_url :: gurl
  ip_is_document_request :: bool
  ip_resource_type :: ContentType
  ip_client_paused :: bool
  ip_loader_bound :: bool
  ip_with_network :: bool

text \<open>What waits for the answer of a check: the request, a redirect or a response of the network.\<close>

datatype continuation =
    Start_cont nat ResourceRequest
  | Request_cont nat ResourceRequest
  | Redirect_cont nat gurl
  | Headers_cont nat "(string \<times> string) list"

fun continuation_request :: "continuation \<Rightarrow> nat" where
  "continuation_request (Start_cont i request) = i"
| "continuation_request (Request_cont i request) = i"
| "continuation_request (Redirect_cont i new_url) = i"
| "continuation_request (Headers_cont i head) = i"

datatype ui_task =
    Ui_rewrite continuation "gurl option"
  | Ui_match continuation FilterMatchResult
  | Ui_headers continuation FilterMatchResult "(string \<times> string) list option"

record csp_task =
  ct_continuation :: continuation
  ct_result :: FilterMatchResult
  ct_snapshot :: Snapshot
  ct_url :: gurl
  ct_hierarchy :: "gurl list"

text \<open>What a client asks of the loader it is given, and the network of the client, besides redirects and responses.\<close>

datatype loader_call = Call_FollowRedirect | Call_SetPriority | Call_PauseReadingBodyFromNet | Call_ResumeReadingBodyFromNet

datatype client_call = Call_OnReceiveEarlyHints | Call_OnUploadProgress | Call_OnTransferSizeUpdated | Call_OnComplete

text \<open>\<open>Forward_request\<close> goes to the network, the next three to the client of a request.\<close>

datatype loader_effect =
    Forward_request nat ResourceRequest
  | Forward_redirect nat gurl
  | Forward_response nat "(string \<times> string) list"
  | Complete_with_error nat bool
  | To_target_loader nat loader_call
  | To_target_client nat client_call
  | Page_effect page_effect
  | Notify "continuation runner_effect"
  | Factory_disconnected

record loader_env =
  le_net :: net_env
  le_page :: page_env
  le_hide :: hide_env
  le_IsLocalhost :: "gurl \<Rightarrow> bool"
  le_response_headers :: "(string \<times> string) list \<Rightarrow> response_headers"
  le_user_agent :: string

record loader_factory =
  lf_requests :: "(nat \<times> in_progress_request) list"
  lf_next_request :: nat
  lf_host :: nat
  lf_target_bound :: bool
  lf_proxies :: nat
  lf_disconnected :: bool
  lf_ui_tasks :: "ui_task list"
  lf_runner :: "continuation runner"
  lf_csp_tasks :: "csp_task list"
  lf_parse_tasks :: "(continuation \<times> FilterMatchResult) list"
  lf_frames :: frame_hosts
  lf_sitekeys :: sitekey_map
  lf_snapshot :: Snapshot

type_synonym loader_result = "loader_factory \<times> loader_effect list"

definition CheckHostValid :: "loader_factory \<Rightarrow> bool" where
  "CheckHostValid f \<longleftrightarrow> FindRenderFrameHost (lf_frames f) (lf_host f) \<noteq> None"

definition is_alive :: "loader_factory \<Rightarrow> nat \<Rightarrow> bool" where
  "is_alive f i \<longleftrightarrow> map_of (lf_requests f) i \<noteq> None"

definition post_ui :: "ui_task \<Rightarrow> loader_factory \<Rightarrow> loader_factory" where
  "post_ui t f = f\<lparr>lf_ui_tasks := lf_ui_tasks f @ [t]\<rparr>"

section \<open>The factory\<close>

definition MaybeDestroySelf :: "loader_factory \<Rightarrow> loader_result" where
  "MaybeDestroySelf f =
     (if lf_proxies f = 0 \<and> lf_requests f = [] then (f\<lparr>lf_disconnected := True\<rparr>, [Factory_disconnected]) else (f, []))"

definition RemoveRequest :: "nat \<Rightarrow> loader_factory \<Rightarrow> loader_result" where
  "RemoveRequest i f = MaybeDestroySelf (f\<lparr>lf_requests := AList.delete i (lf_requests f)\<rparr>)"

text \<open>The error is \<open>ERR_BLOCKED_BY_ADMINISTRATOR\<close>, or \<open>ERR_ABORTED\<close> when the client is gone.\<close>

definition OnRequestError :: "nat \<Rightarrow> bool \<Rightarrow> loader_factory \<Rightarrow> loader_result" where
  "OnRequestError i blocked f =
     (let (f, es) = RemoveRequest i f in (f, Complete_with_error i blocked # es))"

definition OnTargetFactoryError :: "loader_factory \<Rightarrow> loader_result" where
  "OnTargetFactoryError f = MaybeDestroySelf (f\<lparr>lf_target_bound := False, lf_proxies := 0\<rparr>)"

definition OnProxyBindingError :: "loader_factory \<Rightarrow> loader_result" where
  "OnProxyBindingError f = MaybeDestroySelf (f\<lparr>lf_proxies := lf_proxies f - 1\<rparr>)"

definition Clone :: "loader_factory \<Rightarrow> loader_factory" where
  "Clone f = f\<lparr>lf_proxies := Suc (lf_proxies f)\<rparr>"

section \<open>Answers of the runner\<close>

definition hide_element :: "loader_env \<Rightarrow> nat \<Rightarrow> loader_factory \<Rightarrow> loader_effect list" where
  "hide_element env i f =
     (case map_of (lf_requests f) i of
        None \<Rightarrow> []
      | Some ip \<Rightarrow>
          (if IsElementTypeHideable (ip_resource_type ip)
           then map Page_effect (HideBlockedElement (le_page env) (le_hide env) (ip_request_url ip) (lf_host f)) else []))"

definition OnRequestUrlClassified :: "loader_env \<Rightarrow> continuation \<Rightarrow> FilterMatchResult \<Rightarrow> loader_factory \<Rightarrow> loader_result" where
  "OnRequestUrlClassified env k res f =
     (post_ui (Ui_match k res) f,
      if res = kBlockRule \<and> CheckHostValid f then hide_element env (continuation_request k) f else [])"

definition InsertContentSecurityPolicyHeadersIfApplicable :: "loader_env \<Rightarrow> gurl \<Rightarrow> continuation \<Rightarrow> FilterMatchResult \<Rightarrow>
    loader_factory \<Rightarrow> loader_factory" where
  "InsertContentSecurityPolicyHeadersIfApplicable env request_url k res f =
     (case FindRenderFrameHost (lf_frames f) (lf_host f) of
        Some frame \<Rightarrow>
          f\<lparr>lf_csp_tasks := lf_csp_tasks f @
             [\<lparr>ct_continuation = k, ct_result = res, ct_snapshot = lf_snapshot f, ct_url = request_url,
               ct_hierarchy = BuildFrameHierarchy (le_page env) frame\<rparr>]\<rparr>
      | None \<Rightarrow> post_ui (Ui_headers k res None) f)"

fun continuation_head :: "continuation \<Rightarrow> (string \<times> string) list" where
  "continuation_head (Headers_cont i head) = head"
| "continuation_head k = []"

definition OnResponseHeadersClassified :: "loader_env \<Rightarrow> continuation \<Rightarrow> FilterMatchResult \<Rightarrow> loader_factory \<Rightarrow> loader_result" where
  "OnResponseHeadersClassified env k res f =
     (if \<not> CheckHostValid f \<or> res = kDisabled then (post_ui (Ui_headers k res None) f, [])
      else if res = kBlockRule then
        (post_ui (Ui_headers k res None) f, hide_element env (continuation_request k) f)
      else
        (case map_of (lf_requests f) (continuation_request k) of
           None \<Rightarrow> (f, [])
         | Some ip \<Rightarrow>
             (let f = f\<lparr>lf_sitekeys := ProcessResponseHeaders (le_page env) (ip_request_url ip) (continuation_head k)
                        (le_user_agent env) (lf_sitekeys f)\<rparr>
              in (InsertContentSecurityPolicyHeadersIfApplicable env (ip_request_url ip) k res f, []))))"

text \<open>The effects of the runner: callbacks run if their request is there, notifications go to the observers.\<close>

fun handle_runner_effect :: "loader_env \<Rightarrow> continuation runner_effect \<Rightarrow> loader_factory \<Rightarrow> loader_result" where
  "handle_runner_effect env (Run_callback k res) f =
     (if \<not> is_alive f (continuation_request k) then (f, [])
      else
        (case k of
           Headers_cont i head \<Rightarrow> OnResponseHeadersClassified env k res f
         | _ \<Rightarrow> OnRequestUrlClassified env k res f))"
| "handle_runner_effect env (Run_rewrite_callback k url) f =
     (if \<not> is_alive f (continuation_request k) then (f, []) else (post_ui (Ui_rewrite k url) f, []))"
| "handle_runner_effect env e f = (f, [Notify e])"

fun handle_runner_effects :: "loader_env \<Rightarrow> continuation runner_effect list \<Rightarrow> loader_factory \<Rightarrow> loader_result" where
  "handle_runner_effects env [] f = (f, [])"
| "handle_runner_effects env (e # es) f =
     (let (f, xs) = handle_runner_effect env e f; (f, ys) = handle_runner_effects env es f in (f, xs @ ys))"

definition with_runner :: "loader_env \<Rightarrow> continuation runner_result \<Rightarrow> loader_factory \<Rightarrow> loader_result" where
  "with_runner env r f = (let (rn, es) = r in handle_runner_effects env es (f\<lparr>lf_runner := rn\<rparr>))"

section \<open>Asking for checks\<close>

definition CheckFilterMatch :: "loader_env \<Rightarrow> in_progress_request \<Rightarrow> continuation \<Rightarrow> loader_factory \<Rightarrow> loader_result" where
  "CheckFilterMatch env ip k f =
     (if \<not> CheckHostValid f then (post_ui (Ui_match k kNoRule) f, [])
      else if ip_is_document_request ip then
        (post_ui (Ui_match k kNoRule)
           (f\<lparr>lf_runner := CheckDocumentAllowlisted (lf_snapshot f) (ip_request_url ip) (lf_host f) (lf_runner f)\<rparr>), [])
      else
        with_runner env
          (CheckRequestFilterMatch (le_page env) (lf_frames f) (lf_sitekeys f) (lf_snapshot f) (ip_request_url ip)
             (ip_resource_type ip) (lf_host f) k (lf_runner f)) f)"

definition Loader_ProcessResponseHeaders :: "loader_env \<Rightarrow> in_progress_request \<Rightarrow> continuation \<Rightarrow> loader_factory \<Rightarrow> loader_result"
where
  "Loader_ProcessResponseHeaders env ip k f =
     (if \<not> CheckHostValid f then (post_ui (Ui_headers k kNoRule None) f, [])
      else
        with_runner env
          (CheckResponseFilterMatch (le_page env) (lf_frames f) (lf_snapshot f) (ip_request_url ip) (ip_resource_type ip)
             (lf_host f) (le_response_headers env (continuation_head k)) k (lf_runner f)) f)"

definition Loader_CheckRewriteFilterMatch :: "loader_env \<Rightarrow> in_progress_request \<Rightarrow> continuation \<Rightarrow> loader_factory \<Rightarrow> loader_result"
where
  "Loader_CheckRewriteFilterMatch env ip k f =
     (if \<not> CheckHostValid f then (post_ui (Ui_rewrite k None) f, [])
      else
        with_runner env
          (CheckRewriteFilterMatch (le_page env) (lf_frames f) (lf_snapshot f) (ip_request_url ip) (lf_host f) k
             (lf_runner f)) f)"

section \<open>A request\<close>

definition CreateLoaderAndStart :: "loader_env \<Rightarrow> ResourceRequest \<Rightarrow> loader_factory \<Rightarrow> loader_result" where
  "CreateLoaderAndStart env request f =
     (let i = lf_next_request f;
          ip = \<lparr>ip_request_url = rr_url request, ip_is_document_request = IsDocumentRequest request,
                ip_resource_type = ToAdblockResourceType request, ip_client_paused = False, ip_loader_bound = True,
                ip_with_network = False\<rparr>
      in Loader_CheckRewriteFilterMatch env ip (Start_cont i request)
           (f\<lparr>lf_requests := (i, ip) # lf_requests f, lf_next_request := Suc i\<rparr>))"

definition is_exempt :: "loader_env \<Rightarrow> gurl \<Rightarrow> bool" where
  "is_exempt env url \<longleftrightarrow> le_IsLocalhost env url \<or> (\<not> SchemeIsHTTPOrHTTPS url \<and> \<not> SchemeIsWSOrWSS url)"

definition forward_request :: "nat \<Rightarrow> in_progress_request \<Rightarrow> ResourceRequest \<Rightarrow> loader_factory \<Rightarrow> loader_result" where
  "forward_request i ip request f =
     (f\<lparr>lf_requests := AList.update i (ip\<lparr>ip_with_network := True\<rparr>) (lf_requests f)\<rparr>, [Forward_request i request])"

definition Start :: "loader_env \<Rightarrow> nat \<Rightarrow> in_progress_request \<Rightarrow> ResourceRequest \<Rightarrow> gurl option \<Rightarrow> loader_factory \<Rightarrow>
    loader_result" where
  "Start env i ip request rewrite_url f =
     (case rewrite_url of
        Some new_url \<Rightarrow>
          (f\<lparr>lf_requests := AList.update i (ip\<lparr>ip_loader_bound := False\<rparr>) (lf_requests f)\<rparr>, [Forward_redirect i new_url])
      | None \<Rightarrow>
          (if \<not> lf_target_bound f then (f, [])
           else if is_exempt env (ip_request_url ip) then forward_request i ip request f
           else CheckFilterMatch env ip (Request_cont i request) f))"

definition OnRequestFilterMatchResult :: "nat \<Rightarrow> in_progress_request \<Rightarrow> ResourceRequest \<Rightarrow> FilterMatchResult \<Rightarrow> loader_factory \<Rightarrow>
    loader_result" where
  "OnRequestFilterMatchResult i ip request res f =
     (if \<not> lf_target_bound f then (f, [])
      else if res = kBlockRule then OnRequestError i True f
      else forward_request i ip request f)"

definition OnRedirectFilterMatchResult :: "nat \<Rightarrow> gurl \<Rightarrow> FilterMatchResult \<Rightarrow> loader_factory \<Rightarrow> loader_result" where
  "OnRedirectFilterMatchResult i new_url res f =
     (if \<not> lf_target_bound f then (f, [])
      else if res = kBlockRule then OnRequestError i True f
      else (f, [Forward_redirect i new_url]))"

definition OnProcessHeadersResult :: "nat \<Rightarrow> in_progress_request \<Rightarrow> (string \<times> string) list \<Rightarrow> FilterMatchResult \<Rightarrow>
    (string \<times> string) list option \<Rightarrow> loader_factory \<Rightarrow> loader_result" where
  "OnProcessHeadersResult i ip head res changed_headers f =
     (if res = kBlockRule then OnRequestError i True f
      else
        (f\<lparr>lf_requests := AList.update i (ip\<lparr>ip_client_paused := False\<rparr>) (lf_requests f)\<rparr>,
         [Forward_response i (case changed_headers of Some h \<Rightarrow> h | None \<Rightarrow> head)]))"

text \<open>The first task of the UI thread.\<close>

definition run_ui_task :: "loader_env \<Rightarrow> ui_task \<Rightarrow> loader_factory \<Rightarrow> loader_result" where
  "run_ui_task env t f =
     (case t of
        Ui_rewrite k url \<Rightarrow>
          (case map_of (lf_requests f) (continuation_request k) of
             None \<Rightarrow> (f, [])
           | Some ip \<Rightarrow> (case k of Start_cont i request \<Rightarrow> Start env i ip request url f | _ \<Rightarrow> (f, [])))
      | Ui_match k res \<Rightarrow>
          (case map_of (lf_requests f) (continuation_request k) of
             None \<Rightarrow> (f, [])
           | Some ip \<Rightarrow>
               (case k of
                  Request_cont i request \<Rightarrow> OnRequestFilterMatchResult i ip request res f
                | Redirect_cont i new_url \<Rightarrow> OnRedirectFilterMatchResult i new_url res f
                | _ \<Rightarrow> (f, [])))
      | Ui_headers k res changed_headers \<Rightarrow>
          (case map_of (lf_requests f) (continuation_request k) of
             None \<Rightarrow> (f, [])
           | Some ip \<Rightarrow>
               (case k of
                  Headers_cont i head \<Rightarrow> OnProcessHeadersResult i ip head res changed_headers f
                | _ \<Rightarrow> (f, []))))"

section \<open>From the network\<close>

definition OnReceiveRedirect :: "loader_env \<Rightarrow> nat \<Rightarrow> gurl \<Rightarrow> loader_factory \<Rightarrow> loader_result" where
  "OnReceiveRedirect env i new_url f =
     (case map_of (lf_requests f) i of
        None \<Rightarrow> (f, [])
      | Some ip \<Rightarrow>
          (let ip = ip\<lparr>ip_request_url := new_url\<rparr>
           in CheckFilterMatch env ip (Redirect_cont i new_url)
                (f\<lparr>lf_requests := AList.update i ip (lf_requests f)\<rparr>)))"

definition OnReceiveResponse :: "loader_env \<Rightarrow> nat \<Rightarrow> (string \<times> string) list \<Rightarrow> loader_factory \<Rightarrow> loader_result" where
  "OnReceiveResponse env i head f =
     (case map_of (lf_requests f) i of
        None \<Rightarrow> (f, [])
      | Some ip \<Rightarrow>
          (if is_exempt env (ip_request_url ip) then (f, [Forward_response i head])
           else
             (let ip = ip\<lparr>ip_client_paused := True\<rparr>
              in Loader_ProcessResponseHeaders env ip (Headers_cont i head)
                   (f\<lparr>lf_requests := AList.update i ip (lf_requests f)\<rparr>))))"

definition to_target_loader :: "nat \<Rightarrow> loader_call \<Rightarrow> loader_factory \<Rightarrow> loader_effect list" where
  "to_target_loader i call f =
     (case map_of (lf_requests f) i of
        None \<Rightarrow> []
      | Some ip \<Rightarrow> (if ip_loader_bound ip then [To_target_loader i call] else []))"

definition to_target_client :: "nat \<Rightarrow> client_call \<Rightarrow> loader_effect list" where
  "to_target_client i call = [To_target_client i call]"

section \<open>The injector of content security policies\<close>

text \<open>\<open>OnCspInjectionsSearchFinished\<close>, which adds to the headers of the response, and the network service that
  parsed them.\<close>

fun add_head :: "string set \<Rightarrow> continuation \<Rightarrow> continuation" where
  "add_head injections (Headers_cont i head) = Headers_cont i (add_csp_headers injections head)"
| "add_head injections k = k"

definition OnCspInjectionsSearchFinished :: "loader_env \<Rightarrow> csp_task \<Rightarrow> loader_factory \<Rightarrow> loader_factory" where
  "OnCspInjectionsSearchFinished env t f =
     (let csp_injections = snapshot_csp_injections (le_net env) (ct_snapshot t) (ct_url t) (ct_hierarchy t)
      in if csp_injections \<noteq> {} then
           f\<lparr>lf_parse_tasks := lf_parse_tasks f @ [(add_head csp_injections (ct_continuation t), ct_result t)]\<rparr>
         else if is_alive f (continuation_request (ct_continuation t))
         then post_ui (Ui_headers (ct_continuation t) (ct_result t) None) f else f)"

definition OnUpdatedHeadersParsed :: "continuation \<times> FilterMatchResult \<Rightarrow> loader_factory \<Rightarrow> loader_factory" where
  "OnUpdatedHeadersParsed = (\<lambda>(k, res) f.
     if is_alive f (continuation_request k) then post_ui (Ui_headers k res (Some (continuation_head k))) f else f)"

section \<open>Events\<close>

definition new_AdblockURLLoaderFactory :: "nat \<Rightarrow> nat list \<Rightarrow> frame_hosts \<Rightarrow> sitekey_map \<Rightarrow> Snapshot \<Rightarrow> loader_factory" where
  "new_AdblockURLLoaderFactory host_id observers frames site_keys snapshot =
     \<lparr>lf_requests = [], lf_next_request = 0, lf_host = host_id, lf_target_bound = True, lf_proxies = 1,
      lf_disconnected = False, lf_ui_tasks = [], lf_runner = \<lparr>rn_observers = observers, rn_tasks = []\<rparr>,
      lf_csp_tasks = [], lf_parse_tasks = [], lf_frames = frames, lf_sitekeys = site_keys, lf_snapshot = snapshot\<rparr>"

datatype loader_event =
    Create_event ResourceRequest
  | Network_redirect nat gurl
  | Network_response nat "(string \<times> string) list"
  | Network_call nat client_call
  | Client_call nat loader_call
  | Client_disconnected nat
  | Bindings_closed nat
  | Check_ends nat
  | Csp_search_ends nat
  | Headers_parsed nat
  | Ui_task_runs
  | Frames_change frame_hosts
  | Snapshot_changes Snapshot
  | Target_error
  | Proxy_error
  | Clone_event

definition remove_nth :: "nat \<Rightarrow> 'a list \<Rightarrow> 'a list" where
  "remove_nth n xs = take n xs @ drop (Suc n) xs"

text \<open>\<open>None\<close> is undefined behaviour, or an event that cannot happen.\<close>

fun loader_step :: "loader_env \<Rightarrow> loader_event \<Rightarrow> loader_factory \<Rightarrow> loader_result option" where
  "loader_step env (Create_event request) f =
     (if lf_proxies f = 0 then None else Some (CreateLoaderAndStart env request f))"
| "loader_step env (Network_redirect i new_url) f =
     (case map_of (lf_requests f) i of
        None \<Rightarrow> None
      | Some ip \<Rightarrow> if ip_client_paused ip \<or> \<not> ip_with_network ip then None else Some (OnReceiveRedirect env i new_url f))"
| "loader_step env (Network_response i head) f =
     (case map_of (lf_requests f) i of
        None \<Rightarrow> None
      | Some ip \<Rightarrow> if ip_client_paused ip \<or> \<not> ip_with_network ip then None else Some (OnReceiveResponse env i head f))"
| "loader_step env (Network_call i call) f =
     (case map_of (lf_requests f) i of
        None \<Rightarrow> None
      | Some ip \<Rightarrow> if ip_client_paused ip \<or> \<not> ip_with_network ip then None else Some (f, to_target_client i call))"
| "loader_step env (Client_call i call) f = Some (f, to_target_loader i call f)"
| "loader_step env (Client_disconnected i) f = (if is_alive f i then Some (OnRequestError i False f) else None)"
| "loader_step env (Bindings_closed i) f = (if is_alive f i then Some (RemoveRequest i f) else None)"
| "loader_step env (Check_ends n) f =
     (if n < length (rn_tasks (lf_runner f)) then
        do { es \<leftarrow> end_task (le_net env) (lf_frames f) (lf_runner f) (rn_tasks (lf_runner f) ! n);
             Some (handle_runner_effects env es
               (f\<lparr>lf_runner := (lf_runner f)\<lparr>rn_tasks := remove_nth n (rn_tasks (lf_runner f))\<rparr>\<rparr>)) }
      else None)"
| "loader_step env (Csp_search_ends n) f =
     (if n < length (lf_csp_tasks f)
      then Some (OnCspInjectionsSearchFinished env (lf_csp_tasks f ! n)
             (f\<lparr>lf_csp_tasks := remove_nth n (lf_csp_tasks f)\<rparr>), [])
      else None)"
| "loader_step env (Headers_parsed n) f =
     (if n < length (lf_parse_tasks f)
      then Some (OnUpdatedHeadersParsed (lf_parse_tasks f ! n)
             (f\<lparr>lf_parse_tasks := remove_nth n (lf_parse_tasks f)\<rparr>), [])
      else None)"
| "loader_step env Ui_task_runs f =
     (case lf_ui_tasks f of
        [] \<Rightarrow> None
      | t # ts \<Rightarrow> Some (run_ui_task env t (f\<lparr>lf_ui_tasks := ts\<rparr>)))"
| "loader_step env (Frames_change frames) f = Some (f\<lparr>lf_frames := frames\<rparr>, [])"
| "loader_step env (Snapshot_changes snapshot) f = Some (f\<lparr>lf_snapshot := snapshot\<rparr>, [])"
| "loader_step env Target_error f = (if lf_target_bound f \<and> \<not> lf_disconnected f then Some (OnTargetFactoryError f) else None)"
| "loader_step env Proxy_error f = (if lf_proxies f > 0 then Some (OnProxyBindingError f) else None)"
| "loader_step env Clone_event f = (if lf_proxies f > 0 then Some (Clone f, []) else None)"

end
