(* ===== verification/Subscription_Service.thy ===== *)
theory Subscription_Service
  imports Maintainer_Properties Classifier_Properties Converter
begin

text \<open>
  \<open>subscription/subscription_service_impl.cc\<close> and \<open>subscription_updater_impl.cc\<close>, with the factory of
  \<open>chrome/browser/adblock/subscription_service_factory.cc\<close>: the configurations of a profile, each with a
  maintainer while it is enabled, and the snapshot of subscriptions that requests are judged by. What the service
  knows of a maintainer is the interface \<open>maintainer_ops\<close>; \<open>'m\<close> is a maintainer. Every configuration name has a directory
  of the profile: a maintainer that is made loads from it what the one before left there, in the last session or in this one.
\<close>

section \<open>The service\<close>

type_synonym directories = "string \<Rightarrow> flat_Subscription storage"

text \<open>\<open>mo_make\<close> is the factory, \<open>mo_destroy\<close> what is left of a maintainer after its destructor.\<close>

record 'm maintainer_ops =
  mo_make :: "FilteringConfiguration \<Rightarrow> directories \<Rightarrow> 'm"
  mo_destroy :: "FilteringConfiguration \<Rightarrow> 'm \<Rightarrow> directories \<Rightarrow> directories"
  mo_notified :: "Notification \<Rightarrow> FilteringConfiguration \<Rightarrow> 'm \<Rightarrow> 'm"
  mo_collection :: "'m \<Rightarrow> SubscriptionCollection"
  mo_subscriptions :: "'m \<Rightarrow> listed_subscription list"

text \<open>\<open>maintainers_\<close> is a map from pointers to configurations, in the order of the pointers.\<close>

record 'm service_entry =
  en_address :: nat
  en_configuration :: FilteringConfiguration
  en_maintainer :: "'m option"

record 'm service =
  sv_maintainers :: "'m service_entry list"
  sv_observers :: "nat list"
  sv_prefs :: dict
  sv_directories :: directories

definition new_SubscriptionService :: "dict \<Rightarrow> directories \<Rightarrow> 'm service" where
  "new_SubscriptionService prefs directories =
     \<lparr>sv_maintainers = [], sv_observers = [], sv_prefs = prefs, sv_directories = directories\<rparr>"

definition find_entry :: "nat \<Rightarrow> 'm service \<Rightarrow> 'm service_entry option" where
  "find_entry configuration s = List.find (\<lambda>entry. en_address entry = configuration) (sv_maintainers s)"

definition sv_GetCurrentSubscriptions :: "'m maintainer_ops \<Rightarrow> nat \<Rightarrow> 'm service \<Rightarrow> listed_subscription list option" where
  "sv_GetCurrentSubscriptions ops configuration s =
     (case find_entry configuration s of
        None \<Rightarrow> None
      | Some entry \<Rightarrow>
          (case en_maintainer entry of None \<Rightarrow> Some [] | Some m \<Rightarrow> Some (mo_subscriptions ops m)))"

definition MakeMaintainer :: "'m maintainer_ops \<Rightarrow> FilteringConfiguration \<Rightarrow> 'm service \<Rightarrow> 'm" where
  "MakeMaintainer ops configuration s = mo_make ops configuration (sv_directories s)"

definition InstallFilteringConfiguration ::
  "'m maintainer_ops \<Rightarrow> nat \<Rightarrow> FilteringConfiguration \<Rightarrow> 'm service \<Rightarrow> 'm service" where
  "InstallFilteringConfiguration ops address configuration s =
     (let maintainer = (if IsEnabled configuration then Some (MakeMaintainer ops configuration s) else None)
      in if find_entry address s \<noteq> None then s
         else s\<lparr>sv_maintainers := insort_key en_address
                 \<lparr>en_address = address, en_configuration = configuration, en_maintainer = maintainer\<rparr>
                 (sv_maintainers s)\<rparr>)"

definition GetInstalledFilteringConfigurations :: "'m service \<Rightarrow> FilteringConfiguration list" where
  "GetInstalledFilteringConfigurations s = map en_configuration (sv_maintainers s)"

fun snapshot_of :: "'m maintainer_ops \<Rightarrow> 'm service_entry list \<Rightarrow> Snapshot" where
  "snapshot_of ops [] = []"
| "snapshot_of ops (entry # rest) =
     (case en_maintainer entry of
        None \<Rightarrow> snapshot_of ops rest
      | Some m \<Rightarrow> mo_collection ops m # snapshot_of ops rest)"

definition GetCurrentSnapshot :: "'m maintainer_ops \<Rightarrow> 'm service \<Rightarrow> Snapshot" where
  "GetCurrentSnapshot ops s = snapshot_of ops (sv_maintainers s)"

definition sv_AddObserver :: "nat \<Rightarrow> 'm service \<Rightarrow> 'm service" where
  "sv_AddObserver observer s =
     (if observer \<in> set (sv_observers s) then s else s\<lparr>sv_observers := sv_observers s @ [observer]\<rparr>)"

definition sv_RemoveObserver :: "nat \<Rightarrow> 'm service \<Rightarrow> 'm service" where
  "sv_RemoveObserver observer s = s\<lparr>sv_observers := removeAll observer (sv_observers s)\<rparr>"

definition change_entry :: "nat \<Rightarrow> ('m service_entry \<Rightarrow> 'm service_entry) \<Rightarrow> 'm service \<Rightarrow> 'm service" where
  "change_entry address change s =
     s\<lparr>sv_maintainers := map (\<lambda>entry. if en_address entry = address then change entry else entry) (sv_maintainers s)\<rparr>"

text \<open>An enabled configuration gets a new maintainer; the one it had, if any, is destroyed after that.\<close>

definition sv_OnEnabledStateChanged :: "'m maintainer_ops \<Rightarrow> nat \<Rightarrow> 'm service \<Rightarrow> 'm service" where
  "sv_OnEnabledStateChanged ops config s =
     (case find_entry config s of
        None \<Rightarrow> s
      | Some entry \<Rightarrow>
          (let configuration = en_configuration entry;
               maintainer = (if IsEnabled configuration then Some (MakeMaintainer ops configuration s) else None);
               directories = (case en_maintainer entry of
                  None \<Rightarrow> sv_directories s | Some m \<Rightarrow> mo_destroy ops configuration m (sv_directories s))
           in change_entry config (\<lambda>entry. entry\<lparr>en_maintainer := maintainer\<rparr>) (s\<lparr>sv_directories := directories\<rparr>)))"

text \<open>The observers are told of every list that was installed.\<close>

definition sv_OnSubscriptionUpdated :: "gurl \<Rightarrow> 'm service \<Rightarrow> (nat \<times> gurl) list" where
  "sv_OnSubscriptionUpdated updated_url s = map (\<lambda>observer. (observer, updated_url)) (sv_observers s)"

section \<open>Events\<close>

text \<open>A configuration tells its observers of a change: its maintainer, when there is one, and the service.\<close>

definition notified :: "'m maintainer_ops \<Rightarrow> nat \<Rightarrow> Notification \<Rightarrow> 'm service \<Rightarrow> 'm service" where
  "notified ops address n s =
     (if n = EnabledStateChanged then sv_OnEnabledStateChanged ops address s
      else change_entry address (\<lambda>entry.
        entry\<lparr>en_maintainer := map_option (mo_notified ops n (en_configuration entry)) (en_maintainer entry)\<rparr>) s)"

datatype 'm service_event =
    Install_configuration nat FilteringConfiguration
  | Change_configuration nat config_op
  | Maintainer_works nat "'m \<Rightarrow> 'm"
  | Observe nat
  | Stop_observing nat

fun service_step :: "'m maintainer_ops \<Rightarrow> 'm service_event \<Rightarrow> 'm service \<Rightarrow> 'm service" where
  "service_step ops (Install_configuration address configuration) s = InstallFilteringConfiguration ops address configuration s"
| "service_step ops (Change_configuration address op) s =
     (case find_entry address s of
        None \<Rightarrow> s
      | Some entry \<Rightarrow>
          (let (c, prefs, ns) = apply_op op (en_configuration entry) (sv_prefs s)
           in fold (notified ops address) ns
                (change_entry address (\<lambda>entry. entry\<lparr>en_configuration := c\<rparr>) (s\<lparr>sv_prefs := prefs\<rparr>))))"
| "service_step ops (Maintainer_works address work) s =
     change_entry address (\<lambda>entry. entry\<lparr>en_maintainer := map_option work (en_maintainer entry)\<rparr>) s"
| "service_step ops (Observe observer) s = sv_AddObserver observer s"
| "service_step ops (Stop_observing observer) s = sv_RemoveObserver observer s"

definition service_run :: "'m maintainer_ops \<Rightarrow> 'm service_event list \<Rightarrow> 'm service \<Rightarrow> 'm service" where
  "service_run ops = fold (service_step ops)"

section \<open>Schedule of the updates\<close>

text \<open>Times are in microseconds; the timer holds the time it fires.\<close>

record updater =
  up_initial_delay :: int
  up_check_interval :: int
  up_timer :: "int option"

definition seconds :: "int \<Rightarrow> int" where
  "seconds n = n * 1000000"

definition GetUpdateInitialDelay :: "int option \<Rightarrow> int" where
  "GetUpdateInitialDelay for_testing = (case for_testing of Some d \<Rightarrow> d | None \<Rightarrow> seconds 30)"

definition GetUpdateCheckInterval :: "int option \<Rightarrow> int" where
  "GetUpdateCheckInterval for_testing = (case for_testing of Some d \<Rightarrow> d | None \<Rightarrow> seconds (60 * 60))"

definition MakeSubscriptionUpdater :: "int option \<Rightarrow> int option \<Rightarrow> updater" where
  "MakeSubscriptionUpdater initial_delay check_interval =
     \<lparr>up_initial_delay = GetUpdateInitialDelay initial_delay, up_check_interval = GetUpdateCheckInterval check_interval,
      up_timer = None\<rparr>"

definition StartSchedule :: "int \<Rightarrow> updater \<Rightarrow> updater" where
  "StartSchedule now u = u\<lparr>up_timer := Some (now + up_initial_delay u)\<rparr>"

definition StopSchedule :: "updater \<Rightarrow> updater" where
  "StopSchedule u = u\<lparr>up_timer := None\<rparr>"

text \<open>The timer fires: the check of the maintainer runs, and the timer is set again.\<close>

definition up_RunUpdateCheck :: "(int \<Rightarrow> 'm \<Rightarrow> 'm) \<Rightarrow> int \<Rightarrow> updater \<times> 'm \<Rightarrow> updater \<times> 'm" where
  "up_RunUpdateCheck run_update_check now = (\<lambda>(u, m).
     (u\<lparr>up_timer := Some (now + up_check_interval u)\<rparr>, run_update_check now m))"

section \<open>Converting a downloaded file\<close>

text \<open>The file is the text that was downloaded, or cannot be opened.\<close>

definition ConvertFilterFile :: "config_env \<Rightarrow> string \<Rightarrow> gurl \<Rightarrow> string option \<Rightarrow> ConversionResult" where
  "ConvertFilterFile env schema_version list_url file =
     (case file of
        None \<Rightarrow> ConversionError ''Could not open filter file''
      | Some input_stream \<Rightarrow>
          ConvertStream schema_version (ce_parse_url env) (Some input_stream) list_url
            (AllowPrivilegedFilters env list_url))"

section \<open>The maintainer of a configuration\<close>

text \<open>\<open>MakeFilterConfigurationMaintainer\<close>: every configuration has a directory of its own. The load of the files is under
  way when the maintainer is returned. \<open>None\<close> is a maintainer that made a forbidden call.\<close>

definition storage_dir :: "FilteringConfiguration \<Rightarrow> string" where
  "storage_dir configuration = cfg_name configuration @ ''_subscriptions''"

definition MakeFilterConfigurationMaintainer :: "maintainer_env \<Rightarrow> FilteringConfiguration \<Rightarrow> directories \<Rightarrow> maintainer" where
  "MakeFilterConfigurationMaintainer env configuration directories =
     InitializeStorage
       (new_Maintainer configuration []
         (new_Storage (me_schema_version env) (directories (storage_dir configuration))))"

text \<open>The destructor cancels the downloads and drops the callbacks that wait; the files, their signatures and the
  metadata stay.\<close>

definition destroy_maintainer :: "FilteringConfiguration \<Rightarrow> maintainer \<Rightarrow> directories \<Rightarrow> directories" where
  "destroy_maintainer configuration s directories = directories(storage_dir configuration := mt_storage s)"

definition profile_ops :: "maintainer_env \<Rightarrow> maintainer option maintainer_ops" where
  "profile_ops env =
     \<lparr>mo_make = (\<lambda>c directories. Some (MakeFilterConfigurationMaintainer env c directories)),
      mo_destroy = (\<lambda>c m directories. case m of None \<Rightarrow> directories | Some s \<Rightarrow> destroy_maintainer c s directories),
      mo_notified = (\<lambda>n c m. case m of None \<Rightarrow> None | Some s \<Rightarrow> on_notification env n (s\<lparr>mt_configuration := c\<rparr>)),
      mo_collection = (\<lambda>m. case m of None \<Rightarrow> [] | Some s \<Rightarrow> GetSubscriptionCollection s),
      mo_subscriptions = (\<lambda>m. case m of None \<Rightarrow> [] | Some s \<Rightarrow> GetCurrentSubscriptions env s)\<rparr>"

end
