(* ===== verification/Browser_Client.thy ===== *)
theory Browser_Client
  imports Url_Loader Subscription_Service
begin

text \<open>
  \<open>chrome/browser/adblock/adblock_content_browser_client.cc\<close>: where the browser asks whether a window may be opened,
  a web socket created, and whether the requests of a frame go through a proxy. What Chromium's own client answers
  is an argument, and so are the build flags.
\<close>

section \<open>Whether filtering is needed\<close>

text \<open>The configurations of the frame's profile, or nothing when there is no frame or no profile.\<close>

definition IsFilteringNeeded :: "FilteringConfiguration list option \<Rightarrow> bool" where
  "IsFilteringNeeded configurations =
     (case configurations of Some cs \<Rightarrow> list_ex IsEnabled cs | None \<Rightarrow> False)"

section \<open>Windows\<close>

definition CanCreateWindow :: "net_env \<Rightarrow> page_env \<Rightarrow> (gurl \<Rightarrow> gurl) \<Rightarrow> FilteringConfiguration list option \<Rightarrow> sitekey_map \<Rightarrow>
    Snapshot \<Rightarrow> nat \<Rightarrow> frame_urls \<Rightarrow> gurl \<Rightarrow> bool \<Rightarrow> 'k runner \<Rightarrow> bool \<times> 'k runner_effect list" where
  "CanCreateWindow net page FilterURL configurations site_keys snapshot opener_id opener target_url chrome_allows r =
     (if IsFilteringNeeded configurations then
        (let popup_url = FilterURL target_url;
             (popup_blocking_decision, es) = ShouldBlockPopup net page site_keys snapshot popup_url opener_id opener r
         in if popup_blocking_decision = kAllowRule then (True, es)
            else if popup_blocking_decision = kBlockRule then (False, es)
            else (chrome_allows, es))
      else (chrome_allows, []))"

section \<open>Web sockets\<close>

record web_socket =
  ws_frame :: nat
  ws_url :: gurl
  ws_user_agent :: "string option"

datatype web_socket_effect =
    Chrome_CreateWebSocket web_socket
  | Run_factory gurl "(string \<times> string) list"
  | Web_socket_notification "web_socket runner_effect"

definition WillInterceptWebSocket :: "FilteringConfiguration list option \<Rightarrow> bool \<Rightarrow> bool" where
  "WillInterceptWebSocket configurations chrome_intercepts =
     (if IsFilteringNeeded configurations then True else chrome_intercepts)"

definition CreateWebSocketInternal :: "page_env \<Rightarrow> frame_hosts \<Rightarrow> sitekey_map \<Rightarrow> Snapshot \<Rightarrow> web_socket \<Rightarrow>
    web_socket runner \<Rightarrow> web_socket runner_result" where
  "CreateWebSocketInternal page frames site_keys snapshot w r =
     (case FindRenderFrameHost frames (ws_frame w) of
        None \<Rightarrow> (r, [])
      | Some _ \<Rightarrow> CheckRequestFilterMatchForWebSocket page frames site_keys snapshot (ws_url w) (ws_frame w) w r)"

definition CreateWebSocket :: "page_env \<Rightarrow> FilteringConfiguration list option \<Rightarrow> frame_hosts \<Rightarrow> sitekey_map \<Rightarrow> Snapshot \<Rightarrow>
    web_socket \<Rightarrow> web_socket runner \<Rightarrow> web_socket runner_result \<times> web_socket_effect list" where
  "CreateWebSocket page configurations frames site_keys snapshot w r =
     (if IsFilteringNeeded configurations then (CreateWebSocketInternal page frames site_keys snapshot w r, [])
      else ((r, []), [Chrome_CreateWebSocket w]))"

definition OnWebSocketFilterCheckCompleted :: "frame_hosts \<Rightarrow> bool \<Rightarrow> web_socket \<Rightarrow> FilterMatchResult \<Rightarrow> web_socket_effect list" where
  "OnWebSocketFilterCheckCompleted frames chrome_intercepts w res =
     (case FindRenderFrameHost frames (ws_frame w) of
        None \<Rightarrow> []
      | Some _ \<Rightarrow>
          (let has_blocking_filter = (res = kBlockRule)
           in if \<not> has_blocking_filter then
                (if chrome_intercepts then [Chrome_CreateWebSocket w]
                 else
                   [Run_factory (ws_url w) (case ws_user_agent w of Some u \<Rightarrow> [(''User-Agent'', u)] | None \<Rightarrow> [])])
              else []))"

text \<open>The effects of the runner: the callback of a check is the web socket that waits for it.\<close>

fun web_socket_effects :: "frame_hosts \<Rightarrow> bool \<Rightarrow> web_socket runner_effect \<Rightarrow> web_socket_effect list" where
  "web_socket_effects frames chrome_intercepts (Run_callback w res) =
     OnWebSocketFilterCheckCompleted frames chrome_intercepts w res"
| "web_socket_effects frames chrome_intercepts e = [Web_socket_notification e]"

section \<open>Proxies\<close>

text \<open>Chromium's types of factories; the client looks for two of them.\<close>

datatype URLLoaderFactoryType = kNavigation | kDocumentSubResource | kOtherFactory nat

record build_flags =
  bf_ENABLE_EXTENSIONS :: bool
  bf_force_adblock_proxy_for_testing :: bool
  bf_EYEO_INTERCEPT_DEBUG_URL :: bool

text \<open>The proxies of a profile, by number; a proxy goes when it asks for it.\<close>

record AdblockContextData =
  ac_proxies :: "(nat \<times> loader_factory) list"
  ac_next_proxy :: nat

definition StartProxying :: "nat \<Rightarrow> nat list \<Rightarrow> frame_hosts \<Rightarrow> sitekey_map \<Rightarrow> Snapshot \<Rightarrow> AdblockContextData \<Rightarrow> AdblockContextData" where
  "StartProxying host_frame observers frames site_keys snapshot d =
     d\<lparr>ac_proxies := (ac_next_proxy d, new_AdblockURLLoaderFactory host_frame observers frames site_keys snapshot) # ac_proxies d,
       ac_next_proxy := Suc (ac_next_proxy d)\<rparr>"

definition RemoveProxy :: "nat \<Rightarrow> AdblockContextData \<Rightarrow> AdblockContextData" where
  "RemoveProxy proxy d = d\<lparr>ac_proxies := AList.delete proxy (ac_proxies d)\<rparr>"

definition use_adblock_proxy :: "build_flags \<Rightarrow> URLLoaderFactoryType \<Rightarrow> FilteringConfiguration list option \<Rightarrow> gurl \<Rightarrow> string \<Rightarrow> bool" where
  "use_adblock_proxy flags ty configurations visible_url debug_host =
     ((ty = kDocumentSubResource \<or> ty = kNavigation) \<and> IsFilteringNeeded configurations \<or>
      bf_EYEO_INTERCEPT_DEBUG_URL flags \<and> ty = kNavigation \<and> is_valid visible_url \<and> host visible_url = debug_host)"

text \<open>The answer, and whether the requests go through a new proxy of ours.\<close>

definition WillCreateURLLoaderFactory :: "build_flags \<Rightarrow> URLLoaderFactoryType \<Rightarrow> FilteringConfiguration list option \<Rightarrow> string \<Rightarrow>
    gurl \<Rightarrow> string \<Rightarrow> bool \<Rightarrow> bool \<times> bool" where
  "WillCreateURLLoaderFactory flags ty configurations initiator_scheme visible_url debug_host use_chrome_proxy =
     (if bf_ENABLE_EXTENSIONS flags \<and> \<not> bf_force_adblock_proxy_for_testing flags \<and> initiator_scheme = ''chrome-extension''
      then (use_chrome_proxy, False)
      else
        (let proxied = use_adblock_proxy flags ty configurations visible_url debug_host
         in (proxied \<or> use_chrome_proxy, proxied)))"

text \<open>What happens to the proxies: a new one, or an event of one of them.\<close>

definition proxy_event :: "loader_env \<Rightarrow> nat \<Rightarrow> loader_event \<Rightarrow> AdblockContextData \<Rightarrow> (AdblockContextData \<times> loader_effect list) option" where
  "proxy_event env i e d =
     (case map_of (ac_proxies d) i of
        None \<Rightarrow> None
      | Some f \<Rightarrow>
          do { (f, es) \<leftarrow> loader_step env e f;
               (let d = d\<lparr>ac_proxies := AList.update i f (ac_proxies d)\<rparr>
                in Some (if Factory_disconnected \<in> set es then RemoveProxy i d else d, es)) })"

end
