(* ===== verification/Private_Api.thy ===== *)
theory Private_Api
  imports Browser_Client Adblock_Controller
begin

text \<open>
  \<open>chrome/browser/extensions/api/adblock_private/adblock_private_api.cc\<close>: what an extension may ask of the ad blocker
  and the events it is told of, and the operations of the controller it calls that are not in
  \<open>Adblock_Controller\<close>; and how \<open>chrome/browser/adblock/adblock_controller_factory.cc\<close> puts a profile together.
  Tabs and windows, and how a time is printed, are Chromium's.
\<close>

section \<open>The controller\<close>

definition SelectBuiltInSubscription :: "gurl \<Rightarrow> controller \<Rightarrow> controller" where
  "SelectBuiltInSubscription url = InstallSubscription url"

definition UnselectBuiltInSubscription :: "gurl \<Rightarrow> controller \<Rightarrow> controller" where
  "UnselectBuiltInSubscription url = UninstallSubscription url"

definition AddCustomSubscription :: "gurl \<Rightarrow> controller \<Rightarrow> controller" where
  "AddCustomSubscription url = InstallSubscription url"

definition RemoveCustomSubscription :: "gurl \<Rightarrow> controller \<Rightarrow> controller" where
  "RemoveCustomSubscription url = UninstallSubscription url"

definition ctl_AddAllowedDomain :: "string \<Rightarrow> controller \<Rightarrow> controller" where
  "ctl_AddAllowedDomain domain = on_configuration (Op_AddAllowedDomain domain)"

definition ctl_RemoveAllowedDomain :: "string \<Rightarrow> controller \<Rightarrow> controller" where
  "ctl_RemoveAllowedDomain domain = on_configuration (Op_RemoveAllowedDomain domain)"

definition ctl_GetAllowedDomains :: "controller \<Rightarrow> string list" where
  "ctl_GetAllowedDomains s = GetAllowedDomains (ctl_config s)"

definition ctl_AddCustomFilter :: "string \<Rightarrow> controller \<Rightarrow> controller" where
  "ctl_AddCustomFilter f = on_configuration (Op_AddCustomFilter f)"

definition ctl_RemoveCustomFilter :: "string \<Rightarrow> controller \<Rightarrow> controller" where
  "ctl_RemoveCustomFilter f = on_configuration (Op_RemoveCustomFilter f)"

definition ctl_GetCustomFilters :: "controller \<Rightarrow> string list" where
  "ctl_GetCustomFilters s = GetCustomFilters (ctl_config s)"

definition GetSubscriptionsThatMatchConfiguration :: "'m maintainer_ops \<Rightarrow> nat \<Rightarrow> 'm service \<Rightarrow> listed_subscription list option" where
  "GetSubscriptionsThatMatchConfiguration ops configuration service = sv_GetCurrentSubscriptions ops configuration service"

section \<open>Actions on lists\<close>

datatype BuiltInSubscriptionAction = kSelect | kUnselect

datatype CustomSubscriptionAction = kAdd | kRemove

datatype SubscriptionAction = kInstall | kUninstall

text \<open>The empty status means that the action was run.\<close>

definition RunBuiltInSubscriptionAction :: "BuiltInSubscriptionAction \<Rightarrow> gurl \<Rightarrow> controller \<Rightarrow> string \<times> controller" where
  "RunBuiltInSubscriptionAction action url s =
     (if \<not> is_valid url then (''Invalid URL'', s)
      else
        (let recommended = ctl_known_subscriptions s
         in if recommended \<noteq> [] \<and> List.find (\<lambda>k. ks_url k = url) recommended = None
            then (''Not a built-in subscription'', s)
            else
              (case action of
                 kSelect \<Rightarrow> ([], SelectBuiltInSubscription url s)
               | kUnselect \<Rightarrow> ([], UnselectBuiltInSubscription url s))))"

definition RunCustomSubscriptionAction :: "CustomSubscriptionAction \<Rightarrow> gurl \<Rightarrow> controller \<Rightarrow> string \<times> controller" where
  "RunCustomSubscriptionAction action url s =
     (if \<not> is_valid url then (''Invalid URL'', s)
      else (case action of
              kAdd \<Rightarrow> ([], AddCustomSubscription url s)
            | kRemove \<Rightarrow> ([], RemoveCustomSubscription url s)))"

definition RunSubscriptionAction :: "SubscriptionAction \<Rightarrow> gurl \<Rightarrow> controller \<Rightarrow> string \<times> controller" where
  "RunSubscriptionAction action url s =
     (if \<not> is_valid url then (''Invalid URL'', s)
      else (case action of
              kInstall \<Rightarrow> ([], InstallSubscription url s)
            | kUninstall \<Rightarrow> ([], UninstallSubscription url s)))"

section \<open>Values for the extension\<close>

record SessionStatsEntry =
  se_url :: string
  se_count :: nat

text \<open>The map is ordered by URL, that is by spec.\<close>

definition CopySessionsStats :: "(gurl \<times> nat) list \<Rightarrow> SessionStatsEntry list" where
  "CopySessionsStats source =
     map (\<lambda>entry. \<lparr>se_url = spec (fst entry), se_count = snd entry\<rparr>) (sort_key (spec \<circ> fst) source)"

definition SubscriptionInstallationStateToString :: "InstallationState \<Rightarrow> string" where
  "SubscriptionInstallationStateToString state =
     (case state of
        Installed \<Rightarrow> ''Installed''
      | Installing \<Rightarrow> ''Installing''
      | Preloaded \<Rightarrow> ''Preloaded'')"

record js_Subscription =
  js_url :: string
  js_title :: string
  js_current_version :: string
  js_installation_state :: string
  js_last_installation_time :: string

definition listed_state :: "listed_subscription \<Rightarrow> InstallationState" where
  "listed_state x = (case x of Listed i \<Rightarrow> is_installation_state i | Ongoing u \<Rightarrow> Installing)"

definition listed_title :: "listed_subscription \<Rightarrow> string" where
  "listed_title x = (case x of Listed i \<Rightarrow> GetTitle i | Ongoing u \<Rightarrow> [])"

definition listed_version :: "listed_subscription \<Rightarrow> string" where
  "listed_version x = (case x of Listed i \<Rightarrow> GetCurrentVersion i | Ongoing u \<Rightarrow> [])"

definition listed_time :: "listed_subscription \<Rightarrow> int" where
  "listed_time x = (case x of Listed i \<Rightarrow> is_installation_time i | Ongoing u \<Rightarrow> 0)"

definition CopySubscriptions :: "maintainer_env \<Rightarrow> (int \<Rightarrow> string) \<Rightarrow> listed_subscription list \<Rightarrow> js_Subscription list" where
  "CopySubscriptions env TimeToISO8601 current_subscriptions =
     map (\<lambda>sub. \<lparr>js_url = spec (listed_url env sub), js_title = listed_title sub, js_current_version = listed_version sub,
            js_installation_state = SubscriptionInstallationStateToString (listed_state sub),
            js_last_installation_time = TimeToISO8601 (listed_time sub)\<rparr>) current_subscriptions"

section \<open>Events\<close>

record AdInfo =
  ai_url :: string
  ai_subscription :: string
  ai_parent_frame_urls :: "string list"
  ai_content_type :: string
  ai_tab_id :: int
  ai_window_id :: int

datatype api_event =
    OnAdBlocked AdInfo
  | OnAdAllowed AdInfo
  | Api_OnPageAllowed AdInfo
  | OnPopupBlocked AdInfo
  | OnPopupAllowed AdInfo
  | Api_OnSubscriptionUpdated string

text \<open>The tab and the window of a frame, when it has contents.\<close>

definition CreateAdInfoObject :: "(nat \<Rightarrow> (int \<times> int) option) \<Rightarrow> gurl \<Rightarrow> gurl \<Rightarrow> nat \<Rightarrow> AdInfo" where
  "CreateAdInfoObject tabs url sub render_frame_host =
     \<lparr>ai_url = spec url, ai_subscription = spec sub, ai_parent_frame_urls = [], ai_content_type = [],
      ai_tab_id = (case tabs render_frame_host of Some (tab, window) \<Rightarrow> tab | None \<Rightarrow> -1),
      ai_window_id = (case tabs render_frame_host of Some (tab, window) \<Rightarrow> window | None \<Rightarrow> -1)\<rparr>"

definition OnAdMatched :: "(nat \<Rightarrow> (int \<times> int) option) \<Rightarrow> gurl \<Rightarrow> FilterMatchResult \<Rightarrow> gurl list \<Rightarrow> ContentType \<Rightarrow> nat \<Rightarrow> gurl \<Rightarrow>
    api_event" where
  "OnAdMatched tabs url match parent_frame_urls content_type render_frame_host sub =
     (let info = (CreateAdInfoObject tabs url sub render_frame_host)
            \<lparr>ai_parent_frame_urls := ConvertURLs parent_frame_urls, ai_content_type := ContentTypeToString content_type\<rparr>
      in if match = kBlockRule then OnAdBlocked info else OnAdAllowed info)"

definition OnPageAllowed :: "(nat \<Rightarrow> (int \<times> int) option) \<Rightarrow> gurl \<Rightarrow> nat \<Rightarrow> gurl \<Rightarrow> api_event" where
  "OnPageAllowed tabs url render_frame_host sub = Api_OnPageAllowed (CreateAdInfoObject tabs url sub render_frame_host)"

definition OnPopupMatched :: "(nat \<Rightarrow> (int \<times> int) option) \<Rightarrow> gurl \<Rightarrow> FilterMatchResult \<Rightarrow> gurl \<Rightarrow> nat \<Rightarrow> gurl \<Rightarrow> api_event" where
  "OnPopupMatched tabs url match opener_url render_frame_host sub =
     (let info = (CreateAdInfoObject tabs url sub render_frame_host)\<lparr>ai_parent_frame_urls := [spec opener_url]\<rparr>
      in if match = kBlockRule then OnPopupBlocked info else OnPopupAllowed info)"

definition Router_OnSubscriptionInstalled :: "gurl \<Rightarrow> api_event" where
  "Router_OnSubscriptionInstalled url = Api_OnSubscriptionUpdated (spec url)"

text \<open>The router is one of the observers of the runner.\<close>

fun router_events :: "(nat \<Rightarrow> (int \<times> int) option) \<Rightarrow> nat \<Rightarrow> 'k runner_effect \<Rightarrow> api_event list" where
  "router_events tabs me (AdMatched observer url match hierarchy ctype render_frame_host sub) =
     (if observer = me then [OnAdMatched tabs url match hierarchy ctype render_frame_host sub] else [])"
| "router_events tabs me (PageAllowed observer url render_frame_host sub) =
     (if observer = me then [OnPageAllowed tabs url render_frame_host sub] else [])"
| "router_events tabs me (PopupMatched observer url match opener render_frame_host sub) =
     (if observer = me then [OnPopupMatched tabs url match opener render_frame_host sub] else [])"
| "router_events tabs me (Run_callback k res) = []"
| "router_events tabs me (Run_rewrite_callback k url) = []"

text \<open>The router is made when the first listener is added.\<close>

record AdblockPrivateAPI =
  api_event_router :: bool
  api_registered :: bool

definition new_AdblockPrivateAPI :: "nat \<Rightarrow> 'k runner \<Rightarrow> AdblockPrivateAPI \<times> 'k runner" where
  "new_AdblockPrivateAPI session_stats r =
     (\<lparr>api_event_router = False, api_registered = True\<rparr>, rn_AddObserver session_stats r)"

definition OnListenerAdded :: "nat \<Rightarrow> AdblockPrivateAPI \<times> 'k runner \<times> 'm service \<Rightarrow> AdblockPrivateAPI \<times> 'k runner \<times> 'm service" where
  "OnListenerAdded router = (\<lambda>(a, r, s).
     (a\<lparr>api_event_router := True, api_registered := False\<rparr>, rn_AddObserver router r, sv_AddObserver router s))"

section \<open>Functions\<close>

datatype api_response =
    Api_error string
  | NoArguments
  | Bool_result bool
  | Strings_result "string list"
  | Subscriptions_result "js_Subscription list"
  | Built_in_result "(string \<times> string \<times> string list) list"
  | Stats_result "SessionStatsEntry list"

type_synonym api_result = "api_response \<times> controller"

definition SetEnabled_Run :: "bool \<Rightarrow> controller \<Rightarrow> api_result" where
  "SetEnabled_Run enabled s = (NoArguments, SetAdblockEnabled enabled s)"

definition IsEnabled_Run :: "controller \<Rightarrow> api_result" where
  "IsEnabled_Run s = (Bool_result (IsAdblockEnabled s), s)"

definition SetAcceptableAdsEnabled_Run :: "config_env \<Rightarrow> bool \<Rightarrow> controller \<Rightarrow> api_result" where
  "SetAcceptableAdsEnabled_Run env enabled s = (NoArguments, SetAcceptableAdsEnabled env enabled s)"

definition IsAcceptableAdsEnabled_Run :: "config_env \<Rightarrow> controller \<Rightarrow> api_result" where
  "IsAcceptableAdsEnabled_Run env s = (Bool_result (IsAcceptableAdsEnabled env s), s)"

definition GetBuiltInSubscriptions_Run :: "controller \<Rightarrow> api_result" where
  "GetBuiltInSubscriptions_Run s =
     (Built_in_result (map (\<lambda>k. (spec (ks_url k), ks_title k, ks_languages k))
        (filter (\<lambda>k. ks_ui_visibility k = Visible) (ctl_known_subscriptions s))), s)"

definition respond :: "string \<times> controller \<Rightarrow> api_result" where
  "respond = (\<lambda>(status, s). (if status \<noteq> [] then Api_error status else NoArguments, s))"

definition SelectBuiltInSubscription_Run :: "config_env \<Rightarrow> string \<Rightarrow> controller \<Rightarrow> api_result" where
  "SelectBuiltInSubscription_Run env url s = respond (RunBuiltInSubscriptionAction kSelect (ce_parse_url env url) s)"

definition UnselectBuiltInSubscription_Run :: "config_env \<Rightarrow> string \<Rightarrow> controller \<Rightarrow> api_result" where
  "UnselectBuiltInSubscription_Run env url s = respond (RunBuiltInSubscriptionAction kUnselect (ce_parse_url env url) s)"

definition AddCustomSubscription_Run :: "config_env \<Rightarrow> string \<Rightarrow> controller \<Rightarrow> api_result" where
  "AddCustomSubscription_Run env url s = respond (RunCustomSubscriptionAction kAdd (ce_parse_url env url) s)"

definition RemoveCustomSubscription_Run :: "config_env \<Rightarrow> string \<Rightarrow> controller \<Rightarrow> api_result" where
  "RemoveCustomSubscription_Run env url s = respond (RunCustomSubscriptionAction kRemove (ce_parse_url env url) s)"

definition InstallSubscription_Run :: "config_env \<Rightarrow> string \<Rightarrow> controller \<Rightarrow> api_result" where
  "InstallSubscription_Run env url s = respond (RunSubscriptionAction kInstall (ce_parse_url env url) s)"

definition UninstallSubscription_Run :: "config_env \<Rightarrow> string \<Rightarrow> controller \<Rightarrow> api_result" where
  "UninstallSubscription_Run env url s = respond (RunSubscriptionAction kUninstall (ce_parse_url env url) s)"

definition GetInstalledSubscriptions_Run ::
  "maintainer_env \<Rightarrow> (int \<Rightarrow> string) \<Rightarrow> listed_subscription list \<Rightarrow> controller \<Rightarrow> api_result" where
  "GetInstalledSubscriptions_Run env TimeToISO8601 installed s = (Subscriptions_result (CopySubscriptions env TimeToISO8601 installed), s)"

definition GetSelectedBuiltInSubscriptions_Run ::
  "maintainer_env \<Rightarrow> (int \<Rightarrow> string) \<Rightarrow> listed_subscription list \<Rightarrow> controller \<Rightarrow> api_result" where
  "GetSelectedBuiltInSubscriptions_Run env TimeToISO8601 installed s =
     (Subscriptions_result (CopySubscriptions env TimeToISO8601
        (GetSelectedBuiltInSubscriptions (listed_url env) installed s)), s)"

definition GetCustomSubscriptions_Run ::
  "maintainer_env \<Rightarrow> (int \<Rightarrow> string) \<Rightarrow> listed_subscription list \<Rightarrow> controller \<Rightarrow> api_result" where
  "GetCustomSubscriptions_Run env TimeToISO8601 installed s =
     (Subscriptions_result (CopySubscriptions env TimeToISO8601 (GetCustomSubscriptions (listed_url env) installed s)), s)"

definition AddAllowedDomain_Run :: "string \<Rightarrow> controller \<Rightarrow> api_result" where
  "AddAllowedDomain_Run domain s = (NoArguments, ctl_AddAllowedDomain domain s)"

definition RemoveAllowedDomain_Run :: "string \<Rightarrow> controller \<Rightarrow> api_result" where
  "RemoveAllowedDomain_Run domain s = (NoArguments, ctl_RemoveAllowedDomain domain s)"

definition GetAllowedDomains_Run :: "controller \<Rightarrow> api_result" where
  "GetAllowedDomains_Run s = (Strings_result (ctl_GetAllowedDomains s), s)"

definition AddCustomFilter_Run :: "string \<Rightarrow> controller \<Rightarrow> api_result" where
  "AddCustomFilter_Run f s = (NoArguments, ctl_AddCustomFilter f s)"

definition RemoveCustomFilter_Run :: "string \<Rightarrow> controller \<Rightarrow> api_result" where
  "RemoveCustomFilter_Run f s = (NoArguments, ctl_RemoveCustomFilter f s)"

definition GetCustomFilters_Run :: "controller \<Rightarrow> api_result" where
  "GetCustomFilters_Run s = (Strings_result (ctl_GetCustomFilters s), s)"

definition GetSessionAllowedAdsCount_Run :: "SessionStats \<Rightarrow> controller \<Rightarrow> api_result" where
  "GetSessionAllowedAdsCount_Run stats s = (Stats_result (CopySessionsStats (allowed_map stats)), s)"

definition GetSessionBlockedAdsCount_Run :: "SessionStats \<Rightarrow> controller \<Rightarrow> api_result" where
  "GetSessionBlockedAdsCount_Run stats s = (Stats_result (CopySessionsStats (blocked_map stats)), s)"

section \<open>The profile\<close>

text \<open>\<open>BuildServiceInstanceFor\<close>: the "adblock" configuration is read, changed by the switches of the command line, the first
  run and the migration, and then installed; the arguments are the contents of the preferences.\<close>

record command_line =
  cl_disable_acceptable_ads :: bool
  cl_disable_adblock :: bool

definition configuration_of_profile :: "config_env \<Rightarrow> command_line \<Rightarrow> dict \<Rightarrow> FilteringConfiguration \<times> dict" where
  "configuration_of_profile env cl prefs =
     (let c = new_FilteringConfiguration prefs ''adblock'';
          (c, prefs) = (if cl_disable_acceptable_ads cl
                        then (let (c, prefs, ns) = RemoveFilterList (AcceptableAdsUrl env) c prefs in (c, prefs)) else (c, prefs))
      in if cl_disable_adblock cl then (let (c, prefs, ns) = SetEnabled False c prefs in (c, prefs)) else (c, prefs))"

definition controller_of_profile :: "config_env \<Rightarrow> command_line \<Rightarrow> dict \<Rightarrow> dict \<Rightarrow> string \<Rightarrow> controller" where
  "controller_of_profile env cl prefs user_prefs base_language =
     (let (c, prefs) = configuration_of_profile env cl prefs;
          s = new_AdblockController c prefs user_prefs base_language (GetKnownSubscriptions env);
          s = RunFirstRunLogic env (cl_disable_acceptable_ads cl) s
      in MigrateLegacyPrefs env s)"

definition service_of_profile :: "'m maintainer_ops \<Rightarrow> directories \<Rightarrow> nat \<Rightarrow> controller \<Rightarrow> 'm service" where
  "service_of_profile ops directories address s =
     InstallFilteringConfiguration ops address (ctl_config s) (new_SubscriptionService (ctl_configuration_prefs s) directories)"

end
