(* ===== verification/Loader_Facts.thy ===== *)
theory Loader_Facts
  imports Url_Loader "HOL-Library.Multiset"
begin

text \<open>
  What waits: for every request of the proxy, how many answers are pending. A request that was not sent to the
  network yet has exactly one pending check, a response that is held back exactly one pending answer.
\<close>

section \<open>Pending answers\<close>

fun task_conts :: "continuation runner_task \<Rightarrow> continuation list" where
  "task_conts (Request_task k snapshot url hierarchy ctype key frm) = [k]"
| "task_conts (Response_task k snapshot url hierarchy ctype resp frm) = [k]"
| "task_conts (Rewrite_task k snapshot url hierarchy) = [k]"
| "task_conts (Document_task snapshot url frm) = []"

fun ui_cont :: "ui_task \<Rightarrow> continuation" where
  "ui_cont (Ui_rewrite k url) = k"
| "ui_cont (Ui_match k res) = k"
| "ui_cont (Ui_headers k res changed) = k"

definition pend :: "loader_factory \<Rightarrow> continuation multiset" where
  "pend f = mset (concat (map task_conts (rn_tasks (lf_runner f)))) + mset (map ui_cont (lf_ui_tasks f)) +
     mset (map ct_continuation (lf_csp_tasks f)) + mset (map fst (lf_parse_tasks f))"

fun is_opening :: "nat \<Rightarrow> continuation \<Rightarrow> bool" where
  "is_opening i (Start_cont j request) \<longleftrightarrow> j = i"
| "is_opening i (Request_cont j request) \<longleftrightarrow> j = i"
| "is_opening i k \<longleftrightarrow> False"

fun is_headers :: "nat \<Rightarrow> continuation \<Rightarrow> bool" where
  "is_headers i (Headers_cont j head) \<longleftrightarrow> j = i"
| "is_headers i k \<longleftrightarrow> False"

fun cont_attrs_ok :: "nat \<Rightarrow> in_progress_request \<Rightarrow> continuation \<Rightarrow> bool" where
  "cont_attrs_ok i ip (Start_cont j request) \<longleftrightarrow> j = i \<longrightarrow>
     ip_request_url ip = rr_url request \<and> ip_is_document_request ip = IsDocumentRequest request \<and>
     ip_resource_type ip = ToAdblockResourceType request"
| "cont_attrs_ok i ip (Request_cont j request) \<longleftrightarrow> j = i \<longrightarrow>
     ip_request_url ip = rr_url request \<and> ip_is_document_request ip = IsDocumentRequest request \<and>
     ip_resource_type ip = ToAdblockResourceType request"
| "cont_attrs_ok i ip k \<longleftrightarrow> True"

definition is_opened :: "in_progress_request \<Rightarrow> bool" where
  "is_opened ip \<longleftrightarrow> ip_with_network ip \<or> \<not> ip_loader_bound ip"

definition openings :: "continuation multiset \<Rightarrow> nat \<Rightarrow> nat" where
  "openings M i = size (filter_mset (is_opening i) M)"

definition held_back :: "continuation multiset \<Rightarrow> nat \<Rightarrow> nat" where
  "held_back M i = size (filter_mset (is_headers i) M)"

lemma openings_add [simp]: "openings (add_mset k M) i = openings M i + of_bool (is_opening i k)"
  by (simp add: openings_def)

lemma held_back_add [simp]: "held_back (add_mset k M) i = held_back M i + of_bool (is_headers i k)"
  by (simp add: held_back_def)

lemma no_openings: "(\<And>k. k \<in># M \<Longrightarrow> \<not> is_opening i k) \<Longrightarrow> openings M i = 0"
  by (simp add: openings_def)

lemma no_held_back: "(\<And>k. k \<in># M \<Longrightarrow> \<not> is_headers i k) \<Longrightarrow> held_back M i = 0"
  by (simp add: held_back_def)

lemma openings_0D: "openings M i = 0 \<Longrightarrow> k \<in># M \<Longrightarrow> \<not> is_opening i k"
  by (auto simp: openings_def)

definition request_ok :: "continuation multiset \<Rightarrow> bool \<Rightarrow> nat \<Rightarrow> in_progress_request \<Rightarrow> bool" where
  "request_ok M target i ip \<longleftrightarrow>
     openings M i + of_bool (is_opened ip) \<le> 1 \<and>
     (target \<longrightarrow> openings M i + of_bool (is_opened ip) = 1) \<and>
     held_back M i = of_bool (ip_client_paused ip) \<and>
     (\<forall>k\<in>#M. cont_attrs_ok i ip k)"

definition requests_ok :: "continuation multiset \<Rightarrow> (nat \<times> in_progress_request) list \<Rightarrow> nat \<Rightarrow> bool \<Rightarrow> bool" where
  "requests_ok M rs n target \<longleftrightarrow>
     (\<forall>i ip. map_of rs i = Some ip \<longrightarrow> i < n \<and> request_ok M target i ip) \<and> (\<forall>k\<in>#M. continuation_request k < n)"

lemma requests_okD:
  "requests_ok M rs n target \<Longrightarrow> map_of rs i = Some ip \<Longrightarrow> i < n \<and> request_ok M target i ip"
  by (simp add: requests_ok_def)

lemma other_request: "continuation_request k \<noteq> i \<Longrightarrow> \<not> is_opening i k \<and> \<not> is_headers i k \<and> cont_attrs_ok i ip k"
  by (cases k) auto

lemma request_ok_other:
  "continuation_request k \<noteq> i \<Longrightarrow> request_ok (add_mset k M) target i ip = request_ok M target i ip"
  using other_request [of k i ip] by (auto simp: request_ok_def)

subsection \<open>What happens to the answers\<close>

lemma requests_ok_dead:
  assumes "requests_ok (add_mset k M) rs n target" "map_of rs (continuation_request k) = None"
  shows "requests_ok M rs n target"
  unfolding requests_ok_def
proof (intro conjI allI impI ballI)
  fix i ip assume i: "map_of rs i = Some ip"
  then have "continuation_request k \<noteq> i" using assms(2) by auto
  then show "i < n" "request_ok M target i ip"
    using requests_okD [OF assms(1) i] by (simp_all add: request_ok_other)
qed (use assms(1) in \<open>simp add: requests_ok_def\<close>)

lemma requests_ok_delete:
  assumes "requests_ok M rs n target"
  shows "requests_ok M (AList.delete i rs) n target"
  using assms by (auto simp: requests_ok_def delete_conv)

lemma requests_ok_answered:
  assumes "requests_ok (add_mset k M) rs n target"
  shows "requests_ok M (AList.delete (continuation_request k) rs) n target"
  by (rule requests_ok_dead [OF requests_ok_delete [OF assms]]) (simp add: delete_conv)

text \<open>An answer that is replaced by another one for the same request.\<close>

lemma requests_ok_replace:
  assumes "requests_ok (add_mset k M) rs n target" "continuation_request k' = continuation_request k"
    "is_opening (continuation_request k) k' = is_opening (continuation_request k) k"
    "is_headers (continuation_request k) k' = is_headers (continuation_request k) k"
    "\<And>ip. cont_attrs_ok (continuation_request k) ip k \<Longrightarrow> cont_attrs_ok (continuation_request k) ip k'"
  shows "requests_ok (add_mset k' M) rs n target"
  unfolding requests_ok_def
proof (intro conjI allI impI ballI)
  fix i ip assume i: "map_of rs i = Some ip"
  have ok: "i < n" "request_ok (add_mset k M) target i ip" using requests_okD [OF assms(1) i] by simp_all
  then show "i < n" by simp
  show "request_ok (add_mset k' M) target i ip"
  proof (cases "continuation_request k = i")
    case True
    then show ?thesis using ok(2) assms(3-5) by (simp only: request_ok_def openings_add held_back_add) auto
  next
    case False
    then show ?thesis using ok(2) assms(2) by (simp add: request_ok_other)
  qed
next
  fix l assume "l \<in># add_mset k' M"
  then show "continuation_request l < n" using assms(1,2) by (auto simp: requests_ok_def)
qed

text \<open>An answer that is used up, with a change of its request.\<close>

lemma requests_ok_use:
  assumes "requests_ok (add_mset k M) rs n target" "continuation_request k = i"
    "request_ok M target i ip'" "map_of rs i = Some ip"
  shows "requests_ok M (AList.update i ip' rs) n target"
  unfolding requests_ok_def
proof (intro conjI allI impI ballI)
  fix j jp assume j: "map_of (AList.update i ip' rs) j = Some jp"
  show "j < n" using j assms(4) requests_okD [OF assms(1)] by (auto simp: update_conv split: if_splits)
  show "request_ok M target j jp"
  proof (cases "j = i")
    case True
    then show ?thesis using j assms(3) by (simp add: update_conv)
  next
    case False
    then have "request_ok (add_mset k M) target j jp" using j requests_okD [OF assms(1)] by (simp add: update_conv)
    then show ?thesis using False assms(2) by (simp add: request_ok_other)
  qed
qed (use assms(1) in \<open>simp add: requests_ok_def\<close>)

lemma requests_ok_same:
  assumes "requests_ok M rs n target" "map_of rs i = Some ip"
  shows "requests_ok M (AList.update i ip rs) n target"
  using assms by (simp add: requests_ok_def update_conv)

lemma requests_ok_opened:
  assumes "requests_ok (add_mset k M) rs n target" "is_opening i k" "map_of rs i = Some ip" "is_opened ip'"
    "ip_request_url ip' = ip_request_url ip" "ip_is_document_request ip' = ip_is_document_request ip"
    "ip_resource_type ip' = ip_resource_type ip" "ip_client_paused ip' = ip_client_paused ip"
  shows "requests_ok M (AList.update i ip' rs) n target"
proof (rule requests_ok_use [OF assms(1) _ _ assms(3)])
  show "continuation_request k = i" using assms(2) by (cases k) simp_all
  have ok: "request_ok (add_mset k M) target i ip" using requests_okD [OF assms(1,3)] by simp
  have "\<not> is_headers i k" using assms(2) by (cases k) simp_all
  moreover have "cont_attrs_ok i ip' l = cont_attrs_ok i ip l" for l using assms(5-7) by (cases l) simp_all
  ultimately show "request_ok M target i ip'" using ok assms(2,4,8) by (simp add: request_ok_def)
qed

lemma requests_ok_lost:
  assumes "requests_ok (add_mset k M) rs n False" "is_opening i k" "map_of rs i = Some ip"
  shows "requests_ok M rs n False"
  unfolding requests_ok_def
proof (intro conjI allI impI ballI)
  fix j jp assume j: "map_of rs j = Some jp"
  have "request_ok (add_mset k M) False j jp" using requests_okD [OF assms(1) j] by simp
  moreover have "is_headers j k = False" using assms(2) by (cases k) simp_all
  ultimately show "request_ok M False j jp" by (auto simp: request_ok_def)
  show "j < n" using requests_okD [OF assms(1) j] by simp
qed (use assms(1) in \<open>simp add: requests_ok_def\<close>)

lemma requests_ok_target: "requests_ok M rs n target \<Longrightarrow> requests_ok M rs n False"
  by (simp add: requests_ok_def request_ok_def)

lemma requests_ok_create:
  assumes "requests_ok M rs n target" "\<not> is_opened ip" "\<not> ip_client_paused ip"
    "cont_attrs_ok n ip (Start_cont n request)"
  shows "requests_ok (add_mset (Start_cont n request) M) ((n, ip) # rs) (Suc n) target"
  unfolding requests_ok_def
proof (intro conjI allI impI ballI)
  have old: "continuation_request k < n" if "k \<in># M" for k using assms(1) that by (simp add: requests_ok_def)
  have none: "\<not> is_opening n k \<and> \<not> is_headers n k \<and> cont_attrs_ok n ip k" if "k \<in># M" for k
    using old [OF that] other_request [of k n] by blast
  fix j jp assume j: "map_of ((n, ip) # rs) j = Some jp"
  show "j < Suc n" using j requests_okD [OF assms(1)] by (auto split: if_splits simp: less_SucI)
  show "request_ok (add_mset (Start_cont n request) M) target j jp"
  proof (cases "j = n")
    case True
    have "openings M n = 0" "held_back M n = 0" using none by (simp_all add: no_openings no_held_back)
    then show ?thesis using True j assms(2-4) none by (simp add: request_ok_def)
  next
    case False
    then have "request_ok M target j jp" using j requests_okD [OF assms(1)] by simp
    then show ?thesis using False by (simp add: request_ok_other)
  qed
next
  fix k assume "k \<in># add_mset (Start_cont n request) M"
  then show "continuation_request k < Suc n" using assms(1) by (auto simp: requests_ok_def less_SucI)
qed

lemma requests_ok_redirect:
  assumes "requests_ok M rs n target" "map_of rs i = Some ip" "ip_with_network ip"
  shows "requests_ok (add_mset (Redirect_cont i u) M) (AList.update i (ip\<lparr>ip_request_url := u\<rparr>) rs) n target"
proof -
  have ok: "i < n" "request_ok M target i ip" using requests_okD [OF assms(1,2)] by simp_all
  have "openings M i = 0" using ok(2) assms(3) by (auto simp: request_ok_def is_opened_def)
  then have "\<not> is_opening i k" if "k \<in># M" for k using that by (blast dest: openings_0D)
  then have "cont_attrs_ok i (ip\<lparr>ip_request_url := u\<rparr>) k" if "k \<in># M" for k using that by (cases k) fastforce+
  then have new: "request_ok (add_mset (Redirect_cont i u) M) target i (ip\<lparr>ip_request_url := u\<rparr>)"
    using ok(2) by (simp add: request_ok_def is_opened_def)
  show ?thesis
    unfolding requests_ok_def
  proof (intro conjI allI impI ballI)
    fix j jp assume j: "map_of (AList.update i (ip\<lparr>ip_request_url := u\<rparr>) rs) j = Some jp"
    show "j < n" using j ok(1) requests_okD [OF assms(1)] by (auto simp: update_conv split: if_splits)
    show "request_ok (add_mset (Redirect_cont i u) M) target j jp"
      using j new requests_okD [OF assms(1), of j jp] by (auto simp: update_conv request_ok_other split: if_splits)
  next
    fix k assume "k \<in># add_mset (Redirect_cont i u) M"
    then show "continuation_request k < n" using assms(1) ok(1) by (auto simp: requests_ok_def)
  qed
qed

lemma requests_ok_redirected:
  assumes "requests_ok (add_mset (Redirect_cont i u) M) rs n target"
  shows "requests_ok M rs n target"
  using assms by (simp add: requests_ok_def request_ok_def)

lemma requests_ok_response:
  assumes "requests_ok M rs n target" "map_of rs i = Some ip" "\<not> ip_client_paused ip"
  shows "requests_ok (add_mset (Headers_cont i head) M) (AList.update i (ip\<lparr>ip_client_paused := True\<rparr>) rs) n target"
proof -
  have ok: "i < n" "request_ok M target i ip" using requests_okD [OF assms(1,2)] by simp_all
  have "cont_attrs_ok i (ip\<lparr>ip_client_paused := True\<rparr>) k = cont_attrs_ok i ip k" for k by (cases k) simp_all
  then have new: "request_ok (add_mset (Headers_cont i head) M) target i (ip\<lparr>ip_client_paused := True\<rparr>)"
    using ok(2) assms(3) by (simp add: request_ok_def is_opened_def)
  show ?thesis
    unfolding requests_ok_def
  proof (intro conjI allI impI ballI)
    fix j jp assume j: "map_of (AList.update i (ip\<lparr>ip_client_paused := True\<rparr>) rs) j = Some jp"
    show "j < n" using j ok(1) requests_okD [OF assms(1)] by (auto simp: update_conv split: if_splits)
    show "request_ok (add_mset (Headers_cont i head) M) target j jp"
      using j new requests_okD [OF assms(1), of j jp] by (auto simp: update_conv request_ok_other split: if_splits)
  next
    fix k assume "k \<in># add_mset (Headers_cont i head) M"
    then show "continuation_request k < n" using assms(1) ok(1) by (auto simp: requests_ok_def)
  qed
qed

lemma requests_ok_resumed:
  assumes "requests_ok (add_mset (Headers_cont i head) M) rs n target" "map_of rs i = Some ip"
  shows "requests_ok M (AList.update i (ip\<lparr>ip_client_paused := False\<rparr>) rs) n target"
proof (rule requests_ok_use [OF assms(1) _ _ assms(2)])
  have ok: "request_ok (add_mset (Headers_cont i head) M) target i ip" using requests_okD [OF assms] by simp
  have "cont_attrs_ok i (ip\<lparr>ip_client_paused := False\<rparr>) k = cont_attrs_ok i ip k" for k by (cases k) simp_all
  then show "request_ok M target i (ip\<lparr>ip_client_paused := False\<rparr>)"
    using ok by (cases "ip_client_paused ip") (simp_all add: request_ok_def is_opened_def)
qed simp

end
