(* ===== verification/Loader_Safety.thy ===== *)
theory Loader_Safety
  imports Loader_Facts
begin

text \<open>
  What the proxy lets through, over any sequence of events: with the list of the states so far, every request,
  redirect and response that is passed on was judged in one of them, and was not blocked there.
\<close>

section \<open>What was judged\<close>

definition frame_of :: "loader_factory \<Rightarrow> frame_urls option" where
  "frame_of f = FindRenderFrameHost (lf_frames f) (lf_host f)"

definition frames_above :: "loader_env \<Rightarrow> frame_urls \<Rightarrow> gurl list" where
  "frames_above env frame = BuildFrameHierarchy (le_page env) frame"

definition key_of :: "loader_env \<Rightarrow> loader_factory \<Rightarrow> frame_urls \<Rightarrow> string" where
  "key_of env f frame =
     (case FindSiteKeyForAnyUrl (frames_above env frame) (lf_sitekeys f) of Some (_, key) \<Rightarrow> key | None \<Rightarrow> [])"

fun cont_url :: "continuation \<Rightarrow> gurl option" where
  "cont_url (Request_cont i request) = Some (rr_url request)"
| "cont_url (Redirect_cont i new_url) = Some new_url"
| "cont_url k = None"

text \<open>In some state so far the request was checked: its frame was gone, it is a main document, or the classifier
  did not block it with the lists, frames and site key of that state.\<close>

definition passes_request :: "loader_env \<Rightarrow> loader_factory list \<Rightarrow> continuation \<Rightarrow> bool" where
  "passes_request env hist k \<longleftrightarrow>
     (\<exists>t\<in>set hist. \<exists>ip. map_of (lf_requests t) (continuation_request k) = Some ip \<and> cont_url k = Some (ip_request_url ip) \<and>
        cont_attrs_ok (continuation_request k) ip k \<and>
        (case frame_of t of
           None \<Rightarrow> True
         | Some frame \<Rightarrow> ip_is_document_request ip \<or>
             decision (ClassifyRequest (le_net env) (lf_snapshot t) (ip_request_url ip) (frames_above env frame)
               (ip_resource_type ip) (key_of env t frame)) \<noteq> Blocked))"

definition passes_response :: "loader_env \<Rightarrow> loader_factory list \<Rightarrow> nat \<Rightarrow> (string \<times> string) list \<Rightarrow> bool" where
  "passes_response env hist i head \<longleftrightarrow>
     (\<exists>t\<in>set hist. \<exists>ip. map_of (lf_requests t) i = Some ip \<and>
        (is_exempt env (ip_request_url ip) \<or>
         (case frame_of t of
            None \<Rightarrow> True
          | Some frame \<Rightarrow>
              (\<exists>r. ClassifyResponse (le_net env) (lf_snapshot t) (ip_request_url ip) (frames_above env frame)
                 (ip_resource_type ip) (le_response_headers env head) = Some r \<and> decision r \<noteq> Blocked))))"

text \<open>The headers that arrived, or those with the policies that the lists of some state ask for.\<close>

definition delivered_head :: "loader_env \<Rightarrow> loader_factory list \<Rightarrow> nat \<Rightarrow> (string \<times> string) list \<Rightarrow> (string \<times> string) list \<Rightarrow> bool"
where
  "delivered_head env hist i head header_lines \<longleftrightarrow> header_lines = head \<or>
     (\<exists>t\<in>set hist. \<exists>ip frame. map_of (lf_requests t) i = Some ip \<and> frame_of t = Some frame \<and>
        header_lines = add_csp_headers
          (snapshot_csp_injections (le_net env) (lf_snapshot t) (ip_request_url ip) (frames_above env frame)) head)"

definition rewritten_to :: "loader_env \<Rightarrow> loader_factory list \<Rightarrow> nat \<Rightarrow> gurl \<Rightarrow> bool" where
  "rewritten_to env hist i new_url \<longleftrightarrow>
     (\<exists>t\<in>set hist. \<exists>ip frame. map_of (lf_requests t) i = Some ip \<and> frame_of t = Some frame \<and>
        HasRewriteHelper (le_net env) (lf_snapshot t) (ip_request_url ip) (frames_above env frame) = Some new_url)"

fun effect_ok :: "loader_env \<Rightarrow> loader_factory list \<Rightarrow> loader_effect \<Rightarrow> bool" where
  "effect_ok env hist (Forward_request i request) \<longleftrightarrow>
     is_exempt env (rr_url request) \<or> passes_request env hist (Request_cont i request)"
| "effect_ok env hist (Forward_redirect i new_url) \<longleftrightarrow>
     rewritten_to env hist i new_url \<or> passes_request env hist (Redirect_cont i new_url)"
| "effect_ok env hist (Forward_response i header_lines) \<longleftrightarrow>
     (\<exists>head. passes_response env hist i head \<and> delivered_head env hist i head header_lines)"
| "effect_ok env hist e \<longleftrightarrow> True"

section \<open>What waits is justified\<close>

fun task_ok :: "loader_env \<Rightarrow> loader_factory list \<Rightarrow> continuation runner_task \<Rightarrow> bool" where
  "task_ok env hist (Request_task k snapshot url hierarchy ctype key frm) \<longleftrightarrow>
     (\<exists>t\<in>set hist. \<exists>ip frame. map_of (lf_requests t) (continuation_request k) = Some ip \<and> cont_url k = Some (ip_request_url ip) \<and>
        cont_attrs_ok (continuation_request k) ip k \<and> frame_of t = Some frame \<and> snapshot = lf_snapshot t \<and> url = ip_request_url ip \<and>
        hierarchy = frames_above env frame \<and> ctype = ip_resource_type ip \<and> key = key_of env t frame)"
| "task_ok env hist (Response_task k snapshot url hierarchy ctype resp frm) \<longleftrightarrow>
     (\<exists>i head. k = Headers_cont i head \<and> (\<exists>t\<in>set hist. \<exists>ip frame. map_of (lf_requests t) i = Some ip \<and> frame_of t = Some frame \<and>
        snapshot = lf_snapshot t \<and> url = ip_request_url ip \<and> hierarchy = frames_above env frame \<and>
        ctype = ip_resource_type ip \<and> resp = le_response_headers env head))"
| "task_ok env hist (Rewrite_task k snapshot url hierarchy) \<longleftrightarrow>
     (\<exists>i request. k = Start_cont i request \<and> (\<exists>t\<in>set hist. \<exists>ip frame. map_of (lf_requests t) i = Some ip \<and>
        frame_of t = Some frame \<and> snapshot = lf_snapshot t \<and> url = ip_request_url ip \<and> hierarchy = frames_above env frame))"
| "task_ok env hist (Document_task snapshot url frm) \<longleftrightarrow> True"

fun ui_ok :: "loader_env \<Rightarrow> loader_factory list \<Rightarrow> ui_task \<Rightarrow> bool" where
  "ui_ok env hist (Ui_rewrite k new_url) \<longleftrightarrow>
     (\<exists>i request. k = Start_cont i request \<and> (\<forall>u. new_url = Some u \<longrightarrow> rewritten_to env hist i u))"
| "ui_ok env hist (Ui_match k res) \<longleftrightarrow> cont_url k \<noteq> None \<and> (res \<noteq> kBlockRule \<longrightarrow> passes_request env hist k)"
| "ui_ok env hist (Ui_headers k res changed) \<longleftrightarrow>
     (\<exists>i head. k = Headers_cont i head \<and> (res \<noteq> kBlockRule \<longrightarrow>
        (\<exists>arrived. passes_response env hist i arrived \<and>
           delivered_head env hist i arrived (case changed of Some h \<Rightarrow> h | None \<Rightarrow> head))))"

definition csp_ok :: "loader_env \<Rightarrow> loader_factory list \<Rightarrow> csp_task \<Rightarrow> bool" where
  "csp_ok env hist c \<longleftrightarrow>
     (\<exists>i head. ct_continuation c = Headers_cont i head \<and> passes_response env hist i head \<and>
        (\<exists>t\<in>set hist. \<exists>ip frame. map_of (lf_requests t) i = Some ip \<and> frame_of t = Some frame \<and>
           ct_snapshot c = lf_snapshot t \<and> ct_url c = ip_request_url ip \<and> ct_hierarchy c = frames_above env frame))"

definition parse_ok :: "loader_env \<Rightarrow> loader_factory list \<Rightarrow> continuation \<times> FilterMatchResult \<Rightarrow> bool" where
  "parse_ok env hist p \<longleftrightarrow>
     (\<exists>i head arrived. fst p = Headers_cont i head \<and> passes_response env hist i arrived \<and> delivered_head env hist i arrived head)"

definition justified :: "loader_env \<Rightarrow> loader_factory list \<Rightarrow> loader_factory \<Rightarrow> bool" where
  "justified env hist f \<longleftrightarrow> (\<forall>t\<in>set (rn_tasks (lf_runner f)). task_ok env hist t) \<and> (\<forall>t\<in>set (lf_ui_tasks f). ui_ok env hist t) \<and>
     (\<forall>t\<in>set (lf_csp_tasks f). csp_ok env hist t) \<and> (\<forall>t\<in>set (lf_parse_tasks f). parse_ok env hist t)"

subsection \<open>It stays justified\<close>

lemma passes_request_mono: "passes_request env hist k \<Longrightarrow> set hist \<subseteq> set hist' \<Longrightarrow> passes_request env hist' k"
  unfolding passes_request_def by blast

lemma passes_response_mono: "passes_response env hist i head \<Longrightarrow> set hist \<subseteq> set hist' \<Longrightarrow> passes_response env hist' i head"
  unfolding passes_response_def by blast

lemma delivered_head_mono: "delivered_head env hist i h l \<Longrightarrow> set hist \<subseteq> set hist' \<Longrightarrow> delivered_head env hist' i h l"
  unfolding delivered_head_def by blast

lemma rewritten_to_mono: "rewritten_to env hist i u \<Longrightarrow> set hist \<subseteq> set hist' \<Longrightarrow> rewritten_to env hist' i u"
  unfolding rewritten_to_def by blast

lemmas judged_mono = passes_request_mono passes_response_mono delivered_head_mono rewritten_to_mono

lemma effect_ok_mono: "effect_ok env hist e \<Longrightarrow> set hist \<subseteq> set hist' \<Longrightarrow> effect_ok env hist' e"
  by (cases e) (auto dest: judged_mono)

lemma task_ok_mono: "task_ok env hist t \<Longrightarrow> set hist \<subseteq> set hist' \<Longrightarrow> task_ok env hist' t"
  by (cases t) (simp_all, blast+)

lemma ui_ok_mono: "ui_ok env hist t \<Longrightarrow> set hist \<subseteq> set hist' \<Longrightarrow> ui_ok env hist' t"
  by (cases t) (auto, (blast dest: judged_mono)+)

lemma csp_ok_mono: "csp_ok env hist t \<Longrightarrow> set hist \<subseteq> set hist' \<Longrightarrow> csp_ok env hist' t"
  unfolding csp_ok_def by (blast dest: judged_mono)

lemma parse_ok_mono: "parse_ok env hist t \<Longrightarrow> set hist \<subseteq> set hist' \<Longrightarrow> parse_ok env hist' t"
  unfolding parse_ok_def by (blast dest: judged_mono)

lemma justified_mono: "justified env hist f \<Longrightarrow> set hist \<subseteq> set hist' \<Longrightarrow> justified env hist' f"
  unfolding justified_def by (meson task_ok_mono ui_ok_mono csp_ok_mono parse_ok_mono)

end
