(* ===== verification/Loader_Runs.thy ===== *)
theory Loader_Runs
  imports Loader_Safety
begin

text \<open>
  Every event of the proxy keeps the account of the pending answers and the justification of what waits, and what
  it passes on is justified by the states so far and the one it leads to.
\<close>

section \<open>Pending answers and justification of a state\<close>

definition accounted :: "loader_factory \<Rightarrow> continuation multiset \<Rightarrow> bool" where
  "accounted f M \<longleftrightarrow> requests_ok (M + pend f) (lf_requests f) (lf_next_request f) (lf_target_bound f)"

definition good :: "loader_env \<Rightarrow> loader_factory list \<Rightarrow> loader_result \<Rightarrow> bool" where
  "good env hist r \<longleftrightarrow> accounted (fst r) {#} \<and> justified env (hist @ [fst r]) (fst r) \<and>
     (\<forall>e\<in>set (snd r). effect_ok env (hist @ [fst r]) e)"

lemma pend_simps [simp]:
  "pend (f\<lparr>lf_requests := rs\<rparr>) = pend f"
  "pend (f\<lparr>lf_next_request := n\<rparr>) = pend f"
  "pend (f\<lparr>lf_target_bound := b\<rparr>) = pend f"
  "pend (f\<lparr>lf_proxies := p\<rparr>) = pend f"
  "pend (f\<lparr>lf_disconnected := d\<rparr>) = pend f"
  "pend (f\<lparr>lf_frames := fr\<rparr>) = pend f"
  "pend (f\<lparr>lf_sitekeys := sk\<rparr>) = pend f"
  "pend (f\<lparr>lf_snapshot := sn\<rparr>) = pend f"
  by (simp_all add: pend_def)

lemma justified_simps [simp]:
  "justified env hist (f\<lparr>lf_requests := rs\<rparr>) = justified env hist f"
  "justified env hist (f\<lparr>lf_next_request := n\<rparr>) = justified env hist f"
  "justified env hist (f\<lparr>lf_target_bound := b\<rparr>) = justified env hist f"
  "justified env hist (f\<lparr>lf_proxies := p\<rparr>) = justified env hist f"
  "justified env hist (f\<lparr>lf_disconnected := d\<rparr>) = justified env hist f"
  "justified env hist (f\<lparr>lf_frames := fr\<rparr>) = justified env hist f"
  "justified env hist (f\<lparr>lf_sitekeys := sk\<rparr>) = justified env hist f"
  "justified env hist (f\<lparr>lf_snapshot := sn\<rparr>) = justified env hist f"
  by (simp_all add: justified_def)

lemma post_ui_simps [simp]:
  "lf_requests (post_ui t f) = lf_requests f"
  "lf_next_request (post_ui t f) = lf_next_request f"
  "lf_target_bound (post_ui t f) = lf_target_bound f"
  "lf_frames (post_ui t f) = lf_frames f"
  "lf_host (post_ui t f) = lf_host f"
  "lf_snapshot (post_ui t f) = lf_snapshot f"
  "lf_sitekeys (post_ui t f) = lf_sitekeys f"
  "pend (post_ui t f) = add_mset (ui_cont t) (pend f)"
  "justified env hist (post_ui t f) = (justified env hist f \<and> ui_ok env hist t)"
  by (auto simp: post_ui_def pend_def justified_def)

lemma frame_of_simps [simp]:
  "frame_of (f\<lparr>lf_requests := rs\<rparr>) = frame_of f"
  "frame_of (f\<lparr>lf_next_request := n\<rparr>) = frame_of f"
  "frame_of (f\<lparr>lf_runner := rn\<rparr>) = frame_of f"
  "frame_of (f\<lparr>lf_sitekeys := sk\<rparr>) = frame_of f"
  "frame_of (f\<lparr>lf_csp_tasks := ct\<rparr>) = frame_of f"
  "frame_of (post_ui t f) = frame_of f"
  by (simp_all add: frame_of_def)

lemma key_of_simps [simp]:
  "key_of env (f\<lparr>lf_runner := rn\<rparr>) frame = key_of env f frame"
  "key_of env (post_ui t f) frame = key_of env f frame"
  by (simp_all add: key_of_def)

lemma post_runner_simps [simp]:
  "pend (f\<lparr>lf_runner := post_task t (lf_runner f)\<rparr>) = mset (task_conts t) + pend f"
  "justified env hist (f\<lparr>lf_runner := post_task t (lf_runner f)\<rparr>) = (justified env hist f \<and> task_ok env hist t)"
  by (auto simp: post_task_def pend_def justified_def)

lemma post_csp_simps [simp]:
  "pend (f\<lparr>lf_csp_tasks := lf_csp_tasks f @ [c]\<rparr>) = add_mset (ct_continuation c) (pend f)"
  "justified env hist (f\<lparr>lf_csp_tasks := lf_csp_tasks f @ [c]\<rparr>) = (justified env hist f \<and> csp_ok env hist c)"
  by (auto simp: pend_def justified_def)

lemma post_parse_simps [simp]:
  "pend (f\<lparr>lf_parse_tasks := lf_parse_tasks f @ [p]\<rparr>) = add_mset (fst p) (pend f)"
  "justified env hist (f\<lparr>lf_parse_tasks := lf_parse_tasks f @ [p]\<rparr>) = (justified env hist f \<and> parse_ok env hist p)"
  by (auto simp: pend_def justified_def)

lemma CheckHostValid_iff: "CheckHostValid f \<longleftrightarrow> frame_of f \<noteq> None"
  by (simp add: CheckHostValid_def frame_of_def)

lemma justified_more: "justified env hist f \<Longrightarrow> justified env (hist @ [g]) f"
  by (erule justified_mono) auto

section \<open>Checks\<close>

text \<open>A check that starts leaves exactly one answer to wait for.\<close>

lemma CheckFilterMatch_cases:
  obtains (gone) "frame_of f = None" "CheckFilterMatch env ip k f = (post_ui (Ui_match k kNoRule) f, [])"
  | (document) "frame_of f \<noteq> None" "ip_is_document_request ip"
      "CheckFilterMatch env ip k f = (post_ui (Ui_match k kNoRule)
         (f\<lparr>lf_runner := post_task (Document_task (lf_snapshot f) (ip_request_url ip) (lf_host f)) (lf_runner f)\<rparr>), [])"
  | (checked) frame where "frame_of f = Some frame"
      "CheckFilterMatch env ip k f =
         (f\<lparr>lf_runner := post_task (Request_task k (lf_snapshot f) (ip_request_url ip) (frames_above env frame)
            (ip_resource_type ip) (key_of env f frame) (lf_host f)) (lf_runner f)\<rparr>, [])"
proof (cases "frame_of f")
  case None
  then show ?thesis by (intro gone) (simp_all add: CheckFilterMatch_def CheckHostValid_iff)
next
  case (Some frame)
  show ?thesis
  proof (cases "ip_is_document_request ip")
    case True
    then show ?thesis using Some
      by (intro document) (simp_all add: CheckFilterMatch_def CheckHostValid_iff CheckDocumentAllowlisted_def)
  next
    case False
    then show ?thesis using Some
      by (intro checked)
        (auto simp: CheckFilterMatch_def CheckHostValid_iff frame_of_def CheckRequestFilterMatch_def
          CheckRequestFilterMatchImpl_def with_runner_def frames_above_def key_of_def Let_def)
  qed
qed

lemma CheckFilterMatch_good:
  assumes "accounted f {#k#}" "justified env hist f" "map_of (lf_requests f) (continuation_request k) = Some ip"
    "cont_url k = Some (ip_request_url ip)" "cont_attrs_ok (continuation_request k) ip k"
  shows "good env hist (CheckFilterMatch env ip k f)"
proof (cases rule: CheckFilterMatch_cases [of f env ip k])
  case gone
  let ?g = "post_ui (Ui_match k kNoRule) f"
  have "frame_of ?g = None" using gone(1) by simp
  then have "passes_request env (hist @ [?g]) k" using assms(3-5) unfolding passes_request_def by force
  then show ?thesis using assms(1,2,4) gone by (simp add: good_def accounted_def justified_more)
next
  case document
  let ?g = "fst (CheckFilterMatch env ip k f)"
  have v: "frame_of ?g \<noteq> None" "lf_requests ?g = lf_requests f" using document by simp_all
  then have "passes_request env (hist @ [?g]) k" using assms(3-5) document(2) unfolding passes_request_def by force
  then show ?thesis using assms(1,2,4) document(3)
    by (simp add: good_def accounted_def justified_more)
next
  case (checked frame)
  let ?g = "fst (CheckFilterMatch env ip k f)"
  have v: "frame_of ?g = Some frame" "lf_requests ?g = lf_requests f" "lf_snapshot ?g = lf_snapshot f"
    "key_of env ?g frame = key_of env f frame" using checked by simp_all
  have "task_ok env (hist @ [?g]) (Request_task k (lf_snapshot f) (ip_request_url ip) (frames_above env frame)
            (ip_resource_type ip) (key_of env f frame) (lf_host f))"
    using v assms(3-5) by (auto intro!: exI [of _ frame])
  then show ?thesis using assms(1,2) checked(2)
    by (simp add: good_def accounted_def justified_more)
qed

lemma Loader_ProcessResponseHeaders_good:
  assumes "accounted f {#Headers_cont i head#}" "justified env hist f" "map_of (lf_requests f) i = Some ip"
  shows "good env hist (Loader_ProcessResponseHeaders env ip (Headers_cont i head) f)"
proof (cases "frame_of f")
  case None
  let ?g = "post_ui (Ui_headers (Headers_cont i head) kNoRule None) f"
  have "frame_of ?g = None" using None by simp
  then have "passes_response env (hist @ [?g]) i head" using assms(3) unfolding passes_response_def by force
  moreover have "delivered_head env (hist @ [?g]) i head head" by (simp add: delivered_head_def)
  ultimately show ?thesis using None assms
    by (auto simp: good_def accounted_def justified_more Loader_ProcessResponseHeaders_def CheckHostValid_iff)
next
  case (Some frame)
  then have eq: "Loader_ProcessResponseHeaders env ip (Headers_cont i head) f =
      (f\<lparr>lf_runner := post_task (Response_task (Headers_cont i head) (lf_snapshot f) (ip_request_url ip) (frames_above env frame)
            (ip_resource_type ip) (le_response_headers env head) (lf_host f)) (lf_runner f)\<rparr>, [])"
    by (auto simp: Loader_ProcessResponseHeaders_def CheckHostValid_iff frame_of_def CheckResponseFilterMatch_def
      with_runner_def frames_above_def)
  then show ?thesis using Some assms by (auto simp: good_def accounted_def justified_more)
qed

lemma Loader_CheckRewriteFilterMatch_good:
  assumes "accounted f {#Start_cont i request#}" "justified env hist f" "map_of (lf_requests f) i = Some ip"
  shows "good env hist (Loader_CheckRewriteFilterMatch env ip (Start_cont i request) f)"
proof (cases "frame_of f")
  case None
  then show ?thesis using assms
    by (auto simp: good_def accounted_def justified_more Loader_CheckRewriteFilterMatch_def CheckHostValid_iff)
next
  case (Some frame)
  then have eq: "Loader_CheckRewriteFilterMatch env ip (Start_cont i request) f =
      (f\<lparr>lf_runner := post_task (Rewrite_task (Start_cont i request) (lf_snapshot f) (ip_request_url ip)
          (frames_above env frame)) (lf_runner f)\<rparr>, [])"
    by (auto simp: Loader_CheckRewriteFilterMatch_def CheckHostValid_iff frame_of_def CheckRewriteFilterMatch_def
      with_runner_def frames_above_def)
  then show ?thesis using Some assms by (auto simp: good_def accounted_def justified_more)
qed

section \<open>The end of a request\<close>

lemma MaybeDestroySelf_good:
  assumes "accounted f {#}" "justified env hist f"
  shows "good env hist (MaybeDestroySelf f)"
  using assms by (auto simp: MaybeDestroySelf_def good_def accounted_def justified_more)

lemma RemoveRequest_good:
  assumes "accounted f {#}" "justified env hist f"
  shows "good env hist (RemoveRequest i f)"
  unfolding RemoveRequest_def
  by (rule MaybeDestroySelf_good) (use assms in \<open>auto simp: accounted_def intro: requests_ok_delete\<close>)

lemma RemoveRequest_answered_good:
  assumes "accounted f {#k#}" "justified env hist f" "continuation_request k = i"
  shows "good env hist (RemoveRequest i f)"
  unfolding RemoveRequest_def
  by (rule MaybeDestroySelf_good) (use assms requests_ok_answered [of k] in \<open>auto simp: accounted_def\<close>)

lemma OnRequestError_of_RemoveRequest:
  "good env hist (RemoveRequest i f) \<Longrightarrow> good env hist (OnRequestError i blocked f)"
  by (cases "RemoveRequest i f") (auto simp: OnRequestError_def good_def)

lemma unchanged_good:
  assumes "accounted f {#}" "justified env hist f"
  shows "good env hist (f, [])"
  using assms by (simp add: good_def justified_more)

lemma dropped_good:
  assumes "accounted f {#k#}" "justified env hist f" "map_of (lf_requests f) (continuation_request k) = None"
  shows "good env hist (f, [])"
  using assms requests_ok_dead [of k "pend f"] by (intro unchanged_good) (auto simp: accounted_def)

section \<open>Answers\<close>

lemma attrs_of:
  assumes "accounted f {#k#}" "map_of (lf_requests f) i = Some ip"
  shows "cont_attrs_ok i ip k"
  using assms requests_okD [of _ "lf_requests f" "lf_next_request f"] by (auto simp: accounted_def request_ok_def)

lemma forward_request_good:
  assumes "accounted f {#k#}" "justified env hist f" "is_opening i k" "map_of (lf_requests f) i = Some ip"
    "effect_ok env hist (Forward_request i request)"
  shows "good env hist (forward_request i ip request f)"
proof -
  have "requests_ok (pend f) (AList.update i (ip\<lparr>ip_with_network := True\<rparr>) (lf_requests f)) (lf_next_request f)
      (lf_target_bound f)"
    by (rule requests_ok_opened [of k _ _ _ _ i ip]) (use assms in \<open>simp_all add: accounted_def is_opened_def\<close>)
  moreover have "effect_ok env (hist @ [g]) (Forward_request i request)" for g by (rule effect_ok_mono [OF assms(5)]) auto
  ultimately show ?thesis using assms(2)
    by (simp add: good_def accounted_def forward_request_def justified_more del: effect_ok.simps)
qed

lemma lost_good:
  assumes "accounted f {#k#}" "justified env hist f" "is_opening i k" "map_of (lf_requests f) i = Some ip"
    "\<not> lf_target_bound f"
  shows "good env hist (f, [])"
  using assms requests_ok_lost [of k "pend f" "lf_requests f" "lf_next_request f" i ip]
  by (intro unchanged_good) (simp_all add: accounted_def)

lemma Start_good:
  assumes "accounted f {#Start_cont i request#}" "justified env hist f" "map_of (lf_requests f) i = Some ip"
    "\<And>u. new_url = Some u \<Longrightarrow> rewritten_to env hist i u"
  shows "good env hist (Start env i ip request new_url f)"
proof (cases new_url)
  case (Some u)
  have "requests_ok (pend f) (AList.update i (ip\<lparr>ip_loader_bound := False\<rparr>) (lf_requests f)) (lf_next_request f)
      (lf_target_bound f)"
    by (rule requests_ok_opened [of "Start_cont i request" _ _ _ _ i ip])
      (use assms in \<open>simp_all add: accounted_def is_opened_def\<close>)
  moreover have "rewritten_to env (hist @ [g]) i u" for g using assms(4) [OF Some] by (rule rewritten_to_mono) auto
  ultimately show ?thesis using Some assms(2) by (simp add: good_def accounted_def Start_def justified_more)
next
  case None
  have attrs: "cont_attrs_ok i ip (Start_cont i request)" using attrs_of [OF assms(1,3)] .
  show ?thesis
  proof (cases "lf_target_bound f")
    case False
    then show ?thesis using None lost_good [OF assms(1,2) _ assms(3)] by (simp add: Start_def)
  next
    case target: True
    show ?thesis
    proof (cases "is_exempt env (ip_request_url ip)")
      case True
      then have "effect_ok env hist (Forward_request i request)" using attrs by simp
      then show ?thesis using None target True forward_request_good [OF assms(1,2) _ assms(3)] by (simp add: Start_def)
    next
      case False
      have "accounted f {#Request_cont i request#}"
        using assms(1) requests_ok_replace [of "Start_cont i request" "pend f" _ _ _ "Request_cont i request"]
        by (simp add: accounted_def)
      then show ?thesis using None target False attrs assms(2,3) CheckFilterMatch_good [of f "Request_cont i request"]
        by (simp add: Start_def)
    qed
  qed
qed

lemma OnRequestFilterMatchResult_good:
  assumes "accounted f {#Request_cont i request#}" "justified env hist f" "map_of (lf_requests f) i = Some ip"
    "res \<noteq> kBlockRule \<Longrightarrow> passes_request env hist (Request_cont i request)"
  shows "good env hist (OnRequestFilterMatchResult i ip request res f)"
proof (cases "lf_target_bound f")
  case False
  then show ?thesis using lost_good [OF assms(1,2) _ assms(3)] by (simp add: OnRequestFilterMatchResult_def)
next
  case True
  then show ?thesis
    using assms(4) forward_request_good [OF assms(1,2) _ assms(3)]
      OnRequestError_of_RemoveRequest [OF RemoveRequest_answered_good [OF assms(1,2)], of i]
    by (auto simp: OnRequestFilterMatchResult_def)
qed

lemma OnRedirectFilterMatchResult_good:
  assumes "accounted f {#Redirect_cont i u#}" "justified env hist f"
    "res \<noteq> kBlockRule \<Longrightarrow> passes_request env hist (Redirect_cont i u)"
  shows "good env hist (OnRedirectFilterMatchResult i u res f)"
proof -
  have "accounted f {#}" using assms(1) requests_ok_redirected [of i u "pend f"] by (simp add: accounted_def)
  then have same: "good env hist (f, [])" using assms(2) by (rule unchanged_good)
  show ?thesis
  proof (cases "lf_target_bound f \<and> res \<noteq> kBlockRule")
    case True
    then have "passes_request env (hist @ [f]) (Redirect_cont i u)"
      by (intro passes_request_mono [OF assms(3)]) auto
    then show ?thesis using True same by (simp add: OnRedirectFilterMatchResult_def good_def)
  next
    case False
    then show ?thesis
      using same OnRequestError_of_RemoveRequest [OF RemoveRequest_answered_good [OF assms(1,2)], of i]
      by (auto simp: OnRedirectFilterMatchResult_def)
  qed
qed

lemma OnProcessHeadersResult_good:
  assumes "accounted f {#Headers_cont i head#}" "justified env hist f" "map_of (lf_requests f) i = Some ip"
    "ui_ok env hist (Ui_headers (Headers_cont i head) res changed)"
  shows "good env hist (OnProcessHeadersResult i ip head res changed f)"
proof (cases "res = kBlockRule")
  case True
  then show ?thesis using OnRequestError_of_RemoveRequest [OF RemoveRequest_answered_good [OF assms(1,2)], of i]
    by (simp add: OnProcessHeadersResult_def)
next
  case False
  let ?h = "case changed of Some h \<Rightarrow> h | None \<Rightarrow> head"
  have "effect_ok env hist (Forward_response i ?h)" using assms(4) False by auto
  then have "effect_ok env (hist @ [g]) (Forward_response i ?h)" for g by (rule effect_ok_mono) auto
  moreover have "requests_ok (pend f) (AList.update i (ip\<lparr>ip_client_paused := False\<rparr>) (lf_requests f)) (lf_next_request f)
      (lf_target_bound f)"
    using assms(1,3) by (intro requests_ok_resumed) (simp_all add: accounted_def)
  ultimately show ?thesis using False assms(2)
    by (simp add: good_def accounted_def OnProcessHeadersResult_def justified_more)
qed

lemma run_ui_task_good:
  assumes "accounted f {#ui_cont t#}" "justified env hist f" "ui_ok env hist t"
  shows "good env hist (run_ui_task env t f)"
proof (cases "map_of (lf_requests f) (continuation_request (ui_cont t))")
  case None
  then show ?thesis using dropped_good [OF assms(1,2)] by (cases t) (simp_all add: run_ui_task_def)
next
  case (Some ip)
  show ?thesis
  proof (cases t)
    case (Ui_rewrite k u)
    then obtain i request where k: "k = Start_cont i request" using assms(3) by auto
    then show ?thesis using Ui_rewrite Some assms Start_good [of f i request env hist ip u] by (simp add: run_ui_task_def)
  next
    case (Ui_match k res)
    show ?thesis
    proof (cases k)
      case (Request_cont i request)
      then show ?thesis using Ui_match Some assms OnRequestFilterMatchResult_good [of f i request env hist ip res]
        by (simp add: run_ui_task_def)
    next
      case (Redirect_cont i u)
      then show ?thesis using Ui_match Some assms OnRedirectFilterMatchResult_good [of f i u env hist res]
        by (simp add: run_ui_task_def)
    qed (use assms(3) Ui_match in simp_all)
  next
    case (Ui_headers k res changed)
    then obtain i head where k: "k = Headers_cont i head" using assms(3) by auto
    then show ?thesis
      using Ui_headers Some assms OnProcessHeadersResult_good [of f i head env hist ip res changed]
      by (simp add: run_ui_task_def del: ui_ok.simps)
  qed
qed

section \<open>Requests, redirects and responses that arrive\<close>

lemma CreateLoaderAndStart_good:
  assumes "accounted f {#}" "justified env hist f"
  shows "good env hist (CreateLoaderAndStart env request f)"
  unfolding CreateLoaderAndStart_def Let_def
  by (rule Loader_CheckRewriteFilterMatch_good)
    (use assms in \<open>auto simp: accounted_def is_opened_def intro!: requests_ok_create\<close>)

lemma OnReceiveRedirect_good:
  assumes "accounted f {#}" "justified env hist f" "map_of (lf_requests f) i = Some ip" "ip_with_network ip"
  shows "good env hist (OnReceiveRedirect env i u f)"
proof -
  have "good env hist (CheckFilterMatch env (ip\<lparr>ip_request_url := u\<rparr>) (Redirect_cont i u)
      (f\<lparr>lf_requests := AList.update i (ip\<lparr>ip_request_url := u\<rparr>) (lf_requests f)\<rparr>))"
    by (rule CheckFilterMatch_good)
      (use assms requests_ok_redirect [of "pend f" "lf_requests f" "lf_next_request f" "lf_target_bound f" i ip u]
        in \<open>simp_all add: accounted_def update_conv\<close>)
  then show ?thesis using assms(3) by (simp add: OnReceiveRedirect_def Let_def)
qed

lemma OnReceiveResponse_good:
  assumes "accounted f {#}" "justified env hist f" "map_of (lf_requests f) i = Some ip" "\<not> ip_client_paused ip"
  shows "good env hist (OnReceiveResponse env i head f)"
proof (cases "is_exempt env (ip_request_url ip)")
  case True
  then have "passes_response env (hist @ [f]) i head" using assms(3) by (auto simp: passes_response_def)
  moreover have "delivered_head env (hist @ [f]) i head head" by (simp add: delivered_head_def)
  ultimately show ?thesis using True assms
    by (auto simp: good_def OnReceiveResponse_def justified_more)
next
  case False
  have "good env hist (Loader_ProcessResponseHeaders env (ip\<lparr>ip_client_paused := True\<rparr>) (Headers_cont i head)
      (f\<lparr>lf_requests := AList.update i (ip\<lparr>ip_client_paused := True\<rparr>) (lf_requests f)\<rparr>))"
    by (rule Loader_ProcessResponseHeaders_good)
      (use assms requests_ok_response [of "pend f" "lf_requests f" "lf_next_request f" "lf_target_bound f" i ip head]
        in \<open>simp_all add: accounted_def update_conv\<close>)
  then show ?thesis using False assms(3) by (simp add: OnReceiveResponse_def Let_def)
qed

section \<open>Checks that end\<close>

fun is_note :: "'k runner_effect \<Rightarrow> bool" where
  "is_note (Run_callback k res) \<longleftrightarrow> False"
| "is_note (Run_rewrite_callback k url) \<longleftrightarrow> False"
| "is_note e \<longleftrightarrow> True"

lemma handle_notes: "list_all is_note es \<Longrightarrow> handle_runner_effects env es f = (f, map Notify es)"
proof (induction es)
  case (Cons e es)
  then show ?case by (cases e) simp_all
qed simp

lemma handle_then_notes:
  assumes "good env hist (handle_runner_effect env e f)" "list_all is_note ns"
  shows "good env hist (handle_runner_effects env (e # ns) f)"
  using assms by (cases "handle_runner_effect env e f") (auto simp: handle_notes good_def)

lemma complete_shape:
  "\<exists>ns. OnCheckResourceFilterMatchComplete frames r url hierarchy ctype frm k res = Run_callback k (cr_status res) # ns \<and>
     list_all is_note ns"
  by (auto simp: OnCheckResourceFilterMatchComplete_def NotifyAdMatched_def list_all_iff)

lemma document_notes: "list_all is_note (ProcessDocumentAllowlistedResponse frames r url frm s)"
  by (auto simp: ProcessDocumentAllowlistedResponse_def list_all_iff split: option.splits)

lemma cr_status_block: "cr_status (match_result c) = kBlockRule \<longleftrightarrow> decision c = Blocked"
  by (cases "decision c") (simp_all add: match_result_def)

lemma hide_element_ok: "\<forall>e\<in>set (hide_element env i f). effect_ok env hist e"
  by (auto simp: hide_element_def split: option.splits)

lemma OnRequestUrlClassified_good:
  assumes "accounted f {#k#}" "justified env hist f" "ui_ok env hist (Ui_match k res)"
  shows "good env hist (OnRequestUrlClassified env k res f)"
proof -
  have "ui_ok env (hist @ [g]) (Ui_match k res)" for g by (rule ui_ok_mono [OF assms(3)]) auto
  then show ?thesis using assms(1,2) hide_element_ok
    by (auto simp: good_def accounted_def OnRequestUrlClassified_def justified_more simp del: ui_ok.simps)
qed

lemma OnResponseHeadersClassified_good:
  assumes "accounted f {#k#}" "justified env hist f" "k = Headers_cont i head"
    "res \<noteq> kBlockRule \<Longrightarrow> passes_response env hist i head" "is_alive f i"
  shows "good env hist (OnResponseHeadersClassified env k res f)"
proof -
  have passed: "passes_response env (hist @ [g]) i head" if "res \<noteq> kBlockRule" for g
    by (rule passes_response_mono [OF assms(4)]) (use that in auto)
  then have ui: "ui_ok env (hist @ [g]) (Ui_headers k res None)" for g
    using assms(3) by (auto simp: delivered_head_def)
  show ?thesis
  proof (cases "CheckHostValid f \<and> res \<noteq> kDisabled \<and> res \<noteq> kBlockRule")
    case False
    then show ?thesis using assms(1,2) ui hide_element_ok
      by (auto simp: good_def accounted_def OnResponseHeadersClassified_def justified_more simp del: ui_ok.simps)
  next
    case True
    obtain ip where ip: "map_of (lf_requests f) i = Some ip" using assms(5) by (auto simp: is_alive_def)
    obtain frame where frame: "frame_of f = Some frame" using True by (auto simp: CheckHostValid_iff)
    define h where "h = f\<lparr>lf_sitekeys := ProcessResponseHeaders (le_page env) (ip_request_url ip) head
        (le_user_agent env) (lf_sitekeys f)\<rparr>"
    define c where "c = \<lparr>ct_continuation = k, ct_result = res, ct_snapshot = lf_snapshot h, ct_url = ip_request_url ip,
        ct_hierarchy = frames_above env frame\<rparr>"
    have h: "frame_of h = Some frame" "lf_requests h = lf_requests f" "accounted h {#k#}" "justified env hist h"
      using frame assms(1,2) by (simp_all add: h_def accounted_def)
    have eq: "OnResponseHeadersClassified env k res f = (h\<lparr>lf_csp_tasks := lf_csp_tasks h @ [c]\<rparr>, [])"
      using True ip h(1) assms(3)
      by (auto simp: OnResponseHeadersClassified_def InsertContentSecurityPolicyHeadersIfApplicable_def c_def
        frames_above_def frame_of_def Let_def simp flip: h_def)
    let ?g = "h\<lparr>lf_csp_tasks := lf_csp_tasks h @ [c]\<rparr>"
    have "map_of (lf_requests ?g) i = Some ip" "frame_of ?g = Some frame" "ct_snapshot c = lf_snapshot ?g"
      using ip h by (simp_all add: c_def)
    moreover have "passes_response env (hist @ [?g]) i head" using passed True by blast
    ultimately have "csp_ok env (hist @ [?g]) c" using assms(3) by (force simp: csp_ok_def c_def)
    then show ?thesis using h(3,4) eq
      by (simp add: good_def accounted_def justified_more) (simp add: c_def)
  qed
qed

lemma handle_request_good:
  assumes "accounted f {#k#}" "justified env hist f" "cont_url k \<noteq> None" "res \<noteq> kBlockRule \<Longrightarrow> passes_request env hist k"
  shows "good env hist (handle_runner_effect env (Run_callback k res) f)"
proof (cases "is_alive f (continuation_request k)")
  case True
  then have "handle_runner_effect env (Run_callback k res) f = OnRequestUrlClassified env k res f"
    using assms(3) by (cases k) simp_all
  then show ?thesis using assms by (simp add: OnRequestUrlClassified_good)
qed (use dropped_good [OF assms(1,2)] in \<open>simp add: is_alive_def\<close>)

lemma handle_response_good:
  assumes "accounted f {#Headers_cont i head#}" "justified env hist f" "res \<noteq> kBlockRule \<Longrightarrow> passes_response env hist i head"
  shows "good env hist (handle_runner_effect env (Run_callback (Headers_cont i head) res) f)"
proof (cases "is_alive f i")
  case True
  then show ?thesis using OnResponseHeadersClassified_good [OF assms(1,2) refl assms(3)] by simp
qed (use dropped_good [OF assms(1,2)] in \<open>simp add: is_alive_def\<close>)

lemma handle_rewrite_good:
  assumes "accounted f {#Start_cont i request#}" "justified env hist f" "\<And>u. new_url = Some u \<Longrightarrow> rewritten_to env hist i u"
  shows "good env hist (handle_runner_effect env (Run_rewrite_callback (Start_cont i request) new_url) f)"
proof (cases "is_alive f i")
  case True
  have "rewritten_to env (hist @ [g]) i u" if "new_url = Some u" for g u
    using assms(3) [OF that] by (rule rewritten_to_mono) auto
  then show ?thesis using True assms(1,2) by (auto simp: good_def accounted_def justified_more)
qed (use dropped_good [OF assms(1,2)] in \<open>simp add: is_alive_def\<close>)

lemma end_task_good:
  assumes "accounted f (mset (task_conts t))" "justified env hist f" "task_ok env hist t"
    "end_task (le_net env) frames r t = Some es"
  shows "good env hist (handle_runner_effects env es f)"
proof (cases t)
  case (Request_task k snapshot url hierarchy ctype key frm)
  let ?res = "match_result (ClassifyRequest (le_net env) snapshot url hierarchy ctype key)"
  obtain ns where es: "es = Run_callback k (cr_status ?res) # ns" "list_all is_note ns"
    using complete_shape [of frames r url hierarchy ctype frm k ?res] assms(4) Request_task
    by (auto simp: CheckRequestFilterMatchInternal_def)
  have "cont_url k \<noteq> None" using assms(3) Request_task by auto
  moreover have "passes_request env hist k" if "cr_status ?res \<noteq> kBlockRule"
    using that assms(3) Request_task unfolding passes_request_def cr_status_block by force
  ultimately show ?thesis unfolding es(1)
    by (intro handle_then_notes es(2) handle_request_good) (use assms(1,2) Request_task in simp_all)
next
  case (Response_task k snapshot url hierarchy ctype resp frm)
  then obtain i head where k: "k = Headers_cont i head" using assms(3) by auto
  obtain c where c: "ClassifyResponse (le_net env) snapshot url hierarchy ctype resp = Some c"
    and e: "es = OnCheckResourceFilterMatchComplete frames r url hierarchy ctype frm k (match_result c)"
    using assms(4) Response_task by (auto simp: CheckResponseFilterMatchInternal_def)
  obtain ns where es: "es = Run_callback k (cr_status (match_result c)) # ns" "list_all is_note ns"
    using complete_shape e by metis
  have "passes_response env hist i head" if "cr_status (match_result c) \<noteq> kBlockRule"
    using that assms(3) Response_task k c unfolding passes_response_def cr_status_block by force
  then show ?thesis unfolding es(1) k
    by (intro handle_then_notes es(2) handle_response_good) (use assms(1,2) Response_task k in simp_all)
next
  case (Document_task snapshot url frm)
  then have "list_all is_note es" using assms(4) document_notes by auto
  then show ?thesis using assms(1,2) Document_task by (auto simp: handle_notes good_def justified_more)
next
  case (Rewrite_task k snapshot url hierarchy)
  then obtain i request where k: "k = Start_cont i request" using assms(3) by auto
  have es: "es = Run_rewrite_callback k (HasRewriteHelper (le_net env) snapshot url hierarchy) # []"
    using assms(4) Rewrite_task by simp
  have "rewritten_to env hist i u" if "HasRewriteHelper (le_net env) snapshot url hierarchy = Some u" for u
    using that assms(3) Rewrite_task k unfolding rewritten_to_def by force
  then show ?thesis unfolding es k
    by (intro handle_then_notes handle_rewrite_good) (use assms(1,2) Rewrite_task k in simp_all)
qed

section \<open>The injector of content security policies\<close>

lemma OnCspInjectionsSearchFinished_good:
  assumes "accounted f {#ct_continuation c#}" "justified env hist f" "csp_ok env hist c"
  shows "good env hist (OnCspInjectionsSearchFinished env c f, [])"
proof -
  obtain i head t ip frame where k: "ct_continuation c = Headers_cont i head"
    and passed: "passes_response env hist i head" and t: "t \<in> set hist" "map_of (lf_requests t) i = Some ip"
      "frame_of t = Some frame" "ct_snapshot c = lf_snapshot t" "ct_url c = ip_request_url ip"
      "ct_hierarchy c = frames_above env frame"
    using assms(3) by (auto simp: csp_ok_def)
  let ?inj = "snapshot_csp_injections (le_net env) (ct_snapshot c) (ct_url c) (ct_hierarchy c)"
  have passed': "passes_response env (hist @ [g]) i head" for g by (rule passes_response_mono [OF passed]) auto
  show ?thesis
  proof (cases "?inj = {}")
    case True
    have "ui_ok env (hist @ [g]) (Ui_headers (ct_continuation c) (ct_result c) None)" for g
      using passed' k by (auto simp: delivered_head_def)
    then show ?thesis using True assms(1,2) dropped_good [OF assms(1,2)]
      by (auto simp: OnCspInjectionsSearchFinished_def good_def accounted_def justified_more is_alive_def
        simp del: ui_ok.simps)
  next
    case False
    have "delivered_head env hist i head (add_csp_headers ?inj head)"
      unfolding delivered_head_def t(4-6) by (intro disjI2 bexI [OF _ t(1)] exI conjI, rule t(2), rule t(3), rule refl)
    then have "delivered_head env (hist @ [g]) i head (add_csp_headers ?inj head)" for g
      by (rule delivered_head_mono) auto
    then have "parse_ok env (hist @ [g]) (add_head ?inj (ct_continuation c), ct_result c)" for g
      using passed' k by (auto simp: parse_ok_def)
    moreover have "requests_ok (add_mset (add_head ?inj (ct_continuation c)) (pend f)) (lf_requests f) (lf_next_request f)
        (lf_target_bound f)"
      by (rule requests_ok_replace [of "ct_continuation c"]) (use assms(1) k in \<open>simp_all add: accounted_def\<close>)
    ultimately show ?thesis using False assms(2)
      by (simp add: OnCspInjectionsSearchFinished_def good_def accounted_def justified_more Let_def)
  qed
qed

lemma OnUpdatedHeadersParsed_good:
  assumes "accounted f {#fst p#}" "justified env hist f" "parse_ok env hist p"
  shows "good env hist (OnUpdatedHeadersParsed p f, [])"
proof -
  obtain i head arrived where p: "fst p = Headers_cont i head" "passes_response env hist i arrived"
      "delivered_head env hist i arrived head"
    using assms(3) by (auto simp: parse_ok_def)
  have "passes_response env (hist @ [g]) i arrived \<and> delivered_head env (hist @ [g]) i arrived head" for g
    using p(2,3) by (auto intro: judged_mono)
  then have "ui_ok env (hist @ [g]) (Ui_headers (fst p) (snd p) (Some head))" for g using p(1) by auto
  then show ?thesis using p(1) assms(1,2) dropped_good [OF assms(1,2)]
    by (cases p) (auto simp: OnUpdatedHeadersParsed_def good_def accounted_def justified_more is_alive_def
      simp del: ui_ok.simps)
qed

end
