(* ===== verification/Loader_Contract.thy ===== *)
theory Loader_Contract
  imports Loader_Runs
begin

text \<open>
  Runs of the proxy: what is passed on was judged, no request is forgotten, and what waits is answered after
  finitely many steps.
\<close>

section \<open>Steps and runs\<close>

lemma remove_nth_mset: "n < length xs \<Longrightarrow> mset xs = add_mset (xs ! n) (mset (remove_nth n xs))"
  unfolding remove_nth_def by (subst id_take_nth_drop [of n xs]) simp_all

lemma remove_nth_subset: "set (remove_nth n xs) \<subseteq> set xs"
  unfolding remove_nth_def by (auto dest: in_set_takeD in_set_dropD)

lemma check_taken:
  assumes "n < length (rn_tasks (lf_runner f))" "accounted f {#}" "justified env hist f"
  defines "g \<equiv> f\<lparr>lf_runner := (lf_runner f)\<lparr>rn_tasks := remove_nth n (rn_tasks (lf_runner f))\<rparr>\<rparr>"
  shows "accounted g (mset (task_conts (rn_tasks (lf_runner f) ! n)))" "justified env hist g"
    "task_ok env hist (rn_tasks (lf_runner f) ! n)"
proof -
  have "mset (concat (map task_conts (rn_tasks (lf_runner f)))) =
      mset (task_conts (rn_tasks (lf_runner f) ! n)) + mset (concat (map task_conts (remove_nth n (rn_tasks (lf_runner f)))))"
    unfolding remove_nth_def by (subst (1) id_take_nth_drop [OF assms(1)]) simp
  then show "accounted g (mset (task_conts (rn_tasks (lf_runner f) ! n)))"
    using assms(2) by (simp add: g_def accounted_def pend_def ac_simps)
  show "justified env hist g" "task_ok env hist (rn_tasks (lf_runner f) ! n)"
    using assms(1,3) remove_nth_subset [of n "rn_tasks (lf_runner f)"] by (auto simp: g_def justified_def)
qed

lemma csp_taken:
  assumes "n < length (lf_csp_tasks f)" "accounted f {#}" "justified env hist f"
  defines "g \<equiv> f\<lparr>lf_csp_tasks := remove_nth n (lf_csp_tasks f)\<rparr>"
  shows "accounted g {#ct_continuation (lf_csp_tasks f ! n)#}" "justified env hist g" "csp_ok env hist (lf_csp_tasks f ! n)"
  using assms(1-3) remove_nth_subset [of n "lf_csp_tasks f"] remove_nth_mset [OF assms(1)]
  by (auto simp: g_def justified_def accounted_def pend_def)

lemma parse_taken:
  assumes "n < length (lf_parse_tasks f)" "accounted f {#}" "justified env hist f"
  defines "g \<equiv> f\<lparr>lf_parse_tasks := remove_nth n (lf_parse_tasks f)\<rparr>"
  shows "accounted g {#fst (lf_parse_tasks f ! n)#}" "justified env hist g" "parse_ok env hist (lf_parse_tasks f ! n)"
  using assms(1-3) remove_nth_subset [of n "lf_parse_tasks f"] remove_nth_mset [OF assms(1)]
  by (auto simp: g_def justified_def accounted_def pend_def)

lemma ui_taken:
  assumes "lf_ui_tasks f = t # ts" "accounted f {#}" "justified env hist f"
  shows "accounted (f\<lparr>lf_ui_tasks := ts\<rparr>) {#ui_cont t#}" "justified env hist (f\<lparr>lf_ui_tasks := ts\<rparr>)" "ui_ok env hist t"
  using assms by (auto simp: justified_def accounted_def pend_def)

lemma loader_step_good:
  assumes "loader_step env e f = Some r" "accounted f {#}" "justified env hist f"
  shows "good env hist r"
proof (cases e)
  case (Create_event request)
  then show ?thesis using assms CreateLoaderAndStart_good by (auto split: if_splits)
next
  case (Network_redirect i u)
  then show ?thesis using assms OnReceiveRedirect_good by (auto split: option.splits if_splits)
next
  case (Network_response i head)
  then show ?thesis using assms OnReceiveResponse_good by (auto split: option.splits if_splits)
next
  case (Network_call i call)
  then show ?thesis using assms unchanged_good [OF assms(2,3)]
    by (auto simp: good_def to_target_client_def split: option.splits if_splits)
next
  case (Client_call i call)
  then show ?thesis using assms unchanged_good [OF assms(2,3)]
    by (auto simp: good_def to_target_loader_def split: option.splits)
next
  case (Client_disconnected i)
  then show ?thesis using assms OnRequestError_of_RemoveRequest [OF RemoveRequest_good [OF assms(2,3)]]
    by (auto split: if_splits)
next
  case (Bindings_closed i)
  then show ?thesis using assms RemoveRequest_good [OF assms(2,3)] by (auto split: if_splits)
next
  case (Check_ends n)
  then have n: "n < length (rn_tasks (lf_runner f))" using assms(1) by (simp split: if_splits)
  then obtain es where "end_task (le_net env) (lf_frames f) (lf_runner f) (rn_tasks (lf_runner f) ! n) = Some es"
    "r = handle_runner_effects env es
      (f\<lparr>lf_runner := (lf_runner f)\<lparr>rn_tasks := remove_nth n (rn_tasks (lf_runner f))\<rparr>\<rparr>)"
    using assms(1) Check_ends by (auto split: Option.bind_splits)
  then show ?thesis using end_task_good check_taken [OF n assms(2,3)] by blast
next
  case (Csp_search_ends n)
  then have n: "n < length (lf_csp_tasks f)" using assms(1) by (simp split: if_splits)
  then show ?thesis using assms(1) Csp_search_ends OnCspInjectionsSearchFinished_good [OF csp_taken [OF n assms(2,3)]] by simp
next
  case (Headers_parsed n)
  then have n: "n < length (lf_parse_tasks f)" using assms(1) by (simp split: if_splits)
  then show ?thesis using assms(1) Headers_parsed OnUpdatedHeadersParsed_good [OF parse_taken [OF n assms(2,3)]] by simp
next
  case Ui_task_runs
  then obtain t ts where t: "lf_ui_tasks f = t # ts" using assms(1) by (cases "lf_ui_tasks f") simp_all
  then show ?thesis using assms(1) Ui_task_runs run_ui_task_good [OF ui_taken [OF t assms(2,3)]] by simp
next
  case (Frames_change frames)
  then show ?thesis using assms by (auto simp: good_def accounted_def justified_more)
next
  case (Snapshot_changes snapshot)
  then show ?thesis using assms by (auto simp: good_def accounted_def justified_more)
next
  case Target_error
  have "accounted (f\<lparr>lf_target_bound := False, lf_proxies := 0\<rparr>) {#}"
    using assms(2) by (auto simp: accounted_def intro: requests_ok_target)
  then have "good env hist (OnTargetFactoryError f)"
    unfolding OnTargetFactoryError_def by (rule MaybeDestroySelf_good) (use assms(3) in simp)
  then show ?thesis using assms(1) Target_error by (auto split: if_splits)
next
  case Proxy_error
  have "accounted (f\<lparr>lf_proxies := lf_proxies f - 1\<rparr>) {#}" using assms(2) by (simp add: accounted_def)
  then have "good env hist (OnProxyBindingError f)"
    unfolding OnProxyBindingError_def by (rule MaybeDestroySelf_good) (use assms(3) in simp)
  then show ?thesis using assms(1) Proxy_error by (auto split: if_splits)
next
  case Clone_event
  then show ?thesis using assms by (auto simp: good_def accounted_def justified_more Clone_def split: if_splits)
qed

text \<open>A run gives the states it goes through and what is passed on.\<close>

fun loader_run :: "loader_env \<Rightarrow> loader_event list \<Rightarrow> loader_factory \<Rightarrow> (loader_factory list \<times> loader_effect list) option" where
  "loader_run env [] f = Some ([f], [])"
| "loader_run env (e # es) f =
     do { (g, xs) \<leftarrow> loader_step env e f; (hist, ys) \<leftarrow> loader_run env es g; Some (f # hist, xs @ ys) }"

lemma loader_run_good:
  assumes "loader_run env es f = Some (hist, effects)" "accounted f {#}" "justified env (before @ [f]) f"
  shows "(\<forall>x\<in>set effects. effect_ok env (before @ hist) x) \<and>
    (\<forall>g\<in>set hist. accounted g {#} \<and> (\<exists>h. justified env h g))"
  using assms
proof (induction es arbitrary: f before hist effects)
  case (Cons e es)
  obtain g xs rest ys where s: "loader_step env e f = Some (g, xs)" "loader_run env es g = Some (rest, ys)"
      "hist = f # rest" "effects = xs @ ys"
    using Cons.prems(1) by (auto split: Option.bind_splits)
  have g: "good env (before @ [f]) (g, xs)" using loader_step_good [OF s(1)] Cons.prems(2,3) by simp
  then have ih: "(\<forall>x\<in>set ys. effect_ok env ((before @ [f]) @ rest) x) \<and>
      (\<forall>g\<in>set rest. accounted g {#} \<and> (\<exists>h. justified env h g))"
    using Cons.IH [OF s(2), of "before @ [f]"] by (simp add: good_def)
  have "g \<in> set rest" using s(2) by (cases es) (auto split: Option.bind_splits)
  then have sub: "set ((before @ [f]) @ [g]) \<subseteq> set (before @ hist)" using s(3) by auto
  have "effect_ok env (before @ hist) x" if "x \<in> set xs" for x
  proof (rule effect_ok_mono [OF _ sub])
    show "effect_ok env ((before @ [f]) @ [g]) x" using g that by (simp only: good_def fst_conv snd_conv)
  qed
  then show ?case using ih s(3,4) Cons.prems(2,3) by (simp only: append_assoc append_Cons append_Nil set_append set_simps) blast
qed auto

lemma start_good:
  "accounted (new_AdblockURLLoaderFactory host_id observers frames site_keys snapshot) {#}"
  "justified env hist (new_AdblockURLLoaderFactory host_id observers frames site_keys snapshot)"
  by (simp_all add: accounted_def new_AdblockURLLoaderFactory_def pend_def requests_ok_def justified_def)

lemmas run_from_start =
  loader_run_good [where before = "[]", OF _ start_good(1) start_good(2), simplified append_Nil]

end
