(* ===== verification/Loader_Progress.thy ===== *)
theory Loader_Progress
  imports Loader_Contract
begin

text \<open>
  What waits comes to an end: every step of a check, of the injector and of the UI thread makes a measure of what
  waits smaller, and while something waits one of them can happen. The factory is destroyed at most once.
\<close>

section \<open>A measure of what waits\<close>

fun task_weight :: "continuation runner_task \<Rightarrow> nat" where
  "task_weight (Request_task k snapshot url hierarchy ctype key frm) = 2"
| "task_weight (Response_task k snapshot url hierarchy ctype resp frm) = 4"
| "task_weight (Document_task snapshot url frm) = 1"
| "task_weight (Rewrite_task k snapshot url hierarchy) = 4"

fun ui_weight :: "ui_task \<Rightarrow> nat" where
  "ui_weight (Ui_rewrite k url) = 3"
| "ui_weight (Ui_match k res) = 1"
| "ui_weight (Ui_headers k res changed) = 1"

definition waiting :: "loader_factory \<Rightarrow> nat" where
  "waiting f = sum_list (map task_weight (rn_tasks (lf_runner f))) + sum_list (map ui_weight (lf_ui_tasks f)) +
     3 * length (lf_csp_tasks f) + 2 * length (lf_parse_tasks f)"

lemma task_weight_pos: "task_weight t > 0"
  by (cases t) simp_all

lemma ui_weight_pos: "ui_weight t > 0"
  by (cases t) simp_all

lemma waiting_simps [simp]:
  "waiting (f\<lparr>lf_requests := rs\<rparr>) = waiting f"
  "waiting (f\<lparr>lf_next_request := n\<rparr>) = waiting f"
  "waiting (f\<lparr>lf_target_bound := b\<rparr>) = waiting f"
  "waiting (f\<lparr>lf_proxies := p\<rparr>) = waiting f"
  "waiting (f\<lparr>lf_disconnected := d\<rparr>) = waiting f"
  "waiting (f\<lparr>lf_sitekeys := sk\<rparr>) = waiting f"
  "waiting (post_ui t f) = waiting f + ui_weight t"
  "waiting (f\<lparr>lf_runner := post_task rt (lf_runner f)\<rparr>) = waiting f + task_weight rt"
  "waiting (f\<lparr>lf_csp_tasks := lf_csp_tasks f @ [c]\<rparr>) = waiting f + 3"
  "waiting (f\<lparr>lf_parse_tasks := lf_parse_tasks f @ [pt]\<rparr>) = waiting f + 2"
  by (simp_all add: waiting_def post_ui_def post_task_def)

lemma waiting_0: "waiting f = 0 \<Longrightarrow> pend f = {#}"
proof -
  assume "waiting f = 0"
  then have z: "\<forall>t\<in>set (rn_tasks (lf_runner f)). task_weight t = 0" "\<forall>t\<in>set (lf_ui_tasks f). ui_weight t = 0"
    "lf_csp_tasks f = []" "lf_parse_tasks f = []"
    by (simp_all add: waiting_def)
  have "rn_tasks (lf_runner f) = []" using z(1) task_weight_pos by (metis gr_implies_not0 list.set_sel(1))
  moreover have "lf_ui_tasks f = []" using z(2) ui_weight_pos by (metis gr_implies_not0 list.set_sel(1))
  ultimately show "pend f = {#}" using z(3,4) by (simp add: pend_def)
qed

subsection \<open>What a step leaves\<close>

lemma waiting_CheckFilterMatch: "waiting (fst (CheckFilterMatch env ip k f)) \<le> waiting f + 2"
  by (cases rule: CheckFilterMatch_cases [of f env ip k]) simp_all

lemma waiting_MaybeDestroySelf [simp]: "waiting (fst (MaybeDestroySelf f)) = waiting f"
  by (simp add: MaybeDestroySelf_def)

lemma waiting_RemoveRequest [simp]: "waiting (fst (RemoveRequest i f)) = waiting f"
  by (simp add: RemoveRequest_def)

lemma waiting_OnRequestError [simp]: "waiting (fst (OnRequestError i b f)) = waiting f"
  using waiting_RemoveRequest [of i f] by (cases "RemoveRequest i f") (simp add: OnRequestError_def)

lemma waiting_Start: "waiting (fst (Start env i ip request u f)) \<le> waiting f + 2"
  using waiting_CheckFilterMatch [of env ip "Request_cont i request" f]
  by (auto simp: Start_def forward_request_def split: option.splits)

lemma waiting_run_ui_task:
  assumes "ui_ok env' hist t"
  shows "waiting (fst (run_ui_task env t f)) < waiting f + ui_weight t"
proof (cases t)
  case (Ui_rewrite k u)
  then obtain i request where "k = Start_cont i request" using assms by auto
  moreover have "waiting (fst (Start env i ip request u f)) < waiting f + 3" for ip
    using waiting_Start [of env i ip request u f] by linarith
  ultimately show ?thesis using Ui_rewrite by (auto simp: run_ui_task_def split: option.splits)
next
  case (Ui_match k res)
  then show ?thesis
    by (auto simp: run_ui_task_def OnRequestFilterMatchResult_def OnRedirectFilterMatchResult_def forward_request_def
      split: option.splits continuation.splits)
next
  case (Ui_headers k res changed)
  then show ?thesis
    by (auto simp: run_ui_task_def OnProcessHeadersResult_def split: option.splits continuation.splits)
qed

lemma waiting_notes: "waiting (fst (handle_runner_effects env (e # es) f)) = waiting (fst (handle_runner_effect env e f))"
  if "list_all is_note es"
  using that by (cases "handle_runner_effect env e f") (simp add: handle_notes)

lemma waiting_callback:
  "cont_url k \<noteq> None \<Longrightarrow> waiting (fst (handle_runner_effect env (Run_callback k res) f)) \<le> waiting f + 1"
  by (cases k) (simp_all add: OnRequestUrlClassified_def)

lemma waiting_headers_callback: "waiting (fst (handle_runner_effect env (Run_callback (Headers_cont i head) res) f)) \<le> waiting f + 3"
  by (auto simp: OnResponseHeadersClassified_def InsertContentSecurityPolicyHeadersIfApplicable_def waiting_def post_ui_def Let_def
    split: option.splits)

lemma waiting_end_task:
  assumes "task_ok env' hist t" "end_task net frames r t = Some es"
  shows "waiting (fst (handle_runner_effects env es f)) < waiting f + task_weight t"
proof (cases t)
  case (Request_task k snapshot url hierarchy ctype key frm)
  then have url: "cont_url k \<noteq> None" using assms(1) by auto
  obtain s ns where "es = Run_callback k s # ns" "list_all is_note ns"
    using complete_shape [of frames r url hierarchy ctype frm k] assms(2) Request_task by fastforce
  then show ?thesis
    using Request_task waiting_callback [OF url, of env s f] by (simp add: waiting_notes del: handle_runner_effect.simps
      handle_runner_effects.simps)
next
  case (Response_task k snapshot url hierarchy ctype resp frm)
  then obtain i head where k: "k = Headers_cont i head" using assms(1) by auto
  obtain c where "es = OnCheckResourceFilterMatchComplete frames r url hierarchy ctype frm k c"
    using assms(2) Response_task by auto
  then obtain s ns where "es = Run_callback k s # ns" "list_all is_note ns"
    using complete_shape [of frames r url hierarchy ctype frm k c] by auto
  then show ?thesis
    using Response_task waiting_headers_callback [of env i head s f] k by (simp only: waiting_notes task_weight.simps)
next
  case (Document_task snapshot url frm)
  then have "list_all is_note es" using assms(2) document_notes by auto
  then show ?thesis using Document_task by (simp add: handle_notes)
next
  case (Rewrite_task k snapshot url hierarchy)
  then show ?thesis using assms(2) by auto
qed

lemma waiting_csp: "waiting (OnCspInjectionsSearchFinished env c f) < waiting f + 3"
  by (simp add: OnCspInjectionsSearchFinished_def Let_def)

lemma waiting_parsed: "waiting (OnUpdatedHeadersParsed p f) < waiting f + 2"
  by (cases p) (simp add: OnUpdatedHeadersParsed_def)

section \<open>Steps of what waits\<close>

fun is_internal :: "loader_event \<Rightarrow> bool" where
  "is_internal (Check_ends n) \<longleftrightarrow> True"
| "is_internal (Csp_search_ends n) \<longleftrightarrow> True"
| "is_internal (Headers_parsed n) \<longleftrightarrow> True"
| "is_internal Ui_task_runs \<longleftrightarrow> True"
| "is_internal e \<longleftrightarrow> False"

lemma sum_remove_nth:
  "n < length xs \<Longrightarrow> sum_list (map w xs) = w (xs ! n) + sum_list (map w (remove_nth n xs))" for w :: "'a \<Rightarrow> nat"
  unfolding remove_nth_def by (subst (1) id_take_nth_drop [of n xs]) simp_all

lemma length_remove_nth: "n < length xs \<Longrightarrow> length xs = Suc (length (remove_nth n xs))"
  by (simp add: remove_nth_def)

lemma internal_step_waits_less:
  assumes "loader_step env e f = Some r" "is_internal e" "justified env hist f"
  shows "waiting (fst r) < waiting f"
proof (cases e)
  case (Check_ends n)
  let ?t = "rn_tasks (lf_runner f) ! n"
  let ?f = "f\<lparr>lf_runner := (lf_runner f)\<lparr>rn_tasks := remove_nth n (rn_tasks (lf_runner f))\<rparr>\<rparr>"
  have n: "n < length (rn_tasks (lf_runner f))" using Check_ends assms(1) by (simp split: if_splits)
  then obtain es where es: "end_task (le_net env) (lf_frames f) (lf_runner f) ?t = Some es" "r = handle_runner_effects env es ?f"
    using assms(1) Check_ends by (auto split: Option.bind_splits)
  have "task_ok env hist ?t" using assms(3) n by (simp add: justified_def)
  then have "waiting (fst r) < waiting ?f + task_weight ?t" using es waiting_end_task by blast
  also have "\<dots> = waiting f" using sum_remove_nth [OF n, of task_weight] by (simp add: waiting_def)
  finally show ?thesis .
next
  case (Csp_search_ends n)
  then have n: "n < length (lf_csp_tasks f)" using assms(1) by (simp split: if_splits)
  have "waiting f = waiting (f\<lparr>lf_csp_tasks := remove_nth n (lf_csp_tasks f)\<rparr>) + 3"
    using length_remove_nth [OF n] by (simp add: waiting_def)
  then show ?thesis using assms(1) Csp_search_ends n waiting_csp by auto
next
  case (Headers_parsed n)
  then have n: "n < length (lf_parse_tasks f)" using assms(1) by (simp split: if_splits)
  have "waiting f = waiting (f\<lparr>lf_parse_tasks := remove_nth n (lf_parse_tasks f)\<rparr>) + 2"
    using length_remove_nth [OF n] by (simp add: waiting_def)
  then show ?thesis
    using assms(1) Headers_parsed n waiting_parsed [of "lf_parse_tasks f ! n"] by (auto simp del: split_paired_All)
next
  case Ui_task_runs
  then obtain t ts where t: "lf_ui_tasks f = t # ts" using assms(1) by (cases "lf_ui_tasks f") simp_all
  then have "waiting f = waiting (f\<lparr>lf_ui_tasks := ts\<rparr>) + ui_weight t" by (simp add: waiting_def)
  moreover have "ui_ok env hist t" using assms(3) t by (simp add: justified_def)
  ultimately show ?thesis using assms(1) Ui_task_runs t waiting_run_ui_task by auto
qed (use assms(2) in simp_all)

lemma something_can_happen:
  assumes "waiting f > 0" "\<And>t. t \<in> set (rn_tasks (lf_runner f)) \<Longrightarrow> end_task (le_net env) (lf_frames f) (lf_runner f) t \<noteq> None"
  shows "\<exists>e. is_internal e \<and> loader_step env e f \<noteq> None"
proof (cases "lf_ui_tasks f")
  case (Cons t ts)
  then show ?thesis by (intro exI [of _ Ui_task_runs]) simp
next
  case Nil
  consider "rn_tasks (lf_runner f) \<noteq> []" | "lf_csp_tasks f \<noteq> []" | "lf_parse_tasks f \<noteq> []"
    using assms(1) Nil by (cases "rn_tasks (lf_runner f)") (auto simp: waiting_def)
  then show ?thesis
  proof cases
    case 1
    then have "rn_tasks (lf_runner f) ! 0 \<in> set (rn_tasks (lf_runner f))" by simp
    then obtain es where "end_task (le_net env) (lf_frames f) (lf_runner f) (rn_tasks (lf_runner f) ! 0) = Some es"
      using assms(2) by blast
    then show ?thesis using 1 by (intro exI [of _ "Check_ends 0"]) simp
  next
    case 2
    then show ?thesis by (intro exI [of _ "Csp_search_ends 0"]) simp
  next
    case 3
    then show ?thesis by (intro exI [of _ "Headers_parsed 0"]) simp
  qed
qed

lemma run_of_one_step: "loader_run env (e # es) f = Some (hist, effects) \<Longrightarrow>
    \<exists>g xs rest ys. loader_step env e f = Some (g, xs) \<and> loader_run env es g = Some (rest, ys) \<and> hist = f # rest \<and>
      effects = xs @ ys"
  by (auto split: Option.bind_splits)

lemma run_not_empty: "loader_run env es f = Some (hist, effects) \<Longrightarrow> hist \<noteq> []"
  by (cases es) (auto split: Option.bind_splits)

lemma internal_run_is_short:
  assumes "loader_run env es f = Some (hist, effects)" "list_all is_internal es" "accounted f {#}" "justified env before f"
  shows "length es + waiting (last hist) \<le> waiting f"
  using assms
proof (induction es arbitrary: f before hist effects)
  case (Cons e es)
  then obtain g xs rest ys where s: "loader_step env e f = Some (g, xs)" "loader_run env es g = Some (rest, ys)" "hist = f # rest"
    using run_of_one_step by blast
  have g: "good env before (g, xs)" using loader_step_good [OF s(1) Cons.prems(3,4)] .
  then have "length es + waiting (last rest) \<le> waiting g"
    using Cons.IH [OF s(2), of "before @ [g]"] Cons.prems(2) by (simp add: good_def)
  moreover have "waiting g < waiting f" using internal_step_waits_less [OF s(1) _ Cons.prems(4)] Cons.prems(2) by simp
  ultimately show ?case using s(3) run_not_empty [OF s(2)] by simp
qed simp

section \<open>The end of the factory\<close>

definition closed_properly :: "loader_factory \<Rightarrow> bool" where
  "closed_properly f \<longleftrightarrow> (lf_disconnected f \<longrightarrow> lf_proxies f = 0 \<and> lf_requests f = [])"

definition closings :: "loader_effect list \<Rightarrow> nat" where
  "closings es = length (filter (\<lambda>e. e = Factory_disconnected) es)"

lemma closings_simps [simp]: "closings [] = 0" "closings (e # es) = of_bool (e = Factory_disconnected) + closings es"
  "closings (es @ es') = closings es + closings es'" "closings (map Notify ns) = 0" "closings (map Page_effect ps) = 0"
  by (simp_all add: closings_def)

text \<open>A step either leaves the end alone or is the end.\<close>

definition calm :: "loader_factory \<Rightarrow> loader_result \<Rightarrow> bool" where
  "calm f r \<longleftrightarrow> lf_disconnected (fst r) = lf_disconnected f \<and> lf_proxies (fst r) = lf_proxies f \<and> closings (snd r) = 0 \<and>
     (lf_requests f = [] \<longrightarrow> lf_requests (fst r) = [])"

definition closes_once :: "loader_factory \<Rightarrow> loader_result \<Rightarrow> bool" where
  "closes_once f r \<longleftrightarrow> closed_properly (fst r) \<and> closings (snd r) + of_bool (lf_disconnected f) = of_bool (lf_disconnected (fst r))"

lemma calm_closes: "calm f r \<Longrightarrow> closed_properly f \<Longrightarrow> closes_once f r"
  by (auto simp: calm_def closes_once_def closed_properly_def)

lemma MaybeDestroySelf_closes:
  "\<not> lf_disconnected f \<Longrightarrow> closes_once f (MaybeDestroySelf f)"
  by (simp add: MaybeDestroySelf_def closes_once_def closed_properly_def)

lemma RemoveRequest_closes: "\<not> lf_disconnected f \<Longrightarrow> closes_once f (RemoveRequest i f)"
  using MaybeDestroySelf_closes [of "f\<lparr>lf_requests := AList.delete i (lf_requests f)\<rparr>"]
  by (simp add: RemoveRequest_def closes_once_def)

lemma OnRequestError_closes: "\<not> lf_disconnected f \<Longrightarrow> closes_once f (OnRequestError i b f)"
  using RemoveRequest_closes [of f i] by (cases "RemoveRequest i f") (simp add: OnRequestError_def closes_once_def)

lemma post_ui_calm [simp]:
  "lf_disconnected (post_ui t f) = lf_disconnected f" "lf_proxies (post_ui t f) = lf_proxies f"
  by (simp_all add: post_ui_def)

lemma CheckFilterMatch_calm: "calm f (CheckFilterMatch env ip k f)"
  by (cases rule: CheckFilterMatch_cases [of f env ip k]) (simp_all add: calm_def)

lemma Loader_ProcessResponseHeaders_calm: "calm f (Loader_ProcessResponseHeaders env ip k f)"
  by (auto simp: Loader_ProcessResponseHeaders_def CheckHostValid_def CheckResponseFilterMatch_def with_runner_def calm_def)

lemma Loader_CheckRewriteFilterMatch_calm: "calm f (Loader_CheckRewriteFilterMatch env ip k f)"
  by (auto simp: Loader_CheckRewriteFilterMatch_def CheckHostValid_def CheckRewriteFilterMatch_def with_runner_def calm_def)

lemma hide_element_closings [simp]: "closings (hide_element env i f) = 0"
  by (simp add: hide_element_def split: option.splits)

lemma handle_runner_effect_calm: "calm f (handle_runner_effect env e f)"
  by (cases e) (auto simp: calm_def OnRequestUrlClassified_def OnResponseHeadersClassified_def Let_def
    InsertContentSecurityPolicyHeadersIfApplicable_def split: continuation.splits option.splits)

lemma handle_runner_effects_calm: "calm f (handle_runner_effects env es f)"
proof (induction es arbitrary: f)
  case (Cons e es)
  show ?case using handle_runner_effect_calm [of f env e] Cons.IH [of "fst (handle_runner_effect env e f)"]
    by (auto simp: calm_def split: prod.splits)
qed (simp add: calm_def)

lemma calm_update:
  "calm (f\<lparr>lf_requests := AList.update i ip' (lf_requests f)\<rparr>) r \<Longrightarrow> map_of (lf_requests f) i = Some ip \<Longrightarrow> calm f r"
  by (auto simp: calm_def)

lemma run_ui_task_closes:
  assumes "closed_properly f"
  shows "closes_once f (run_ui_task env t f)"
proof (cases "map_of (lf_requests f) (continuation_request (ui_cont t))")
  case None
  then show ?thesis using assms by (cases t) (simp_all add: run_ui_task_def closes_once_def)
next
  case (Some ip)
  then have live: "\<not> lf_disconnected f" "lf_requests f \<noteq> []" using assms by (auto simp: closed_properly_def)
  show ?thesis using Some live OnRequestError_closes [OF live(1)] calm_closes [OF CheckFilterMatch_calm assms]
    by (cases t) (auto simp: run_ui_task_def Start_def OnRequestFilterMatchResult_def OnRedirectFilterMatchResult_def
      OnProcessHeadersResult_def forward_request_def closes_once_def closed_properly_def
      split: continuation.splits option.splits)
qed

lemma loader_step_closes:
  assumes "loader_step env e f = Some r" "closed_properly f"
  shows "closes_once f r"
proof (cases e)
  case (Create_event request)
  let ?n = "lf_next_request f"
  obtain ip where "r = Loader_CheckRewriteFilterMatch env ip (Start_cont ?n request)
      (f\<lparr>lf_requests := (?n, ip) # lf_requests f, lf_next_request := Suc ?n\<rparr>)" and pos: "lf_proxies f > 0"
    using Create_event assms(1) by (auto simp: CreateLoaderAndStart_def Let_def split: if_splits)
  then show ?thesis using assms(2) pos
      Loader_CheckRewriteFilterMatch_calm [of "f\<lparr>lf_requests := (?n, ip) # lf_requests f, lf_next_request := Suc ?n\<rparr>" env ip]
    by (auto simp: calm_def closes_once_def closed_properly_def)
next
  case (Network_redirect i u)
  then obtain ip where ip: "map_of (lf_requests f) i = Some ip" "r = OnReceiveRedirect env i u f"
    using assms(1) by (auto split: option.splits if_splits)
  show ?thesis unfolding ip(2) OnReceiveRedirect_def
    using ip(1) by (auto simp: Let_def intro!: calm_closes [OF calm_update [OF CheckFilterMatch_calm ip(1)] assms(2)])
next
  case (Network_response i head)
  then obtain ip where ip: "map_of (lf_requests f) i = Some ip" "r = OnReceiveResponse env i head f"
    using assms(1) by (auto split: option.splits if_splits)
  have "calm f (f, [Forward_response i head])" by (simp add: calm_def)
  then show ?thesis unfolding ip(2) OnReceiveResponse_def
    using ip(1) assms(2) by (auto simp: Let_def intro!: calm_closes [OF calm_update [OF Loader_ProcessResponseHeaders_calm ip(1)]]
      calm_closes)
next
  case (Network_call i call)
  then show ?thesis using assms by (auto simp: to_target_client_def closes_once_def split: option.splits if_splits)
next
  case (Client_call i call)
  then show ?thesis using assms by (auto simp: to_target_loader_def closes_once_def split: option.splits)
next
  case (Client_disconnected i)
  then show ?thesis using assms OnRequestError_closes [of f i]
    by (cases "lf_disconnected f") (auto simp: is_alive_def closed_properly_def split: if_splits)
next
  case (Bindings_closed i)
  then show ?thesis using assms RemoveRequest_closes [of f i]
    by (cases "lf_disconnected f") (auto simp: is_alive_def closed_properly_def split: if_splits)
next
  case (Check_ends n)
  then obtain es rn where "r = handle_runner_effects env es (f\<lparr>lf_runner := rn\<rparr>)"
    using assms(1) by (auto split: if_splits Option.bind_splits)
  then have "calm f r" using handle_runner_effects_calm [of "f\<lparr>lf_runner := rn\<rparr>" env es] by (simp add: calm_def)
  then show ?thesis using assms(2) by (rule calm_closes)
next
  case (Csp_search_ends n)
  then show ?thesis using assms
    by (auto simp: OnCspInjectionsSearchFinished_def Let_def closes_once_def closed_properly_def split: if_splits)
next
  case (Headers_parsed n)
  then show ?thesis using assms
    by (auto simp: OnUpdatedHeadersParsed_def closes_once_def closed_properly_def split: if_splits prod.splits)
next
  case Ui_task_runs
  then obtain t ts where t: "lf_ui_tasks f = t # ts" "r = run_ui_task env t (f\<lparr>lf_ui_tasks := ts\<rparr>)"
    using assms(1) by (cases "lf_ui_tasks f") simp_all
  then show ?thesis using run_ui_task_closes [of "f\<lparr>lf_ui_tasks := ts\<rparr>" env t] assms(2)
    by (simp add: closes_once_def closed_properly_def)
next
  case Target_error
  then show ?thesis using assms MaybeDestroySelf_closes [of "f\<lparr>lf_target_bound := False, lf_proxies := 0\<rparr>"]
    by (auto simp: OnTargetFactoryError_def closes_once_def split: if_splits)
next
  case Proxy_error
  then show ?thesis using assms MaybeDestroySelf_closes [of "f\<lparr>lf_proxies := lf_proxies f - 1\<rparr>"]
    by (auto simp: OnProxyBindingError_def closes_once_def closed_properly_def split: if_splits)
qed (use assms in \<open>auto simp: closes_once_def closed_properly_def Clone_def split: if_splits\<close>)

lemma loader_run_closes:
  assumes "loader_run env es f = Some (hist, effects)" "closed_properly f"
  shows "closings effects + of_bool (lf_disconnected f) = of_bool (lf_disconnected (last hist)) \<and>
    (\<forall>g\<in>set hist. closed_properly g)"
  using assms
proof (induction es arbitrary: f hist effects)
  case (Cons e es)
  then obtain g xs rest ys where s: "loader_step env e f = Some (g, xs)" "loader_run env es g = Some (rest, ys)" "hist = f # rest"
      "effects = xs @ ys"
    using run_of_one_step by blast
  have "closes_once f (g, xs)" using loader_step_closes [OF s(1) Cons.prems(2)] .
  then show ?case using Cons.IH [OF s(2)] s(3,4) run_not_empty [OF s(2)] Cons.prems(2) by (auto simp: closes_once_def)
qed simp

end
