(* ===== verification/Page_Properties.thy ===== *)
theory Page_Properties
  imports Page_Injection Search_Completeness
begin

text \<open>
  Site keys, the statistics of a session and what is injected into a page.
\<close>

section \<open>Session statistics\<close>

text \<open>What an observer is told of: the subscription that decided, and whether it blocked.\<close>

fun told_of :: "nat \<Rightarrow> 'k runner_effect \<Rightarrow> (gurl \<times> bool) option" where
  "told_of me (AdMatched observer url match hierarchy ctype frm sub) =
     (if observer = me then Some (sub, match = kBlockRule) else None)"
| "told_of me (PageAllowed observer url frm sub) = (if observer = me then Some (sub, False) else None)"
| "told_of me (PopupMatched observer url match opener frm sub) =
     (if observer = me then Some (sub, match = kBlockRule) else None)"
| "told_of me (Run_callback k res) = None"
| "told_of me (Run_rewrite_callback k url) = None"

lemma count_of_update: "count_of (AList.update u n m) v = (if v = u then n else count_of m v)"
  by (simp add: count_of_def update_conv)

lemma OnMatched_counts:
  "count_of (blocked_map (OnMatchedInternal match u s)) v = count_of (blocked_map s) v + of_bool (match = kBlockRule \<and> v = u)"
  "count_of (allowed_map (OnMatchedInternal match u s)) v = count_of (allowed_map s) v + of_bool (match \<noteq> kBlockRule \<and> v = u)"
  by (simp_all add: OnMatchedInternal_def count_of_update)

lemma stats_notified_counts:
  "count_of (blocked_map (stats_notified me e s)) u = count_of (blocked_map s) u + of_bool (told_of me e = Some (u, True))"
  "count_of (allowed_map (stats_notified me e s)) u = count_of (allowed_map s) u + of_bool (told_of me e = Some (u, False))"
  by (cases e; simp add: OnMatched_counts; blast)+

lemma stats_counts:
  "count_of (blocked_map (fold (stats_notified me) es s)) u =
     count_of (blocked_map s) u + length (filter (\<lambda>e. told_of me e = Some (u, True)) es)"
  "count_of (allowed_map (fold (stats_notified me) es s)) u =
     count_of (allowed_map s) u + length (filter (\<lambda>e. told_of me e = Some (u, False)) es)"
  by (induction es arbitrary: s) (simp_all add: stats_notified_counts)

section \<open>Style sheets\<close>

function batches :: "nat \<Rightarrow> 'a list \<Rightarrow> 'a list list" where
  "batches n xs = (if xs = [] \<or> n = 0 then [] else take n xs # batches n (drop n xs))"
  by pat_completeness auto
termination by (relation "measure (\<lambda>(n, xs). length xs)") auto

declare batches.simps [simp del]

lemma batches_concat: "0 < n \<Longrightarrow> concat (batches n xs) = xs"
  by (induction n xs rule: batches.induct) (subst batches.simps, auto)

lemma batches_size: "b \<in> set (batches n xs) \<Longrightarrow> b \<noteq> [] \<and> length b \<le> n"
  by (induction n xs rule: batches.induct) (subst (asm) (2) batches.simps, auto split: if_splits)

lemma GenerateStylesheet_loop_batches:
  "GenerateStylesheet_loop input i out = out @ concat (map stylesheet_rule (batches max_selector_count (drop i input)))"
proof (induction input i out rule: GenerateStylesheet_loop.induct)
  case (1 input i out)
  have pos: "max_selector_count \<noteq> 0" by (simp add: max_selector_count_def)
  show ?case
  proof (cases "i < length input")
    case True
    have "take (min max_selector_count (length input - i)) (drop i input) = take max_selector_count (drop i input)"
      by (simp add: min_def)
    then show ?thesis
      using 1 [OF True refl refl] True pos
      by (subst GenerateStylesheet_loop.simps, subst batches.simps) (simp add: Let_def add.commute)
  next
    case False
    then show ?thesis by (subst GenerateStylesheet_loop.simps, subst batches.simps) simp
  qed
qed

lemma GenerateStylesheet_batches:
  "GenerateStylesheet input = concat (map stylesheet_rule (batches max_selector_count input))"
  by (simp add: GenerateStylesheet_def GenerateStylesheet_loop_batches)

definition elemhide_allowlisted :: "net_env \<Rightarrow> gurl \<Rightarrow> gurl list \<Rightarrow> string \<Rightarrow> SubscriptionCollection \<Rightarrow> bool" where
  "elemhide_allowlisted net url hierarchy key c \<longleftrightarrow>
     FindBySpecialFilter net c SF_Document url hierarchy key \<noteq> None \<or>
     FindBySpecialFilter net c SF_Elemhide url hierarchy key \<noteq> None"

lemma page_selectors:
  "concat (map fst (map (collection_injections net url hierarchy key) cs)) =
     concat (map (\<lambda>c. GetElementHideSelectors net c url hierarchy key)
       (filter (\<lambda>c. \<not> elemhide_allowlisted net url hierarchy key c) cs))"
  by (induction cs) (simp_all add: collection_injections_def elemhide_allowlisted_def Let_def)

section \<open>Examples\<close>

definition example_page_env :: page_env where
  "example_page_env = \<lparr>pg_GetAsReferrer = (\<lambda>u. u), pg_IsAboutBlank = (\<lambda>u. spec u = ''about:blank''), pg_path = (\<lambda>u. ''/''),
     pg_query = (\<lambda>u. None), pg_Base64Decode = Some, pg_VerifyInit = (\<lambda>s k. True), pg_VerifyFinal = (\<lambda>s k d. s = k)\<rparr>"

definition example_hide_env :: hide_env where
  "example_hide_env = \<lparr>he_EscapeJSONString = (\<lambda>s q. s), he_SerializeSnippets = (\<lambda>s. []), he_ELEMHIDE_JS = [],
     he_ELEMHIDE_FOR_SELECTOR_JS = [], he_ELEMHIDE_EMU_JS = [], he_SNIPPETS_JS = [], he_ExtractFileName = (\<lambda>u. [])\<rparr>"

section \<open>Properties\<close>

text \<open>C36: A site key is only ever stored for a URL that sent it with a signature: it is the part of the header before the
  underscore, without the padding, and the rest of the header is a valid signature under that key of the path, the host
  and the user agent of a response for this URL.\<close>

theorem stored_site_keys_were_signed:
  assumes "map_of (process_responses env rs) u = Some key"
  shows "\<exists>r\<in>set rs. u = pg_GetAsReferrer env (sr_url r) \<and> is_valid (sr_url r) \<and>
    (\<exists>public_key signature. GetSitekeyHeader (sr_headers r) = public_key @ ''_'' @ signature \<and>
       CHR ''_'' \<notin> set public_key \<and> key = strip_public_key public_key \<and>
       IsSitekeySignatureValid env public_key signature (sitekey_data env u (sr_user_agent r)))"
proof -
  have "\<exists>r\<in>set rs. u = pg_GetAsReferrer env (sr_url r) \<and> is_valid (sr_url r) \<and>
      signed_by env u (sr_user_agent r) key (GetSitekeyHeader (sr_headers r))"
    using stored_keys_signed [of env rs "[]" u key] assms by (simp add: process_responses_def)
  then show ?thesis unfolding signed_by_def by blast
qed

theorem stored_site_keys_were_signed_witness:
  "\<exists>r\<in>set [\<lparr>sr_url = simple_gurl ''https://a.com/'', sr_headers = [(''x-adblock-key'', ''key_key'')], sr_user_agent = ''agent''\<rparr>].
    simple_gurl ''https://a.com/'' = pg_GetAsReferrer example_page_env (sr_url r) \<and> is_valid (sr_url r) \<and>
    (\<exists>public_key signature. GetSitekeyHeader (sr_headers r) = public_key @ ''_'' @ signature \<and>
       CHR ''_'' \<notin> set public_key \<and> ''key'' = strip_public_key public_key \<and>
       IsSitekeySignatureValid example_page_env public_key signature
         (sitekey_data example_page_env (simple_gurl ''https://a.com/'') (sr_user_agent r)))"
proof (rule stored_site_keys_were_signed)
  show "map_of (process_responses example_page_env
      [\<lparr>sr_url = simple_gurl ''https://a.com/'', sr_headers = [(''x-adblock-key'', ''key_key'')], sr_user_agent = ''agent''\<rparr>])
      (simple_gurl ''https://a.com/'') = Some ''key''"
    by code_simp
qed

text \<open>The counters of a session are the numbers of matches the statistics were told of: for every subscription, the
  blocked counter counts the requests and popups it blocked, the allowed counter the requests, popups and pages it
  allowed.\<close>

theorem session_counts_are_the_matches:
  "count_of (blocked_map (fold (stats_notified me) es new_SessionStats)) u =
     length (filter (\<lambda>e. told_of me e = Some (u, True)) es) \<and>
   count_of (allowed_map (fold (stats_notified me) es new_SessionStats)) u =
     length (filter (\<lambda>e. told_of me e = Some (u, False)) es)"
  unfolding stats_counts by (simp add: new_SessionStats_def count_of_def)

text \<open>C21: The style sheet of a page hides exactly the selectors of the configurations that do not allowlist it: they are
  put, in their order and without loss, into rules of at most 1024 selectors.\<close>

theorem style_sheets_hide_all_selectors:
  "\<exists>bs. concat bs = concat (map (\<lambda>c. GetElementHideSelectors net c url hierarchy key)
       (filter (\<lambda>c. \<not> elemhide_allowlisted net url hierarchy key c) cs)) \<and>
    list_all (\<lambda>b. b \<noteq> [] \<and> length b \<le> 1024) bs \<and>
    ed_stylesheet (PrepareElemhideEmulationData net env cs url hierarchy key) = concat (map stylesheet_rule bs)"
proof -
  define sel where "sel = concat (map fst (map (collection_injections net url hierarchy key) cs))"
  have "ed_stylesheet (PrepareElemhideEmulationData net env cs url hierarchy key) =
      (if sel \<noteq> [] then GenerateStylesheet sel else [])"
    unfolding sel_def by (simp add: PrepareElemhideEmulationData_def Let_def del: map_map)
  also have "\<dots> = concat (map stylesheet_rule (batches 1024 sel))"
    by (simp add: GenerateStylesheet_batches max_selector_count_def batches.simps [of _ "[]"])
  finally have "ed_stylesheet (PrepareElemhideEmulationData net env cs url hierarchy key) = concat (map stylesheet_rule (batches 1024 sel))" .
  moreover have "concat (batches 1024 sel) = sel" by (rule batches_concat) simp
  moreover have "list_all (\<lambda>b. b \<noteq> [] \<and> length b \<le> 1024) (batches 1024 sel)" by (auto simp: list_all_iff dest: batches_size)
  ultimately show ?thesis
    unfolding sel_def page_selectors by blast
qed

end
