(* ===== verification/Proxy_Properties.thy ===== *)
theory Proxy_Properties
  imports Loader_Progress Page_Properties
begin

text \<open>
  The properties of the proxy of \<open>adblock_url_loader_factory.cc\<close>, over any run of it from its construction.
\<close>

section \<open>Examples\<close>

definition example_loader_env :: loader_env where
  "example_loader_env = \<lparr>le_net = example_env, le_page = example_page_env, le_hide = example_hide_env,
     le_IsLocalhost = (\<lambda>u. host u = ''localhost''),
     le_response_headers = (\<lambda>h. \<lparr>HasHeader = (\<lambda>n. n \<in> set (map fst h)), header_values = (\<lambda>n. map snd (filter (\<lambda>x. fst x = n) h))\<rparr>),
     le_user_agent = ''agent''\<rparr>"

definition example_page :: gurl where
  "example_page = simple_gurl ''https://news.com/''"

definition example_request :: "gurl \<Rightarrow> ResourceRequest" where
  "example_request url = \<lparr>rr_url = url, rr_is_fetch_like_api = False, rr_destination = kScript, rr_keepalive = False\<rparr>"

definition example_proxy :: loader_factory where
  "example_proxy = new_AdblockURLLoaderFactory 7 [0] [(7, [example_page])] [] [[example_subscription]]"

definition example_events :: "loader_event list" where
  "example_events = [Create_event (example_request example_url), Create_event (example_request example_page),
     Check_ends 1, Check_ends 0, Ui_task_runs, Ui_task_runs, Check_ends 1, Check_ends 0, Ui_task_runs, Ui_task_runs, Network_response 1 [], Check_ends 0]"


lemma example_forwards: "\<exists>hist effects. loader_run example_loader_env example_events example_proxy = Some (hist, effects) \<and>
    Forward_request 1 (example_request example_page) \<in> set effects"
proof -
  have "case loader_run example_loader_env example_events example_proxy of
      Some r \<Rightarrow> Forward_request 1 (example_request example_page) \<in> set (snd r) | None \<Rightarrow> False"
    by code_simp
  then show ?thesis by (auto split: option.splits)
qed

section \<open>Properties\<close>

text \<open>C3: A request that the proxy sends to the network is exempt (a local or non-web URL), or there was a state, with
  the request in progress, in which its frame was gone, or it was the main document, or the classifier did not block
  its URL and content type with the lists, the frames and the site key of that state.\<close>

theorem requests_passed_on_were_not_blocked:
  assumes "loader_run env es (new_AdblockURLLoaderFactory host_id observers frames site_keys snapshot) = Some (hist, effects)"
    "Forward_request i request \<in> set effects"
  shows "is_exempt env (rr_url request) \<or>
    (\<exists>t\<in>set hist. map_of (lf_requests t) i \<noteq> None \<and>
      (case FindRenderFrameHost (lf_frames t) (lf_host t) of
         None \<Rightarrow> True
       | Some frame \<Rightarrow> IsDocumentRequest request \<or>
           decision (ClassifyRequest (le_net env) (lf_snapshot t) (rr_url request) (BuildFrameHierarchy (le_page env) frame)
             (ToAdblockResourceType request) (key_of env t frame)) \<noteq> Blocked))"
proof -
  have "effect_ok env hist (Forward_request i request)" using run_from_start [OF assms(1)] assms(2) by blast
  then show ?thesis
    by (auto simp: passes_request_def frame_of_def frames_above_def split: option.splits)
qed

theorem requests_passed_on_were_not_blocked_witness:
  "\<exists>hist. (\<exists>effects. loader_run example_loader_env example_events example_proxy = Some (hist, effects)) \<and>
    (\<exists>t\<in>set hist. map_of (lf_requests t) 1 \<noteq> None \<and>
      (case FindRenderFrameHost (lf_frames t) (lf_host t) of
         None \<Rightarrow> True
       | Some frame \<Rightarrow> 
           decision (ClassifyRequest example_env (lf_snapshot t) example_page (BuildFrameHierarchy example_page_env frame)
             CT_Script (key_of example_loader_env t frame)) \<noteq> Blocked))"
proof -
  obtain hist effects where r: "loader_run example_loader_env example_events example_proxy = Some (hist, effects)"
      "Forward_request 1 (example_request example_page) \<in> set effects"
    using example_forwards by blast
  have e: "\<not> is_exempt example_loader_env example_page" "\<not> IsDocumentRequest (example_request example_page)"
      "ToAdblockResourceType (example_request example_page) = CT_Script"
    by code_simp+
  have f: "rr_url (example_request u) = u" "le_net example_loader_env = example_env"
      "le_page example_loader_env = example_page_env" for u
    by (simp_all add: example_request_def example_loader_env_def)
  show ?thesis
    using requests_passed_on_were_not_blocked [OF r(1) [unfolded example_proxy_def] r(2)] r(1)
    by (simp only: e f simp_thms) blast
qed

text \<open>C5: A response that the proxy hands to the client of a request belongs to an exempt URL, or to a frame that was
  gone, or the classifier judged its URL and the headers that arrived with the lists and frames of some state and did
  not block it; and its headers are those that arrived, or those with the content security policies that the lists of
  some state have for the request.\<close>

theorem responses_passed_on_were_not_blocked:
  assumes "loader_run env es (new_AdblockURLLoaderFactory host_id observers frames site_keys snapshot) = Some (hist, effects)"
    "Forward_response i header_lines \<in> set effects"
  shows "\<exists>head.
    (\<exists>t\<in>set hist. \<exists>ip. map_of (lf_requests t) i = Some ip \<and>
       (is_exempt env (ip_request_url ip) \<or>
        (case FindRenderFrameHost (lf_frames t) (lf_host t) of
           None \<Rightarrow> True
         | Some frame \<Rightarrow>
             (\<exists>r. ClassifyResponse (le_net env) (lf_snapshot t) (ip_request_url ip) (BuildFrameHierarchy (le_page env) frame)
                (ip_resource_type ip) (le_response_headers env head) = Some r \<and> decision r \<noteq> Blocked)))) \<and>
    (header_lines = head \<or>
     (\<exists>t\<in>set hist. \<exists>ip frame. map_of (lf_requests t) i = Some ip \<and>
        FindRenderFrameHost (lf_frames t) (lf_host t) = Some frame \<and>
        header_lines = add_csp_headers
          (snapshot_csp_injections (le_net env) (lf_snapshot t) (ip_request_url ip)
             (BuildFrameHierarchy (le_page env) frame)) head))"
proof -
  have "effect_ok env hist (Forward_response i header_lines)" using run_from_start [OF assms(1)] assms(2) by blast
  then show ?thesis
    by (simp only: effect_ok.simps passes_response_def delivered_head_def frame_of_def frames_above_def)
qed

definition example_response_events :: "loader_event list" where
  "example_response_events = [Create_event (example_request example_page), Check_ends 0, Ui_task_runs, Check_ends 0,
     Ui_task_runs, Network_response 0 [(''server'', ''x'')], Check_ends 0, Csp_search_ends 0, Ui_task_runs]"

lemma example_responds: "\<exists>hist effects. loader_run example_loader_env example_response_events example_proxy = Some (hist, effects) \<and>
    Forward_response 0 [(''server'', ''x'')] \<in> set effects"
proof -
  have "case loader_run example_loader_env example_response_events example_proxy of
      Some r \<Rightarrow> Forward_response 0 [(''server'', ''x'')] \<in> set (snd r) | None \<Rightarrow> False"
    by code_simp
  then show ?thesis by (auto split: option.splits)
qed

theorem responses_passed_on_were_not_blocked_witness:
  "\<exists>hist effects head. loader_run example_loader_env example_response_events example_proxy = Some (hist, effects) \<and>
    (\<exists>t\<in>set hist. \<exists>ip. map_of (lf_requests t) 0 = Some ip \<and>
       (is_exempt example_loader_env (ip_request_url ip) \<or>
        (case FindRenderFrameHost (lf_frames t) (lf_host t) of
           None \<Rightarrow> True
         | Some frame \<Rightarrow>
             (\<exists>r. ClassifyResponse (le_net example_loader_env) (lf_snapshot t) (ip_request_url ip)
                (BuildFrameHierarchy (le_page example_loader_env) frame)
                (ip_resource_type ip) (le_response_headers example_loader_env head) = Some r \<and> decision r \<noteq> Blocked))))"
proof -
  obtain hist effects where r: "loader_run example_loader_env example_response_events example_proxy = Some (hist, effects)"
      "Forward_response 0 [(''server'', ''x'')] \<in> set effects"
    using example_responds by blast
  show ?thesis
    using responses_passed_on_were_not_blocked [OF r(1) [unfolded example_proxy_def] r(2)] r(1) by blast
qed

text \<open>C6: A redirect that the client of a request is told of is the rewrite that the lists of some state ask for, or a
  redirect of the network whose URL was judged like a request and not blocked.\<close>

theorem redirects_passed_on_were_not_blocked:
  assumes "loader_run env es (new_AdblockURLLoaderFactory host_id observers frames site_keys snapshot) = Some (hist, effects)"
    "Forward_redirect i new_url \<in> set effects"
  shows "(\<exists>t\<in>set hist. \<exists>ip frame. map_of (lf_requests t) i = Some ip \<and>
      FindRenderFrameHost (lf_frames t) (lf_host t) = Some frame \<and>
      HasRewriteHelper (le_net env) (lf_snapshot t) (ip_request_url ip) (BuildFrameHierarchy (le_page env) frame) = Some new_url) \<or>
    (\<exists>t\<in>set hist. \<exists>ip. map_of (lf_requests t) i = Some ip \<and> ip_request_url ip = new_url \<and>
      (case FindRenderFrameHost (lf_frames t) (lf_host t) of
         None \<Rightarrow> True
       | Some frame \<Rightarrow> ip_is_document_request ip \<or>
           decision (ClassifyRequest (le_net env) (lf_snapshot t) new_url (BuildFrameHierarchy (le_page env) frame)
             (ip_resource_type ip) (key_of env t frame)) \<noteq> Blocked))"
proof -
  have "effect_ok env hist (Forward_redirect i new_url)" using run_from_start [OF assms(1)] assms(2) by blast
  then show ?thesis
    unfolding effect_ok.simps rewritten_to_def passes_request_def frame_of_def frames_above_def by auto
qed

definition example_redirect_events :: "loader_event list" where
  "example_redirect_events = [Create_event (example_request example_page), Check_ends 0, Ui_task_runs, Check_ends 0,
     Ui_task_runs, Network_redirect 0 example_page, Check_ends 0, Ui_task_runs]"

lemma example_redirects: "\<exists>hist effects. loader_run example_loader_env example_redirect_events example_proxy = Some (hist, effects) \<and>
    Forward_redirect 0 example_page \<in> set effects"
proof -
  have "case loader_run example_loader_env example_redirect_events example_proxy of
      Some r \<Rightarrow> Forward_redirect 0 example_page \<in> set (snd r) | None \<Rightarrow> False"
    by code_simp
  then show ?thesis by (auto split: option.splits)
qed

theorem redirects_passed_on_were_not_blocked_witness:
  "\<exists>hist effects. loader_run example_loader_env example_redirect_events example_proxy = Some (hist, effects) \<and>
   ((\<exists>t\<in>set hist. \<exists>ip frame. map_of (lf_requests t) 0 = Some ip \<and>
      FindRenderFrameHost (lf_frames t) (lf_host t) = Some frame \<and>
      HasRewriteHelper (le_net example_loader_env) (lf_snapshot t) (ip_request_url ip)
        (BuildFrameHierarchy (le_page example_loader_env) frame) = Some example_page) \<or>
    (\<exists>t\<in>set hist. \<exists>ip. map_of (lf_requests t) 0 = Some ip \<and> ip_request_url ip = example_page \<and>
      (case FindRenderFrameHost (lf_frames t) (lf_host t) of
         None \<Rightarrow> True
       | Some frame \<Rightarrow> ip_is_document_request ip \<or>
           decision (ClassifyRequest (le_net example_loader_env) (lf_snapshot t) example_page
             (BuildFrameHierarchy (le_page example_loader_env) frame)
             (ip_resource_type ip) (key_of example_loader_env t frame)) \<noteq> Blocked)))"
proof -
  obtain hist effects where r: "loader_run example_loader_env example_redirect_events example_proxy = Some (hist, effects)"
      "Forward_redirect 0 example_page \<in> set effects"
    using example_redirects by blast
  show ?thesis
    using redirects_passed_on_were_not_blocked [OF r(1) [unfolded example_proxy_def] r(2)] r(1) by blast
qed

text \<open>C7: No request is forgotten: in every state of the proxy each of its requests was sent to the network or
  rewritten, or exactly one check for it is pending (as long as the network is there); and its response is held back
  exactly when one answer for it is pending.\<close>

theorem no_request_is_forgotten:
  assumes "loader_run env es (new_AdblockURLLoaderFactory host_id observers frames site_keys snapshot) = Some (hist, effects)"
    "f \<in> set hist" "map_of (lf_requests f) i = Some ip"
  shows "(lf_target_bound f \<longrightarrow>
      openings (pend f) i + of_bool (ip_with_network ip \<or> \<not> ip_loader_bound ip) = 1) \<and>
    held_back (pend f) i = of_bool (ip_client_paused ip)"
proof -
  have "accounted f {#}" using run_from_start [OF assms(1)] assms(2) by blast
  then have "request_ok (pend f) (lf_target_bound f) i ip"
    using requests_okD [OF _ assms(3)] by (simp add: accounted_def)
  then show ?thesis by (simp add: request_ok_def is_opened_def)
qed

lemma example_pauses: "\<exists>hist effects. loader_run example_loader_env (take 6 example_response_events) example_proxy = Some (hist, effects) \<and>
    (\<exists>ip. map_of (lf_requests (last hist)) 0 = Some ip \<and> ip_client_paused ip)"
proof -
  have "case loader_run example_loader_env (take 6 example_response_events) example_proxy of
      Some r \<Rightarrow> (case map_of (lf_requests (last (fst r))) 0 of Some ip \<Rightarrow> ip_client_paused ip | None \<Rightarrow> False) | None \<Rightarrow> False"
    by code_simp
  then show ?thesis by (auto split: option.splits)
qed

theorem no_request_is_forgotten_witness:
  "\<exists>hist effects. loader_run example_loader_env (take 6 example_response_events) example_proxy = Some (hist, effects) \<and>
    held_back (pend (last hist)) 0 = 1"
proof -
  obtain hist effects ip where r: "loader_run example_loader_env (take 6 example_response_events) example_proxy = Some (hist, effects)"
      "map_of (lf_requests (last hist)) 0 = Some ip" "ip_client_paused ip"
    using example_pauses by blast
  have "last hist \<in> set hist" using run_not_empty [OF r(1)] by simp
  then have "held_back (pend (last hist)) 0 = 1"
    using no_request_is_forgotten [OF r(1) [unfolded example_proxy_def] _ r(2)] r(3) by simp
  then show ?thesis using r(1) by blast
qed

text \<open>C8: What waits comes to an end: from any state of the proxy, the checks, the searches for policies, the parsing of
  headers and the tasks of the UI thread can only take a bounded number of steps, and another one is possible until
  nothing waits, unless a check of a response ends in undefined behaviour. When nothing waits, no response is held back
  and, while the pipe to the network is there, every request was sent to the network or rewritten.\<close>

theorem checks_come_to_an_end:
  assumes "loader_run env es (new_AdblockURLLoaderFactory host_id observers frames site_keys snapshot) = Some (hist, effects)"
    "f \<in> set hist" "loader_run env es' f = Some (hist', effects')" "list_all is_internal es'"
  shows "length es' \<le> waiting f \<and>
    (waiting (last hist') > 0 \<longrightarrow>
      (\<exists>e. is_internal e \<and> loader_step env e (last hist') \<noteq> None) \<or>
      (\<exists>t\<in>set (rn_tasks (lf_runner (last hist'))). end_task (le_net env) (lf_frames (last hist')) (lf_runner (last hist')) t = None)) \<and>
    (waiting (last hist') = 0 \<longrightarrow>
      (\<forall>i ip. map_of (lf_requests (last hist')) i = Some ip \<longrightarrow>
        \<not> ip_client_paused ip \<and> (lf_target_bound (last hist') \<longrightarrow> ip_with_network ip \<or> \<not> ip_loader_bound ip)))"
proof -
  obtain h where f: "accounted f {#}" "justified env h f" using run_from_start [OF assms(1)] assms(2) by blast
  have short: "length es' + waiting (last hist') \<le> waiting f" using internal_run_is_short [OF assms(3,4) f] .
  have "last hist' \<in> set hist'" using run_not_empty [OF assms(3)] by simp
  then have g: "accounted (last hist') {#}" using loader_run_good [OF assms(3) f(1) justified_more [OF f(2)]] by blast
  have "\<not> ip_client_paused ip \<and> (lf_target_bound (last hist') \<longrightarrow> ip_with_network ip \<or> \<not> ip_loader_bound ip)"
    if "waiting (last hist') = 0" "map_of (lf_requests (last hist')) i = Some ip" for i ip
    using requests_okD [OF _ that(2)] g waiting_0 [OF that(1)]
    by (fastforce simp: accounted_def request_ok_def is_opened_def openings_def held_back_def)
  then show ?thesis using short something_can_happen [of "last hist'" env] by auto
qed

theorem checks_come_to_an_end_witness:
  "\<exists>hist effects. loader_run example_loader_env (take 6 example_response_events) example_proxy = Some (hist, effects) \<and>
    ((\<exists>e. is_internal e \<and> loader_step example_loader_env e (last hist) \<noteq> None) \<or>
     (\<exists>t\<in>set (rn_tasks (lf_runner (last hist))).
        end_task (le_net example_loader_env) (lf_frames (last hist)) (lf_runner (last hist)) t = None) \<or>
     waiting (last hist) = 0)"
proof -
  obtain hist effects where r: "loader_run example_loader_env (take 6 example_response_events) example_proxy = Some (hist, effects)"
    using example_pauses by blast
  have "last hist \<in> set hist" using run_not_empty [OF r] by simp
  then show ?thesis
    using checks_come_to_an_end [OF r [unfolded example_proxy_def], of "last hist" "[]" "[last hist]" "[]"] r
    by auto
qed

text \<open>C37: The factory tells its owner that it is to be destroyed at most once, and only when no client is connected to
  it and none of its requests is left.\<close>

theorem factory_is_destroyed_at_most_once:
  assumes "loader_run env es (new_AdblockURLLoaderFactory host_id observers frames site_keys snapshot) = Some (hist, effects)"
  shows "length (filter (\<lambda>e. e = Factory_disconnected) effects) \<le> 1 \<and>
    (Factory_disconnected \<in> set effects \<longrightarrow> lf_proxies (last hist) = 0 \<and> lf_requests (last hist) = [])"
proof -
  let ?f = "new_AdblockURLLoaderFactory host_id observers frames site_keys snapshot"
  have "closed_properly ?f" "\<not> lf_disconnected ?f" by (simp_all add: new_AdblockURLLoaderFactory_def closed_properly_def)
  then have c: "closings effects = of_bool (lf_disconnected (last hist))" "closed_properly (last hist)"
    using loader_run_closes [OF assms] run_not_empty [OF assms] by auto
  have "lf_disconnected (last hist)" if "Factory_disconnected \<in> set effects"
    using c(1) that by (cases "lf_disconnected (last hist)") (auto simp: closings_def filter_empty_conv)
  then show ?thesis using c by (auto simp: closings_def closed_properly_def)
qed

definition example_end_events :: "loader_event list" where
  "example_end_events = [Create_event (example_request example_page), Clone_event, Proxy_error, Proxy_error, Bindings_closed 0]"

lemma example_ends: "\<exists>hist effects. loader_run example_loader_env example_end_events example_proxy = Some (hist, effects) \<and>
    Factory_disconnected \<in> set effects"
proof -
  have "case loader_run example_loader_env example_end_events example_proxy of
      Some r \<Rightarrow> Factory_disconnected \<in> set (snd r) | None \<Rightarrow> False"
    by code_simp
  then show ?thesis by (auto split: option.splits)
qed

theorem factory_is_destroyed_at_most_once_witness:
  "\<exists>hist effects. loader_run example_loader_env example_end_events example_proxy = Some (hist, effects) \<and>
    length (filter (\<lambda>e. e = Factory_disconnected) effects) \<le> 1 \<and> lf_requests (last hist) = []"
proof -
  obtain hist effects where r: "loader_run example_loader_env example_end_events example_proxy = Some (hist, effects)"
      "Factory_disconnected \<in> set effects"
    using example_ends by blast
  show ?thesis using factory_is_destroyed_at_most_once [OF r(1) [unfolded example_proxy_def]] r by blast
qed

end
