(* ===== verification/Service_Facts.thy ===== *)
theory Service_Facts
  imports Subscription_Service
begin

text \<open>
  What keeps the service in order: an enabled configuration, and no other, has a maintainer, and that maintainer
  works on the configuration as it is now. The laws a maintainer has to obey are a locale, which the maintainers of
  \<open>filtering_configuration_maintainer_impl.cc\<close> satisfy.
\<close>

section \<open>The invariant\<close>

definition entry_ok :: "(FilteringConfiguration \<Rightarrow> 'm \<Rightarrow> bool) \<Rightarrow> 'm service_entry \<Rightarrow> bool" where
  "entry_ok maintains e \<longleftrightarrow> config_ok (en_configuration e) \<and>
     (case en_maintainer e of
        None \<Rightarrow> \<not> IsEnabled (en_configuration e)
      | Some m \<Rightarrow> IsEnabled (en_configuration e) \<and> maintains (en_configuration e) m)"

definition service_ok :: "(FilteringConfiguration \<Rightarrow> 'm \<Rightarrow> bool) \<Rightarrow> 'm service \<Rightarrow> bool" where
  "service_ok maintains s \<longleftrightarrow> sorted_wrt (<) (map en_address (sv_maintainers s)) \<and>
     (\<forall>e\<in>set (sv_maintainers s). entry_ok maintains e)"

lemma change_entry_entries [simp]:
  "sv_maintainers (change_entry a f s) = map (\<lambda>e. if en_address e = a then f e else e) (sv_maintainers s)"
  by (simp add: change_entry_def)

lemma change_entry_ok:
  assumes "service_ok maintains s" "\<And>e. en_address (f e) = en_address e"
    "\<And>e. e \<in> set (sv_maintainers s) \<Longrightarrow> en_address e = a \<Longrightarrow> entry_ok maintains (f e)"
  shows "service_ok maintains (change_entry a f s)"
proof -
  have eq: "map en_address (map (\<lambda>e. if en_address e = a then f e else e) es) = map en_address es" for es
    using assms(2) by simp
  show ?thesis
    unfolding service_ok_def change_entry_entries eq using assms(1,3) by (auto simp: service_ok_def)
qed

lemma change_entry_twice:
  "(\<And>e. en_address (f e) = en_address e) \<Longrightarrow> change_entry a g (change_entry a f s) = change_entry a (g \<circ> f) s"
  by (simp add: change_entry_def)

lemma find_entry_SomeD: "find_entry a s = Some e \<Longrightarrow> e \<in> set (sv_maintainers s) \<and> en_address e = a"
  by (auto simp: find_entry_def find_Some_iff)

lemma find_entry_None: "find_entry a s = None \<longleftrightarrow> a \<notin> en_address ` set (sv_maintainers s)"
  by (auto simp: find_entry_def find_None_iff)

lemma changed_entry_found:
  assumes "find_entry a s = Some entry" "\<And>e. en_address (f e) = en_address e"
  shows "find_entry a (change_entry a f (s\<lparr>sv_prefs := prefs\<rparr>)) = Some (f entry)"
proof -
  have "List.find (\<lambda>e. en_address e = a) (map (\<lambda>e. if en_address e = a then f e else e) es) =
      map_option f (List.find (\<lambda>e. en_address e = a) es)" for es
    by (induction es) (simp_all add: assms(2))
  then show ?thesis using assms(1) by (simp add: find_entry_def)
qed

lemma same_entry:
  assumes "service_ok maintains s" "e \<in> set (sv_maintainers s)" "e' \<in> set (sv_maintainers s)" "en_address e = en_address e'"
  shows "e = e'"
proof -
  have "distinct (map en_address (sv_maintainers s))"
    using assms(1) strict_sorted_iff by (auto simp: service_ok_def)
  then show ?thesis using assms(2-4) by (meson distinct_map inj_onD)
qed

lemma insort_addresses:
  "sorted_wrt (<) (map en_address es) \<Longrightarrow> en_address e \<notin> en_address ` set es \<Longrightarrow>
     sorted_wrt (<) (map en_address (insort_key en_address e es))"
proof (induction es)
  case (Cons x xs)
  then show ?case by (auto simp: set_insort_key)
qed simp

lemma enabled_unless_changed: "set_enabled (settings_of c) = IsEnabled c"
  by (simp add: settings_of_def)

lemma enabled_after_op:
  assumes "config_ok c" "notification_of op \<noteq> EnabledStateChanged"
  shows "IsEnabled (fst (apply_op op c prefs)) = IsEnabled c"
  using apply_op_settings [OF assms(1), of op prefs] assms(2)
  by (cases op) (simp_all flip: enabled_unless_changed del: apply_op.simps)

section \<open>The laws of a maintainer\<close>

text \<open>What can happen: configurations are read from the preferences, and maintainers work as the second argument says.\<close>

fun event_allowed :: "(('m \<Rightarrow> 'm) \<Rightarrow> bool) \<Rightarrow> 'm service_event \<Rightarrow> bool" where
  "event_allowed works (Install_configuration a c) \<longleftrightarrow> config_ok c"
| "event_allowed works (Maintainer_works a w) \<longleftrightarrow> works w"
| "event_allowed works e \<longleftrightarrow> True"

locale configuration_keeper =
  fixes ops :: "'m maintainer_ops" and maintains :: "FilteringConfiguration \<Rightarrow> 'm \<Rightarrow> bool" and works :: "('m \<Rightarrow> 'm) \<Rightarrow> bool"
  assumes made: "maintains c (mo_make ops c directories)"
    and told: "config_ok c \<Longrightarrow> maintains c m \<Longrightarrow> notification_of op \<noteq> EnabledStateChanged \<Longrightarrow> apply_op op c prefs = (c', prefs', ns) \<Longrightarrow>
      maintains c' (mo_notified ops (notification_of op) c' m)"
    and worked: "works w \<Longrightarrow> maintains c m \<Longrightarrow> maintains c (w m)"
begin

text \<open>The new maintainer loads what is in the directories then.\<close>

lemma enabled_state_changed:
  assumes "find_entry a s = Some entry"
  shows "\<exists>m ds. sv_OnEnabledStateChanged ops a s = change_entry a (\<lambda>e. e\<lparr>en_maintainer := m\<rparr>) (s\<lparr>sv_directories := ds\<rparr>) \<and>
    (case m of None \<Rightarrow> \<not> IsEnabled (en_configuration entry)
     | Some w \<Rightarrow> IsEnabled (en_configuration entry) \<and> maintains (en_configuration entry) w)"
  using assms made by (auto simp: sv_OnEnabledStateChanged_def Let_def MakeMaintainer_def)

lemma install_ok:
  assumes "service_ok maintains s" "config_ok c"
  shows "service_ok maintains (InstallFilteringConfiguration ops a c s)"
proof (cases "find_entry a s")
  case None
  then have "a \<notin> en_address ` set (sv_maintainers s)" by (simp add: find_entry_None)
  then show ?thesis using assms None made
    by (auto simp: service_ok_def InstallFilteringConfiguration_def Let_def set_insort_key entry_ok_def MakeMaintainer_def
      intro!: insort_addresses)
next
  case (Some e)
  then show ?thesis using assms by (simp add: InstallFilteringConfiguration_def Let_def)
qed

lemma configuration_change_ok:
  assumes "service_ok maintains s"
  shows "service_ok maintains (service_step ops (Change_configuration a op) s)"
proof (cases "find_entry a s")
  case None
  then show ?thesis using assms by simp
next
  case (Some entry)
  have entry: "entry \<in> set (sv_maintainers s)" "en_address entry = a" using find_entry_SomeD [OF Some] by simp_all
  have only: "e = entry" if "e \<in> set (sv_maintainers s)" "en_address e = a" for e
    using same_entry [OF assms that(1) entry(1)] entry(2) that(2) by simp
  have ok: "entry_ok maintains entry" using assms entry(1) by (simp add: service_ok_def)
  have cfg: "config_ok (en_configuration entry)" using ok by (simp add: entry_ok_def)
  obtain c prefs ns where r: "apply_op op (en_configuration entry) (sv_prefs s) = (c, prefs, ns)"
    by (cases "apply_op op (en_configuration entry) (sv_prefs s)") auto
  have c: "config_ok c" using apply_op_ok [OF cfg, of op "sv_prefs s"] r by simp
  let ?s = "s\<lparr>sv_prefs := prefs\<rparr>"
  have s: "service_ok maintains ?s" "sv_maintainers ?s = sv_maintainers s" using assms by (simp_all add: service_ok_def)
  consider "c = en_configuration entry" "ns = []" | "ns = [notification_of op]"
    using apply_op_shape [of op "en_configuration entry" "sv_prefs s"] r by fastforce
  then show ?thesis
  proof cases
    case 1
    have "service_ok maintains (change_entry a (\<lambda>e. e\<lparr>en_configuration := c\<rparr>) ?s)"
      by (rule change_entry_ok [OF s(1)]) (use only ok 1(1) in \<open>auto simp: entry_ok_def\<close>)
    then show ?thesis using Some r 1(2) by simp
  next
    case 2
    have "service_ok maintains (notified ops a (notification_of op) (change_entry a (\<lambda>e. e\<lparr>en_configuration := c\<rparr>) ?s))"
    proof (cases "notification_of op = EnabledStateChanged")
      case True
      let ?t = "change_entry a (\<lambda>e. e\<lparr>en_configuration := c\<rparr>) ?s"
      obtain entry' where e': "find_entry a ?t = Some entry'" "en_configuration entry' = c"
        using changed_entry_found [OF Some, of "\<lambda>e. e\<lparr>en_configuration := c\<rparr>" prefs] by auto
      obtain m ds where "sv_OnEnabledStateChanged ops a ?t = change_entry a (\<lambda>e. e\<lparr>en_maintainer := m\<rparr>) (?t\<lparr>sv_directories := ds\<rparr>)"
        "case m of None \<Rightarrow> \<not> IsEnabled c | Some w \<Rightarrow> IsEnabled c \<and> maintains c w"
        using enabled_state_changed [OF e'(1)] unfolding e'(2) by blast
      moreover have "change_entry a f (?t\<lparr>sv_directories := ds\<rparr>) =
          change_entry a (f \<circ> (\<lambda>e. e\<lparr>en_configuration := c\<rparr>)) (?s\<lparr>sv_directories := ds\<rparr>)" for f ds
        by (simp add: change_entry_def)
      moreover have "service_ok maintains (?s\<lparr>sv_directories := ds\<rparr>)" using s(1) by (simp add: service_ok_def)
      ultimately show ?thesis
        using True c by (auto simp: notified_def entry_ok_def intro!: change_entry_ok split: option.splits)
    next
      case False
      have "IsEnabled c = IsEnabled (en_configuration entry)" using enabled_after_op [OF cfg False, of "sv_prefs s"] r by simp
      moreover have "maintains c (mo_notified ops (notification_of op) c m)" if "en_maintainer entry = Some m" for m
        using ok that told [OF cfg _ False r] by (simp add: entry_ok_def)
      ultimately show ?thesis
        unfolding notified_def using c False ok only
        by (auto simp: change_entry_twice entry_ok_def intro!: change_entry_ok [OF s(1)] split: option.splits)
    qed
    then show ?thesis using Some r 2 by simp
  qed
qed

lemma service_step_ok:
  assumes "service_ok maintains s" "event_allowed works e"
  shows "service_ok maintains (service_step ops e s)"
proof (cases e)
  case (Install_configuration a c)
  then show ?thesis using assms install_ok by simp
next
  case (Change_configuration a op)
  then show ?thesis using configuration_change_ok [OF assms(1)] by blast
next
  case (Maintainer_works a w)
  have "service_ok maintains (change_entry a (\<lambda>entry. entry\<lparr>en_maintainer := map_option w (en_maintainer entry)\<rparr>) s)"
    by (rule change_entry_ok [OF assms(1)])
      (use assms Maintainer_works worked in \<open>auto simp: service_ok_def entry_ok_def split: option.splits\<close>)
  then show ?thesis using Maintainer_works by simp
qed (use assms(1) in \<open>simp_all add: service_ok_def sv_AddObserver_def sv_RemoveObserver_def\<close>)

lemma service_run_ok:
  "service_ok maintains s \<Longrightarrow> list_all (event_allowed works) es \<Longrightarrow> service_ok maintains (service_run ops es s)"
  unfolding service_run_def by (induction es arbitrary: s) (simp_all add: service_step_ok)

end

section \<open>The maintainers of the profile\<close>

subsection \<open>The laws hold\<close>

text \<open>A maintainer works on the configuration as it is. Once it has loaded the stored lists, its custom filters are those of the
  configuration; until then it has no lists, and no custom filters or those of the configuration, and the load goes on.\<close>

definition in_step :: "maintainer_env \<Rightarrow> FilteringConfiguration \<Rightarrow> maintainer \<Rightarrow> bool" where
  "in_step env c s \<longleftrightarrow> mt_configuration s = c \<and>
     (if mt_initialized s then mt_loading s = Not_loading \<and> mt_custom_filters s = custom_list env c
      else mt_loading s \<noteq> Not_loading \<and> idle s \<and> mt_custom_filters s \<in> {None, custom_list env c})"

lemma in_step_observed:
  assumes "in_step env c m"
  shows "mt_configuration m = c"
    "if mt_initialized m then mt_loading m = Not_loading \<and> mt_custom_filters m = custom_list env c
     else mt_loading m \<noteq> Not_loading \<and> GetReadySubscriptions env m = [] \<and> GetPendingSubscriptions m = [] \<and>
       mt_custom_filters m \<in> {None, custom_list env c} \<and>
       GetSubscriptionCollection m = (case mt_custom_filters m of None \<Rightarrow> [] | Some l \<Rightarrow> [l])"
  using assms by (simp_all add: in_step_def idle_def GetReadySubscriptions_def GetPendingSubscriptions_def GetSubscriptionCollection_def
      split: if_splits)

definition works_on :: "maintainer_env \<Rightarrow> FilteringConfiguration \<Rightarrow> maintainer option \<Rightarrow> bool" where
  "works_on env c m \<longleftrightarrow> (case m of None \<Rightarrow> True | Some s \<Rightarrow> in_step env c s)"

lemma made_in_step: "in_step env c (MakeFilterConfigurationMaintainer env c directories)"
  by (simp add: in_step_def MakeFilterConfigurationMaintainer_def InitializeStorage_def new_Maintainer_def idle_def
      new_provider_preloads_nothing)

lemma same_custom_list:
  assumes "config_ok c" "apply_op op c prefs = (c', prefs', ns)" "notification_of op = FilterListsChanged"
  shows "custom_list env c' = custom_list env c"
proof -
  have "settings_of c' = change_settings op (settings_of c)" using apply_op_settings [OF assms(1), of op prefs] assms(2) by simp
  then have "set_domains (settings_of c') = set_domains (settings_of c)" "set_filters (settings_of c') = set_filters (settings_of c)"
    using assms(3) by (cases op; simp)+
  then show ?thesis by (simp add: custom_list_def custom_lines_def settings_of_def)
qed

definition maintainer_work :: "maintainer_env \<Rightarrow> (maintainer option \<Rightarrow> maintainer option) \<Rightarrow> bool" where
  "maintainer_work env w \<longleftrightarrow> (\<exists>e. \<not> changes_configuration e \<and> w = (\<lambda>m. Option.bind m (maintainer_step env e)))"

lemma custom_filters_in_step:
  assumes "mt_configuration s = c" "mt_initialized s \<longleftrightarrow> mt_loading s = Not_loading" "\<not> mt_initialized s \<longrightarrow> idle s"
  shows "in_step env c (SetCustomFilters env s)"
proof -
  have "kept (SetCustomFilters env s) = (c, custom_list env c, mt_initialized s, mt_loading s)"
    using assms(1) by (simp add: SetCustomFilters_kept)
  moreover have "idle (SetCustomFilters env s) = idle s" by (simp add: idle_def SetCustomFilters_fields)
  ultimately show ?thesis using assms(2,3) by (simp add: in_step_def kept_def)
qed

lemma notified_in_step:
  assumes "config_ok c" "in_step env c s" "notification_of op \<noteq> EnabledStateChanged" "apply_op op c prefs = (c', prefs', ns)"
    "on_notification env (notification_of op) (s\<lparr>mt_configuration := c'\<rparr>) = Some t"
  shows "in_step env c' t"
proof -
  let ?s = "s\<lparr>mt_configuration := c'\<rparr>"
  have custom: "in_step env c' (SetCustomFilters env ?s)"
    using assms(2) by (intro custom_filters_in_step) (auto simp: in_step_def split: if_splits)
  show ?thesis
  proof (cases "notification_of op")
    case FilterListsChanged
    have same: "custom_list env c' = custom_list env c" by (rule same_custom_list [OF assms(1,4) FilterListsChanged])
    have t: "OnFilterListsChanged env ?s = Some t" using assms(5) FilterListsChanged by simp
    have "kept t = kept ?s" by (rule OnFilterListsChanged_kept [OF t])
    moreover have "\<not> mt_initialized s \<Longrightarrow> t = ?s" using t by (simp add: OnFilterListsChanged_def)
    ultimately show ?thesis using assms(2) same by (auto simp: in_step_def kept_def split: if_splits)
  next
    case AllowedDomainsChanged
    then show ?thesis using assms(5) custom by (simp add: OnAllowedDomainsChanged_def OnCustomFiltersChanged_def)
  next
    case CustomFiltersChanged
    then show ?thesis using assms(5) custom by (simp add: OnCustomFiltersChanged_def)
  qed (use assms(3) in simp)
qed

lemma worked_in_step:
  assumes "in_step env c s" "maintainer_step env e s = Some t" "\<not> changes_configuration e"
  shows "in_step env c t"
proof (cases "load_event e")
  case True
  show ?thesis
  proof (cases e)
    case (Directory_read readable mappable)
    then show ?thesis
      using assms(1,2) by (auto simp: in_step_def read_directory_def split: load_state.splits prod.splits if_splits)
  next
    case Load_replied
    then obtain fs loaded st where "StorageInitialized env loaded (s\<lparr>mt_storage := st, mt_loading := Not_loading\<rparr>) = Some t"
      using assms(2) by (auto simp: load_replied_def split: load_state.splits prod.splits)
    from StorageInitialized_kept [OF this] show ?thesis
      using assms(1) by (simp add: in_step_def kept_def)
  qed (use True in simp_all)
next
  case False
  have "kept t = kept s" by (rule maintainer_step_kept [OF assms(2,3) False])
  moreover have "idle s \<Longrightarrow> idle t" by (rule maintainer_step_idle [OF assms(2,3) False])
  ultimately show ?thesis using assms(1) by (auto simp: in_step_def kept_def split: if_splits)
qed

interpretation profile: configuration_keeper "profile_ops env" "works_on env" "maintainer_work env" for env
proof unfold_locales
  fix c directories show "works_on env c (mo_make (profile_ops env) c directories)"
    by (simp add: works_on_def profile_ops_def made_in_step)
next
  fix c m op prefs c' prefs' ns
  assume "config_ok c" "works_on env c m" "notification_of op \<noteq> EnabledStateChanged" "apply_op op c prefs = (c', prefs', ns)"
  then show "works_on env c' (mo_notified (profile_ops env) (notification_of op) c' m)"
    by (auto simp: works_on_def profile_ops_def intro: notified_in_step split: option.splits)
next
  fix w c m assume "maintainer_work env w" "works_on env c m"
  then show "works_on env c (w m)"
    by (auto simp: works_on_def maintainer_work_def intro: worked_in_step split: option.splits Option.bind_splits)
qed

section \<open>Snapshots\<close>

lemma snapshot_set:
  "set (snapshot_of ops es) = {x. \<exists>e m. e \<in> set es \<and> en_maintainer e = Some m \<and> x = mo_collection ops m}"
proof (induction es)
  case (Cons e es)
  then show ?case by (cases "en_maintainer e") auto
qed simp

lemma new_service_ok: "service_ok maintains (new_SubscriptionService prefs directories)"
  by (simp add: service_ok_def new_SubscriptionService_def)

end
