(* ===== verification/Service_Contract.thy ===== *)
theory Service_Contract
  imports Service_Facts Maintainer_Contract Domain_Allowlisting
begin

text \<open>
  The properties of the subscription service with the maintainers of the profile.
\<close>

section \<open>Examples\<close>

definition example_directories :: directories where
  "example_directories = (\<lambda>dir. Restart (me_storage example_maintainer_env) ''1'' example_last_session)"

definition example_service_events :: "maintainer option service_event list" where
  "example_service_events =
     [Install_configuration 5 example_lists_wanted, Install_configuration 3 (new_FilteringConfiguration [] ''other''),
      Maintainer_works 5 (\<lambda>m. Option.bind m (maintainer_step example_maintainer_env (Directory_read all_files all_files))),
      Change_configuration 3 (Op_SetEnabled False), Change_configuration 5 (Op_AddAllowedDomain ''a.com'')]"

lemma example_service_allowed:
  "list_all (event_allowed (maintainer_work (example_maintainer_env))) example_service_events"
proof -
  have "dict_ok (cfg_dictionary example_lists_wanted)" "dict_ok (cfg_dictionary (new_FilteringConfiguration [] ''other''))"
    by code_simp+
  moreover have "maintainer_work example_maintainer_env (\<lambda>m. Option.bind m (maintainer_step example_maintainer_env (Directory_read all_files all_files)))"
    unfolding maintainer_work_def by (intro exI [of _ "Directory_read all_files all_files"]) simp
  ultimately show ?thesis
    by (simp add: example_service_events_def config_ok_def example_maintainer_env_def)
qed

section \<open>Properties\<close>

text \<open>C9: Whatever happens, in any order, a configuration has a maintainer exactly while it is enabled, and no configuration
  is in the service twice. A maintainer (that made no forbidden call) works on the settings the configuration has now.
  Once the reply to the load of its stored lists has come, its custom filters are made of the custom filters and the allowed
  domains the configuration has now. Until then the load is under way, the maintainer has neither installed nor pending
  lists, and a snapshot gets of it at most those custom filters, which are there when the filters or domains have changed since
  the maintainer was made.\<close>

theorem enabled_configurations_are_maintained:
  assumes "list_all (event_allowed (maintainer_work env)) es"
    "s = service_run (profile_ops env) es (new_SubscriptionService prefs directories)"
  shows "distinct (map en_address (sv_maintainers s)) \<and>
    (\<forall>e\<in>set (sv_maintainers s). (en_maintainer e \<noteq> None \<longleftrightarrow> IsEnabled (en_configuration e)) \<and>
       (\<forall>m. en_maintainer e = Some (Some m) \<longrightarrow> mt_configuration m = en_configuration e \<and>
          (if mt_initialized m then mt_loading m = Not_loading \<and> mt_custom_filters m = custom_list env (en_configuration e)
           else mt_loading m \<noteq> Not_loading \<and> GetReadySubscriptions env m = [] \<and> GetPendingSubscriptions m = [] \<and>
             mt_custom_filters m \<in> {None, custom_list env (en_configuration e)} \<and>
             GetSubscriptionCollection m = (case mt_custom_filters m of None \<Rightarrow> [] | Some l \<Rightarrow> [l]))))"
proof -
  have ok: "service_ok (works_on env) s" unfolding assms(2) by (rule profile.service_run_ok [OF new_service_ok assms(1)])
  have "in_step env (en_configuration e) m" if "e \<in> set (sv_maintainers s)" "en_maintainer e = Some (Some m)" for e m
    using ok that by (force simp: service_ok_def entry_ok_def works_on_def)
  moreover have "en_maintainer e \<noteq> None \<longleftrightarrow> IsEnabled (en_configuration e)" if "e \<in> set (sv_maintainers s)" for e
    using ok that by (auto simp: service_ok_def entry_ok_def split: option.splits)
  moreover have "distinct (map en_address (sv_maintainers s))" using ok unfolding service_ok_def strict_sorted_iff by blast
  ultimately show ?thesis by (intro conjI ballI allI impI) (blast dest: in_step_observed)+
qed

theorem enabled_configurations_are_maintained_witness:
  "list_all (\<lambda>e. en_maintainer e \<noteq> None \<longleftrightarrow> IsEnabled (en_configuration e))
     (sv_maintainers (service_run (profile_ops example_maintainer_env) example_service_events
        (new_SubscriptionService [] example_directories)))"
  unfolding list_all_iff using enabled_configurations_are_maintained [OF example_service_allowed refl] by blast

text \<open>A configuration that is switched off leaves its files, signatures and metadata to the maintainer it gets when it is
  switched on again.\<close>

lemma disabled_configurations_leave_their_files:
  assumes "find_entry a s = Some e" "en_maintainer e = Some (Some m)" "\<not> IsEnabled (en_configuration e)"
  shows "sv_directories (sv_OnEnabledStateChanged (profile_ops env) a s) (storage_dir (en_configuration e)) = mt_storage m"
  using assms by (simp add: sv_OnEnabledStateChanged_def Let_def profile_ops_def destroy_maintainer_def change_entry_def)

lemma enabled_configurations_find_the_files:
  assumes "find_entry a s = Some e" "IsEnabled (en_configuration e)"
  shows "\<exists>e' m. find_entry a (sv_OnEnabledStateChanged (profile_ops env) a s) = Some e' \<and> en_maintainer e' = Some (Some m) \<and>
    mt_storage m = new_Storage (me_schema_version env) (sv_directories s (storage_dir (en_configuration e))) \<and>
    mt_loading m = Reading (st_signatures (mt_storage m))"
  using assms changed_entry_found [OF assms(1), of "\<lambda>e. e\<lparr>en_maintainer := m\<rparr>" "sv_prefs s" for m]
  by (simp add: sv_OnEnabledStateChanged_def Let_def profile_ops_def MakeMaintainer_def MakeFilterConfigurationMaintainer_def
      InitializeStorage_def new_Maintainer_def IsSignatureValid_def find_entry_def change_entry_def)

text \<open>C14: Requests that are judged by the snapshot of the service are blocked exactly when an enabled configuration
  blocks them with the subscriptions of its maintainer; a configuration that is switched off blocks nothing.\<close>

theorem only_enabled_configurations_block:
  assumes "list_all (event_allowed (maintainer_work env)) es"
    "s = service_run (profile_ops env) es (new_SubscriptionService prefs directories)"
  shows "decision (ClassifyRequest net (GetCurrentSnapshot (profile_ops env) s) url frames ct key) = Blocked \<longleftrightarrow>
    (\<exists>e\<in>set (sv_maintainers s). \<exists>m. IsEnabled (en_configuration e) \<and> en_maintainer e = Some m \<and>
       request_blocked_by net (mo_collection (profile_ops env) m) url frames ct key)"
proof -
  have ok: "service_ok (works_on env) s" unfolding assms(2) by (rule profile.service_run_ok [OF new_service_ok assms(1)])
  have enabled: "IsEnabled (en_configuration e)" if "e \<in> set (sv_maintainers s)" "en_maintainer e = Some m" for e m
    using ok that by (force simp: service_ok_def entry_ok_def)
  show ?thesis
    unfolding request_decisions_cs list_ex_iff GetCurrentSnapshot_def snapshot_set using enabled by blast
qed

theorem only_enabled_configurations_block_witness:
  "decision (ClassifyRequest example_env (GetCurrentSnapshot (profile_ops example_maintainer_env)
       (service_run (profile_ops example_maintainer_env) example_service_events (new_SubscriptionService [] example_directories)))
       example_url [] CT_Script []) = Blocked \<longleftrightarrow>
    (\<exists>e\<in>set (sv_maintainers (service_run (profile_ops example_maintainer_env) example_service_events (new_SubscriptionService [] example_directories))).
       \<exists>m. IsEnabled (en_configuration e) \<and> en_maintainer e = Some m \<and>
       request_blocked_by example_env (mo_collection (profile_ops example_maintainer_env) m) example_url [] CT_Script [])"
  by (rule only_enabled_configurations_block [OF example_service_allowed refl])

section \<open>Allowed domains\<close>

lemma special_filter_of_lines:
  assumes "list_serves lines (frame_query env key (u, d))"
  shows "HasSpecialFilter env (new_InstalledSubscriptionImpl env (ConvertFilters v lines list_url allow) st at) t u d key \<longleftrightarrow>
    list_ex (accepts env
        (PreBuildRegexPatternsWithNoKeyword (env_engines env) (ConvertFilters v lines list_url allow) empty_RegexMatcher)
        (frame_query env key (u, d))) (list_filters allow (special_ref t) lines)"
  using assms converted_index_found [OF refl, of env u None d key Allowing lines _ "special_ref t" v list_url allow]
  by (simp add: HasSpecialFilter_def special_index_ref new_InstalledSubscriptionImpl_def list_serves_def frame_query_def)

text \<open>The query that looks for filters for the page of a request.\<close>

definition page_served :: "net_env \<Rightarrow> string list \<Rightarrow> string \<Rightarrow> gurl \<Rightarrow> bool" where
  "page_served env lines key page =
     (let q = frame_query env key (page, host page)
      in list_serves lines q \<and> host (q_lowercase_url q) = host page \<and> CHR ''.'' \<notin> set (scheme (q_lowercase_url q)))"

lemma allowed_domain_covered:
  assumes "plain_domain (host page)" "host page \<in> set (GetAllowedDomains c)"
    "page_served (env_net (me_storage env)) (custom_lines c) key page"
  obtains l where "custom_list env c = Some l"
    "HasSpecialFilter (env_net (me_storage env)) l SF_Document page (host page) key"
proof -
  let ?d = "host page" and ?net = "env_net (me_storage env)" and ?lines = "custom_lines c"
  let ?f = "CreateUrlFilter (allowlisting_filter ?d)" and ?l = "ConvertCustomFilters env (custom_lines c)"
  have line: "CreateDomainAllowlistingFilter ?d \<in> set ?lines" using assms(2) by (simp add: custom_lines_def)
  have "?f \<in> set (list_filters True Document_allow ?lines)"
    using line allowlisting_filter_parse [OF assms(1)] allowlisting_filter_index [of True ?d]
    unfolding set_list_filters url_filters_def by blast
  moreover have "accepts ?net m (frame_query ?net key (page, ?d)) ?f" for m
    using assms(1,3) by (intro allowlisting_filter_accepted) (simp_all add: page_served_def list_serves_def Let_def)
  moreover have "list_serves ?lines (frame_query ?net key (page, ?d))" using assms(3) by (simp add: page_served_def Let_def)
  ultimately have "HasSpecialFilter ?net ?l SF_Document page ?d key"
    unfolding ConvertCustomFilters_def by (subst special_filter_of_lines) (auto simp: list_ex_iff)
  moreover have "custom_list env c = Some ?l" using line by (auto simp: custom_list_def)
  ultimately show thesis by (rule that [rotated])
qed

lemma document_allowed_by_custom_list:
  assumes "mt_custom_filters m = Some l" "HasSpecialFilter env l SF_Document (last frames) (host (last frames)) key" "frames \<noteq> []"
  shows "document_allowed env (GetSubscriptionCollection m) frames key"
proof -
  have "l \<in> set (GetSubscriptionCollection m)" by (simp add: GetSubscriptionCollection_def assms(1))
  then show ?thesis
    unfolding document_allowed_def list_ex_iff using assms(2) last_frame_domain [OF assms(3)] by force
qed

lemma empty_collection_blocks_nothing:
  "\<not> request_blocked_by env [] url frames ct key" "\<not> popup_blocked_by env [] url frames key"
  by (simp_all add: request_blocked_by_def popup_blocked_by_def)

text \<open>C2: Once every enabled configuration allows the domain of a page, no request and no popup of that page is blocked,
  whatever lists are installed, downloaded or preloaded: from the setting through the notification of the maintainer,
  the conversion of the filter made for the domain and the snapshot to the decision; also while stored lists are being loaded.\<close>

theorem pages_of_allowed_domains_are_not_blocked:
  assumes "list_all (event_allowed (maintainer_work env)) es"
    "s = service_run (profile_ops env) es (new_SubscriptionService prefs directories)"
    "frames \<noteq> []" "plain_domain (host (last frames))" "net = env_net (me_storage env)"
    "\<forall>e\<in>set (sv_maintainers s). IsEnabled (en_configuration e) \<longrightarrow>
       host (last frames) \<in> set (GetAllowedDomains (en_configuration e)) \<and>
       page_served net (custom_lines (en_configuration e)) key (last frames)"
  shows "decision (ClassifyRequest net (GetCurrentSnapshot (profile_ops env) s) url frames ct key) \<noteq> Blocked \<and>
    decision (ClassifyPopup net (GetCurrentSnapshot (profile_ops env) s) url frames key) \<noteq> Blocked"
proof -
  have ok: "service_ok (works_on env) s" unfolding assms(2) by (rule profile.service_run_ok [OF new_service_ok assms(1)])
  have "\<not> request_blocked_by net (mo_collection (profile_ops env) m) url frames ct key \<and>
      \<not> popup_blocked_by net (mo_collection (profile_ops env) m) url frames key"
    if e: "e \<in> set (sv_maintainers s)" "en_maintainer e = Some m" for e m
  proof (cases m)
    case None
    then show ?thesis by (simp add: profile_ops_def empty_collection_blocks_nothing)
  next
    case (Some w)
    have "IsEnabled (en_configuration e)" and w: "in_step env (en_configuration e) w"
      using ok e Some by (force simp: service_ok_def entry_ok_def works_on_def)+
    then obtain l where l: "custom_list env (en_configuration e) = Some l"
        "HasSpecialFilter net l SF_Document (last frames) (host (last frames)) key"
      using allowed_domain_covered [OF assms(4), of "en_configuration e" env key] assms(5,6) e(1) by blast
    show ?thesis
    proof (cases "mt_custom_filters w")
      case None
      then have "\<not> mt_initialized w" using w l(1) by (auto simp: in_step_def)
      then have "GetSubscriptionCollection w = []"
        using w None by (simp add: in_step_def idle_def GetSubscriptionCollection_def)
      then show ?thesis using Some by (simp add: profile_ops_def empty_collection_blocks_nothing)
    next
      case (Some l')
      then have "mt_custom_filters w = Some l" using w l(1) by (auto simp: in_step_def split: if_splits)
      then have "document_allowed net (GetSubscriptionCollection w) frames key"
        by (rule document_allowed_by_custom_list [OF _ l(2) assms(3)])
      then show ?thesis using document_allowed_request \<open>m = Some w\<close> by (simp add: profile_ops_def)
    qed
  qed
  then show ?thesis
    unfolding request_decisions_cs popup_blocked_cs list_ex_iff GetCurrentSnapshot_def snapshot_set by blast
qed

definition example_allowing :: "maintainer option service_event list" where
  "example_allowing = [Install_configuration 5 example_lists_wanted, Change_configuration 5 (Op_AddAllowedDomain ''news.com'')]"

definition example_allowed :: FilteringConfiguration where
  "example_allowed = fst (apply_op (Op_AddAllowedDomain ''news.com'') example_lists_wanted [])"

lemma example_allowing_configurations:
  "map en_configuration (sv_maintainers (service_run (profile_ops example_maintainer_env) example_allowing (new_SubscriptionService [] example_directories))) =
     [example_allowed]"
proof -
  have enabled: "IsEnabled example_lists_wanted" by code_simp
  have "snd (snd (apply_op (Op_AddAllowedDomain ''news.com'') example_lists_wanted [])) = [AllowedDomainsChanged]" by code_simp
  then obtain c p where "apply_op (Op_AddAllowedDomain ''news.com'') example_lists_wanted [] = (c, p, [AllowedDomainsChanged])"
    by (metis prod.collapse)
  then show ?thesis
    by (simp add: service_run_def example_allowing_def example_allowed_def InstallFilteringConfiguration_def enabled
        find_entry_def new_SubscriptionService_def change_entry_def notified_def del: apply_op.simps)
qed

theorem pages_of_allowed_domains_are_not_blocked_witness:
  "decision (ClassifyRequest example_env (GetCurrentSnapshot (profile_ops example_maintainer_env)
      (service_run (profile_ops example_maintainer_env) example_allowing (new_SubscriptionService [] example_directories)))
      example_url [simple_gurl ''https://news.com/''] CT_Script []) \<noteq> Blocked"
proof -
  let ?s = "service_run (profile_ops example_maintainer_env) example_allowing (new_SubscriptionService [] example_directories)"
  let ?page = "simple_gurl ''https://news.com/''"
  have events: "list_all (event_allowed (maintainer_work (example_maintainer_env))) example_allowing"
    using example_service_allowed by (simp add: example_allowing_def example_service_events_def)
  have plain: "plain_domain (host (last [?page]))" by code_simp
  have domain: "host ?page = ''news.com''" by code_simp
  have "''news.com'' \<in> set (GetAllowedDomains example_allowed)" "page_served example_env (custom_lines example_allowed) [] ?page"
    by code_simp+
  moreover have "en_configuration e = example_allowed" if "e \<in> set (sv_maintainers ?s)" for e
    using arg_cong [OF example_allowing_configurations, of set] that by auto
  ultimately have allowed: "\<forall>e\<in>set (sv_maintainers ?s). IsEnabled (en_configuration e) \<longrightarrow>
       host (last [?page]) \<in> set (GetAllowedDomains (en_configuration e)) \<and>
       page_served example_env (custom_lines (en_configuration e)) [] (last [?page])"
    using domain by simp
  have net: "example_env = env_net (me_storage (example_maintainer_env))"
    by (simp add: example_maintainer_env_def example_maintainer_env_def)
  show ?thesis
    using pages_of_allowed_domains_are_not_blocked [OF events refl _ plain net allowed] by simp
qed

end
