(* ===== verification/Browser_Contract.thy ===== *)
theory Browser_Contract
  imports Private_Api Proxy_Properties Service_Contract
begin

text \<open>
  The properties of the browser client, of the functions for extensions and of a profile.
\<close>

section \<open>Web sockets\<close>

definition is_opened_socket :: "web_socket \<Rightarrow> web_socket_effect \<Rightarrow> bool" where
  "is_opened_socket w e \<longleftrightarrow> e = Chrome_CreateWebSocket w \<or> (\<exists>header_lines. e = Run_factory (ws_url w) header_lines)"

lemma notes_are_notifications:
  "list_all is_note es \<Longrightarrow> concat (map (web_socket_effects frames i) es) = map Web_socket_notification es"
proof (induction es)
  case (Cons e es)
  then show ?case by (cases e) simp_all
qed simp

lemma web_socket_task_ends:
  assumes "end_task net frames r (Request_task w snapshot url hierarchy ctype key frm) = Some es"
  shows "(\<exists>e\<in>set (concat (map (web_socket_effects frames i) es)). is_opened_socket w e) \<longleftrightarrow>
    FindRenderFrameHost frames (ws_frame w) \<noteq> None \<and>
    decision (ClassifyRequest net snapshot url hierarchy ctype key) \<noteq> Blocked"
proof -
  let ?c = "match_result (ClassifyRequest net snapshot url hierarchy ctype key)"
  obtain ns where es: "es = Run_callback w (cr_status ?c) # ns" "list_all is_note ns"
    using complete_shape [of frames r url hierarchy ctype frm w ?c] assms by (auto simp: CheckRequestFilterMatchInternal_def)
  have none: "\<not> (\<exists>e\<in>set (map Web_socket_notification ns). is_opened_socket w e)" by (auto simp: is_opened_socket_def)
  have "(\<exists>e\<in>set (OnWebSocketFilterCheckCompleted frames i w (cr_status ?c)). is_opened_socket w e) \<longleftrightarrow>
      FindRenderFrameHost frames (ws_frame w) \<noteq> None \<and> cr_status ?c \<noteq> kBlockRule"
    by (cases "FindRenderFrameHost frames (ws_frame w)")
      (auto simp: OnWebSocketFilterCheckCompleted_def is_opened_socket_def)
  then show ?thesis using none
    by (simp only: es(1) list.map concat.simps set_append web_socket_effects.simps notes_are_notifications [OF es(2)] bex_Un
        cr_status_block simp_thms)
qed

text \<open>C28: A web socket of a page that is filtered is opened exactly when its frame is still there and the classifier does
  not block its URL with the lists, frames and site key of the moment it was asked for; whatever the lists do in between.\<close>

theorem web_sockets_are_opened_unless_blocked:
  assumes "IsFilteringNeeded configurations" "FindRenderFrameHost frames (ws_frame w) = Some urls"
    "CreateWebSocket page configurations frames site_keys snapshot w r = ((r', es), effects)"
    "end_task net frames_then r' (last (rn_tasks r')) = Some es'"
  shows "es = [] \<and> effects = [] \<and>
    ((\<exists>e\<in>set (concat (map (web_socket_effects frames_then i) es')). is_opened_socket w e) \<longleftrightarrow>
      FindRenderFrameHost frames_then (ws_frame w) \<noteq> None \<and>
      decision (ClassifyRequest net snapshot (ws_url w) (BuildFrameHierarchy page urls) CT_Websocket
        (case FindSiteKeyForAnyUrl (BuildFrameHierarchy page urls) site_keys of Some (_, key) \<Rightarrow> key | None \<Rightarrow> [])) \<noteq> Blocked)"
proof -
  let ?key = "case FindSiteKeyForAnyUrl (BuildFrameHierarchy page urls) site_keys of Some (_, key) \<Rightarrow> key | None \<Rightarrow> []"
  let ?t = "Request_task w snapshot (ws_url w) (BuildFrameHierarchy page urls) CT_Websocket ?key (ws_frame w)"
  have r: "r' = post_task ?t r" "es = []" "effects = []"
    using assms(1-3) by (simp_all add: CreateWebSocket_def CreateWebSocketInternal_def CheckRequestFilterMatchForWebSocket_def
        CheckRequestFilterMatchImpl_def Let_def)
  have "last (rn_tasks r') = ?t" by (simp add: r(1) post_task_def)
  then show ?thesis using assms(4) r(2,3) by (simp only: web_socket_task_ends simp_thms)
qed

definition example_socket :: web_socket where
  "example_socket = \<lparr>ws_frame = 7, ws_url = simple_gurl ''wss://ads.example.com/socket'', ws_user_agent = Some ''agent''\<rparr>"

theorem web_sockets_are_opened_unless_blocked_witness:
  "(\<exists>e\<in>set (concat (map (web_socket_effects [(7, [example_page])] False)
      (the (end_task example_env [(7, [example_page])] \<lparr>rn_observers = [], rn_tasks = []\<rparr>
        (last (rn_tasks (fst (fst (CreateWebSocket example_page_env (Some [example_lists_wanted]) [(7, [example_page])] []
           [[example_subscription]] example_socket \<lparr>rn_observers = [], rn_tasks = []\<rparr>))))))))). is_opened_socket example_socket e)"
proof -
  let ?frames = "[(7, [example_page])]" and ?r = "\<lparr>rn_observers = [], rn_tasks = []\<rparr> :: web_socket runner"
  let ?c = "CreateWebSocket example_page_env (Some [example_lists_wanted]) ?frames [] [[example_subscription]] example_socket ?r"
  have needed: "IsFilteringNeeded (Some [example_lists_wanted])" by code_simp
  have found: "FindRenderFrameHost ?frames (ws_frame example_socket) = Some [example_page]"
    by (simp add: FindRenderFrameHost_def example_socket_def)
  obtain r' es effects where c: "?c = ((r', es), effects)" by (metis surj_pair)
  have task: "last (rn_tasks r') = Request_task example_socket [[example_subscription]] (ws_url example_socket)
      (BuildFrameHierarchy example_page_env [example_page]) CT_Websocket [] (ws_frame example_socket)"
    using c needed found by (auto simp: CreateWebSocket_def CreateWebSocketInternal_def CheckRequestFilterMatchForWebSocket_def
        CheckRequestFilterMatchImpl_def Let_def post_task_def split: option.splits)
  have dec: "decision (ClassifyRequest example_env [[example_subscription]] (ws_url example_socket)
      (BuildFrameHierarchy example_page_env [example_page]) CT_Websocket
      (case FindSiteKeyForAnyUrl (BuildFrameHierarchy example_page_env [example_page]) [] of Some (_, key) \<Rightarrow> key | None \<Rightarrow> [])) \<noteq> Blocked"
    by code_simp
  obtain es' where e: "end_task example_env ?frames r' (last (rn_tasks r')) = Some es'" unfolding task by simp
  have same: "end_task example_env ?frames ?r (last (rn_tasks r')) = Some es'"
    using e c needed found unfolding task
    by (auto simp: CreateWebSocket_def CreateWebSocketInternal_def CheckRequestFilterMatchForWebSocket_def
        CheckRequestFilterMatchImpl_def Let_def post_task_def OnCheckResourceFilterMatchComplete_def NotifyAdMatched_def)
  have "\<exists>x\<in>set (concat (map (web_socket_effects ?frames False) es')). is_opened_socket example_socket x"
    using web_sockets_are_opened_unless_blocked [OF needed found c e] found dec by simp
  then show ?thesis using c same by simp
qed

section \<open>Popups and events\<close>

lemma one_notification:
  "distinct xs \<Longrightarrow> concat (map (\<lambda>x. if x = a then [e] else []) xs) = (if a \<in> set xs then [e] else [])"
proof (induction xs)
  case (Cons x xs)
  then show ?case by (cases "x = a") auto
qed simp

lemma routed_notifications:
  "concat (map (router_events tabs router) (NotifyAdMatched r url match hierarchy ctype frm sub)) =
     concat (map (\<lambda>x. if x = router then [OnAdMatched tabs url match hierarchy ctype frm sub] else []) (rn_observers r))"
  by (simp add: NotifyAdMatched_def comp_def cong: map_cong)

text \<open>A window opens exactly when Chromium would open it or a filter of the page allows it, and no configuration of the
  snapshot blocks it; without an enabled configuration the lists are not asked.\<close>

theorem popups_open_unless_blocked:
  "fst (CanCreateWindow net page FilterURL configurations site_keys snapshot opener_id opener url chrome_allows r) \<longleftrightarrow>
     (if IsFilteringNeeded configurations then
        (let hierarchy = BuildFrameHierarchy page opener;
             key = (case FindSiteKeyForAnyUrl hierarchy site_keys of Some (_, key) \<Rightarrow> key | None \<Rightarrow> [])
         in \<not> list_ex (\<lambda>c. popup_blocked_by net c (FilterURL url) hierarchy key) snapshot \<and>
            (chrome_allows \<or> decision (ClassifyPopup net snapshot (FilterURL url) hierarchy key) = Allowed))
      else chrome_allows)"
proof -
  have "decision c = Blocked \<or> decision c = Allowed \<or> decision c = Ignored" for c by (cases "decision c") simp_all
  then show ?thesis
    unfolding popup_blocked_cs [symmetric] CanCreateWindow_def ShouldBlockPopup_def Let_def by (auto split: if_splits)
qed

text \<open>While the router of the extensions observes the runner, every request that is blocked or allowed in a frame that is
  still there makes one event, with the URL, the frames, the type and the subscription of the decision; a request that no
  filter matches makes none.\<close>

theorem extensions_are_told_of_every_decision:
  assumes "distinct (rn_observers r)" "router \<in> set (rn_observers r)" "FindRenderFrameHost frames frm \<noteq> None"
    "end_task net frames r (Request_task k snapshot url hierarchy ctype key frm) = Some es"
  shows "concat (map (router_events tabs router) es) =
    (let c = ClassifyRequest net snapshot url hierarchy ctype key;
         info = \<lparr>ai_url = spec url, ai_subscription = spec (decisive_subscription c), ai_parent_frame_urls = map spec hierarchy,
           ai_content_type = ContentTypeToString ctype,
           ai_tab_id = (case tabs frm of Some (tab, window) \<Rightarrow> tab | None \<Rightarrow> -1),
           ai_window_id = (case tabs frm of Some (tab, window) \<Rightarrow> window | None \<Rightarrow> -1)\<rparr>
     in case decision c of Blocked \<Rightarrow> [OnAdBlocked info] | Allowed \<Rightarrow> [OnAdAllowed info] | Ignored \<Rightarrow> [])"
proof -
  let ?c = "ClassifyRequest net snapshot url hierarchy ctype key"
  have es: "es = OnCheckResourceFilterMatchComplete frames r url hierarchy ctype frm k (match_result ?c)"
    using assms(4) by (simp add: CheckRequestFilterMatchInternal_def)
  show ?thesis
    using assms(2,3) by (cases "decision ?c")
      (simp_all add: es OnCheckResourceFilterMatchComplete_def match_result_def routed_notifications one_notification [OF assms(1)]
        OnAdMatched_def CreateAdInfoObject_def ConvertURLs_def Let_def)
qed

theorem extensions_are_told_of_every_decision_witness:
  "concat (map (router_events (\<lambda>frm. Some (1, 2)) 9)
      (the (end_task example_env [(7, [example_page])] \<lparr>rn_observers = [4, 9], rn_tasks = []\<rparr>
        (Request_task () [[example_subscription]] example_url [simple_gurl ''https://news.com/''] CT_Script [] 7)))) =
    [OnAdBlocked \<lparr>ai_url = ''https://ads.example.com/banner/1.js'', ai_subscription = ''https://lists.example.org/list.txt'',
      ai_parent_frame_urls = [''https://news.com/''], ai_content_type = ''SCRIPT'', ai_tab_id = 1, ai_window_id = 2\<rparr>]"
proof -
  let ?r = "\<lparr>rn_observers = [4, 9], rn_tasks = []\<rparr> :: unit runner" and ?frames = "[(7, [example_page])]"
  let ?c = "ClassifyRequest example_env [[example_subscription]] example_url [simple_gurl ''https://news.com/''] CT_Script []"
  obtain es where es: "end_task example_env ?frames ?r
      (Request_task () [[example_subscription]] example_url [simple_gurl ''https://news.com/''] CT_Script [] 7) = Some es" by simp
  have "decision ?c = Blocked" "spec (decisive_subscription ?c) = ''https://lists.example.org/list.txt''"
    "spec example_url = ''https://ads.example.com/banner/1.js''" "spec (simple_gurl ''https://news.com/'') = ''https://news.com/''"
    "ContentTypeToString CT_Script = ''SCRIPT''" by code_simp+
  then show ?thesis
    using extensions_are_told_of_every_decision [OF _ _ _ es, of 9 "\<lambda>frm. Some (1, 2)"] es
    by (simp add: Let_def FindRenderFrameHost_def)
qed

end
