(* ===== verification/Extension_Contract.thy ===== *)
theory Extension_Contract
  imports Private_Api Controller_Facts
begin

text \<open>
  What extensions can do to the settings, and what a profile starts with.
\<close>

section \<open>Calls of an extension\<close>

datatype extension_call =
    Call_SetEnabled bool
  | Call_SetAcceptableAdsEnabled bool
  | Call_SelectBuiltInSubscription string
  | Call_UnselectBuiltInSubscription string
  | Call_AddCustomSubscription string
  | Call_RemoveCustomSubscription string
  | Call_InstallSubscription string
  | Call_UninstallSubscription string
  | Call_AddAllowedDomain string
  | Call_RemoveAllowedDomain string
  | Call_AddCustomFilter string
  | Call_RemoveCustomFilter string

fun run_call :: "config_env \<Rightarrow> extension_call \<Rightarrow> controller \<Rightarrow> api_result" where
  "run_call env (Call_SetEnabled b) s = SetEnabled_Run b s"
| "run_call env (Call_SetAcceptableAdsEnabled b) s = SetAcceptableAdsEnabled_Run env b s"
| "run_call env (Call_SelectBuiltInSubscription u) s = SelectBuiltInSubscription_Run env u s"
| "run_call env (Call_UnselectBuiltInSubscription u) s = UnselectBuiltInSubscription_Run env u s"
| "run_call env (Call_AddCustomSubscription u) s = AddCustomSubscription_Run env u s"
| "run_call env (Call_RemoveCustomSubscription u) s = RemoveCustomSubscription_Run env u s"
| "run_call env (Call_InstallSubscription u) s = InstallSubscription_Run env u s"
| "run_call env (Call_UninstallSubscription u) s = UninstallSubscription_Run env u s"
| "run_call env (Call_AddAllowedDomain d) s = AddAllowedDomain_Run d s"
| "run_call env (Call_RemoveAllowedDomain d) s = RemoveAllowedDomain_Run d s"
| "run_call env (Call_AddCustomFilter f) s = AddCustomFilter_Run f s"
| "run_call env (Call_RemoveCustomFilter f) s = RemoveCustomFilter_Run f s"

fun run_calls :: "config_env \<Rightarrow> extension_call list \<Rightarrow> controller \<Rightarrow> api_response list \<times> controller" where
  "run_calls env [] s = ([], s)"
| "run_calls env (c # cs) s =
     (let (response, s) = run_call env c s; (responses, s) = run_calls env cs s in (response # responses, s))"

text \<open>What a call demands: an operation on the settings, or the message of an error.\<close>

definition demand_valid :: "gurl \<Rightarrow> config_op \<Rightarrow> string + config_op" where
  "demand_valid url op = (if is_valid url then Inr op else Inl ''Invalid URL'')"

definition demand_known :: "KnownSubscriptionInfo list \<Rightarrow> gurl \<Rightarrow> config_op \<Rightarrow> string + config_op" where
  "demand_known kss url op =
     (if is_valid url \<and> kss \<noteq> [] \<and> url \<notin> ks_url ` set kss then Inl ''Not a built-in subscription''
      else demand_valid url op)"

fun demanded :: "config_env \<Rightarrow> KnownSubscriptionInfo list \<Rightarrow> extension_call \<Rightarrow> string + config_op" where
  "demanded env kss (Call_SetEnabled b) = Inr (Op_SetEnabled b)"
| "demanded env kss (Call_SetAcceptableAdsEnabled b) = Inr (acceptable_ads_op env b)"
| "demanded env kss (Call_SelectBuiltInSubscription u) = demand_known kss (ce_parse_url env u) (Op_AddFilterList (ce_parse_url env u))"
| "demanded env kss (Call_UnselectBuiltInSubscription u) = demand_known kss (ce_parse_url env u) (Op_RemoveFilterList (ce_parse_url env u))"
| "demanded env kss (Call_AddCustomSubscription u) = demand_valid (ce_parse_url env u) (Op_AddFilterList (ce_parse_url env u))"
| "demanded env kss (Call_RemoveCustomSubscription u) = demand_valid (ce_parse_url env u) (Op_RemoveFilterList (ce_parse_url env u))"
| "demanded env kss (Call_InstallSubscription u) = demand_valid (ce_parse_url env u) (Op_AddFilterList (ce_parse_url env u))"
| "demanded env kss (Call_UninstallSubscription u) = demand_valid (ce_parse_url env u) (Op_RemoveFilterList (ce_parse_url env u))"
| "demanded env kss (Call_AddAllowedDomain d) = Inr (Op_AddAllowedDomain d)"
| "demanded env kss (Call_RemoveAllowedDomain d) = Inr (Op_RemoveAllowedDomain d)"
| "demanded env kss (Call_AddCustomFilter f) = Inr (Op_AddCustomFilter f)"
| "demanded env kss (Call_RemoveCustomFilter f) = Inr (Op_RemoveCustomFilter f)"

definition answer_to :: "string + config_op \<Rightarrow> api_response" where
  "answer_to demand = (case demand of Inl status \<Rightarrow> Api_error status | Inr op \<Rightarrow> NoArguments)"

definition demanded_ops :: "config_env \<Rightarrow> KnownSubscriptionInfo list \<Rightarrow> extension_call list \<Rightarrow> config_op list" where
  "demanded_ops env kss calls = concat (map (\<lambda>c. case demanded env kss c of Inl status \<Rightarrow> [] | Inr op \<Rightarrow> [op]) calls)"

lemma built_in_action:
  "RunBuiltInSubscriptionAction action url s =
     (case demand_known (ctl_known_subscriptions s) url
        (case action of kSelect \<Rightarrow> Op_AddFilterList url | kUnselect \<Rightarrow> Op_RemoveFilterList url) of
        Inl status \<Rightarrow> (status, s) | Inr op \<Rightarrow> ([], on_configuration op s))"
  by (cases action)
    (auto simp: RunBuiltInSubscriptionAction_def demand_known_def demand_valid_def Let_def find_None_iff
      SelectBuiltInSubscription_def UnselectBuiltInSubscription_def InstallSubscription_def UninstallSubscription_def)

lemma custom_action:
  "RunCustomSubscriptionAction action url s =
     (case demand_valid url (case action of kAdd \<Rightarrow> Op_AddFilterList url | kRemove \<Rightarrow> Op_RemoveFilterList url) of
        Inl status \<Rightarrow> (status, s) | Inr op \<Rightarrow> ([], on_configuration op s))"
  by (cases action)
    (simp_all add: RunCustomSubscriptionAction_def demand_valid_def AddCustomSubscription_def RemoveCustomSubscription_def
      InstallSubscription_def UninstallSubscription_def)

lemma subscription_action:
  "RunSubscriptionAction action url s =
     (case demand_valid url (case action of kInstall \<Rightarrow> Op_AddFilterList url | kUninstall \<Rightarrow> Op_RemoveFilterList url) of
        Inl status \<Rightarrow> (status, s) | Inr op \<Rightarrow> ([], on_configuration op s))"
  by (cases action)
    (simp_all add: RunSubscriptionAction_def demand_valid_def InstallSubscription_def UninstallSubscription_def)

text \<open>The messages are not empty.\<close>

lemma respond_demand:
  "respond (case demand_known kss url op of Inl status \<Rightarrow> (status, s) | Inr op \<Rightarrow> ([], t op)) =
     (answer_to (demand_known kss url op), case demand_known kss url op of Inl status \<Rightarrow> s | Inr op \<Rightarrow> t op)"
  "respond (case demand_valid url op of Inl status \<Rightarrow> (status, s) | Inr op \<Rightarrow> ([], t op)) =
     (answer_to (demand_valid url op), case demand_valid url op of Inl status \<Rightarrow> s | Inr op \<Rightarrow> t op)"
  by (simp_all add: respond_def answer_to_def demand_known_def demand_valid_def)

lemmas run_definitions = SetEnabled_Run_def SetAcceptableAdsEnabled_Run_def SelectBuiltInSubscription_Run_def
  UnselectBuiltInSubscription_Run_def AddCustomSubscription_Run_def RemoveCustomSubscription_Run_def InstallSubscription_Run_def
  UninstallSubscription_Run_def AddAllowedDomain_Run_def RemoveAllowedDomain_Run_def AddCustomFilter_Run_def
  RemoveCustomFilter_Run_def ctl_AddAllowedDomain_def ctl_RemoveAllowedDomain_def ctl_AddCustomFilter_def ctl_RemoveCustomFilter_def

lemma run_call_effect:
  assumes "controller_ok s"
  shows "fst (run_call env c s) = answer_to (demanded env (ctl_known_subscriptions s) c) \<and>
    controller_ok (snd (run_call env c s)) \<and>
    ctl_known_subscriptions (snd (run_call env c s)) = ctl_known_subscriptions s \<and>
    controller_settings (snd (run_call env c s)) =
      (case demanded env (ctl_known_subscriptions s) c of
         Inl status \<Rightarrow> controller_settings s | Inr op \<Rightarrow> change_settings op (controller_settings s))"
  by (cases c)
    (simp_all add: run_definitions built_in_action custom_action subscription_action respond_demand on_configuration_settings
      assms SetAdblockEnabled_def SetAcceptableAds_op Let_def answer_to_def split: sum.split)

lemma run_calls_effect:
  "controller_ok s \<Longrightarrow>
    fst (run_calls env calls s) = map (answer_to \<circ> demanded env (ctl_known_subscriptions s)) calls \<and>
    controller_settings (snd (run_calls env calls s)) =
      fold change_settings (demanded_ops env (ctl_known_subscriptions s) calls) (controller_settings s)"
proof (induction calls arbitrary: s)
  case (Cons c calls)
  note e = run_call_effect [OF Cons.prems, of env c]
  then show ?case
    using Cons.IH [of "snd (run_call env c s)"] by (simp add: split_beta Let_def demanded_ops_def split: sum.split)
qed (simp add: demanded_ops_def)

section \<open>A profile\<close>

definition switch_ops :: "config_env \<Rightarrow> command_line \<Rightarrow> config_op list" where
  "switch_ops env cl =
     (if cl_disable_acceptable_ads cl then [Op_RemoveFilterList (AcceptableAdsUrl env)] else []) @
     (if cl_disable_adblock cl then [Op_SetEnabled False] else [])"

definition start_ops :: "config_env \<Rightarrow> command_line \<Rightarrow> dict \<Rightarrow> string \<Rightarrow> config_op list" where
  "start_ops env cl user lang =
     switch_ops env cl @
     (if GetBoolean user kInstallFirstStartSubscriptions
      then map Op_AddFilterList (first_run_urls env (cl_disable_acceptable_ads cl) (if length lang \<noteq> 2 then ''en'' else lang)
        (GetKnownSubscriptions env)) else []) @
     migration_ops env user"

text \<open>What is stored is what is in memory, after every operation.\<close>

definition lasting :: "controller \<Rightarrow> bool" where
  "lasting s \<longleftrightarrow> reloadable (ctl_configuration_prefs s) (ctl_config s)"

lemma reloadable_apply_op:
  assumes "reloadable prefs c" "apply_op op c prefs = (c', prefs', ns)"
  shows "reloadable prefs' c' \<and> cfg_name c' = cfg_name c"
proof -
  have "config_ok c" using assms(1) by (simp add: reloadable_def)
  then have ok: "config_ok c'" using apply_op_ok [of c op prefs] assms(2) by simp
  from apply_op_shape [of op c prefs] show ?thesis
  proof cases
    case 1
    then show ?thesis using assms by simp
  next
    case (2 d)
    then show ?thesis using assms(2) ok reloadable_stored [where c = c and d = d and prefs = prefs] by auto
  qed
qed

lemma on_configuration_lasting:
  "lasting s \<Longrightarrow> lasting (on_configuration op s) \<and> cfg_name (ctl_config (on_configuration op s)) = cfg_name (ctl_config s)"
proof -
  assume s: "lasting s"
  obtain c prefs ns where r: "apply_op op (ctl_config s) (ctl_configuration_prefs s) = (c, prefs, ns)"
    by (cases "apply_op op (ctl_config s) (ctl_configuration_prefs s)") auto
  then show ?thesis using reloadable_apply_op [OF _ r] s by (simp add: lasting_def on_configuration_def)
qed

lemma on_all_lasting:
  "lasting s \<Longrightarrow> lasting (on_all ops s) \<and> cfg_name (ctl_config (on_all ops s)) = cfg_name (ctl_config s)"
proof (induction ops arbitrary: s)
  case (Cons op ops)
  show ?case
    using Cons.IH [of "on_configuration op s"] on_configuration_lasting [OF Cons.prems, of op]
    by (simp del: on_configuration_fields(4))
qed simp

lemma lasting_irrelevant [simp]:
  "lasting (s\<lparr>ctl_user_prefs := u\<rparr>) = lasting s" "lasting (s\<lparr>ctl_events := e\<rparr>) = lasting s"
  by (simp_all add: lasting_def)

lemma migrate_items_all: "migrate_items n op s = (let (items, user) = MigrateItemsFromList n (ctl_user_prefs s)
    in on_all (map op items) (s\<lparr>ctl_user_prefs := user\<rparr>))"
proof -
  have "fold (\<lambda>x. on_configuration (op x)) xs t = on_all (map op xs) t" for xs t
    by (simp add: on_all_def fold_map comp_def)
  then show ?thesis by (simp add: migrate_items_def)
qed

definition keeps_lasting :: "(controller \<Rightarrow> controller) \<Rightarrow> bool" where
  "keeps_lasting f \<longleftrightarrow> (\<forall>s. lasting s \<longrightarrow> lasting (f s) \<and> cfg_name (ctl_config (f s)) = cfg_name (ctl_config s))"

lemma keeps_migrate_items: "keeps_lasting (migrate_items n op)"
proof -
  have "lasting (on_all ops (s\<lparr>ctl_user_prefs := u\<rparr>)) \<and> cfg_name (ctl_config (on_all ops (s\<lparr>ctl_user_prefs := u\<rparr>))) = cfg_name (ctl_config s)"
    if "lasting s" for ops s u
    using on_all_lasting [of "s\<lparr>ctl_user_prefs := u\<rparr>" ops] that by simp
  then show ?thesis unfolding keeps_lasting_def migrate_items_all Let_def by (simp add: split_beta)
qed

lemma keeps_migrate_bool:
  assumes "\<And>b. keeps_lasting (set_value b)"
  shows "keeps_lasting (migrate_bool n set_value)"
  using assms by (auto simp: keeps_lasting_def migrate_bool_def Let_def split: prod.split option.split)

lemma MigrateLegacyPrefs_lasting: "keeps_lasting (MigrateLegacyPrefs env)"
proof -
  have aa: "keeps_lasting (SetAcceptableAdsEnabled env b)" for b
    using on_configuration_lasting [of _ "acceptable_ads_op env b"] by (simp add: keeps_lasting_def SetAcceptableAds_op)
  have enabled: "keeps_lasting (SetAdblockEnabled b)" for b
    using on_configuration_lasting [of _ "Op_SetEnabled b"] by (simp add: keeps_lasting_def SetAdblockEnabled_def Let_def)
  have bools: "keeps_lasting (migrate_bool n (SetAcceptableAdsEnabled env))" "keeps_lasting (migrate_bool n SetAdblockEnabled)" for n
    using aa enabled by (simp_all add: keeps_migrate_bool)
  show ?thesis
    using keeps_migrate_items bools unfolding keeps_lasting_def MigrateLegacyPrefs_def Let_def by simp
qed

lemma RunFirstRunLogic_lasting: "keeps_lasting (RunFirstRunLogic env b)"
  by (simp add: keeps_lasting_def RunFirstRunLogic_eq on_all_lasting)

subsection \<open>What it starts with\<close>

lemma configuration_of_profile_eq:
  "configuration_of_profile env cl prefs =
     (let s = on_all (switch_ops env cl) (new_AdblockController (new_FilteringConfiguration prefs ''adblock'') prefs user lang ks)
      in (ctl_config s, ctl_configuration_prefs s))"
  by (simp add: configuration_of_profile_def switch_ops_def Let_def on_configuration_def new_AdblockController_def split: prod.split)

lemma new_configuration_reloadable: "reloadable prefs (new_FilteringConfiguration prefs n)"
  using start_configs_ok [of "[n]" prefs] by (simp add: world_ok_def start_configs_def)

lemma configuration_of_profile_effect:
  assumes "configuration_of_profile env cl prefs = (c, prefs')"
  shows "settings_of c = fold change_settings (switch_ops env cl) (settings_of (new_FilteringConfiguration prefs ''adblock'')) \<and>
    reloadable prefs' c \<and> cfg_name c = ''adblock''"
proof -
  let ?s = "new_AdblockController (new_FilteringConfiguration prefs ''adblock'') prefs [] [] []"
  have "lasting ?s" "controller_ok ?s"
    using new_configuration_reloadable [of prefs "''adblock''"]
    by (simp_all add: lasting_def controller_ok_def new_AdblockController_def reloadable_def)
  note facts = on_all_lasting [OF this(1), of "switch_ops env cl"] on_all_settings [OF this(2), of "switch_ops env cl"]
  have "cfg_name (ctl_config ?s) = ''adblock''" by (simp add: new_AdblockController_def new_FilteringConfiguration_def)
  with facts assms show ?thesis
    unfolding configuration_of_profile_eq [where user = "[]" and lang = "[]" and ks = "[]"]
    by (auto simp: Let_def lasting_def controller_settings_def) (simp_all add: new_AdblockController_def)
qed

lemma GetBoolean_deleted: "k \<notin> set ns \<Longrightarrow> GetBoolean (fold AList.delete ns user) k = GetBoolean user k"
  by (simp add: GetBoolean_def FindBool_def fold_delete_other)

lemma legacy_update [simp]:
  "n \<noteq> m \<Longrightarrow> legacy_bool n (AList.update m v user) = legacy_bool n user"
  "n \<noteq> m \<Longrightarrow> legacy_items n (AList.update m v user) = legacy_items n user"
  by (simp_all add: legacy_bool_def legacy_items_def HasUserSetting_map_of GetBoolean_def GetList_def FindBool_def
      FindList_def update_conv')

lemma migration_ops_first_run: "migration_ops env (AList.update kInstallFirstStartSubscriptions v user) = migration_ops env user"
proof -
  have "n \<noteq> kInstallFirstStartSubscriptions" if "n \<in> set legacy_names" for n
    using that by (auto simp: legacy_names_def pref_names)
  then show ?thesis by (simp add: migration_ops_def legacy_names_def)
qed

lemma controller_of_profile_effect:
  assumes s_def: "s = controller_of_profile env cl prefs user lang"
  shows "controller_settings s =
      fold change_settings (start_ops env cl user lang) (settings_of (new_FilteringConfiguration prefs ''adblock''))"
    and "lasting s" and "cfg_name (ctl_config s) = ''adblock''"
    and "\<not> GetBoolean (ctl_user_prefs s) kInstallFirstStartSubscriptions"
    and "migration_ops env (ctl_user_prefs s) = []"
proof -
  obtain c prefs' where c: "configuration_of_profile env cl prefs = (c, prefs')" by (cases "configuration_of_profile env cl prefs")
  define s0 where "s0 = new_AdblockController c prefs' user lang (GetKnownSubscriptions env)"
  define s1 where "s1 = RunFirstRunLogic env (cl_disable_acceptable_ads cl) s0"
  have s: "s = MigrateLegacyPrefs env s1" by (simp add: s_def s1_def s0_def controller_of_profile_def c Let_def)
  note start = configuration_of_profile_effect [OF c]
  then have c_ok: "config_ok c" by (simp add: reloadable_def)
  have f0: "controller_settings s0 = settings_of c" "lasting s0" "controller_ok s0" "ctl_user_prefs s0 = user"
      "ctl_language s0 = (if length lang \<noteq> 2 then ''en'' else lang)" "ctl_known_subscriptions s0 = GetKnownSubscriptions env"
      "cfg_name (ctl_config s0) = ''adblock''"
    using start c_ok by (simp_all add: s0_def new_AdblockController_def controller_settings_def lasting_def controller_ok_def)
  have l1: "lasting s1" "cfg_name (ctl_config s1) = ''adblock''"
    using RunFirstRunLogic_lasting f0(2,7) by (simp_all add: keeps_lasting_def s1_def)
  show "lasting s" "cfg_name (ctl_config s) = ''adblock''"
    using MigrateLegacyPrefs_lasting l1 by (simp_all add: keeps_lasting_def s)
  let ?ops = "if GetBoolean user kInstallFirstStartSubscriptions
      then map Op_AddFilterList (first_run_urls env (cl_disable_acceptable_ads cl) (ctl_language s0) (GetKnownSubscriptions env)) else []"
  have s1: "controller_settings s1 = fold change_settings ?ops (settings_of c)" "controller_ok s1"
      "ctl_user_prefs s1 = (if GetBoolean user kInstallFirstStartSubscriptions
         then AList.update kInstallFirstStartSubscriptions (BoolValue False) user else user)"
    using on_all_settings [OF f0(3)] f0(1,3,4,6) by (simp_all add: s1_def RunFirstRunLogic_eq)
  note m = MigrateLegacyPrefs_effect [OF s1(2), of env, folded s]
  have "\<not> GetBoolean (ctl_user_prefs s1) kInstallFirstStartSubscriptions"
    by (simp add: s1(3) GetBoolean_def FindBool_def update_conv')
  moreover have other: "kInstallFirstStartSubscriptions \<notin> set legacy_names" by (simp add: legacy_names_def pref_names)
  ultimately show "\<not> GetBoolean (ctl_user_prefs s) kInstallFirstStartSubscriptions"
    by (simp add: m(3) GetBoolean_deleted)
  show "migration_ops env (ctl_user_prefs s) = []"
    by (rule nothing_legacy) (auto simp: m(3) fold_delete_keys)
  have "migration_ops env (ctl_user_prefs s1) = migration_ops env user" by (simp add: s1(3) migration_ops_first_run)
  then show "controller_settings s =
      fold change_settings (start_ops env cl user lang) (settings_of (new_FilteringConfiguration prefs ''adblock''))"
    using start by (simp add: m(1) s1(1) start_ops_def f0(5))
qed

section \<open>Properties\<close>

text \<open>C29: Every call of an extension is answered; it fails exactly when its URL is invalid or is to be a built-in list and is
  not one, and then changes no setting; every other call changes the settings as the operation it stands for.\<close>

theorem extensions_change_the_settings_or_get_an_error:
  assumes "controller_ok s" "run_calls env calls s = (responses, s')"
  shows "responses = map (answer_to \<circ> demanded env (ctl_known_subscriptions s)) calls \<and>
    controller_settings s' = fold change_settings (demanded_ops env (ctl_known_subscriptions s) calls) (controller_settings s)"
  using run_calls_effect [OF assms(1), of env calls] assms(2) by simp

theorem extensions_change_the_settings_or_get_an_error_witness:
  "fst (run_calls example_config_env
      [Call_SelectBuiltInSubscription ''https://a.com/x.txt'', Call_InstallSubscription ''https://a.com/x.txt'', Call_SetEnabled False]
      (example_controller ''de'')) = [Api_error ''Not a built-in subscription'', NoArguments, NoArguments] \<and>
   set_lists (controller_settings (snd (run_calls example_config_env
      [Call_SelectBuiltInSubscription ''https://a.com/x.txt'', Call_InstallSubscription ''https://a.com/x.txt'', Call_SetEnabled False]
      (example_controller ''de'')))) = [''https://a.com/x.txt'']"
proof -
  let ?calls = "[Call_SelectBuiltInSubscription ''https://a.com/x.txt'', Call_InstallSubscription ''https://a.com/x.txt'',
      Call_SetEnabled False]"
  have "map (answer_to \<circ> demanded example_config_env (ctl_known_subscriptions (example_controller ''de''))) ?calls =
      [Api_error ''Not a built-in subscription'', NoArguments, NoArguments]"
    "set_lists (fold change_settings (demanded_ops example_config_env (ctl_known_subscriptions (example_controller ''de'')) ?calls)
      (controller_settings (example_controller ''de''))) = [''https://a.com/x.txt'']" by code_simp+
  then show ?thesis
    using extensions_change_the_settings_or_get_an_error [OF example_controller_ok [of "''de''"]
        surjective_pairing [of "run_calls example_config_env ?calls (example_controller ''de'')"]] by simp
qed

text \<open>C30: A profile starts with its stored settings, changed by the command line, the recommended lists on the first run and
  the settings of earlier versions; all of it is stored, so that the next start without switches finds the same
  settings and changes nothing.\<close>

theorem profiles_start_with_the_stored_settings:
  assumes "s = controller_of_profile env cl prefs user lang"
    "\<not> cl_disable_acceptable_ads cl'" "\<not> cl_disable_adblock cl'"
  shows "controller_settings s =
      fold change_settings (start_ops env cl user lang) (settings_of (new_FilteringConfiguration prefs ''adblock'')) \<and>
    controller_settings (controller_of_profile env cl' (ctl_configuration_prefs s) (ctl_user_prefs s) lang') = controller_settings s"
proof -
  note e = controller_of_profile_effect [OF assms(1)]
  have "new_FilteringConfiguration (ctl_configuration_prefs s) ''adblock'' = ctl_config s"
    using e(2,3) by (simp add: lasting_def reloadable_def)
  moreover have "start_ops env cl' (ctl_user_prefs s) lang' = []"
    using assms(2,3) e(4,5) by (simp add: start_ops_def switch_ops_def)
  ultimately show ?thesis
    using e(1) controller_of_profile_effect(1) [OF refl, of env cl' "ctl_configuration_prefs s" "ctl_user_prefs s" lang']
    by (simp add: controller_settings_def)
qed

definition no_switches :: command_line where
  "no_switches = \<lparr>cl_disable_acceptable_ads = False, cl_disable_adblock = False\<rparr>"

theorem profiles_start_with_the_stored_settings_witness:
  "(let s = controller_of_profile example_config_env (no_switches\<lparr>cl_disable_adblock := True\<rparr>) [] [] ''de''
    in \<not> set_enabled (controller_settings s) \<and>
       \<not> set_enabled (controller_settings (controller_of_profile example_config_env no_switches
          (ctl_configuration_prefs s) (ctl_user_prefs s) ''de'')))"
proof -
  let ?cl = "no_switches\<lparr>cl_disable_adblock := True\<rparr>"
  have "\<not> set_enabled (fold change_settings (start_ops example_config_env ?cl [] ''de'')
      (settings_of (new_FilteringConfiguration [] ''adblock'')))" by code_simp
  then show ?thesis
    using profiles_start_with_the_stored_settings [OF refl, of no_switches example_config_env ?cl "[]" "[]" "''de''" "''de''"]
    by (simp add: no_switches_def Let_def)
qed

text \<open>The switches of the command line do not last: a setting of an earlier version overrides them.\<close>

lemma migration_overrides_the_switch:
  "set_enabled (controller_settings (controller_of_profile example_config_env (no_switches\<lparr>cl_disable_adblock := True\<rparr>) []
     [(kEnableAdblockLegacy, BoolValue True)] ''de''))"
  by (subst controller_of_profile_effect(1) [OF refl]) code_simp

end
