(* ===== verification/Telemetry.thy ===== *)
theory Telemetry
  imports Adblock_Controller Persistent_Metadata "HOL-Library.Monad_Syntax"
begin

text \<open>
  \<open>adblock_telemetry_service.cc\<close> and \<open>activeping_telemetry_topic_provider.cc\<close>: requests to the telemetry server, one
  conversation for every topic, on a timer that runs while ad blocking is enabled. A topic provider is the
  interface \<open>topic_ops\<close>, with a state of type \<open>'p\<close>. Times are microseconds, the null time is 0. Printing and
  reading JSON, resolving URLs, the name of the operating system and new tags are parameters.
\<close>

section \<open>The service\<close>

text \<open>\<open>GetPayload\<close> may give the payload at once, or later.\<close>

record 'p topic_ops =
  tp_GetEndpointURL :: "'p \<Rightarrow> gurl"
  tp_GetAuthToken :: "'p \<Rightarrow> string"
  tp_GetPayload :: "'p \<Rightarrow> string option"
  tp_GetTimeOfNextRequest :: "int \<Rightarrow> 'p \<Rightarrow> int"
  tp_ParseResponse :: "int \<Rightarrow> string option \<Rightarrow> 'p \<Rightarrow> 'p"

record 'p conversation =
  cv_provider :: 'p
  cv_payload_pending :: bool
  cv_url_loader :: bool

record telemetry_request =
  tr_url :: gurl
  tr_headers :: "(string \<times> string) list"
  tr_upload :: string

definition kDataType :: string where
  "kDataType = ''application/json''"

definition IsRequestInFlight :: "'p conversation \<Rightarrow> bool" where
  "IsRequestInFlight c \<longleftrightarrow> cv_url_loader c \<or> cv_payload_pending c"

definition IsRequestDue :: "'p topic_ops \<Rightarrow> int \<Rightarrow> 'p conversation \<Rightarrow> bool" where
  "IsRequestDue ops now c =
     (if tp_GetTimeOfNextRequest ops now (cv_provider c) > now then False
      else if IsRequestInFlight c then False else True)"

text \<open>The POST request, with the cache bypassed and without credentials.\<close>

definition MakeRequest :: "'p topic_ops \<Rightarrow> string \<Rightarrow> 'p conversation \<Rightarrow> 'p conversation \<times> telemetry_request list" where
  "MakeRequest ops payload c =
     (let auth_token = tp_GetAuthToken ops (cv_provider c);
          header_lines = (if auth_token \<noteq> [] then [(''Authorization'', ''Bearer '' @ auth_token)] else []) @
            [(''Accept'', kDataType)]
      in (c\<lparr>cv_url_loader := True\<rparr>,
          [\<lparr>tr_url = tp_GetEndpointURL ops (cv_provider c), tr_headers = header_lines, tr_upload = payload\<rparr>]))"

definition StartRequest :: "'p topic_ops \<Rightarrow> 'p conversation \<Rightarrow> 'p conversation \<times> telemetry_request list" where
  "StartRequest ops c =
     (case tp_GetPayload ops (cv_provider c) of
        Some payload \<Rightarrow> MakeRequest ops payload c
      | None \<Rightarrow> (c\<lparr>cv_payload_pending := True\<rparr>, []))"

definition Stop :: "'p conversation \<Rightarrow> 'p conversation" where
  "Stop c = c\<lparr>cv_url_loader := False\<rparr>"

definition OnResponseArrived :: "'p topic_ops \<Rightarrow> int \<Rightarrow> string option \<Rightarrow> 'p conversation \<Rightarrow> 'p conversation" where
  "OnResponseArrived ops now server_response c =
     c\<lparr>cv_provider := tp_ParseResponse ops now server_response (cv_provider c), cv_url_loader := False\<rparr>"

record 'p telemetry =
  ts_enabled :: bool
  ts_initial_delay :: int
  ts_check_interval :: int
  ts_conversations :: "'p conversation list"
  ts_timer :: "int option"

definition new_AdblockTelemetryService :: "bool \<Rightarrow> int \<Rightarrow> int \<Rightarrow> 'p telemetry" where
  "new_AdblockTelemetryService enabled initial_delay check_interval =
     \<lparr>ts_enabled = enabled, ts_initial_delay = initial_delay, ts_check_interval = check_interval,
      ts_conversations = [], ts_timer = None\<rparr>"

definition AddTopicProvider :: "'p \<Rightarrow> 'p telemetry \<Rightarrow> 'p telemetry" where
  "AddTopicProvider topic_provider s =
     s\<lparr>ts_conversations := ts_conversations s @
        [\<lparr>cv_provider = topic_provider, cv_payload_pending = False, cv_url_loader = False\<rparr>]\<rparr>"

definition ts_Shutdown :: "'p telemetry \<Rightarrow> 'p telemetry" where
  "ts_Shutdown s = s\<lparr>ts_timer := None, ts_conversations := map Stop (ts_conversations s)\<rparr>"

definition OnEnabledStateChangedInternal :: "int \<Rightarrow> 'p telemetry \<Rightarrow> 'p telemetry" where
  "OnEnabledStateChangedInternal now s =
     (if ts_enabled s \<and> ts_timer s = None then s\<lparr>ts_timer := Some (now + ts_initial_delay s)\<rparr>
      else if \<not> ts_enabled s \<and> ts_timer s \<noteq> None then ts_Shutdown s
      else s)"

definition ts_Start :: "int \<Rightarrow> 'p telemetry \<Rightarrow> 'p telemetry" where
  "ts_Start now s = OnEnabledStateChangedInternal now s"

fun check_conversations :: "'p topic_ops \<Rightarrow> int \<Rightarrow> 'p conversation list \<Rightarrow> 'p conversation list \<times> telemetry_request list" where
  "check_conversations ops now [] = ([], [])"
| "check_conversations ops now (c # cs) =
     (let (c, rs) = (if IsRequestDue ops now c then StartRequest ops c else (c, []));
          (cs, rs') = check_conversations ops now cs
      in (c # cs, rs @ rs'))"

definition RunPeriodicCheck :: "'p topic_ops \<Rightarrow> int \<Rightarrow> 'p telemetry \<Rightarrow> 'p telemetry \<times> telemetry_request list" where
  "RunPeriodicCheck ops now s =
     (let (cs, rs) = check_conversations ops now (ts_conversations s)
      in (s\<lparr>ts_conversations := cs, ts_timer := Some (now + ts_check_interval s)\<rparr>, rs))"

subsection \<open>Events\<close>

datatype telemetry_event =
    Enabled_changes bool int
  | Telemetry_timer int
  | Payload_ready nat string
  | Server_response nat "string option" int

text \<open>\<open>None\<close> is an event that cannot happen.\<close>

fun telemetry_step :: "'p topic_ops \<Rightarrow> telemetry_event \<Rightarrow> 'p telemetry \<Rightarrow> ('p telemetry \<times> telemetry_request list) option" where
  "telemetry_step ops (Enabled_changes b now) s =
     (if b = ts_enabled s then None else Some (OnEnabledStateChangedInternal now (s\<lparr>ts_enabled := b\<rparr>), []))"
| "telemetry_step ops (Telemetry_timer now) s =
     (case ts_timer s of
        None \<Rightarrow> None
      | Some t \<Rightarrow> if now < t then None else Some (RunPeriodicCheck ops now s))"
| "telemetry_step ops (Payload_ready i payload) s =
     (if i < length (ts_conversations s) \<and> cv_payload_pending (ts_conversations s ! i) then
        (let (c, rs) = MakeRequest ops payload ((ts_conversations s ! i)\<lparr>cv_payload_pending := False\<rparr>)
         in Some (s\<lparr>ts_conversations := (ts_conversations s)[i := c]\<rparr>, rs))
      else None)"
| "telemetry_step ops (Server_response i server_response now) s =
     (if i < length (ts_conversations s) \<and> cv_url_loader (ts_conversations s ! i) then
        Some (s\<lparr>ts_conversations := (ts_conversations s)[i := OnResponseArrived ops now server_response (ts_conversations s ! i)]\<rparr>, [])
      else None)"

fun telemetry_run :: "'p topic_ops \<Rightarrow> telemetry_event list \<Rightarrow> 'p telemetry \<Rightarrow> ('p telemetry \<times> telemetry_request list) option" where
  "telemetry_run ops [] s = Some (s, [])"
| "telemetry_run ops (e # es) s =
     do { (s, rs) \<leftarrow> telemetry_step ops e s; (s, rs') \<leftarrow> telemetry_run ops es s; Some (s, rs @ rs') }"

section \<open>The active ping\<close>

record ping_env =
  pe_server_url :: gurl
  pe_http_port_for_testing :: nat
  pe_SetHttpPort :: "string \<Rightarrow> gurl \<Rightarrow> gurl"
  pe_time_delta_for_testing :: "int option"
  pe_Resolve :: "gurl \<Rightarrow> string \<Rightarrow> gurl"
  pe_auth_token_of_build :: "string option"
  pe_OperatingSystemName :: string
  pe_OperatingSystemVersion :: string
  pe_JSONWriter :: "Value \<Rightarrow> string"
  pe_JSONReader :: "string \<Rightarrow> Value option"
  pe_metadata :: metadata_env

definition GetUrl :: "ping_env \<Rightarrow> gurl" where
  "GetUrl env =
     (if pe_http_port_for_testing env = 0 then pe_server_url env
      else pe_SetHttpPort env (decimal (pe_http_port_for_testing env)) (pe_server_url env))"

definition hours :: "int \<Rightarrow> int" where
  "hours n = n * 60 * 60 * 1000000"

definition GetNormalPingInterval :: "ping_env \<Rightarrow> int" where
  "GetNormalPingInterval env = (case pe_time_delta_for_testing env of Some d \<Rightarrow> d | None \<Rightarrow> hours 8)"

definition GetRetryPingInterval :: "ping_env \<Rightarrow> int" where
  "GetRetryPingInterval env = (case pe_time_delta_for_testing env of Some d \<Rightarrow> d | None \<Rightarrow> hours 1)"

definition DefaultBaseUrl :: "ping_env \<Rightarrow> gurl" where
  "DefaultBaseUrl env = GetUrl env"

definition DefaultAuthToken :: "ping_env \<Rightarrow> string" where
  "DefaultAuthToken env = (case pe_auth_token_of_build env of Some t \<Rightarrow> t | None \<Rightarrow> [])"

text \<open>The provider: whether acceptable ads are on is asked of the controller. The tags are drawn from a stream of
  random ones.\<close>

record ping_provider =
  pp_app_info :: AppInfo
  pp_prefs :: dict
  pp_aa_active :: bool
  pp_base_url :: gurl
  pp_auth_token :: string
  pp_tags :: "nat \<Rightarrow> string"
  pp_tags_used :: nat

definition GetString :: "dict \<Rightarrow> string \<Rightarrow> string" where
  "GetString prefs name = (case map_of prefs name of Some (StringValue s) \<Rightarrow> s | _ \<Rightarrow> [])"

definition SetString :: "string \<Rightarrow> string \<Rightarrow> dict \<Rightarrow> dict" where
  "SetString name s = AList.update name (StringValue s)"

definition GetTime :: "ping_env \<Rightarrow> dict \<Rightarrow> string \<Rightarrow> int" where
  "GetTime env prefs name =
     (case env_ValueToTime (pe_metadata env) (map_of prefs name) of Some t \<Rightarrow> t | None \<Rightarrow> 0)"

definition AppendStringIfPresent :: "dict \<Rightarrow> string \<Rightarrow> string \<Rightarrow> dict \<Rightarrow> dict" where
  "AppendStringIfPresent prefs pref_name payload_key payload =
     (if GetString prefs pref_name \<noteq> [] then AList.update payload_key (StringValue (GetString prefs pref_name)) payload
      else payload)"

definition GetEndpointURL :: "ping_env \<Rightarrow> ping_provider \<Rightarrow> gurl" where
  "GetEndpointURL env p = pe_Resolve env (pp_base_url p) ''/topic/eyeochromium_activeping/version/1''"

definition ping_payload :: "ping_env \<Rightarrow> ping_provider \<Rightarrow> dict" where
  "ping_payload env p =
     (let payload =
        [(''addon_name'', StringValue ''eyeo-chromium-sdk''), (''addon_version'', StringValue ''2.0.0''),
         (''application'', StringValue (app_name (pp_app_info p))),
         (''application_version'', StringValue (app_version (pp_app_info p))),
         (''aa_active'', BoolValue (pp_aa_active p)),
         (''platform'', StringValue (pe_OperatingSystemName env)),
         (''platform_version'', StringValue (pe_OperatingSystemVersion env))];
          payload = AppendStringIfPresent (pp_prefs p) kTelemetryLastPingTag ''last_ping_tag'' payload;
          payload = AppendStringIfPresent (pp_prefs p) kTelemetryFirstPingTime ''first_ping'' payload;
          payload = AppendStringIfPresent (pp_prefs p) kTelemetryLastPingTime ''last_ping'' payload
      in AppendStringIfPresent (pp_prefs p) kTelemetryPreviousLastPingTime ''previous_last_ping'' payload)"

definition GetPayload :: "ping_env \<Rightarrow> ping_provider \<Rightarrow> string" where
  "GetPayload env p = pe_JSONWriter env (DictValue [(''payload'', DictValue (ping_payload env p))])"

definition GetTimeOfNextRequest :: "ping_env \<Rightarrow> int \<Rightarrow> ping_provider \<Rightarrow> int" where
  "GetTimeOfNextRequest env now p =
     (let next_ping_time = GetTime env (pp_prefs p) kTelemetryNextPingTime
      in if next_ping_time = 0 then now else next_ping_time)"

definition ScheduleNextPing :: "ping_env \<Rightarrow> int \<Rightarrow> int \<Rightarrow> ping_provider \<Rightarrow> ping_provider" where
  "ScheduleNextPing env now delay p =
     p\<lparr>pp_prefs := AList.update kTelemetryNextPingTime (env_TimeToValue (pe_metadata env) (now + delay)) (pp_prefs p)\<rparr>"

definition ping_UpdatePrefs :: "string \<Rightarrow> ping_provider \<Rightarrow> ping_provider" where
  "ping_UpdatePrefs ping_response_time p =
     (let prefs = pp_prefs p;
          prefs = (if GetString prefs kTelemetryFirstPingTime = []
                   then SetString kTelemetryFirstPingTime ping_response_time prefs else prefs);
          prefs = SetString kTelemetryPreviousLastPingTime (GetString prefs kTelemetryLastPingTime) prefs;
          prefs = SetString kTelemetryLastPingTime ping_response_time prefs;
          prefs = SetString kTelemetryLastPingTag (pp_tags p (pp_tags_used p)) prefs
      in p\<lparr>pp_prefs := prefs, pp_tags_used := Suc (pp_tags_used p)\<rparr>)"

definition FindStringKey :: "dict \<Rightarrow> string \<Rightarrow> string option" where
  "FindStringKey d key = (case map_of d key of Some (StringValue s) \<Rightarrow> Some s | _ \<Rightarrow> None)"

text \<open>What a response means: the token of a ping that was counted.\<close>

definition ParseResponse :: "ping_env \<Rightarrow> int \<Rightarrow> string option \<Rightarrow> ping_provider \<Rightarrow> ping_provider" where
  "ParseResponse env now response_content p =
     (case response_content of
        None \<Rightarrow> ScheduleNextPing env now (GetRetryPingInterval env) p
      | Some content \<Rightarrow>
          (case pe_JSONReader env content of
             Some (DictValue parsed) \<Rightarrow>
               (if FindStringKey parsed ''error'' \<noteq> None then ScheduleNextPing env now (GetRetryPingInterval env) p
                else
                  (case FindStringKey parsed ''token'' of
                     None \<Rightarrow> ScheduleNextPing env now (GetRetryPingInterval env) p
                   | Some ping_response_time \<Rightarrow>
                       ping_UpdatePrefs ping_response_time (ScheduleNextPing env now (GetNormalPingInterval env) p)))
           | _ \<Rightarrow> ScheduleNextPing env now (GetRetryPingInterval env) p))"

definition ping_ops :: "ping_env \<Rightarrow> ping_provider topic_ops" where
  "ping_ops env =
     \<lparr>tp_GetEndpointURL = GetEndpointURL env, tp_GetAuthToken = pp_auth_token, tp_GetPayload = (\<lambda>p. Some (GetPayload env p)),
      tp_GetTimeOfNextRequest = GetTimeOfNextRequest env, tp_ParseResponse = ParseResponse env\<rparr>"

text \<open>\<open>chrome/browser/adblock/adblock_telemetry_service_factory.cc\<close>: the service of a profile.\<close>

definition GetInitialDelay :: "int option \<Rightarrow> int" where
  "GetInitialDelay for_testing = (case for_testing of Some d \<Rightarrow> d | None \<Rightarrow> 30 * 1000000)"

definition GetCheckInterval :: "int option \<Rightarrow> int" where
  "GetCheckInterval for_testing = (case for_testing of Some d \<Rightarrow> d | None \<Rightarrow> 5 * 60 * 1000000)"

definition telemetry_of_profile :: "ping_env \<Rightarrow> bool \<Rightarrow> AppInfo \<Rightarrow> dict \<Rightarrow> bool \<Rightarrow> (nat \<Rightarrow> string) \<Rightarrow> bool \<Rightarrow> int \<Rightarrow>
    ping_provider telemetry" where
  "telemetry_of_profile env enabled app_info prefs aa_active tags has_url_loader_factory now =
     (let service = new_AdblockTelemetryService enabled (GetInitialDelay None) (GetCheckInterval None);
          service = AddTopicProvider
            \<lparr>pp_app_info = app_info, pp_prefs = prefs, pp_aa_active = aa_active, pp_base_url = DefaultBaseUrl env,
             pp_auth_token = DefaultAuthToken env, pp_tags = tags, pp_tags_used = 0\<rparr> service
      in if has_url_loader_factory then ts_Start now service else service)"

end
