(* ===== verification/Telemetry_Facts.thy ===== *)
theory Telemetry_Facts
  imports Telemetry
begin

text \<open>
  The telemetry is silent while ad blocking is off, keeps its distance between two pings, and reports the times of the
  first, the last and the last but one ping. The first needs a law of the topic providers, which is a locale: their
  payloads are there at once.
\<close>

section \<open>Silence\<close>

definition conversation_idle :: "'p conversation \<Rightarrow> bool" where
  "conversation_idle c \<longleftrightarrow> \<not> IsRequestInFlight c"

definition telemetry_ok :: "'p telemetry \<Rightarrow> bool" where
  "telemetry_ok s \<longleftrightarrow> (ts_timer s \<noteq> None \<longleftrightarrow> ts_enabled s) \<and>
     (\<forall>c\<in>set (ts_conversations s). \<not> cv_payload_pending c) \<and>
     (\<not> ts_enabled s \<longrightarrow> (\<forall>c\<in>set (ts_conversations s). conversation_idle c))"

lemma telemetry_start_ok:
  "\<forall>c\<in>set (ts_conversations s). conversation_idle c \<Longrightarrow> ts_timer s = None \<Longrightarrow> telemetry_ok (ts_Start now s)"
  by (auto simp: telemetry_ok_def ts_Start_def OnEnabledStateChangedInternal_def conversation_idle_def IsRequestInFlight_def)

lemma enabled_changes_ok:
  assumes "telemetry_ok s"
  shows "telemetry_ok (OnEnabledStateChangedInternal now (s\<lparr>ts_enabled := b\<rparr>))"
  using assms by (auto simp: telemetry_ok_def OnEnabledStateChangedInternal_def ts_Shutdown_def Stop_def conversation_idle_def
      IsRequestInFlight_def)

lemma server_response_ok:
  assumes "telemetry_ok s" "i < length (ts_conversations s)" "cv_url_loader (ts_conversations s ! i)"
  shows "telemetry_ok (s\<lparr>ts_conversations := (ts_conversations s)[i := OnResponseArrived ops now r (ts_conversations s ! i)]\<rparr>)"
proof -
  have "ts_enabled s" using assms nth_mem [OF assms(2)]
    by (auto simp: telemetry_ok_def conversation_idle_def IsRequestInFlight_def)
  moreover have "\<not> cv_payload_pending (ts_conversations s ! i)" using assms(1,2) by (simp add: telemetry_ok_def)
  ultimately show ?thesis using assms(1)
    by (auto simp: telemetry_ok_def OnResponseArrived_def dest!: subsetD [OF set_update_subset_insert])
qed

locale prompt_provider =
  fixes ops :: "'p topic_ops"
  assumes prompt: "tp_GetPayload ops p \<noteq> None"
begin

lemma StartRequest_prompt: "cv_payload_pending (fst (StartRequest ops c)) = cv_payload_pending c"
  using prompt [of "cv_provider c"] by (auto simp: StartRequest_def MakeRequest_def Let_def)

lemma check_conversations_prompt:
  "map cv_payload_pending (fst (check_conversations ops now cs)) = map cv_payload_pending cs"
proof (induction cs)
  case (Cons c cs)
  then show ?case using StartRequest_prompt [of c] 
    by (cases "StartRequest ops c"; cases "check_conversations ops now cs") (simp add: Let_def)
qed simp

lemma telemetry_step_ok:
  assumes "telemetry_step ops e s = Some (s', rs)" "telemetry_ok s"
  shows "telemetry_ok s'"
proof (cases e)
  case (Enabled_changes b now)
  then show ?thesis using assms enabled_changes_ok by (auto split: if_splits)
next
  case (Telemetry_timer now)
  then have timer: "ts_enabled s" using assms by (auto simp: telemetry_ok_def split: option.splits)
  have s': "s' = fst (RunPeriodicCheck ops now s)" using assms(1) Telemetry_timer by (auto split: option.splits if_splits)
  have "\<forall>b\<in>set (map cv_payload_pending (fst (check_conversations ops now (ts_conversations s)))). \<not> b"
    unfolding check_conversations_prompt using assms(2) by (auto simp: telemetry_ok_def)
  then have "\<forall>c\<in>set (fst (check_conversations ops now (ts_conversations s))). \<not> cv_payload_pending c" by simp
  then show ?thesis using timer unfolding s'
    by (simp add: RunPeriodicCheck_def telemetry_ok_def split: prod.splits)
next
  case (Payload_ready i payload)
  then show ?thesis using assms nth_mem [of i "ts_conversations s"] by (auto simp: telemetry_ok_def split: if_splits)
next
  case (Server_response i r now)
  then show ?thesis using assms server_response_ok by (auto split: if_splits)
qed

lemma telemetry_run_ok:
  "telemetry_run ops es s = Some (s', rs) \<Longrightarrow> telemetry_ok s \<Longrightarrow> telemetry_ok s'"
proof (induction es arbitrary: s rs)
  case (Cons e es)
  obtain t xs ys where "telemetry_step ops e s = Some (t, xs)" "telemetry_run ops es t = Some (s', ys)"
    using Cons.prems(1) by (auto split: Option.bind_splits)
  then show ?case using Cons.IH telemetry_step_ok Cons.prems(2) by blast
qed simp

lemma silent_when_disabled:
  assumes "telemetry_ok s" "\<not> ts_enabled s" "telemetry_step ops e s = Some (s', rs)"
  shows "rs = []"
  using assms nth_mem [of _ "ts_conversations s"]
  by (cases e) (auto simp: telemetry_ok_def split: if_splits option.splits)

end

interpretation active_ping: prompt_provider "ping_ops env" for env
  by unfold_locales (simp add: ping_ops_def)

section \<open>Preferences\<close>

lemma ping_prefs_distinct:
  "kTelemetryLastPingTime \<noteq> kTelemetryFirstPingTime" "kTelemetryPreviousLastPingTime \<noteq> kTelemetryFirstPingTime"
  "kTelemetryLastPingTag \<noteq> kTelemetryFirstPingTime" "kTelemetryNextPingTime \<noteq> kTelemetryFirstPingTime"
  "kTelemetryLastPingTime \<noteq> kTelemetryPreviousLastPingTime" "kTelemetryLastPingTag \<noteq> kTelemetryPreviousLastPingTime"
  "kTelemetryNextPingTime \<noteq> kTelemetryPreviousLastPingTime" "kTelemetryLastPingTag \<noteq> kTelemetryLastPingTime"
  "kTelemetryNextPingTime \<noteq> kTelemetryLastPingTime" "kTelemetryNextPingTime \<noteq> kTelemetryLastPingTag"
  by (simp_all add: kTelemetryLastPingTime_def kTelemetryFirstPingTime_def kTelemetryPreviousLastPingTime_def
      kTelemetryLastPingTag_def kTelemetryNextPingTime_def)

lemmas ping_prefs = ping_prefs_distinct ping_prefs_distinct [symmetric]

lemma GetString_update: "GetString (AList.update k v d) k' = (if k' = k then (case v of StringValue s \<Rightarrow> s | _ \<Rightarrow> []) else GetString d k')"
  by (simp add: GetString_def update_conv)

section \<open>Times of the pings\<close>

text \<open>The token of a response that counts.\<close>

definition token_of :: "ping_env \<Rightarrow> string option \<Rightarrow> string option" where
  "token_of env response_content =
     (case response_content of
        None \<Rightarrow> None
      | Some content \<Rightarrow>
          (case pe_JSONReader env content of
             Some (DictValue parsed) \<Rightarrow>
               (if FindStringKey parsed ''error'' = None then FindStringKey parsed ''token'' else None)
           | _ \<Rightarrow> None))"

lemma ParseResponse_token:
  "ParseResponse env now r p =
    (case token_of env r of
       None \<Rightarrow> ScheduleNextPing env now (GetRetryPingInterval env) p
     | Some t \<Rightarrow> ping_UpdatePrefs t (ScheduleNextPing env now (GetNormalPingInterval env) p))"
  by (simp add: ParseResponse_def token_of_def split: option.splits Value.splits)

definition ping_times :: "dict \<Rightarrow> string \<times> string \<times> string" where
  "ping_times prefs = (GetString prefs kTelemetryFirstPingTime, GetString prefs kTelemetryPreviousLastPingTime,
     GetString prefs kTelemetryLastPingTime)"

definition times_of_tokens :: "string list \<Rightarrow> string \<times> string \<times> string" where
  "times_of_tokens ts =
     ((case List.find (\<lambda>t. t \<noteq> []) ts of Some t \<Rightarrow> t | None \<Rightarrow> []),
      (if length ts < 2 then [] else ts ! (length ts - 2)), (if ts = [] then [] else last ts))"

lemma ScheduleNextPing_times: "ping_times (pp_prefs (ScheduleNextPing env now d p)) = ping_times (pp_prefs p)"
  by (simp add: ping_times_def ScheduleNextPing_def GetString_update ping_prefs)

lemma UpdatePrefs_times:
  "ping_times (pp_prefs (ping_UpdatePrefs t p)) =
    (case ping_times (pp_prefs p) of (a, b, c) \<Rightarrow> (if a = [] then t else a, c, t))"
  by (simp add: ping_times_def ping_UpdatePrefs_def Let_def SetString_def GetString_update ping_prefs)

lemma times_of_tokens_snoc:
  "times_of_tokens (ts @ [t]) =
    (case times_of_tokens ts of (a, b, c) \<Rightarrow> (if a = [] then t else a, c, t))"
proof -
  have find_nonempty: "List.find (\<lambda>t. t \<noteq> []) ts = Some u \<Longrightarrow> u \<noteq> []" for u by (auto simp: find_Some_iff)
  have find_append: "List.find (\<lambda>t. t \<noteq> []) (ts @ [t]) =
      (case List.find (\<lambda>t. t \<noteq> []) ts of Some u \<Rightarrow> Some u | None \<Rightarrow> if t \<noteq> [] then Some t else None)"
    by (induction ts) auto
  have "ts \<noteq> [] \<Longrightarrow> (ts @ [t]) ! (length (ts @ [t]) - 2) = last ts"
    by (simp add: nth_append last_conv_nth)
  then show ?thesis using find_nonempty
    by (cases "ts = []") (auto simp: times_of_tokens_def find_append split: option.splits)
qed

definition responses_parsed :: "ping_env \<Rightarrow> (int \<times> string option) list \<Rightarrow> ping_provider \<Rightarrow> ping_provider" where
  "responses_parsed env = fold (\<lambda>(now, r). ParseResponse env now r)"

definition tokens :: "ping_env \<Rightarrow> (int \<times> string option) list \<Rightarrow> string list" where
  "tokens env rs = List.map_filter (token_of env \<circ> snd) rs"

lemma responses_times:
  assumes "ping_times (pp_prefs p) = ([], [], [])"
  shows "ping_times (pp_prefs (responses_parsed env rs p)) = times_of_tokens (tokens env rs)"
proof (induction rs rule: rev_induct)
  case Nil
  then show ?case using assms by (simp add: responses_parsed_def tokens_def List.map_filter_simps times_of_tokens_def)
next
  case (snoc r rs)
  then show ?case
    by (cases r; cases "token_of env (snd r)")
      (auto simp: responses_parsed_def tokens_def List.map_filter_def ParseResponse_token ScheduleNextPing_times
        UpdatePrefs_times times_of_tokens_snoc)
qed

section \<open>The distance of the pings\<close>

definition next_ping :: "ping_env \<Rightarrow> ping_provider \<Rightarrow> int" where
  "next_ping env p = GetTime env (pp_prefs p) kTelemetryNextPingTime"

lemma UpdatePrefs_next: "next_ping env (ping_UpdatePrefs t p) = next_ping env p"
  by (simp add: next_ping_def GetTime_def ping_UpdatePrefs_def Let_def SetString_def update_conv ping_prefs)

definition ping_interval :: "ping_env \<Rightarrow> string option \<Rightarrow> int" where
  "ping_interval env r = (if token_of env r = None then GetRetryPingInterval env else GetNormalPingInterval env)"

lemma ParseResponse_next:
  assumes "\<And>t. env_ValueToTime (pe_metadata env) (Some (env_TimeToValue (pe_metadata env) t)) = Some t"
  shows "next_ping env (ParseResponse env now r p) = now + ping_interval env r"
proof -
  have "next_ping env (ScheduleNextPing env now d p) = now + d" for d
    by (simp add: next_ping_def GetTime_def ScheduleNextPing_def update_conv assms)
  then show ?thesis by (simp add: ParseResponse_token ping_interval_def UpdatePrefs_next split: option.splits)
qed

lemma request_is_due:
  assumes "check_conversations (ping_ops env) now cs = (cs', rs)" "rs \<noteq> []"
  shows "\<exists>c\<in>set cs. (next_ping env (cv_provider c) = 0 \<or> next_ping env (cv_provider c) \<le> now) \<and> \<not> IsRequestInFlight c"
  using assms
proof (induction cs arbitrary: cs' rs)
  case (Cons c cs)
  show ?case
  proof (cases "IsRequestDue (ping_ops env) now c")
    case True
    then have "(next_ping env (cv_provider c) = 0 \<or> next_ping env (cv_provider c) \<le> now) \<and> \<not> IsRequestInFlight c"
      by (auto simp: IsRequestDue_def ping_ops_def GetTimeOfNextRequest_def next_ping_def Let_def split: if_splits)
    then show ?thesis by simp
  next
    case False
    then show ?thesis using Cons by (auto split: prod.splits)
  qed
qed simp

fun is_response :: "telemetry_event \<Rightarrow> bool" where
  "is_response (Server_response i r now) \<longleftrightarrow> True"
| "is_response e \<longleftrightarrow> False"

lemma providers_MakeRequest: "cv_provider (fst (MakeRequest ops payload c)) = cv_provider c"
  by (simp add: MakeRequest_def Let_def)

lemma providers_check: "map cv_provider (fst (check_conversations ops now cs)) = map cv_provider cs"
proof (induction cs)
  case (Cons c cs)
  have "cv_provider (fst (StartRequest ops c)) = cv_provider c"
    by (simp add: StartRequest_def MakeRequest_def Let_def split: option.splits)
  then show ?case using Cons by (cases "StartRequest ops c"; cases "check_conversations ops now cs") (auto simp: Let_def)
qed simp

lemma providers_step:
  assumes "telemetry_step ops e s = Some (s', rs)" "\<not> is_response e"
  shows "map cv_provider (ts_conversations s') = map cv_provider (ts_conversations s)"
proof (cases e)
  case (Enabled_changes b now)
  then show ?thesis using assms(1)
    by (auto simp: OnEnabledStateChangedInternal_def ts_Shutdown_def Stop_def split: if_splits)
next
  case (Telemetry_timer now)
  then have "s' = fst (RunPeriodicCheck ops now s)" using assms(1) by (auto split: option.splits if_splits)
  then show ?thesis using providers_check [of ops now "ts_conversations s"] by (simp add: RunPeriodicCheck_def split: prod.splits)
next
  case (Payload_ready i payload)
  then obtain c xs where c: "MakeRequest ops payload ((ts_conversations s ! i)\<lparr>cv_payload_pending := False\<rparr>) = (c, xs)"
      "s' = s\<lparr>ts_conversations := (ts_conversations s)[i := c]\<rparr>" "i < length (ts_conversations s)"
    using assms(1) by (auto split: if_splits prod.splits)
  then have "cv_provider c = cv_provider (ts_conversations s ! i)"
    using providers_MakeRequest [of ops payload "(ts_conversations s ! i)\<lparr>cv_payload_pending := False\<rparr>"] by simp
  then show ?thesis using c(2,3) by (simp add: map_update list_update_same_conv)
qed (use assms in simp)

lemma providers_run:
  "telemetry_run ops es s = Some (s', rs) \<Longrightarrow> list_all (\<lambda>e. \<not> is_response e) es \<Longrightarrow>
    map cv_provider (ts_conversations s') = map cv_provider (ts_conversations s)"
proof (induction es arbitrary: s rs)
  case (Cons e es)
  obtain t xs ys where "telemetry_step ops e s = Some (t, xs)" "telemetry_run ops es t = Some (s', ys)"
    using Cons.prems(1) by (auto split: Option.bind_splits)
  then show ?case using Cons.IH providers_step Cons.prems(2) by fastforce
qed simp

end
