(* ===== verification/Telemetry_Contract.thy ===== *)
theory Telemetry_Contract
  imports Telemetry_Facts
begin

text \<open>The properties of the telemetry, with the active ping as its topic.\<close>

section \<open>Examples\<close>

definition example_ping_env :: ping_env where
  "example_ping_env =
     \<lparr>pe_server_url = simple_gurl ''https://t.com/'', pe_http_port_for_testing = 0, pe_SetHttpPort = (\<lambda>p u. u),
      pe_time_delta_for_testing = None, pe_Resolve = (\<lambda>u p. u), pe_auth_token_of_build = Some ''token'',
      pe_OperatingSystemName = ''os'', pe_OperatingSystemVersion = ''1'', pe_JSONWriter = (\<lambda>v. ''payload''),
      pe_JSONReader = (\<lambda>s. if s = [] then None else Some (DictValue [(''token'', StringValue s)])),
      pe_metadata = example_metadata_env\<rparr>"

definition example_telemetry :: "ping_provider telemetry" where
  "example_telemetry = telemetry_of_profile example_ping_env True \<lparr>app_name = ''a'', app_version = ''1'', client_os = ''o''\<rparr> []
     True (\<lambda>n. ''tag'') True 1"

definition example_ping_events :: "telemetry_event list" where
  "example_ping_events = [Telemetry_timer 30000001, Server_response 0 (Some ''day1'') 30000002]"

definition outcome :: "('p telemetry \<times> telemetry_request list) option \<Rightarrow> 'p telemetry" where
  "outcome r = fst (the r)"

section \<open>Properties\<close>

text \<open>C38: While ad blocking is off the telemetry of a profile is silent: its timer does not run, no request is in flight,
  and nothing that can happen sends one.\<close>

theorem telemetry_is_silent_while_disabled:
  assumes "telemetry_run (ping_ops env) es (telemetry_of_profile env enabled app prefs aa_active tags True start) = Some (s, rs)"
    "\<not> ts_enabled s" "telemetry_step (ping_ops env) e s = Some (s', rs')"
  shows "rs' = [] \<and> ts_timer s = None \<and> (\<forall>c\<in>set (ts_conversations s). \<not> IsRequestInFlight c)"
proof -
  have "telemetry_ok (telemetry_of_profile env enabled app prefs aa_active tags True start)"
    by (simp add: telemetry_of_profile_def Let_def new_AdblockTelemetryService_def AddTopicProvider_def conversation_idle_def
        IsRequestInFlight_def telemetry_start_ok)
  then have "telemetry_ok s" using active_ping.telemetry_run_ok [OF assms(1)] by blast
  then show ?thesis using active_ping.silent_when_disabled [OF _ assms(2,3)] assms(2)
    by (auto simp: telemetry_ok_def conversation_idle_def)
qed

theorem telemetry_is_silent_while_disabled_witness:
  "\<exists>s rs. telemetry_run (ping_ops example_ping_env) [Telemetry_timer 30000001, Enabled_changes False 30000002] example_telemetry =
      Some (s, rs) \<and> rs \<noteq> [] \<and> ts_timer s = None \<and> list_all (\<lambda>c. \<not> IsRequestInFlight c) (ts_conversations s)"
proof -
  let ?r = "telemetry_run (ping_ops example_ping_env) [Telemetry_timer 30000001, Enabled_changes False 30000002] example_telemetry"
  have "case ?r of
       Some (s, rs) \<Rightarrow> rs \<noteq> [] \<and> \<not> ts_enabled s \<and> \<not> Option.is_none (telemetry_step (ping_ops example_ping_env) (Enabled_changes True 5) s)
     | None \<Rightarrow> False"
    by code_simp
  then obtain s rs s' rs' where r: "?r = Some (s, rs)" "rs \<noteq> []" "\<not> ts_enabled s"
      "telemetry_step (ping_ops example_ping_env) (Enabled_changes True 5) s = Some (s', rs')"
    by (auto simp: Option.is_none_def split: option.splits)
  show ?thesis
    unfolding list_all_iff
    using telemetry_is_silent_while_disabled [OF r(1) [unfolded example_telemetry_def] r(3,4)] r(1,2) by blast
qed

text \<open>C39: Two pings keep their distance: after a response of the server, no request is sent before eight hours have passed
  when the ping was counted, and one hour when it failed, whatever happens in between.\<close>

theorem pings_keep_their_distance:
  assumes "\<And>t. env_ValueToTime (pe_metadata env) (Some (env_TimeToValue (pe_metadata env) t)) = Some t"
    "ts_conversations s = [c]" "telemetry_step (ping_ops env) (Server_response 0 r now) s = Some (s1, rs1)"
    "telemetry_run (ping_ops env) es s1 = Some (s2, rs2)" "list_all (\<lambda>e. \<not> is_response e) es"
    "telemetry_step (ping_ops env) (Telemetry_timer later) s2 = Some (s3, rs)" "rs \<noteq> []" "0 < now"
    "0 < GetNormalPingInterval env" "0 < GetRetryPingInterval env"
  shows "now + (if token_of env r = None then GetRetryPingInterval env else GetNormalPingInterval env) \<le> later"
proof -
  have c: "ts_conversations s1 = [OnResponseArrived (ping_ops env) now r c]" using assms(2,3) by (auto split: if_splits)
  have p: "map cv_provider (ts_conversations s2) = [ParseResponse env now r (cv_provider c)]"
    using providers_run [OF assms(4,5)] c by (simp add: OnResponseArrived_def ping_ops_def)
  obtain cs where "check_conversations (ping_ops env) later (ts_conversations s2) = (cs, rs)"
    using assms(6) by (auto simp: RunPeriodicCheck_def split: option.splits if_splits prod.splits)
  then obtain c' where "c' \<in> set (ts_conversations s2)" "next_ping env (cv_provider c') = 0 \<or> next_ping env (cv_provider c') \<le> later"
    using request_is_due assms(7) by blast
  moreover from this(1) have "cv_provider c' \<in> set (map cv_provider (ts_conversations s2))" by simp
  then have "cv_provider c' = ParseResponse env now r (cv_provider c)" unfolding p by simp
  ultimately show ?thesis
    using ParseResponse_next [OF assms(1), of now r "cv_provider c"] assms(8-10) by (auto simp: ping_interval_def split: if_splits)
qed

theorem pings_keep_their_distance_witness:
  "30000002 + (if token_of example_ping_env (Some ''day1'') = None then GetRetryPingInterval example_ping_env
     else GetNormalPingInterval example_ping_env) \<le> 28830000002"
proof (rule pings_keep_their_distance)
  let ?run = "\<lambda>es. outcome (telemetry_run (ping_ops example_ping_env) es example_telemetry)"
  show "ts_conversations (?run [Telemetry_timer 30000001]) = [ts_conversations (?run [Telemetry_timer 30000001]) ! 0]"
  proof -
    have "length (ts_conversations (?run [Telemetry_timer 30000001])) = 1" by code_simp
    then show ?thesis by (cases "ts_conversations (?run [Telemetry_timer 30000001])") auto
  qed
  show "telemetry_step (ping_ops example_ping_env) (Server_response 0 (Some ''day1'') 30000002) (?run [Telemetry_timer 30000001]) =
      Some (?run example_ping_events, [])"
  proof -
    have "\<not> Option.is_none (telemetry_run (ping_ops example_ping_env) [Telemetry_timer 30000001] example_telemetry)"
      "\<not> Option.is_none (telemetry_step (ping_ops example_ping_env) (Server_response 0 (Some ''day1'') 30000002) (?run [Telemetry_timer 30000001]))"
      by code_simp+
    then show ?thesis by (auto simp: Option.is_none_def example_ping_events_def outcome_def split: Option.bind_splits if_splits)
  qed
  show "telemetry_run (ping_ops example_ping_env) [] (?run example_ping_events) = Some (?run example_ping_events, [])" by simp
  let ?last = "telemetry_step (ping_ops example_ping_env) (Telemetry_timer 28830000002) (?run example_ping_events)"
  show "?last = Some (fst (the ?last), snd (the ?last))"
  proof -
    have "\<not> Option.is_none ?last" by code_simp
    then show ?thesis by (auto simp: Option.is_none_def)
  qed
  show "snd (the ?last) \<noteq> []" by code_simp
  show "env_ValueToTime (pe_metadata example_ping_env) (Some (env_TimeToValue (pe_metadata example_ping_env) t)) = Some t" for t
    by (simp add: example_ping_env_def example_metadata_env_def)
qed (simp_all add: example_ping_env_def GetNormalPingInterval_def GetRetryPingInterval_def hours_def)

text \<open>After any responses to a provider without history, the preferences hold the tokens of the first, the last but one
  and the last ping that was counted; failed pings leave no trace in them.\<close>

theorem ping_times_are_those_of_the_responses:
  assumes "ping_times (pp_prefs p) = ([], [], [])"
  shows "ping_times (pp_prefs (responses_parsed env rs p)) = times_of_tokens (tokens env rs)"
  by (rule responses_times [OF assms])

theorem ping_times_are_those_of_the_responses_witness:
  "ping_times (pp_prefs (responses_parsed example_ping_env [(1, Some ''day1''), (2, None), (3, Some ''day2''), (4, Some ''day3'')]
     (cv_provider (ts_conversations example_telemetry ! 0)))) = (''day1'', ''day2'', ''day3'')"
proof -
  have "ping_times (pp_prefs (cv_provider (ts_conversations example_telemetry ! 0))) = ([], [], [])" by code_simp
  moreover have "times_of_tokens (tokens example_ping_env [(1, Some ''day1''), (2, None), (3, Some ''day2''), (4, Some ''day3'')]) =
      (''day1'', ''day2'', ''day3'')"
    by code_simp
  ultimately show ?thesis using ping_times_are_those_of_the_responses by metis
qed

section \<open>A payload that comes late\<close>

text \<open>Stopping a conversation does not drop a payload that is being prepared: with a provider that needs time for it, a
  request is sent after ad blocking was switched off.\<close>

definition slow_ops :: "unit topic_ops" where
  "slow_ops = \<lparr>tp_GetEndpointURL = (\<lambda>p. empty_gurl), tp_GetAuthToken = (\<lambda>p. []), tp_GetPayload = (\<lambda>p. None),
     tp_GetTimeOfNextRequest = (\<lambda>now p. now), tp_ParseResponse = (\<lambda>now r p. p)\<rparr>"

lemma a_late_payload_is_sent_while_disabled:
  "case telemetry_run slow_ops [Telemetry_timer 1, Enabled_changes False 2, Payload_ready 0 ''payload'']
      (ts_Start 0 (AddTopicProvider () (new_AdblockTelemetryService True 1 1))) of
     Some (s, rs) \<Rightarrow> \<not> ts_enabled s \<and> map tr_upload rs = [''payload''] | None \<Rightarrow> False"
  by code_simp

end
