(* ===== verification/Android_Bindings.thy ===== *)
theory Android_Bindings
  imports Service_Facts Private_Api
begin

text \<open>
  The bindings for Java under \<open>chrome/browser/android/adblock\<close>: \<open>filtering_configuration_bindings.cc\<close>,
  \<open>resource_classification_notifier_bindings.cc\<close> and \<open>adblock_jni.cc\<close>. A Java object is a number, a weak
  reference to it is null once the object is gone, and a call of Java is a value. The string and array conversions of
  JNI are the identity.
\<close>

section \<open>Configurations\<close>

text \<open>\<open>bound_counterparts_\<close> is a map from configurations; we observe exactly its keys.\<close>

type_synonym bound_counterparts = "(nat \<times> nat list) list"

definition push_back_counterpart :: "nat \<Rightarrow> nat \<Rightarrow> bound_counterparts \<Rightarrow> bound_counterparts" where
  "push_back_counterpart configuration java b =
     AList.update configuration ((case map_of b configuration of Some refs \<Rightarrow> refs | None \<Rightarrow> []) @ [java]) b"

definition GetInstalledConfigurationWithName :: "string \<Rightarrow> 'm service \<Rightarrow> 'm service_entry option" where
  "GetInstalledConfigurationWithName configuration_name s =
     List.find (\<lambda>entry. cfg_name (en_configuration entry) = configuration_name) (sv_maintainers s)"

text \<open>A new configuration gets an address of its own.\<close>

definition Bind :: "'m maintainer_ops \<Rightarrow> string \<Rightarrow> nat \<Rightarrow> nat \<Rightarrow> bound_counterparts \<times> 'm service \<Rightarrow> bound_counterparts \<times> 'm service" where
  "Bind ops configuration_name java new_address = (\<lambda>(b, s).
     (case GetInstalledConfigurationWithName configuration_name s of
        Some existing_configuration \<Rightarrow> (push_back_counterpart (en_address existing_configuration) java b, s)
      | None \<Rightarrow>
          (push_back_counterpart new_address java b,
           InstallFilteringConfiguration ops new_address (new_FilteringConfiguration (sv_prefs s) configuration_name) s)))"

datatype java_event = Java_event nat Notification

definition Notify :: "(nat \<Rightarrow> bool) \<Rightarrow> nat \<Rightarrow> Notification \<Rightarrow> bound_counterparts \<Rightarrow> java_event list" where
  "Notify alive config event_listener b =
     (case map_of b config of
        None \<Rightarrow> []
      | Some refs \<Rightarrow> map (\<lambda>java. Java_event java event_listener) (filter alive refs))"

subsection \<open>Calls from Java\<close>

text \<open>A change of a configuration, and what its Java counterparts are told.\<close>

definition observed_change :: "'m maintainer_ops \<Rightarrow> (nat \<Rightarrow> bool) \<Rightarrow> 'm service_entry \<Rightarrow> config_op \<Rightarrow> bound_counterparts \<times> 'm service \<Rightarrow>
    (bound_counterparts \<times> 'm service) \<times> java_event list" where
  "observed_change ops alive entry op = (\<lambda>(b, s).
     (let (c, prefs, ns) = apply_op op (en_configuration entry) (sv_prefs s)
      in ((b, service_step ops (Change_configuration (en_address entry) op) s),
          concat (map (\<lambda>n. Notify alive (en_address entry) n b) ns))))"

text \<open>\<open>None\<close> is a call for a configuration that is not installed, a null pointer in the code.\<close>

definition change_with_name :: "'m maintainer_ops \<Rightarrow> (nat \<Rightarrow> bool) \<Rightarrow> string \<Rightarrow> config_op \<Rightarrow> bound_counterparts \<times> 'm service \<Rightarrow>
    ((bound_counterparts \<times> 'm service) \<times> java_event list) option" where
  "change_with_name ops alive configuration_name op t =
     (case GetInstalledConfigurationWithName configuration_name (snd t) of
        None \<Rightarrow> None
      | Some entry \<Rightarrow> Some (observed_change ops alive entry op t))"

definition JNI_IsEnabled :: "string \<Rightarrow> 'm service \<Rightarrow> bool option" where
  "JNI_IsEnabled configuration_name s =
     map_option (IsEnabled \<circ> en_configuration) (GetInstalledConfigurationWithName configuration_name s)"

definition JNI_SetEnabled where
  "JNI_SetEnabled ops alive configuration_name enabled = change_with_name ops alive configuration_name (Op_SetEnabled enabled)"

definition JNI_AddFilterList where
  "JNI_AddFilterList ops alive parse_url configuration_name url =
     change_with_name ops alive configuration_name (Op_AddFilterList (parse_url url))"

definition JNI_RemoveFilterList where
  "JNI_RemoveFilterList ops alive parse_url configuration_name url =
     change_with_name ops alive configuration_name (Op_RemoveFilterList (parse_url url))"

definition JNI_GetFilterLists :: "(string \<Rightarrow> gurl) \<Rightarrow> string \<Rightarrow> 'm service \<Rightarrow> string list option" where
  "JNI_GetFilterLists parse_url configuration_name s =
     map_option (\<lambda>entry. map spec (GetFilterLists parse_url (en_configuration entry)))
       (GetInstalledConfigurationWithName configuration_name s)"

definition JNI_AddAllowedDomain where
  "JNI_AddAllowedDomain ops alive configuration_name domain =
     change_with_name ops alive configuration_name (Op_AddAllowedDomain domain)"

definition JNI_RemoveAllowedDomain where
  "JNI_RemoveAllowedDomain ops alive configuration_name domain =
     change_with_name ops alive configuration_name (Op_RemoveAllowedDomain domain)"

definition JNI_GetAllowedDomains :: "string \<Rightarrow> 'm service \<Rightarrow> string list option" where
  "JNI_GetAllowedDomains configuration_name s =
     map_option (GetAllowedDomains \<circ> en_configuration) (GetInstalledConfigurationWithName configuration_name s)"

definition JNI_AddCustomFilter where
  "JNI_AddCustomFilter ops alive configuration_name f = change_with_name ops alive configuration_name (Op_AddCustomFilter f)"

definition JNI_RemoveCustomFilter where
  "JNI_RemoveCustomFilter ops alive configuration_name f =
     change_with_name ops alive configuration_name (Op_RemoveCustomFilter f)"

definition JNI_GetCustomFilters :: "string \<Rightarrow> 'm service \<Rightarrow> string list option" where
  "JNI_GetCustomFilters configuration_name s =
     map_option (GetCustomFilters \<circ> en_configuration) (GetInstalledConfigurationWithName configuration_name s)"

section \<open>Notifications of decisions\<close>

datatype java_call =
    AdMatchedCallback nat string bool "string list" string int int
  | PageAllowedCallback nat string string int
  | PopupMatchedCallback nat string bool string string int
  | SubscriptionUpdatedCallback nat string

text \<open>The tab of a frame, when it has contents and these are in a tab.\<close>

definition GetTabId :: "(nat \<Rightarrow> int option) \<Rightarrow> nat \<Rightarrow> int" where
  "GetTabId tabs render_frame_host = (case tabs render_frame_host of Some i \<Rightarrow> i | None \<Rightarrow> -1)"

text \<open>The Java object that is bound, when it is still there.\<close>

definition counterpart :: "(nat \<Rightarrow> bool) \<Rightarrow> nat option \<Rightarrow> nat option" where
  "counterpart alive bound_counterpart =
     (case bound_counterpart of Some java \<Rightarrow> if alive java then Some java else None | None \<Rightarrow> None)"

definition nb_OnAdMatched :: "(nat \<Rightarrow> bool) \<Rightarrow> (nat \<Rightarrow> int option) \<Rightarrow> nat option \<Rightarrow> gurl \<Rightarrow> FilterMatchResult \<Rightarrow> gurl list \<Rightarrow>
    ContentType \<Rightarrow> nat \<Rightarrow> gurl \<Rightarrow> java_call list" where
  "nb_OnAdMatched alive tabs bound_counterpart url res parent_frame_urls content_type render_frame_host subscription =
     (let was_blocked = (res = kBlockRule)
      in case counterpart alive bound_counterpart of
           None \<Rightarrow> []
         | Some obj \<Rightarrow> [AdMatchedCallback obj (spec url) was_blocked (ConvertURLs parent_frame_urls) (spec subscription)
             (sint (content_type_value content_type)) (GetTabId tabs render_frame_host)])"

definition nb_OnPageAllowed :: "(nat \<Rightarrow> bool) \<Rightarrow> (nat \<Rightarrow> int option) \<Rightarrow> nat option \<Rightarrow> gurl \<Rightarrow> nat \<Rightarrow> gurl \<Rightarrow> java_call list" where
  "nb_OnPageAllowed alive tabs bound_counterpart url render_frame_host subscription =
     (case counterpart alive bound_counterpart of
        None \<Rightarrow> []
      | Some obj \<Rightarrow> [PageAllowedCallback obj (spec url) (spec subscription) (GetTabId tabs render_frame_host)])"

definition nb_OnPopupMatched :: "(nat \<Rightarrow> bool) \<Rightarrow> (nat \<Rightarrow> int option) \<Rightarrow> nat option \<Rightarrow> gurl \<Rightarrow> FilterMatchResult \<Rightarrow> gurl \<Rightarrow>
    nat \<Rightarrow> gurl \<Rightarrow> java_call list" where
  "nb_OnPopupMatched alive tabs bound_counterpart url res opener_url render_frame_host subscription =
     (let was_blocked = (res = kBlockRule)
      in case counterpart alive bound_counterpart of
           None \<Rightarrow> []
         | Some obj \<Rightarrow> [PopupMatchedCallback obj (spec url) was_blocked (spec opener_url) (spec subscription)
             (GetTabId tabs render_frame_host)])"

section \<open>The controller\<close>

record java_Subscription =
  jv_url :: string
  jv_title :: string
  jv_version :: string
  jv_languages :: "string list"

definition ToJava :: "string \<Rightarrow> string \<Rightarrow> string \<Rightarrow> string list \<Rightarrow> java_Subscription" where
  "ToJava url t v ls = \<lparr>jv_url = url, jv_title = t, jv_version = v, jv_languages = ls\<rparr>"

definition CSubscriptionsToJObjects :: "maintainer_env \<Rightarrow> listed_subscription list \<Rightarrow> java_Subscription list" where
  "CSubscriptionsToJObjects env subscriptions =
     map (\<lambda>sub. ToJava (spec (listed_url env sub)) (listed_title sub) (listed_version sub) []) subscriptions"

definition known_to_JObjects :: "KnownSubscriptionInfo list \<Rightarrow> java_Subscription list" where
  "known_to_JObjects subscriptions =
     map (\<lambda>sub. ToJava (spec (ks_url sub)) (ks_title sub) [] (ks_languages sub))
       (filter (\<lambda>sub. ks_ui_visibility sub = Visible \<and> is_valid (ks_url sub)) subscriptions)"

definition jni_OnSubscriptionInstalled :: "(nat \<Rightarrow> bool) \<Rightarrow> nat option \<Rightarrow> gurl \<Rightarrow> java_call list" where
  "jni_OnSubscriptionInstalled alive weak_java_controller url =
     (case counterpart alive weak_java_controller of
        None \<Rightarrow> []
      | Some obj \<Rightarrow> [SubscriptionUpdatedCallback obj (spec url)])"

text \<open>Without a controller (when the browser is shutting down) nothing is installed or recommended. The version does not
  ask for it, and the null pointer is the outer \<open>None\<close>.\<close>

definition JNI_GetInstalledSubscriptions :: "maintainer_env \<Rightarrow> listed_subscription list option \<Rightarrow> java_Subscription list" where
  "JNI_GetInstalledSubscriptions env controller_subscriptions =
     (case controller_subscriptions of None \<Rightarrow> [] | Some subscriptions \<Rightarrow> CSubscriptionsToJObjects env subscriptions)"

definition JNI_GetRecommendedSubscriptions :: "controller option \<Rightarrow> java_Subscription list" where
  "JNI_GetRecommendedSubscriptions get_controller =
     (case get_controller of None \<Rightarrow> [] | Some c \<Rightarrow> known_to_JObjects (ctl_known_subscriptions c))"

definition JNI_GetSelectedSubscriptionVersion ::
  "maintainer_env \<Rightarrow> (string \<Rightarrow> gurl) \<Rightarrow> listed_subscription list option \<Rightarrow> string \<Rightarrow> string option" where
  "JNI_GetSelectedSubscriptionVersion env parse_url controller_subscriptions subscription =
     (case controller_subscriptions of
        None \<Rightarrow> None
      | Some xs \<Rightarrow>
          (case List.find (\<lambda>sub. listed_url env sub = parse_url subscription) xs of
             None \<Rightarrow> Some []
           | Some it \<Rightarrow> Some (listed_version it)))"

section \<open>Events\<close>

text \<open>Java binds an object to a name or changes a configuration by name, or a configuration changes in another way, or a
  maintainer works. A new configuration has a new address.\<close>

datatype 'm android_event =
    Java_binds string nat nat
  | Java_changes string config_op
  | Configuration_changes nat config_op
  | Maintainer_at_work nat "'m \<Rightarrow> 'm"

fun android_step :: "'m maintainer_ops \<Rightarrow> (nat \<Rightarrow> bool) \<Rightarrow> 'm android_event \<Rightarrow> bound_counterparts \<times> 'm service \<Rightarrow>
    ((bound_counterparts \<times> 'm service) \<times> java_event list) option" where
  "android_step ops alive (Java_binds n java a) t =
     (if find_entry a (snd t) \<noteq> None then None else Some (Bind ops n java a t, []))"
| "android_step ops alive (Java_changes n op) t = change_with_name ops alive n op t"
| "android_step ops alive (Configuration_changes a op) t =
     map_option (\<lambda>entry. observed_change ops alive entry op t) (find_entry a (snd t))"
| "android_step ops alive (Maintainer_at_work a w) t = Some ((fst t, service_step ops (Maintainer_works a w) (snd t)), [])"

fun android_run :: "'m maintainer_ops \<Rightarrow> (nat \<Rightarrow> bool) \<Rightarrow> 'm android_event list \<Rightarrow> bound_counterparts \<times> 'm service \<Rightarrow>
    (bound_counterparts \<times> 'm service) option" where
  "android_run ops alive [] t = Some t"
| "android_run ops alive (e # es) t = do { (t, js) \<leftarrow> android_step ops alive e t; android_run ops alive es t }"

end
