(* ===== verification/Android_Contract.thy ===== *)
theory Android_Contract
  imports Android_Bindings Service_Contract
begin

text \<open>
  What Java relies on: there is one configuration for every name, a configuration that was bound stays, and every Java object
  that is alive is told once of every change.
\<close>

section \<open>Names and addresses\<close>

definition table :: "'m service \<Rightarrow> (string \<times> nat) list" where
  "table s = map (\<lambda>e. (cfg_name (en_configuration e), en_address e)) (sv_maintainers s)"

definition bound :: "bound_counterparts \<Rightarrow> nat \<Rightarrow> nat list" where
  "bound b a = (case map_of b a of Some refs \<Rightarrow> refs | None \<Rightarrow> [])"

definition refs_of :: "string \<Rightarrow> bound_counterparts \<times> 'm service \<Rightarrow> nat list" where
  "refs_of n t = (case map_of (table (snd t)) n of None \<Rightarrow> [] | Some a \<Rightarrow> bound (fst t) a)"

definition android_ok :: "bound_counterparts \<times> 'm service \<Rightarrow> bool" where
  "android_ok t \<longleftrightarrow> distinct (map fst (table (snd t))) \<and> distinct (map snd (table (snd t))) \<and>
     fst ` set (fst t) \<subseteq> snd ` set (table (snd t)) \<and> (\<forall>e\<in>set (sv_maintainers (snd t)). config_ok (en_configuration e))"

lemma find_map_of: "map_option en_address (GetInstalledConfigurationWithName n s) = map_of (table s) n"
proof -
  have "map_option en_address (List.find (\<lambda>e. cfg_name (en_configuration e) = n) es) =
      map_of (map (\<lambda>e. (cfg_name (en_configuration e), en_address e)) es) n" for es :: "'a service_entry list"
    by (induction es) auto
  then show ?thesis by (simp add: GetInstalledConfigurationWithName_def table_def)
qed

lemma installed_SomeD:
  assumes "GetInstalledConfigurationWithName n s = Some e"
  shows "e \<in> set (sv_maintainers s)" "cfg_name (en_configuration e) = n" "map_of (table s) n = Some (en_address e)"
proof -
  show "e \<in> set (sv_maintainers s)" "cfg_name (en_configuration e) = n"
    using assms by (auto simp: GetInstalledConfigurationWithName_def find_Some_iff)
  show "map_of (table s) n = Some (en_address e)" using find_map_of [of n s] assms by simp
qed

lemma installed_NoneD: "GetInstalledConfigurationWithName n s = None \<Longrightarrow> map_of (table s) n = None"
  using find_map_of [of n s] by simp

lemma bound_push_back: "bound (push_back_counterpart a java b) a' = bound b a' @ (if a' = a then [java] else [])"
  by (simp add: bound_def push_back_counterpart_def update_conv' split: option.split)

lemma push_back_keys: "fst ` set (push_back_counterpart a java b) = insert a (fst ` set b)"
  by (simp add: push_back_counterpart_def dom_map_of_conv_image_fst [symmetric] update_conv')

section \<open>Changes\<close>

text \<open>Entries keep their names, addresses and order.\<close>

definition same_entries :: "'m service \<Rightarrow> 'm service \<Rightarrow> bool" where
  "same_entries s s' \<longleftrightarrow> table s' = table s \<and>
     ((\<forall>e\<in>set (sv_maintainers s). config_ok (en_configuration e)) \<longrightarrow> (\<forall>e\<in>set (sv_maintainers s'). config_ok (en_configuration e)))"

lemma change_entry_same:
  assumes "\<And>e. e \<in> set (sv_maintainers s) \<Longrightarrow> en_address e = a \<Longrightarrow> en_address (f e) = a \<and>
    cfg_name (en_configuration (f e)) = cfg_name (en_configuration e) \<and> (config_ok (en_configuration e) \<longrightarrow> config_ok (en_configuration (f e)))"
  shows "same_entries s (change_entry a f s)"
  using assms by (auto simp: same_entries_def table_def)

lemma same_entries_trans: "same_entries s t \<Longrightarrow> same_entries t u \<Longrightarrow> same_entries s u"
  by (simp add: same_entries_def)

lemma notified_same: "same_entries s (notified ops a n s)"
proof -
  have "same_entries s (sv_OnEnabledStateChanged ops a s)"
  proof (cases "find_entry a s")
    case (Some e)
    have "same_entries s (change_entry a (\<lambda>entry. entry\<lparr>en_maintainer := m\<rparr>) (s\<lparr>sv_directories := ds\<rparr>))" for m ds
      using change_entry_same [of "s\<lparr>sv_directories := ds\<rparr>" a "\<lambda>entry. entry\<lparr>en_maintainer := m\<rparr>"]
      by (simp add: same_entries_def table_def)
    then show ?thesis using Some by (simp add: sv_OnEnabledStateChanged_def Let_def)
  qed (simp add: sv_OnEnabledStateChanged_def same_entries_def)
  then show ?thesis unfolding notified_def by (auto intro!: change_entry_same)
qed

lemma fold_notified_same: "same_entries s (fold (notified ops a) ns s)"
proof (induction ns arbitrary: s)
  case (Cons n ns)
  show ?case using same_entries_trans [OF notified_same Cons.IH] by simp
qed (simp add: same_entries_def)

lemma apply_op_name: "cfg_name (fst (apply_op op c prefs)) = cfg_name c"
  using apply_op_shape [of op c prefs] by fastforce

lemma Change_configuration_same:
  assumes "distinct (map snd (table s))"
  shows "same_entries s (service_step ops (Change_configuration a op) s)"
proof (cases "find_entry a s")
  case None
  then show ?thesis by (simp add: same_entries_def)
next
  case (Some entry)
  obtain c prefs ns where r: "apply_op op (en_configuration entry) (sv_prefs s) = (c, prefs, ns)"
    by (cases "apply_op op (en_configuration entry) (sv_prefs s)") auto
  have "cfg_name c = cfg_name (en_configuration entry)" "config_ok (en_configuration entry) \<longrightarrow> config_ok c"
    using apply_op_name [of op "en_configuration entry" "sv_prefs s"] apply_op_ok [of "en_configuration entry" op "sv_prefs s"] r
    by simp_all
  moreover have "e = entry" if "e \<in> set (sv_maintainers s)" "en_address e = a" for e
    using find_entry_SomeD [OF Some] that assms by (auto simp: table_def comp_def distinct_map inj_on_def)
  ultimately have "same_entries s (change_entry a (\<lambda>e. e\<lparr>en_configuration := c\<rparr>) (s\<lparr>sv_prefs := prefs\<rparr>))"
    using change_entry_same [of "s\<lparr>sv_prefs := prefs\<rparr>" a "\<lambda>e. e\<lparr>en_configuration := c\<rparr>"]
    by (auto simp: same_entries_def table_def)
  then show ?thesis using same_entries_trans [OF _ fold_notified_same] Some r by simp
qed

lemma same_entries_ok:
  "android_ok (b, s) \<Longrightarrow> same_entries s s' \<Longrightarrow> android_ok (b, s') \<and> refs_of n (b, s') = refs_of n (b, s) \<and> table s' = table s"
  by (simp add: android_ok_def same_entries_def refs_of_def cong: option.case_cong)

lemma observed_change_ok:
  assumes "android_ok t" "observed_change ops alive entry op t = (t', js)"
  shows "android_ok t' \<and> refs_of n t' = refs_of n t \<and> table (snd t') = table (snd t)"
proof -
  obtain b s where t: "t = (b, s)" by (cases t)
  have "t' = (b, service_step ops (Change_configuration (en_address entry) op) s)"
    using assms(2) by (auto simp: t observed_change_def split: prod.splits)
  then show ?thesis
    using same_entries_ok [OF assms(1) [unfolded t] Change_configuration_same] assms(1) by (simp add: t android_ok_def)
qed

section \<open>Binding\<close>

lemma new_configuration_ok: "config_ok (new_FilteringConfiguration prefs n)"
  by (simp add: config_ok_def new_FilteringConfiguration_def SetDefaultValues_ok)

lemma new_name: "cfg_name (new_FilteringConfiguration prefs n) = n"
  by (simp add: new_FilteringConfiguration_def)

lemma insort_key_split: "\<exists>xs ys. es = xs @ ys \<and> insort_key f x es = xs @ x # ys"
proof (induction es)
  case (Cons e es)
  then obtain xs ys where "es = xs @ ys" "insort_key f x es = xs @ x # ys" by blast
  then show ?case
    by (cases "f x \<le> f e") (auto intro: exI [of _ "[]"] exI [of _ "e # xs"])
qed simp

text \<open>A new configuration is put somewhere among the others.\<close>

lemma installed_table:
  assumes "find_entry a s = None"
  obtains xs ys where "table s = xs @ ys" "table (InstallFilteringConfiguration ops a c s) = xs @ (cfg_name c, a) # ys"
    "set (sv_maintainers (InstallFilteringConfiguration ops a c s)) =
       insert \<lparr>en_address = a, en_configuration = c, en_maintainer = (if IsEnabled c then Some (MakeMaintainer ops c s) else None)\<rparr>
         (set (sv_maintainers s))"
proof -
  define e where "e = \<lparr>en_address = a, en_configuration = c, en_maintainer = (if IsEnabled c then Some (MakeMaintainer ops c s) else None)\<rparr>"
  obtain xs ys where split: "sv_maintainers s = xs @ ys" "insort_key en_address e (sv_maintainers s) = xs @ e # ys"
    using insort_key_split [of "sv_maintainers s" en_address e] by (elim exE conjE) (rule that)
  have new: "sv_maintainers (InstallFilteringConfiguration ops a c s) = xs @ e # ys"
    using assms by (simp add: InstallFilteringConfiguration_def Let_def e_def [symmetric] split(2))
  have e: "en_address e = a" "en_configuration e = c" by (simp_all add: e_def)
  show thesis
    by (rule that, unfold table_def new split(1) map_append list.map e) (auto simp: e_def)
qed

lemma Bind_ok:
  assumes "android_ok t" "find_entry a (snd t) = None"
  shows "android_ok (Bind ops n java a t) \<and> refs_of m (Bind ops n java a t) = refs_of m t @ (if m = n then [java] else []) \<and>
    n \<in> fst ` set (table (snd (Bind ops n java a t))) \<and> fst ` set (table (snd t)) \<subseteq> fst ` set (table (snd (Bind ops n java a t)))"
proof -
  obtain b s where t: "t = (b, s)" by (cases t)
  note ok = assms(1) [unfolded t android_ok_def fst_conv snd_conv]
  show ?thesis
  proof (cases "GetInstalledConfigurationWithName n s")
    case (Some e)
    note e = installed_SomeD [OF Some]
    have here: "(n, en_address e) \<in> set (table s)" using e(3) by (rule map_of_SomeD)
    have only: "m = n" if "map_of (table s) m = Some (en_address e)"
    proof -
      have "inj_on snd (set (table s))" using ok by (simp add: distinct_map)
      then show ?thesis using inj_onD [of snd, OF _ _ map_of_SomeD [OF that] here] by simp
    qed
    have "refs_of m (push_back_counterpart (en_address e) java b, s) = refs_of m (b, s) @ (if m = n then [java] else [])"
    proof (cases "map_of (table s) m")
      case None
      then have "m \<noteq> n" using e(3) by auto
      then show ?thesis using None by (simp add: refs_of_def)
    next
      case (Some x)
      then have "x = en_address e \<longleftrightarrow> m = n" using only e(3) by auto
      then show ?thesis using Some by (simp add: refs_of_def bound_push_back)
    qed
    moreover have "android_ok (push_back_counterpart (en_address e) java b, s)"
      using ok imageI [OF here, of snd] by (simp add: android_ok_def push_back_keys)
    moreover have "n \<in> fst ` set (table s)" using imageI [OF here, of fst] by simp
    ultimately show ?thesis using Some by (simp add: Bind_def t)
  next
    case None
    let ?s = "InstallFilteringConfiguration ops a (new_FilteringConfiguration (sv_prefs s) n) s"
    obtain xs ys where tab: "table s = xs @ ys" "table ?s = xs @ (n, a) # ys"
        "set (sv_maintainers ?s) = insert \<lparr>en_address = a, en_configuration = new_FilteringConfiguration (sv_prefs s) n,
          en_maintainer = (if IsEnabled (new_FilteringConfiguration (sv_prefs s) n)
            then Some (MakeMaintainer ops (new_FilteringConfiguration (sv_prefs s) n) s) else None)\<rparr> (set (sv_maintainers s))"
      using installed_table [of a s ops "new_FilteringConfiguration (sv_prefs s) n"] assms(2) by (auto simp: t new_name)
    have new: "n \<notin> fst ` set (table s)" "a \<notin> snd ` set (table s)"
      using installed_NoneD [OF None] assms(2) by (auto simp: map_of_eq_None_iff t find_entry_None table_def)
    have cfg: "config_ok (new_FilteringConfiguration (sv_prefs s) n)"
      using new_configuration_ok by blast
    have "android_ok (push_back_counterpart a java b, ?s)"
      using ok new cfg by (auto simp: android_ok_def push_back_keys tab)
    moreover have "map_of (table ?s) m = (if m = n then Some a else map_of (table s) m)"
    proof -
      have "map_of xs n = None" using new(1) by (auto simp: tab(1) map_of_eq_None_iff)
      then show ?thesis by (cases "m = n") (simp_all add: tab(1,2) map_add_def cong: option.case_cong)
    qed
    moreover have "bound b a = []"
    proof -
      have "map_of b a = None" using ok new(2) by (auto simp: map_of_eq_None_iff)
      then show ?thesis by (simp add: bound_def)
    qed
    moreover have "x \<noteq> a" if "map_of (table s) m = Some x" for x using new(2) map_of_SomeD [OF that] by force
    moreover have "map_of (table s) n = None" by (rule installed_NoneD [OF None])
    ultimately have "android_ok (push_back_counterpart a java b, ?s)"
        "refs_of m (push_back_counterpart a java b, ?s) = refs_of m (b, s) @ (if m = n then [java] else [])"
      by (auto simp: refs_of_def bound_push_back split: option.split)
    moreover have "n \<in> fst ` set (table ?s)" "fst ` set (table s) \<subseteq> fst ` set (table ?s)" by (auto simp: tab)
    ultimately show ?thesis using None by (simp add: Bind_def t)
  qed
qed

section \<open>Runs\<close>

fun bound_by :: "string \<Rightarrow> 'm android_event \<Rightarrow> nat list" where
  "bound_by n (Java_binds m java a) = (if n = m then [java] else [])"
| "bound_by n e = []"

fun binds_name :: "'m android_event \<Rightarrow> string set" where
  "binds_name (Java_binds n java a) = {n}"
| "binds_name e = {}"

definition names :: "bound_counterparts \<times> 'm service \<Rightarrow> string set" where
  "names t = fst ` set (table (snd t))"

lemma android_step_ok:
  assumes "android_ok t" "android_step ops alive e t = Some (t', js)"
  shows "android_ok t' \<and> refs_of n t' = refs_of n t @ bound_by n e \<and> names t \<union> binds_name e \<subseteq> names t'"
proof (cases e)
  case (Java_binds m java a)
  then show ?thesis
    using assms(2) Bind_ok [OF assms(1), of a ops m java n] by (auto simp: names_def split: if_splits)
next
  case (Java_changes m op)
  then obtain entry where "observed_change ops alive entry op t = (t', js)"
    using assms(2) by (auto simp: change_with_name_def split: option.splits)
  with Java_changes show ?thesis using observed_change_ok [OF assms(1), of ops alive entry op t' js] by (simp add: names_def)
next
  case (Configuration_changes a op)
  then obtain entry where "observed_change ops alive entry op t = (t', js)" using assms(2) by auto
  with Configuration_changes show ?thesis using observed_change_ok [OF assms(1), of ops alive entry op t' js] by (simp add: names_def)
next
  case (Maintainer_at_work a w)
  obtain b s where t: "t = (b, s)" by (cases t)
  have same: "same_entries s (service_step ops (Maintainer_works a w) s)" by (auto intro: change_entry_same)
  have "t' = (b, service_step ops (Maintainer_works a w) s)" using assms(2) Maintainer_at_work by (simp add: t)
  then show ?thesis
    using same_entries_ok [OF assms(1) [unfolded t] same, of n] Maintainer_at_work by (simp add: t names_def)
qed

lemma android_run_ok:
  "android_ok t \<Longrightarrow> android_run ops alive es t = Some t' \<Longrightarrow>
     android_ok t' \<and> refs_of n t' = refs_of n t @ concat (map (bound_by n) es) \<and> names t \<union> \<Union> (binds_name ` set es) \<subseteq> names t'"
proof (induction es arbitrary: t)
  case (Cons e es)
  obtain u js where u: "android_step ops alive e t = Some (u, js)" "android_run ops alive es u = Some t'"
    using Cons.prems(2) by (auto split: Option.bind_splits)
  note step = android_step_ok [OF Cons.prems(1) u(1), of n]
  then show ?case using Cons.IH [OF _ u(2)] by auto
qed simp

lemma named_configuration:
  assumes "n \<in> names (b, s)"
  obtains e where "GetInstalledConfigurationWithName n s = Some e"
  using assms installed_NoneD [of n s] by (cases "GetInstalledConfigurationWithName n s") (auto simp: names_def map_of_eq_None_iff)

lemma change_tells:
  assumes "android_ok (b, s)" "GetInstalledConfigurationWithName n s = Some e"
  shows "snd (observed_change ops alive e op (b, s)) =
    (if change_settings op (settings_of (en_configuration e)) = settings_of (en_configuration e) then []
     else map (\<lambda>java. Java_event java (notification_of op)) (filter alive (refs_of n (b, s))))"
proof -
  note e = installed_SomeD [OF assms(2)]
  have "config_ok (en_configuration e)" using assms(1) e(1) by (simp add: android_ok_def)
  note ns = apply_op_notifies [OF this, of op "sv_prefs s"]
  have "Notify alive (en_address e) m b = map (\<lambda>java. Java_event java m) (filter alive (refs_of n (b, s)))" for m
    by (simp add: Notify_def refs_of_def e(3) bound_def split: option.split)
  then show ?thesis
    using ns by (cases "apply_op op (en_configuration e) (sv_prefs s)") (simp add: observed_change_def)
qed

section \<open>Properties\<close>

text \<open>However Java binds objects and changes configurations, and whatever else changes them, there is one configuration
  for every name, and a call for a name that was bound never meets a configuration that is not there.\<close>

theorem one_configuration_for_every_name:
  assumes "android_ok ([], s0)" "android_run ops alive es ([], s0) = Some (b, s)"
  shows "distinct (map (cfg_name \<circ> en_configuration) (sv_maintainers s)) \<and>
    (\<forall>n java a op. Java_binds n java a \<in> set es \<longrightarrow> change_with_name ops alive n op (b, s) \<noteq> None)"
proof -
  note run = android_run_ok [OF assms]
  have "change_with_name ops alive n op (b, s) \<noteq> None" if "Java_binds n java a \<in> set es" for n java a op
  proof -
    have "n \<in> names (b, s)" using run that by force
    then show ?thesis by (rule named_configuration) (simp add: change_with_name_def)
  qed
  moreover have "map fst (table s) = map (cfg_name \<circ> en_configuration) (sv_maintainers s)" by (simp add: table_def)
  ultimately show ?thesis using run by (auto simp: android_ok_def)
qed

text \<open>C40: A change that Java makes by name is told exactly when it changes the settings, to exactly the Java objects that
  were bound to that name and still live, once for every time they were bound and in that order.\<close>

theorem java_objects_are_told_of_every_change:
  assumes "android_ok ([], s0)" "android_run ops alive es ([], s0) = Some (b, s)"
    "GetInstalledConfigurationWithName n s = Some e" "change_with_name ops alive n op (b, s) = Some (t, js)"
  shows "js =
    (if change_settings op (settings_of (en_configuration e)) = settings_of (en_configuration e) then []
     else map (\<lambda>java. Java_event java (notification_of op)) (filter alive (concat (map (bound_by n) es))))"
proof -
  note run = android_run_ok [OF assms(1,2), of n]
  have "refs_of n ([], s0) = []" by (simp add: refs_of_def bound_def split: option.split)
  then have "refs_of n (b, s) = concat (map (bound_by n) es)" using run by simp
  moreover have "js = snd (observed_change ops alive e op (b, s))" using assms(3,4) by (simp add: change_with_name_def)
  ultimately show ?thesis using change_tells [OF _ assms(3), of b ops alive op] run by simp
qed

section \<open>Examples\<close>

definition example_android_events :: "maintainer option android_event list" where
  "example_android_events =
     [Java_binds ''adblock'' 1 5, Java_binds ''other'' 2 6, Java_binds ''adblock'' 3 7, Java_binds ''adblock'' 4 7]"

definition example_bindings :: "(bound_counterparts \<times> maintainer option service) option" where
  "example_bindings = android_run (profile_ops example_maintainer_env) (\<lambda>java. java \<noteq> 3) example_android_events
     ([], new_SubscriptionService [] example_directories)"

lemma example_no_bindings: "android_ok ([], new_SubscriptionService prefs directories)"
  by (simp add: android_ok_def table_def new_SubscriptionService_def)

lemma example_bindings_defined: "\<not> Option.is_none example_bindings" by code_simp

theorem one_configuration_for_every_name_witness:
  "map (cfg_name \<circ> en_configuration) (sv_maintainers (snd (the example_bindings))) = [''adblock'', ''other''] \<and>
   distinct (map (cfg_name \<circ> en_configuration) (sv_maintainers (snd (the example_bindings))))"
proof -
  obtain b s where r: "example_bindings = Some (b, s)" using example_bindings_defined by (auto simp: Option.is_none_def)
  have "map (cfg_name \<circ> en_configuration) (sv_maintainers (snd (the example_bindings))) = [''adblock'', ''other'']" by code_simp
  moreover have "distinct (map (cfg_name \<circ> en_configuration) (sv_maintainers s))"
    using one_configuration_for_every_name [OF example_no_bindings r [unfolded example_bindings_def]] by blast
  ultimately show ?thesis by (simp add: r)
qed

theorem java_objects_are_told_of_every_change_witness:
  "snd (the (change_with_name (profile_ops example_maintainer_env) (\<lambda>java. java \<noteq> 3) ''adblock'' (Op_AddAllowedDomain ''a.com'')
      (the example_bindings))) = [Java_event 1 AllowedDomainsChanged, Java_event 4 AllowedDomainsChanged]"
proof -
  let ?call = "change_with_name (profile_ops example_maintainer_env) (\<lambda>java. java \<noteq> 3) ''adblock'' (Op_AddAllowedDomain ''a.com'')"
  obtain b s where r: "example_bindings = Some (b, s)" using example_bindings_defined by (auto simp: Option.is_none_def)
  have "\<not> Option.is_none (GetInstalledConfigurationWithName ''adblock'' (snd (the example_bindings)))" by code_simp
  then obtain e where e: "GetInstalledConfigurationWithName ''adblock'' s = Some e" by (auto simp: r Option.is_none_def)
  then obtain t js where c: "?call (b, s) = Some (t, js)" by (cases "?call (b, s)") (auto simp: change_with_name_def)
  have "(case GetInstalledConfigurationWithName ''adblock'' (snd (the example_bindings)) of
      None \<Rightarrow> False | Some e \<Rightarrow> ''a.com'' \<notin> set (GetAllowedDomains (en_configuration e)))" by code_simp
  then have "set_domains (change_settings (Op_AddAllowedDomain ''a.com'') (settings_of (en_configuration e))) \<noteq>
      set_domains (settings_of (en_configuration e))"
    by (simp add: r e settings_of_def add_once_def)
  then have "change_settings (Op_AddAllowedDomain ''a.com'') (settings_of (en_configuration e)) \<noteq> settings_of (en_configuration e)"
    by metis
  then have "js = [Java_event 1 AllowedDomainsChanged, Java_event 4 AllowedDomainsChanged]"
    using java_objects_are_told_of_every_change [OF example_no_bindings r [unfolded example_bindings_def] e c]
    by (simp add: example_android_events_def)
  then show ?thesis by (simp add: r c)
qed

end
