(* ===== verification/Converter_Tool.thy ===== *)
theory Converter_Tool
  imports Parser_Properties
begin

text \<open>
  \<open>converter/converter_main.cc\<close>: the program that converts a filter list for the bundles that come with the
  browser. Files, decompression, URL parsing and the bytes of a converted list are parameters; what is written is a list
  of paths with contents.
\<close>

section \<open>The program\<close>

record tool_env =
  tl_MakeAbsoluteFilePath :: "string \<Rightarrow> string"
  tl_ReadFileToString :: "string \<Rightarrow> string option"
  tl_MatchesFinalExtension :: "string \<Rightarrow> string \<Rightarrow> bool"
  tl_GzipUncompress :: "string \<Rightarrow> string option"
  tl_parse_url :: "string \<Rightarrow> gurl"
  tl_schema_version :: string
  tl_data :: "flat_Subscription \<Rightarrow> string"
  tl_writable :: "string \<Rightarrow> bool"

definition tool_Convert :: "tool_env \<Rightarrow> string \<Rightarrow> gurl \<Rightarrow> string \<Rightarrow> bool \<times> (string \<times> string) list" where
  "tool_Convert env input_path url output_path =
     (if \<not> is_valid url then (False, [])
      else
        (case tl_ReadFileToString env input_path of
           None \<Rightarrow> (False, [])
         | Some content \<Rightarrow>
             (case (if tl_MatchesFinalExtension env input_path ''.gz'' then tl_GzipUncompress env content else Some content) of
                None \<Rightarrow> (False, [])
              | Some content \<Rightarrow>
                  (case ConvertStream (tl_schema_version env) (tl_parse_url env) (Some content) url True of
                     ConversionError e \<Rightarrow> (False, [])
                   | Redirect u \<Rightarrow> (False, [])
                   | Converted sub \<Rightarrow>
                       (if \<not> tl_writable env output_path then (False, []) else (True, [(output_path, tl_data env sub)]))))))"

text \<open>The exit code, and what was written.\<close>

definition tool_main :: "tool_env \<Rightarrow> string list \<Rightarrow> int \<times> (string \<times> string) list" where
  "tool_main env positional_arguments =
     (if length positional_arguments \<noteq> 3 then (1, [])
      else
        (let input_path = tl_MakeAbsoluteFilePath env (positional_arguments ! 0);
             url = tl_parse_url env (positional_arguments ! 1);
             output_path = positional_arguments ! 2;
             (converted, written) = tool_Convert env input_path url output_path
         in if \<not> converted then (1, written) else (0, written)))"

section \<open>What it guarantees\<close>

text \<open>The text that is converted.\<close>

definition tool_input :: "tool_env \<Rightarrow> string \<Rightarrow> string option" where
  "tool_input env path =
     (case tl_ReadFileToString env path of
        None \<Rightarrow> None
      | Some content \<Rightarrow> if tl_MatchesFinalExtension env path ''.gz'' then tl_GzipUncompress env content else Some content)"

lemma tool_Convert_iff:
  "tool_Convert env i u p = (True, w) \<longleftrightarrow>
     is_valid u \<and> tl_writable env p \<and>
     (\<exists>content sub. tool_input env i = Some content \<and>
        ConvertStream (tl_schema_version env) (tl_parse_url env) (Some content) u True = Converted sub \<and> w = [(p, tl_data env sub)])"
  by (auto simp: tool_Convert_def tool_input_def split: option.splits ConversionResult.splits if_splits)

lemma tool_Convert_fails: "tool_Convert env i u p = (False, w) \<Longrightarrow> w = []"
  by (auto simp: tool_Convert_def split: option.splits ConversionResult.splits if_splits)

text \<open>The program succeeds exactly when it has three arguments, the URL is valid, the list can be read and is converted,
  and the file can be written; then it writes this file and no other, and otherwise it writes nothing.\<close>

theorem the_tool_writes_converted_lists_only:
  "(fst (tool_main env args) = 0 \<longleftrightarrow>
     (\<exists>i u p content sub. args = [i, u, p] \<and> is_valid (tl_parse_url env u) \<and> tl_writable env p \<and>
        tool_input env (tl_MakeAbsoluteFilePath env i) = Some content \<and>
        ConvertStream (tl_schema_version env) (tl_parse_url env) (Some content) (tl_parse_url env u) True = Converted sub \<and>
        snd (tool_main env args) = [(p, tl_data env sub)])) \<and>
   (fst (tool_main env args) = 0 \<or> tool_main env args = (1, []))"
proof (cases "length args = 3")
  case True
  then obtain i u p where args: "args = [i, u, p]" by (auto simp: length_Suc_conv eval_nat_numeral)
  let ?c = "tool_Convert env (tl_MakeAbsoluteFilePath env i) (tl_parse_url env u) p"
  obtain b v where c: "?c = (b, v)" by (cases ?c)
  have main: "tool_main env [i, u, p] = (if b then (0, v) else (1, v))" by (simp add: tool_main_def c Let_def)
  show ?thesis
    unfolding args using c tool_Convert_iff [of env "tl_MakeAbsoluteFilePath env i" "tl_parse_url env u" p v]
      tool_Convert_fails [of env "tl_MakeAbsoluteFilePath env i" "tl_parse_url env u" p v]
    by (cases b) (auto simp: main)
qed (auto simp: tool_main_def)

end
