(* ===== verification/Debug_Commands.thy ===== *)
theory Debug_Commands
  imports Private_Api Controller_Facts
begin

text \<open>
  \<open>content/browser/adblock_url_loader_factory_for_test.cc\<close>: builds with the debug URL let a page of the host
  "adblock.test.data" read and change the settings: the path of the URL is a command. The path and the query of a URL,
  URL decoding and the data pipe are parameters, and so are the URLs of the subscriptions the controller lists.
\<close>

section \<open>Words\<close>

definition kResponseOk :: string where "kResponseOk = ''OK''"
definition kResponseInvalidCommand :: string where "kResponseInvalidCommand = ''INVALID_COMMAND''"
definition kTopicFilters :: string where "kTopicFilters = ''filters''"
definition kTopicDomains :: string where "kTopicDomains = ''domains''"
definition kTopicSubscriptions :: string where "kTopicSubscriptions = ''subscriptions''"
definition kTopicAdblock :: string where "kTopicAdblock = ''adblock''"
definition kTopicAcceptableAds :: string where "kTopicAcceptableAds = ''aa''"
definition kTopicHelp :: string where "kTopicHelp = ''help''"
definition kActionAdd :: string where "kActionAdd = ''add''"
definition kActionClear :: string where "kActionClear = ''clear''"
definition kActionList :: string where "kActionList = ''list''"
definition kActionRemove :: string where "kActionRemove = ''remove''"
definition kActionEnable :: string where "kActionEnable = ''enable''"
definition kActionDisable :: string where "kActionDisable = ''disable''"
definition kActionState :: string where "kActionState = ''state''"
definition kAdblockDebugDataHostName :: string where "kAdblockDebugDataHostName = ''adblock.test.data''"

lemmas debug_words = kResponseOk_def kResponseInvalidCommand_def kTopicFilters_def kTopicDomains_def kTopicSubscriptions_def
  kTopicAdblock_def kTopicAcceptableAds_def kTopicHelp_def kActionAdd_def kActionClear_def kActionList_def kActionRemove_def
  kActionEnable_def kActionDisable_def kActionState_def

definition kHelp :: string where
  "kHelp = CHR 0x0A # concat (map (\<lambda>l. l @ [CHR 0x0A]) [
    ''  Command syntax `adblock.test.data/[topic]/[action]/[payload]` where:'',
    ''  - `topic` is either `domains` (allowed domains), `filters`, `subscriptions`,'',
    ''    `adblock`, `aa` (Acceptable Ads)'',
    ''  - `action` is either:'',
    ''      - `add`, `clear` (remove all), `list`, `remove` valid for `domains`,'',
    ''        `filters` and `subscriptions`'',
    ''      - `enable`, `disable` or `state` valid for `aa` and `adblock`'',
    ''  - `payload` is url encoded string required for action `add` and `remove`.'',
    ''  When adding or removing filter/domain/subscription one can encode several'',
    ''  entries splitting them by a new line character.'',
    '''',
    ''  An example:'',
    ''  Call `adblock.test.data/filters/add/%2FadsPlugin%2F%2A%0A%2Fadsponsor.`'',
    ''  Then calling `adblock.test.data/filters/list` returns:'',
    '''',
    ''    OK'',
    '''',
    ''    /adsPlugin/*'',
    ''    /adsponsor.''])"

definition payload_delimiter :: char where
  "payload_delimiter = CHR 0x0A"

section \<open>Commands\<close>

record debug_env =
  dc_config :: config_env
  dc_path :: "gurl \<Rightarrow> string"
  dc_query :: "gurl \<Rightarrow> string"
  dc_DecodeURLEscapeSequences :: "string \<Rightarrow> string"
  dc_pipe :: "string \<Rightarrow> nat option"

definition DecodePayload :: "debug_env \<Rightarrow> string \<Rightarrow> string" where
  "DecodePayload env encoded = dc_DecodeURLEscapeSequences env encoded"

definition debug_GetPayload :: "string \<Rightarrow> string" where
  "debug_GetPayload input = (if StartsWith input ''payload='' then drop 8 input else [])"

definition GetCommandElements :: "debug_env \<Rightarrow> gurl \<Rightarrow> string list" where
  "GetCommandElements env url =
     (let path = dc_path env url
      in if length path > 1 then
           (let path = drop 1 path;
                command_elements = SplitStringNonempty path (CHR ''/'') KEEP_WHITESPACE
            in if length command_elements = 1 \<and> (path = kActionAdd \<or> path = kActionRemove) \<and> debug_GetPayload (dc_query env url) \<noteq> []
               then [kTopicFilters, if path = kActionAdd then kActionAdd else kActionRemove, debug_GetPayload (dc_query env url)]
               else command_elements)
         else [])"

text \<open>The pointers to operations of the controller are functions.\<close>

definition Clear :: "(controller \<Rightarrow> string list) \<Rightarrow> (string \<Rightarrow> controller \<Rightarrow> controller) \<Rightarrow> controller \<Rightarrow> controller" where
  "Clear getter action s = fold action (getter s) s"

definition AddOrRemove :: "(string \<Rightarrow> controller \<Rightarrow> controller) \<Rightarrow> string \<Rightarrow> controller \<Rightarrow> controller" where
  "AddOrRemove action items s = fold action (SplitStringNonempty items payload_delimiter TRIM_WHITESPACE) s"

definition ClearSubscriptions :: "gurl list \<Rightarrow> controller \<Rightarrow> controller" where
  "ClearSubscriptions installed s = fold UninstallSubscription installed s"

definition ListSubscriptions :: "gurl list \<Rightarrow> string list" where
  "ListSubscriptions installed = map spec installed"

definition AddOrRemoveSubscription :: "debug_env \<Rightarrow> (gurl \<Rightarrow> controller \<Rightarrow> controller) \<Rightarrow> string \<Rightarrow> controller \<Rightarrow> controller" where
  "AddOrRemoveSubscription env action items s =
     fold (\<lambda>item. action (ce_parse_url (dc_config env) item)) (SplitStringNonempty items payload_delimiter TRIM_WHITESPACE) s"

text \<open>How a list of items is answered.\<close>

definition listing :: "string list \<Rightarrow> string" where
  "listing items =
     kResponseOk @ (if items \<noteq> [] then [CHR 0x0A, CHR 0x0A] @ concat (map (\<lambda>item. item @ [CHR 0x0A]) items) else [])"

text \<open>The three groups of topics; \<open>None\<close> goes on to the answer for an invalid command.\<close>

definition subscriptions_command :: "debug_env \<Rightarrow> gurl list \<Rightarrow> string list \<Rightarrow> controller \<Rightarrow> (string \<times> controller) option" where
  "subscriptions_command env installed command_elements s =
     (let action = command_elements ! 1
      in if length command_elements = 3 then
           (let payload = DecodePayload env (command_elements ! 2);
                action_ptr = (if action = kActionAdd then Some InstallSubscription
                              else if action = kActionRemove then Some UninstallSubscription else None)
            in case action_ptr of
                 Some f \<Rightarrow> Some (kResponseOk, AddOrRemoveSubscription env f payload s)
               | None \<Rightarrow> None)
         else if action = kActionClear then Some (kResponseOk, ClearSubscriptions installed s)
         else if action = kActionList then Some (listing (ListSubscriptions installed), s)
         else None)"

definition items_command :: "debug_env \<Rightarrow> string list \<Rightarrow> controller \<Rightarrow> (string \<times> controller) option" where
  "items_command env command_elements s =
     (let topic = command_elements ! 0; action = command_elements ! 1
      in if length command_elements = 3 then
           (let payload = DecodePayload env (command_elements ! 2);
                action_ptr =
                  (if topic = kTopicFilters then
                     if action = kActionAdd then Some ctl_AddCustomFilter
                     else if action = kActionRemove then Some ctl_RemoveCustomFilter else None
                   else
                     if action = kActionAdd then Some ctl_AddAllowedDomain
                     else if action = kActionRemove then Some ctl_RemoveAllowedDomain else None)
            in case action_ptr of
                 Some f \<Rightarrow> Some (kResponseOk, AddOrRemove f payload s)
               | None \<Rightarrow> None)
         else
           (let (deleter, getter) =
                  (if action = kActionClear then
                     if topic = kTopicFilters then (Some ctl_RemoveCustomFilter, Some ctl_GetCustomFilters)
                     else (Some ctl_RemoveAllowedDomain, Some ctl_GetAllowedDomains)
                   else if action = kActionList then
                     if topic = kTopicFilters then (None, Some ctl_GetCustomFilters) else (None, Some ctl_GetAllowedDomains)
                   else (None, None))
            in case (deleter, getter) of
                 (Some d, Some g) \<Rightarrow> Some (kResponseOk, Clear g d s)
               | (None, Some g) \<Rightarrow> Some (listing (g s), s)
               | _ \<Rightarrow> None))"

definition switch_command :: "debug_env \<Rightarrow> string list \<Rightarrow> controller \<Rightarrow> (string \<times> controller) option" where
  "switch_command env command_elements s =
     (let topic = command_elements ! 0; action = command_elements ! 1
      in if action = kActionState then
           (let enabled = (if topic = kTopicAdblock then IsAdblockEnabled s else IsAcceptableAdsEnabled (dc_config env) s)
            in Some (kResponseOk @ [CHR 0x0A, CHR 0x0A] @ (if enabled then ''enabled'' else ''disabled''), s))
         else
           (case (if action = kActionEnable then Some True else if action = kActionDisable then Some False else None) of
              Some value \<Rightarrow>
                Some (kResponseOk, if topic = kTopicAdblock then SetAdblockEnabled value s else SetAcceptableAdsEnabled (dc_config env) value s)
            | None \<Rightarrow> None))"

definition HandleCommand :: "debug_env \<Rightarrow> gurl list \<Rightarrow> gurl \<Rightarrow> controller \<Rightarrow> string \<times> controller" where
  "HandleCommand env installed url s =
     (let command_elements = GetCommandElements env url
      in if length command_elements = 1 \<and> command_elements ! 0 = kTopicHelp then (kHelp, s)
         else
           (case (if length command_elements > 1 then
                    (let topic = command_elements ! 0
                     in if topic = kTopicSubscriptions then subscriptions_command env installed command_elements s
                        else if topic = kTopicFilters \<or> topic = kTopicDomains then items_command env command_elements s
                        else if topic = kTopicAdblock \<or> topic = kTopicAcceptableAds then switch_command env command_elements s
                        else None)
                  else None) of
              Some answer \<Rightarrow> answer
            | None \<Rightarrow> (kResponseInvalidCommand, s)))"

section \<open>Requests\<close>

text \<open>The pipe may take fewer bytes than the answer has.\<close>

datatype debug_effect =
    Insufficient_resources
  | Text_response string nat

definition SendResponse :: "debug_env \<Rightarrow> string \<Rightarrow> debug_effect" where
  "SendResponse env response_body =
     (case dc_pipe env response_body of
        None \<Rightarrow> Insufficient_resources
      | Some write_size \<Rightarrow> Text_response (take write_size response_body) write_size)"

definition debug_CreateLoaderAndStart :: "debug_env \<Rightarrow> loader_env \<Rightarrow> gurl list \<Rightarrow> ResourceRequest \<Rightarrow> controller \<times> loader_factory \<Rightarrow>
    (controller \<times> loader_factory) \<times> (debug_effect + loader_effect list)" where
  "debug_CreateLoaderAndStart env loader installed request = (\<lambda>(s, f).
     (if host (rr_url request) \<noteq> kAdblockDebugDataHostName then
        (let (f, es) = CreateLoaderAndStart loader request f in ((s, f), Inr es))
      else
        (let (response_body, s) = HandleCommand env installed (rr_url request) s
         in ((s, f), Inl (SendResponse env response_body)))))"

end
