(* ===== verification/Debug_Contract.thy ===== *)
theory Debug_Contract
  imports Debug_Commands
begin

text \<open>
  What the debug commands do to the settings: every command is a list of operations on the configuration, and what is
  listed is what was added.
\<close>

section \<open>Commands as operations\<close>

definition payload_items :: "debug_env \<Rightarrow> string \<Rightarrow> string list" where
  "payload_items env payload = SplitStringNonempty (DecodePayload env payload) payload_delimiter TRIM_WHITESPACE"

lemma fold_on_configuration: "fold (\<lambda>x. on_configuration (op x)) xs s = on_all (map op xs) s"
  by (simp add: on_all_def fold_map comp_def)

lemma action_ops:
  "ctl_AddCustomFilter = (\<lambda>x. on_configuration (Op_AddCustomFilter x))"
  "ctl_RemoveCustomFilter = (\<lambda>x. on_configuration (Op_RemoveCustomFilter x))"
  "ctl_AddAllowedDomain = (\<lambda>x. on_configuration (Op_AddAllowedDomain x))"
  "ctl_RemoveAllowedDomain = (\<lambda>x. on_configuration (Op_RemoveAllowedDomain x))"
  "InstallSubscription = (\<lambda>x. on_configuration (Op_AddFilterList x))"
  "UninstallSubscription = (\<lambda>x. on_configuration (Op_RemoveFilterList x))"
  by (simp_all add: fun_eq_iff ctl_AddCustomFilter_def ctl_RemoveCustomFilter_def ctl_AddAllowedDomain_def
      ctl_RemoveAllowedDomain_def InstallSubscription_def UninstallSubscription_def)

text \<open>A state that some operations lead to, apart from the events.\<close>

definition reached :: "controller \<Rightarrow> controller \<Rightarrow> bool" where
  "reached s s' \<longleftrightarrow> (\<exists>ops. controller_settings s' = fold change_settings ops (controller_settings s)) \<and> controller_ok s'"

lemma reached_on_all: "controller_ok s \<Longrightarrow> reached s (on_all ops s)"
  using on_all_settings by (auto simp: reached_def)

lemma reached_refl: "controller_ok s \<Longrightarrow> reached s s"
  using reached_on_all [of s "[]"] by simp

lemma reached_enabled: "controller_ok s \<Longrightarrow> reached s (SetAdblockEnabled b s)"
  using on_configuration_settings [of s "Op_SetEnabled b"]
  by (auto simp: reached_def SetAdblockEnabled_def Let_def intro: exI [of _ "[Op_SetEnabled b]"])

lemma reached_aa: "controller_ok s \<Longrightarrow> reached s (SetAcceptableAdsEnabled env b s)"
  using reached_on_all [of s "[acceptable_ads_op env b]"] by (simp add: SetAcceptableAds_op)

lemmas folds = AddOrRemove_def Clear_def ClearSubscriptions_def AddOrRemoveSubscription_def action_ops fold_on_configuration

lemma starts_with_ok: "kResponseOk @ t \<noteq> kResponseInvalidCommand" "kResponseOk \<noteq> kResponseInvalidCommand"
    "listing items \<noteq> kResponseInvalidCommand" "kHelp \<noteq> kResponseInvalidCommand"
  by (simp_all add: listing_def debug_words kHelp_def)

lemma groups_reach:
  assumes "controller_ok s"
  shows "subscriptions_command env installed ce s = Some (r, t) \<Longrightarrow> r \<noteq> kResponseInvalidCommand \<and> reached s t"
    "items_command env ce s = Some (r, t) \<Longrightarrow> r \<noteq> kResponseInvalidCommand \<and> reached s t"
    "switch_command env ce s = Some (r, t) \<Longrightarrow> r \<noteq> kResponseInvalidCommand \<and> reached s t"
  using assms
  by (auto simp: subscriptions_command_def items_command_def switch_command_def Let_def folds starts_with_ok reached_on_all
      reached_refl reached_enabled reached_aa split: if_splits option.splits prod.splits)

section \<open>Items\<close>

definition items_of :: "string \<Rightarrow> settings \<Rightarrow> string list" where
  "items_of topic st = (if topic = kTopicFilters then set_filters st else set_domains st)"

definition add_op :: "string \<Rightarrow> string \<Rightarrow> config_op" where
  "add_op topic = (if topic = kTopicFilters then Op_AddCustomFilter else Op_AddAllowedDomain)"

definition remove_op :: "string \<Rightarrow> string \<Rightarrow> config_op" where
  "remove_op topic = (if topic = kTopicFilters then Op_RemoveCustomFilter else Op_RemoveAllowedDomain)"

lemma items_folds:
  "items_of topic (fold change_settings (map (add_op topic) xs) st) = fold add_once xs (items_of topic st)"
  "items_of topic (fold change_settings (map (remove_op topic) xs) st) = fold remove1 xs (items_of topic st)"
  by (induction xs arbitrary: st) (auto simp: items_of_def add_op_def remove_op_def)

lemma fold_remove1_self: "fold remove1 xs xs = []"
proof -
  have "fold remove1 xs (xs @ ys) = ys" for ys :: "'a list"
    by (induction xs) simp_all
  from this [of "[]"] show ?thesis by simp
qed

lemma getter_items:
  "ctl_GetCustomFilters s = set_filters (controller_settings s)" "ctl_GetAllowedDomains s = set_domains (controller_settings s)"
  by (simp_all add: ctl_GetCustomFilters_def ctl_GetAllowedDomains_def controller_settings_def settings_of_def)

lemma item_topics:
  assumes "topic = kTopicFilters \<or> topic = kTopicDomains"
  shows "topic \<noteq> kTopicSubscriptions" "kTopicDomains \<noteq> kTopicFilters"
  using assms by (auto simp: debug_words)

lemma command_clear:
  assumes "topic = kTopicFilters \<or> topic = kTopicDomains" "GetCommandElements env u = [topic, kActionClear]"
  shows "HandleCommand env installed u s = (kResponseOk, on_all (map (remove_op topic) (items_of topic (controller_settings s))) s)"
  using assms item_topics [OF assms(1)]
  by (auto simp: HandleCommand_def items_command_def Let_def folds getter_items items_of_def remove_op_def debug_words)

lemma command_add:
  assumes "topic = kTopicFilters \<or> topic = kTopicDomains" "GetCommandElements env u = [topic, kActionAdd, payload]"
  shows "HandleCommand env installed u s = (kResponseOk, on_all (map (add_op topic) (payload_items env payload)) s)"
  using assms item_topics [OF assms(1)]
  by (auto simp: HandleCommand_def items_command_def Let_def folds add_op_def payload_items_def debug_words)

lemma command_list:
  assumes "topic = kTopicFilters \<or> topic = kTopicDomains" "GetCommandElements env u = [topic, kActionList]"
  shows "HandleCommand env installed u s = (listing (items_of topic (controller_settings s)), s)"
  using assms item_topics [OF assms(1)]
  by (auto simp: HandleCommand_def items_command_def Let_def getter_items items_of_def debug_words)

section \<open>Properties\<close>

text \<open>An invalid command changes nothing; every other command leaves settings that a list of
  operations on the configuration leads to.\<close>

theorem invalid_commands_change_nothing:
  assumes "controller_ok s" "HandleCommand env installed u s = (response, s')"
  shows "(response = kResponseInvalidCommand \<longrightarrow> s' = s) \<and> reached s s'"
proof (cases "response = kHelp \<or> (response, s') = (kResponseInvalidCommand, s)")
  case True
  then show ?thesis
    using assms reached_refl [OF assms(1)] groups_reach [OF assms(1)] starts_with_ok
    by (auto simp: HandleCommand_def Let_def split: if_splits option.splits)
next
  case False
  then show ?thesis
    using assms groups_reach [OF assms(1)] by (auto simp: HandleCommand_def Let_def split: if_splits option.splits)
qed

text \<open>What is added is listed: clearing the filters (or the allowed domains) by a debug URL, adding the lines of a payload
  and listing them gives exactly these lines, trimmed, each once and in their order, whatever was there before.\<close>

theorem debug_lists_show_what_was_added:
  assumes "controller_ok s" "topic = kTopicFilters \<or> topic = kTopicDomains"
    "GetCommandElements env clear_url = [topic, kActionClear]" "GetCommandElements env add_url = [topic, kActionAdd, payload]"
    "GetCommandElements env list_url = [topic, kActionList]"
    "HandleCommand env installed clear_url s = (r1, s1)" "HandleCommand env installed' add_url s1 = (r2, s2)"
    "HandleCommand env installed'' list_url s2 = (r3, s3)"
  shows "r1 = kResponseOk \<and> r2 = kResponseOk \<and> s3 = s2 \<and>
    r3 = listing (fold add_once (payload_items env payload) [])"
proof -
  have 1: "r1 = kResponseOk" "s1 = on_all (map (remove_op topic) (items_of topic (controller_settings s))) s"
    using assms(6) command_clear [OF assms(2,3)] by simp_all
  have "items_of topic (controller_settings s1) = []"
    using on_all_settings [OF assms(1)] by (simp add: 1(2) items_folds fold_remove1_self)
  moreover have "controller_ok s1" using on_all_settings [OF assms(1)] by (simp add: 1(2))
  moreover have 2: "r2 = kResponseOk" "s2 = on_all (map (add_op topic) (payload_items env payload)) s1"
    using assms(7) command_add [OF assms(2,4)] by simp_all
  ultimately have "items_of topic (controller_settings s2) = fold add_once (payload_items env payload) []"
    using on_all_settings [of s1] by (simp add: items_folds)
  then show ?thesis using assms(8) command_list [OF assms(2,5)] 1(1) 2(1) by simp
qed

section \<open>Examples\<close>

fun example_decode :: "string \<Rightarrow> string" where
  "example_decode (a # b # c # r) = (if [a, b, c] = ''%0A'' then CHR 0x0A # example_decode r else a # example_decode (b # c # r))"
| "example_decode r = r"

definition example_debug_env :: debug_env where
  "example_debug_env = \<lparr>dc_config = example_config_env, dc_path = (\<lambda>u. drop 24 (spec u)), dc_query = (\<lambda>u. []),
     dc_DecodeURLEscapeSequences = example_decode, dc_pipe = (\<lambda>s. Some (length s))\<rparr>"

definition debug_url :: "string \<Rightarrow> gurl" where
  "debug_url command = simple_gurl (''http://adblock.test.data'' @ command)"

theorem debug_lists_show_what_was_added_witness:
  "fst (HandleCommand example_debug_env [] (debug_url ''/domains/list'')
      (snd (HandleCommand example_debug_env [] (debug_url ''/domains/add/b.com%0A%20%0Aa.com%0Ab.com'')
        (snd (HandleCommand example_debug_env [] (debug_url ''/domains/clear'') (example_controller ''en'')))))) =
    listing [''b.com'', ''%20'', ''a.com'']"
proof -
  let ?h = "HandleCommand example_debug_env []" and ?c = "debug_url ''/domains/clear''"
  let ?a = "debug_url ''/domains/add/b.com%0A%20%0Aa.com%0Ab.com''" and ?l = "debug_url ''/domains/list''"
  let ?payload = "''b.com%0A%20%0Aa.com%0Ab.com''"
  have elements: "GetCommandElements example_debug_env ?c = [kTopicDomains, kActionClear]"
      "GetCommandElements example_debug_env ?a = [kTopicDomains, kActionAdd, ?payload]"
      "GetCommandElements example_debug_env ?l = [kTopicDomains, kActionList]" by code_simp+
  have items: "fold add_once (payload_items example_debug_env ?payload) [] = [''b.com'', ''%20'', ''a.com'']" by code_simp
  show ?thesis
    using debug_lists_show_what_was_added [OF example_controller_ok [of "''en''"] disjI2 [OF refl] elements
        surjective_pairing [of "?h ?c (example_controller ''en'')"] surjective_pairing surjective_pairing, of "[]" "[]"] items
    by (simp only: fst_conv)
qed

text \<open>Clearing the subscriptions only removes those that are installed or on their way: a list whose download failed stays.\<close>

lemma clear_keeps_lists_that_failed:
  "set_lists (controller_settings (snd (HandleCommand example_debug_env [] (debug_url ''/subscriptions/clear'')
     (InstallSubscription (simple_gurl ''https://a.com/x.txt'') (example_controller ''en''))))) = [''https://a.com/x.txt'']"
  by code_simp

text \<open>An answer that is longer than what the pipe takes is cut off.\<close>

lemma long_answers_are_cut:
  "dc_pipe env body = Some n \<Longrightarrow> n < length body \<Longrightarrow> \<exists>r. SendResponse env body = Text_response r n \<and> r \<noteq> body"
  by (auto simp: SendResponse_def)

end
