(* ===== verification/Spec2Isabelle.thy ===== *)
theory Spec2Isabelle
  imports Search_Completeness Elemhide_Search Parser_Properties Matcher_Properties Domain_Allowlisting
    Filtering_Configuration Storage_Facts Controller_Facts Maintainer_Contract Browser_Contract Extension_Contract Telemetry_Contract
    Android_Contract Converter_Tool Debug_Contract
begin

text \<open>
  A model of the ad blocking of the eyeo Chromium SDK: the core under \<open>src/components/adblock/core\<close>, its use of the
  browser under \<open>src/components/adblock/content/browser\<close>, and what \<open>src/chrome/browser\<close> builds of both.
  Below, \<open>core\<close>, \<open>content\<close> and \<open>chrome\<close> stand for these three directories.

  \<^bold>\<open>The program.\<close> A filter list is text. It is downloaded, converted line by line into a FlatBuffers file with indexes of
  keywords, signed, stored, and opened again at the next start. A configuration names the lists it wants, with domains
  that are allowed and filters of its own, and is stored in the preferences. A maintainer for every enabled
  configuration keeps the installed lists in step with it: it downloads what is missing, removes what is not wanted,
  updates what has expired, and stands in with the lists that come with the browser. It loads the stored lists on the
  thread pool and has none before the reply. The subscription service holds the maintainers of a profile, makes one when a
  configuration is switched on and destroys it when it is switched off, and makes snapshots of their subscriptions. A request, a popup, a web socket or a
  response is judged by the classifier over a snapshot, on a thread pool, with the frames of the page and its site key;
  the proxy of a frame holds each request and response back until the answer is there. Element hiding turns the
  selectors and snippets of a page into a style sheet and scripts. The user interface, extensions and Java change the
  configuration through the controller.

  \<^bold>\<open>Theories, bottom up.\<close>
    \<^item> \<open>Prelude\<close>, \<open>Common\<close>: the helpers of \<open>base/strings\<close>, URLs as records of their parts; content types, constants and
      utilities (\<open>core/common\<close>). \<open>Schema\<close>: the tables of \<open>core/schema/filter_list_schema.fbs\<close> as records, and the binary
      search of FlatBuffers.
    \<^item> \<open>Domain_Option\<close>, \<open>Snippets\<close>, \<open>Url_Filter_Options\<close>, \<open>Url_Filter\<close>, \<open>List_Metadata\<close>: the parser
      (\<open>core/converter/parser\<close>). \<open>Keywords\<close>, \<open>Serializer\<close>, \<open>Converter\<close>: \<open>core/converter/serializer\<close> and
      \<open>flatbuffer_converter.cc\<close>. \<open>Converter_Tool\<close>: \<open>converter_main.cc\<close>.
    \<^item> \<open>Pattern_Matcher\<close>, \<open>Regex_Matcher\<close>, \<open>Domain_Splitter\<close>, \<open>Installed_Subscription\<close>, \<open>Subscription_Collection\<close>,
      \<open>Resource_Classifier\<close>: from a pattern to the decision on a request (\<open>core/subscription\<close>, \<open>core/classifier\<close>).
    \<^item> \<open>Filtering_Configuration\<close>, \<open>Subscription_Config\<close>, \<open>Adblock_Controller\<close>: settings, known lists, first run and
      migration (\<open>core/configuration\<close>, \<open>adblock_controller_impl.cc\<close>).
    \<^item> \<open>Persistent_Metadata\<close>, \<open>Subscription_Storage\<close>, \<open>Subscription_Downloader\<close>, \<open>Preloaded_Provider\<close>, \<open>Maintainer\<close>,
      \<open>Subscription_Service\<close>: the lists of a profile (\<open>core/subscription\<close>, \<open>chrome/adblock/subscription_service_factory.cc\<close>).
    \<^item> \<open>Page_Context\<close>, \<open>Classification_Runner\<close>, \<open>Page_Injection\<close>, \<open>Url_Loader\<close>: frames and site keys, checks, element
      hiding, and the proxy (\<open>content\<close>). \<open>Browser_Client\<close>: \<open>chrome/adblock/adblock_content_browser_client.cc\<close>.
    \<^item> \<open>Private_Api\<close>, \<open>Android_Bindings\<close>, \<open>Debug_Commands\<close>, \<open>Telemetry\<close>: functions for extensions and the set-up of a profile,
      Java, the debug URL, and the telemetry of the active ping.

  Definitions have the names of the functions they translate, with a prefix where two classes share one. An object is a
  record, the calls of a class are functions from the old state to the new one and the effects they have (messages,
  callbacks, notifications) in their order. Main-thread tasks run in the order they were posted; tasks of the thread
  pool end in any order, which an event names (the directory of a maintainer was read, a list was written, a check is done).
  \<open>None\<close> is an event that cannot happen, or a call that the code forbids or
  leaves undefined (removing a subscription the storage does not know, a header filter without a name); assertions of
  debug builds are left out. \<open>maintainer_stays_in_step\<close> and \<open>downloads_are_allowed_and_do_not_hang\<close> say for the
  maintainer and the downloader which of the possible events are such calls. The loops of the code are structural or have a termination proof; the only bound is the
  code's own: the pattern matcher gives up at a recursion depth of 50 (\<open>kMaxRecursionDepth\<close>), and its specification
  says what that means. There is no fuel.

  \<^bold>\<open>What is shown.\<close>
    \<^item> Lists: \<open>Parser_Properties\<close>, \<open>Converter_Facts\<close>, \<open>Search_Completeness\<close>, \<open>Elemhide_Search\<close>, \<open>Pattern_Spec\<close> and
      \<open>Matcher_Properties\<close> show that accepted filters are well formed, that a converted list holds exactly the filters of its
      lines where readers look for them, that a search by keyword is a scan of all lines, and that the recursive
      matcher decides the declarative meaning of a pattern.
    \<^item> Decisions: \<open>Collection_Facts\<close>, \<open>Classifier_Properties\<close> and \<open>List_Decisions\<close> show that the classifier refines a
      specification that reads the text of the lists; \<open>Domain_Allowlisting\<close> that the filter made for an allowed domain works.
    \<^item> Settings: \<open>Filtering_Configuration\<close>, \<open>Controller_Facts\<close> and \<open>Extension_Contract\<close> show that every operation refines the
      abstract settings, which last over restarts, and that what extensions do is one of these operations or an error;
      \<open>Debug_Contract\<close> shows it for the debug URL.
    \<^item> Lists on disk and on the network: \<open>Storage_Facts\<close> (only files with a valid signature are loaded, what is governed is
      backed by its file, removed lists do not come back), \<open>Downloader_Facts\<close> (only allowed URLs; no download hangs, but for
      lists with a query in their URL, whose answers the code may lose), \<open>Maintainer_Frame\<close>,
      \<open>Maintainer_Facts\<close>, \<open>Maintainer_Properties\<close>, \<open>Maintainer_Contract\<close> (from the moment it is made the maintainer keeps its
      invariant through every event but two, which are findings, and brings the lists in step with the configuration),
      \<open>Service_Facts\<close> and \<open>Service_Contract\<close> (the maintainers of a profile follow their configurations, also while they load,
      and an allowed domain is not blocked, end to end).
    \<^item> Pages: \<open>Loader_Facts\<close>, \<open>Loader_Safety\<close>, \<open>Loader_Runs\<close>, \<open>Loader_Contract\<close>, \<open>Loader_Progress\<close> and \<open>Proxy_Properties\<close>
      show that in every run of the proxy nothing passes that was not judged, nothing is forgotten, and every check comes
      to an end; \<open>Page_Properties\<close>, \<open>Browser_Contract\<close>, \<open>Telemetry_Facts\<close>, \<open>Telemetry_Contract\<close> and \<open>Android_Contract\<close> treat site
      keys, style sheets, counters, web sockets, popups, the events of extensions, telemetry, and Java.

  Where one component relies on another the laws are a locale, interpreted on the model's own definitions: the search of
  a collection for a filter, the content of an index, the maintainers of the service (\<open>configuration_keeper\<close>) and the
  providers of telemetry topics (\<open>prompt_provider\<close>) among them.

  \<^bold>\<open>Parameters.\<close> Code that is not in the repository is an argument of the definitions that use it: parsing and
  changing URLs, registrable domains, the two regular expression engines, hashes, base64 and signatures, JSON, the
  reading of a FlatBuffers file, the conversion of times, the contents of resource bundles, the wildcard
  matcher, header views, data pipes and what Chromium's own browser client answers. Properties name what they need of them.

  \<^bold>\<open>Limits.\<close> The metadata of lists, which the maintainers of a profile share, is a copy in each; the files of a
  maintainer are those of its own directory, as in the code, and configurations of the same name are not made to share one
  while both are enabled. A maintainer that is destroyed leaves its files, signatures and metadata to the next one of
  that name; writes it had under way may end later, without a signature, but not between the end of a write and its reply,
  and the read of the directory that it had under way is left out. Telemetry has one clock for timers and stored times.
  Counters are numbers. The exactness of the index search
  leaves out patterns with bars inside and URLs that are not of a standard scheme, as its hypotheses say.

  \<^bold>\<open>Not modelled.\<close> The factories that hand one service of a profile to another, the names of switches and
  features, the JNI conversions and the Java element wrapper, the Java user interface, developer tools
  that compare databases, tests, build files, and the files of Chromium that hold a few lines of hooks: they have no
  state or decisions of the ad blocker, or are the browser itself.
\<close>

end
